(* ===== verification/Prelude.thy ===== *)
theory Prelude
  imports Main "HOL-Library.Char_ord" "HOL-Library.List_Lexorder"
begin

text \<open>
  The shared base of the development: the names of the model's basic types, the
  collections of facts that the component theories extend, and generic lemmas on
  lists, partial maps and bytes that no component owns.

  A Go \<open>string\<close> or \<open>[]byte\<close> is a list of bytes. Isabelle's \<open>char\<close> is exactly an
  8-bit value, so a byte is a \<open>char\<close> and a Go string is an Isabelle \<open>string\<close>; \<open>ord\<close> reads
  a byte as the number Go compares it with. A rune (\<open>int32\<close> in Go, never negative in
  what the relay decodes) is a code point, a natural number. A \<open>time.Time\<close> or
  \<open>time.Duration\<close> is a number of nanoseconds.
\<close>

named_theorems rune_simps \<open>rewriting of rune lists and their UTF-8 encodings\<close>
named_theorems trim_simps \<open>rewriting of the trimming functions of package strings\<close>
named_theorems store_simps \<open>what a lookup returns after an update of a store\<close>

type_synonym byte = char
type_synonym rune = nat
type_synonym gotime = int
type_synonym duration = int

abbreviation ord :: "char \<Rightarrow> nat" where
  "ord c \<equiv> of_char c"

section \<open>Bytes\<close>

lemma ord_less_256 [simp]: "ord c < 256"
  by (cases c) (simp add: of_char_def horner_sum_simps)

lemma ord_le_255 [simp]: "ord c \<le> 255"
  using ord_less_256 [of c] by linarith

lemma ord_char_of: "n < 256 \<Longrightarrow> ord (char_of n) = n"
  by simp

lemma ord_eq_iff [simp]: "ord c = ord d \<longleftrightarrow> c = d"
  by (rule of_char_eq_iff)

section \<open>Lists\<close>

text \<open>Dropping a class of elements from the end of a list, as the \<open>TrimRight\<close> family does.\<close>

definition drop_end :: "('a \<Rightarrow> bool) \<Rightarrow> 'a list \<Rightarrow> 'a list" where
  "drop_end P xs = rev (dropWhile P (rev xs))"

lemma drop_end_Nil [simp]: "drop_end P [] = []"
  by (simp add: drop_end_def)

lemma drop_end_snoc [simp]: "drop_end P (xs @ [x]) = (if P x then drop_end P xs else xs @ [x])"
  by (simp add: drop_end_def)

lemma drop_end_prefix: "\<exists>ys. xs = drop_end P xs @ ys \<and> (\<forall>y \<in> set ys. P y)"
proof (intro exI conjI)
  show "xs = drop_end P xs @ rev (takeWhile P (rev xs))"
    by (metis drop_end_def rev_append rev_rev_ident takeWhile_dropWhile_id)
  show "\<forall>y \<in> set (rev (takeWhile P (rev xs))). P y"
    by (auto dest: set_takeWhileD)
qed

lemma drop_end_length [simp]: "length (drop_end P xs) \<le> length xs"
  using length_dropWhile_le [of P "rev xs"] by (simp add: drop_end_def)

lemma set_drop_end: "set (drop_end P xs) \<subseteq> set xs"
  by (auto simp: drop_end_def dest: set_dropWhileD)

lemma drop_end_eq_Nil [simp]: "drop_end P xs = [] \<longleftrightarrow> (\<forall>x \<in> set xs. P x)"
  by (simp add: drop_end_def)

lemma drop_end_last: "drop_end P xs \<noteq> [] \<Longrightarrow> \<not> P (last (drop_end P xs))"
  by (simp add: drop_end_def last_rev hd_dropWhile)

lemma drop_end_id: "xs \<noteq> [] \<Longrightarrow> \<not> P (last xs) \<Longrightarrow> drop_end P xs = xs"
  by (cases xs rule: rev_cases) auto

lemma drop_end_idem [simp]: "drop_end P (drop_end P xs) = drop_end P xs"
  by (cases "drop_end P xs = []") (simp_all add: drop_end_id drop_end_last del: drop_end_eq_Nil)

lemma drop_end_map: "drop_end P (map f xs) = map f (drop_end (P \<circ> f) xs)"
  by (simp add: drop_end_def rev_map dropWhile_map)

lemma hd_drop_end: "xs \<noteq> [] \<Longrightarrow> drop_end P xs \<noteq> [] \<Longrightarrow> hd (drop_end P xs) = hd xs"
  using drop_end_prefix [of xs P] by (metis hd_append2)

lemma dropWhile_idem_hd: "xs = [] \<or> \<not> P (hd xs) \<Longrightarrow> dropWhile P xs = xs"
  by (cases xs) auto

lemma concat_map_length_le:
  "(\<And>x. x \<in> set xs \<Longrightarrow> length (f x) \<le> length (g x)) \<Longrightarrow>
     length (concat (map f xs)) \<le> length (concat (map g xs))"
  by (induction xs) (auto simp: add_mono)

text \<open>A slice that keeps the last \<open>n\<close> elements, \<open>xs[len(xs)-n:]\<close> in Go.\<close>

definition take_last :: "nat \<Rightarrow> 'a list \<Rightarrow> 'a list" where
  "take_last n xs = drop (length xs - n) xs"

lemma take_last_length [simp]: "length (take_last n xs) = min n (length xs)"
  by (simp add: take_last_def)

lemma set_take_last: "set (take_last n xs) \<subseteq> set xs"
  by (simp add: take_last_def set_drop_subset)

section \<open>Partial maps\<close>

text \<open>
  Deleting from a Go map, while ranging over it, every entry that satisfies a test. The
  order of iteration does not matter because the test looks at one entry at a time.
\<close>

definition map_filter_out :: "('k \<Rightarrow> 'v \<Rightarrow> bool) \<Rightarrow> ('k \<rightharpoonup> 'v) \<Rightarrow> ('k \<rightharpoonup> 'v)" where
  "map_filter_out P m = (\<lambda>k. case m k of None \<Rightarrow> None | Some v \<Rightarrow> if P k v then None else Some v)"

lemma map_filter_out_Some [simp]:
  "map_filter_out P m k = Some v \<longleftrightarrow> m k = Some v \<and> \<not> P k v"
  by (auto simp: map_filter_out_def split: option.splits)

lemma map_filter_out_None:
  "map_filter_out P m k = None \<longleftrightarrow> (\<forall>v. m k = Some v \<longrightarrow> P k v)"
  by (auto simp: map_filter_out_def split: option.splits)

lemma map_filter_out_dom: "dom (map_filter_out P m) \<subseteq> dom m"
  by (auto simp: map_filter_out_def split: option.splits)

text \<open>A separator that occurs once in the relevant part of a string splits it uniquely.\<close>

lemma split_first:
  "xs @ c # ys = xs' @ c # ys' \<Longrightarrow> c \<notin> set xs \<Longrightarrow> c \<notin> set xs' \<Longrightarrow> xs = xs' \<and> ys = ys'"
  by (induction xs arbitrary: xs') (auto simp: Cons_eq_append_conv append_eq_Cons_conv)

lemma split_last:
  assumes "xs @ c # ys = xs' @ c # ys'" "c \<notin> set ys" "c \<notin> set ys'"
  shows "xs = xs' \<and> ys = ys'"
  using split_first [of "rev ys" c "rev xs" "rev ys'" "rev xs'"] arg_cong [OF assms(1), of rev] assms(2,3) by simp

end
