(* ===== verification/GoStrings.thy ===== *)
theory GoStrings
  imports Prelude
begin

text \<open>
  What the relay uses of Go's string handling: UTF-8 decoding and encoding of runes
  (package unicode/utf8, \<open>range\<close> over a string, conversions between \<open>string\<close> and
  \<open>[]rune\<close>), and the functions of package strings. The decoder follows the acceptance
  table of unicode/utf8: an ill-formed byte decodes as U+FFFD with width one, overlong
  forms, surrogates and values above U+10FFFF are ill-formed.
\<close>

section \<open>UTF-8\<close>

definition RuneError :: rune where
  "RuneError = 0xFFFD"

definition valid_rune :: "rune \<Rightarrow> bool" where
  "valid_rune r \<longleftrightarrow> r < 0xD800 \<or> (0xE000 \<le> r \<and> r \<le> 0x10FFFF)"

definition is_cont :: "byte \<Rightarrow> bool" where
  "is_cont b \<longleftrightarrow> 0x80 \<le> ord b \<and> ord b \<le> 0xBF"

definition rune_start :: "byte \<Rightarrow> bool" where
  "rune_start b \<longleftrightarrow> \<not> is_cont b"

definition second_lo :: "nat \<Rightarrow> nat" where
  "second_lo x = (if x = 0xE0 then 0xA0 else if x = 0xF0 then 0x90 else 0x80)"

definition second_hi :: "nat \<Rightarrow> nat" where
  "second_hi x = (if x = 0xED then 0x9F else if x = 0xF4 then 0x8F else 0xBF)"

definition second_ok :: "byte \<Rightarrow> byte \<Rightarrow> bool" where
  "second_ok b0 b1 \<longleftrightarrow> second_lo (ord b0) \<le> ord b1 \<and> ord b1 \<le> second_hi (ord b0)"

fun decode_rune :: "string \<Rightarrow> rune \<times> nat" where
  "decode_rune [] = (RuneError, 0)"
| "decode_rune (b0 # s) =
     (if ord b0 < 0x80 then (ord b0, 1)
      else if 0xC2 \<le> ord b0 \<and> ord b0 \<le> 0xDF then
        (case s of
           b1 # _ \<Rightarrow> if is_cont b1 then ((ord b0 - 0xC0) * 64 + (ord b1 - 0x80), 2)
                     else (RuneError, 1)
         | [] \<Rightarrow> (RuneError, 1))
      else if 0xE0 \<le> ord b0 \<and> ord b0 \<le> 0xEF then
        (case s of
           b1 # b2 # _ \<Rightarrow>
             if second_ok b0 b1 \<and> is_cont b2
             then ((ord b0 - 0xE0) * 4096 + (ord b1 - 0x80) * 64 + (ord b2 - 0x80), 3)
             else (RuneError, 1)
         | _ \<Rightarrow> (RuneError, 1))
      else if 0xF0 \<le> ord b0 \<and> ord b0 \<le> 0xF4 then
        (case s of
           b1 # b2 # b3 # _ \<Rightarrow>
             if second_ok b0 b1 \<and> is_cont b2 \<and> is_cont b3
             then ((ord b0 - 0xF0) * 262144 + (ord b1 - 0x80) * 4096 +
                   (ord b2 - 0x80) * 64 + (ord b3 - 0x80), 4)
             else (RuneError, 1)
         | _ \<Rightarrow> (RuneError, 1))
      else (RuneError, 1))"

definition encode_rune :: "rune \<Rightarrow> string" where
  "encode_rune r =
     (if r \<le> 0x7F then [char_of r]
      else if r \<le> 0x7FF then [char_of (0xC0 + r div 64), char_of (0x80 + r mod 64)]
      else if \<not> valid_rune r then [char_of (0xEF::nat), char_of (0xBF::nat), char_of (0xBD::nat)]
      else if r \<le> 0xFFFF then
        [char_of (0xE0 + r div 4096), char_of (0x80 + r div 64 mod 64), char_of (0x80 + r mod 64)]
      else
        [char_of (0xF0 + r div 262144), char_of (0x80 + r div 4096 mod 64),
         char_of (0x80 + r div 64 mod 64), char_of (0x80 + r mod 64)])"

lemma decode_rune_width: "s \<noteq> [] \<Longrightarrow> 1 \<le> snd (decode_rune s) \<and> snd (decode_rune s) \<le> length s"
  by (cases s) (auto split: list.splits)

declare decode_rune.simps(2) [simp del]

text \<open>
  \<open>range\<close> over a string: the runes in order, each with the bytes it was decoded from.
\<close>

function rune_chunks :: "string \<Rightarrow> (rune \<times> string) list" where
  "rune_chunks s =
     (if s = [] then []
      else (fst (decode_rune s), take (snd (decode_rune s)) s)
           # rune_chunks (drop (snd (decode_rune s)) s))"
  by pat_completeness auto
termination
proof (relation "measure length")
  fix s :: string
  assume "s \<noteq> []"
  then show "(drop (snd (decode_rune s)) s, s) \<in> measure length"
    using decode_rune_width [of s] by simp
qed simp

declare rune_chunks.simps [simp del]

definition runes :: "string \<Rightarrow> rune list" where
  "runes s = map fst (rune_chunks s)"

definition encode_runes :: "rune list \<Rightarrow> string" where
  "encode_runes rs = concat (map encode_rune rs)"

definition valid_utf8 :: "string \<Rightarrow> bool" where
  "valid_utf8 s \<longleftrightarrow> encode_runes (runes s) = s"

lemma rune_chunks_Nil [simp]: "rune_chunks [] = []"
  by (simp add: rune_chunks.simps)

lemma rune_chunks_eq_Nil [simp]: "rune_chunks s = [] \<longleftrightarrow> s = []"
  by (subst rune_chunks.simps) simp

lemma rune_chunks_concat: "concat (map snd (rune_chunks s)) = s"
proof (induction s rule: rune_chunks.induct)
  case (1 s)
  then show ?case by (cases "s = []") (simp_all add: rune_chunks.simps [of s])
qed

lemma rune_chunks_append:
  "decode_rune (e @ s) = (r, length e) \<Longrightarrow> e \<noteq> [] \<Longrightarrow>
     rune_chunks (e @ s) = (r, e) # rune_chunks s"
  by (simp add: rune_chunks.simps [of "e @ s"])

lemma runes_Nil [simp]: "runes [] = []"
  by (simp add: runes_def)

lemma runes_eq_Nil [simp]: "runes s = [] \<longleftrightarrow> s = []"
  by (simp add: runes_def)

lemma encode_runes_Nil [simp]: "encode_runes [] = []"
  by (simp add: encode_runes_def)

lemma encode_runes_Cons [simp]: "encode_runes (r # rs) = encode_rune r @ encode_runes rs"
  by (simp add: encode_runes_def)

lemma encode_runes_append [simp]: "encode_runes (rs @ qs) = encode_runes rs @ encode_runes qs"
  by (simp add: encode_runes_def)

lemma encode_rune_nonempty [simp]: "encode_rune r \<noteq> []"
  by (simp add: encode_rune_def)

lemma encode_runes_eq_Nil [simp]: "encode_runes rs = [] \<longleftrightarrow> rs = []"
  by (cases rs) auto

lemma encode_rune_length: "length (encode_rune r) \<le> 4"
  by (simp add: encode_rune_def)

section \<open>Decoding undoes encoding\<close>

lemmas decode_unfold = decode_rune.simps(2) is_cont_def second_ok_def second_lo_def second_hi_def

lemma decode_encode_1: "r \<le> 0x7F \<Longrightarrow> decode_rune (encode_rune r @ s) = (r, 1)"
  by (simp add: encode_rune_def decode_unfold)

lemma decode_encode_2:
  assumes "0x7F < r" "r \<le> 0x7FF"
  shows "decode_rune (encode_rune r @ s) = (r, 2)"
proof -
  have "2 \<le> r div 64" "r div 64 \<le> 31" using assms by auto
  then show ?thesis using assms by (auto simp: encode_rune_def decode_unfold)
qed

lemma div_mod_64: "(r::nat) = r div 64 * 64 + r mod 64"
  by simp

lemma div_4096: "(r::nat) div 4096 = r div 64 div 64"
  by (simp add: div_mult2_eq [symmetric])

lemma div_262144: "(r::nat) div 262144 = r div 64 div 64 div 64"
  by (simp add: div_mult2_eq [symmetric])

lemma decode_encode_3:
  assumes "0x7FF < r" "r \<le> 0xFFFF" "valid_rune r"
  shows "decode_rune (encode_rune r @ s) = (r, 3)"
proof -
  define a b c where "a = r div 64 div 64" "b = r div 64 mod 64" "c = r mod 64"
  have r: "r = a * 4096 + b * 64 + c"
    using div_mod_64 [of r] div_mod_64 [of "r div 64"] unfolding a_b_c_def by linarith
  have m: "b < 64" "c < 64" by (simp_all add: a_b_c_def)
  then have d: "a \<le> 15" and lo: "a = 0 \<Longrightarrow> 32 \<le> b" using r assms by linarith+
  have hi: "a = 13 \<Longrightarrow> b < 32" using r m assms(3) unfolding valid_rune_def by linarith
  have "encode_rune r = [char_of (0xE0 + a), char_of (0x80 + b), char_of (0x80 + c)]"
    using assms by (simp add: encode_rune_def div_4096 a_b_c_def)
  then show ?thesis using d m lo hi r by (auto simp: decode_unfold)
qed

lemma decode_encode_4:
  assumes "0xFFFF < r" "valid_rune r"
  shows "decode_rune (encode_rune r @ s) = (r, 4)"
proof -
  define a b c d where "a = r div 64 div 64 div 64" "b = r div 64 div 64 mod 64"
    "c = r div 64 mod 64" "d = r mod 64"
  have r: "r = a * 262144 + b * 4096 + c * 64 + d"
    using div_mod_64 [of r] div_mod_64 [of "r div 64"] div_mod_64 [of "r div 64 div 64"]
    unfolding a_b_c_d_def by linarith
  have m: "b < 64" "c < 64" "d < 64" by (simp_all add: a_b_c_d_def)
  have v: "r \<le> 0x10FFFF" using assms by (auto simp: valid_rune_def)
  have a: "a \<le> 4" and lo: "a = 0 \<Longrightarrow> 16 \<le> b" and hi: "a = 4 \<Longrightarrow> b < 16"
    using r m v assms(1) by linarith+
  have "encode_rune r =
      [char_of (0xF0 + a), char_of (0x80 + b), char_of (0x80 + c), char_of (0x80 + d)]"
    using assms by (simp add: encode_rune_def div_4096 div_262144 a_b_c_d_def)
  then show ?thesis using a m lo hi r by (auto simp: decode_unfold)
qed

lemma decode_encode:
  assumes "valid_rune r"
  shows "decode_rune (encode_rune r @ s) = (r, length (encode_rune r))"
proof -
  consider "r \<le> 0x7F" | "0x7F < r" "r \<le> 0x7FF" | "0x7FF < r" "r \<le> 0xFFFF" | "0xFFFF < r"
    by linarith
  then show ?thesis
  proof cases
    case 1 then show ?thesis by (subst decode_encode_1) (simp_all add: encode_rune_def)
  next
    case 2 then show ?thesis by (subst decode_encode_2) (simp_all add: encode_rune_def)
  next
    case 3 then show ?thesis using assms by (subst decode_encode_3) (simp_all add: encode_rune_def)
  next
    case 4 then show ?thesis using assms by (subst decode_encode_4) (simp_all add: encode_rune_def)
  qed
qed

definition valid_runes :: "rune list \<Rightarrow> bool" where
  "valid_runes rs \<longleftrightarrow> (\<forall>r \<in> set rs. valid_rune r)"

lemma valid_runes_simps [simp]:
  "valid_runes []"
  "valid_runes (r # rs) \<longleftrightarrow> valid_rune r \<and> valid_runes rs"
  "valid_runes (rs @ qs) \<longleftrightarrow> valid_runes rs \<and> valid_runes qs"
  by (auto simp: valid_runes_def)

lemma rune_chunks_encode:
  "valid_runes rs \<Longrightarrow> rune_chunks (encode_runes rs @ s) =
     map (\<lambda>r. (r, encode_rune r)) rs @ rune_chunks s"
  by (induction rs) (simp_all add: rune_chunks_append decode_encode)

lemma rune_chunks_encode_runes:
  "valid_runes rs \<Longrightarrow> rune_chunks (encode_runes rs) = map (\<lambda>r. (r, encode_rune r)) rs"
  using rune_chunks_encode [of rs "[]"] by simp

lemma runes_encode_runes [rune_simps]: "valid_runes rs \<Longrightarrow> runes (encode_runes rs) = rs"
  by (simp add: runes_def rune_chunks_encode_runes comp_def)

lemma valid_utf8_encode_runes: "valid_runes rs \<Longrightarrow> valid_utf8 (encode_runes rs)"
  by (simp add: valid_utf8_def runes_encode_runes)

lemma decode_rune_cases [consumes 1, case_names ascii two three four error]:
  assumes "decode_rune (b # t) = (r, n)"
  obtains "ord b < 0x80" "r = ord b" "n = 1"
  | c u where "t = c # u" "0xC2 \<le> ord b" "ord b \<le> 0xDF" "is_cont c"
      "r = (ord b - 0xC0) * 64 + (ord c - 0x80)" "n = 2"
  | c d u where "t = c # d # u" "0xE0 \<le> ord b" "ord b \<le> 0xEF" "second_ok b c" "is_cont d"
      "r = (ord b - 0xE0) * 4096 + (ord c - 0x80) * 64 + (ord d - 0x80)" "n = 3"
  | c d e u where "t = c # d # e # u" "0xF0 \<le> ord b" "ord b \<le> 0xF4" "second_ok b c"
      "is_cont d" "is_cont e"
      "r = (ord b - 0xF0) * 262144 + (ord c - 0x80) * 4096 + (ord d - 0x80) * 64 + (ord e - 0x80)"
      "n = 4"
  | "r = RuneError" "n = 1"
  using assms by (auto simp: decode_rune.simps(2) split: if_splits list.splits)

lemma second_ok_bounds:
  "second_ok b c \<Longrightarrow> ord c \<le> 0xBF"
  "second_ok b c \<Longrightarrow> ord b = 0xF0 \<Longrightarrow> 0x90 \<le> ord c"
  "second_ok b c \<Longrightarrow> ord b = 0xED \<Longrightarrow> ord c \<le> 0x9F"
  "second_ok b c \<Longrightarrow> ord b = 0xF4 \<Longrightarrow> ord c \<le> 0x8F"
  by (auto simp: second_ok_def second_hi_def second_lo_def split: if_splits)

lemma is_cont_le: "is_cont c \<Longrightarrow> ord c \<le> 0xBF"
  by (simp add: is_cont_def)

lemma valid_rune_three:
  assumes "x \<le> 0xEF" "y \<le> 0xBF" "z \<le> 0xBF" "x = 0xED \<Longrightarrow> y \<le> 0x9F"
  shows "valid_rune ((x - 0xE0) * 4096 + (y - 0x80) * 64 + (z - 0x80))"
proof -
  consider "x < 0xED" | "x = 0xED" | "0xED < x" by linarith
  then show ?thesis using assms unfolding valid_rune_def by cases linarith+
qed

lemma valid_rune_four:
  assumes "0xF0 \<le> x" "x \<le> 0xF4" "y \<le> 0xBF" "z \<le> 0xBF" "w \<le> 0xBF"
    and "x = 0xF0 \<Longrightarrow> 0x90 \<le> y" "x = 0xF4 \<Longrightarrow> y \<le> 0x8F"
  shows "valid_rune ((x - 0xF0) * 262144 + (y - 0x80) * 4096 + (z - 0x80) * 64 + (w - 0x80))"
proof -
  consider "x = 0xF0" | "0xF0 < x" "x < 0xF4" | "x = 0xF4" using assms by linarith
  then show ?thesis using assms unfolding valid_rune_def by cases linarith+
qed

lemma decode_rune_valid: "valid_rune (fst (decode_rune s))"
proof (cases s)
  case Nil
  then show ?thesis by (simp add: RuneError_def valid_rune_def)
next
  case (Cons b t)
  obtain r n where d: "decode_rune (b # t) = (r, n)" by fastforce
  then have "valid_rune r"
  proof (cases rule: decode_rune_cases)
    case ascii then show ?thesis by (simp add: valid_rune_def)
  next
    case (two c u)
    then have "r \<le> 0x7FF" using is_cont_le [of c] by linarith
    then show ?thesis by (simp add: valid_rune_def)
  next
    case (three c d u)
    then show ?thesis using is_cont_le [of d] second_ok_bounds [of b c]
      by (auto intro: valid_rune_three)
  next
    case (four c d e u)
    then show ?thesis using is_cont_le [of d] is_cont_le [of e] second_ok_bounds [of b c]
      by (auto intro: valid_rune_four)
  next
    case error then show ?thesis by (simp add: RuneError_def valid_rune_def)
  qed
  then show ?thesis using d Cons by simp
qed

lemma valid_runes_runes [simp]: "valid_runes (runes s)"
proof (induction s rule: rune_chunks.induct)
  case (1 s)
  then show ?case
    by (cases "s = []") (simp_all add: runes_def rune_chunks.simps [of s] decode_rune_valid)
qed

text \<open>A rune that decoded properly takes exactly the bytes it was read from.\<close>

lemma encode_rune_length_cases:
  "r \<le> 0x7F \<Longrightarrow> length (encode_rune r) = 1"
  "r \<le> 0x7FF \<Longrightarrow> length (encode_rune r) \<le> 2"
  "r \<le> 0xFFFF \<Longrightarrow> length (encode_rune r) \<le> 3"
  by (simp_all add: encode_rune_def)

lemma decode_rune_bound:
  assumes "decode_rune s = (r, n)" "r \<noteq> RuneError" "s \<noteq> []"
  shows "n = 1 \<and> r \<le> 0x7F \<or> n = 2 \<and> r \<le> 0x7FF \<or> n = 3 \<and> r \<le> 0xFFFF \<or> n = 4"
proof -
  obtain b t where s: "s = b # t" using assms(3) by (cases s) auto
  from assms(1)[unfolded s] show ?thesis
  proof (cases rule: decode_rune_cases)
    case (two c u)
    then have "r \<le> 0x7FF" using is_cont_le [of c] by linarith
    then show ?thesis using two by simp
  next
    case (three c d u)
    then have "r \<le> 0xFFFF" using is_cont_le [of d] second_ok_bounds(1) [of b c] by linarith
    then show ?thesis using three by simp
  qed (use assms(2) in simp_all)
qed

lemma encode_decode_length:
  assumes "fst (decode_rune s) \<noteq> RuneError" "s \<noteq> []"
  shows "length (encode_rune (fst (decode_rune s))) \<le> snd (decode_rune s)"
proof -
  obtain r n where d: "decode_rune s = (r, n)" by fastforce
  have "n = 1 \<and> r \<le> 0x7F \<or> n = 2 \<and> r \<le> 0x7FF \<or> n = 3 \<and> r \<le> 0xFFFF \<or> n = 4"
    using decode_rune_bound [OF d _ assms(2)] assms(1) d by simp
  then show ?thesis
    using encode_rune_length_cases [of r] encode_rune_length [of r] d by auto
qed

section \<open>Package strings\<close>

text \<open>\<open>unicode.IsSpace\<close>: the Latin-1 spaces and the White\_Space property above them.\<close>

definition IsSpace :: "rune \<Rightarrow> bool" where
  "IsSpace r \<longleftrightarrow> (0x09 \<le> r \<and> r \<le> 0x0D) \<or> r = 0x20 \<or> r = 0x85 \<or> r = 0xA0 \<or> r = 0x1680 \<or>
     (0x2000 \<le> r \<and> r \<le> 0x200A) \<or> r = 0x2028 \<or> r = 0x2029 \<or> r = 0x202F \<or> r = 0x205F \<or> r = 0x3000"

definition trim_runes :: "rune list \<Rightarrow> rune list" where
  "trim_runes rs = drop_end IsSpace (dropWhile IsSpace rs)"

definition TrimSpace :: "string \<Rightarrow> string" where
  "TrimSpace s = concat (map snd (drop_end (IsSpace \<circ> fst) (dropWhile (IsSpace \<circ> fst) (rune_chunks s))))"

text \<open>\<open>strings.TrimLeft\<close> and \<open>strings.TrimRight\<close> with a cut set of ASCII characters work on bytes.\<close>

definition TrimLeft :: "string \<Rightarrow> string \<Rightarrow> string" where
  "TrimLeft s cutset = dropWhile (\<lambda>c. c \<in> set cutset) s"

definition TrimRight :: "string \<Rightarrow> string \<Rightarrow> string" where
  "TrimRight s cutset = drop_end (\<lambda>c. c \<in> set cutset) s"

definition blanks :: string where
  "blanks = [CHR '' '', CHR 0x09]"

definition HasPrefix :: "string \<Rightarrow> string \<Rightarrow> bool" where
  "HasPrefix s p \<longleftrightarrow> take (length p) s = p"

definition HasSuffix :: "string \<Rightarrow> string \<Rightarrow> bool" where
  "HasSuffix s p \<longleftrightarrow> length p \<le> length s \<and> drop (length s - length p) s = p"

fun Contains :: "string \<Rightarrow> string \<Rightarrow> bool" where
  "Contains [] p \<longleftrightarrow> p = []"
| "Contains (c # s) p \<longleftrightarrow> HasPrefix (c # s) p \<or> Contains s p"

fun IndexAny :: "string \<Rightarrow> char set \<Rightarrow> nat option" where
  "IndexAny [] C = None"
| "IndexAny (c # s) C = (if c \<in> C then Some 0 else map_option Suc (IndexAny s C))"

definition IndexByte :: "string \<Rightarrow> char \<Rightarrow> nat option" where
  "IndexByte s c = IndexAny s {c}"

text \<open>\<open>strings.Split\<close> with a one-byte separator: always at least one piece.\<close>

fun Split :: "string \<Rightarrow> char \<Rightarrow> string list" where
  "Split [] sep = [[]]"
| "Split (c # s) sep =
     (if c = sep then [] # Split s sep
      else (case Split s sep of [] \<Rightarrow> [[c]] | p # ps \<Rightarrow> (c # p) # ps))"

text \<open>
  \<open>unicode.ToLower\<close> on the runes whose lower case is an ASCII character: the ASCII capitals,
  U+0130 and the Kelvin sign. Every other rune has a lower case outside ASCII and is left as
  it is: the relay only ever searches a lowered string for tokens of ASCII and caseless
  characters, which such a rune cannot take part in either way.
\<close>

definition ToLower_rune :: "rune \<Rightarrow> rune" where
  "ToLower_rune r =
     (if 0x41 \<le> r \<and> r \<le> 0x5A then r + 0x20
      else if r = 0x130 then 0x69 else if r = 0x212A then 0x6B else r)"

definition ToLower :: "string \<Rightarrow> string" where
  "ToLower s = encode_runes (map ToLower_rune (runes s))"

text \<open>
  \<open>strings.EqualFold\<close> against an ASCII string: simple case folding joins the ASCII letters
  with their capitals, U+017F with \<open>s\<close> and the Kelvin sign with \<open>k\<close>.
\<close>

definition fold_rune :: "rune \<Rightarrow> rune" where
  "fold_rune r =
     (if 0x41 \<le> r \<and> r \<le> 0x5A then r + 0x20
      else if r = 0x17F then 0x73 else if r = 0x212A then 0x6B else r)"

definition EqualFold :: "string \<Rightarrow> string \<Rightarrow> bool" where
  "EqualFold s t \<longleftrightarrow> map fold_rune (runes s) = map fold_rune (runes t)"

text \<open>\<open>unicode.IsDigit\<close>: category Nd, whose members come in runs of ten.\<close>

definition digit_zeros :: "nat list" where
  "digit_zeros =
     [0x30, 0x660, 0x6F0, 0x7C0, 0x966, 0x9E6, 0xA66, 0xAE6, 0xB66, 0xBE6, 0xC66, 0xCE6, 0xD66,
      0xDE6, 0xE50, 0xED0, 0xF20, 0x1040, 0x1090, 0x17E0, 0x1810, 0x1946, 0x19D0, 0x1A80, 0x1A90,
      0x1B50, 0x1BB0, 0x1C40, 0x1C50, 0xA620, 0xA8D0, 0xA900, 0xA9D0, 0xA9F0, 0xAA50, 0xABF0,
      0xFF10, 0x104A0, 0x10D30, 0x11066, 0x110F0, 0x11136, 0x111D0, 0x112F0, 0x11450, 0x114D0,
      0x11650, 0x116C0, 0x11730, 0x118E0, 0x11950, 0x11C50, 0x11D50, 0x11DA0, 0x11F50, 0x16A60,
      0x16AC0, 0x16B50, 0x1D7CE, 0x1D7D8, 0x1D7E2, 0x1D7EC, 0x1D7F6, 0x1E140, 0x1E2F0, 0x1E4F0,
      0x1E950, 0x1FBF0]"

definition IsDigit :: "rune \<Rightarrow> bool" where
  "IsDigit r \<longleftrightarrow> list_ex (\<lambda>z. z \<le> r \<and> r \<le> z + 9) digit_zeros"

subsection \<open>Trimming\<close>

lemma trim_runes_Nil [simp]: "trim_runes [] = []"
  by (simp add: trim_runes_def)

lemma valid_runes_trim [simp]: "valid_runes rs \<Longrightarrow> valid_runes (trim_runes rs)"
  using set_drop_end [of IsSpace "dropWhile IsSpace rs"] set_dropWhileD [of _ IsSpace rs]
  unfolding trim_runes_def valid_runes_def by blast

lemma set_trim_runes: "set (trim_runes rs) \<subseteq> set rs"
  using set_drop_end [of IsSpace "dropWhile IsSpace rs"] set_dropWhileD [of _ IsSpace rs]
  unfolding trim_runes_def by blast

lemma trim_runes_hd: "trim_runes rs \<noteq> [] \<Longrightarrow> \<not> IsSpace (hd (trim_runes rs))"
proof -
  assume ne: "trim_runes rs \<noteq> []"
  then have "dropWhile IsSpace rs \<noteq> []" unfolding trim_runes_def by (metis drop_end_Nil)
  with ne show ?thesis unfolding trim_runes_def
    by (simp add: hd_drop_end hd_dropWhile del: dropWhile_eq_Nil_conv drop_end_eq_Nil)
qed

lemma trim_runes_last: "trim_runes rs \<noteq> [] \<Longrightarrow> \<not> IsSpace (last (trim_runes rs))"
  unfolding trim_runes_def by (rule drop_end_last)

lemma trim_runes_id: "rs = [] \<or> \<not> IsSpace (hd rs) \<and> \<not> IsSpace (last rs) \<Longrightarrow> trim_runes rs = rs"
  by (cases rs) (auto simp: trim_runes_def intro: drop_end_id)

lemma trim_runes_idem [simp]: "trim_runes (trim_runes rs) = trim_runes rs"
  using trim_runes_hd trim_runes_last trim_runes_id by blast

lemma TrimSpace_Nil [simp]: "TrimSpace [] = []"
  by (simp add: TrimSpace_def)

lemma TrimSpace_encode_runes [trim_simps]:
  assumes "valid_runes rs"
  shows "TrimSpace (encode_runes rs) = encode_runes (trim_runes rs)"
proof -
  have "TrimSpace (encode_runes rs)
      = concat (map snd (map (\<lambda>r. (r, encode_rune r)) (trim_runes rs)))"
    using assms
    by (simp add: TrimSpace_def rune_chunks_encode_runes dropWhile_map drop_end_map trim_runes_def
        comp_def)
  then show ?thesis by (simp add: encode_runes_def comp_def)
qed

lemma TrimSpace_parts: "\<exists>u v. s = u @ TrimSpace s @ v"
proof -
  let ?P = "IsSpace \<circ> fst" and ?cat = "\<lambda>xs. concat (map snd xs)"
  let ?l = "dropWhile ?P (rune_chunks s)"
  obtain ys where "?l = drop_end ?P ?l @ ys" using drop_end_prefix [of ?l ?P] by (elim exE conjE)
  then have "?cat ?l = TrimSpace s @ ?cat ys"
    unfolding TrimSpace_def by (metis concat_append map_append)
  moreover have "?cat (takeWhile ?P (rune_chunks s)) @ ?cat ?l = s"
    by (metis concat_append map_append rune_chunks_concat takeWhile_dropWhile_id)
  ultimately show ?thesis by metis
qed

lemma TrimSpace_length: "length (TrimSpace s) \<le> length s"
proof -
  obtain u v where "s = u @ TrimSpace s @ v" using TrimSpace_parts by blast
  then have "length s = length u + length (TrimSpace s) + length v"
    by (metis length_append add.assoc)
  then show ?thesis by simp
qed

section \<open>Cutting a string at a rune boundary\<close>

text \<open>
  The loop \<open>for cut > 0 && !utf8.RuneStart(s[cut]) { cut-- }\<close> that every truncation of the relay
  uses, and the loop that advances past continuation bytes at the front of a kept tail.
\<close>

fun back_to_start :: "string \<Rightarrow> nat \<Rightarrow> nat" where
  "back_to_start s 0 = 0"
| "back_to_start s (Suc n) = (if rune_start (s ! Suc n) then Suc n else back_to_start s n)"

definition truncateUTF8 :: "string \<Rightarrow> nat \<Rightarrow> string" where
  "truncateUTF8 s maxBytes =
     (if length s \<le> maxBytes then s else take (back_to_start s maxBytes) s)"

lemma back_to_start_le: "back_to_start s n \<le> n"
  by (induction n) auto

lemma truncateUTF8_length: "length (truncateUTF8 s n) \<le> n"
  using back_to_start_le [of s n] by (simp add: truncateUTF8_def)

lemma truncateUTF8_prefix: "\<exists>t. s = truncateUTF8 s n @ t"
  unfolding truncateUTF8_def by (metis append_Nil2 append_take_drop_id)

lemma encode_rune_start: "rune_start (encode_rune r ! 0)"
  by (auto simp: encode_rune_def rune_start_def is_cont_def valid_rune_def)

lemma encode_rune_cont: "0 < i \<Longrightarrow> i < length (encode_rune r) \<Longrightarrow> \<not> rune_start (encode_rune r ! i)"
proof -
  assume i: "0 < i" "i < length (encode_rune r)"
  then have "i = 1 \<or> i = 2 \<or> i = 3" using encode_rune_length [of r] by linarith
  then show ?thesis using i
    by (auto simp: encode_rune_def rune_start_def is_cont_def split: if_splits)
qed

lemma back_to_start_inside:
  "n < length (encode_rune r) \<Longrightarrow> back_to_start (encode_rune r @ s) n = 0"
  by (induction n) (simp_all add: nth_append encode_rune_cont)

lemma back_to_start_shift:
  assumes "s \<noteq> []" "rune_start (s ! 0)" "e \<noteq> []"
  shows "back_to_start (e @ s) (length e + n) = length e + back_to_start s n"
proof (induction n)
  case 0
  obtain m where m: "length e = Suc m" using assms(3) by (cases e) auto
  then show ?case using assms by (simp add: nth_append)
next
  case (Suc n)
  then show ?case by (simp add: nth_append)
qed

lemma back_to_start_boundary:
  "n < length (encode_runes rs) \<Longrightarrow>
     \<exists>k \<le> length rs. back_to_start (encode_runes rs) n = length (encode_runes (take k rs))"
proof (induction rs arbitrary: n)
  case (Cons r rs)
  show ?case
  proof (cases "n < length (encode_rune r)")
    case True
    then show ?thesis by (intro exI [of _ 0]) (simp add: back_to_start_inside)
  next
    case False
    define m where "m = n - length (encode_rune r)"
    have n: "n = length (encode_rune r) + m" using False by (simp add: m_def)
    then have "m < length (encode_runes rs)" using Cons.prems by simp
    then obtain k where k: "k \<le> length rs" "back_to_start (encode_runes rs) m = length (encode_runes (take k rs))"
      using Cons.IH by blast
    obtain q qs where rs: "rs = q # qs" using \<open>m < length (encode_runes rs)\<close> by (cases rs) auto
    then have "rune_start (encode_runes rs ! 0)"
      by (simp add: nth_append encode_rune_start)
    then have "back_to_start (encode_runes (r # rs)) n = length (encode_runes (take (Suc k) (r # rs)))"
      using k rs by (simp add: n back_to_start_shift)
    then show ?thesis using k(1) by (intro exI [of _ "Suc k"]) simp
  qed
qed simp

lemma encode_runes_take: "take (length (encode_runes (take k rs))) (encode_runes rs) = encode_runes (take k rs)"
  by (metis append_eq_conv_conj append_take_drop_id encode_runes_append)

lemma truncateUTF8_encode_runes [rune_simps]:
  "\<exists>k \<le> length rs. truncateUTF8 (encode_runes rs) n = encode_runes (take k rs)"
proof (cases "length (encode_runes rs) \<le> n")
  case True
  then show ?thesis by (intro exI [of _ "length rs"]) (simp add: truncateUTF8_def)
next
  case False
  then obtain k where "k \<le> length rs" "back_to_start (encode_runes rs) n = length (encode_runes (take k rs))"
    using back_to_start_boundary [of n rs] by auto
  then show ?thesis using False
    by (intro exI [of _ k]) (simp add: truncateUTF8_def encode_runes_take)
qed

lemma dropWhile_not_start_encode:
  assumes "n \<le> length (encode_runes rs)"
  shows "\<exists>k \<le> length rs. dropWhile (\<lambda>b. \<not> rune_start b) (drop n (encode_runes rs)) = encode_runes (drop k rs)"
  using assms
proof (induction rs arbitrary: n)
  case (Cons r rs)
  show ?case
  proof (cases "n < length (encode_rune r)")
    case True
    show ?thesis
    proof (cases "n = 0")
      case True
      obtain b bs where "encode_rune r = b # bs" by (cases "encode_rune r") auto
      then have "rune_start b" using encode_rune_start [of r] by simp
      then show ?thesis using True \<open>encode_rune r = b # bs\<close> by (intro exI [of _ 0]) simp
    next
      case False
      have "\<forall>b \<in> set (drop n (encode_rune r)). \<not> rune_start b"
        using False by (auto simp: in_set_conv_nth encode_rune_cont)
      then have "dropWhile (\<lambda>b. \<not> rune_start b) (drop n (encode_runes (r # rs)))
          = dropWhile (\<lambda>b. \<not> rune_start b) (encode_runes rs)"
        using True by (simp add: dropWhile_append2)
      moreover obtain k where "k \<le> length rs" "dropWhile (\<lambda>b. \<not> rune_start b) (encode_runes rs) = encode_runes (drop k rs)"
        using Cons.IH [of 0] by auto
      ultimately show ?thesis by (intro exI [of _ "Suc k"]) simp
    qed
  next
    case False
    then obtain k where "k \<le> length rs"
      "dropWhile (\<lambda>b. \<not> rune_start b) (drop (n - length (encode_rune r)) (encode_runes rs)) = encode_runes (drop k rs)"
      using Cons by (metis diff_le_mono diff_add_inverse encode_runes_Cons length_append)
    then show ?thesis using False by (intro exI [of _ "Suc k"]) simp
  qed
qed simp


section \<open>ASCII bytes\<close>

text \<open>An ASCII byte is never part of a longer encoding: it decodes to itself wherever it stands.\<close>

lemma ascii_in_chunk:
  assumes "s \<noteq> []" "c \<in> set (take (snd (decode_rune s)) s)" "ord c < 0x80"
  shows "fst (decode_rune s) = ord c"
proof -
  obtain b t where s: "s = b # t" using assms(1) by (cases s) auto
  obtain r n where d: "decode_rune (b # t) = (r, n)" by fastforce
  have c: "c \<in> set (take n (b # t))" using assms(2) s d by simp
  have lo: "second_ok b x \<Longrightarrow> 0x80 \<le> ord x" for x
    by (auto simp: second_ok_def second_lo_def split: if_splits)
  from d have "r = ord c"
  proof (cases rule: decode_rune_cases)
    case error
    then have "c = b" using c by simp
    then have "r = ord b" using d assms(3) by (simp add: decode_rune.simps(2))
    then show ?thesis using \<open>c = b\<close> by simp
  next
    case (three x y u)
    then show ?thesis using c assms(3) lo [of x] by (auto simp: is_cont_def)
  next
    case (four x y z u)
    then show ?thesis using c assms(3) lo [of x] by (auto simp: is_cont_def)
  qed (use c assms(3) in \<open>auto simp: is_cont_def\<close>)
  then show ?thesis using s d by simp
qed

lemma ascii_in_runes: "c \<in> set s \<Longrightarrow> ord c < 0x80 \<Longrightarrow> ord c \<in> set (runes s)"
proof (induction s rule: rune_chunks.induct)
  case (1 s)
  then have ne: "s \<noteq> []" by auto
  let ?n = "snd (decode_rune s)"
  have r: "runes s = fst (decode_rune s) # runes (drop ?n s)"
    using ne by (simp add: runes_def rune_chunks.simps [of s])
  have "c \<in> set (take ?n s) \<union> set (drop ?n s)"
    using "1.prems"(1) by (metis append_take_drop_id set_append)
  then show ?case
    using ascii_in_chunk [OF ne _ "1.prems"(2)] "1.IH" [OF ne _ "1.prems"(2)] r by auto
qed

lemma encode_rune_ascii: "ord c < 0x80 \<Longrightarrow> encode_rune (ord c) = [c]"
  by (simp add: encode_rune_def)

lemma ascii_in_encode: "ord c < 0x80 \<Longrightarrow> ord c \<in> set rs \<Longrightarrow> c \<in> set (encode_runes rs)"
  by (induction rs) (auto simp: encode_rune_ascii)

lemma Split_nonempty [simp]: "Split s sep \<noteq> []"
  by (induction s) (auto split: list.splits)

lemma Split_bytes: "c \<in> set s \<Longrightarrow> c \<noteq> sep \<Longrightarrow> \<exists>p \<in> set (Split s sep). c \<in> set p"
  by (induction s) (auto split: list.splits)

end
