(* ===== verification/AnsiFilter.thy ===== *)
theory AnsiFilter
  imports GoStrings
begin

text \<open>
  The streaming terminal filter of internal/security/ansi.go. \<open>ANSIFilter\<close> is the record of the
  parser's state, \<open>filter_step\<close> is one iteration of the loop in \<open>Filter\<close> (it returns the next
  state and the bytes appended to \<open>out\<close>), \<open>Filter\<close> is the whole method. The Go loop re-examines
  a byte by decrementing its index (\<open>i--\<close>) after having put the parser back to ground; the model
  calls \<open>ground_step\<close> on that byte, which is what the next iteration does.

  Shown: the output does not depend on how the stream is cut into chunks, filtering filtered
  output changes nothing, no answerback and no unexpected C1 byte is ever emitted, the buffer is
  bounded, and ordinary text passes through.
\<close>

section \<open>State\<close>

definition ctrlENQ :: nat where "ctrlENQ = 0x05"
definition ctrlBEL :: nat where "ctrlBEL = 0x07"
definition ctrlESC :: nat where "ctrlESC = 0x1B"

definition c1DCS :: nat where "c1DCS = 0x90"
definition c1SOS :: nat where "c1SOS = 0x98"
definition c1CSI :: nat where "c1CSI = 0x9B"
definition c1ST :: nat where "c1ST = 0x9C"
definition c1OSC :: nat where "c1OSC = 0x9D"
definition c1PM :: nat where "c1PM = 0x9E"
definition c1APC :: nat where "c1APC = 0x9F"

lemmas ctrl_defs = ctrlENQ_def ctrlBEL_def ctrlESC_def c1DCS_def c1SOS_def c1CSI_def c1ST_def
  c1OSC_def c1PM_def c1APC_def

definition defaultMaxSeqBytes :: nat where "defaultMaxSeqBytes = 4096"
definition defaultMaxStrBytes :: nat where "defaultMaxStrBytes = 1048576"

datatype ansiState = StGround | StEsc | StEscInt | StCSI | StOSC | StOSCEsc | StStr | StStrEsc

record ANSIFilter =
  astate :: ansiState
  seq :: string
  strN :: nat
  utf8Remaining :: nat
  maxSeq :: nat
  maxStr :: nat

definition NewANSIFilter :: ANSIFilter where
  "NewANSIFilter = \<lparr>astate = StGround, seq = [], strN = 0, utf8Remaining = 0,
     maxSeq = defaultMaxSeqBytes, maxStr = defaultMaxStrBytes\<rparr>"

definition Reset :: "ANSIFilter \<Rightarrow> ANSIFilter" where
  "Reset f = f\<lparr>astate := StGround, seq := [], strN := 0, utf8Remaining := 0\<rparr>"

definition utf8Continuation :: "byte \<Rightarrow> nat" where
  "utf8Continuation lead =
     (if 0xF0 \<le> ord lead \<and> ord lead \<le> 0xF7 then 3
      else if 0xE0 \<le> ord lead \<and> ord lead \<le> 0xEF then 2
      else if 0xC0 \<le> ord lead \<and> ord lead \<le> 0xDF then 1
      else 0)"

section \<open>Which complete sequences are dropped\<close>

definition strip_intro :: "char \<Rightarrow> string \<Rightarrow> string" where
  "strip_intro c s =
     (if length s \<ge> 2 \<and> ord (s ! 0) = ctrlESC \<and> s ! 1 = c then drop 2 s else s)"

definition csiShouldStrip :: "string \<Rightarrow> bool" where
  "csiShouldStrip sq =
     (let body = strip_intro CHR ''['' sq in
      if body = [] then False
      else
        let fin = last body; mid = butlast body;
            hasDollar = (CHR ''$'' \<in> set mid); hasStar = (CHR ''*'' \<in> set mid);
            hasSpace = (CHR '' '' \<in> set mid); hasGT = (CHR ''>'' \<in> set mid)
        in
          if fin = CHR ''n'' \<or> fin = CHR ''c'' \<or> fin = CHR ''t'' then True
          else if fin = CHR ''p'' then hasDollar
          else if fin = CHR ''q'' then hasGT \<and> \<not> hasSpace
          else if fin = CHR ''x'' then \<not> hasDollar
          else if fin = CHR ''y'' then hasStar
          else False)"

definition strip_terminator :: "string \<Rightarrow> string" where
  "strip_terminator p =
     (if length p > 0 \<and> ord (last p) = ctrlBEL then butlast p
      else if length p \<ge> 2 \<and> ord (p ! (length p - 2)) = ctrlESC \<and> last p = CHR 0x5C
      then take (length p - 2) p
      else p)"

text \<open>
  The numeric code of an OSC: -1 without a digit, and the scan stops as soon as the value
  passes one million.
\<close>

fun osc_code :: "int \<Rightarrow> string \<Rightarrow> int" where
  "osc_code code [] = code"
| "osc_code code (b # p) =
     (if 0x30 \<le> ord b \<and> ord b \<le> 0x39 then
        (let code' = (if code < 0 then 0 else code) * 10 + (int (ord b) - 0x30)
         in if code' > 1000000 then code' else osc_code code' p)
      else code)"

definition oscShouldStrip :: "string \<Rightarrow> bool" where
  "oscShouldStrip sq =
     (let p = strip_terminator (strip_intro CHR '']'' sq); code = osc_code (-1) p in
      if code = 0 \<or> code = 1 \<or> code = 2 then True
      else if code = 8 then True
      else if code = 52 then True
      else CHR ''?'' \<in> set p)"

section \<open>The parser\<close>

definition to_ground :: "ANSIFilter \<Rightarrow> ANSIFilter" where
  "to_ground f = f\<lparr>astate := StGround, seq := []\<rparr>"

definition ground_step :: "ANSIFilter \<Rightarrow> byte \<Rightarrow> ANSIFilter \<times> string" where
  "ground_step f b =
     (if utf8Remaining f > 0 \<and> 0x80 \<le> ord b \<and> ord b \<le> 0xBF
      then (f\<lparr>utf8Remaining := utf8Remaining f - 1\<rparr>, [b])
      else
        let f = f\<lparr>utf8Remaining := 0\<rparr> in
        if ord b = ctrlESC then (f\<lparr>astate := StEsc, seq := [b]\<rparr>, [])
        else if ord b = ctrlENQ then (f, [])
        else if ord b = c1CSI then (f\<lparr>astate := StCSI, seq := [CHR 0x1B, CHR ''['']\<rparr>, [])
        else if ord b = c1OSC then (f\<lparr>astate := StOSC, seq := [CHR 0x1B, CHR '']'']\<rparr>, [])
        else if ord b = c1DCS \<or> ord b = c1SOS \<or> ord b = c1PM \<or> ord b = c1APC
        then (f\<lparr>astate := StStr, strN := 0, seq := []\<rparr>, [])
        else if ord b = c1ST then (f, [])
        else if 0x80 \<le> ord b \<and> ord b \<le> 0x9F then (f, [])
        else if 0xC0 \<le> ord b then (f\<lparr>utf8Remaining := utf8Continuation b\<rparr>, [b])
        else (f, [b]))"

definition esc_step :: "ANSIFilter \<Rightarrow> byte \<Rightarrow> ANSIFilter \<times> string" where
  "esc_step f b =
     (if b = CHR ''['' then (f\<lparr>astate := StCSI, seq := seq f @ [b]\<rparr>, [])
      else if b = CHR '']'' then (f\<lparr>astate := StOSC, seq := seq f @ [b]\<rparr>, [])
      else if b = CHR ''P'' \<or> b = CHR ''_'' \<or> b = CHR ''^'' \<or> b = CHR ''X''
      then (f\<lparr>astate := StStr, strN := 0, seq := []\<rparr>, [])
      else if b = CHR ''Z'' then (to_ground f, [])
      else if ord b = ctrlESC then (f\<lparr>seq := [b]\<rparr>, [])
      else if 0x20 \<le> ord b \<and> ord b \<le> 0x2F then (f\<lparr>astate := StEscInt, seq := seq f @ [b]\<rparr>, [])
      else if 0x30 \<le> ord b \<and> ord b \<le> 0x7E then (to_ground f, seq f @ [b])
      else ground_step (to_ground f) b)"

definition drop_if_long :: "ANSIFilter \<Rightarrow> ANSIFilter" where
  "drop_if_long f = (if length (seq f) > maxSeq f then to_ground f else f)"

definition escint_step :: "ANSIFilter \<Rightarrow> byte \<Rightarrow> ANSIFilter \<times> string" where
  "escint_step f b =
     (if 0x20 \<le> ord b \<and> ord b \<le> 0x2F then (drop_if_long (f\<lparr>seq := seq f @ [b]\<rparr>), [])
      else if 0x30 \<le> ord b \<and> ord b \<le> 0x7E then (to_ground f, seq f @ [b])
      else if ord b = ctrlESC then (drop_if_long (f\<lparr>astate := StEsc, seq := [b]\<rparr>), [])
      else ground_step (to_ground f) b)"

definition csi_step :: "ANSIFilter \<Rightarrow> byte \<Rightarrow> ANSIFilter \<times> string" where
  "csi_step f b =
     (if 0x30 \<le> ord b \<and> ord b \<le> 0x3F then (drop_if_long (f\<lparr>seq := seq f @ [b]\<rparr>), [])
      else if 0x20 \<le> ord b \<and> ord b \<le> 0x2F then (drop_if_long (f\<lparr>seq := seq f @ [b]\<rparr>), [])
      else if 0x40 \<le> ord b \<and> ord b \<le> 0x7E
      then (to_ground f, if csiShouldStrip (seq f @ [b]) then [] else seq f @ [b])
      else if ord b = ctrlESC then (drop_if_long (f\<lparr>astate := StEsc, seq := [b]\<rparr>), [])
      else ground_step (to_ground f) b)"

definition osc_step :: "ANSIFilter \<Rightarrow> byte \<Rightarrow> ANSIFilter \<times> string" where
  "osc_step f b =
     (if ord b = ctrlBEL \<or> ord b = c1ST
      then (to_ground f, if oscShouldStrip (seq f @ [CHR 0x07]) then [] else seq f @ [CHR 0x07])
      else if ord b = ctrlESC then (f\<lparr>astate := StOSCEsc\<rparr>, [])
      else if ord b < 0x20 \<or> ord b = 0x7F \<or> (0x80 \<le> ord b \<and> ord b \<le> 0x9F)
      then ground_step (to_ground f) b
      else (drop_if_long (f\<lparr>seq := seq f @ [b]\<rparr>), []))"

definition oscesc_step :: "ANSIFilter \<Rightarrow> byte \<Rightarrow> ANSIFilter \<times> string" where
  "oscesc_step f b =
     (if b = CHR 0x5C
      then (to_ground f,
            if oscShouldStrip (seq f @ [CHR 0x1B, CHR 0x5C]) then [] else seq f @ [CHR 0x1B, CHR 0x5C])
      else ground_step (to_ground f) b)"

definition str_step :: "ANSIFilter \<Rightarrow> byte \<Rightarrow> ANSIFilter \<times> string" where
  "str_step f b =
     (if ord b = ctrlBEL \<or> ord b = c1ST then (f\<lparr>astate := StGround, strN := 0\<rparr>, [])
      else if ord b = ctrlESC then (f\<lparr>astate := StStrEsc\<rparr>, [])
      else if strN f + 1 > maxStr f then (f\<lparr>astate := StGround, strN := 0\<rparr>, [])
      else (f\<lparr>strN := strN f + 1\<rparr>, []))"

definition stresc_step :: "ANSIFilter \<Rightarrow> byte \<Rightarrow> ANSIFilter \<times> string" where
  "stresc_step f b =
     (if b = CHR 0x5C then (f\<lparr>astate := StGround, strN := 0\<rparr>, [])
      else ground_step (f\<lparr>astate := StGround, strN := 0\<rparr>) b)"

definition filter_step :: "ANSIFilter \<Rightarrow> byte \<Rightarrow> ANSIFilter \<times> string" where
  "filter_step f b =
     (case astate f of
        StGround \<Rightarrow> ground_step f b
      | StEsc \<Rightarrow> esc_step f b
      | StEscInt \<Rightarrow> escint_step f b
      | StCSI \<Rightarrow> csi_step f b
      | StOSC \<Rightarrow> osc_step f b
      | StOSCEsc \<Rightarrow> oscesc_step f b
      | StStr \<Rightarrow> str_step f b
      | StStrEsc \<Rightarrow> stresc_step f b)"

fun run_filter :: "ANSIFilter \<Rightarrow> string \<Rightarrow> ANSIFilter \<times> string" where
  "run_filter f [] = (f, [])"
| "run_filter f (b # p) =
     (let (f', o1) = filter_step f b; (f'', o2) = run_filter f' p in (f'', o1 @ o2))"

definition with_defaults :: "ANSIFilter \<Rightarrow> ANSIFilter" where
  "with_defaults f =
     f\<lparr>maxSeq := (if maxSeq f = 0 then defaultMaxSeqBytes else maxSeq f),
       maxStr := (if maxStr f = 0 then defaultMaxStrBytes else maxStr f)\<rparr>"

definition Filter :: "ANSIFilter \<Rightarrow> string \<Rightarrow> ANSIFilter \<times> string" where
  "Filter f p = run_filter (with_defaults f) p"

text \<open>
  \<open>NewANSIWriter\<close>: a write to the wrapped writer either succeeds (\<open>None\<close>) or fails with an error
  of its own; nothing is written when a chunk filters to nothing.
\<close>

datatype 'e write_result = Wrote nat | WriteError 'e

definition ansi_write ::
  "(string \<Rightarrow> 'e option) \<Rightarrow> ANSIFilter \<Rightarrow> string \<Rightarrow> ANSIFilter \<times> string list \<times> 'e write_result" where
  "ansi_write w f p =
     (let (f', filtered) = Filter f p in
      if filtered = [] then (f', [], Wrote (length p))
      else (case w filtered of
              Some e \<Rightarrow> (f', [filtered], WriteError e)
            | None \<Rightarrow> (f', [filtered], Wrote (length p))))"


section \<open>Runs of the filter\<close>

lemma run_filter_append:
  "run_filter f (p @ q) =
     (let (f', o1) = run_filter f p; (f'', o2) = run_filter f' q in (f'', o1 @ o2))"
  by (induction p arbitrary: f) (auto simp: Let_def split: prod.splits)

lemma run_filter_single [simp]: "run_filter f [b] = filter_step f b"
  by (simp add: Let_def split: prod.splits)

lemmas step_defs = ground_step_def esc_step_def escint_step_def csi_step_def osc_step_def
  oscesc_step_def str_step_def stresc_step_def to_ground_def drop_if_long_def

lemma ground_step_limits [simp]:
  "maxSeq (fst (ground_step f b)) = maxSeq f" "maxStr (fst (ground_step f b)) = maxStr f"
  by (simp_all add: ground_step_def Let_def)

lemma to_ground_limits [simp]:
  "maxSeq (to_ground f) = maxSeq f" "maxStr (to_ground f) = maxStr f"
  "maxSeq (drop_if_long f) = maxSeq f" "maxStr (drop_if_long f) = maxStr f"
  by (simp_all add: to_ground_def drop_if_long_def)

lemma esc_step_limits [simp]:
  "maxSeq (fst (esc_step f b)) = maxSeq f" "maxStr (fst (esc_step f b)) = maxStr f"
  by (simp_all add: esc_step_def)

lemma escint_step_limits [simp]:
  "maxSeq (fst (escint_step f b)) = maxSeq f" "maxStr (fst (escint_step f b)) = maxStr f"
  by (simp_all add: escint_step_def)

lemma csi_step_limits [simp]:
  "maxSeq (fst (csi_step f b)) = maxSeq f" "maxStr (fst (csi_step f b)) = maxStr f"
  by (simp_all add: csi_step_def)

lemma osc_step_limits [simp]:
  "maxSeq (fst (osc_step f b)) = maxSeq f" "maxStr (fst (osc_step f b)) = maxStr f"
  "maxSeq (fst (oscesc_step f b)) = maxSeq f" "maxStr (fst (oscesc_step f b)) = maxStr f"
  by (simp_all add: osc_step_def oscesc_step_def)

lemma str_step_limits [simp]:
  "maxSeq (fst (str_step f b)) = maxSeq f" "maxStr (fst (str_step f b)) = maxStr f"
  "maxSeq (fst (stresc_step f b)) = maxSeq f" "maxStr (fst (stresc_step f b)) = maxStr f"
  by (simp_all add: str_step_def stresc_step_def)

lemma filter_step_limits [simp]:
  "maxSeq (fst (filter_step f b)) = maxSeq f" "maxStr (fst (filter_step f b)) = maxStr f"
  by (cases "astate f"; simp add: filter_step_def)+

lemma run_filter_limits [simp]:
  "maxSeq (fst (run_filter f p)) = maxSeq f" "maxStr (fst (run_filter f p)) = maxStr f"
  by (induction p arbitrary: f) (simp_all add: Let_def split: prod.split, (metis filter_step_limits fst_conv)+)

text \<open>The filter in ground state with \<open>r\<close> continuation bytes still expected.\<close>

definition at_ground :: "ANSIFilter \<Rightarrow> nat \<Rightarrow> ANSIFilter" where
  "at_ground f r = f\<lparr>astate := StGround, seq := [], strN := 0, utf8Remaining := r\<rparr>"

definition wf_filter :: "ANSIFilter \<Rightarrow> bool" where
  "wf_filter f \<longleftrightarrow>
     (case astate f of
        StGround \<Rightarrow> seq f = [] \<and> strN f = 0
      | StStr \<Rightarrow> seq f = [] \<and> utf8Remaining f = 0
      | StStrEsc \<Rightarrow> seq f = [] \<and> utf8Remaining f = 0
      | StOSCEsc \<Rightarrow> strN f = 0 \<and> utf8Remaining f = 0 \<and>
          (\<forall>r. run_filter (at_ground f r) (seq f) = (f\<lparr>astate := StOSC\<rparr>, []))
      | _ \<Rightarrow> strN f = 0 \<and> utf8Remaining f = 0 \<and> (\<forall>r. run_filter (at_ground f r) (seq f) = (f, [])))"

text \<open>
  One step of the filter against a second filter that reads what the first one emits: the
  second emits the same bytes, is back at ground, and expects at least as many continuation
  bytes as the first.
\<close>

definition reemits :: "ANSIFilter \<Rightarrow> nat \<Rightarrow> ANSIFilter \<times> string \<Rightarrow> bool" where
  "reemits f r res \<longleftrightarrow> wf_filter (fst res) \<and>
     (\<exists>r'. run_filter (at_ground f r) (snd res) = (at_ground f r', snd res) \<and> utf8Remaining (fst res) \<le> r')"

lemma at_ground_simps [simp]:
  "astate (at_ground f r) = StGround" "seq (at_ground f r) = []" "strN (at_ground f r) = 0"
  "utf8Remaining (at_ground f r) = r" "at_ground (at_ground f r) q = at_ground f q"
  "maxSeq (at_ground f r) = maxSeq f" "maxStr (at_ground f r) = maxStr f"
  by (simp_all add: at_ground_def)

lemma at_ground_upd [simp]:
  "at_ground (f\<lparr>astate := s\<rparr>) r = at_ground f r" "at_ground (f\<lparr>seq := q\<rparr>) r = at_ground f r"
  "at_ground (f\<lparr>strN := n\<rparr>) r = at_ground f r" "at_ground (f\<lparr>utf8Remaining := m\<rparr>) r = at_ground f r"
  "at_ground (to_ground f) r = at_ground f r"
  by (simp_all add: at_ground_def to_ground_def)

lemma reemits_silent: "wf_filter g \<Longrightarrow> utf8Remaining g \<le> r \<Longrightarrow> reemits f r (g, [])"
  by (auto simp: reemits_def)

lemma utf8Continuation_low [simp]: "ord b < 0xC0 \<Longrightarrow> utf8Continuation b = 0"
  by (simp add: utf8Continuation_def)

lemma ground_step_plain:
  assumes "\<not> (utf8Remaining f > 0 \<and> 0x80 \<le> ord b \<and> ord b \<le> 0xBF)"
    "ord b \<noteq> 0x1B" "ord b \<noteq> 0x05" "ord b < 0x80 \<or> 0xA0 \<le> ord b"
  shows "ground_step f b = (f\<lparr>utf8Remaining := utf8Continuation b\<rparr>, [b])"
proof -
  consider "ord b < 0x80" | "0xA0 \<le> ord b" "ord b < 0xC0" "utf8Remaining f = 0" | "0xC0 \<le> ord b"
    using assms by linarith
  then show ?thesis using assms by cases (simp_all add: ground_step_def ctrl_defs Let_def)
qed

lemma ground_step_cont:
  "utf8Remaining f > 0 \<Longrightarrow> 0x80 \<le> ord b \<Longrightarrow> ord b \<le> 0xBF \<Longrightarrow>
     ground_step f b = (f\<lparr>utf8Remaining := utf8Remaining f - 1\<rparr>, [b])"
  by (simp add: ground_step_def)

lemma filter_step_ground [simp]: "astate f = StGround \<Longrightarrow> filter_step f b = ground_step f b"
  by (simp add: filter_step_def)

lemma ground_step_esc [simp]:
  "ground_step f CHR 0x1B = (f\<lparr>utf8Remaining := 0, astate := StEsc, seq := [CHR 0x1B]\<rparr>, [])"
  by (simp add: ground_step_def ctrl_defs)

lemma wf_after_esc:
  "strN f = 0 \<Longrightarrow> wf_filter (f\<lparr>utf8Remaining := 0, astate := StEsc, seq := [CHR 0x1B]\<rparr>)"
  by (simp add: wf_filter_def at_ground_def)

lemma wf_after_intro:
  assumes "strN f = 0" "b = CHR ''['' \<and> s = StCSI \<or> b = CHR '']'' \<and> s = StOSC"
  shows "wf_filter (f\<lparr>utf8Remaining := 0, astate := s, seq := [CHR 0x1B, b]\<rparr>)"
  using assms by (auto simp: wf_filter_def at_ground_def filter_step_def esc_step_def Let_def)

lemma wf_ground: "astate f = StGround \<Longrightarrow> seq f = [] \<Longrightarrow> strN f = 0 \<Longrightarrow> wf_filter f"
  by (simp add: wf_filter_def)

lemma at_ground_plain:
  assumes "ord b \<noteq> 0x1B" "ord b \<noteq> 0x05" "ord b < 0x80 \<or> 0xA0 \<le> ord b" "ord b < 0x80 \<or> 0xC0 \<le> ord b"
  shows "run_filter (at_ground f r) [b] = (at_ground f (utf8Continuation b), [b])"
  using assms by (auto simp: ground_step_plain at_ground_def)

lemma at_ground_high:
  assumes "0xA0 \<le> ord b" "ord b < 0xC0"
  shows "run_filter (at_ground f r) [b] = (at_ground f (r - 1), [b])"
proof (cases "r = 0")
  case True
  then show ?thesis using assms by (simp add: ground_step_plain at_ground_def utf8Continuation_def)
next
  case False
  then show ?thesis using assms by (simp add: ground_step_cont at_ground_def)
qed

lemma ground_reemits:
  assumes r: "utf8Remaining f \<le> r" and g: "astate f = StGround" "seq f = []" "strN f = 0"
  shows "reemits f r (ground_step f b)"
proof -
  consider (cont) "utf8Remaining f > 0" "0x80 \<le> ord b" "ord b \<le> 0xBF"
    | (plain) "\<not> (utf8Remaining f > 0 \<and> 0x80 \<le> ord b \<and> ord b \<le> 0xBF)"
        "ord b \<noteq> 0x1B" "ord b \<noteq> 0x05" "ord b < 0x80 \<or> 0xA0 \<le> ord b"
    | (esc) "b = CHR 0x1B" | (enq) "ord b = 0x05"
    | (c1) "utf8Remaining f = 0" "0x80 \<le> ord b" "ord b < 0xA0"
    using ord_eq_iff [of b "CHR 0x1B"] by fastforce
  then show ?thesis
  proof cases
    case cont
    then show ?thesis using r g
      by (auto simp: reemits_def ground_step_cont at_ground_def wf_ground)
  next
    case plain
    then have s: "ground_step f b = (f\<lparr>utf8Remaining := utf8Continuation b\<rparr>, [b])"
      by (rule ground_step_plain)
    show ?thesis
    proof (cases "0xA0 \<le> ord b \<and> ord b < 0xC0")
      case True
      then show ?thesis using s g at_ground_high [of b f r]
        by (auto simp: reemits_def wf_ground utf8Continuation_def)
    next
      case False
      then show ?thesis using s g plain at_ground_plain [of b f r]
        by (auto simp: reemits_def wf_ground)
    qed
  next
    case esc
    then show ?thesis using g by (simp add: reemits_silent wf_after_esc)
  next
    case enq
    then show ?thesis using g by (simp add: ground_step_def ctrl_defs reemits_silent wf_ground)
  next
    case c1
    have "wf_filter (f\<lparr>utf8Remaining := 0, astate := StStr, strN := 0, seq := []\<rparr>)"
      by (simp add: wf_filter_def)
    then show ?thesis using c1 g
      by (simp add: ground_step_def ctrl_defs Let_def reemits_silent wf_ground wf_after_intro)
  qed
qed

definition pending :: "ANSIFilter \<Rightarrow> bool" where
  "pending f \<longleftrightarrow> astate f = StEsc \<or> astate f = StEscInt \<or> astate f = StCSI \<or> astate f = StOSC"

lemma wf_pending:
  assumes "wf_filter f" "pending f"
  shows "strN f = 0" "utf8Remaining f = 0" "run_filter (at_ground f r) (seq f @ t) = run_filter f t"
  using assms
  by (auto simp: wf_filter_def pending_def run_filter_append Let_def split: prod.split)

lemma to_ground_at_ground: "strN f = 0 \<Longrightarrow> utf8Remaining f = 0 \<Longrightarrow> to_ground f = at_ground f 0"
  by (simp add: to_ground_def at_ground_def)

lemma wf_to_ground [simp]: "strN f = 0 \<Longrightarrow> wf_filter (to_ground f)"
  by (simp add: to_ground_def wf_filter_def)

text \<open>A pending sequence that grows by one byte, and one that completes.\<close>

lemma grow_reemits:
  assumes "wf_filter f" "pending f" "filter_step f b = (g, [])" "pending g"
    "seq g = seq f @ [b]" "strN g = 0" "utf8Remaining g = 0" "at_ground g = at_ground f"
  shows "reemits f r (g, [])"
proof (rule reemits_silent)
  have "run_filter (at_ground f q) (seq f @ [b]) = (g, [])" for q
    using wf_pending(3) [OF assms(1,2)] assms(3) by simp
  then show "wf_filter g"
    using assms(4-8) by (auto simp: wf_filter_def pending_def)
qed (use assms in simp)

lemma complete_reemits:
  assumes "wf_filter f" "pending f" "run_filter f t = (to_ground f, seq f @ t)"
  shows "reemits f r (to_ground f, seq f @ t)"
proof -
  have "run_filter (at_ground f r) (seq f @ t) = (at_ground f 0, seq f @ t)"
    using wf_pending [OF assms(1,2)] assms(3) to_ground_at_ground by simp
  then show ?thesis using wf_pending [OF assms(1,2)] by (auto simp: reemits_def to_ground_def wf_filter_def)
qed

lemma reparse_reemits:
  assumes "strN f = 0" "utf8Remaining f = 0"
  shows "reemits f r (ground_step (to_ground f) b)"
  using ground_reemits [of "to_ground f" r b] assms by (simp add: to_ground_def reemits_def)

lemma restart_reemits:
  "strN f = 0 \<Longrightarrow> utf8Remaining f = 0 \<Longrightarrow> reemits f r (f\<lparr>astate := StEsc, seq := [CHR 0x1B]\<rparr>, [])"
  by (rule reemits_silent) (simp_all add: wf_filter_def at_ground_def)

lemma long_reemits:
  assumes "reemits f r (g, [])" "strN g = 0" "utf8Remaining g = 0"
  shows "reemits f r (drop_if_long g, [])"
  using assms by (auto simp: drop_if_long_def reemits_def to_ground_def wf_filter_def)

lemma ground_reemits': "wf_filter f \<Longrightarrow> astate f = StGround \<Longrightarrow> utf8Remaining f \<le> r \<Longrightarrow> reemits f r (ground_step f b)"
  by (rule ground_reemits) (auto simp: wf_filter_def)

lemma esc_reemits:
  assumes "wf_filter f" "astate f = StEsc"
  shows "reemits f r (esc_step f b)"
proof -
  have p: "pending f" using assms(2) by (simp add: pending_def)
  note w = wf_pending [OF assms(1) p]
  have st: "filter_step f b = esc_step f b" using assms(2) by (simp add: filter_step_def)
  consider (csi) "b = CHR ''[''" | (osc) "b = CHR '']''"
    | (str) "b = CHR ''P'' \<or> b = CHR ''_'' \<or> b = CHR ''^'' \<or> b = CHR ''X''" | (decid) "b = CHR ''Z''"
    | (esc) "b = CHR 0x1B" | (inter) "0x20 \<le> ord b" "ord b \<le> 0x2F"
    | (two) "0x30 \<le> ord b" "ord b \<le> 0x7E" "b \<notin> set ''[]P_^XZ''"
    | (abort) "\<not> (0x20 \<le> ord b \<and> ord b \<le> 0x2F)" "\<not> (0x30 \<le> ord b \<and> ord b \<le> 0x7E)"
        "ord b \<noteq> 0x1B" "b \<notin> set ''[]P_^XZ''"
    using ord_eq_iff [of b "CHR 0x1B"] by fastforce
  then show ?thesis
  proof cases
    case csi
    then have e: "esc_step f b = (f\<lparr>astate := StCSI, seq := seq f @ [b]\<rparr>, [])" by (simp add: esc_step_def)
    show ?thesis unfolding e by (rule grow_reemits [OF assms(1) p]) (use e st w in \<open>auto simp: pending_def\<close>)
  next
    case osc
    then have e: "esc_step f b = (f\<lparr>astate := StOSC, seq := seq f @ [b]\<rparr>, [])" by (simp add: esc_step_def)
    show ?thesis unfolding e by (rule grow_reemits [OF assms(1) p]) (use e st w in \<open>auto simp: pending_def\<close>)
  next
    case str
    then have "esc_step f b = (f\<lparr>astate := StStr, strN := 0, seq := []\<rparr>, [])" by (auto simp: esc_step_def)
    then show ?thesis using w by (simp add: reemits_silent wf_filter_def)
  next
    case decid
    then have "esc_step f b = (to_ground f, [])" by (simp add: esc_step_def)
    then show ?thesis using w by (simp add: reemits_silent to_ground_def wf_filter_def)
  next
    case esc
    then have "esc_step f b = (f\<lparr>seq := [CHR 0x1B]\<rparr>, [])" by (simp add: esc_step_def ctrl_defs)
    moreover have "f\<lparr>astate := StEsc, seq := [CHR 0x1B]\<rparr> = f\<lparr>seq := [CHR 0x1B]\<rparr>" using assms(2) by simp
    ultimately show ?thesis using w restart_reemits [of f r] by simp
  next
    case inter
    then have e: "esc_step f b = (f\<lparr>astate := StEscInt, seq := seq f @ [b]\<rparr>, [])"
      by (auto simp: esc_step_def ctrl_defs)
    show ?thesis unfolding e by (rule grow_reemits [OF assms(1) p]) (use e st w in \<open>auto simp: pending_def\<close>)
  next
    case two
    then have e: "esc_step f b = (to_ground f, seq f @ [b])" by (simp add: esc_step_def ctrl_defs)
    show ?thesis unfolding e by (rule complete_reemits [OF assms(1) p]) (use e st in simp)
  next
    case abort
    then have e: "esc_step f b = ground_step (to_ground f) b"
      by (simp only: esc_step_def ctrl_defs if_False list.set insert_iff empty_iff) simp
    show ?thesis unfolding e by (rule reparse_reemits) (use w in auto)
  qed
qed

lemma grow_long_reemits:
  assumes "wf_filter f" "pending f" "filter_step f b = (drop_if_long (f\<lparr>seq := seq f @ [b]\<rparr>), [])"
  shows "reemits f r (drop_if_long (f\<lparr>seq := seq f @ [b]\<rparr>), [])"
proof -
  note w = wf_pending [OF assms(1,2)]
  show ?thesis
  proof (cases "length (seq f @ [b]) > maxSeq f")
    case True
    then have "drop_if_long (f\<lparr>seq := seq f @ [b]\<rparr>) = to_ground f"
      by (simp add: drop_if_long_def to_ground_def)
    then show ?thesis using w by (simp add: reemits_silent to_ground_def wf_filter_def)
  next
    case False
    then have e: "drop_if_long (f\<lparr>seq := seq f @ [b]\<rparr>) = f\<lparr>seq := seq f @ [b]\<rparr>"
      by (simp add: drop_if_long_def)
    show ?thesis unfolding e
      by (rule grow_reemits [OF assms(1,2)]) (use assms(2,3) w e in \<open>auto simp: pending_def\<close>)
  qed
qed

lemma restart_long_reemits:
  assumes "strN f = 0" "utf8Remaining f = 0"
  shows "reemits f r (drop_if_long (f\<lparr>astate := StEsc, seq := [CHR 0x1B]\<rparr>), [])"
  by (rule long_reemits [OF restart_reemits]) (use assms in simp_all)

lemma escint_reemits:
  assumes "wf_filter f" "astate f = StEscInt"
  shows "reemits f r (escint_step f b)"
proof -
  have p: "pending f" using assms(2) by (simp add: pending_def)
  note w = wf_pending [OF assms(1) p]
  have st: "filter_step f b = escint_step f b" using assms(2) by (simp add: filter_step_def)
  consider (inter) "0x20 \<le> ord b" "ord b \<le> 0x2F" | (fin) "0x30 \<le> ord b" "ord b \<le> 0x7E"
    | (esc) "b = CHR 0x1B"
    | (abort) "\<not> (0x20 \<le> ord b \<and> ord b \<le> 0x2F)" "\<not> (0x30 \<le> ord b \<and> ord b \<le> 0x7E)" "ord b \<noteq> 0x1B"
    using ord_eq_iff [of b "CHR 0x1B"] by fastforce
  then show ?thesis
  proof cases
    case inter
    then have "escint_step f b = (drop_if_long (f\<lparr>seq := seq f @ [b]\<rparr>), [])" by (simp add: escint_step_def)
    then show ?thesis using grow_long_reemits [OF assms(1) p] st by simp
  next
    case fin
    then have e: "escint_step f b = (to_ground f, seq f @ [b])" by (simp add: escint_step_def)
    show ?thesis unfolding e by (rule complete_reemits [OF assms(1) p]) (use e st in simp)
  next
    case esc
    then show ?thesis using restart_long_reemits w by (simp add: escint_step_def ctrl_defs)
  next
    case abort
    then have e: "escint_step f b = ground_step (to_ground f) b"
      by (simp only: escint_step_def ctrl_defs if_False)
    show ?thesis unfolding e by (rule reparse_reemits) (use w in auto)
  qed
qed

lemma csi_reemits:
  assumes "wf_filter f" "astate f = StCSI"
  shows "reemits f r (csi_step f b)"
proof -
  have p: "pending f" using assms(2) by (simp add: pending_def)
  note w = wf_pending [OF assms(1) p]
  have st: "filter_step f b = csi_step f b" using assms(2) by (simp add: filter_step_def)
  consider (param) "0x20 \<le> ord b" "ord b \<le> 0x3F" | (fin) "0x40 \<le> ord b" "ord b \<le> 0x7E"
    | (esc) "b = CHR 0x1B"
    | (abort) "\<not> (0x30 \<le> ord b \<and> ord b \<le> 0x3F)" "\<not> (0x20 \<le> ord b \<and> ord b \<le> 0x2F)"
        "\<not> (0x40 \<le> ord b \<and> ord b \<le> 0x7E)" "ord b \<noteq> 0x1B"
    using ord_eq_iff [of b "CHR 0x1B"] by fastforce
  then show ?thesis
  proof cases
    case param
    then have "csi_step f b = (drop_if_long (f\<lparr>seq := seq f @ [b]\<rparr>), [])" by (simp add: csi_step_def)
    then show ?thesis using grow_long_reemits [OF assms(1) p] st by simp
  next
    case fin
    then have e: "csi_step f b = (to_ground f, if csiShouldStrip (seq f @ [b]) then [] else seq f @ [b])"
      by (simp add: csi_step_def)
    show ?thesis
    proof (cases "csiShouldStrip (seq f @ [b])")
      case True
      then show ?thesis using e w by (simp add: reemits_silent to_ground_def wf_filter_def)
    next
      case False
      then show ?thesis using complete_reemits [OF assms(1) p, of "[b]"] e st by simp
    qed
  next
    case esc
    then show ?thesis using restart_long_reemits w by (simp add: csi_step_def ctrl_defs)
  next
    case abort
    then have e: "csi_step f b = ground_step (to_ground f) b"
      by (simp only: csi_step_def ctrl_defs if_False)
    show ?thesis unfolding e by (rule reparse_reemits) (use w in auto)
  qed
qed

lemma osc_reemits:
  assumes "wf_filter f" "astate f = StOSC"
  shows "reemits f r (osc_step f b)"
proof -
  have p: "pending f" using assms(2) by (simp add: pending_def)
  note w = wf_pending [OF assms(1) p]
  have st: "filter_step f c = osc_step f c" for c using assms(2) by (simp add: filter_step_def)
  consider (fin) "ord b = 0x07 \<or> ord b = 0x9C" | (esc) "b = CHR 0x1B"
    | (abort) "\<not> (ord b = 0x07 \<or> ord b = 0x9C)" "ord b \<noteq> 0x1B"
        "ord b < 0x20 \<or> ord b = 0x7F \<or> (0x80 \<le> ord b \<and> ord b \<le> 0x9F)"
    | (grow) "\<not> (ord b = 0x07 \<or> ord b = 0x9C)" "ord b \<noteq> 0x1B"
        "\<not> (ord b < 0x20 \<or> ord b = 0x7F \<or> (0x80 \<le> ord b \<and> ord b \<le> 0x9F))"
    using ord_eq_iff [of b "CHR 0x1B"] by fastforce
  then show ?thesis
  proof cases
    case fin
    let ?t = "[CHR 0x07]"
    have e: "osc_step f b = (to_ground f, if oscShouldStrip (seq f @ ?t) then [] else seq f @ ?t)"
      using fin by (simp add: osc_step_def ctrl_defs)
    show ?thesis
    proof (cases "oscShouldStrip (seq f @ ?t)")
      case True
      then show ?thesis using e w by (simp add: reemits_silent to_ground_def wf_filter_def)
    next
      case False
      moreover have "osc_step f CHR 0x07 = osc_step f b" using fin by (simp add: osc_step_def ctrl_defs)
      ultimately show ?thesis using complete_reemits [OF assms(1) p, of ?t] e st by simp
    qed
  next
    case esc
    have "wf_filter (f\<lparr>astate := StOSCEsc\<rparr>)"
      using assms by (simp add: wf_filter_def)
    then show ?thesis using esc w by (simp add: osc_step_def ctrl_defs reemits_silent)
  next
    case abort
    then have e: "osc_step f b = ground_step (to_ground f) b"
      by (simp only: osc_step_def ctrl_defs if_False if_True)
    show ?thesis unfolding e by (rule reparse_reemits) (use w in auto)
  next
    case grow
    then have "osc_step f b = (drop_if_long (f\<lparr>seq := seq f @ [b]\<rparr>), [])"
      by (simp only: osc_step_def ctrl_defs if_False)
    then show ?thesis using grow_long_reemits [OF assms(1) p] st by simp
  qed
qed

lemma oscesc_reemits:
  assumes "wf_filter f" "astate f = StOSCEsc"
  shows "reemits f r (oscesc_step f b)"
proof -
  let ?g = "f\<lparr>astate := StOSC\<rparr>" and ?t = "[CHR 0x1B, CHR 0x5C]"
  have w: "strN f = 0" "utf8Remaining f = 0" using assms by (simp_all add: wf_filter_def)
  have g: "wf_filter ?g" "pending ?g" using assms by (simp_all add: wf_filter_def pending_def)
  have same: "reemits ?g r x = reemits f r x" for x by (simp add: reemits_def)
  show ?thesis
  proof (cases "b = CHR 0x5C")
    case True
    show ?thesis
    proof (cases "oscShouldStrip (seq f @ ?t)")
      case True
      then show ?thesis using w \<open>b = CHR 0x5C\<close>
        by (simp add: oscesc_step_def reemits_silent to_ground_def wf_filter_def)
    next
      case False
      have "run_filter ?g ?t = (to_ground ?g, seq ?g @ ?t)"
        using False assms(2)
        by (simp add: filter_step_def osc_step_def oscesc_step_def ctrl_defs Let_def to_ground_def)
      from complete_reemits [OF g this, of r] have "reemits f r (to_ground ?g, seq ?g @ ?t)"
        by (simp only: same)
      then show ?thesis
        using False True by (simp add: oscesc_step_def to_ground_def)
    qed
  next
    case False
    then show ?thesis using reparse_reemits [OF w] by (simp add: oscesc_step_def)
  qed
qed

lemma str_reemits:
  assumes "wf_filter f" "astate f = StStr"
  shows "reemits f r (str_step f b)"
  using assms by (simp add: str_step_def reemits_silent wf_filter_def)

lemma stresc_reemits:
  assumes "wf_filter f" "astate f = StStrEsc"
  shows "reemits f r (stresc_step f b)"
  using assms ground_reemits [of "f\<lparr>astate := StGround, strN := 0\<rparr>" r b]
  by (auto simp: stresc_step_def reemits_silent wf_filter_def reemits_def)

lemma step_reemits:
  assumes "wf_filter f" "utf8Remaining f \<le> r"
  shows "reemits f r (filter_step f b)"
  using assms ground_reemits' esc_reemits escint_reemits csi_reemits osc_reemits oscesc_reemits
    str_reemits stresc_reemits
  by (cases "astate f") (simp_all add: filter_step_def)

lemma filter_step_ground_of: "fst (filter_step f b) = g \<Longrightarrow> at_ground g = at_ground f"
  by (rule ext) (auto simp: at_ground_def intro!: ANSIFilter.equality)

lemma run_reemits:
  assumes "wf_filter f" "utf8Remaining f \<le> r"
  shows "reemits f r (run_filter f p)"
  using assms
proof (induction p arbitrary: f r)
  case Nil
  then show ?case by (simp add: reemits_silent)
next
  case (Cons b p)
  obtain g o1 where s: "filter_step f b = (g, o1)" by fastforce
  obtain h o2 where t: "run_filter g p = (h, o2)" by fastforce
  have gr: "at_ground g = at_ground f" using filter_step_ground_of [of f b g] s by simp
  from step_reemits [OF Cons.prems, of b] s obtain r1 where
    1: "wf_filter g" "run_filter (at_ground f r) o1 = (at_ground f r1, o1)" "utf8Remaining g \<le> r1"
    by (auto simp: reemits_def)
  from Cons.IH [OF 1(1,3)] t gr obtain r2 where
    2: "wf_filter h" "run_filter (at_ground f r1) o2 = (at_ground f r2, o2)" "utf8Remaining h \<le> r2"
    by (auto simp: reemits_def)
  show ?case using 1 2 s t by (auto simp: reemits_def run_filter_append Let_def)
qed


section \<open>What is never emitted\<close>

text \<open>
  A byte-accurate reader of the output: \<open>c1_safe r s\<close> says that, with \<open>r\<close> continuation bytes
  expected, every byte of \<open>s\<close> in the C1 range is an expected UTF-8 continuation byte.
\<close>

definition next_expected :: "nat \<Rightarrow> byte \<Rightarrow> nat" where
  "next_expected r b = (if r > 0 \<and> is_cont b then r - 1 else utf8Continuation b)"

definition c1_byte :: "byte \<Rightarrow> bool" where
  "c1_byte b \<longleftrightarrow> 0x80 \<le> ord b \<and> ord b \<le> 0x9F"

fun c1_safe :: "nat \<Rightarrow> string \<Rightarrow> bool" where
  "c1_safe r [] \<longleftrightarrow> True"
| "c1_safe r (b # s) \<longleftrightarrow> (c1_byte b \<longrightarrow> 0 < r) \<and> c1_safe (next_expected r b) s"

fun expected_after :: "nat \<Rightarrow> string \<Rightarrow> nat" where
  "expected_after r [] = r"
| "expected_after r (b # s) = expected_after (next_expected r b) s"

lemma c1_safe_append: "c1_safe r (s @ t) \<longleftrightarrow> c1_safe r s \<and> c1_safe (expected_after r s) t"
  by (induction s arbitrary: r) auto

lemma expected_after_append: "expected_after r (s @ t) = expected_after (expected_after r s) t"
  by (induction s arbitrary: r) auto

text \<open>What may sit in the buffer of an unfinished sequence: no answerback, no C1 byte.\<close>

definition payload :: "byte \<Rightarrow> bool" where
  "payload b \<longleftrightarrow> ord b \<noteq> 0x05 \<and> \<not> c1_byte b"

lemma c1_safe_payload: "list_all payload s \<Longrightarrow> c1_safe r s"
  by (induction s arbitrary: r) (auto simp: payload_def)

definition emission_ok :: "ANSIFilter \<Rightarrow> ANSIFilter \<times> string \<Rightarrow> bool" where
  "emission_ok f res \<longleftrightarrow> list_all payload (seq (fst res)) \<and> list_all (\<lambda>b. ord b \<noteq> 0x05) (snd res) \<and>
     (\<forall>r \<ge> utf8Remaining f. c1_safe r (snd res) \<and> utf8Remaining (fst res) \<le> expected_after r (snd res))"

lemma emission_silent:
  "list_all payload (seq g) \<Longrightarrow> utf8Remaining g \<le> utf8Remaining f \<Longrightarrow> emission_ok f (g, [])"
  by (auto simp: emission_ok_def)

lemma emission_payload:
  "list_all payload s \<Longrightarrow> list_all payload (seq g) \<Longrightarrow> utf8Remaining g = 0 \<Longrightarrow> emission_ok f (g, s)"
  by (auto simp: emission_ok_def c1_safe_payload payload_def list_all_iff)

lemma ground_emission:
  assumes "list_all payload (seq f)" 
  shows "emission_ok f (ground_step f b)"
proof -
  have pl: "payload CHR 0x1B" "payload CHR ''[''" "payload CHR '']''"
    by (simp_all add: payload_def c1_byte_def)
  consider (cont) "utf8Remaining f > 0" "0x80 \<le> ord b" "ord b \<le> 0xBF"
    | (plain) "\<not> (utf8Remaining f > 0 \<and> 0x80 \<le> ord b \<and> ord b \<le> 0xBF)"
        "ord b \<noteq> 0x1B" "ord b \<noteq> 0x05" "ord b < 0x80 \<or> 0xA0 \<le> ord b"
    | (esc) "b = CHR 0x1B" | (enq) "ord b = 0x05"
    | (c1) "utf8Remaining f = 0" "0x80 \<le> ord b" "ord b < 0xA0"
    using ord_eq_iff [of b "CHR 0x1B"] by fastforce
  then show ?thesis
  proof cases
    case cont
    then show ?thesis using assms
      by (auto simp: ground_step_cont emission_ok_def next_expected_def is_cont_def)
  next
    case plain
    then have "\<not> c1_byte b" by (auto simp: c1_byte_def)
    then show ?thesis using plain assms
      by (auto simp: ground_step_plain emission_ok_def next_expected_def is_cont_def)
  next
    case esc
    then show ?thesis using pl by (simp add: emission_silent)
  next
    case enq
    then show ?thesis using assms by (simp add: ground_step_def ctrl_defs emission_silent)
  next
    case c1
    then show ?thesis using assms pl
      by (simp add: ground_step_def ctrl_defs Let_def emission_silent)
  qed
qed

lemma emission_from:
  "emission_ok g res \<Longrightarrow> utf8Remaining g \<le> utf8Remaining f \<Longrightarrow> emission_ok f res"
  by (auto simp: emission_ok_def)

lemma reparse_emission: "emission_ok f (ground_step (to_ground f) b)"
  by (rule emission_from [OF ground_emission]) (simp_all add: to_ground_def)

lemma payload_range: "0x20 \<le> ord b \<Longrightarrow> ord b \<le> 0x7E \<Longrightarrow> payload b"
  by (simp add: payload_def c1_byte_def)

lemma seq_drop_if_long: "list_all payload (seq f) \<Longrightarrow> list_all payload (seq (drop_if_long f))"
  by (simp add: drop_if_long_def to_ground_def)

lemma rem_drop_if_long [simp]: "utf8Remaining (drop_if_long f) = utf8Remaining f"
  by (simp add: drop_if_long_def to_ground_def)

lemma payload_esc: "ord b = 0x1B \<Longrightarrow> payload b"
  by (simp add: payload_def c1_byte_def)

lemma payload_osc: "\<not> (ord b < 0x20 \<or> ord b = 0x7F \<or> 0x80 \<le> ord b \<and> ord b \<le> 0x9F) \<Longrightarrow> payload b"
  by (auto simp: payload_def c1_byte_def)

lemmas emission_rules = emission_silent emission_payload reparse_emission seq_drop_if_long
  payload_range payload_esc payload_osc

lemma pending_rem: "wf_filter f \<Longrightarrow> astate f \<noteq> StGround \<Longrightarrow> utf8Remaining f = 0"
  by (cases "astate f") (simp_all add: wf_filter_def)

lemma rem_to_ground [simp]: "utf8Remaining (to_ground f) = utf8Remaining f" "seq (to_ground f) = []"
  by (simp_all add: to_ground_def)

lemma step_emission:
  assumes "list_all payload (seq f)" "wf_filter f"
  shows "emission_ok f (filter_step f b)"
proof -
  have pl: "payload CHR 0x1B" "payload CHR 0x07" "payload CHR 0x5C"
    by (simp_all add: payload_def c1_byte_def)
  show ?thesis
  proof (cases "astate f")
    case StGround
    then show ?thesis using ground_emission [OF assms(1)] by simp
  next
    case StEsc
    then show ?thesis using pending_rem [OF assms(2)] emission_rules assms(1)
      by (simp add: filter_step_def esc_step_def ctrl_defs)
  next
    case StEscInt
    then show ?thesis using pending_rem [OF assms(2)] emission_rules assms(1)
      by (simp add: filter_step_def escint_step_def ctrl_defs)
  next
    case StCSI
    then show ?thesis using pending_rem [OF assms(2)] emission_rules assms(1)
      by (simp add: filter_step_def csi_step_def ctrl_defs)
  next
    case StOSC
    then show ?thesis using pending_rem [OF assms(2)] emission_rules assms(1) pl
      by (simp add: filter_step_def osc_step_def ctrl_defs)
  next
    case StOSCEsc
    then show ?thesis using pending_rem [OF assms(2)] emission_rules assms(1) pl
      by (simp add: filter_step_def oscesc_step_def ctrl_defs)
  next
    case StStr
    then show ?thesis using assms by (simp add: filter_step_def str_step_def emission_silent)
  next
    case StStrEsc
    then have "emission_ok f (ground_step (f\<lparr>astate := StGround, strN := 0\<rparr>) b)"
      by (intro emission_from [OF ground_emission]) (use assms in simp_all)
    then show ?thesis using StStrEsc assms by (simp add: filter_step_def stresc_step_def emission_silent)
  qed
qed

lemma step_wf: "wf_filter f \<Longrightarrow> wf_filter (fst (filter_step f b))"
  using step_reemits [of f "utf8Remaining f" b] by (simp add: reemits_def)

lemma run_emission:
  assumes "list_all payload (seq f)" "wf_filter f"
  shows "emission_ok f (run_filter f p)"
  using assms
proof (induction p arbitrary: f)
  case Nil
  then show ?case by (simp add: emission_silent)
next
  case (Cons b p)
  obtain g o1 where s: "filter_step f b = (g, o1)" by fastforce
  obtain h o2 where t: "run_filter g p = (h, o2)" by fastforce
  have 1: "emission_ok f (g, o1)" using step_emission [OF Cons.prems, of b] s by simp
  then have "list_all payload (seq g)" by (simp add: emission_ok_def)
  moreover have "wf_filter g" using step_wf [OF Cons.prems(2), of b] s by simp
  ultimately have 2: "emission_ok g (h, o2)" using Cons.IH [of g] t by simp
  show ?case using 1 2 s t
    by (auto simp: emission_ok_def c1_safe_append expected_after_append)
qed

section \<open>Bounds on what is buffered\<close>

definition within_bounds :: "ANSIFilter \<Rightarrow> bool" where
  "within_bounds f \<longleftrightarrow> length (seq f) \<le> max 2 (maxSeq f) \<and> strN f \<le> maxStr f \<and> (astate f = StEsc \<longrightarrow> length (seq f) \<le> 1)"

lemma within_rem [simp]: "within_bounds (f\<lparr>utf8Remaining := n\<rparr>) = within_bounds f"
  by (simp add: within_bounds_def)

lemma within_start:
  "within_bounds f \<Longrightarrow> within_bounds (f\<lparr>astate := StEsc, seq := [b]\<rparr>)"
  "within_bounds f \<Longrightarrow> within_bounds (f\<lparr>seq := [b]\<rparr>)"
  "within_bounds f \<Longrightarrow> within_bounds (f\<lparr>astate := StCSI, seq := [b, c]\<rparr>)"
  "within_bounds f \<Longrightarrow> within_bounds (f\<lparr>astate := StOSC, seq := [b, c]\<rparr>)"
  "within_bounds f \<Longrightarrow> within_bounds (f\<lparr>astate := StStr, strN := 0, seq := []\<rparr>)"
  "within_bounds f \<Longrightarrow> within_bounds (f\<lparr>astate := StOSCEsc\<rparr>)"
  by (auto simp: within_bounds_def)

lemma within_grow:
  "within_bounds f \<Longrightarrow> astate f = StEsc \<Longrightarrow> s \<noteq> StEsc \<Longrightarrow>
     within_bounds (f\<lparr>astate := s, seq := seq f @ [b]\<rparr>)"
  by (auto simp: within_bounds_def)

lemma ground_within: "within_bounds f \<Longrightarrow> within_bounds (fst (ground_step f b))"
  by (simp add: ground_step_def Let_def within_start)

lemma to_ground_within [simp]: "within_bounds f \<Longrightarrow> within_bounds (to_ground f)"
  by (simp add: to_ground_def within_bounds_def)

lemma drop_if_long_within:
  "strN f \<le> maxStr f \<Longrightarrow> astate f = StEsc \<Longrightarrow> length (seq f) \<le> 1 \<Longrightarrow> within_bounds (drop_if_long f)"
  "strN f \<le> maxStr f \<Longrightarrow> astate f \<noteq> StEsc \<Longrightarrow> within_bounds (drop_if_long f)"
  by (auto simp: drop_if_long_def to_ground_def within_bounds_def)

lemma step_within:
  assumes "within_bounds f"
  shows "within_bounds (fst (filter_step f b))"
proof -
  have reparse: "within_bounds (fst (ground_step (to_ground f) b))"
    by (intro ground_within to_ground_within assms)
  have "strN f \<le> maxStr f" using assms by (simp add: within_bounds_def)
  note rules = reparse this drop_if_long_within assms
  show ?thesis
  proof (cases "astate f")
    case StGround then show ?thesis using ground_within [OF assms] by simp
  next
    case StEsc then show ?thesis using rules
      by (simp add: filter_step_def esc_step_def within_start within_grow)
  next
    case StEscInt then show ?thesis using rules by (simp add: filter_step_def escint_step_def)
  next
    case StCSI then show ?thesis using rules by (simp add: filter_step_def csi_step_def)
  next
    case StOSC then show ?thesis using rules
      by (simp add: filter_step_def osc_step_def within_start)
  next
    case StOSCEsc then show ?thesis using rules by (simp add: filter_step_def oscesc_step_def)
  next
    case StStr then show ?thesis using rules
      by (simp add: filter_step_def str_step_def within_bounds_def)
  next
    case StStrEsc
    have "within_bounds (f\<lparr>astate := StGround, strN := 0\<rparr>)" using assms by (simp add: within_bounds_def)
    then show ?thesis using StStrEsc by (simp add: filter_step_def stresc_step_def ground_within)
  qed
qed

lemma run_within: "within_bounds f \<Longrightarrow> within_bounds (fst (run_filter f p))"
proof (induction p arbitrary: f)
  case (Cons b p)
  then have "within_bounds (fst (filter_step f b))" by (intro step_within)
  then show ?case using Cons.IH [of "fst (filter_step f b)"] by (auto simp: Let_def split: prod.split)
qed simp


section \<open>A stream filter as its clients see it\<close>

text \<open>
  The clients of the filter (the terminal bridge, \<open>ansiWriter\<close>) feed it a byte stream in
  arbitrary chunks. What they rely on is that one call on a concatenation is two calls on its
  parts; that the whole output is independent of the chunking follows once and for all.
\<close>

fun feed :: "('s \<Rightarrow> string \<Rightarrow> 's \<times> string) \<Rightarrow> 's \<Rightarrow> string list \<Rightarrow> 's \<times> string" where
  "feed filt s [] = (s, [])"
| "feed filt s (p # ps) = (let (s', o1) = filt s p; (s'', o2) = feed filt s' ps in (s'', o1 @ o2))"

locale stream_filter =
  fixes filt :: "'s \<Rightarrow> string \<Rightarrow> 's \<times> string"
  assumes filt_nil: "snd (filt s []) = []"
    and filt_append: "filt s (p @ q) = (let (s', o1) = filt s p; (s'', o2) = filt s' q in (s'', o1 @ o2))"
begin

lemma feed_concat: "ps \<noteq> [] \<Longrightarrow> feed filt s ps = filt s (concat ps)"
proof (induction ps arbitrary: s)
  case (Cons p ps)
  show ?case
  proof (cases "ps = []")
    case True
    then show ?thesis by (simp split: prod.split)
  next
    case False
    then show ?thesis using Cons.IH by (simp add: filt_append Let_def split: prod.split)
  qed
qed simp

lemma feed_output: "snd (feed filt s ps) = snd (filt s (concat ps))"
  by (cases "ps = []") (simp_all add: feed_concat filt_nil)

end

lemma with_defaults_idem:
  "maxSeq f \<noteq> 0 \<Longrightarrow> maxStr f \<noteq> 0 \<Longrightarrow> with_defaults f = f"
  by (simp add: with_defaults_def)

lemma with_defaults_limits [simp]: "maxSeq (with_defaults f) \<noteq> 0" "maxStr (with_defaults f) \<noteq> 0"
  by (simp_all add: with_defaults_def defaultMaxSeqBytes_def defaultMaxStrBytes_def)

lemma with_defaults_Filter [simp]: "with_defaults (fst (Filter f p)) = fst (Filter f p)"
  by (rule with_defaults_idem) (simp_all add: Filter_def)

interpretation ansi: stream_filter Filter
proof
  show "snd (Filter s []) = []" for s by (simp add: Filter_def)
  show "Filter s (p @ q) = (let (s', o1) = Filter s p; (s'', o2) = Filter s' q in (s'', o1 @ o2))" for s p q
    using with_defaults_Filter [of s p] by (auto simp: Filter_def run_filter_append Let_def split: prod.split)
qed

lemma NewANSIFilter_ground: "NewANSIFilter = at_ground NewANSIFilter 0"
  by (simp add: NewANSIFilter_def at_ground_def)

lemma NewANSIFilter_defaults [simp]: "with_defaults NewANSIFilter = NewANSIFilter"
  by (simp add: NewANSIFilter_def with_defaults_def defaultMaxSeqBytes_def defaultMaxStrBytes_def)

lemma NewANSIFilter_wf: "wf_filter NewANSIFilter" "utf8Remaining NewANSIFilter = 0" "seq NewANSIFilter = []"
  by (simp_all add: wf_filter_def NewANSIFilter_def)

section \<open>Text passes through\<close>

lemma conts_pass:
  "list_all is_cont cs \<Longrightarrow> run_filter (at_ground f (length cs)) cs = (at_ground f 0, cs)"
proof (induction cs)
  case (Cons c cs)
  then have "filter_step (at_ground f (Suc (length cs))) c = (at_ground f (length cs), [c])"
    by (auto simp: ground_step_cont is_cont_def at_ground_def)
  then show ?case using Cons by simp
qed simp

lemma encode_rune_shape:
  assumes "valid_rune r" "0x80 \<le> r"
  shows "list_all is_cont (tl (encode_rune r)) \<and> 0xC0 \<le> ord (hd (encode_rune r)) \<and>
     utf8Continuation (hd (encode_rune r)) = length (tl (encode_rune r))"
proof -
  consider "r \<le> 0x7FF" "r div 64 < 32" | "0x7FF < r" "r \<le> 0xFFFF" "r div 4096 < 16"
    | "0xFFFF < r" "r div 262144 < 8"
    using assms by (fastforce simp: valid_rune_def)
  moreover have "q mod 64 \<le> 63" for q :: nat using mod_less_divisor [of 64 q] by linarith
  ultimately show ?thesis using assms
    by cases (simp_all add: encode_rune_def is_cont_def utf8Continuation_def)
qed

lemma rune_passes:
  assumes "valid_rune r" "r \<noteq> 0x1B" "r \<noteq> 0x05"
  shows "run_filter (at_ground f 0) (encode_rune r) = (at_ground f 0, encode_rune r)"
proof (cases "r < 0x80")
  case True
  then have "encode_rune r = [char_of r]" "ord (char_of r) = r" by (simp_all add: encode_rune_def)
  then show ?thesis using at_ground_plain [of "char_of r" f 0] assms True by simp
next
  case False
  define b cs where "b = hd (encode_rune r)" "cs = tl (encode_rune r)"
  then have e: "encode_rune r = b # cs" "list_all is_cont cs" "utf8Continuation b = length cs"
    "0xC0 \<le> ord b" using encode_rune_shape [OF assms(1)] False by simp_all
  then have "filter_step (at_ground f 0) b = (at_ground f (length cs), [b])"
    using at_ground_plain [of b f 0] by simp
  then show ?thesis using conts_pass [OF e(2)] e(1) by simp
qed

lemma text_passes:
  "valid_runes rs \<Longrightarrow> 0x1B \<notin> set rs \<Longrightarrow> 0x05 \<notin> set rs \<Longrightarrow>
     run_filter (at_ground f 0) (encode_runes rs) = (at_ground f 0, encode_runes rs)"
proof (induction rs)
  case (Cons r rs)
  then show ?case using rune_passes [of r f] by (auto simp: run_filter_append)
qed simp

section \<open>Whole control sequences\<close>

lemma csi_body:
  assumes "list_all (\<lambda>b. 0x20 \<le> ord b \<and> ord b \<le> 0x3F) ps" "astate f = StCSI"
    "length (seq f) + length ps \<le> maxSeq f"
  shows "run_filter f ps = (f\<lparr>seq := seq f @ ps\<rparr>, [])"
  using assms
proof (induction ps arbitrary: f)
  case (Cons b ps)
  then have "filter_step f b = (f\<lparr>seq := seq f @ [b]\<rparr>, [])"
    by (simp add: filter_step_def csi_step_def drop_if_long_def)
  then show ?case using Cons.prems Cons.IH [of "f\<lparr>seq := seq f @ [b]\<rparr>"] by simp
qed simp

lemma csi_sequence:
  assumes "list_all (\<lambda>b. 0x20 \<le> ord b \<and> ord b \<le> 0x3F) ps" "0x40 \<le> ord b" "ord b \<le> 0x7E"
    "length ps + 2 \<le> maxSeq f"
  shows "run_filter (at_ground f 0) (CHR 0x1B # CHR ''['' # ps @ [b]) =
     (at_ground f 0, if csiShouldStrip (CHR 0x1B # CHR ''['' # ps @ [b]) then [] else CHR 0x1B # CHR ''['' # ps @ [b])"
proof -
  let ?g = "(at_ground f 0)\<lparr>astate := StCSI, seq := [CHR 0x1B, CHR ''['']\<rparr>"
  have i: "run_filter (at_ground f 0) [CHR 0x1B, CHR ''[''] = (?g, [])"
    by (simp add: filter_step_def esc_step_def at_ground_def)
  have m: "run_filter ?g ps = (?g\<lparr>seq := [CHR 0x1B, CHR ''[''] @ ps\<rparr>, [])"
    using csi_body [of ps ?g] assms by simp
  have l: "run_filter (?g\<lparr>seq := [CHR 0x1B, CHR ''[''] @ ps\<rparr>) [b] =
      (at_ground f 0, if csiShouldStrip (CHR 0x1B # CHR ''['' # ps @ [b]) then [] else CHR 0x1B # CHR ''['' # ps @ [b])"
    using assms by (simp add: filter_step_def csi_step_def to_ground_def at_ground_def)
  have "CHR 0x1B # CHR ''['' # ps @ [b] = [CHR 0x1B, CHR ''[''] @ ps @ [b]" by simp
  then show ?thesis using i m l by (simp only: run_filter_append Let_def case_prod_conv append_Nil)
qed

lemma string_body:
  assumes "list_all (\<lambda>b. ord b \<noteq> 0x07 \<and> ord b \<noteq> 0x9C \<and> ord b \<noteq> 0x1B) ps" "astate f = StStr"
    "strN f + length ps \<le> maxStr f"
  shows "run_filter f ps = (f\<lparr>strN := strN f + length ps\<rparr>, [])"
  using assms
proof (induction ps arbitrary: f)
  case (Cons b ps)
  then have "filter_step f b = (f\<lparr>strN := strN f + 1\<rparr>, [])"
    by (simp add: filter_step_def str_step_def ctrl_defs)
  then show ?case using Cons.prems Cons.IH [of "f\<lparr>strN := strN f + 1\<rparr>"] by simp
qed simp

lemma string_sequence:
  assumes "b \<in> set ''PX^_''" "list_all (\<lambda>b. ord b \<noteq> 0x07 \<and> ord b \<noteq> 0x9C \<and> ord b \<noteq> 0x1B) ps"
    "length ps \<le> maxStr f"
  shows "run_filter (at_ground f 0) (CHR 0x1B # b # ps @ [CHR 0x1B, CHR 0x5C]) = (at_ground f 0, [])"
proof -
  let ?g = "(at_ground f 0)\<lparr>astate := StStr\<rparr>"
  have i: "run_filter (at_ground f 0) [CHR 0x1B, b] = (?g, [])"
    using assms(1) by (auto simp: filter_step_def esc_step_def at_ground_def)
  have m: "run_filter ?g ps = (?g\<lparr>strN := length ps\<rparr>, [])"
    using string_body [of ps ?g] assms by simp
  have l: "run_filter (?g\<lparr>strN := length ps\<rparr>) [CHR 0x1B, CHR 0x5C] = (at_ground f 0, [])"
    by (simp add: filter_step_def str_step_def stresc_step_def ctrl_defs at_ground_def)
  have "CHR 0x1B # b # ps @ [CHR 0x1B, CHR 0x5C] = [CHR 0x1B, b] @ ps @ [CHR 0x1B, CHR 0x5C]" by simp
  then show ?thesis using i m l by (simp only: run_filter_append Let_def case_prod_conv append_Nil)
qed

section \<open>Properties\<close>

text \<open>
  Chunk independence. However a byte stream is cut into chunks, successive calls of \<open>Filter\<close>
  emit exactly what a single call on the whole stream emits; in particular a control sequence
  split across calls is recognised as if it had arrived in one piece.
\<close>

theorem Filter_chunks: "snd (feed Filter f ps) = snd (Filter f (concat ps))"
  by (rule ansi.feed_output)

text \<open>
  The output of a fresh filter is a fixed point of filtering. Nothing the filter forwards,
  also not across the places where something was dropped, reads as a sequence it would have
  dropped, and every sequence it forwards is complete.
\<close>

theorem Filter_idempotent:
  "snd (Filter NewANSIFilter (snd (Filter NewANSIFilter p))) = snd (Filter NewANSIFilter p)"
proof -
  obtain r' where "run_filter (at_ground NewANSIFilter 0) (snd (run_filter NewANSIFilter p)) =
      (at_ground NewANSIFilter r', snd (run_filter NewANSIFilter p))"
    using run_reemits [of NewANSIFilter 0 p] NewANSIFilter_wf by (auto simp: reemits_def)
  then show ?thesis by (simp add: Filter_def NewANSIFilter_ground [symmetric])
qed

text \<open>
  The output of a fresh filter never holds the answerback byte ENQ, and every byte of it in
  the C1 range 0x80 to 0x9F is a UTF-8 continuation byte announced by a lead byte of the output
  itself, so no 8-bit control introducer reaches the terminal.
\<close>

theorem Filter_never_emits:
  "list_all (\<lambda>b. ord b \<noteq> ctrlENQ) (snd (Filter NewANSIFilter p)) \<and> c1_safe 0 (snd (Filter NewANSIFilter p))"
  using run_emission [of NewANSIFilter p] NewANSIFilter_wf
  by (simp add: Filter_def emission_ok_def ctrl_defs)

text \<open>
  After any input the filter holds at most \<open>defaultMaxSeqBytes\<close> bytes of an unfinished
  sequence and its string counter is at most \<open>defaultMaxStrBytes\<close>: a hostile stream cannot make
  it buffer without bound.
\<close>

theorem Filter_bounded:
  "length (seq (fst (Filter NewANSIFilter p))) \<le> defaultMaxSeqBytes \<and>
   strN (fst (Filter NewANSIFilter p)) \<le> defaultMaxStrBytes"
proof -
  have "within_bounds NewANSIFilter" by (simp add: within_bounds_def NewANSIFilter_def)
  then have "within_bounds (fst (run_filter NewANSIFilter p))" by (rule run_within)
  then show ?thesis
    by (simp add: Filter_def within_bounds_def) (simp add: NewANSIFilter_def defaultMaxSeqBytes_def)
qed

text \<open>
  UTF-8 text without ESC and ENQ is forwarded byte for byte and leaves a fresh filter as it
  was, also where a continuation byte has the value of a C1 introducer.
\<close>

theorem Filter_text_unchanged:
  assumes "valid_runes rs" "0x1B \<notin> set rs" "0x05 \<notin> set rs"
  shows "Filter NewANSIFilter (encode_runes rs) = (NewANSIFilter, encode_runes rs)"
  using text_passes [OF assms, of NewANSIFilter] by (simp add: Filter_def NewANSIFilter_ground [symmetric])

theorem Filter_text_unchanged_witness:
  "Filter NewANSIFilter (encode_runes [0x63, 0x61, 0x66, 0xE9, 0x1F6E0]) =
     (NewANSIFilter, encode_runes [0x63, 0x61, 0x66, 0xE9, 0x1F6E0])"
  by (rule Filter_text_unchanged) (simp_all add: valid_rune_def)

text \<open>
  A complete CSI sequence (parameter and intermediate bytes, then a final byte) that fits the
  buffer is dropped exactly when \<open>csiShouldStrip\<close> says it induces a reply and is otherwise
  forwarded unchanged, and the filter is at ground afterwards.
\<close>

theorem Filter_csi:
  assumes "list_all (\<lambda>b. 0x20 \<le> ord b \<and> ord b \<le> 0x3F) ps" "0x40 \<le> ord b" "ord b \<le> 0x7E"
    "length ps + 2 \<le> defaultMaxSeqBytes"
  shows "Filter NewANSIFilter (CHR 0x1B # CHR ''['' # ps @ [b]) =
     (NewANSIFilter,
      if csiShouldStrip (CHR 0x1B # CHR ''['' # ps @ [b]) then [] else CHR 0x1B # CHR ''['' # ps @ [b])"
proof -
  have "maxSeq NewANSIFilter = defaultMaxSeqBytes" by (simp add: NewANSIFilter_def)
  then show ?thesis
    using csi_sequence [of ps b NewANSIFilter] assms
    by (simp add: Filter_def NewANSIFilter_ground [symmetric] del: run_filter.simps)
qed

theorem Filter_csi_witness:
  "Filter NewANSIFilter (CHR 0x1B # CHR ''['' # ''6'' @ [CHR ''n'']) = (NewANSIFilter, [])"
  using Filter_csi [of "''6''" "CHR ''n''"]
  by (simp add: defaultMaxSeqBytes_def csiShouldStrip_def strip_intro_def ctrl_defs Let_def
      del: run_filter.simps)

text \<open>
  A DCS, SOS, PM or APC string terminated by ST, of at most \<open>defaultMaxStrBytes\<close> bytes, is
  dropped in full and leaves the filter at ground, whatever its body holds.
\<close>

theorem Filter_string_dropped:
  assumes "b \<in> set ''PX^_''" "list_all (\<lambda>b. ord b \<noteq> ctrlBEL \<and> ord b \<noteq> c1ST \<and> ord b \<noteq> ctrlESC) ps"
    "length ps \<le> defaultMaxStrBytes"
  shows "Filter NewANSIFilter (CHR 0x1B # b # ps @ [CHR 0x1B, CHR 0x5C]) = (NewANSIFilter, [])"
proof -
  have "maxStr NewANSIFilter = defaultMaxStrBytes" by (simp add: NewANSIFilter_def)
  then show ?thesis
    using string_sequence [of b ps NewANSIFilter] assms
    by (simp add: Filter_def NewANSIFilter_ground [symmetric] ctrl_defs del: run_filter.simps)
qed

theorem Filter_string_dropped_witness:
  "Filter NewANSIFilter (CHR 0x1B # CHR ''P'' # ''+q544e'' @ [CHR 0x1B, CHR 0x5C]) = (NewANSIFilter, [])"
  by (rule Filter_string_dropped) (simp_all add: ctrl_defs defaultMaxStrBytes_def)

text \<open>
  A C1 control that arrives UTF-8 encoded is not neutralised: the two-byte encoding of U+009B
  followed by a device-attributes query passes the filter unchanged, although the same query
  introduced by ESC [ or by the raw byte 0x9B is dropped.
\<close>

theorem Filter_keeps_encoded_CSI:
  "snd (Filter NewANSIFilter (encode_runes [0x9B, 0x63])) = encode_runes [0x9B, 0x63] \<and>
   snd (Filter NewANSIFilter [CHR 0x9B, CHR ''c'']) = [] \<and>
   snd (Filter NewANSIFilter [CHR 0x1B, CHR ''['', CHR ''c'']) = []"
proof (intro conjI)
  show "snd (Filter NewANSIFilter (encode_runes [0x9B, 0x63])) = encode_runes [0x9B, 0x63]"
    using text_passes [of "[0x9B, 0x63]" NewANSIFilter]
    by (simp add: Filter_def NewANSIFilter_ground [symmetric] valid_rune_def)
  have da: "csiShouldStrip [CHR 0x1B, CHR ''['', CHR ''c'']"
    by (simp add: csiShouldStrip_def strip_intro_def ctrl_defs Let_def)
  then show "snd (Filter NewANSIFilter [CHR 0x9B, CHR ''c'']) = []"
    by (simp add: Filter_def filter_step_def ground_step_def csi_step_def ctrl_defs Let_def
        NewANSIFilter_def with_defaults_def)
  have "2 \<le> maxSeq NewANSIFilter" by (simp add: NewANSIFilter_def defaultMaxSeqBytes_def)
  then show "snd (Filter NewANSIFilter [CHR 0x1B, CHR ''['', CHR ''c'']) = []"
    using da csi_sequence [of "[]" "CHR ''c''" NewANSIFilter]
    by (simp add: Filter_def NewANSIFilter_ground [symmetric] del: run_filter.simps)
qed


end
