(* ===== verification/HerdrModel.thy ===== *)
theory HerdrModel
  imports GoStrings "HOL-Library.Word"
begin

text \<open>
  The decoded Herdr topology (internal/herdr/models.go) and the validation of logical keys
  (internal/herdr/keys.go). Go structs are records whose fields carry the struct's initial as a
  prefix, because record fields share one name space. A nil pointer is \<open>None\<close>. \<open>uint64\<close> is a
  64-bit word; a \<open>float64\<close> that is only copied and compared is kept as its 64-bit pattern.
\<close>

section \<open>internal/herdr/models.go\<close>

type_synonym AgentStatus = string

definition StatusIdle :: AgentStatus where "StatusIdle = ''idle''"
definition StatusWorking :: AgentStatus where "StatusWorking = ''working''"
definition StatusBlocked :: AgentStatus where "StatusBlocked = ''blocked''"
definition StatusDone :: AgentStatus where "StatusDone = ''done''"
definition StatusUnknown :: AgentStatus where "StatusUnknown = ''unknown''"

lemmas status_defs = StatusIdle_def StatusWorking_def StatusBlocked_def StatusDone_def StatusUnknown_def

definition Active :: "AgentStatus \<Rightarrow> bool" where
  "Active s \<longleftrightarrow> s = StatusWorking \<or> s = StatusBlocked"

record WorkspaceWorktree =
  wt_RepoKey :: string
  wt_RepoName :: string
  wt_RepoRoot :: string
  wt_CheckoutPath :: string
  wt_IsLinkedWorktree :: bool

record Workspace =
  w_WorkspaceID :: string
  w_Number :: int
  w_Label :: string
  w_Focused :: bool
  w_PaneCount :: int
  w_TabCount :: int
  w_ActiveTabID :: string
  w_AgentStatus :: AgentStatus
  w_Worktree :: "WorkspaceWorktree option"

record Tab =
  t_TabID :: string
  t_WorkspaceID :: string
  t_Number :: int
  t_Label :: string
  t_Focused :: bool
  t_PaneCount :: int
  t_AgentStatus :: AgentStatus

record Scroll =
  OffsetFromBottom :: int
  MaxOffsetFromBottom :: int
  ViewportRows :: int

record AgentSession =
  as_Source :: string
  as_Agent :: string
  as_Kind :: string
  as_Value :: string

record Pane =
  p_PaneID :: string
  p_TerminalID :: string
  p_WorkspaceID :: string
  p_TabID :: string
  p_Focused :: bool
  p_CWD :: string
  p_ForegroundCWD :: string
  p_Agent :: string
  p_DisplayAgent :: string
  p_AgentSession :: "AgentSession option"
  p_AgentStatus :: AgentStatus
  p_Label :: string
  p_Title :: string
  p_TerminalTitle :: string
  p_TerminalTitleStripped :: string
  p_Scroll :: "Scroll option"
  p_Revision :: int

record Agent =
  a_TerminalID :: string
  a_Agent :: string
  a_Name :: string
  a_DisplayAgent :: string
  a_Title :: string
  a_AgentSession :: "AgentSession option"
  a_AgentStatus :: AgentStatus
  a_WorkspaceID :: string
  a_TabID :: string
  a_PaneID :: string
  a_Focused :: bool
  a_InteractiveReady :: bool
  a_LaunchPending :: bool
  a_ScreenDetectionSkipped :: bool
  a_StateChangeSeq :: int
  a_CWD :: string
  a_ForegroundCWD :: string
  a_TerminalTitle :: string
  a_TerminalTitleStripped :: string
  a_Revision :: int

record Rect =
  r_X :: int
  r_Y :: int
  r_Width :: int
  r_Height :: int

record LayoutPane =
  lp_PaneID :: string
  lp_Focused :: bool
  lp_Rect :: Rect

record LayoutSplit =
  ls_ID :: string
  ls_Direction :: string
  ls_Ratio :: "64 word"
  ls_Rect :: Rect

record Layout =
  l_WorkspaceID :: string
  l_TabID :: string
  l_Zoomed :: bool
  l_Area :: Rect
  l_FocusedPaneID :: string
  l_Panes :: "LayoutPane list"
  l_Splits :: "LayoutSplit list"

record Topology =
  s_Version :: string
  s_Protocol :: int
  s_FocusedWorkspaceID :: string
  s_FocusedTabID :: string
  s_FocusedPaneID :: string
  s_Workspaces :: "Workspace list"
  s_Tabs :: "Tab list"
  s_Panes :: "Pane list"
  s_Layouts :: "Layout list"
  s_Agents :: "Agent list"

definition NUL :: string where
  "NUL = [CHR 0x00]"

definition OccupantFingerprint :: "Pane \<Rightarrow> string" where
  "OccupantFingerprint p =
     (let fp = p_TerminalID p @ NUL @ p_Agent p in
      case p_AgentSession p of
        None \<Rightarrow> fp
      | Some s \<Rightarrow> fp @ NUL @ as_Source s @ NUL @ as_Kind s @ NUL @ as_Value s)"

section \<open>internal/herdr/keys.go\<close>

definition namedKeys :: "string list" where
  "namedKeys =
     [''enter'', ''return'', ''tab'', ''esc'', ''escape'', ''backspace'', ''delete'', ''del'',
      ''insert'', ''space'', ''up'', ''down'', ''left'', ''right'', ''home'', ''end'', ''pageup'',
      ''pagedown'']"

definition modifiers :: "string list" where
  "modifiers = [''ctrl'', ''alt'', ''shift'', ''meta'', ''super'']"

text \<open>
  \<open>int\<close> of a 64-bit build: the digits of an absurdly long token wrap around, as in Go.
\<close>

fun function_number :: "64 word \<Rightarrow> rune list \<Rightarrow> 64 word option" where
  "function_number n [] = Some n"
| "function_number n (r # rs) =
     (if r < 0x30 \<or> r > 0x39 then None
      else function_number (n * 10 + of_nat (r - 0x30)) rs)"

definition isFunctionKey :: "string \<Rightarrow> bool" where
  "isFunctionKey s =
     (if length s < 2 \<or> s ! 0 \<noteq> CHR ''f'' then False
      else case function_number 0 (runes (drop 1 s)) of
             None \<Rightarrow> False
           | Some n \<Rightarrow> 1 \<le> sint n \<and> sint n \<le> 24)"

definition validBaseKey :: "string \<Rightarrow> bool" where
  "validBaseKey base =
     (if base = [] then False
      else
        let lower = ToLower base in
        if lower \<in> set namedKeys then True
        else if isFunctionKey lower then True
        else
          let rs = runes base
          in length rs = 1 \<and> rs ! 0 \<ge> 0x20 \<and> rs ! 0 \<noteq> 0x7F)"

definition ValidateKey :: "string \<Rightarrow> bool" where
  "ValidateKey key =
     (if key = [] then False
      else
        let parts = Split key CHR ''+'' in
        if \<not> list_all (\<lambda>m. ToLower m \<in> set modifiers) (butlast parts) then False
        else validBaseKey (last parts))"

fun first_invalid :: "string list \<Rightarrow> string option" where
  "first_invalid [] = None"
| "first_invalid (k # ks) = (if \<not> ValidateKey k then Some k else first_invalid ks)"

definition ValidateKeys :: "string list \<Rightarrow> string \<times> bool" where
  "ValidateKeys keys =
     (if keys = [] then ([], False)
      else case first_invalid keys of Some k \<Rightarrow> (k, False) | None \<Rightarrow> ([], True))"


section \<open>What a validated key can hold\<close>

definition no_control :: "string \<Rightarrow> bool" where
  "no_control s \<longleftrightarrow> list_all (\<lambda>c. 0x20 \<le> ord c \<and> ord c \<noteq> 0x7F) s"

lemma ToLower_keeps_control:
  assumes "c \<in> set s" "ord c < 0x20 \<or> ord c = 0x7F"
  shows "c \<in> set (ToLower s)"
proof -
  have "ord c \<in> set (runes s)" using assms by (intro ascii_in_runes) auto
  moreover have "ToLower_rune (ord c) = ord c" using assms(2) by (auto simp: ToLower_rune_def)
  ultimately have "ord c \<in> set (map ToLower_rune (runes s))" by (metis imageI list.set_map)
  then show ?thesis unfolding ToLower_def using assms(2) by (intro ascii_in_encode) auto
qed

lemma no_control_ToLower: "no_control (ToLower s) \<Longrightarrow> no_control s"
  using ToLower_keeps_control [of _ s] unfolding no_control_def list_all_iff by (meson not_less)

lemma named_no_control: "k \<in> set namedKeys \<union> set modifiers \<Longrightarrow> no_control k"
  by (auto simp: namedKeys_def modifiers_def no_control_def)

lemma function_number_digits:
  "function_number n rs = Some m \<Longrightarrow> list_all (\<lambda>r. 0x30 \<le> r \<and> r \<le> 0x39) rs"
  by (induction rs arbitrary: n) (auto split: if_splits)

lemma isFunctionKey_no_control: "isFunctionKey s \<Longrightarrow> no_control s"
proof -
  assume k: "isFunctionKey s"
  then obtain b t where s: "s = b # t" "b = CHR ''f''" by (cases s) (auto simp: isFunctionKey_def split: if_splits)
  have d: "list_all (\<lambda>r. 0x30 \<le> r \<and> r \<le> 0x39) (runes t)"
    using k s by (auto simp: isFunctionKey_def split: if_splits option.splits dest: function_number_digits)
  have "0x20 \<le> ord c \<and> ord c \<noteq> 0x7F" if "c \<in> set t" for c
    using ascii_in_runes [OF that] d by (cases "ord c < 0x80") (force simp: list_all_iff)+
  then show ?thesis using s by (auto simp: no_control_def list_all_iff)
qed

lemma single_no_control: "runes s = [r] \<Longrightarrow> 0x20 \<le> r \<Longrightarrow> r \<noteq> 0x7F \<Longrightarrow> no_control s"
  unfolding no_control_def list_all_iff
proof
  fix c assume "runes s = [r]" "0x20 \<le> r" "r \<noteq> 0x7F" "c \<in> set s"
  then show "0x20 \<le> ord c \<and> ord c \<noteq> 0x7F"
    using ascii_in_runes [of c s] by (cases "ord c < 0x80") auto
qed

lemma validBaseKey_no_control: "validBaseKey s \<Longrightarrow> no_control s"
  using named_no_control [of "ToLower s"] isFunctionKey_no_control [of "ToLower s"] no_control_ToLower [of s]
  by (auto simp: validBaseKey_def Let_def length_Suc_conv split: if_splits intro: single_no_control)

lemma no_control_parts:
  assumes "\<And>p. p \<in> set (Split s CHR ''+'') \<Longrightarrow> no_control p"
  shows "no_control s"
  unfolding no_control_def list_all_iff
proof
  fix c assume c: "c \<in> set s"
  show "0x20 \<le> ord c \<and> ord c \<noteq> 0x7F"
  proof (cases "c = CHR ''+''")
    case False
    then obtain p where "p \<in> set (Split s CHR ''+'')" "c \<in> set p" using Split_bytes [OF c] by blast
    then show ?thesis using assms [of p] by (auto simp: no_control_def list_all_iff)
  qed simp
qed

text \<open>
  Every key that \<open>ValidateKey\<close> accepts is free of C0 control bytes and DEL, whichever of the
  three forms (named key, function key, literal) and however many modifiers it has, so no
  accepted key carries an ESC or a CR into send-keys.
\<close>

theorem ValidateKey_no_control:
  assumes "ValidateKey key"
  shows "no_control key"
proof (rule no_control_parts)
  fix p assume p: "p \<in> set (Split key CHR ''+'')"
  let ?parts = "Split key CHR ''+''"
  have v: "list_all (\<lambda>m. ToLower m \<in> set modifiers) (butlast ?parts)" "validBaseKey (last ?parts)"
    using assms by (auto simp: ValidateKey_def Let_def split: if_splits)
  have "set ?parts = insert (last ?parts) (set (butlast ?parts))"
    by (metis Split_nonempty append_butlast_last_id list.set(1,2) set_append Un_insert_right sup_bot_right)
  then consider "p = last ?parts" | "p \<in> set (butlast ?parts)" using p by blast
  then show "no_control p"
  proof cases
    case 1 then show ?thesis using v(2) validBaseKey_no_control by simp
  next
    case 2
    then have "no_control (ToLower p)" using v(1) named_no_control by (auto simp: list_all_iff)
    then show ?thesis by (rule no_control_ToLower)
  qed
qed

lemma runes_ascii: "list_all (\<lambda>c. ord c < 0x80) s \<Longrightarrow> runes s = map of_char s"
  by (induction s) (simp_all add: runes_def rune_chunks.simps [of "_ # _"] decode_rune.simps(2))

theorem ValidateKey_no_control_witness: "ValidateKey ''Ctrl+c'' \<and> no_control ''Ctrl+c''"
proof -
  have "ToLower ''Ctrl'' = ''ctrl''" "ToLower ''c'' = ''c''"
    by (simp_all add: ToLower_def runes_ascii ToLower_rune_def encode_rune_def, code_simp+)
  then have "ValidateKey ''Ctrl+c''"
    by (simp add: ValidateKey_def validBaseKey_def modifiers_def namedKeys_def isFunctionKey_def runes_ascii)
  then show ?thesis using ValidateKey_no_control by blast
qed

text \<open>
  A literal key is documented as any printable character, but a single C1 control is
  accepted too: the UTF-8 encoding of U+009B, the 8-bit CSI, is a valid key.
\<close>

theorem ValidateKey_accepts_C1: "ValidateKey (encode_runes [0x9B])"
proof -
  have e: "encode_runes [0x9B] = [CHR 0xC2, CHR 0x9B]" by code_simp
  have "runes (encode_runes [0x9B]) = [0x9B]"
    by (rule runes_encode_runes) (simp add: valid_rune_def)
  then have r: "runes [CHR 0xC2, CHR 0x9B] = [0x9B]" by (simp only: e)
  show ?thesis unfolding e
    by (simp add: ValidateKey_def validBaseKey_def Let_def r)
qed

end
