(* ===== verification/StateSnapshot.thy ===== *)
theory StateSnapshot
  imports HerdrModel "HOL-Library.Product_Lexorder" "HOL-Library.Multiset"
begin

text \<open>
  The versioned snapshot and its content hash (internal/state/snapshot.go). \<open>slices.SortFunc\<close> is
  modelled by a stable sort; it is only ever applied to slices whose keys are distinct when the
  identifiers Herdr reports are, and the theorems about it say so. JSON encoding followed by
  SHA-256 is a parameter, a function from the projection to the digest (\<open>None\<close> when encoding
  fails).
\<close>

section \<open>internal/state/snapshot.go\<close>

record Snapshot =
  Seq :: "64 word"
  Hash :: string
  Topo :: "Topology option"
  Generations :: "string \<rightharpoonup> 64 word"
  snap_bytes :: int

record projWS =
  pw_ID :: string
  pw_Label :: string
  pw_ActiveTab :: string
  pw_Status :: string
  pw_Number :: int
  pw_PaneCount :: int
  pw_TabCount :: int
  pw_Focused :: bool
  pw_Worktree :: string

record projTab =
  pt_ID :: string
  pt_WS :: string
  pt_Label :: string
  pt_Status :: string
  pt_Number :: int
  pt_PaneCount :: int
  pt_Focused :: bool

record projPane =
  pp_ID :: string
  pp_Terminal :: string
  pp_WS :: string
  pp_Tab :: string
  pp_Agent :: string
  pp_DisplayAgent :: string
  pp_Status :: string
  pp_Label :: string
  pp_Title :: string
  pp_CWD :: string
  pp_FgCWD :: string
  pp_Occupant :: string
  pp_Focused :: bool

record projAgent =
  pa_Pane :: string
  pa_Agent :: string
  pa_Name :: string
  pa_Status :: string
  pa_WS :: string
  pa_Tab :: string
  pa_CWD :: string
  pa_Focused :: bool
  pa_InteractiveReady :: bool

record hashProjection =
  FW :: string
  FT :: string
  FP :: string
  h_Workspaces :: "projWS list"
  h_Tabs :: "projTab list"
  h_Panes :: "projPane list"
  h_Agents :: "projAgent list"
  h_Layouts :: "Layout list"

definition FormatBool :: "bool \<Rightarrow> string" where
  "FormatBool b = (if b then ''true'' else ''false'')"

definition worktreeKey :: "WorkspaceWorktree option \<Rightarrow> string" where
  "worktreeKey w =
     (case w of
        None \<Rightarrow> []
      | Some w \<Rightarrow> wt_RepoKey w @ NUL @ wt_RepoName w @ NUL @ wt_RepoRoot w @ NUL @ wt_CheckoutPath w
          @ NUL @ FormatBool (wt_IsLinkedWorktree w))"

definition canonicalLayout :: "Layout \<Rightarrow> Layout" where
  "canonicalLayout l = l\<lparr>l_Panes := sort_key lp_PaneID (l_Panes l), l_Splits := sort_key ls_ID (l_Splits l)\<rparr>"

definition canonicalLayouts :: "Layout list \<Rightarrow> Layout list" where
  "canonicalLayouts ls = map canonicalLayout ls"

definition project_ws :: "Workspace \<Rightarrow> projWS" where
  "project_ws w = \<lparr>pw_ID = w_WorkspaceID w, pw_Label = w_Label w, pw_ActiveTab = w_ActiveTabID w,
     pw_Status = w_AgentStatus w, pw_Number = w_Number w, pw_PaneCount = w_PaneCount w,
     pw_TabCount = w_TabCount w, pw_Focused = w_Focused w, pw_Worktree = worktreeKey (w_Worktree w)\<rparr>"

definition project_tab :: "Tab \<Rightarrow> projTab" where
  "project_tab t = \<lparr>pt_ID = t_TabID t, pt_WS = t_WorkspaceID t, pt_Label = t_Label t,
     pt_Status = t_AgentStatus t, pt_Number = t_Number t, pt_PaneCount = t_PaneCount t,
     pt_Focused = t_Focused t\<rparr>"

definition project_pane :: "Pane \<Rightarrow> projPane" where
  "project_pane p = \<lparr>pp_ID = p_PaneID p, pp_Terminal = p_TerminalID p, pp_WS = p_WorkspaceID p,
     pp_Tab = p_TabID p, pp_Agent = p_Agent p, pp_DisplayAgent = p_DisplayAgent p,
     pp_Status = p_AgentStatus p, pp_Label = p_Label p, pp_Title = p_Title p, pp_CWD = p_CWD p,
     pp_FgCWD = p_ForegroundCWD p, pp_Occupant = OccupantFingerprint p, pp_Focused = p_Focused p\<rparr>"

definition project_agent :: "Agent \<Rightarrow> projAgent" where
  "project_agent a = \<lparr>pa_Pane = a_PaneID a, pa_Agent = a_Agent a, pa_Name = a_Name a,
     pa_Status = a_AgentStatus a, pa_WS = a_WorkspaceID a, pa_Tab = a_TabID a, pa_CWD = a_CWD a,
     pa_Focused = a_Focused a, pa_InteractiveReady = a_InteractiveReady a\<rparr>"

definition project :: "Topology \<Rightarrow> hashProjection" where
  "project s = \<lparr>FW = s_FocusedWorkspaceID s, FT = s_FocusedTabID s, FP = s_FocusedPaneID s,
     h_Workspaces = sort_key pw_ID (map project_ws (s_Workspaces s)),
     h_Tabs = sort_key pt_ID (map project_tab (s_Tabs s)),
     h_Panes = sort_key pp_ID (map project_pane (s_Panes s)),
     h_Agents = sort_key (\<lambda>a. (pa_Pane a, pa_Agent a)) (map project_agent (s_Agents s)),
     h_Layouts = sort_key l_TabID (canonicalLayouts (s_Layouts s))\<rparr>"

definition hashTopology :: "(hashProjection \<Rightarrow> string option) \<Rightarrow> Topology \<Rightarrow> string" where
  "hashTopology digest s = (case digest (project s) of None \<Rightarrow> ''hash-error'' | Some h \<Rightarrow> h)"

section \<open>Sorting by distinct keys forgets the order\<close>

lemma sort_key_perm:
  assumes "mset xs = mset ys" "distinct (map f xs)"
  shows "sort_key f xs = sort_key f ys"
proof (rule properties_for_sort_key)
  show "mset (sort_key f ys) = mset xs" using assms(1) by simp
  show "sorted (map f (sort_key f ys))" by simp
  have d: "distinct (map f ys)"
    using assms by (metis mset_map mset_eq_imp_distinct_iff)
  have inj: "inj_on f (set xs)" "distinct xs" using assms(2) by (auto simp: distinct_map)
  have one: "filter (\<lambda>x. f k = f x) zs = [k]" if "k \<in> set zs" "inj_on f (set zs)" "distinct zs" for k zs
    using that
  proof (induction zs)
    case (Cons z zs)
    show ?case
    proof (cases "z = k")
      case True
      then have "filter (\<lambda>x. f k = f x) zs = []" using Cons.prems by (auto simp: filter_empty_conv inj_on_def)
      then show ?thesis using True by simp
    next
      case False
      then have "f k \<noteq> f z" using Cons.prems by (auto simp: inj_on_def)
      then show ?thesis using Cons False by (auto simp: inj_on_def)
    qed
  qed simp
  fix k assume "k \<in> set (sort_key f ys)"
  then have k: "k \<in> set ys" "k \<in> set xs" using assms(1) by (auto dest: mset_eq_setD)
  have "filter (\<lambda>x. f k = f x) (sort_key f ys) = [k]"
    using d k(1) by (intro one) (auto simp: distinct_map)
  then show "filter (\<lambda>x. f k = f x) (sort_key f ys) = filter (\<lambda>x. f k = f x) xs"
    using one [OF k(2) inj] by simp
qed

lemma sort_key_map_perm:
  assumes "mset xs = mset ys" "distinct (map (g \<circ> h) xs)"
  shows "sort_key g (map h xs) = sort_key g (map h ys)"
  using assms by (intro sort_key_perm) simp_all


section \<open>The hash does not depend on the order of the wire arrays\<close>

definition distinct_ids :: "Topology \<Rightarrow> bool" where
  "distinct_ids s \<longleftrightarrow>
     distinct (map w_WorkspaceID (s_Workspaces s)) \<and> distinct (map t_TabID (s_Tabs s)) \<and>
     distinct (map p_PaneID (s_Panes s)) \<and> distinct (map (\<lambda>a. (a_PaneID a, a_Agent a)) (s_Agents s)) \<and>
     distinct (map l_TabID (s_Layouts s)) \<and>
     list_all (\<lambda>l. distinct (map lp_PaneID (l_Panes l)) \<and> distinct (map ls_ID (l_Splits l))) (s_Layouts s)"

definition layout_reordered :: "Layout \<Rightarrow> Layout \<Rightarrow> bool" where
  "layout_reordered l m \<longleftrightarrow> mset (l_Panes l) = mset (l_Panes m) \<and> mset (l_Splits l) = mset (l_Splits m) \<and>
     l\<lparr>l_Panes := [], l_Splits := []\<rparr> = m\<lparr>l_Panes := [], l_Splits := []\<rparr>"

definition reordered :: "Topology \<Rightarrow> Topology \<Rightarrow> bool" where
  "reordered s t \<longleftrightarrow>
     s_FocusedWorkspaceID s = s_FocusedWorkspaceID t \<and> s_FocusedTabID s = s_FocusedTabID t \<and>
     s_FocusedPaneID s = s_FocusedPaneID t \<and>
     mset (s_Workspaces s) = mset (s_Workspaces t) \<and> mset (s_Tabs s) = mset (s_Tabs t) \<and>
     mset (s_Panes s) = mset (s_Panes t) \<and> mset (s_Agents s) = mset (s_Agents t) \<and>
     (\<exists>ls. mset ls = mset (s_Layouts t) \<and> list_all2 layout_reordered (s_Layouts s) ls)"

lemma canonicalLayout_reordered:
  assumes "layout_reordered l m" "distinct (map lp_PaneID (l_Panes l))" "distinct (map ls_ID (l_Splits l))"
  shows "canonicalLayout l = canonicalLayout m"
proof -
  have "sort_key lp_PaneID (l_Panes l) = sort_key lp_PaneID (l_Panes m)"
    "sort_key ls_ID (l_Splits l) = sort_key ls_ID (l_Splits m)"
    using assms by (auto simp: layout_reordered_def intro: sort_key_perm)
  moreover have "l\<lparr>l_Panes := x, l_Splits := y\<rparr> = m\<lparr>l_Panes := x, l_Splits := y\<rparr>" for x y
    using assms(1) by (cases l; cases m) (simp add: layout_reordered_def)
  ultimately show ?thesis by (simp add: canonicalLayout_def)
qed

lemma canonicalLayouts_reordered:
  assumes "list_all2 layout_reordered ls ms"
    "list_all (\<lambda>l. distinct (map lp_PaneID (l_Panes l)) \<and> distinct (map ls_ID (l_Splits l))) ls"
  shows "canonicalLayouts ls = canonicalLayouts ms"
  using assms by (induction rule: list_all2_induct) (auto simp: canonicalLayouts_def canonicalLayout_reordered)

lemma canonicalLayout_TabID [simp]: "l_TabID (canonicalLayout l) = l_TabID l"
  by (simp add: canonicalLayout_def)

lemma project_layouts_reordered:
  assumes "mset ls = mset ms" "list_all2 layout_reordered ks ls" "distinct (map l_TabID ks)"
    "list_all (\<lambda>l. distinct (map lp_PaneID (l_Panes l)) \<and> distinct (map ls_ID (l_Splits l))) ks"
  shows "sort_key l_TabID (canonicalLayouts ks) = sort_key l_TabID (canonicalLayouts ms)"
proof -
  have "canonicalLayouts ks = canonicalLayouts ls" by (rule canonicalLayouts_reordered [OF assms(2,4)])
  moreover have "distinct (map l_TabID (canonicalLayouts ks))"
    using assms(3) by (simp add: canonicalLayouts_def comp_def)
  moreover have "mset (canonicalLayouts ls) = mset (canonicalLayouts ms)"
    using assms(1) by (simp add: canonicalLayouts_def)
  ultimately show ?thesis by (metis sort_key_perm)
qed

text \<open>
  The content hash is canonical. Two topologies that hold the same workspaces, tabs, panes,
  agents and layouts, listed in any order (also inside a layout), project to the same hashed
  content, so an enumeration order that changes between polls never forces a rebroadcast.
\<close>

theorem project_reordered:
  assumes "distinct_ids s" "reordered s t"
  shows "project s = project t"
proof -
  obtain ls where ls: "mset ls = mset (s_Layouts t)" "list_all2 layout_reordered (s_Layouts s) ls"
    using assms(2) by (auto simp: reordered_def)
  have w: "sort_key pw_ID (map project_ws (s_Workspaces s)) = sort_key pw_ID (map project_ws (s_Workspaces t))"
    using assms by (intro sort_key_map_perm) (auto simp: reordered_def distinct_ids_def comp_def project_ws_def)
  have t: "sort_key pt_ID (map project_tab (s_Tabs s)) = sort_key pt_ID (map project_tab (s_Tabs t))"
    using assms by (intro sort_key_map_perm) (auto simp: reordered_def distinct_ids_def comp_def project_tab_def)
  have p: "sort_key pp_ID (map project_pane (s_Panes s)) = sort_key pp_ID (map project_pane (s_Panes t))"
    using assms by (intro sort_key_map_perm) (auto simp: reordered_def distinct_ids_def comp_def project_pane_def)
  have a: "sort_key (\<lambda>a. (pa_Pane a, pa_Agent a)) (map project_agent (s_Agents s)) =
      sort_key (\<lambda>a. (pa_Pane a, pa_Agent a)) (map project_agent (s_Agents t))"
    using assms by (intro sort_key_map_perm) (auto simp: reordered_def distinct_ids_def comp_def project_agent_def)
  have l: "sort_key l_TabID (canonicalLayouts (s_Layouts s)) = sort_key l_TabID (canonicalLayouts (s_Layouts t))"
    using project_layouts_reordered [OF ls] assms(1) by (simp add: distinct_ids_def)
  show ?thesis using assms(2) w t p a l by (simp add: project_def reordered_def)
qed

definition example_tab :: "string \<Rightarrow> Tab" where
  "example_tab i = \<lparr>t_TabID = i, t_WorkspaceID = ''w'', t_Number = 1, t_Label = [], t_Focused = False,
     t_PaneCount = 1, t_AgentStatus = StatusIdle\<rparr>"

definition example_topology :: "Tab list \<Rightarrow> Pane list \<Rightarrow> Topology" where
  "example_topology ts ps = \<lparr>s_Version = ''1'', s_Protocol = 17, s_FocusedWorkspaceID = [],
     s_FocusedTabID = [], s_FocusedPaneID = [], s_Workspaces = [], s_Tabs = ts, s_Panes = ps,
     s_Layouts = [], s_Agents = []\<rparr>"

theorem project_reordered_witness:
  "project (example_topology [example_tab ''a'', example_tab ''b''] []) =
   project (example_topology [example_tab ''b'', example_tab ''a''] [])"
  by (rule project_reordered)
    (simp_all add: distinct_ids_def reordered_def example_topology_def example_tab_def)

section \<open>The projection determines the occupants\<close>

definition pane_occupants :: "Pane list \<Rightarrow> (string \<rightharpoonup> string)" where
  "pane_occupants ps = map_of (map (\<lambda>p. (p_PaneID p, OccupantFingerprint p)) ps)"

lemma pane_occupants_dom: "dom (pane_occupants ps) = p_PaneID ` set ps"
  by (auto simp: pane_occupants_def dom_map_of_conv_image_fst image_image)

lemma pane_occupants_Some:
  "distinct (map p_PaneID ps) \<Longrightarrow> p \<in> set ps \<Longrightarrow> pane_occupants ps (p_PaneID p) = Some (OccupantFingerprint p)"
  unfolding pane_occupants_def by (rule map_of_is_SomeI) (auto simp: comp_def)

lemma project_occupants:
  assumes "project s = project t" "distinct (map p_PaneID (s_Panes s))" "distinct (map p_PaneID (s_Panes t))"
  shows "pane_occupants (s_Panes s) = pane_occupants (s_Panes t)"
proof -
  let ?pairs = "\<lambda>ps. map (\<lambda>p. (p_PaneID p, OccupantFingerprint p)) ps"
  have "mset (sort_key pp_ID (map project_pane (s_Panes s))) = mset (sort_key pp_ID (map project_pane (s_Panes t)))"
    using assms(1) by (simp add: project_def)
  then have "image_mset (\<lambda>q. (pp_ID q, pp_Occupant q)) (mset (map project_pane (s_Panes s))) =
      image_mset (\<lambda>q. (pp_ID q, pp_Occupant q)) (mset (map project_pane (s_Panes t)))" by simp
  then have m: "mset (?pairs (s_Panes s)) = mset (?pairs (s_Panes t))"
    by (simp add: project_pane_def image_mset.compositionality comp_def)
  then have "set (?pairs (s_Panes s)) = set (?pairs (s_Panes t))" by (rule mset_eq_setD)
  moreover have "distinct (map fst (?pairs (s_Panes s)))" "distinct (map fst (?pairs (s_Panes t)))"
    using assms(2,3) by (simp_all add: comp_def)
  ultimately show ?thesis unfolding pane_occupants_def by (metis map_of_inject_set)
qed

end
