(* ===== verification/StateSubscriber.thy ===== *)
theory StateSubscriber
  imports StateSnapshot
begin

text \<open>
  The per-client outbound queue (internal/state/subscriber.go). The two channels are booleans:
  \<open>notify\<close> is the token of a channel of capacity one, \<open>done\<close> says whether the channel was closed.
  The queue refines a cell that holds at most the newest undelivered snapshot.
\<close>

section \<open>internal/state/subscriber.go\<close>

record Subscription =
  sub_maxItems :: int
  sub_maxBytes :: int
  sub_pending :: "Snapshot list"
  sub_bytes :: int
  sub_closed :: bool
  sub_overflow :: bool
  sub_notify :: bool
  sub_done :: bool

definition newSubscription :: "int \<Rightarrow> int \<Rightarrow> Subscription" where
  "newSubscription mxItems mxBytes = \<lparr>sub_maxItems = mxItems, sub_maxBytes = mxBytes, sub_pending = [],
     sub_bytes = 0, sub_closed = False, sub_overflow = False, sub_notify = False, sub_done = False\<rparr>"

definition closeLocked :: "Subscription \<Rightarrow> Subscription" where
  "closeLocked s =
     (if sub_closed s then s
      else s\<lparr>sub_closed := True, sub_pending := [], sub_bytes := 0, sub_done := True\<rparr>)"

definition Close :: "Subscription \<Rightarrow> Subscription" where
  "Close s = closeLocked s"

definition signal :: "Subscription \<Rightarrow> Subscription" where
  "signal s = s\<lparr>sub_notify := True\<rparr>"

definition enqueue :: "Subscription \<Rightarrow> Snapshot \<Rightarrow> Subscription \<times> bool" where
  "enqueue s snap =
     (if sub_closed s then (s, False)
      else
        let pend = sub_pending s @ [snap];
            pend = (if length pend > 1 then drop (length pend - 1) pend else pend);
            s = s\<lparr>sub_pending := pend, sub_bytes := snap_bytes snap\<rparr>
        in if sub_bytes s > sub_maxBytes s \<or> int (length pend) > sub_maxItems s
           then (closeLocked (s\<lparr>sub_overflow := True\<rparr>), False)
           else (signal s, True))"

definition Drain :: "Subscription \<Rightarrow> Subscription \<times> Snapshot list" where
  "Drain s =
     (if sub_pending s = [] then (s, [])
      else (s\<lparr>sub_pending := [], sub_bytes := 0\<rparr>, sub_pending s))"

definition Latest :: "Subscription \<Rightarrow> Snapshot option" where
  "Latest s = (if sub_pending s = [] then None else Some (last (sub_pending s)))"

definition Overflow :: "Subscription \<Rightarrow> bool" where
  "Overflow s = sub_overflow s"

text \<open>A client's receive on the notification channel: the token, if there is one, is taken.\<close>

definition take_notify :: "Subscription \<Rightarrow> Subscription \<times> bool" where
  "take_notify s = (s\<lparr>sub_notify := False\<rparr>, sub_notify s)"

section \<open>Invariant\<close>

definition sub_inv :: "Subscription \<Rightarrow> bool" where
  "sub_inv s \<longleftrightarrow> length (sub_pending s) \<le> 1 \<and> sub_done s = sub_closed s \<and>
     (sub_closed s \<longrightarrow> sub_pending s = []) \<and> (sub_overflow s \<longrightarrow> sub_closed s) \<and>
     sub_bytes s = (if sub_pending s = [] then 0 else snap_bytes (last (sub_pending s))) \<and>
     (sub_pending s \<noteq> [] \<longrightarrow> sub_bytes s \<le> sub_maxBytes s)"

lemma closeLocked_simps [simp]:
  "sub_closed (closeLocked s)" "sub_maxItems (closeLocked s) = sub_maxItems s"
  "sub_maxBytes (closeLocked s) = sub_maxBytes s"
  by (simp_all add: closeLocked_def)

lemma sub_inv_new [simp]: "sub_inv (newSubscription i b)"
  by (simp add: sub_inv_def newSubscription_def)

lemma sub_inv_Close [simp]: "sub_inv s \<Longrightarrow> sub_inv (Close s)"
  by (simp add: sub_inv_def Close_def closeLocked_def)

lemma sub_inv_Drain [simp]: "sub_inv s \<Longrightarrow> sub_inv (fst (Drain s))"
  by (auto simp: sub_inv_def Drain_def)

lemma sub_inv_take_notify [simp]: "sub_inv s \<Longrightarrow> sub_inv (fst (take_notify s))"
  by (auto simp: sub_inv_def take_notify_def)

lemma coalesced: "(if length (xs @ [x]) > 1 then drop (length (xs @ [x]) - 1) (xs @ [x]) else xs @ [x]) = [x]"
  by (cases xs) simp_all

lemma enqueue_eq:
  "enqueue s snap =
     (if sub_closed s then (s, False)
      else if snap_bytes snap > sub_maxBytes s \<or> 1 > sub_maxItems s
      then (closeLocked (s\<lparr>sub_pending := [snap], sub_bytes := snap_bytes snap, sub_overflow := True\<rparr>), False)
      else (signal (s\<lparr>sub_pending := [snap], sub_bytes := snap_bytes snap\<rparr>), True))"
  unfolding enqueue_def Let_def coalesced by simp

lemma sub_inv_enqueue [simp]: "sub_inv s \<Longrightarrow> sub_inv (fst (enqueue s snap))"
  by (auto simp: sub_inv_def enqueue_eq closeLocked_def signal_def)

lemma enqueue_closed: "sub_closed s \<Longrightarrow> enqueue s snap = (s, False)"
  by (simp add: enqueue_eq)

lemma enqueue_open_iff: "snd (enqueue s snap) \<longleftrightarrow> \<not> sub_closed (fst (enqueue s snap))"
  by (simp add: enqueue_eq signal_def)

section \<open>The abstract cell\<close>

text \<open>
  What the engine relies on: a channel to one client whose state abstracts to the newest
  undelivered value, or to nothing once it is closed.
\<close>

locale latest_cell =
  fixes put :: "'q \<Rightarrow> 'v \<Rightarrow> 'q \<times> bool"
    and get :: "'q \<Rightarrow> 'q \<times> 'v list"
    and view :: "'q \<Rightarrow> 'v option"
    and live :: "'q \<Rightarrow> bool"
    and inv :: "'q \<Rightarrow> bool"
  assumes put_inv: "inv q \<Longrightarrow> inv (fst (put q v))"
    and get_inv: "inv q \<Longrightarrow> inv (fst (get q))"
    and put_ok: "inv q \<Longrightarrow> snd (put q v) \<Longrightarrow> view (fst (put q v)) = Some v \<and> live (fst (put q v))"
    and put_fail: "inv q \<Longrightarrow> \<not> snd (put q v) \<Longrightarrow> view (fst (put q v)) = None \<and> \<not> live (fst (put q v))"
    and get_view: "inv q \<Longrightarrow> snd (get q) = (case view q of None \<Rightarrow> [] | Some v \<Rightarrow> [v]) \<and> view (fst (get q)) = None"
    and dead_put: "inv q \<Longrightarrow> \<not> live q \<Longrightarrow> \<not> snd (put q v)"
begin

definition put_all :: "'q \<Rightarrow> 'v list \<Rightarrow> 'q" where
  "put_all q vs = foldl (\<lambda>q v. fst (put q v)) q vs"

lemma put_all_inv: "inv q \<Longrightarrow> inv (put_all q vs)"
  unfolding put_all_def by (induction vs arbitrary: q) (auto simp: put_inv)

lemma put_all_snoc: "put_all q (vs @ [v]) = fst (put (put_all q vs) v)"
  by (simp add: put_all_def)

lemma put_all_newest:
  assumes "inv q" "live (put_all q (vs @ [v]))"
  shows "snd (get (put_all q (vs @ [v]))) = [v]"
proof -
  have i: "inv (put_all q vs)" by (rule put_all_inv [OF assms(1)])
  then have "snd (put (put_all q vs) v)"
    using assms(2) put_fail by (auto simp: put_all_snoc)
  then have "view (put_all q (vs @ [v])) = Some v" using put_ok [OF i] by (simp add: put_all_snoc)
  then show ?thesis using get_view [OF put_all_inv [OF assms(1)]] by simp
qed

end

lemma Latest_enqueue:
  "sub_inv s \<Longrightarrow> Latest (fst (enqueue s v)) = (if snd (enqueue s v) then Some v else None)"
  by (auto simp: enqueue_eq Latest_def signal_def closeLocked_def sub_inv_def)

interpretation client_queue: latest_cell enqueue Drain Latest "\<lambda>s. \<not> sub_closed s" sub_inv
proof
  fix q v assume i: "sub_inv q"
  show "snd (Drain q) = (case Latest q of None \<Rightarrow> [] | Some v \<Rightarrow> [v]) \<and> Latest (fst (Drain q)) = None"
    using i by (cases "sub_pending q") (auto simp: Drain_def Latest_def sub_inv_def)
  show "snd (enqueue q v) \<Longrightarrow> Latest (fst (enqueue q v)) = Some v \<and> \<not> sub_closed (fst (enqueue q v))"
    using i by (simp add: Latest_enqueue enqueue_open_iff)
  show "\<not> snd (enqueue q v) \<Longrightarrow> Latest (fst (enqueue q v)) = None \<and> \<not> \<not> sub_closed (fst (enqueue q v))"
    using i by (simp add: Latest_enqueue enqueue_open_iff)
qed (simp_all add: enqueue_closed)

definition enqueue_all :: "Subscription \<Rightarrow> Snapshot list \<Rightarrow> Subscription" where
  "enqueue_all s vs = foldl (\<lambda>s v. fst (enqueue s v)) s vs"

lemma enqueue_all_put_all: "enqueue_all = client_queue.put_all"
  by (rule ext)+ (simp add: enqueue_all_def client_queue.put_all_def)

text \<open>
  A slow client sees exactly the newest snapshot. Whatever sequence of snapshots was broadcast
  to a queue since it was last drained, as long as the queue is still open the next drain returns
  one snapshot, the last one broadcast, and the depth of the queue never exceeds one.
\<close>

theorem drain_newest:
  assumes "sub_inv s" "\<not> sub_closed (enqueue_all s (vs @ [v]))"
  shows "snd (Drain (enqueue_all s (vs @ [v]))) = [v] \<and> length (sub_pending (enqueue_all s (vs @ [v]))) \<le> 1"
proof
  show "snd (Drain (enqueue_all s (vs @ [v]))) = [v]"
    using client_queue.put_all_newest [of s vs v] assms by (simp add: enqueue_all_put_all)
  have "sub_inv (enqueue_all s (vs @ [v]))"
    using client_queue.put_all_inv [OF assms(1)] by (simp add: enqueue_all_put_all)
  then show "length (sub_pending (enqueue_all s (vs @ [v]))) \<le> 1" by (simp add: sub_inv_def)
qed

definition example_snapshot :: "int \<Rightarrow> Snapshot" where
  "example_snapshot n = \<lparr>Seq = of_int n, Hash = [], Topo = None, Generations = Map.empty, snap_bytes = n\<rparr>"

theorem drain_newest_witness:
  "snd (Drain (enqueue_all (newSubscription 8 100) ([example_snapshot 1] @ [example_snapshot 2]))) = [example_snapshot 2]"
  using drain_newest [of "newSubscription 8 100" "[example_snapshot 1]" "example_snapshot 2"]
  by (simp add: enqueue_all_def enqueue_eq signal_def newSubscription_def example_snapshot_def sub_inv_def)

text \<open>
  A queue whose budget cannot hold a snapshot is dropped, not served late: \<open>enqueue\<close> fails
  exactly when the queue was already closed, the snapshot is larger than the byte budget, or the
  item bound is below one; it then ends closed, empty and with its \<open>done\<close> channel closed, and the
  overflow flag is set in the latter two cases.
\<close>

theorem enqueue_overflow:
  assumes "sub_inv s"
  shows "(\<not> snd (enqueue s v) \<longleftrightarrow> sub_closed s \<or> snap_bytes v > sub_maxBytes s \<or> sub_maxItems s < 1) \<and>
    (\<not> snd (enqueue s v) \<longrightarrow> sub_closed (fst (enqueue s v)) \<and> sub_pending (fst (enqueue s v)) = [] \<and>
       sub_done (fst (enqueue s v)) \<and> (sub_closed s \<or> Overflow (fst (enqueue s v))))"
  using assms by (auto simp: enqueue_eq closeLocked_def sub_inv_def Overflow_def)

theorem enqueue_overflow_witness:
  "\<not> snd (enqueue (newSubscription 8 1) (example_snapshot 2)) \<and> Overflow (fst (enqueue (newSubscription 8 1) (example_snapshot 2)))"
  using enqueue_overflow [of "newSubscription 8 1" "example_snapshot 2"]
  by (simp add: newSubscription_def example_snapshot_def sub_inv_def)

end
