(* ===== verification/StateEngine.thy ===== *)
theory StateEngine
  imports StateSubscriber
begin

text \<open>
  The poll-as-truth engine (internal/state/engine.go). The engine's record holds the fields of
  \<open>Engine\<close>; the subscriptions it hands out live in a store \<open>sub_store\<close> addressed by number, because
  a client keeps its pointer after the engine has dropped the queue, and \<open>subs\<close> lists the
  registered ones. The clock reading, the digest of a projection and the encoded size of a
  snapshot are arguments. A poll error is a string.
\<close>

section \<open>internal/state/engine.go\<close>

definition DefaultPollHot :: duration where "DefaultPollHot = 1500 * 1000000"
definition DefaultPollCold :: duration where "DefaultPollCold = 12 * 1000000000"
definition MinPollHot :: duration where "MinPollHot = 250 * 1000000"
definition DefaultMaxQueueItems :: int where "DefaultMaxQueueItems = 8"
definition DefaultMaxQueueBytes :: int where "DefaultMaxQueueBytes = 4 * 1048576"

lemmas engine_consts = DefaultPollHot_def DefaultPollCold_def MinPollHot_def DefaultMaxQueueItems_def
  DefaultMaxQueueBytes_def

record EngineConfig =
  cfg_hasSource :: bool
  cfg_PollHot :: duration
  cfg_PollCold :: duration
  cfg_MaxQueueItems :: int
  cfg_MaxQueueBytes :: int

record Engine =
  pollHot :: duration
  pollCold :: duration
  maxItems :: int
  maxBytes :: int
  wake :: bool
  current :: "Snapshot option"
  generations :: "string \<rightharpoonup> 64 word"
  occupants :: "string \<rightharpoonup> string"
  eseq :: "64 word"
  subs :: "nat list"
  sub_store :: "nat \<Rightarrow> Subscription option"
  next_sub :: nat
  lastPollErr :: "string option"
  lastPollAt :: gotime
  polls :: "64 word"

definition NewEngine :: "EngineConfig \<Rightarrow> string + Engine" where
  "NewEngine cfg =
     (if \<not> cfg_hasSource cfg then Inl ''state: Source is required''
      else
        let hot = cfg_PollHot cfg;
            hot = (if hot \<le> 0 then DefaultPollHot else hot);
            hot = (if hot < MinPollHot then MinPollHot else hot);
            cold = cfg_PollCold cfg;
            cold = (if cold \<le> 0 then DefaultPollCold else cold);
            cold = (if cold < hot then hot else cold);
            items = (if cfg_MaxQueueItems cfg \<le> 0 then DefaultMaxQueueItems else cfg_MaxQueueItems cfg);
            bytes = (if cfg_MaxQueueBytes cfg \<le> 0 then DefaultMaxQueueBytes else cfg_MaxQueueBytes cfg)
        in Inr \<lparr>pollHot = hot, pollCold = cold, maxItems = items, maxBytes = bytes, wake = False,
             current = None, generations = Map.empty, occupants = Map.empty, eseq = 0, subs = [],
             sub_store = Map.empty, next_sub = 0, lastPollErr = None, lastPollAt = 0, polls = 0\<rparr>)"

definition Wake :: "Engine \<Rightarrow> Engine" where
  "Wake e = e\<lparr>wake := True\<rparr>"

definition active :: "Engine \<Rightarrow> bool" where
  "active e =
     (if length (subs e) > 0 then True
      else case current e of
        None \<Rightarrow> False
      | Some snap \<Rightarrow>
          (case Topo snap of
             None \<Rightarrow> False
           | Some topo \<Rightarrow>
               list_ex (\<lambda>w. Active (w_AgentStatus w)) (s_Workspaces topo) \<or>
               list_ex (\<lambda>a. Active (a_AgentStatus a)) (s_Agents topo) \<or>
               list_ex (\<lambda>p. Active (p_AgentStatus p)) (s_Panes topo)))"

definition desiredInterval :: "Engine \<Rightarrow> duration" where
  "desiredInterval e = (if active e then pollHot e else pollCold e)"

text \<open>One iteration of the loop over the panes: a missing occupant entry reads as the empty string.\<close>

definition update_pane :: "Engine \<Rightarrow> Pane \<Rightarrow> Engine" where
  "update_pane e p =
     (let fp = OccupantFingerprint p; i = p_PaneID p in
      case generations e i of
        None \<Rightarrow> e\<lparr>generations := (generations e)(i \<mapsto> 1), occupants := (occupants e)(i \<mapsto> fp)\<rparr>
      | Some g \<Rightarrow>
          if (case occupants e i of None \<Rightarrow> [] | Some o' \<Rightarrow> o') \<noteq> fp
          then e\<lparr>generations := (generations e)(i \<mapsto> g + 1), occupants := (occupants e)(i \<mapsto> fp)\<rparr>
          else e)"

definition updateGenerationsLocked :: "Engine \<Rightarrow> Topology \<Rightarrow> Engine" where
  "updateGenerationsLocked e topo =
     (let present = p_PaneID ` set (s_Panes topo);
          e = foldl update_pane e (s_Panes topo)
      in e\<lparr>generations := (\<lambda>i. if i \<in> present then generations e i else None),
           occupants := (\<lambda>i. if i \<in> present \<or> generations e i = None then occupants e i else None)\<rparr>)"

text \<open>
  Ranging over the registered queues; a queue that refuses the snapshot is removed from the set.
\<close>

fun broadcast_to :: "Snapshot \<Rightarrow> nat list \<Rightarrow> (nat \<Rightarrow> Subscription option) \<Rightarrow> nat list \<times> (nat \<Rightarrow> Subscription option)" where
  "broadcast_to snap [] st = ([], st)"
| "broadcast_to snap (i # is) st =
     (case st i of
        None \<Rightarrow> broadcast_to snap is st
      | Some q \<Rightarrow>
          let (q', ok) = enqueue q snap; (keep, st') = broadcast_to snap is (st(i \<mapsto> q'))
          in (if ok then i # keep else keep, st'))"

definition broadcastLocked :: "Engine \<Rightarrow> Snapshot \<Rightarrow> Engine" where
  "broadcastLocked e snap =
     (let (keep, st) = broadcast_to snap (subs e) (sub_store e)
      in e\<lparr>subs := keep, sub_store := st\<rparr>)"

definition MaxInt :: int where
  "MaxInt = 2 ^ 63 - 1"

record pollOutcome =
  out_snap :: "Topology option"
  out_err :: "string option"

definition publish ::
  "(Snapshot \<Rightarrow> int option) \<Rightarrow> Engine \<Rightarrow> Topology \<Rightarrow> string \<Rightarrow> Engine" where
  "publish encoded_size e topo h =
     (let e = e\<lparr>eseq := eseq e + 1\<rparr>;
          snap = \<lparr>Seq = eseq e, Hash = h, Topo = Some topo, Generations = generations e, snap_bytes = 0\<rparr>;
          snap = snap\<lparr>snap_bytes := (case encoded_size snap of Some n \<Rightarrow> n | None \<Rightarrow> MaxInt)\<rparr>
      in broadcastLocked (e\<lparr>current := Some snap\<rparr>) snap)"

definition apply_outcome ::
  "(hashProjection \<Rightarrow> string option) \<Rightarrow> (Snapshot \<Rightarrow> int option) \<Rightarrow> gotime \<Rightarrow> pollOutcome \<Rightarrow> Engine \<Rightarrow> Engine" where
  "apply_outcome digest encoded_size now out e =
     (let e = e\<lparr>polls := polls e + 1, lastPollAt := now\<rparr> in
      case out_err out of
        Some err \<Rightarrow> e\<lparr>lastPollErr := Some err\<rparr>
      | None \<Rightarrow>
          let e = e\<lparr>lastPollErr := None\<rparr> in
          case out_snap out of
            None \<Rightarrow> e
          | Some topo \<Rightarrow>
              let e = updateGenerationsLocked e topo; h = hashTopology digest topo in
              (case current e of
                 Some c \<Rightarrow> if Hash c = h then e else publish encoded_size e topo h
               | None \<Rightarrow> publish encoded_size e topo h))"

definition Current :: "Engine \<Rightarrow> Snapshot option" where
  "Current e = current e"

definition Generation :: "Engine \<Rightarrow> string \<Rightarrow> 64 word option" where
  "Generation e paneID = generations e paneID"

definition CheckGeneration :: "Engine \<Rightarrow> string \<Rightarrow> 64 word \<Rightarrow> bool" where
  "CheckGeneration e paneID expected =
     (case Generation e paneID of None \<Rightarrow> False | Some g \<Rightarrow> g = expected)"

definition Subscribe :: "Engine \<Rightarrow> Engine \<times> nat" where
  "Subscribe e =
     (let i = next_sub e; q = newSubscription (maxItems e) (maxBytes e) in
      case current e of
        None \<Rightarrow> (e\<lparr>next_sub := Suc i, sub_store := (sub_store e)(i \<mapsto> q), subs := i # subs e\<rparr>, i)
      | Some snap \<Rightarrow>
          let (q', ok) = enqueue q snap;
              e = e\<lparr>next_sub := Suc i, sub_store := (sub_store e)(i \<mapsto> q')\<rparr>
          in if ok then (e\<lparr>subs := i # subs e\<rparr>, i) else (e, i))"

definition Unsubscribe :: "Engine \<Rightarrow> nat \<Rightarrow> Engine" where
  "Unsubscribe e i =
     e\<lparr>subs := removeAll i (subs e),
       sub_store := (case sub_store e i of None \<Rightarrow> sub_store e | Some q \<Rightarrow> (sub_store e)(i \<mapsto> Close q))\<rparr>"

record Stats =
  st_Seq :: "64 word"
  st_Polls :: "64 word"
  st_Subscribers :: nat
  st_LastPollErr :: "string option"
  st_LastPollAt :: gotime

definition EngineStats :: "Engine \<Rightarrow> Stats" where
  "EngineStats e = \<lparr>st_Seq = eseq e, st_Polls = polls e, st_Subscribers = length (subs e),
     st_LastPollErr = lastPollErr e, st_LastPollAt = lastPollAt e\<rparr>"

section \<open>Lifecycle generations\<close>

definition next_generation :: "64 word option \<Rightarrow> string option \<Rightarrow> string \<Rightarrow> 64 word" where
  "next_generation old occ fp =
     (case old of None \<Rightarrow> 1
      | Some g \<Rightarrow> if (case occ of None \<Rightarrow> [] | Some o' \<Rightarrow> o') \<noteq> fp then g + 1 else g)"

lemma update_pane_generations:
  "generations (update_pane e p) i =
     (if i = p_PaneID p then Some (next_generation (generations e i) (occupants e i) (OccupantFingerprint p))
      else generations e i)"
  by (auto simp: update_pane_def next_generation_def Let_def split: option.splits)

lemma update_pane_occupants:
  "occupants (update_pane e p) i =
     (if i = p_PaneID p \<and> (generations e i = None \<or> occupants e i \<noteq> None \<or> OccupantFingerprint p \<noteq> [])
      then Some (OccupantFingerprint p) else occupants e i)"
  by (auto simp: update_pane_def Let_def split: option.splits)

lemma fingerprint_nonempty [simp]: "OccupantFingerprint p \<noteq> []"
  by (simp add: OccupantFingerprint_def NUL_def Let_def split: option.splits)

lemma foldl_update_other:
  "i \<notin> p_PaneID ` set ps \<Longrightarrow>
     generations (foldl update_pane e ps) i = generations e i \<and> occupants (foldl update_pane e ps) i = occupants e i"
  by (induction ps arbitrary: e) (auto simp: update_pane_generations update_pane_occupants)

lemma foldl_update_pane:
  assumes "distinct (map p_PaneID ps)" "p \<in> set ps"
  shows "generations (foldl update_pane e ps) (p_PaneID p) =
      Some (next_generation (generations e (p_PaneID p)) (occupants e (p_PaneID p)) (OccupantFingerprint p)) \<and>
    occupants (foldl update_pane e ps) (p_PaneID p) = Some (OccupantFingerprint p)"
  using assms
proof (induction ps arbitrary: e)
  case (Cons q ps)
  show ?case
  proof (cases "p = q")
    case True
    then have "p_PaneID p \<notin> p_PaneID ` set ps" using Cons.prems(1) by auto
    then show ?thesis using True
      by (simp add: foldl_update_other update_pane_generations update_pane_occupants)
  next
    case False
    then have "p \<in> set ps" using Cons.prems by auto
    moreover from this have "p_PaneID p \<noteq> p_PaneID q" using Cons.prems(1) by (metis distinct.simps(2) image_eqI list.set_map list.simps(9))
    ultimately show ?thesis using Cons by (simp add: update_pane_generations update_pane_occupants)
  qed
qed simp

lemma updateGenerations_eq:
  assumes "distinct (map p_PaneID (s_Panes topo))"
  shows "generations (updateGenerationsLocked e topo) i =
      map_option (next_generation (generations e i) (occupants e i)) (pane_occupants (s_Panes topo) i)"
proof (cases "i \<in> p_PaneID ` set (s_Panes topo)")
  case True
  then obtain p where "p \<in> set (s_Panes topo)" "i = p_PaneID p" by auto
  then show ?thesis using foldl_update_pane [OF assms, of p e] pane_occupants_Some [OF assms, of p] True
    by (simp add: updateGenerationsLocked_def Let_def)
next
  case False
  then have "pane_occupants (s_Panes topo) i = None" using pane_occupants_dom by blast
  then show ?thesis using False by (simp add: updateGenerationsLocked_def Let_def)
qed

lemma updateGenerations_occupants:
  assumes "distinct (map p_PaneID (s_Panes topo))" "dom (occupants e) = dom (generations e)"
  shows "occupants (updateGenerationsLocked e topo) = pane_occupants (s_Panes topo)"
proof
  fix i
  show "occupants (updateGenerationsLocked e topo) i = pane_occupants (s_Panes topo) i"
  proof (cases "i \<in> p_PaneID ` set (s_Panes topo)")
    case True
    then obtain p where "p \<in> set (s_Panes topo)" "i = p_PaneID p" by auto
    then show ?thesis using foldl_update_pane [OF assms(1), of p e] pane_occupants_Some [OF assms(1), of p] True
      by (simp add: updateGenerationsLocked_def Let_def)
  next
    case False
    have n: "generations e i = None \<Longrightarrow> occupants e i = None" using assms(2) by blast
    have "pane_occupants (s_Panes topo) i = None" using False pane_occupants_dom by blast
    then show ?thesis using False n by (simp add: updateGenerationsLocked_def Let_def foldl_update_other)
  qed
qed

lemma updateGenerations_dom:
  "distinct (map p_PaneID (s_Panes topo)) \<Longrightarrow>
     dom (generations (updateGenerationsLocked e topo)) = p_PaneID ` set (s_Panes topo)"
  by (auto simp: dom_def updateGenerations_eq) (use pane_occupants_dom in blast)+

text \<open>The update touches nothing else and reads nothing else.\<close>

lemma update_pane_frame:
  "update_pane (e\<lparr>polls := a, lastPollAt := b, lastPollErr := c\<rparr>) p =
     (update_pane e p)\<lparr>polls := a, lastPollAt := b, lastPollErr := c\<rparr>"
  by (simp add: update_pane_def Let_def split: option.split)

lemma updateGenerations_frame:
  "updateGenerationsLocked (e\<lparr>polls := a, lastPollAt := b, lastPollErr := c\<rparr>) t =
     (updateGenerationsLocked e t)\<lparr>polls := a, lastPollAt := b, lastPollErr := c\<rparr>"
proof -
  have "foldl update_pane (e\<lparr>polls := a, lastPollAt := b, lastPollErr := c\<rparr>) ps =
      (foldl update_pane e ps)\<lparr>polls := a, lastPollAt := b, lastPollErr := c\<rparr>" for ps
    by (induction ps arbitrary: e) (simp_all only: foldl.simps update_pane_frame)
  note fold = this
  show ?thesis by (simp add: updateGenerationsLocked_def Let_def fold) (intro Engine.equality; simp cong: if_cong)
qed

lemma update_pane_fields [simp]:
  "current (update_pane e p) = current e" "subs (update_pane e p) = subs e" "sub_store (update_pane e p) = sub_store e"
  "eseq (update_pane e p) = eseq e" "next_sub (update_pane e p) = next_sub e"
  "maxItems (update_pane e p) = maxItems e" "maxBytes (update_pane e p) = maxBytes e"
  by (simp_all add: update_pane_def Let_def split: option.split)

lemma updateGenerations_fields [simp]:
  "current (updateGenerationsLocked e t) = current e" "subs (updateGenerationsLocked e t) = subs e"
  "sub_store (updateGenerationsLocked e t) = sub_store e" "eseq (updateGenerationsLocked e t) = eseq e"
  "next_sub (updateGenerationsLocked e t) = next_sub e"
  "maxItems (updateGenerationsLocked e t) = maxItems e" "maxBytes (updateGenerationsLocked e t) = maxBytes e"
proof -
  have "current (foldl update_pane e ps) = current e \<and> subs (foldl update_pane e ps) = subs e \<and>
      sub_store (foldl update_pane e ps) = sub_store e \<and> eseq (foldl update_pane e ps) = eseq e \<and>
      next_sub (foldl update_pane e ps) = next_sub e \<and> maxItems (foldl update_pane e ps) = maxItems e \<and>
      maxBytes (foldl update_pane e ps) = maxBytes e" for ps
    by (induction ps arbitrary: e) simp_all
  then show
    "current (updateGenerationsLocked e t) = current e" "subs (updateGenerationsLocked e t) = subs e"
    "sub_store (updateGenerationsLocked e t) = sub_store e" "eseq (updateGenerationsLocked e t) = eseq e"
    "next_sub (updateGenerationsLocked e t) = next_sub e"
    "maxItems (updateGenerationsLocked e t) = maxItems e" "maxBytes (updateGenerationsLocked e t) = maxBytes e"
    by (simp_all add: updateGenerationsLocked_def Let_def)
qed

section \<open>Applying a poll\<close>

definition good_topology :: "pollOutcome \<Rightarrow> Topology option" where
  "good_topology out = (case out_err out of Some _ \<Rightarrow> None | None \<Rightarrow> out_snap out)"

lemma broadcastLocked_fields [simp]:
  "current (broadcastLocked e s) = current e" "generations (broadcastLocked e s) = generations e"
  "occupants (broadcastLocked e s) = occupants e" "eseq (broadcastLocked e s) = eseq e"
  "next_sub (broadcastLocked e s) = next_sub e"
  "maxItems (broadcastLocked e s) = maxItems e" "maxBytes (broadcastLocked e s) = maxBytes e"
  by (simp_all add: broadcastLocked_def Let_def split: prod.split)

lemma publish_fields [simp]:
  "generations (publish z e t h) = generations e" "occupants (publish z e t h) = occupants e"
  "eseq (publish z e t h) = eseq e + 1" "next_sub (publish z e t h) = next_sub e"
  by (simp_all add: publish_def Let_def)

lemma apply_generations:
  "generations (apply_outcome d z now out e) =
     (case good_topology out of None \<Rightarrow> generations e | Some t \<Rightarrow> generations (updateGenerationsLocked e t))"
  "occupants (apply_outcome d z now out e) =
     (case good_topology out of None \<Rightarrow> occupants e | Some t \<Rightarrow> occupants (updateGenerationsLocked e t))"
  by (simp_all add: apply_outcome_def good_topology_def Let_def updateGenerations_frame split: option.split)

section \<open>The generation guard over time\<close>

text \<open>A run of polls: each entry is the clock reading and the outcome of one poll.\<close>

definition run_polls ::
  "(hashProjection \<Rightarrow> string option) \<Rightarrow> (Snapshot \<Rightarrow> int option) \<Rightarrow> (gotime \<times> pollOutcome) list \<Rightarrow> Engine \<Rightarrow> Engine" where
  "run_polls d z outs e = foldl (\<lambda>e (now, out). apply_outcome d z now out e) e outs"

definition topologies :: "(gotime \<times> pollOutcome) list \<Rightarrow> Topology list" where
  "topologies outs = List.map_filter (\<lambda>(now, out). good_topology out) outs"

fun changes :: "'a \<Rightarrow> 'a list \<Rightarrow> nat" where
  "changes x [] = 0"
| "changes x (y # ys) = (if x = y then 0 else 1) + changes y ys"

lemma changes_le: "changes x ys \<le> length ys"
  by (induction x ys rule: changes.induct) auto

lemma changes_0: "changes x ys = 0 \<longleftrightarrow> (\<forall>y\<in>set ys. y = x)"
  by (induction x ys rule: changes.induct) auto

definition gens_inv :: "Engine \<Rightarrow> bool" where
  "gens_inv e \<longleftrightarrow> dom (occupants e) = dom (generations e)"

definition wf_panes :: "Topology \<Rightarrow> bool" where
  "wf_panes t \<longleftrightarrow> distinct (map p_PaneID (s_Panes t))"

lemma apply_gens_inv:
  assumes "gens_inv e" "\<And>t. good_topology out = Some t \<Longrightarrow> wf_panes t"
  shows "gens_inv (apply_outcome d z now out e)"
  using assms
  by (cases "good_topology out")
    (simp_all add: gens_inv_def wf_panes_def apply_generations updateGenerations_occupants updateGenerations_dom pane_occupants_dom)

lemma apply_no_topology:
  "good_topology out = None \<Longrightarrow> generations (apply_outcome d z now out e) = generations e \<and>
     occupants (apply_outcome d z now out e) = occupants e"
  by (simp add: apply_generations)

lemma apply_topology:
  assumes "gens_inv e" "good_topology out = Some t" "wf_panes t"
  shows "generations (apply_outcome d z now out e) i =
      map_option (next_generation (generations e i) (occupants e i)) (pane_occupants (s_Panes t) i)"
    "occupants (apply_outcome d z now out e) = pane_occupants (s_Panes t)"
  using assms by (simp_all add: apply_generations gens_inv_def wf_panes_def updateGenerations_eq updateGenerations_occupants)

lemma run_polls_generation:
  assumes "gens_inv e" "generations e i = Some g" "occupants e i = Some fp"
    "\<forall>t\<in>set (topologies outs). wf_panes t \<and> i \<in> p_PaneID ` set (s_Panes t)"
  shows "generations (run_polls d z outs e) i =
      Some (g + of_nat (changes fp (map (\<lambda>t. the (pane_occupants (s_Panes t) i)) (topologies outs))))"
  using assms
proof (induction outs arbitrary: e g fp)
  case (Cons x outs)
  obtain now out where x: "x = (now, out)" by force
  let ?e = "apply_outcome d z now out e"
  have rest: "run_polls d z (x # outs) e = run_polls d z outs ?e" by (simp add: run_polls_def x)
  show ?case
  proof (cases "good_topology out")
    case None
    then have "gens_inv ?e" using Cons.prems by (simp add: gens_inv_def apply_no_topology)
    with None show ?thesis using Cons x rest by (simp add: topologies_def apply_no_topology List.map_filter_def)
  next
    case (Some t)
    then have ts: "topologies (x # outs) = t # topologies outs" by (simp add: topologies_def x List.map_filter_def)
    then have t: "wf_panes t" "i \<in> p_PaneID ` set (s_Panes t)" using Cons.prems by auto
    then obtain fp' where fp': "pane_occupants (s_Panes t) i = Some fp'"
      using pane_occupants_dom [of "s_Panes t"] by auto
    note ap = apply_topology [OF Cons.prems(1) Some t(1), of d z now]
    have "gens_inv ?e" using Some t(1) by (intro apply_gens_inv [OF Cons.prems(1)]) simp
    moreover have "generations ?e i = Some (g + (if fp = fp' then 0 else 1))"
      using Cons.prems fp' by (simp add: ap next_generation_def)
    moreover have "occupants ?e i = Some fp'" using fp' by (simp add: ap)
    ultimately show ?thesis using Cons.IH [of ?e] Cons.prems(4) ts rest fp' by (simp add: add.assoc)
  qed
qed (simp add: run_polls_def topologies_def List.map_filter_def)



definition example_pane :: "string \<Rightarrow> string \<Rightarrow> Pane" where
  "example_pane i term = \<lparr>p_PaneID = i, p_TerminalID = term, p_WorkspaceID = ''w'', p_TabID = ''t'',
     p_Focused = False, p_CWD = [], p_ForegroundCWD = [], p_Agent = ''claude'', p_DisplayAgent = [],
     p_AgentSession = None, p_AgentStatus = StatusIdle, p_Label = [], p_Title = [], p_TerminalTitle = [],
     p_TerminalTitleStripped = [], p_Scroll = None, p_Revision = 0\<rparr>"

definition example_poll :: "Pane list \<Rightarrow> gotime \<times> pollOutcome" where
  "example_poll ps = (0, \<lparr>out_snap = Some (example_topology [] ps), out_err = None\<rparr>)"

definition example_engine :: Engine where
  "example_engine = (case NewEngine \<lparr>cfg_hasSource = True, cfg_PollHot = 0, cfg_PollCold = 0, cfg_MaxQueueItems = 0, cfg_MaxQueueBytes = 0\<rparr> of Inr e \<Rightarrow> e | Inl _ \<Rightarrow> undefined)"

lemma example_engine_simps [simp]:
  "generations example_engine = Map.empty" "occupants example_engine = Map.empty" "gens_inv example_engine"
  by (simp_all add: example_engine_def NewEngine_def Let_def gens_inv_def)

lemma example_poll_simps [simp]:
  "topologies [example_poll ps] = [example_topology [] ps]" "topologies [] = []"
  "topologies (example_poll ps # outs) = example_topology [] ps # topologies outs"
  "good_topology (snd (example_poll ps)) = Some (example_topology [] ps)"
  "s_Panes (example_topology [] ps) = ps"
  by (simp_all add: topologies_def example_poll_def good_topology_def List.map_filter_def example_topology_def)

lemma run_polls_Cons: "run_polls d z (x # outs) e = run_polls d z outs (run_polls d z [x] e)"
  by (simp add: run_polls_def)

lemma run_example_poll:
  assumes "gens_inv e" "distinct (map p_PaneID ps)"
  shows "generations (run_polls d z [example_poll ps] e) i =
      map_option (next_generation (generations e i) (occupants e i)) (pane_occupants ps i)"
    "occupants (run_polls d z [example_poll ps] e) = pane_occupants ps"
    "gens_inv (run_polls d z [example_poll ps] e)"
  using assms apply_topology [OF assms(1), of "snd (example_poll ps)" "example_topology [] ps" d z 0]
    apply_gens_inv [OF assms(1), of "snd (example_poll ps)" d z 0]
  by (simp_all add: run_polls_def wf_panes_def) (simp_all add: example_poll_def)

definition example_digest :: "hashProjection \<Rightarrow> string option" where
  "example_digest p = Some (concat (map pp_Occupant (h_Panes p)))"

definition example_size :: "Snapshot \<Rightarrow> int option" where
  "example_size s = Some 1"

definition example_polled :: Engine where
  "example_polled = run_polls example_digest example_size [example_poll [example_pane ''p'' ''x'']] example_engine"

lemma example_pane_simps [simp]:
  "p_PaneID (example_pane i x) = i"
  "OccupantFingerprint (example_pane i x) = OccupantFingerprint (example_pane j y) \<longleftrightarrow> x = y"
  by (simp_all add: example_pane_def OccupantFingerprint_def Let_def)

lemma pane_occupants_example [simp]:
  "pane_occupants [example_pane i x] = [i \<mapsto> OccupantFingerprint (example_pane i x)]"
  by (simp add: pane_occupants_def)

lemma example_polled_simps [simp]:
  "gens_inv example_polled" "generations example_polled ''p'' = Some 1"
  "occupants example_polled = [''p'' \<mapsto> OccupantFingerprint (example_pane ''p'' ''x'')]"
  by (simp_all add: example_polled_def run_example_poll next_generation_def)


text \<open>
  The guard does not survive recycling. A pane identifier that is missing from one successful
  poll and present in the next starts again at generation 1, whatever it was before, so the first
  generation of a pane is accepted again for its successor.
\<close>

theorem generation_restarts:
  assumes "gens_inv e" "good_topology gone = Some t" "wf_panes t" "i \<notin> p_PaneID ` set (s_Panes t)"
    "good_topology back = Some u" "wf_panes u" "i \<in> p_PaneID ` set (s_Panes u)"
  shows "\<not> CheckGeneration (run_polls d z [(a, gone)] e) i g \<and>
    CheckGeneration (run_polls d z [(a, gone), (b, back)] e) i 1"
proof -
  let ?e = "apply_outcome d z a gone e"
  have n: "pane_occupants (s_Panes t) i = None" using assms(4) pane_occupants_dom by blast
  have e: "gens_inv ?e" using assms by (intro apply_gens_inv) auto
  obtain fp where "pane_occupants (s_Panes u) i = Some fp"
    using assms(7) pane_occupants_dom [of "s_Panes u"] by auto
  then show ?thesis using n apply_topology(1) [OF assms(1,2,3), of d z a i] apply_topology(1) [OF e assms(5,6), of d z b i]
    by (simp add: run_polls_def CheckGeneration_def Generation_def next_generation_def)
qed


theorem generation_restarts_witness:
  "occupants (run_polls example_digest example_size [example_poll [], example_poll [example_pane ''p'' ''y'']] example_polled)
     \<noteq> occupants example_polled \<and> CheckGeneration example_polled ''p'' 1 \<and>
   CheckGeneration (run_polls example_digest example_size [example_poll [], example_poll [example_pane ''p'' ''y'']] example_polled) ''p'' 1"
proof -
  have g: "good_topology (snd (example_poll ps)) = Some (example_topology [] ps)" for ps by simp
  have "CheckGeneration (run_polls example_digest example_size [(0, snd (example_poll [])), (0, snd (example_poll [example_pane ''p'' ''y'']))]
      example_polled) ''p'' 1"
    by (rule generation_restarts [OF _ g _ _ g, THEN conjunct2]) (simp_all add: wf_panes_def)
  moreover have "(0, snd (example_poll ps)) = example_poll ps" for ps by (simp add: example_poll_def)
  ultimately show ?thesis
    by (simp add: run_polls_Cons [of _ _ "example_poll []" "[example_poll [example_pane ''p'' ''y'']]"] run_example_poll CheckGeneration_def Generation_def fun_eq_iff)
qed

end
