(* ===== verification/StateInvariant.thy ===== *)
theory StateInvariant
  imports StateEngine
begin

text \<open>
  The engine and its clients as a transition system: one step per critical section of
  internal/state/engine.go and internal/state/subscriber.go, the invariant every reachable engine
  satisfies, and what one poll publishes to whom.
\<close>

section \<open>Reachable engines\<close>

text \<open>
  The critical sections of the engine and of its clients, in any order. \<open>T\<close> is the set of
  topologies Herdr may report.
\<close>

inductive engine_step ::
  "(hashProjection \<Rightarrow> string option) \<Rightarrow> (Snapshot \<Rightarrow> int option) \<Rightarrow> Topology set \<Rightarrow> Engine \<Rightarrow> Engine \<Rightarrow> bool"
  for d z T where
  step_poll: "(\<forall>t. good_topology out = Some t \<longrightarrow> t \<in> T) \<Longrightarrow> engine_step d z T e (apply_outcome d z now out e)"
| step_wake: "engine_step d z T e (Wake e)"
| step_subscribe: "engine_step d z T e (fst (Subscribe e))"
| step_unsubscribe: "engine_step d z T e (Unsubscribe e i)"
| step_drain: "sub_store e i = Some q \<Longrightarrow> engine_step d z T e (e\<lparr>sub_store := (sub_store e)(i \<mapsto> fst (Drain q))\<rparr>)"
| step_notified: "sub_store e i = Some q \<Longrightarrow> engine_step d z T e (e\<lparr>sub_store := (sub_store e)(i \<mapsto> fst (take_notify q))\<rparr>)"
| step_close: "sub_store e i = Some q \<Longrightarrow> engine_step d z T e (e\<lparr>sub_store := (sub_store e)(i \<mapsto> Close q)\<rparr>)"

inductive engine_reachable ::
  "(hashProjection \<Rightarrow> string option) \<Rightarrow> (Snapshot \<Rightarrow> int option) \<Rightarrow> Topology set \<Rightarrow> Engine \<Rightarrow> bool"
  for d z T where
  reach_new: "NewEngine cfg = Inr e \<Longrightarrow> engine_reachable d z T e"
| reach_step: "engine_reachable d z T e \<Longrightarrow> engine_step d z T e e' \<Longrightarrow> engine_reachable d z T e'"

inductive_cases engine_stepE: "engine_step d z T e e'"

text \<open>What every client queue satisfies: whatever it still has to deliver is the current snapshot.\<close>

definition queue_ok :: "Engine \<Rightarrow> Subscription \<Rightarrow> bool" where
  "queue_ok e q \<longleftrightarrow> sub_inv q \<and> sub_maxBytes q = maxBytes e \<and> (\<forall>s. Latest q = Some s \<longrightarrow> current e = Some s)"

definition subs_inv :: "Engine \<Rightarrow> bool" where
  "subs_inv e \<longleftrightarrow> (\<forall>i q. sub_store e i = Some q \<longrightarrow> i < next_sub e \<and> queue_ok e q \<and> (sub_closed q \<or> i \<in> set (subs e))) \<and>
     (\<forall>i\<in>set (subs e). sub_store e i \<noteq> None) \<and> distinct (subs e)"

definition current_inv :: "(hashProjection \<Rightarrow> string option) \<Rightarrow> Topology set \<Rightarrow> Engine \<Rightarrow> bool" where
  "current_inv d T e \<longleftrightarrow>
     (case current e of
        None \<Rightarrow> generations e = Map.empty
      | Some s \<Rightarrow> Seq s = eseq e \<and> Generations s = generations e \<and>
          (\<exists>t\<in>T. Topo s = Some t \<and> Hash s = hashTopology d t \<and> occupants e = pane_occupants (s_Panes t)))"

definition identifying_digest :: "(hashProjection \<Rightarrow> string option) \<Rightarrow> Topology set \<Rightarrow> bool" where
  "identifying_digest d T \<longleftrightarrow>
     (\<forall>s\<in>T. \<forall>t\<in>T. hashTopology d s = hashTopology d t \<longrightarrow> project s = project t) \<and> (\<forall>t\<in>T. wf_panes t)"

lemma subs_inv_frame:
  "subs e' = subs e \<Longrightarrow> sub_store e' = sub_store e \<Longrightarrow> next_sub e' = next_sub e \<Longrightarrow> maxBytes e' = maxBytes e \<Longrightarrow>
     current e' = current e \<Longrightarrow> subs_inv e' = subs_inv e"
  by (simp add: subs_inv_def queue_ok_def)

lemma broadcast_to_spec:
  assumes "distinct is" "\<forall>i\<in>set is. st i \<noteq> None"
  shows "fst (broadcast_to s is st) = filter (\<lambda>i. snd (enqueue (the (st i)) s)) is \<and>
    snd (broadcast_to s is st) = (\<lambda>i. if i \<in> set is then map_option (\<lambda>q. fst (enqueue q s)) (st i) else st i)"
  using assms
proof (induction "is" arbitrary: st)
  case (Cons j js)
  then obtain q where q: "st j = Some q" by auto
  let ?st = "st(j \<mapsto> fst (enqueue q s))"
  have js: "distinct js" "\<forall>i\<in>set js. ?st i \<noteq> None" using Cons.prems by simp_all
  have IH: "fst (broadcast_to s js ?st) = filter (\<lambda>i. snd (enqueue (the (?st i)) s)) js"
    "snd (broadcast_to s js ?st) = (\<lambda>i. if i \<in> set js then map_option (\<lambda>q. fst (enqueue q s)) (?st i) else ?st i)"
    using Cons.IH [OF js] by blast+
  have "filter (\<lambda>i. snd (enqueue (the (?st i)) s)) js = filter (\<lambda>i. snd (enqueue (the (st i)) s)) js"
    using Cons.prems(1) by (intro filter_cong) auto
  then show ?case using q Cons.prems IH by (simp add: split_beta Let_def) (auto simp: fun_eq_iff)
qed (auto simp: fun_eq_iff)

lemma broadcast_subs_inv:
  assumes "\<forall>i q. sub_store e i = Some q \<longrightarrow> i < next_sub e \<and> sub_inv q \<and> sub_maxBytes q = maxBytes e \<and> (sub_closed q \<or> i \<in> set (subs e))"
    "\<forall>i\<in>set (subs e). sub_store e i \<noteq> None" "distinct (subs e)" "current e = Some s"
  shows "subs_inv (broadcastLocked e s)"
proof -
  note spec = broadcast_to_spec [OF assms(3,2), of s]
  let ?st = "\<lambda>i. if i \<in> set (subs e) then map_option (\<lambda>q. fst (enqueue q s)) (sub_store e i) else sub_store e i"
  let ?keep = "filter (\<lambda>i. snd (enqueue (the (sub_store e i)) s)) (subs e)"
  have b: "broadcastLocked e s = e\<lparr>subs := ?keep, sub_store := ?st\<rparr>"
    using spec by (simp add: broadcastLocked_def split_beta Let_def)
  have mb: "sub_maxBytes (fst (enqueue q s)) = sub_maxBytes q" for q by (simp add: enqueue_eq signal_def)
  have "i < next_sub e \<and> queue_ok (broadcastLocked e s) q \<and> (sub_closed q \<or> i \<in> set ?keep)" if st: "?st i = Some q" for i q
  proof (cases "i \<in> set (subs e)")
    case True
    then obtain r where r: "sub_store e i = Some r" "q = fst (enqueue r s)" using st by auto
    then show ?thesis using assms(1,4) True mb
      by (auto simp: queue_ok_def Latest_enqueue enqueue_open_iff b split: if_splits)
  next
    case False
    then have "sub_store e i = Some q" "sub_closed q" using st assms(1) by auto
    then show ?thesis using assms(1) by (auto simp: queue_ok_def b Latest_def sub_inv_def)
  qed
  then show ?thesis using assms(2,3) by (auto simp: subs_inv_def b)
qed


lemma subs_inv_store:
  assumes "subs_inv e" "sub_store e i = Some q" "sub_inv q'" "sub_maxBytes q' = sub_maxBytes q"
    "Latest q' \<in> {Latest q, None}" "sub_closed q \<longrightarrow> sub_closed q'"
  shows "subs_inv (e\<lparr>sub_store := (sub_store e)(i \<mapsto> q')\<rparr>)"
proof -
  have "queue_ok e q" "sub_closed q \<or> i \<in> set (subs e)" "i < next_sub e" using assms(1,2) by (auto simp: subs_inv_def)
  then have "queue_ok e q'" "sub_closed q' \<or> i \<in> set (subs e)" "i < next_sub e" using assms(3-6)
    by (auto simp: queue_ok_def)
  moreover have "queue_ok (e\<lparr>sub_store := st\<rparr>) = queue_ok e" for st by (simp add: queue_ok_def fun_eq_iff)
  ultimately show ?thesis using assms(1) by (simp add: subs_inv_def)
qed

lemma subs_inv_add:
  assumes "subs_inv e" "queue_ok e q" "sub_closed q \<longleftrightarrow> \<not> ok" "i = next_sub e"
  shows "subs_inv (e\<lparr>next_sub := Suc i, sub_store := (sub_store e)(i \<mapsto> q), subs := (if ok then i # subs e else subs e)\<rparr>)"
proof -
  have "i \<notin> set (subs e)" using assms(1,4) by (force simp: subs_inv_def)
  moreover have "j < Suc i" if "sub_store e j = Some r" for j r using assms(1,4) that by (auto simp: subs_inv_def less_Suc_eq)
  moreover have "queue_ok (e\<lparr>next_sub := n, sub_store := st, subs := ss\<rparr>) = queue_ok e" for n st ss
    by (simp add: queue_ok_def fun_eq_iff)
  ultimately show ?thesis using assms by (auto simp: subs_inv_def)
qed

lemma Subscribe_subs_inv:
  assumes "subs_inv e" shows "subs_inv (fst (Subscribe e))"
proof (cases "current e")
  case None
  have "queue_ok e (newSubscription (maxItems e) (maxBytes e))"
    by (simp add: queue_ok_def) (simp add: newSubscription_def Latest_def)
  from subs_inv_add [OF assms this, of True] None show ?thesis by (simp add: Subscribe_def Let_def newSubscription_def)
next
  case (Some s)
  let ?r = "enqueue (newSubscription (maxItems e) (maxBytes e)) s"
  have "sub_maxBytes (fst ?r) = maxBytes e" by (simp add: enqueue_eq newSubscription_def signal_def)
  then have "queue_ok e (fst ?r)" using Some by (auto simp: queue_ok_def Latest_enqueue split: if_splits)
  from subs_inv_add [OF assms this, of "snd ?r"] Some show ?thesis
    by (auto simp: Subscribe_def Let_def split_beta enqueue_open_iff)
qed

lemma Close_props: "sub_inv q \<Longrightarrow> Latest (Close q) = None \<and> sub_closed (Close q) \<and> sub_maxBytes (Close q) = sub_maxBytes q"
  by (auto simp: Latest_def Close_def closeLocked_def sub_inv_def)

lemma subs_inv_removeAll:
  assumes "subs_inv e" "\<forall>q. sub_store e i = Some q \<longrightarrow> sub_closed q"
  shows "subs_inv (e\<lparr>subs := removeAll i (subs e)\<rparr>)"
  using assms by (auto simp: subs_inv_def queue_ok_def distinct_removeAll)

lemma Unsubscribe_subs_inv:
  assumes "subs_inv e" shows "subs_inv (Unsubscribe e i)"
proof (cases "sub_store e i")
  case None
  then have "i \<notin> set (subs e)" using assms by (auto simp: subs_inv_def)
  then show ?thesis using assms None by (simp add: Unsubscribe_def)
next
  case (Some q)
  then have q: "sub_inv q" using assms by (auto simp: subs_inv_def queue_ok_def)
  let ?e = "e\<lparr>sub_store := (sub_store e)(i \<mapsto> Close q)\<rparr>"
  have "subs_inv ?e" using Close_props [OF q] q Some by (intro subs_inv_store [OF assms Some]) auto
  from subs_inv_removeAll [OF this, of i] Close_props [OF q] have "subs_inv (?e\<lparr>subs := removeAll i (subs ?e)\<rparr>)" by simp
  then show ?thesis using Some by (simp add: Unsubscribe_def subs_inv_def queue_ok_def)
qed

lemma apply_current:
  "current (apply_outcome d z now out e) \<noteq> current e \<Longrightarrow>
     \<exists>t. good_topology out = Some t \<and> (\<forall>s. current e = Some s \<longrightarrow> Hash s \<noteq> hashTopology d t)"
  by (auto simp: apply_outcome_def good_topology_def Let_def split: option.splits if_splits)

lemma publish_subs_inv:
  assumes "subs_inv e" shows "subs_inv (publish z e t h)"
  unfolding publish_def Let_def by (rule broadcast_subs_inv) (use assms in \<open>auto simp: subs_inv_def queue_ok_def\<close>)

lemma subs_inv_poll [simp]: "subs_inv (e\<lparr>polls := a, lastPollAt := b, lastPollErr := c\<rparr>) = subs_inv e"
  by (rule subs_inv_frame) simp_all

lemma subs_inv_updateGenerations [simp]: "subs_inv (updateGenerationsLocked e t) = subs_inv e"
  by (rule subs_inv_frame) simp_all

lemma apply_subs_inv: "subs_inv e \<Longrightarrow> subs_inv (apply_outcome d z now out e)"
  by (simp add: apply_outcome_def Let_def publish_subs_inv split: option.split)

lemma current_inv_frame:
  "current e' = current e \<Longrightarrow> generations e' = generations e \<Longrightarrow> occupants e' = occupants e \<Longrightarrow> eseq e' = eseq e \<Longrightarrow>
     current_inv d T e' = current_inv d T e"
  by (simp add: current_inv_def cong: option.case_cong)

lemma gens_inv_frame:
  "generations e' = generations e \<Longrightarrow> occupants e' = occupants e \<Longrightarrow> gens_inv e' = gens_inv e"
  by (simp add: gens_inv_def)

lemma apply_current_inv:
  assumes "identifying_digest d T" "gens_inv e" "current_inv d T e" "\<forall>t. good_topology out = Some t \<longrightarrow> t \<in> T"
  shows "current_inv d T (apply_outcome d z now out e)"
proof (cases "good_topology out")
  case None
  then have "current (apply_outcome d z now out e) = current e" "eseq (apply_outcome d z now out e) = eseq e"
    by (auto simp: apply_outcome_def good_topology_def Let_def split: option.splits)
  then show ?thesis using assms(3) apply_no_topology [OF None, of d z now e] current_inv_frame by blast
next
  case (Some t)
  then have out: "out_err out = None" "out_snap out = Some t" by (auto simp: good_topology_def split: option.splits)
  have t: "t \<in> T" "wf_panes t" using assms(1,4) Some by (auto simp: identifying_digest_def)
  note ap = apply_topology [OF assms(2) Some t(2), of d z now]
  have ?thesis if "current e = Some s" "Hash s = hashTopology d t" for s
  proof -
    obtain u where u: "u \<in> T" "Topo s = Some u" "Hash s = hashTopology d u" "occupants e = pane_occupants (s_Panes u)"
      "Seq s = eseq e" "Generations s = generations e"
      using assms(3) \<open>current e = Some s\<close> by (auto simp: current_inv_def)
    have "hashTopology d u = hashTopology d t" using u(3) \<open>Hash s = hashTopology d t\<close> by simp
    then have "project u = project t" using assms(1) u(1) t(1) unfolding identifying_digest_def by blast
    moreover have "wf_panes u" using assms(1) u(1) by (auto simp: identifying_digest_def)
    ultimately have occ: "occupants e = pane_occupants (s_Panes t)"
      using project_occupants [of u t] u(4) t(2) by (simp add: wf_panes_def)
    have "generations (apply_outcome d z now out e) i = generations e i" for i
    proof -
      have "(generations e i = None) = (occupants e i = None)" using assms(2) by (auto simp: gens_inv_def)
      then show ?thesis unfolding ap(1) occ [symmetric]
        by (cases "occupants e i"; cases "generations e i") (simp_all add: next_generation_def)
    qed
    moreover have "current (apply_outcome d z now out e) = current e" "eseq (apply_outcome d z now out e) = eseq e"
      using that out by (simp_all add: apply_outcome_def Let_def)
    ultimately show ?thesis using that(1) u ap(2) occ by (simp add: current_inv_def fun_eq_iff)
  qed
  moreover have ?thesis if "\<forall>s. current e = Some s \<longrightarrow> Hash s \<noteq> hashTopology d t"
  proof -
    let ?e = "updateGenerationsLocked (e\<lparr>polls := polls e + 1, lastPollAt := now, lastPollErr := None\<rparr>) t"
    have "apply_outcome d z now out e = publish z ?e t (hashTopology d t)"
      using that out by (auto simp: apply_outcome_def Let_def split: option.split)
    moreover have "occupants (apply_outcome d z now out e) = pane_occupants (s_Panes t)" by (simp add: ap)
    ultimately show ?thesis using t(1) by (simp add: current_inv_def publish_def Let_def)
  qed
  ultimately show ?thesis by blast
qed

definition engine_inv :: "(hashProjection \<Rightarrow> string option) \<Rightarrow> Topology set \<Rightarrow> Engine \<Rightarrow> bool" where
  "engine_inv d T e \<longleftrightarrow> gens_inv e \<and> subs_inv e \<and> current_inv d T e"

lemma NewEngine_inv: "NewEngine cfg = Inr e \<Longrightarrow> engine_inv d T e"
  by (auto simp: NewEngine_def Let_def engine_inv_def gens_inv_def subs_inv_def current_inv_def split: if_splits)

lemma Subscribe_frame [simp]:
  "current (fst (Subscribe e)) = current e" "generations (fst (Subscribe e)) = generations e"
  "occupants (fst (Subscribe e)) = occupants e" "eseq (fst (Subscribe e)) = eseq e"
  by (simp_all add: Subscribe_def Let_def split_beta split: option.split)

lemma engine_inv_client:
  assumes "engine_inv d T e" "sub_store e i = Some q" "sub_inv q'" "sub_maxBytes q' = sub_maxBytes q"
    "Latest q' \<in> {Latest q, None}" "sub_closed q \<longrightarrow> sub_closed q'"
  shows "engine_inv d T (e\<lparr>sub_store := (sub_store e)(i \<mapsto> q')\<rparr>)"
proof -
  let ?e = "e\<lparr>sub_store := (sub_store e)(i \<mapsto> q')\<rparr>"
  have "gens_inv ?e = gens_inv e" "current_inv d T ?e = current_inv d T e"
    by (intro gens_inv_frame current_inv_frame; simp)+
  then show ?thesis using assms(1) subs_inv_store [OF _ assms(2-6)] by (simp add: engine_inv_def)
qed

lemma engine_step_inv:
  assumes "identifying_digest d T" "engine_inv d T e" "engine_step d z T e e'"
  shows "engine_inv d T e'"
  using assms(3)
proof cases
  case (step_poll out now)
  then have "gens_inv e'" using assms(1,2) by (auto intro!: apply_gens_inv simp: identifying_digest_def engine_inv_def)
  with step_poll assms show ?thesis by (simp add: engine_inv_def apply_subs_inv apply_current_inv)
next
  case step_wake
  then have "gens_inv e' = gens_inv e" "current_inv d T e' = current_inv d T e" "subs_inv e' = subs_inv e"
    by (intro gens_inv_frame current_inv_frame subs_inv_frame; simp add: Wake_def)+
  then show ?thesis using assms(2) by (simp add: engine_inv_def)
next
  case step_subscribe
  then have "gens_inv e' = gens_inv e" "current_inv d T e' = current_inv d T e"
    by (intro gens_inv_frame current_inv_frame; simp)+
  then show ?thesis using assms(2) step_subscribe by (simp add: engine_inv_def Subscribe_subs_inv)
next
  case (step_unsubscribe i)
  then have "gens_inv e' = gens_inv e" "current_inv d T e' = current_inv d T e"
    by (intro gens_inv_frame current_inv_frame; simp add: Unsubscribe_def)+
  then show ?thesis using assms(2) step_unsubscribe by (simp add: engine_inv_def Unsubscribe_subs_inv)
next
  case (step_drain i q)
  then have "sub_inv q" using assms(2) by (auto simp: engine_inv_def subs_inv_def queue_ok_def)
  with step_drain show ?thesis
    by (auto intro!: engine_inv_client [OF assms(2)] simp: Drain_def Latest_def sub_inv_def)
next
  case (step_notified i q)
  then have "sub_inv q" using assms(2) by (auto simp: engine_inv_def subs_inv_def queue_ok_def)
  with step_notified show ?thesis
    by (auto intro!: engine_inv_client [OF assms(2)] simp: take_notify_def Latest_def sub_inv_def cong: if_cong)
next
  case (step_close i q)
  then have "sub_inv q" using assms(2) by (auto simp: engine_inv_def subs_inv_def queue_ok_def)
  with step_close Close_props [OF this] show ?thesis
    by (auto intro!: engine_inv_client [OF assms(2)])
qed

lemma engine_reachable_inv:
  assumes "identifying_digest d T" "engine_reachable d z T e"
  shows "engine_inv d T e"
  using assms(2) by (induction rule: engine_reachable.induct) (auto intro: NewEngine_inv engine_step_inv [OF assms(1)])




lemma example_polled_reachable:
  "engine_reachable example_digest example_size {example_topology [] [example_pane ''p'' ''x'']} example_polled"
proof -
  let ?T = "{example_topology [] [example_pane ''p'' ''x'']}"
  have "NewEngine \<lparr>cfg_hasSource = True, cfg_PollHot = 0, cfg_PollCold = 0, cfg_MaxQueueItems = 0, cfg_MaxQueueBytes = 0\<rparr> =
      Inr example_engine" by (simp add: example_engine_def NewEngine_def Let_def)
  then have "engine_reachable example_digest example_size ?T example_engine" by (rule reach_new)
  moreover have "engine_step example_digest example_size ?T example_engine example_polled"
    using step_poll [of "snd (example_poll [example_pane ''p'' ''x''])" ?T] by (simp add: example_polled_def run_polls_def) (simp add: example_poll_def)
  ultimately show ?thesis by (rule reach_step)
qed


text \<open>
  The effect of a broadcast on one registered queue: the snapshot is its newest and the client is
  notified, or the queue is closed and dropped.
\<close>

definition delivered :: "Engine \<Rightarrow> Engine \<Rightarrow> Snapshot \<Rightarrow> nat \<Rightarrow> bool" where
  "delivered e e' s i =
     (case (sub_store e i, sub_store e' i) of
        (Some q, Some q') \<Rightarrow>
          (if \<not> sub_closed q \<and> snap_bytes s \<le> sub_maxBytes q \<and> sub_maxItems q \<ge> 1
           then \<not> sub_closed q' \<and> sub_notify q' \<and> Latest q' = Some s \<and> i \<in> set (subs e')
           else sub_closed q' \<and> sub_done q' \<and> Latest q' = None \<and> i \<notin> set (subs e'))
      | _ \<Rightarrow> False)"

lemma broadcast_delivered:
  assumes "subs_inv e" "i \<in> set (subs e)"
  shows "delivered e (broadcastLocked (e\<lparr>eseq := n, current := c\<rparr>) s) s i"
proof -
  have k: "distinct (subs e)" "\<forall>i\<in>set (subs e). sub_store e i \<noteq> None" "\<forall>i q. sub_store e i = Some q \<longrightarrow> sub_inv q"
    using assms(1) by (auto simp: subs_inv_def queue_ok_def)
  then obtain r where r: "sub_store e i = Some r" "sub_inv r" using assms(2) by blast
  show ?thesis using r assms(2) broadcast_to_spec [OF k(1,2), of s]
    by (simp add: delivered_def broadcastLocked_def split_beta Let_def)
      (auto simp: enqueue_eq signal_def closeLocked_def Latest_def sub_inv_def)
qed

text \<open>
  What one successful poll does. A topology whose hash equals the current one changes neither the
  snapshot, the sequence number nor any queue. Otherwise the sequence number advances by one, the new
  snapshot holds the polled topology and the updated generations, every registered queue whose budget
  holds it stays registered with that snapshot as its newest, and every other queue is closed and
  dropped from the engine.
\<close>

theorem apply_publishes:
  assumes "engine_inv d T e" "good_topology out = Some t" "e' = apply_outcome d z now out e"
  shows "(if \<exists>s. current e = Some s \<and> Hash s = hashTopology d t
      then current e' = current e \<and> eseq e' = eseq e \<and> subs e' = subs e \<and> sub_store e' = sub_store e
      else \<exists>s. current e' = Some s \<and> Topo s = Some t \<and> Hash s = hashTopology d t \<and> Seq s = eseq e + 1 \<and>
        Generations s = generations e' \<and> (\<forall>i\<in>set (subs e). delivered e e' s i))"
proof -
  have out: "out_err out = None" "out_snap out = Some t" using assms(2) by (auto simp: good_topology_def split: option.splits)
  show ?thesis
  proof (cases "\<exists>s. current e = Some s \<and> Hash s = hashTopology d t")
    case True
    then show ?thesis using out assms(3) by (auto simp: apply_outcome_def Let_def)
  next
    case False
    let ?e = "updateGenerationsLocked (e\<lparr>polls := polls e + 1, lastPollAt := now, lastPollErr := None\<rparr>) t"
    let ?s = "\<lparr>Seq = eseq e + 1, Hash = hashTopology d t, Topo = Some t, Generations = generations ?e, snap_bytes = 0\<rparr>"
    define s where "s = ?s\<lparr>snap_bytes := (case z ?s of Some n \<Rightarrow> n | None \<Rightarrow> MaxInt)\<rparr>"
    then have s: "Topo s = Some t" "Hash s = hashTopology d t" "Seq s = eseq e + 1" "Generations s = generations ?e" by simp_all
    have a: "e' = broadcastLocked (?e\<lparr>eseq := eseq e + 1, current := Some s\<rparr>) s"
      using False out assms(3) by (auto simp: apply_outcome_def Let_def publish_def s_def split: option.split)
    have "subs_inv ?e" using assms(1) by (simp add: engine_inv_def)
    then have "delivered ?e e' s i" if "i \<in> set (subs e)" for i
      unfolding a by (rule broadcast_delivered) (use that in simp)
    then have "\<forall>i\<in>set (subs e). delivered e e' s i" by (simp add: delivered_def)
    moreover have "current e' = Some s" "generations e' = generations ?e" by (simp_all add: a)
    ultimately show ?thesis using False s by auto
  qed
qed

lemma example_polled_inv: "engine_inv example_digest {example_topology [] [example_pane ''p'' ''x'']} example_polled"
  by (rule engine_reachable_inv [OF _ example_polled_reachable]) (simp add: identifying_digest_def wf_panes_def)

theorem apply_publishes_witness:
  "eseq (apply_outcome example_digest example_size 5 (snd (example_poll [example_pane ''p'' ''x''])) example_polled) = eseq example_polled"
proof -
  let ?t = "example_topology [] [example_pane ''p'' ''x'']"
  have "\<exists>s. current example_polled = Some s \<and> Hash s = hashTopology example_digest ?t"
    by (simp add: example_polled_def run_polls_def example_poll_def apply_outcome_def example_engine_def NewEngine_def Let_def publish_def)
  then show ?thesis
    using apply_publishes [OF example_polled_inv, of "snd (example_poll [example_pane ''p'' ''x''])" ?t _ example_size 5] by simp
qed

text \<open>
  A pane's output revision and an agent's lifecycle counter are not part of the hashed projection: a
  poll in which only they moved is not published, so \<open>Current\<close> and the runs projected from it keep the
  old values.
\<close>

definition revise :: "(int \<Rightarrow> int) \<Rightarrow> (int \<Rightarrow> int) \<Rightarrow> Topology \<Rightarrow> Topology" where
  "revise f g t = t\<lparr>s_Panes := map (\<lambda>p. p\<lparr>p_Revision := f (p_Revision p)\<rparr>) (s_Panes t),
     s_Agents := map (\<lambda>a. a\<lparr>a_StateChangeSeq := g (a_StateChangeSeq a)\<rparr>) (s_Agents t)\<rparr>"

lemma project_revise: "project (revise f g t) = project t"
proof -
  have "project_pane (p\<lparr>p_Revision := n\<rparr>) = project_pane p" for p n by (simp add: project_pane_def OccupantFingerprint_def)
  moreover have "project_agent (a\<lparr>a_StateChangeSeq := n\<rparr>) = project_agent a" for a n by (simp add: project_agent_def)
  ultimately show ?thesis by (simp add: project_def revise_def comp_def)
qed

text \<open>
  Output movement alone is not published. Whatever the pane revisions and agent counters of a poll,
  if everything else equals the current topology the engine keeps the snapshot it had.
\<close>

theorem revision_not_published:
  assumes "current e = Some s" "Hash s = hashTopology d t" "out = \<lparr>out_snap = Some (revise f g t), out_err = None\<rparr>"
  shows "Current (apply_outcome d z now out e) = Current e"
  using assms by (simp add: Current_def apply_outcome_def Let_def hashTopology_def project_revise)

theorem revision_not_published_witness:
  "Current (apply_outcome example_digest example_size 5
     \<lparr>out_snap = Some (revise (\<lambda>r. r + 1) id (example_topology [] [example_pane ''p'' ''x''])), out_err = None\<rparr> example_polled) =
   Current example_polled"
proof -
  let ?t = "example_topology [] [example_pane ''p'' ''x'']"
  obtain s where "current example_polled = Some s \<and> Hash s = hashTopology example_digest ?t"
    by (simp add: example_polled_def run_polls_def example_poll_def apply_outcome_def example_engine_def NewEngine_def Let_def publish_def)
  then show ?thesis
    using revision_not_published [of example_polled s example_digest ?t _ "\<lambda>r. r + 1" id] by simp
qed

text \<open>
  A projection that cannot be encoded is published once only. After one poll whose digest failed, a
  second one with any other topology whose digest fails too is taken for unchanged, so the sentinel does
  not force a rebroadcast.
\<close>

theorem hash_error_not_rebroadcast:
  assumes "d (project t) = None" "d (project u) = None" "current e = None"
    "e1 = apply_outcome d z a \<lparr>out_snap = Some t, out_err = None\<rparr> e"
  shows "Current (apply_outcome d z b \<lparr>out_snap = Some u, out_err = None\<rparr> e1) = Current e1 \<and>
    (\<exists>s. Current e1 = Some s \<and> Topo s = Some t)"
  using assms by (simp add: Current_def apply_outcome_def Let_def hashTopology_def publish_def)

theorem hash_error_not_rebroadcast_witness:
  "\<exists>s. Current (run_polls (\<lambda>_. None) example_size [example_poll [], example_poll [example_pane ''p'' ''x'']] example_engine) = Some s \<and>
     Topo s = Some (example_topology [] [])"
proof -
  have "current example_engine = None" by (simp add: example_engine_def NewEngine_def Let_def)
  then show ?thesis
    using hash_error_not_rebroadcast [of "\<lambda>_. None" "example_topology [] []" "example_topology [] [example_pane ''p'' ''x'']" example_engine _ example_size 0 0]
    by (simp add: run_polls_def example_poll_def)
qed

text \<open>
  A failed poll loses nothing. It is counted and its error recorded, and the snapshot, the
  generations, the sequence number and every client queue are what they were.
\<close>

theorem apply_error_keeps_state:
  "apply_outcome d z now \<lparr>out_snap = t, out_err = Some err\<rparr> e =
     e\<lparr>polls := polls e + 1, lastPollAt := now, lastPollErr := Some err\<rparr>"
  by (simp add: apply_outcome_def Let_def)

end
