(* ===== verification/StateLoop.thy ===== *)
theory StateLoop
  imports StateInvariant
begin

text \<open>
  The poll loop (internal/state/engine.go, Run). The select statement is a choice between events:
  the ticker fires, the wake token is taken, the outcome of the polling goroutine is received, the
  context is cancelled; the goroutine returning from the source is an event of its own. The ghost
  counter lp_started counts the polls started.
\<close>

section \<open>internal/state/engine.go, Run\<close>

record Loop =
  lp_engine :: Engine
  lp_interval :: duration
  lp_inProgress :: bool
  lp_queued :: bool
  lp_pollers :: nat
  lp_done :: "pollOutcome option"
  lp_started :: nat
  lp_returned :: bool

datatype loop_event = Tick | Woken | PollReturns pollOutcome | Deliver gotime | Cancelled

definition trigger :: "Loop \<Rightarrow> Loop" where
  "trigger l =
     (if lp_inProgress l then l\<lparr>lp_queued := True\<rparr>
      else l\<lparr>lp_inProgress := True, lp_pollers := Suc (lp_pollers l), lp_started := Suc (lp_started l)\<rparr>)"

definition loop_start :: "Engine \<Rightarrow> Loop" where
  "loop_start e = trigger \<lparr>lp_engine = e, lp_interval = pollCold e, lp_inProgress = False, lp_queued = False,
     lp_pollers = 0, lp_done = None, lp_started = 0, lp_returned = False\<rparr>"

text \<open>
  One event of the loop, \<open>None\<close> when it is not enabled. The polling goroutine's send on the channel of
  capacity one is enabled only when the channel is empty.
\<close>

definition loop_step ::
  "(hashProjection \<Rightarrow> string option) \<Rightarrow> (Snapshot \<Rightarrow> int option) \<Rightarrow> loop_event \<Rightarrow> Loop \<Rightarrow> Loop option" where
  "loop_step d z ev l =
     (if lp_returned l then None
      else case ev of
        Cancelled \<Rightarrow> Some (l\<lparr>lp_returned := True\<rparr>)
      | Tick \<Rightarrow> Some (trigger l)
      | Woken \<Rightarrow>
          if wake (lp_engine l) then Some (trigger (l\<lparr>lp_engine := (lp_engine l)\<lparr>wake := False\<rparr>\<rparr>)) else None
      | PollReturns out \<Rightarrow>
          if 0 < lp_pollers l \<and> lp_done l = None
          then Some (l\<lparr>lp_pollers := lp_pollers l - 1, lp_done := Some out\<rparr>) else None
      | Deliver now \<Rightarrow>
          (case lp_done l of
             None \<Rightarrow> None
           | Some out \<Rightarrow>
               let e = apply_outcome d z now out (lp_engine l);
                   l = l\<lparr>lp_done := None, lp_inProgress := False, lp_engine := e, lp_interval := desiredInterval e\<rparr>
               in Some (if lp_queued l then trigger (l\<lparr>lp_queued := False\<rparr>) else l)))"

fun loop_run ::
  "(hashProjection \<Rightarrow> string option) \<Rightarrow> (Snapshot \<Rightarrow> int option) \<Rightarrow> loop_event list \<Rightarrow> Loop \<Rightarrow> Loop option" where
  "loop_run d z [] l = Some l"
| "loop_run d z (ev # evs) l = (case loop_step d z ev l of None \<Rightarrow> None | Some l' \<Rightarrow> loop_run d z evs l')"

section \<open>Invariant\<close>

definition loop_inv :: "Loop \<Rightarrow> bool" where
  "loop_inv l \<longleftrightarrow> lp_pollers l + (if lp_done l = None then 0 else 1) = (if lp_inProgress l then 1 else 0) \<and>
     (lp_queued l \<longrightarrow> lp_inProgress l)"

lemma loop_inv_start: "loop_inv (loop_start e)"
  by (simp add: loop_inv_def loop_start_def trigger_def)

lemma loop_inv_trigger: "loop_inv l \<Longrightarrow> loop_inv (trigger l)"
  by (auto simp: loop_inv_def trigger_def split: if_splits)

lemma loop_inv_engine [simp]: "loop_inv (l\<lparr>lp_engine := e\<rparr>) = loop_inv l"
  by (simp add: loop_inv_def cong: if_cong)

lemma loop_step_inv:
  assumes "loop_inv l" "loop_step d z ev l = Some l'"
  shows "loop_inv l'"
  using assms
  by (cases ev) (auto simp: loop_step_def Let_def loop_inv_trigger split: if_splits option.splits,
      auto simp: loop_inv_def trigger_def split: if_splits)

lemma loop_run_inv: "loop_inv l \<Longrightarrow> loop_run d z evs l = Some l' \<Longrightarrow> loop_inv l'"
  by (induction d z evs l rule: loop_run.induct) (auto split: option.splits intro: loop_step_inv)

definition deliveries :: "loop_event list \<Rightarrow> nat" where
  "deliveries evs = length (filter (\<lambda>ev. case ev of Deliver _ \<Rightarrow> True | _ \<Rightarrow> False) evs)"

lemma deliveries_simps [simp]:
  "deliveries [] = 0"
  "deliveries (ev # evs) = (case ev of Deliver _ \<Rightarrow> 1 | _ \<Rightarrow> 0) + deliveries evs"
  by (simp_all add: deliveries_def split: loop_event.split)

text \<open>Polls started so far, against polls applied: the difference is the poll in flight.\<close>

lemma loop_step_started:
  assumes "loop_step d z ev l = Some l'" "loop_inv l"
  shows "lp_started l' + (if lp_inProgress l then 1 else 0) =
    lp_started l + (case ev of Deliver _ \<Rightarrow> 1 | _ \<Rightarrow> 0) + (if lp_inProgress l' then 1 else 0)"
  using assms by (cases ev) (auto simp: loop_step_def Let_def trigger_def loop_inv_def split: if_splits option.splits)

lemma loop_run_started:
  assumes "loop_run d z evs l = Some l'" "loop_inv l"
  shows "lp_started l' + (if lp_inProgress l then 1 else 0) =
    lp_started l + deliveries evs + (if lp_inProgress l' then 1 else 0)"
  using assms
proof (induction d z evs l rule: loop_run.induct)
  case (2 d z ev evs l)
  then obtain m where m: "loop_step d z ev l = Some m" "loop_run d z evs m = Some l'" by (auto split: option.splits)
  have "loop_inv m" by (rule loop_step_inv [OF "2.prems"(2) m(1)])
  from "2.IH" [OF m this] loop_step_started [OF m(1) "2.prems"(2)] show ?case by (simp split: if_splits)
qed simp

text \<open>
  Polls never overlap and never pile up. Whatever the interleaving of ticks, wake-ups, poll returns
  and deliveries, at most one poll is in flight or waiting to be applied, so the polling goroutine never
  blocks on its result channel, and the number of polls started is the number applied plus the one in
  progress.
\<close>

theorem loop_single_poll:
  assumes "loop_run d z evs (loop_start e) = Some l"
  shows "lp_pollers l + (if lp_done l = None then 0 else 1) \<le> 1 \<and>
    (0 < lp_pollers l \<longrightarrow> lp_done l = None) \<and>
    lp_started l = deliveries evs + (if lp_inProgress l then 1 else 0)"
proof -
  have "loop_inv l" by (rule loop_run_inv [OF loop_inv_start assms])
  then show ?thesis using loop_run_started [OF assms loop_inv_start]
    by (auto simp: loop_inv_def loop_start_def trigger_def split: if_splits)
qed

lemma loop_run_mono: "loop_run d z evs l = Some l' \<Longrightarrow> lp_started l \<le> lp_started l'"
proof (induction d z evs l rule: loop_run.induct)
  case (2 d z ev evs l)
  then obtain m where m: "loop_step d z ev l = Some m" "loop_run d z evs m = Some l'" by (auto split: option.splits)
  have "lp_started l \<le> lp_started m"
    using m(1) by (cases ev) (auto simp: loop_step_def Let_def trigger_def split: if_splits option.splits)
  with "2.IH" [OF m] show ?case by simp
qed simp

lemma queued_served:
  assumes "loop_run d z evs l = Some l'" "lp_queued l" "loop_inv l" "deliveries evs > 0"
  shows "lp_started l' > lp_started l"
  using assms
proof (induction d z evs l rule: loop_run.induct)
  case (2 d z ev evs l)
  then obtain m where m: "loop_step d z ev l = Some m" "loop_run d z evs m = Some l'" by (auto split: option.splits)
  have im: "loop_inv m" by (rule loop_step_inv [OF "2.prems"(3) m(1)])
  have mono: "lp_started m \<le> lp_started l'" by (rule loop_run_mono [OF m(2)])
  show ?case
  proof (cases "\<exists>now. ev = Deliver now")
    case True
    then have "lp_started m = Suc (lp_started l)" using m(1) "2.prems"
      by (auto simp: loop_step_def Let_def trigger_def split: if_splits option.splits)
    then show ?thesis using mono by simp
  next
    case False
    then have "lp_queued m" "lp_started m = lp_started l" "deliveries evs > 0"
      using m(1) "2.prems" by (cases ev; auto simp: loop_step_def trigger_def loop_inv_def split: if_splits option.splits)+
    then show ?thesis using "2.IH" [OF m _ im] by simp
  qed
qed simp


text \<open>A request to poll: a tick of the ticker, or the token of the wake channel.\<close>

definition is_request :: "loop_event \<Rightarrow> bool" where
  "is_request ev \<longleftrightarrow> ev = Tick \<or> ev = Woken"

lemma request_step:
  assumes "loop_step d z ev l = Some l1" "is_request ev"
  shows "(if lp_inProgress l then lp_queued l1 \<and> lp_started l1 = lp_started l else lp_started l1 = Suc (lp_started l))"
  using assms by (auto simp: loop_step_def is_request_def trigger_def split: if_splits)

text \<open>
  C38: no request to poll is lost. After a tick or a wake-up has been taken, a poll that starts later
  than the request has been started as soon as one more delivery was handled, and immediately when
  none was in progress; and while the loop runs with a poll in progress it can always reach such a
  delivery, whatever the poll returns.
\<close>

theorem request_served:
  assumes "loop_run d z before (loop_start e) = Some l" "is_request ev" "loop_step d z ev l = Some l1"
    "loop_run d z after l1 = Some l2" "\<not> lp_inProgress l \<or> deliveries after > 0"
  shows "lp_started l2 > lp_started l \<and>
    (\<not> lp_returned l2 \<longrightarrow> lp_inProgress l2 \<longrightarrow> (\<forall>now out. \<exists>evs l3. loop_run d z (evs @ [Deliver now]) l2 = Some l3 \<and> set evs \<subseteq> {PollReturns out}))"
proof
  have i: "loop_inv l" by (rule loop_run_inv [OF loop_inv_start assms(1)])
  have i1: "loop_inv l1" by (rule loop_step_inv [OF i assms(3)])
  have i2: "loop_inv l2" by (rule loop_run_inv [OF i1 assms(4)])
  show "lp_started l2 > lp_started l"
  proof (cases "lp_inProgress l")
    case True
    then show ?thesis using request_step [OF assms(3,2)] queued_served [OF assms(4) _ i1] assms(5) by simp
  next
    case False
    then show ?thesis using request_step [OF assms(3,2)] loop_run_mono [OF assms(4)] by simp
  qed
  show "\<not> lp_returned l2 \<longrightarrow> lp_inProgress l2 \<longrightarrow>
      (\<forall>now out. \<exists>evs l3. loop_run d z (evs @ [Deliver now]) l2 = Some l3 \<and> set evs \<subseteq> {PollReturns out})"
  proof (intro impI allI)
    fix now out assume r: "\<not> lp_returned l2" "lp_inProgress l2"
    show "\<exists>evs l3. loop_run d z (evs @ [Deliver now]) l2 = Some l3 \<and> set evs \<subseteq> {PollReturns out}"
    proof (cases "lp_done l2")
      case None
      then have "0 < lp_pollers l2" using i2 r by (simp add: loop_inv_def)
      then have "\<exists>l3. loop_run d z ([PollReturns out] @ [Deliver now]) l2 = Some l3"
        using None r by (simp add: loop_step_def Let_def)
      then show ?thesis by (metis empty_set list.simps(15) subset_refl)
    next
      case (Some x)
      then have "\<exists>l3. loop_run d z ([] @ [Deliver now]) l2 = Some l3" using r by (simp add: loop_step_def Let_def)
      then show ?thesis by (metis empty_set empty_subsetI)
    qed
  qed
qed

definition example_outcome :: pollOutcome where
  "example_outcome = \<lparr>out_snap = None, out_err = Some ''timeout''\<rparr>"

lemmas loop_eval = loop_step_def loop_start_def trigger_def Let_def example_outcome_def apply_outcome_def

theorem loop_single_poll_witness:
  "\<exists>l. loop_run example_digest example_size [Tick, PollReturns example_outcome, Deliver 1] (loop_start example_engine) = Some l \<and>
     lp_pollers l = 1 \<and> lp_started l = 2"
proof -
  obtain l where l: "loop_run example_digest example_size [Tick, PollReturns example_outcome, Deliver 1] (loop_start example_engine) = Some l"
    "lp_inProgress l" "lp_pollers l = 1" by (simp add: loop_eval)
  then show ?thesis using loop_single_poll [OF l(1)] by simp
qed

theorem request_served_witness:
  "\<exists>l2. loop_run example_digest example_size [Tick, PollReturns example_outcome, Deliver 1] (loop_start example_engine) = Some l2 \<and>
     lp_started l2 > lp_started (loop_start example_engine)"
proof -
  obtain l1 l2 where l: "loop_step example_digest example_size Tick (loop_start example_engine) = Some l1"
    "loop_run example_digest example_size [PollReturns example_outcome, Deliver 1] l1 = Some l2" by (simp add: loop_eval)
  have "lp_started l2 > lp_started (loop_start example_engine)"
    using request_served [of example_digest example_size "[]" example_engine "loop_start example_engine" Tick l1, OF _ _ l] by (simp add: is_request_def)
  then show ?thesis using l by simp
qed

end
