(* ===== verification/Sanitize.thy ===== *)
theory Sanitize
  imports GoStrings
begin

text \<open>
  The text sanitizers of the relay: \<open>SanitizeLogLine\<close> and \<open>SanitizeTextBlock\<close>
  (internal/security/redact.go), \<open>sanitizeMessage\<close> (internal/herdr/errors.go) and
  \<open>sanitizeLogText\<close> (internal/tunnel/logparse.go). Each is a loop over the runes of its
  argument whose switch writes zero or one rune; the switch is the \<open>emit\<close> function of the
  model and the loop is \<open>sanitize_with\<close>.

  The locale \<open>rune_sanitizer\<close> is the contract such a switch has to meet; what follows for the
  whole loop (valid UTF-8 out, only clean runes out, idempotence, identity on clean text) is
  proved once and interpreted for each switch.
\<close>

section \<open>The loop and its contract\<close>

definition sanitize_with :: "(rune \<Rightarrow> rune list) \<Rightarrow> string \<Rightarrow> string" where
  "sanitize_with emit s = encode_runes (concat (map emit (runes s)))"

lemma sanitize_with_length:
  assumes "\<And>s. s \<noteq> [] \<Longrightarrow> length (encode_runes (emit (fst (decode_rune s)))) \<le> k * snd (decode_rune s)"
  shows "length (sanitize_with emit s) \<le> k * length s"
proof (induction s rule: rune_chunks.induct)
  case (1 s)
  show ?case
  proof (cases "s = []")
    case False
    let ?n = "snd (decode_rune s)"
    have "runes s = fst (decode_rune s) # runes (drop ?n s)"
      using False by (simp add: runes_def rune_chunks.simps [of s])
    then have "length (sanitize_with emit s)
        = length (encode_runes (emit (fst (decode_rune s)))) + length (sanitize_with emit (drop ?n s))"
      by (simp add: sanitize_with_def)
    also have "\<dots> \<le> k * ?n + k * (length s - ?n)"
      using 1 [OF False] assms [OF False] by simp
    also have "\<dots> = k * (?n + (length s - ?n))" by (rule distrib_left [symmetric])
    also have "\<dots> = k * length s" using decode_rune_width [OF False] by simp
    finally show ?thesis .
  qed (simp add: sanitize_with_def)
qed

locale rune_sanitizer =
  fixes emit :: "rune \<Rightarrow> rune list"
    and clean :: "rune \<Rightarrow> bool"
  assumes emit_valid: "valid_rune r \<Longrightarrow> valid_runes (emit r)"
    and emit_clean: "valid_rune r \<Longrightarrow> list_all clean (emit r)"
    and emit_fixed: "clean r \<Longrightarrow> emit r = [r]"
begin

lemma emit_all_valid: "valid_runes rs \<Longrightarrow> valid_runes (concat (map emit rs))"
  by (induction rs) (auto simp: emit_valid)

lemma emit_all_clean: "valid_runes rs \<Longrightarrow> list_all clean (concat (map emit rs))"
  by (induction rs) (auto simp: emit_clean)

lemma emit_all_fixed: "list_all clean rs \<Longrightarrow> concat (map emit rs) = rs"
  by (induction rs) (auto simp: emit_fixed)

lemma runes_out: "runes (sanitize_with emit s) = concat (map emit (runes s))"
  by (simp add: sanitize_with_def runes_encode_runes emit_all_valid)

lemma out_clean: "list_all clean (runes (sanitize_with emit s))"
  by (simp add: runes_out emit_all_clean)

lemma out_valid_utf8: "valid_utf8 (sanitize_with emit s)"
  by (simp add: sanitize_with_def valid_utf8_encode_runes emit_all_valid)

lemma keeps_clean: "valid_utf8 s \<Longrightarrow> list_all clean (runes s) \<Longrightarrow> sanitize_with emit s = s"
  by (simp add: sanitize_with_def emit_all_fixed valid_utf8_def)

lemma idempotent: "sanitize_with emit (sanitize_with emit s) = sanitize_with emit s"
  by (intro keeps_clean out_valid_utf8 out_clean)

end

text \<open>A switch that drops ill-formed bytes and never writes more than it read.\<close>

locale shrinking_sanitizer = rune_sanitizer +
  assumes emit_error: "emit RuneError = []"
    and emit_short: "length (encode_runes (emit r)) \<le> length (encode_rune r)"
begin

lemma emit_decoded_short:
  "s \<noteq> [] \<Longrightarrow> length (encode_runes (emit (fst (decode_rune s)))) \<le> snd (decode_rune s)"
  by (cases "fst (decode_rune s) = RuneError")
    (simp add: emit_error, metis emit_short encode_decode_length le_trans)

lemma out_length: "length (sanitize_with emit s) \<le> length s"
  using sanitize_with_length [of emit 1 s] emit_decoded_short by simp

end

section \<open>internal/security/redact.go\<close>

definition log_emit :: "rune \<Rightarrow> rune list" where
  "log_emit r =
     (if r = 0x09 \<or> r = 0x0A \<or> r = 0x0D then [0x20]
      else if r < 0x20 \<or> r = 0x7F then []
      else if 0x80 \<le> r \<and> r \<le> 0x9F then []
      else if r = RuneError then []
      else [r])"

definition SanitizeLogLine :: "string \<Rightarrow> string" where
  "SanitizeLogLine s = sanitize_with log_emit s"

definition block_emit :: "rune \<Rightarrow> rune list" where
  "block_emit r =
     (if r = 0x0A \<or> r = 0x09 then [r]
      else if r < 0x20 \<or> r = 0x7F then []
      else if 0x80 \<le> r \<and> r \<le> 0x9F then []
      else if r = RuneError then []
      else [r])"

definition SanitizeTextBlock :: "string \<Rightarrow> string" where
  "SanitizeTextBlock s = sanitize_with block_emit s"

text \<open>The runes that no sink is to see: C0 controls, DEL, C1 controls.\<close>

definition control_rune :: "rune \<Rightarrow> bool" where
  "control_rune r \<longleftrightarrow> r < 0x20 \<or> r = 0x7F \<or> (0x80 \<le> r \<and> r \<le> 0x9F)"

definition line_clean :: "rune \<Rightarrow> bool" where
  "line_clean r \<longleftrightarrow> \<not> control_rune r \<and> r \<noteq> RuneError"

definition block_clean :: "rune \<Rightarrow> bool" where
  "block_clean r \<longleftrightarrow> r = 0x0A \<or> r = 0x09 \<or> line_clean r"

lemmas clean_defs = control_rune_def line_clean_def block_clean_def

interpretation log_line: shrinking_sanitizer log_emit line_clean
  by unfold_locales
    (auto simp: log_emit_def clean_defs RuneError_def valid_rune_def encode_rune_def)

interpretation text_block: shrinking_sanitizer block_emit block_clean
  by unfold_locales
    (auto simp: block_emit_def clean_defs RuneError_def valid_rune_def encode_rune_def)

lemma SanitizeLogLine_Nil [simp]: "SanitizeLogLine [] = []"
  by (simp add: SanitizeLogLine_def sanitize_with_def)

lemma SanitizeLogLine_runes:
  "\<exists>rs. SanitizeLogLine s = encode_runes rs \<and> valid_runes rs \<and> list_all line_clean rs"
  unfolding SanitizeLogLine_def sanitize_with_def
  by (intro exI conjI) (auto simp: log_line.emit_all_valid log_line.emit_all_clean)

lemma SanitizeTextBlock_runes:
  "\<exists>rs. SanitizeTextBlock s = encode_runes rs \<and> valid_runes rs \<and> list_all block_clean rs"
  unfolding SanitizeTextBlock_def sanitize_with_def
  by (intro exI conjI) (auto simp: text_block.emit_all_valid text_block.emit_all_clean)

section \<open>internal/herdr/errors.go\<close>

definition maxErrorMessage :: nat where
  "maxErrorMessage = 512"

definition message_emit :: "rune \<Rightarrow> rune list" where
  "message_emit r =
     (if r = 0x09 \<or> r = 0x20 then [r]
      else if r < 0x20 \<or> r = 0x7F then []
      else if 0x80 \<le> r \<and> r \<le> 0x9F then []
      else [r])"

definition sanitizeMessage :: "string \<Rightarrow> string" where
  "sanitizeMessage s =
     (let s = (if length s > maxErrorMessage then take maxErrorMessage s else s)
      in TrimSpace (sanitize_with message_emit s))"

definition message_clean :: "rune \<Rightarrow> bool" where
  "message_clean r \<longleftrightarrow> r = 0x09 \<or> \<not> control_rune r"

interpretation message: rune_sanitizer message_emit message_clean
  by unfold_locales (auto simp: message_emit_def message_clean_def control_rune_def)

section \<open>internal/tunnel/logparse.go\<close>

definition maxLogLineBytes :: nat where
  "maxLogLineBytes = 2 * 1024"

text \<open>
  The loop writes to a builder and leaves as soon as the builder holds \<open>maxLogLineBytes\<close>; a
  dropped control character continues without that test.
\<close>

fun sanitizeLogText_loop :: "rune list \<Rightarrow> string \<Rightarrow> string" where
  "sanitizeLogText_loop [] b = b"
| "sanitizeLogText_loop (r # rs) b =
     (if r = 0x09 then
        (let b' = b @ '' '' in if length b' \<ge> maxLogLineBytes then b' else sanitizeLogText_loop rs b')
      else if r < 0x20 \<or> r = 0x7F then sanitizeLogText_loop rs b
      else
        (let b' = b @ encode_rune r
         in if length b' \<ge> maxLogLineBytes then b' else sanitizeLogText_loop rs b'))"

definition sanitizeLogText :: "string \<Rightarrow> string" where
  "sanitizeLogText s = (if s = [] then [] else TrimRight (sanitizeLogText_loop (runes s) []) '' '')"


section \<open>What the sanitizers guarantee\<close>

lemma encode_rune_space: "encode_rune 0x20 = '' ''"
  by code_simp

lemma encode_rune_last_space: "last (encode_rune r) = CHR '' '' \<longleftrightarrow> r = 0x20"
proof -
  have "ord (last (encode_rune r)) = 0x20 \<longleftrightarrow> r = 0x20"
    using encode_rune_space by (auto simp: encode_rune_def)
  moreover have "last (encode_rune r) = CHR '' '' \<longleftrightarrow> ord (last (encode_rune r)) = ord CHR '' ''"
    by (rule ord_eq_iff [symmetric])
  ultimately show ?thesis by simp
qed

lemma TrimRight_space_encode [trim_simps]:
  "TrimRight (encode_runes rs) '' '' = encode_runes (drop_end (\<lambda>r. r = 0x20) rs)"
proof (induction rs rule: rev_induct)
  case (snoc r rs)
  show ?case
  proof (cases "r = 0x20")
    case True
    then have "encode_rune r = '' ''" by (simp add: encode_rune_space)
    then show ?thesis using snoc True by (simp add: TrimRight_def)
  next
    case False
    then show ?thesis using encode_rune_last_space [of r]
      by (simp add: TrimRight_def drop_end_id)
  qed
qed (simp add: TrimRight_def)

definition text_rune :: "rune \<Rightarrow> bool" where
  "text_rune r \<longleftrightarrow> 0x20 \<le> r \<and> r \<noteq> 0x7F"

lemma sanitizeLogText_loop_runes:
  "valid_runes rs \<Longrightarrow>
     \<exists>ps. sanitizeLogText_loop rs b = b @ encode_runes ps \<and> valid_runes ps \<and> list_all text_rune ps"
proof (induction rs arbitrary: b)
  case (Cons r rs)
  have sp: "'' '' = encode_runes [0x20]" by (simp add: encode_rune_space)
  have v: "valid_rune 0x20" by (simp add: valid_rune_def)
  consider "r = 0x09" | "r \<noteq> 0x09" "r < 0x20 \<or> r = 0x7F" | "r \<noteq> 0x09" "\<not> (r < 0x20 \<or> r = 0x7F)"
    by blast
  then show ?case
  proof cases
    case 1
    obtain ps where "sanitizeLogText_loop rs (b @ '' '') = (b @ '' '') @ encode_runes ps"
      "valid_runes ps" "list_all text_rune ps" using Cons by fastforce
    then have "sanitizeLogText_loop rs (b @ '' '') = b @ encode_runes (0x20 # ps) \<and>
        valid_runes (0x20 # ps) \<and> list_all text_rune (0x20 # ps)"
      using sp v by (simp add: text_rune_def)
    moreover have "b @ '' '' = b @ encode_runes [0x20] \<and> valid_runes [0x20] \<and> list_all text_rune [0x20]"
      using sp v by (simp add: text_rune_def)
    ultimately show ?thesis using 1 by (simp only: sanitizeLogText_loop.simps Let_def if_True) (metis (full_types))
  next
    case 2
    then show ?thesis using Cons by simp
  next
    case 3
    obtain ps where "sanitizeLogText_loop rs (b @ encode_rune r) = (b @ encode_rune r) @ encode_runes ps"
      "valid_runes ps" "list_all text_rune ps" using Cons by fastforce
    then have "sanitizeLogText_loop rs (b @ encode_rune r) = b @ encode_runes (r # ps) \<and>
        valid_runes (r # ps) \<and> list_all text_rune (r # ps)"
      using 3 Cons.prems by (simp add: text_rune_def)
    moreover have "b @ encode_rune r = b @ encode_runes [r] \<and> valid_runes [r] \<and> list_all text_rune [r]"
      using 3 Cons.prems by (simp add: text_rune_def)
    ultimately show ?thesis using 3 by (simp only: sanitizeLogText_loop.simps Let_def if_False) (metis (full_types))
  qed
qed simp

lemma sanitizeLogText_loop_length:
  "length b < maxLogLineBytes \<Longrightarrow> length (sanitizeLogText_loop rs b) \<le> maxLogLineBytes + 3"
proof (induction rs arbitrary: b)
  case (Cons r rs)
  then show ?case
    using encode_rune_length [of r] by (auto simp: Let_def not_le)
qed simp

lemma list_all_drop_end: "list_all P xs \<Longrightarrow> list_all P (drop_end Q xs)"
  using set_drop_end [of Q xs] by (auto simp: list_all_iff)

lemma sanitizeLogText_runes:
  "\<exists>ps. sanitizeLogText s = encode_runes ps \<and> valid_runes ps \<and> list_all text_rune ps"
proof (cases "s = []")
  case False
  obtain ps where "sanitizeLogText_loop (runes s) [] = encode_runes ps" "valid_runes ps" "list_all text_rune ps"
    using sanitizeLogText_loop_runes [of "runes s" "[]"] by auto
  then show ?thesis using False
    by (intro exI [of _ "drop_end (\<lambda>r. r = 0x20) ps"])
      (simp add: sanitizeLogText_def TrimRight_space_encode list_all_drop_end valid_runes_def
        list_all_iff [symmetric])
qed (auto simp: sanitizeLogText_def intro: exI [of _ "[]"])

text \<open>
  Every string that \<open>SanitizeLogLine\<close> returns is valid UTF-8 without C0, DEL or C1 control
  runes and without U+FFFD, is no longer than its input, and is a fixed point, so sanitizing
  an already sanitized field again (as the relay does at several boundaries) changes nothing.
\<close>

theorem SanitizeLogLine_safe:
  "valid_utf8 (SanitizeLogLine s) \<and> list_all line_clean (runes (SanitizeLogLine s)) \<and>
   length (SanitizeLogLine s) \<le> length s \<and> SanitizeLogLine (SanitizeLogLine s) = SanitizeLogLine s"
  unfolding SanitizeLogLine_def
  by (simp add: log_line.out_valid_utf8 log_line.out_clean log_line.out_length log_line.idempotent)


text \<open>
  \<open>SanitizeTextBlock\<close> returns valid UTF-8 in which the only control runes are LF and TAB,
  keeps every line feed and every tab of its input in order, is never longer than its input
  and is a fixed point.
\<close>

theorem SanitizeTextBlock_safe:
  "valid_utf8 (SanitizeTextBlock s) \<and> list_all block_clean (runes (SanitizeTextBlock s)) \<and>
   length (SanitizeTextBlock s) \<le> length s \<and>
   SanitizeTextBlock (SanitizeTextBlock s) = SanitizeTextBlock s \<and>
   filter (\<lambda>r. r = 0x0A \<or> r = 0x09) (runes (SanitizeTextBlock s)) =
     filter (\<lambda>r. r = 0x0A \<or> r = 0x09) (runes s)"
proof -
  have "filter (\<lambda>r. r = 0x0A \<or> r = 0x09) (concat (map block_emit rs)) = filter (\<lambda>r. r = 0x0A \<or> r = 0x09) rs" for rs
    by (induction rs) (auto simp: block_emit_def RuneError_def)
  then have "filter (\<lambda>r. r = 0x0A \<or> r = 0x09) (runes (SanitizeTextBlock s)) =
      filter (\<lambda>r. r = 0x0A \<or> r = 0x09) (runes s)"
    by (simp add: SanitizeTextBlock_def text_block.runes_out)
  then show ?thesis
    by (simp add: SanitizeTextBlock_def text_block.out_valid_utf8 text_block.out_clean
        text_block.out_length text_block.idempotent)
qed

text \<open>
  The error text kept from Herdr. \<open>maxErrorMessage\<close> bounds the bytes that are read, not the
  bytes that are kept: each ill-formed byte is written back as the three bytes of U+FFFD.
\<close>

lemma encode_runes_length_le: "(\<And>r. r \<in> set rs \<Longrightarrow> length (encode_rune r) \<le> k) \<Longrightarrow> length (encode_runes rs) \<le> k * length rs"
  by (induction rs) (force simp: add_mono)+

lemma message_decoded_length:
  "s \<noteq> [] \<Longrightarrow> length (encode_runes (message_emit (fst (decode_rune s)))) \<le> 3 * snd (decode_rune s)"
proof -
  assume s: "s \<noteq> []"
  have "length (encode_rune (fst (decode_rune s))) \<le> 3 * snd (decode_rune s)"
  proof (cases "fst (decode_rune s) = RuneError")
    case True
    then show ?thesis using decode_rune_width [OF s] by (simp add: encode_rune_def RuneError_def)
  next
    case False
    then show ?thesis using encode_decode_length [OF False s] by simp
  qed
  then show ?thesis by (simp add: message_emit_def)
qed

lemma message_length: "length (sanitize_with message_emit s) \<le> 3 * length s"
  by (rule sanitize_with_length) (rule message_decoded_length)

lemma sanitizeMessage_runes:
  "\<exists>rs. sanitizeMessage s = encode_runes rs \<and> valid_runes rs \<and> list_all message_clean rs"
proof -
  define t where "t = (if length s > maxErrorMessage then take maxErrorMessage s else s)"
  define rs where "rs = concat (map message_emit (runes t))"
  have "valid_runes rs" "list_all message_clean rs"
    by (simp_all add: rs_def message.emit_all_valid message.emit_all_clean)
  moreover have "sanitizeMessage s = encode_runes (trim_runes rs)"
    using calculation(1)
    by (simp add: sanitizeMessage_def Let_def t_def [symmetric] sanitize_with_def rs_def [symmetric]
        TrimSpace_encode_runes)
  moreover have "list_all message_clean (trim_runes rs)"
    using calculation(2) set_trim_runes [of rs] by (auto simp: list_all_iff)
  ultimately show ?thesis by (intro exI [of _ "trim_runes rs"]) simp
qed

text \<open>
  A message kept from Herdr or from a transport error holds no control rune other than TAB
  (so no escape introducer, 7-bit or 8-bit, reaches a log or the UI), is valid UTF-8, and has at
  most three times \<open>maxErrorMessage\<close> bytes.
\<close>

theorem sanitizeMessage_safe:
  "valid_utf8 (sanitizeMessage s) \<and> list_all message_clean (runes (sanitizeMessage s)) \<and>
   length (sanitizeMessage s) \<le> 3 * maxErrorMessage"
proof -
  obtain rs where rs: "sanitizeMessage s = encode_runes rs" "valid_runes rs" "list_all message_clean rs"
    using sanitizeMessage_runes by blast
  have "length (sanitizeMessage s) \<le> 3 * length (if length s > maxErrorMessage then take maxErrorMessage s else s)"
    unfolding sanitizeMessage_def Let_def
    by (rule le_trans [OF TrimSpace_length message_length])
  also have "\<dots> \<le> 3 * maxErrorMessage" by simp
  finally show ?thesis using rs by (simp add: runes_encode_runes valid_utf8_encode_runes)
qed

text \<open>
  A line of cloudflared output kept for diagnostics is valid UTF-8 without C0 controls and
  DEL and has at most three bytes more than \<open>maxLogLineBytes\<close> (the rune that reaches the bound
  is written whole).
\<close>

theorem sanitizeLogText_safe:
  "valid_utf8 (sanitizeLogText s) \<and> list_all text_rune (runes (sanitizeLogText s)) \<and>
   length (sanitizeLogText s) \<le> maxLogLineBytes + 3"
proof -
  obtain ps where ps: "sanitizeLogText s = encode_runes ps" "valid_runes ps" "list_all text_rune ps"
    using sanitizeLogText_runes by blast
  have "length (sanitizeLogText_loop (runes s) []) \<le> maxLogLineBytes + 3"
    by (rule sanitizeLogText_loop_length) (simp add: maxLogLineBytes_def)
  then have "length (sanitizeLogText s) \<le> maxLogLineBytes + 3"
    by (auto simp: sanitizeLogText_def TrimRight_def intro: le_trans [OF drop_end_length])
  then show ?thesis using ps by (simp add: runes_encode_runes valid_utf8_encode_runes)
qed


lemma runes_bad_bytes: "0xF5 \<le> ord b \<Longrightarrow> runes (replicate n b) = replicate n RuneError"
  by (induction n) (simp_all add: runes_def rune_chunks.simps [of "b # _"] decode_rune.simps(2))

text \<open>
  The bound of the previous theorem is reached: 512 ill-formed bytes become a message of
  1536 bytes, three times the constant that the code documents as the bound of a kept message.
\<close>

theorem sanitizeMessage_exceeds_bound:
  "length (sanitizeMessage (replicate maxErrorMessage CHR 0xFF)) = 3 * maxErrorMessage"
proof -
  have r: "runes (replicate maxErrorMessage CHR 0xFF) = replicate maxErrorMessage RuneError"
    by (rule runes_bad_bytes) simp
  have e: "concat (map message_emit (replicate n RuneError)) = replicate n RuneError" for n
    by (induction n) (simp_all add: message_emit_def RuneError_def)
  have v: "valid_runes (replicate n RuneError)" for n
    by (simp add: valid_runes_def valid_rune_def RuneError_def)
  have t: "trim_runes (replicate n RuneError) = replicate n RuneError" for n
    by (rule trim_runes_id) (cases n, simp_all add: IsSpace_def RuneError_def last_replicate)
  have l: "length (encode_runes (replicate n RuneError)) = 3 * n" for n
    by (induction n) (simp_all add: encode_rune_def RuneError_def valid_rune_def)
  show ?thesis
    by (simp add: sanitizeMessage_def sanitize_with_def r e TrimSpace_encode_runes v t l
        del: map_replicate)
qed

text \<open>
  \<open>sanitizeLogText\<close> is documented to remove the control characters that could smuggle escape
  sequences, but it keeps C1 controls: U+009B, the 8-bit CSI, passes through unchanged.
\<close>

theorem sanitizeLogText_keeps_C1:
  "sanitizeLogText (encode_runes [0x9B, 0x33, 0x31, 0x6D]) = encode_runes [0x9B, 0x33, 0x31, 0x6D]"
proof -
  have r: "runes (encode_runes [0x9B, 0x33, 0x31, 0x6D]) = [0x9B, 0x33, 0x31, 0x6D]"
    by (rule runes_encode_runes) (simp add: valid_rune_def)
  have "sanitizeLogText_loop [0x9B, 0x33, 0x31, 0x6D] [] = encode_runes [0x9B, 0x33, 0x31, 0x6D]"
    by (simp add: Let_def maxLogLineBytes_def encode_rune_def)
  moreover have "drop_end (\<lambda>r. r = 0x20) [0x9B, 0x33, 0x31, 0x6D] = [0x9B, 0x33, 0x31, 0x6D::nat]"
    by (rule drop_end_id) simp_all
  ultimately show ?thesis
    by (simp add: sanitizeLogText_def r TrimRight_space_encode del: encode_runes_Cons)
qed

end
