(* ===== verification/InterpretLines.thy ===== *)
theory InterpretLines
  imports Sanitize
begin

text \<open>
  Line-level cleanup and numbered options of the screen interpreter (internal/interpret/clean.go
  and internal/interpret/options.go). Strings are byte lists; a conversion to runes and back is
  written where the code has one, because it rewrites ill-formed bytes.
\<close>

section \<open>internal/interpret/clean.go\<close>

definition gutterRunes :: "rune list" where
  "gutterRunes = [0x2503, 0x2502, 0x2506, 0x2507, 0x250A, 0x250B, 0x2551, 0x258C, 0x2590]"

definition stripGutter :: "string \<Rightarrow> string \<times> bool" where
  "stripGutter line =
     (let trimmed = TrimLeft line blanks in
      if trimmed = [] then ([], False)
      else
        let r = runes trimmed in
        if hd r \<notin> set gutterRunes then (line, False)
        else (TrimRight (encode_runes (tl r)) blanks, True))"

definition isBoxRune :: "rune \<Rightarrow> bool" where
  "isBoxRune r =
     (if 0x2500 \<le> r \<and> r \<le> 0x257F then True
      else if 0x2580 \<le> r \<and> r \<le> 0x259F then True
      else if r = 0x2500 \<or> r = 0x2501 \<or> r = 0x2550 then True
      else False)"

fun starts_box :: "rune list \<Rightarrow> bool" where
  "starts_box [] = False"
| "starts_box (r # rs) = (if r = 0x20 \<or> r = 0x09 then starts_box rs else isBoxRune r)"

definition startsWithBoxGlyph :: "string \<Rightarrow> bool" where
  "startsWithBoxGlyph line = starts_box (runes line)"

fun rule_runes :: "rune list \<Rightarrow> bool \<Rightarrow> bool" where
  "rule_runes [] seen = seen"
| "rule_runes (r # rs) seen =
     (if r = 0x20 \<or> r = 0x09 then rule_runes rs seen
      else if isBoxRune r then rule_runes rs True
      else False)"

definition isRuleLine :: "string \<Rightarrow> bool" where
  "isRuleLine line = rule_runes (runes line) False"

definition isBlank :: "string \<Rightarrow> bool" where
  "isBlank line \<longleftrightarrow> TrimSpace line = []"

definition indentOf :: "string \<Rightarrow> int" where
  "indentOf line = int (length (takeWhile (\<lambda>r. r = 0x20 \<or> r = 0x09) (runes line)))"

definition hintTokens :: "string list" where
  "hintTokens =
     [''esc to'', ''enter to'', ''tab to'', ''ctrl+'', ''shift+tab'', encode_rune 0x21C6, encode_rune 0x21B5,
      ''to cancel'', ''to confirm'', ''to amend'', ''to explain'', ''to interrupt'',
      ''select'', ''fullscreen'', ''for more'', ''to cycle'', ''to expand'', ''to toggle'']"

definition looksLikeHint :: "string \<Rightarrow> bool" where
  "looksLikeHint line =
     (let l = ToLower (TrimSpace line) in
      if l = [] then False else list_ex (\<lambda>t. Contains l t) hintTokens)"

definition trimMarker :: "string \<Rightarrow> rune \<Rightarrow> string option" where
  "trimMarker line marker =
     (let r = runes (TrimLeft line blanks) in
      if r = [] \<or> hd r \<noteq> marker then None else Some (TrimSpace (encode_runes (tl r))))"

definition hasMarker :: "string \<Rightarrow> rune \<Rightarrow> bool" where
  "hasMarker line marker \<longleftrightarrow> trimMarker line marker \<noteq> None"

record screenLine =
  sl_text :: string
  sl_framed :: bool

fun collapse_rows :: "screenLine list \<Rightarrow> screenLine list \<Rightarrow> bool \<Rightarrow> screenLine list" where
  "collapse_rows [] out pendingBlank = out"
| "collapse_rows (l # ls) out pendingBlank =
     (if isBlank (sl_text l) then collapse_rows ls out (if out \<noteq> [] then True else pendingBlank)
      else
        let out = (if pendingBlank then out @ [\<lparr>sl_text = [], sl_framed = False\<rparr>] else out)
        in collapse_rows ls (out @ [l]) False)"

definition collapseBlanks :: "screenLine list \<Rightarrow> screenLine list" where
  "collapseBlanks lines = collapse_rows lines [] False"

definition texts :: "screenLine list \<Rightarrow> string list" where
  "texts lines = map sl_text lines"

definition startsWithNumber :: "string \<Rightarrow> bool" where
  "startsWithNumber s = (case runes s of [] \<Rightarrow> False | r # _ \<Rightarrow> IsDigit r)"

definition endsWithWord :: "string \<Rightarrow> string \<Rightarrow> bool" where
  "endsWithWord s word = HasSuffix (TrimRight s '' .'') word"

definition isStatusNoise :: "string \<Rightarrow> bool" where
  "isStatusNoise line =
     (let l = TrimSpace line in
      if l = [] then False
      else
        let low = ToLower l in
        if endsWithWord low ''tokens'' \<and> startsWithNumber low then True
        else if Contains low ''ctx:'' then True
        else if Contains low ''mode on'' \<or> Contains low ''mode off'' then True
        else if Contains l ''$'' \<and> Contains l (encode_rune 0xB7) then True
        else False)"

text \<open>The counter behind the pointer is an argument and a result.\<close>

fun strip_rows :: "string list \<Rightarrow> nat \<Rightarrow> nat \<times> screenLine list" where
  "strip_rows [] dropped = (dropped, [])"
| "strip_rows (raw # ls) dropped =
     (let (text, framed) = stripGutter raw in
      if isRuleLine text \<or> isStatusNoise text then strip_rows ls (dropped + 1)
      else let (d, out) = strip_rows ls dropped in (d, \<lparr>sl_text = text, sl_framed = framed\<rparr> # out))"

definition stripFrame :: "string list \<Rightarrow> nat \<Rightarrow> nat \<times> screenLine list" where
  "stripFrame lines dropped = (let (d, out) = strip_rows lines dropped in (d, collapseBlanks out))"

section \<open>internal/interpret/options.go\<close>

definition selectionMarkers :: "rune list" where
  "selectionMarkers = [0x276F, 0x3E, 0x25B6, 0x25BA, 0x2022, 0x2A, 0x2192]"

record numberedOption =
  no_ordinal :: nat
  no_label :: string
  no_at :: nat

definition blank_rune :: "rune \<Rightarrow> bool" where
  "blank_rune r \<longleftrightarrow> r = 0x20 \<or> r = 0x09"

definition digit_rune :: "rune \<Rightarrow> bool" where
  "digit_rune r \<longleftrightarrow> 0x30 \<le> r \<and> r \<le> 0x39"

definition parseNumberedOption :: "string \<Rightarrow> (nat \<times> string) option" where
  "parseNumberedOption line =
     (let t = TrimLeft line blanks in
      if t = [] then None
      else
        let r = runes t;
            r = (if hd r \<in> set selectionMarkers then dropWhile blank_rune (tl r) else r);
            digits = takeWhile digit_rune (take 2 r);
            ordinal = foldl (\<lambda>n d. n * 10 + (d - 0x30)) 0 digits;
            r = drop (length digits) r
        in if digits = [] then None
           else case r of
             [] \<Rightarrow> None
           | p # r' \<Rightarrow>
               if p \<noteq> 0x2E \<and> p \<noteq> 0x29 then None
               else (case r' of
                   [] \<Rightarrow> None
                 | b # _ \<Rightarrow>
                     if \<not> blank_rune b then None
                     else
                       let label = TrimSpace (encode_runes r')
                       in if label = [] then None else Some (ordinal, label)))"

definition minNumberedOptions :: nat where
  "minNumberedOptions = 2"

text \<open>The inner loop: the options numbered \<open>want\<close>, \<open>want + 1\<close>, \<dots> at the front of the lines from index \<open>j\<close>.\<close>

fun option_run :: "string list \<Rightarrow> nat \<Rightarrow> nat \<Rightarrow> numberedOption list" where
  "option_run [] j want = []"
| "option_run (l # ls) j want =
     (case parseNumberedOption l of
        None \<Rightarrow> []
      | Some (ord', label) \<Rightarrow>
          if ord' \<noteq> want then []
          else \<lparr>no_ordinal = ord', no_label = label, no_at = j\<rparr> # option_run ls (j + 1) (want + 1))"

text \<open>The outer loop, with \<open>n\<close> one more than the index it looks at.\<close>

fun find_block :: "string list \<Rightarrow> nat \<Rightarrow> (nat \<times> nat \<times> numberedOption list) option" where
  "find_block lines 0 = None"
| "find_block lines (Suc i) =
     (case parseNumberedOption (lines ! i) of
        None \<Rightarrow> find_block lines i
      | Some (ord', label) \<Rightarrow>
          if ord' \<noteq> 1 then find_block lines i
          else
            let run = \<lparr>no_ordinal = 1, no_label = label, no_at = i\<rparr> # option_run (drop (i + 1) lines) (i + 1) 2;
                j = i + length run
            in if length run \<ge> minNumberedOptions then Some (i, j, run) else find_block lines i)"

definition findNumberedBlock :: "string list \<Rightarrow> (nat \<times> nat \<times> numberedOption list) option" where
  "findNumberedBlock lines = find_block lines (length lines)"

record Option =
  opt_Label :: string
  opt_SendKey :: string

definition validSendKey :: "string \<Rightarrow> bool" where
  "validSendKey s \<longleftrightarrow> length s = 1 \<and> 0x31 \<le> ord (hd s) \<and> ord (hd s) \<le> 0x39"

definition to_option :: "numberedOption \<Rightarrow> Option" where
  "to_option o' =
     (let key = (if 1 \<le> no_ordinal o' \<and> no_ordinal o' \<le> 9 then [char_of (0x30 + no_ordinal o')] else []);
          key = (if \<not> validSendKey key then [] else key)
      in \<lparr>opt_Label = no_label o', opt_SendKey = key\<rparr>)"

definition toOptions :: "numberedOption list \<Rightarrow> Option list" where
  "toOptions run = map to_option run"

type_synonym InteractionKind = string

definition InteractionApproval :: InteractionKind where "InteractionApproval = ''approval''"
definition InteractionQuestion :: InteractionKind where "InteractionQuestion = ''question''"

definition approvalPrefixes :: "string list" where
  "approvalPrefixes = [''yes'', ''no'', ''allow'', ''deny'', ''reject'', ''approve'', ''always'']"

definition firstWord :: "string \<Rightarrow> string" where
  "firstWord s = (let s = TrimSpace s in case IndexAny s (set blanks) of Some i \<Rightarrow> take i s | None \<Rightarrow> s)"

definition classifyInteraction :: "Option list \<Rightarrow> InteractionKind" where
  "classifyInteraction opts =
     (if list_ex (\<lambda>o'. TrimRight (ToLower (firstWord (opt_Label o'))) '',.:;'' \<in> set approvalPrefixes) opts
      then InteractionApproval else InteractionQuestion)"

end
