(* ===== verification/InterpretGrammars.thy ===== *)
theory InterpretGrammars
  imports InterpretLines
begin

text \<open>
  The two screen grammars (internal/interpret/claude.go and internal/interpret/opencode.go) and the
  data both produce (internal/interpret/interpret.go). Each loop over the rows is a fold whose
  state holds the local variables of the Go function; indexes that walk backwards are walks over
  the reversed prefix.
\<close>

section \<open>internal/interpret/interpret.go: data\<close>

type_synonym Kind = string
type_synonym TurnKind = string
type_synonym DiffOp = string

definition KindClaude :: Kind where "KindClaude = ''claude''"
definition KindOpenCode :: Kind where "KindOpenCode = ''opencode''"

definition TurnAgentText :: TurnKind where "TurnAgentText = ''agent_text''"
definition TurnToolCall :: TurnKind where "TurnToolCall = ''tool_call''"
definition TurnToolResult :: TurnKind where "TurnToolResult = ''tool_result''"
definition TurnStatus :: TurnKind where "TurnStatus = ''status''"

definition DiffContext :: DiffOp where "DiffContext = ''context''"
definition DiffAdd :: DiffOp where "DiffAdd = ''add''"
definition DiffRemove :: DiffOp where "DiffRemove = ''remove''"

record Turn =
  turn_Kind :: TurnKind
  turn_Tool :: string
  turn_Text :: string

record DiffLine =
  dl_Line :: nat
  dl_Op :: DiffOp
  dl_Text :: string

record Interaction =
  in_Kind :: InteractionKind
  in_Title :: string
  in_Detail :: "string list"
  in_Question :: string
  in_Answerable :: bool
  in_Options :: "Option list"
  in_Diff :: "DiffLine list"

record Result =
  res_Parser :: Kind
  res_Turns :: "Turn list"
  res_DroppedTurns :: nat
  res_DroppedLines :: nat
  res_PartialLead :: bool
  res_Interaction :: "Interaction option"

record Limits =
  MaxTurns :: int
  MaxOptions :: int
  MaxDetail :: int
  MaxDiffLines :: int
  MaxTextLen :: int
  MaxLines :: int

definition maxToolNameLen :: nat where "maxToolNameLen = 64"
definition maxOptionLabelLen :: nat where "maxOptionLabelLen = 200"

text \<open>Joining a continuation line to the last turn, as both grammars do.\<close>

definition extend_last :: "Turn list \<Rightarrow> string \<Rightarrow> Turn list" where
  "extend_last turns text =
     butlast turns @ [(last turns)\<lparr>turn_Text := TrimSpace (turn_Text (last turns) @ '' '' @ text)\<rparr>]"

section \<open>internal/interpret/claude.go\<close>

definition claudeBullet :: rune where "claudeBullet = 0x23FA"
definition claudeToolResult :: rune where "claudeToolResult = 0x23BF"
definition claudeInput :: rune where "claudeInput = 0x276F"

definition claudeSpinners :: "rune list" where
  "claudeSpinners = [0x273B, 0x273D, 0x2722, 0x2733, 0x2736, 0x2737, 0x2738, 0x2739, 0x273A, 0x2731, 0x2217,
     0x22C6, 0xB7]"

definition claudeContinuationIndent :: int where "claudeContinuationIndent = 2"

definition isInputRow :: "string \<Rightarrow> bool" where
  "isInputRow text = (if \<not> hasMarker text claudeInput then False else parseNumberedOption text = None)"

fun dropBannerRows :: "screenLine list \<Rightarrow> nat \<Rightarrow> nat \<times> screenLine list" where
  "dropBannerRows [] dropped = (dropped, [])"
| "dropBannerRows (l # ls) dropped =
     (if \<not> sl_framed l \<and> startsWithBoxGlyph (sl_text l) then dropBannerRows ls (dropped + 1)
      else let (d, out) = dropBannerRows ls dropped in (d, l # out))"

text \<open>The index of the last input row, looking at the \<open>n\<close> first rows from the end.\<close>

fun last_input :: "screenLine list \<Rightarrow> nat \<Rightarrow> nat option" where
  "last_input lines 0 = None"
| "last_input lines (Suc i) = (if isInputRow (sl_text (lines ! i)) then Some i else last_input lines i)"

definition truncateAtLastInput :: "screenLine list \<Rightarrow> nat \<Rightarrow> nat \<times> screenLine list" where
  "truncateAtLastInput lines dropped =
     (case last_input lines (length lines) of
        None \<Rightarrow> (dropped, lines)
      | Some cut' \<Rightarrow> (dropped + (length lines - cut'), take cut' lines))"

record claudeInteractionCarrier =
  car_Interaction :: Interaction
  car_headStart :: nat

definition maxBack :: nat where "maxBack = 40"

text \<open>
  The two backward walks. \<open>back\<close> is the reversed list of the lines above, so that the index the
  code has reached is \<open>length back - 1\<close>, and \<open>left\<close> is the number of steps that remain of \<open>maxBack\<close>.
\<close>

fun walk_detail :: "nat \<Rightarrow> string list \<Rightarrow> int \<Rightarrow> nat \<Rightarrow> string list \<Rightarrow> string \<times> string list \<times> nat" where
  "walk_detail left [] questionIndent headStart detail = ([], detail, headStart)"
| "walk_detail left (line # back) questionIndent headStart detail =
     (if left = 0 then ([], detail, headStart)
      else if isBlank line then walk_detail (left - 1) back questionIndent headStart detail
      else if looksLikeHint line then ([], detail, headStart)
      else if questionIndent \<ge> 0 \<and> indentOf line \<le> questionIndent then (TrimSpace line, detail, length back)
      else if questionIndent < 0 then (TrimSpace line, detail, length back)
      else walk_detail (left - 1) back questionIndent (length back) (detail @ [TrimSpace line]))"

definition claudeInteraction :: "string list \<Rightarrow> nat \<Rightarrow> numberedOption list \<Rightarrow> claudeInteractionCarrier" where
  "claudeInteraction lines start run =
     (let opts = toOptions run;
          back = dropWhile isBlank (rev (take start lines));
          (question, questionIndent, headStart, back) =
            (case back of
               [] \<Rightarrow> ([], - 1, start, [])
             | line # rest \<Rightarrow>
                 if HasSuffix (TrimSpace line) ''?'' \<and> \<not> looksLikeHint line
                 then (TrimSpace line, indentOf line, length rest, rest)
                 else ([], - 1, start, back));
          (title, detail, headStart) = walk_detail maxBack back questionIndent headStart []
      in \<lparr>car_Interaction = \<lparr>in_Kind = classifyInteraction opts, in_Title = title, in_Detail = rev detail,
             in_Question = question, in_Answerable = False, in_Options = opts, in_Diff = []\<rparr>,
          car_headStart = headStart\<rparr>)"

definition tool_rune :: "rune \<Rightarrow> bool" where
  "tool_rune r \<longleftrightarrow> 0x61 \<le> r \<and> r \<le> 0x7A \<or> 0x41 \<le> r \<and> r \<le> 0x5A \<or> 0x30 \<le> r \<and> r \<le> 0x39 \<or> r = 0x5F \<or> r = 0x2D"

definition isToolName :: "string \<Rightarrow> bool" where
  "isToolName s =
     (if s = [] \<or> length s > maxToolNameLen then False
      else case runes s of [] \<Rightarrow> True | r # rs \<Rightarrow> 0x41 \<le> r \<and> r \<le> 0x5A \<and> list_all tool_rune rs)"

definition claudeToolCall :: "string \<Rightarrow> (string \<times> string) option" where
  "claudeToolCall text =
     (case IndexByte text (CHR ''('') of
        None \<Rightarrow> None
      | Some open \<Rightarrow>
          if open = 0 \<or> \<not> HasSuffix text '')'' then None
          else
            let name = take open text in
            if \<not> isToolName name then None
            else Some (name, TrimSpace (take (length text - 1 - (open + 1)) (drop (open + 1) text))))"

definition claudeStatus :: "string \<Rightarrow> string option" where
  "claudeStatus line =
     (let r = runes (TrimLeft line blanks) in
      if r = [] \<or> hd r \<notin> set claudeSpinners then None
      else let text = TrimSpace (encode_runes (tl r)) in if text = [] then None else Some text)"

record claudeState =
  cs_turns :: "Turn list"
  cs_openIndent :: int
  cs_sawMarker :: bool
  cs_partialLead :: bool
  cs_dropped :: nat

definition appendText :: "claudeState \<Rightarrow> TurnKind \<Rightarrow> string \<Rightarrow> string \<Rightarrow> int \<Rightarrow> claudeState" where
  "appendText s kind tool text indent =
     s\<lparr>cs_turns := cs_turns s @ [\<lparr>turn_Kind = kind, turn_Tool = tool, turn_Text = text\<rparr>],
       cs_openIndent := (if kind = TurnStatus then - 1 else indent)\<rparr>"

definition drop_row :: "claudeState \<Rightarrow> claudeState" where
  "drop_row s = s\<lparr>cs_dropped := cs_dropped s + 1\<rparr>"

text \<open>A line joined to the last turn when it fits, counted as dropped otherwise.\<close>

definition continue_turn :: "Limits \<Rightarrow> claudeState \<Rightarrow> string \<Rightarrow> claudeState" where
  "continue_turn lim s line =
     (if int (length (turn_Text (last (cs_turns s))) + length line + 1) \<le> MaxTextLen lim
      then s\<lparr>cs_turns := extend_last (cs_turns s) (TrimSpace line)\<rparr>
      else drop_row s)"

definition claude_unmarked :: "Limits \<Rightarrow> claudeState \<Rightarrow> string \<Rightarrow> claudeState" where
  "claude_unmarked lim s line =
     (let indent = indentOf line in
      if cs_openIndent s \<ge> 0 \<and> indent \<ge> cs_openIndent s \<and> cs_turns s \<noteq> [] then continue_turn lim s line
      else if \<not> cs_sawMarker s \<and> indent \<ge> claudeContinuationIndent then
        (let s = s\<lparr>cs_partialLead := True\<rparr> in
         if cs_turns s = []
         then s\<lparr>cs_turns := [\<lparr>turn_Kind = TurnAgentText, turn_Tool = [], turn_Text = TrimSpace line\<rparr>],
                cs_openIndent := indent\<rparr>
         else continue_turn lim s line)
      else drop_row s)"

definition claude_row :: "Limits \<Rightarrow> claudeState \<Rightarrow> screenLine \<Rightarrow> claudeState" where
  "claude_row lim s row =
     (let line = sl_text row; indent = indentOf line; marked = s\<lparr>cs_sawMarker := True\<rparr> in
      if isBlank line then s\<lparr>cs_openIndent := - 1\<rparr>
      else
        case trimMarker line claudeBullet of
          Some text \<Rightarrow>
            (case claudeToolCall text of
               Some (tool, arg) \<Rightarrow> appendText marked TurnToolCall tool arg indent
             | None \<Rightarrow> appendText marked TurnAgentText [] text indent)
        | None \<Rightarrow>
            (case trimMarker line claudeToolResult of
               Some text \<Rightarrow> appendText marked TurnToolResult [] text indent
             | None \<Rightarrow>
                 (case claudeStatus line of
                    Some text \<Rightarrow> appendText marked TurnStatus [] text indent
                  | None \<Rightarrow>
                      if isInputRow line then (drop_row s)\<lparr>cs_openIndent := - 1\<rparr>
                      else claude_unmarked lim s line)))"

definition claudeTurns :: "screenLine list \<Rightarrow> Limits \<Rightarrow> nat \<Rightarrow> Turn list \<times> bool \<times> nat" where
  "claudeTurns lines lim dropped =
     (let s = foldl (claude_row lim) \<lparr>cs_turns = [], cs_openIndent = - 1, cs_sawMarker = False,
                cs_partialLead = False, cs_dropped = dropped\<rparr> lines
      in (cs_turns s, cs_partialLead s, cs_dropped s))"

definition parseClaude :: "string list \<Rightarrow> Limits \<Rightarrow> Result" where
  "parseClaude lines lim =
     (let (dropped, clean) = stripFrame lines 0;
          (dropped, clean) = dropBannerRows clean dropped;
          (dropped, clean) = truncateAtLastInput clean dropped;
          (act, body) =
            (case findNumberedBlock (texts clean) of
               None \<Rightarrow> (None, clean)
             | Some (start, _, run) \<Rightarrow>
                 let carrier = claudeInteraction (texts clean) start run;
                     cut' = (if car_headStart carrier < start then car_headStart carrier else start)
                 in (Some (car_Interaction carrier), take cut' clean));
          (turns, partialLead, dropped) = claudeTurns body lim dropped
      in \<lparr>res_Parser = [], res_Turns = turns, res_DroppedTurns = 0, res_DroppedLines = dropped,
          res_PartialLead = partialLead, res_Interaction = act\<rparr>)"


section \<open>internal/interpret/opencode.go\<close>

definition openCodeToolCall :: rune where "openCodeToolCall = 0x2192"
definition openCodeSearch :: rune where "openCodeSearch = 0x2731"
definition openCodeToolResult :: rune where "openCodeToolResult = 0x2190"
definition openCodeWorking :: rune where "openCodeWorking = 0x7E"
definition openCodeStatus :: rune where "openCodeStatus = 0x25A3"
definition openCodeWarning :: rune where "openCodeWarning = 0x25B3"
definition openCodeThought :: rune where "openCodeThought = 0x2B"

definition openCodePermissionHeading :: string where
  "openCodePermissionHeading = ''permission required''"

definition openCodeButtons :: "string list" where
  "openCodeButtons = [''Allow once'', ''Allow always'', ''Allow'', ''Reject'', ''Deny'']"

fun permission_at :: "string list \<Rightarrow> nat \<Rightarrow> nat option" where
  "permission_at lines 0 = None"
| "permission_at lines (Suc i) =
     (case trimMarker (lines ! i) openCodeWarning of
        None \<Rightarrow> permission_at lines i
      | Some text \<Rightarrow> if HasPrefix (ToLower text) openCodePermissionHeading then Some i else permission_at lines i)"

definition openCodePermissionAt :: "string list \<Rightarrow> nat option" where
  "openCodePermissionAt lines = permission_at lines (length lines)"

definition digit_byte :: "char \<Rightarrow> bool" where
  "digit_byte c \<longleftrightarrow> 0x30 \<le> ord c \<and> ord c \<le> 0x39"

definition parseOpenCodeDiffLine :: "string \<Rightarrow> DiffLine option" where
  "parseOpenCodeDiffLine line =
     (let t = TrimLeft line blanks;
          digits = takeWhile digit_byte t;
          num = foldl (\<lambda>n c. n * 10 + (ord c - 0x30)) 0 digits;
          rest = drop (length digits) t
      in if length digits > 7 then None
         else if digits = [] \<or> rest = [] then None
         else if hd rest \<notin> set blanks then None
         else
           let trimmed = TrimLeft rest blanks in
           if HasPrefix trimmed ''+ '' then Some \<lparr>dl_Line = num, dl_Op = DiffAdd, dl_Text = TrimSpace (drop 2 trimmed)\<rparr>
           else if HasPrefix trimmed ''- '' then Some \<lparr>dl_Line = num, dl_Op = DiffRemove, dl_Text = TrimSpace (drop 2 trimmed)\<rparr>
           else if HasPrefix rest ''  '' then Some \<lparr>dl_Line = num, dl_Op = DiffContext, dl_Text = TrimSpace rest\<rparr>
           else None)"

definition isOpenCodeButton :: "string \<Rightarrow> bool" where
  "isOpenCodeButton field = list_ex (\<lambda>b. EqualFold field b) openCodeButtons"

text \<open>\<open>cur\<close> is the text since \<open>start\<close>.\<close>

function split_double :: "string \<Rightarrow> string \<Rightarrow> string list" where
  "split_double cur [] = (if cur \<noteq> [] then [cur] else [])"
| "split_double cur (c # s) =
     (if c = CHR '' '' \<and> s \<noteq> [] \<and> hd s = CHR '' ''
      then (if cur \<noteq> [] then [cur] else []) @ split_double [] (dropWhile (\<lambda>b. b = CHR '' '') s)
      else split_double (cur @ [c]) s)"
  by pat_completeness auto
termination
  by (relation "measure (\<lambda>(cur, s). length s)") (auto intro: le_imp_less_Suc length_dropWhile_le)

definition splitOnDoubleSpace :: "string \<Rightarrow> string list" where
  "splitOnDoubleSpace s = split_double [] s"

fun button_fields :: "string list \<Rightarrow> string list \<Rightarrow> Option list" where
  "button_fields [] seen = []"
| "button_fields (f # fs) seen =
     (let field = TrimSpace f in
      if field = [] \<or> looksLikeHint field then button_fields fs seen
      else if \<not> isOpenCodeButton field \<or> field \<in> set seen then button_fields fs seen
      else \<lparr>opt_Label = field, opt_SendKey = []\<rparr> # button_fields fs (field # seen))"

definition parseOpenCodeButtons :: "string \<Rightarrow> Option list option" where
  "parseOpenCodeButtons line =
     (let trimmed = TrimSpace line in
      if trimmed = [] then None
      else if length (filter (\<lambda>b. Contains trimmed b) openCodeButtons) < 2 then None
      else
        let opts = button_fields (splitOnDoubleSpace trimmed) []
        in if length opts < 2 then None else Some opts)"

text \<open>The loop under the heading; the button row leaves it.\<close>

fun permission_body :: "Limits \<Rightarrow> string list \<Rightarrow> Interaction \<Rightarrow> Interaction" where
  "permission_body lim [] act = act"
| "permission_body lim (line # ls) act =
     (if isBlank line then permission_body lim ls act
      else
        case (if in_Title act = [] then trimMarker line openCodeToolCall else None) of
          Some text \<Rightarrow> permission_body lim ls (act\<lparr>in_Title := TrimSpace text\<rparr>)
        | None \<Rightarrow>
            (case parseOpenCodeDiffLine line of
               Some d \<Rightarrow>
                 permission_body lim ls
                   (if int (length (in_Diff act)) < MaxDiffLines lim then act\<lparr>in_Diff := in_Diff act @ [d]\<rparr> else act)
             | None \<Rightarrow>
                 (case parseOpenCodeButtons line of
                    Some opts \<Rightarrow> act\<lparr>in_Options := in_Options act @ opts\<rparr>
                  | None \<Rightarrow>
                      if looksLikeHint line then permission_body lim ls act
                      else
                        permission_body lim ls
                          (if int (length (in_Detail act)) < MaxDetail lim
                           then act\<lparr>in_Detail := in_Detail act @ [TrimSpace line]\<rparr> else act))))"

definition openCodeInteraction :: "string list \<Rightarrow> nat \<Rightarrow> Limits \<Rightarrow> Interaction" where
  "openCodeInteraction lines at lim =
     (let act = \<lparr>in_Kind = InteractionApproval, in_Title = [], in_Detail = [],
            in_Question = (case trimMarker (lines ! at) openCodeWarning of None \<Rightarrow> [] | Some text \<Rightarrow> TrimSpace text),
            in_Answerable = False, in_Options = [], in_Diff = []\<rparr>
      in (permission_body lim (drop (at + 1) lines) act)\<lparr>in_Answerable := False\<rparr>)"

definition splitOpenCodeTool :: "string \<Rightarrow> string \<times> string" where
  "splitOpenCodeTool text =
     (let first = firstWord text in
      if first = [] \<or> \<not> isToolName first then ([], TrimSpace text)
      else (first, TrimSpace (if HasPrefix text first then drop (length first) text else text)))"

record openCodeState =
  os_turns :: "Turn list"
  os_proseOpen :: bool
  os_dropped :: nat

definition push_turn :: "openCodeState \<Rightarrow> TurnKind \<Rightarrow> string \<Rightarrow> string \<Rightarrow> bool \<Rightarrow> openCodeState" where
  "push_turn s kind tool text open =
     s\<lparr>os_turns := os_turns s @ [\<lparr>turn_Kind = kind, turn_Tool = tool, turn_Text = text\<rparr>], os_proseOpen := open\<rparr>"

definition opencode_prose :: "Limits \<Rightarrow> openCodeState \<Rightarrow> string \<Rightarrow> openCodeState" where
  "opencode_prose lim s text =
     (if os_proseOpen s \<and> os_turns s \<noteq> [] then
        (if int (length (turn_Text (last (os_turns s))) + length text + 1) \<le> MaxTextLen lim
         then s\<lparr>os_turns := extend_last (os_turns s) text\<rparr>
         else s\<lparr>os_dropped := os_dropped s + 1\<rparr>)
      else push_turn s TurnAgentText [] text True)"

text \<open>The markers in the order the code tries them.\<close>

definition opencode_marked :: "string \<Rightarrow> (TurnKind \<times> string \<times> string) option" where
  "opencode_marked line =
     (case trimMarker line openCodeThought of
        Some text \<Rightarrow> Some (TurnStatus, [], text)
      | None \<Rightarrow>
     (case trimMarker line openCodeToolCall of
        Some text \<Rightarrow> (let (tool, arg) = splitOpenCodeTool text in Some (TurnToolCall, tool, arg))
      | None \<Rightarrow>
     (case trimMarker line openCodeSearch of
        Some text \<Rightarrow> (let (tool, arg) = splitOpenCodeTool text in Some (TurnToolCall, tool, arg))
      | None \<Rightarrow>
     (case trimMarker line openCodeToolResult of
        Some text \<Rightarrow> Some (TurnToolResult, [], text)
      | None \<Rightarrow>
     (case trimMarker line openCodeWorking of
        Some text \<Rightarrow> Some (TurnStatus, [], text)
      | None \<Rightarrow>
     (case trimMarker line openCodeStatus of
        Some text \<Rightarrow> Some (TurnStatus, [], text)
      | None \<Rightarrow> map_option (\<lambda>d. (TurnToolResult, [], dl_Text d)) (parseOpenCodeDiffLine line)))))))"

definition opencode_row :: "Limits \<Rightarrow> openCodeState \<Rightarrow> screenLine \<Rightarrow> openCodeState" where
  "opencode_row lim s row =
     (let line = sl_text row in
      if isBlank line then s\<lparr>os_proseOpen := False\<rparr>
      else if looksLikeHint line then s\<lparr>os_dropped := os_dropped s + 1, os_proseOpen := False\<rparr>
      else if sl_framed row then push_turn s TurnToolResult [] (TrimSpace line) False
      else case opencode_marked line of
        Some (kind, tool, text) \<Rightarrow> push_turn s kind tool text False
      | None \<Rightarrow> opencode_prose lim s (TrimSpace line))"

definition openCodeTurns :: "screenLine list \<Rightarrow> Limits \<Rightarrow> nat \<Rightarrow> Turn list \<times> nat" where
  "openCodeTurns lines lim dropped =
     (let s = foldl (opencode_row lim) \<lparr>os_turns = [], os_proseOpen = False, os_dropped = dropped\<rparr> lines
      in (os_turns s, os_dropped s))"

definition parseOpenCode :: "string list \<Rightarrow> Limits \<Rightarrow> Result" where
  "parseOpenCode lines lim =
     (let (dropped, clean) = stripFrame lines 0;
          (act, body) =
            (case openCodePermissionAt (texts clean) of
               None \<Rightarrow> (None, clean)
             | Some at \<Rightarrow> (Some (openCodeInteraction (texts clean) at lim), take at clean));
          (turns, dropped) = openCodeTurns body lim dropped
      in \<lparr>res_Parser = [], res_Turns = turns, res_DroppedTurns = 0, res_DroppedLines = dropped,
          res_PartialLead = False, res_Interaction = act\<rparr>)"

end
