(* ===== verification/Interpret.thy ===== *)
theory Interpret
  imports InterpretGrammars
begin

text \<open>
  Interpretation of a pane read (internal/interpret/interpret.go): the limits, the dispatch on the
  agent kind and the bounding pass every result goes through.
\<close>

section \<open>internal/interpret/interpret.go\<close>

definition ParserKinds :: "Kind list" where
  "ParserKinds = [KindClaude, KindOpenCode]"

definition Supported :: "string \<Rightarrow> bool" where
  "Supported s = list_ex (\<lambda>k. k = s) ParserKinds"

definition Empty :: "Result \<Rightarrow> bool" where
  "Empty r \<longleftrightarrow> res_Turns r = [] \<and> res_Interaction r = None"

definition DefaultLimits :: Limits where
  "DefaultLimits = \<lparr>MaxTurns = 60, MaxOptions = 12, MaxDetail = 12, MaxDiffLines = 60, MaxTextLen = 2000, MaxLines = 2000\<rparr>"

definition withDefaults :: "Limits \<Rightarrow> Limits" where
  "withDefaults l =
     (let d = DefaultLimits;
          l = (if MaxTurns l \<le> 0 then l\<lparr>MaxTurns := MaxTurns d\<rparr> else l);
          l = (if MaxOptions l \<le> 0 then l\<lparr>MaxOptions := MaxOptions d\<rparr> else l);
          l = (if MaxDetail l \<le> 0 then l\<lparr>MaxDetail := MaxDetail d\<rparr> else l);
          l = (if MaxDiffLines l \<le> 0 then l\<lparr>MaxDiffLines := MaxDiffLines d\<rparr> else l);
          l = (if MaxTextLen l \<le> 0 then l\<lparr>MaxTextLen := MaxTextLen d\<rparr> else l);
          l = (if MaxLines l \<le> 0 then l\<lparr>MaxLines := MaxLines d\<rparr> else l)
      in l)"

text \<open>The two ways a slice is cut to a limit.\<close>

definition keep_head :: "int \<Rightarrow> 'a list \<Rightarrow> 'a list" where
  "keep_head n xs = (if int (length xs) > n then take (nat n) xs else xs)"

definition keep_tail :: "int \<Rightarrow> 'a list \<Rightarrow> 'a list" where
  "keep_tail n xs = (if int (length xs) > n then drop (nat (int (length xs) - n)) xs else xs)"

definition splitLines :: "string \<Rightarrow> int \<Rightarrow> string list" where
  "splitLines text maxLines =
     (if text = [] then []
      else
        let lines = Split text (CHR 0x0A)
        in keep_tail maxLines lines)"

definition clamp :: "string \<Rightarrow> nat \<Rightarrow> string" where
  "clamp s maxBytes =
     (if s = [] then []
      else
        let s = TrimSpace (SanitizeLogLine s) in
        if length s \<le> maxBytes then s
        else TrimSpace (take (back_to_start s maxBytes) s))"

definition bound_turn :: "nat \<Rightarrow> Turn \<Rightarrow> Turn option" where
  "bound_turn maxText t =
     (let t = t\<lparr>turn_Text := clamp (turn_Text t) maxText, turn_Tool := clamp (turn_Tool t) maxToolNameLen\<rparr>
      in if turn_Text t = [] \<and> turn_Tool t = [] then None else Some t)"

definition bound_option :: "Option \<Rightarrow> Option option" where
  "bound_option o' =
     (let o' = o'\<lparr>opt_Label := clamp (opt_Label o') maxOptionLabelLen\<rparr>;
          o' = (if \<not> validSendKey (opt_SendKey o') then o'\<lparr>opt_SendKey := []\<rparr> else o')
      in if opt_Label o' = [] then None else Some o')"

definition bound_interaction :: "Limits \<Rightarrow> Interaction \<Rightarrow> Interaction option" where
  "bound_interaction lim act =
     (let maxText = nat (MaxTextLen lim);
          act = act\<lparr>in_Title := clamp (in_Title act) maxText, in_Question := clamp (in_Question act) maxText\<rparr>;
          act = act\<lparr>in_Detail := filter (\<lambda>d. d \<noteq> []) (map (\<lambda>d. clamp d maxText) (keep_head (MaxDetail lim) (in_Detail act)))\<rparr>;
          act = act\<lparr>in_Options := List.map_filter bound_option (keep_head (MaxOptions lim) (in_Options act))\<rparr>;
          act = act\<lparr>in_Answerable := in_Options act \<noteq> [] \<and> list_all (\<lambda>o'. opt_SendKey o' \<noteq> []) (in_Options act)\<rparr>;
          act = act\<lparr>in_Diff := map (\<lambda>d. d\<lparr>dl_Text := clamp (dl_Text d) maxText\<rparr>) (keep_tail (MaxDiffLines lim) (in_Diff act))\<rparr>
      in if in_Title act = [] \<and> in_Question act = [] \<and> in_Options act = [] then None else Some act)"

definition bound :: "Result \<Rightarrow> Limits \<Rightarrow> Result" where
  "bound res lim =
     (let n = int (length (res_Turns res));
          res = res\<lparr>res_DroppedTurns := res_DroppedTurns res + (if n > MaxTurns lim then nat (n - MaxTurns lim) else 0),
                    res_Turns := keep_tail (MaxTurns lim) (res_Turns res)\<rparr>;
          res = res\<lparr>res_Turns := List.map_filter (bound_turn (nat (MaxTextLen lim))) (res_Turns res)\<rparr>
      in case res_Interaction res of
           None \<Rightarrow> res
         | Some act \<Rightarrow> res\<lparr>res_Interaction := bound_interaction lim act\<rparr>)"

definition Parse :: "Kind \<Rightarrow> string \<Rightarrow> Limits \<Rightarrow> Result option" where
  "Parse kind text lim =
     (let lim = withDefaults lim; lines = splitLines text (MaxLines lim) in
      if lines = [] then None
      else
        case (if kind = KindClaude then Some (parseClaude lines lim)
              else if kind = KindOpenCode then Some (parseOpenCode lines lim) else None) of
          None \<Rightarrow> None
        | Some res \<Rightarrow>
            let res = bound (res\<lparr>res_Parser := kind\<rparr>) lim
            in if Empty res then None else Some res)"

section \<open>Emitted strings\<close>

text \<open>What every string of a result satisfies: valid UTF-8 of printable runes, trimmed, within its bound.\<close>

definition display_text :: "nat \<Rightarrow> string \<Rightarrow> bool" where
  "display_text n s \<longleftrightarrow> length s \<le> n \<and> valid_utf8 s \<and> list_all line_clean (runes s) \<and> trim_runes (runes s) = runes s"

lemma display_text_encode:
  assumes "valid_runes rs" "list_all line_clean rs" "length (encode_runes (trim_runes rs)) \<le> n"
  shows "display_text n (encode_runes (trim_runes rs))"
proof -
  have "list_all line_clean (trim_runes rs)" using assms(2) set_trim_runes [of rs] by (auto simp: list_all_iff)
  then show ?thesis using assms by (simp add: display_text_def rune_simps valid_utf8_encode_runes)
qed

lemma display_text_Nil [simp]: "display_text n []"
  by (simp add: display_text_def valid_utf8_def)

lemma clamp_display_text [simp]: "display_text n (clamp s n)"
proof -
  obtain rs where s: "SanitizeLogLine s = encode_runes rs" and v: "valid_runes rs" and c: "list_all line_clean rs"
    using SanitizeLogLine_runes by blast
  let ?t = "encode_runes (trim_runes rs)"
  have t: "TrimSpace (SanitizeLogLine s) = ?t" using s v by (simp add: trim_simps)
  show ?thesis
  proof (cases "length ?t \<le> n")
    case True
    then show ?thesis using t v c by (simp add: clamp_def display_text_encode)
  next
    case False
    obtain k where "truncateUTF8 ?t n = encode_runes (take k (trim_runes rs))"
      using truncateUTF8_encode_runes by blast
    then have k: "take (back_to_start ?t n) ?t = encode_runes (take k (trim_runes rs))"
      using False by (simp add: truncateUTF8_def)
    let ?q = "take k (trim_runes rs)"
    have sub: "set ?q \<subseteq> set rs" using set_take_subset set_trim_runes by fastforce
    have q: "valid_runes ?q" "list_all line_clean ?q" using v c sub by (auto simp: valid_runes_def list_all_iff)
    have "length (encode_runes (trim_runes ?q)) \<le> length (encode_runes ?q)"
      using TrimSpace_length [of "encode_runes ?q"] q(1) by (simp add: trim_simps)
    also have "\<dots> \<le> n" using truncateUTF8_length [of ?t n] False k by (simp add: truncateUTF8_def)
    finally show ?thesis using False t k q by (simp add: clamp_def trim_simps display_text_encode)
  qed
qed

lemma clamp_length: "length (clamp s n) \<le> n"
  using clamp_display_text [of n s] by (simp add: display_text_def del: clamp_display_text)


section \<open>Bounds of a result\<close>

definition turn_ok :: "nat \<Rightarrow> Turn \<Rightarrow> bool" where
  "turn_ok n t \<longleftrightarrow> display_text n (turn_Text t) \<and> display_text maxToolNameLen (turn_Tool t) \<and>
     (turn_Text t \<noteq> [] \<or> turn_Tool t \<noteq> [])"

definition option_ok :: "Option \<Rightarrow> bool" where
  "option_ok o' \<longleftrightarrow> display_text maxOptionLabelLen (opt_Label o') \<and> opt_Label o' \<noteq> [] \<and>
     (opt_SendKey o' = [] \<or> validSendKey (opt_SendKey o'))"

definition interaction_ok :: "Limits \<Rightarrow> Interaction \<Rightarrow> bool" where
  "interaction_ok lim act \<longleftrightarrow>
     display_text (nat (MaxTextLen lim)) (in_Title act) \<and> display_text (nat (MaxTextLen lim)) (in_Question act) \<and>
     int (length (in_Detail act)) \<le> MaxDetail lim \<and>
     list_all (\<lambda>d. d \<noteq> [] \<and> display_text (nat (MaxTextLen lim)) d) (in_Detail act) \<and>
     int (length (in_Options act)) \<le> MaxOptions lim \<and> list_all option_ok (in_Options act) \<and>
     int (length (in_Diff act)) \<le> MaxDiffLines lim \<and>
     list_all (\<lambda>d. display_text (nat (MaxTextLen lim)) (dl_Text d)) (in_Diff act)"

definition positive_limits :: "Limits \<Rightarrow> bool" where
  "positive_limits lim \<longleftrightarrow> 0 < MaxTurns lim \<and> 0 < MaxOptions lim \<and> 0 < MaxDetail lim \<and> 0 < MaxDiffLines lim \<and>
     0 < MaxTextLen lim \<and> 0 < MaxLines lim"

lemma withDefaults_positive [simp]: "positive_limits (withDefaults lim)"
  by (simp add: positive_limits_def withDefaults_def Let_def DefaultLimits_def)

lemma map_filter_length: "length (List.map_filter f xs) \<le> length xs"
  by (simp add: map_filter_def)

lemma map_filter_all: "(\<And>x y. x \<in> set xs \<Longrightarrow> f x = Some y \<Longrightarrow> P y) \<Longrightarrow> list_all P (List.map_filter f xs)"
  by (auto simp: map_filter_def list_all_iff)

lemma bound_turn_ok: "bound_turn n t = Some t' \<Longrightarrow> turn_ok n t'"
  by (auto simp: bound_turn_def Let_def turn_ok_def split: if_splits)

lemma bound_option_ok: "bound_option o' = Some o'' \<Longrightarrow> option_ok o''"
  by (auto simp: bound_option_def Let_def option_ok_def split: if_splits)

lemma keep_head_length: "0 \<le> n \<Longrightarrow> int (length (keep_head n xs)) \<le> n"
  by (simp add: keep_head_def)

lemma keep_tail_length: "0 \<le> n \<Longrightarrow> int (length (keep_tail n xs)) \<le> n"
  by (simp add: keep_tail_def)

lemma bound_interaction_fields:
  assumes "bound_interaction lim act = Some act'"
  shows "in_Kind act' = in_Kind act" "in_Title act' = clamp (in_Title act) (nat (MaxTextLen lim))"
    "in_Question act' = clamp (in_Question act) (nat (MaxTextLen lim))"
    "in_Detail act' = filter (\<lambda>d. d \<noteq> []) (map (\<lambda>d. clamp d (nat (MaxTextLen lim))) (keep_head (MaxDetail lim) (in_Detail act)))"
    "in_Options act' = List.map_filter bound_option (keep_head (MaxOptions lim) (in_Options act))"
    "in_Answerable act' \<longleftrightarrow> in_Options act' \<noteq> [] \<and> list_all (\<lambda>o'. opt_SendKey o' \<noteq> []) (in_Options act')"
    "in_Diff act' = map (\<lambda>d. d\<lparr>dl_Text := clamp (dl_Text d) (nat (MaxTextLen lim))\<rparr>) (keep_tail (MaxDiffLines lim) (in_Diff act))"
  using assms unfolding bound_interaction_def Let_def by (auto split: if_splits)

lemma bound_interaction_ok:
  assumes "positive_limits lim" "bound_interaction lim act = Some act'"
  shows "interaction_ok lim act'"
proof -
  note f = bound_interaction_fields [OF assms(2)]
  have pos: "0 \<le> MaxOptions lim" "0 \<le> MaxDetail lim" "0 \<le> MaxDiffLines lim"
    using assms(1) by (simp_all add: positive_limits_def)
  have "int (length (in_Detail act')) \<le> MaxDetail lim"
    using keep_head_length [OF pos(2), of "in_Detail act"]
      length_filter_le [of "\<lambda>d. d \<noteq> []" "map (\<lambda>d. clamp d (nat (MaxTextLen lim))) (keep_head (MaxDetail lim) (in_Detail act))"]
    unfolding f(4) length_map by linarith
  moreover have "int (length (in_Options act')) \<le> MaxOptions lim"
    using keep_head_length [OF pos(1), of "in_Options act"] map_filter_length [of bound_option "keep_head (MaxOptions lim) (in_Options act)"]
    unfolding f(5) by linarith
  moreover have "list_all option_ok (in_Options act')"
    unfolding f(5) by (rule map_filter_all) (rule bound_option_ok)
  moreover have "int (length (in_Diff act')) \<le> MaxDiffLines lim" by (simp add: f(7) keep_tail_length [OF pos(3)])
  ultimately show ?thesis unfolding interaction_ok_def f(2,3,4,7) by (auto simp: list_all_iff)
qed

lemma bound_fields:
  "res_Turns (bound r lim) = List.map_filter (bound_turn (nat (MaxTextLen lim))) (keep_tail (MaxTurns lim) (res_Turns r))"
  "res_Interaction (bound r lim) = Option.bind (res_Interaction r) (bound_interaction lim)"
  "res_Parser (bound r lim) = res_Parser r" "res_DroppedLines (bound r lim) = res_DroppedLines r"
  "res_PartialLead (bound r lim) = res_PartialLead r"
  by (simp_all add: bound_def Let_def split: option.split)

lemma bound_ok:
  assumes "positive_limits lim"
  shows "int (length (res_Turns (bound r lim))) \<le> MaxTurns lim"
    "list_all (turn_ok (nat (MaxTextLen lim))) (res_Turns (bound r lim))"
    "case res_Interaction (bound r lim) of None \<Rightarrow> True | Some act \<Rightarrow> interaction_ok lim act"
proof -
  have "0 \<le> MaxTurns lim" using assms by (simp add: positive_limits_def)
  from keep_tail_length [OF this, of "res_Turns r"]
  show "int (length (res_Turns (bound r lim))) \<le> MaxTurns lim"
    using map_filter_length [of "bound_turn (nat (MaxTextLen lim))" "keep_tail (MaxTurns lim) (res_Turns r)"]
    unfolding bound_fields by linarith
  show "list_all (turn_ok (nat (MaxTextLen lim))) (res_Turns (bound r lim))"
    unfolding bound_fields by (rule map_filter_all) (rule bound_turn_ok)
  show "case res_Interaction (bound r lim) of None \<Rightarrow> True | Some act \<Rightarrow> interaction_ok lim act"
    using bound_interaction_ok [OF assms] by (cases "res_Interaction r") (auto simp: bound_fields split: option.split)
qed

lemma Parse_Some:
  assumes "Parse kind text lim = Some res"
  obtains r where "res = bound (r\<lparr>res_Parser := kind\<rparr>) (withDefaults lim)" "\<not> Empty res"
    "kind = KindClaude \<and> r = parseClaude (splitLines text (MaxLines (withDefaults lim))) (withDefaults lim) \<or>
     kind = KindOpenCode \<and> r = parseOpenCode (splitLines text (MaxLines (withDefaults lim))) (withDefaults lim)"
  using assms by (auto simp: Parse_def Let_def split: if_splits)


section \<open>Answering a prompt\<close>

end
