(* ===== verification/InterpretKeys.thy ===== *)
theory InterpretKeys
  imports Interpret "HOL-Library.Code_Target_Nat" "HOL-Library.Code_Target_Int"
begin

text \<open>
  What the interpreter may offer to send: the option block it anchors on, the keys of a Claude
  prompt, the absence of keys in an OpenCode prompt, and evaluated example screens.
\<close>

section \<open>The live option block\<close>

definition opens_block :: "string list \<Rightarrow> nat \<Rightarrow> bool" where
  "opens_block lines i \<longleftrightarrow> Suc i < length lines \<and> map_option fst (parseNumberedOption (lines ! i)) = Some 1 \<and>
     map_option fst (parseNumberedOption (lines ! Suc i)) = Some 2"

lemma option_run_spec:
  "length (option_run ls j w) \<le> length ls \<and>
   (\<forall>k < length (option_run ls j w). parseNumberedOption (ls ! k) = Some (w + k, no_label (option_run ls j w ! k)) \<and>
      no_ordinal (option_run ls j w ! k) = w + k \<and> no_at (option_run ls j w ! k) = j + k) \<and>
   (length (option_run ls j w) < length ls \<longrightarrow>
      map_option fst (parseNumberedOption (ls ! length (option_run ls j w))) \<noteq> Some (w + length (option_run ls j w)))"
proof (induction ls j w rule: option_run.induct)
  case (2 l ls j w)
  show ?case
  proof (cases "map_option fst (parseNumberedOption l) = Some w")
    case True
    then obtain label where p: "parseNumberedOption l = Some (w, label)" by (cases "parseNumberedOption l") auto
    then show ?thesis using "2.IH" [OF p refl] by (auto simp: nth_Cons' less_Suc_eq_0_disj)
  next
    case False
    then have "option_run (l # ls) j w = []" by (auto split: option.splits)
    then show ?thesis using False by simp
  qed
qed simp

lemma option_run_nonempty: "option_run ls j w \<noteq> [] \<longleftrightarrow> ls \<noteq> [] \<and> map_option fst (parseNumberedOption (ls ! 0)) = Some w"
  by (cases ls) (auto split: option.splits)

lemma find_block_spec:
  assumes "n \<le> length lines"
  shows "case find_block lines n of
      None \<Rightarrow> \<forall>i<n. \<not> opens_block lines i
    | Some (start, fin, run) \<Rightarrow> start < n \<and> opens_block lines start \<and> (\<forall>i<n. opens_block lines i \<longrightarrow> i \<le> start) \<and>
        run = option_run (drop start lines) start 1 \<and> fin = start + length run"
  using assms
proof (induction n)
  case (Suc i)
  let ?p = "parseNumberedOption (lines ! i)"
  have d: "drop i lines = lines ! i # drop (Suc i) lines" using Suc.prems by (simp add: Cons_nth_drop_Suc)
  have hd: "drop (Suc i) lines \<noteq> [] \<and> map_option fst (parseNumberedOption (drop (Suc i) lines ! 0)) = Some 2 \<longleftrightarrow>
      Suc i < length lines \<and> map_option fst (parseNumberedOption (lines ! Suc i)) = Some 2"
    by (cases "Suc i < length lines") simp_all
  show ?case
  proof (cases "opens_block lines i")
    case True
    then obtain label where p: "?p = Some (1, label)" by (cases ?p) (auto simp: opens_block_def)
    let ?run = "\<lparr>no_ordinal = 1, no_label = label, no_at = i\<rparr> # option_run (drop (Suc i) lines) (Suc i) 2"
    have "option_run (drop (Suc i) lines) (Suc i) 2 \<noteq> []"
      using True hd by (simp add: option_run_nonempty opens_block_def)
    moreover have "option_run (drop i lines) i 1 = ?run" by (simp add: d p numeral_2_eq_2)
    ultimately have "find_block lines (Suc i) = Some (i, i + length ?run, ?run)"
      by (simp add: p minNumberedOptions_def Let_def Suc_le_eq numeral_2_eq_2)
    then show ?thesis using True \<open>option_run (drop i lines) i 1 = ?run\<close> by (auto simp: less_Suc_eq_le)
  next
    case False
    then have "option_run (drop (Suc i) lines) (Suc i) 2 = []" if "?p = Some (1, label)" for label
      using that hd option_run_nonempty [of "drop (Suc i) lines" "Suc i" 2] unfolding opens_block_def
      by (metis fst_conv option.simps(9))
    then have "find_block lines (Suc i) = find_block lines i"
      by (auto simp: minNumberedOptions_def Let_def split: option.split)
    then show ?thesis using Suc False by (auto simp: less_Suc_eq split: option.splits)
  qed
qed simp

text \<open>
  The interaction is anchored on the last option list of the screen. A block is found exactly when
  some line numbered 1 is followed by a line numbered 2; the one returned starts at the last such line,
  its ordinals count up from 1 without a gap, one per line, and it cannot be extended.
\<close>

theorem findNumberedBlock_last:
  "(findNumberedBlock lines = None \<longleftrightarrow> (\<forall>i. \<not> opens_block lines i)) \<and>
   (\<forall>start fin run. findNumberedBlock lines = Some (start, fin, run) \<longrightarrow>
      opens_block lines start \<and> (\<forall>i. opens_block lines i \<longrightarrow> i \<le> start) \<and>
      fin = start + length run \<and> 2 \<le> length run \<and> fin \<le> length lines \<and>
      (\<forall>k<length run. parseNumberedOption (lines ! (start + k)) = Some (k + 1, no_label (run ! k)) \<and> no_ordinal (run ! k) = k + 1) \<and>
      (fin < length lines \<longrightarrow> map_option fst (parseNumberedOption (lines ! fin)) \<noteq> Some (length run + 1)))"
proof -
  have lt: "opens_block lines i \<Longrightarrow> i < length lines" for i by (simp add: opens_block_def)
  note spec = find_block_spec [OF order_refl, of lines, folded findNumberedBlock_def]
  have "opens_block lines start \<and> (\<forall>i. opens_block lines i \<longrightarrow> i \<le> start) \<and>
      fin = start + length run \<and> 2 \<le> length run \<and> fin \<le> length lines \<and>
      (\<forall>k<length run. parseNumberedOption (lines ! (start + k)) = Some (k + 1, no_label (run ! k)) \<and> no_ordinal (run ! k) = k + 1) \<and>
      (fin < length lines \<longrightarrow> map_option fst (parseNumberedOption (lines ! fin)) \<noteq> Some (length run + 1))"
    if f: "findNumberedBlock lines = Some (start, fin, run)" for start fin run
  proof -
    have s: "start < length lines" "opens_block lines start" "\<forall>i. opens_block lines i \<longrightarrow> i \<le> start"
      "run = option_run (drop start lines) start 1" "fin = start + length run"
      using spec f lt by auto
    note r = option_run_spec [of "drop start lines" start 1, folded s(4)]
    have nth: "drop start lines ! k = lines ! (start + k)" for k using s(1) by simp
    obtain a b rest where ab: "drop start lines = a # b # rest"
      using s(2) by (metis Cons_nth_drop_Suc Suc_lessD opens_block_def)
    then have "a = lines ! start" "b = lines ! Suc start" using nth [of 0] nth [of 1] by simp_all
    then have "2 \<le> length run" using s(2,4) ab by (auto simp: opens_block_def Suc_le_eq numeral_2_eq_2)
    moreover have "fin \<le> length lines" using r s(1,5) by (simp add: le_diff_conv2)
    ultimately show ?thesis using s r by (auto simp: nth add.commute)
  qed
  then show ?thesis using spec lt by (auto split: option.splits)
qed


section \<open>Answer keys\<close>

definition sendkey :: "nat \<Rightarrow> string" where
  "sendkey k = (if 1 \<le> k \<and> k \<le> 9 then [char_of (0x30 + k)] else [])"

lemma ord_digit: "k \<le> 9 \<Longrightarrow> ord (char_of (0x30 + k)) = 0x30 + k"
  by (rule ord_char_of) simp

lemma sendkey_valid: "sendkey k \<noteq> [] \<Longrightarrow> validSendKey (sendkey k)"
  by (auto simp: sendkey_def validSendKey_def ord_digit split: if_splits)

lemma to_option_key: "opt_SendKey (to_option o') = sendkey (no_ordinal o')" "opt_Label (to_option o') = no_label o'"
  using sendkey_valid [of "no_ordinal o'"] by (auto simp: to_option_def Let_def sendkey_def split: if_splits)

lemma sendkey_inject: "sendkey j = sendkey k \<Longrightarrow> sendkey j \<noteq> [] \<Longrightarrow> j = k"
proof -
  assume eq: "sendkey j = sendkey k" and ne: "sendkey j \<noteq> []"
  have b: "j \<le> 9" "k \<le> 9" "1 \<le> j" "1 \<le> k" using eq ne by (auto simp: sendkey_def split: if_splits)
  then have "ord (char_of (0x30 + j)) = ord (char_of (0x30 + k))" using eq by (simp add: sendkey_def)
  then show ?thesis using b by (simp only: ord_digit add_left_cancel)
qed

lemma bound_option_to_option:
  "bound_option (to_option o') = Some o'' \<Longrightarrow>
     opt_Label o'' = clamp (no_label o') maxOptionLabelLen \<and> opt_SendKey o'' = sendkey (no_ordinal o')"
  using sendkey_valid [of "no_ordinal o'"]
  by (cases "sendkey (no_ordinal o') = []") (auto simp: bound_option_def Let_def to_option_key split: if_splits)

lemma bounded_keys:
  "map opt_SendKey (List.map_filter bound_option (map to_option run)) =
     map (sendkey \<circ> no_ordinal) (filter (\<lambda>o'. bound_option (to_option o') \<noteq> None) run)"
  by (induction run) (auto simp: map_filter_simps bound_option_to_option split: option.splits)

text \<open>The rows in which the Claude grammar looks for a prompt.\<close>

definition claude_rows :: "string list \<Rightarrow> string list" where
  "claude_rows lines =
     (let (d, clean) = stripFrame lines 0; (d, clean) = dropBannerRows clean d; (d, clean) = truncateAtLastInput clean d
      in texts clean)"

lemma parseClaude_interaction:
  "res_Interaction (parseClaude lines lim) =
     map_option (\<lambda>(start, fin, run). car_Interaction (claudeInteraction (claude_rows lines) start run)) (findNumberedBlock (claude_rows lines))"
  by (simp add: parseClaude_def claude_rows_def Let_def split_beta split: option.split)

lemma claudeInteraction_options: "in_Options (car_Interaction (claudeInteraction lines start run)) = map to_option run"
  by (simp add: claudeInteraction_def Let_def split_beta toOptions_def)

lemma distinct_sendkeys:
  assumes "distinct (map no_ordinal run)"
  shows "distinct (filter (\<lambda>k. k \<noteq> []) (map (sendkey \<circ> no_ordinal) run))"
  using assms
proof (induction run)
  case (Cons o' run)
  have "sendkey (no_ordinal o') \<notin> sendkey ` no_ordinal ` set run" if "sendkey (no_ordinal o') \<noteq> []"
    using Cons.prems sendkey_inject [OF _ that] by auto
  then show ?case using Cons by auto
qed simp

text \<open>
  C34: the screen chooses which options appear, never what answering one would send. In a published
  Claude prompt every option comes from one screen line with its number and label, its key is the digit
  of that number (or none above 9), no two options share a key, and the prompt is answerable exactly
  when there is an option and every option has a key.
\<close>

theorem Claude_keys:
  assumes "Parse KindClaude text lim = Some res" "res_Interaction res = Some act"
    "rows = claude_rows (splitLines text (MaxLines (withDefaults lim)))"
  shows "(\<forall>o'\<in>set (in_Options act). \<exists>row\<in>set rows. \<exists>k label. parseNumberedOption row = Some (k, label) \<and>
        opt_Label o' = clamp label maxOptionLabelLen \<and> opt_SendKey o' = sendkey k) \<and>
    distinct (filter (\<lambda>k. k \<noteq> []) (map opt_SendKey (in_Options act))) \<and>
    (in_Answerable act \<longleftrightarrow> in_Options act \<noteq> [] \<and> (\<forall>o'\<in>set (in_Options act). validSendKey (opt_SendKey o')))"
proof -
  let ?lim = "withDefaults lim" and ?lines = "splitLines text (MaxLines (withDefaults lim))"
  obtain r where r: "res = bound (r\<lparr>res_Parser := KindClaude\<rparr>) ?lim" "r = parseClaude ?lines ?lim"
    using assms(1) by (rule Parse_Some) (auto simp: KindClaude_def KindOpenCode_def)
  obtain raw where raw: "res_Interaction r = Some raw" "bound_interaction ?lim raw = Some act"
    using assms(2) r(1) by (auto simp: bound_fields bind_eq_Some_conv)
  obtain start fin run where f: "findNumberedBlock rows = Some (start, fin, run)" "in_Options raw = map to_option run"
    using raw(1) by (auto simp: r(2) parseClaude_interaction claudeInteraction_options simp flip: assms(3))
  note last = findNumberedBlock_last [of rows, THEN conjunct2, rule_format, OF f(1)]
  define n where "n = nat (MaxOptions ?lim)"
  have opts: "in_Options act = List.map_filter bound_option (map to_option (if int (length run) > MaxOptions ?lim then take n run else run))"
    by (simp add: bound_interaction_fields [OF raw(2)] f(2) keep_head_def n_def take_map)
  define run' where "run' = (if int (length run) > MaxOptions ?lim then take n run else run)"
  have sub: "\<exists>k<length run. o' = run ! k" if "o' \<in> set run'" for o'
  proof -
    have "o' \<in> set run" using that unfolding run'_def by (auto split: if_splits dest: in_set_takeD)
    then show ?thesis by (auto simp: in_set_conv_nth)
  qed
  have src: "\<exists>row\<in>set rows. \<exists>k label. parseNumberedOption row = Some (k, label) \<and>
      opt_Label o'' = clamp label maxOptionLabelLen \<and> opt_SendKey o'' = sendkey k"
    if o'': "o'' \<in> set (in_Options act)" for o''
  proof -
    obtain o' where o': "o' \<in> set run'" "bound_option (to_option o') = Some o''"
      using o'' by (auto simp: opts run'_def map_filter_def)
    obtain k where k: "k < length run" "o' = run ! k" using sub [OF o'(1)] by blast
    have "rows ! (start + k) \<in> set rows" using last k(1) by (intro nth_mem) linarith
    moreover have "parseNumberedOption (rows ! (start + k)) = Some (k + 1, no_label o')" "no_ordinal o' = k + 1"
      using last k by blast+
    ultimately show ?thesis using bound_option_to_option [OF o'(2)]
      by (intro bexI [of _ "rows ! (start + k)"] exI [of _ "k + 1"] exI [of _ "no_label o'"]) simp_all
  qed
  have ords: "map no_ordinal run = [1..<Suc (length run)]"
    using last by (intro nth_equalityI) (auto simp del: upt_Suc)
  then have "distinct (map no_ordinal run')"
    by (simp add: run'_def take_map [symmetric] distinct_take del: upt_Suc)
  then have "distinct (map no_ordinal (filter (\<lambda>o'. bound_option (to_option o') \<noteq> None) run'))" by (rule distinct_map_filter)
  then have d: "distinct (filter (\<lambda>k. k \<noteq> []) (map opt_SendKey (in_Options act)))"
    unfolding opts run'_def [symmetric] bounded_keys by (rule distinct_sendkeys)
  have "opt_SendKey o' \<noteq> [] \<longleftrightarrow> validSendKey (opt_SendKey o')" if "o' \<in> set (in_Options act)" for o'
    using src [OF that] sendkey_valid by (auto simp: validSendKey_def)
  then have "in_Answerable act \<longleftrightarrow> in_Options act \<noteq> [] \<and> (\<forall>o'\<in>set (in_Options act). validSendKey (opt_SendKey o'))"
    by (auto simp: bound_interaction_fields(6) [OF raw(2)] list_all_iff)
  then show ?thesis using src d by blast
qed


section \<open>OpenCode prompts\<close>

lemma button_fields_keys: "list_all (\<lambda>o'. opt_SendKey o' = []) (button_fields fs seen)"
  by (induction fs seen rule: button_fields.induct) (auto simp: Let_def)

lemma parseOpenCodeButtons_keys: "parseOpenCodeButtons line = Some opts \<Longrightarrow> list_all (\<lambda>o'. opt_SendKey o' = []) opts"
  using button_fields_keys by (auto simp: parseOpenCodeButtons_def Let_def split: if_splits)

lemma permission_body_keys:
  "list_all (\<lambda>o'. opt_SendKey o' = []) (in_Options act) \<Longrightarrow> list_all (\<lambda>o'. opt_SendKey o' = []) (in_Options (permission_body lim ls act))"
  by (induction ls arbitrary: act) (auto split: option.splits if_splits dest: parseOpenCodeButtons_keys)

lemma permission_body_diff:
  "int (length (in_Diff act)) \<le> MaxDiffLines lim \<Longrightarrow> int (length (in_Diff (permission_body lim ls act))) \<le> MaxDiffLines lim"
  by (induction ls arbitrary: act) (auto split: option.splits if_splits)

lemma openCodeInteraction_props:
  "list_all (\<lambda>o'. opt_SendKey o' = []) (in_Options (openCodeInteraction lines at lim))"
  "0 \<le> MaxDiffLines lim \<Longrightarrow> int (length (in_Diff (openCodeInteraction lines at lim))) \<le> MaxDiffLines lim"
  by (auto simp: openCodeInteraction_def Let_def intro!: permission_body_keys permission_body_diff)

lemma bound_option_no_key: "opt_SendKey o' = [] \<Longrightarrow> bound_option o' = Some o'' \<Longrightarrow> opt_SendKey o'' = []"
  by (auto simp: bound_option_def Let_def split: if_splits)

text \<open>
  An OpenCode prompt is never answerable and offers no key: its highlighted button cannot be seen in
  text mode, so nothing may be sent on its behalf.
\<close>

theorem OpenCode_never_answerable:
  assumes "Parse KindOpenCode text lim = Some res" "res_Interaction res = Some act"
  shows "\<not> in_Answerable act \<and> (\<forall>o'\<in>set (in_Options act). opt_SendKey o' = []) \<and> in_Kind act = InteractionApproval"
proof -
  let ?lim = "withDefaults lim" and ?lines = "splitLines text (MaxLines (withDefaults lim))"
  obtain r where r: "res = bound (r\<lparr>res_Parser := KindOpenCode\<rparr>) ?lim" "r = parseOpenCode ?lines ?lim"
    using assms(1) by (rule Parse_Some) (auto simp: KindClaude_def KindOpenCode_def)
  obtain raw where raw: "res_Interaction r = Some raw" "bound_interaction ?lim raw = Some act"
    using assms(2) r(1) by (auto simp: bound_fields bind_eq_Some_conv)
  obtain rows at where o: "raw = openCodeInteraction rows at ?lim"
    using raw(1) by (auto simp: r(2) parseOpenCode_def Let_def split_beta split: option.splits)
  have k: "list_all (\<lambda>o'. opt_SendKey o' = []) (in_Options raw)" unfolding o by (rule openCodeInteraction_props)
  have keys: "opt_SendKey o'' = []" if o'': "o'' \<in> set (in_Options act)" for o''
  proof -
    obtain o' where "o' \<in> set (keep_head (MaxOptions ?lim) (in_Options raw))" "bound_option o' = Some o''"
      using o'' by (auto simp: bound_interaction_fields(5) [OF raw(2)] map_filter_def)
    moreover from this have "o' \<in> set (in_Options raw)" by (auto simp: keep_head_def split: if_splits dest: in_set_takeD)
    ultimately show ?thesis using k bound_option_no_key by (auto simp: list_all_iff)
  qed
  have kind: "in_Kind (permission_body l ls a) = in_Kind a" for l ls a
    by (induction ls arbitrary: a) (auto split: option.splits if_splits)
  have "\<not> in_Answerable act"
    using keys by (cases "in_Options act") (auto simp: bound_interaction_fields(6) [OF raw(2)])
  then show ?thesis using keys by (simp add: bound_interaction_fields(1) [OF raw(2)] o openCodeInteraction_def Let_def kind)
qed

text \<open>
  A long diff keeps its head, not its tail. The OpenCode parser stops collecting diff lines at the
  limit, so the bounding pass, which would keep the last ones, never has any to drop.
\<close>

theorem OpenCode_diff_head:
  assumes "0 \<le> MaxDiffLines lim"
  shows "keep_tail (MaxDiffLines lim) (in_Diff (openCodeInteraction lines at lim)) = in_Diff (openCodeInteraction lines at lim)"
  using openCodeInteraction_props(2) [OF assms, of lines at] by (simp add: keep_tail_def)

theorem OpenCode_diff_head_witness:
  "keep_tail 1 (in_Diff (openCodeInteraction [[]] 0 (DefaultLimits\<lparr>MaxDiffLines := 1\<rparr>))) =
     in_Diff (openCodeInteraction [[]] 0 (DefaultLimits\<lparr>MaxDiffLines := 1\<rparr>))"
  using OpenCode_diff_head [of "DefaultLimits\<lparr>MaxDiffLines := 1\<rparr>" "[[]]" 0] by simp


section \<open>Example screens\<close>

definition example_claude :: string where
  "example_claude = ''Bash command'' @ [CHR 0x0A] @ ''  rm x'' @ [CHR 0x0A] @ ''Proceed?'' @ [CHR 0x0A] @ ''> 1. Yes'' @ [CHR 0x0A] @ ''  2. No''"

definition example_opencode :: string where
  "example_opencode = encode_rune 0x25B3 @ ''Permission required'' @ [CHR 0x0A] @ ''1 + a'' @ [CHR 0x0A] @ ''Allow once   Reject''"

lemma example_claude_parsed: "map_option (map opt_SendKey \<circ> in_Options) (Option.bind (Parse KindClaude example_claude DefaultLimits) res_Interaction) = Some [''1'', ''2'']"
  by code_simp

lemma example_opencode_parsed: "map_option (map opt_Label \<circ> in_Options) (Option.bind (Parse KindOpenCode example_opencode DefaultLimits) res_Interaction) = Some [''Allow once'', ''Reject'']"
  by code_simp

lemma example_claude_obtain:
  obtains res act where "Parse KindClaude example_claude DefaultLimits = Some res" "res_Interaction res = Some act"
    "map opt_SendKey (in_Options act) = [''1'', ''2'']"
  using example_claude_parsed by (auto simp: bind_eq_Some_conv)

theorem findNumberedBlock_last_witness:
  "map_option (\<lambda>(start, fin, run). (start, fin)) (findNumberedBlock [''1. a'', ''2. b'', ''x'', ''> 1. c'', ''2. d'']) = Some (3, 5) \<and>
   \<not> opens_block [''1. a'', ''2. b'', ''x'', ''> 1. c'', ''2. d''] 4"
proof -
  let ?L = "[''1. a'', ''2. b'', ''x'', ''> 1. c'', ''2. d'']"
  have "map_option (\<lambda>(start, fin, run). (start, fin)) (findNumberedBlock ?L) = Some (3, 5)" by code_simp
  moreover from this obtain run where "findNumberedBlock ?L = Some (3, 5, run)" by (auto split: prod.splits)
  then have "\<forall>i. opens_block ?L i \<longrightarrow> i \<le> 3"
    using findNumberedBlock_last [of ?L, THEN conjunct2, rule_format, of 3 5 run] by blast
  then have "\<not> opens_block ?L 4" by auto
  ultimately show ?thesis by blast
qed


theorem Claude_keys_witness:
  "\<exists>res act. Parse KindClaude example_claude DefaultLimits = Some res \<and> res_Interaction res = Some act \<and> in_Answerable act"
proof -
  obtain res act where e: "Parse KindClaude example_claude DefaultLimits = Some res" "res_Interaction res = Some act"
    "map opt_SendKey (in_Options act) = [''1'', ''2'']" by (rule example_claude_obtain)
  have "\<forall>k\<in>opt_SendKey ` set (in_Options act). validSendKey k"
    using arg_cong [OF e(3), of set] by (simp add: validSendKey_def)
  moreover have "in_Options act \<noteq> []" using e(3) by auto
  ultimately have "in_Answerable act" using Claude_keys [OF e(1,2) refl, THEN conjunct2, THEN conjunct2] by simp
  then show ?thesis using e by blast
qed

theorem OpenCode_never_answerable_witness:
  "\<exists>res act. Parse KindOpenCode example_opencode DefaultLimits = Some res \<and> res_Interaction res = Some act \<and>
     in_Options act \<noteq> [] \<and> \<not> in_Answerable act"
proof -
  obtain res act where e: "Parse KindOpenCode example_opencode DefaultLimits = Some res" "res_Interaction res = Some act"
    "map opt_Label (in_Options act) = [''Allow once'', ''Reject'']"
    using example_opencode_parsed by (auto simp: bind_eq_Some_conv)
  then show ?thesis using OpenCode_never_answerable [OF e(1,2)] by auto
qed

text \<open>
  Prose can be dropped as chrome. A sentence of the agent that merely contains the word \<open>select\<close>
  reads as a keyboard hint and one that ends in \<open>mode on\<close> as a status bar; both disappear from the
  published turns.
\<close>

theorem OpenCode_drops_prose:
  "map_option (\<lambda>r. map turn_Text (res_Turns r))
     (Parse KindOpenCode (''Done.'' @ [CHR 0x0A] @ ''Now select a theme'' @ [CHR 0x0A] @ ''and turn dark mode on'') DefaultLimits) =
   Some [''Done.'']"
  by code_simp

end
