(* ===== verification/Base64.thy ===== *)
theory Base64
  imports GoStrings
begin

text \<open>
  Unpadded URL-safe base64 (\<open>base64.RawURLEncoding\<close>), as the relay uses it for session identifiers,
  CSRF tokens, confirmation nonces and the pairing secret.
\<close>

section \<open>The alphabet\<close>

definition b64_char :: "nat \<Rightarrow> char" where
  "b64_char k = char_of
     (if k < 26 then 0x41 + k else if k < 52 then 0x61 + (k - 26) else if k < 62 then 0x30 + (k - 52)
      else if k = 62 then 0x2D else 0x5F :: nat)"

definition b64_value :: "char \<Rightarrow> nat option" where
  "b64_value c =
     (let n = ord c in
      if 0x41 \<le> n \<and> n \<le> 0x5A then Some (n - 0x41)
      else if 0x61 \<le> n \<and> n \<le> 0x7A then Some (n - 0x61 + 26)
      else if 0x30 \<le> n \<and> n \<le> 0x39 then Some (n - 0x30 + 52)
      else if n = 0x2D then Some 62 else if n = 0x5F then Some 63 else None)"

lemma ord_b64_char:
  "k < 64 \<Longrightarrow> ord (b64_char k) =
     (if k < 26 then 0x41 + k else if k < 52 then 0x61 + (k - 26) else if k < 62 then 0x30 + (k - 52)
      else if k = 62 then 0x2D else 0x5F)"
  by (auto simp: b64_char_def)

lemma b64_value_char [simp]: "k < 64 \<Longrightarrow> b64_value (b64_char k) = Some k"
  by (auto simp: b64_value_def ord_b64_char Let_def)

section \<open>Encoding and decoding\<close>

fun sextets :: "string \<Rightarrow> nat list" where
  "sextets [] = []"
| "sextets [a] = [ord a div 4, ord a mod 4 * 16]"
| "sextets [a, b] = [ord a div 4, ord a mod 4 * 16 + ord b div 16, ord b mod 16 * 4]"
| "sextets (a # b # c # s) =
     ord a div 4 # (ord a mod 4 * 16 + ord b div 16) # (ord b mod 16 * 4 + ord c div 64) # ord c mod 64 # sextets s"

definition EncodeToString :: "string \<Rightarrow> string" where
  "EncodeToString s = map b64_char (sextets s)"

text \<open>The last sextets may carry bits that no byte takes; a decoder that is not strict ignores them.\<close>

fun from_sextets :: "nat list \<Rightarrow> string option" where
  "from_sextets [] = Some []"
| "from_sextets [x] = None"
| "from_sextets [x, y] = Some [char_of (x * 4 + y div 16)]"
| "from_sextets [x, y, z] = Some [char_of (x * 4 + y div 16), char_of (y mod 16 * 16 + z div 4)]"
| "from_sextets (x # y # z # w # xs) =
     map_option (\<lambda>s. char_of (x * 4 + y div 16) # char_of (y mod 16 * 16 + z div 4) # char_of (z mod 4 * 64 + w) # s)
       (from_sextets xs)"

fun b64_values :: "string \<Rightarrow> nat list option" where
  "b64_values [] = Some []"
| "b64_values (c # s) =
     (case b64_value c of None \<Rightarrow> None | Some k \<Rightarrow> map_option (\<lambda>ks. k # ks) (b64_values s))"

text \<open>Carriage returns and newlines are skipped; any other character outside the alphabet is an error.\<close>

definition DecodeString :: "string \<Rightarrow> string option" where
  "DecodeString s =
     (case b64_values (filter (\<lambda>c. c \<noteq> CHR 0x0A \<and> c \<noteq> CHR 0x0D) s) of
        None \<Rightarrow> None | Some ks \<Rightarrow> from_sextets ks)"

section \<open>Round trip\<close>

lemma ord_div: "ord c div 4 < 64" "ord c div 16 < 16" "ord c div 64 < 4"
  using ord_less_256 [of c] by linarith+

lemma ord_pieces:
  "ord a mod 4 * 16 + ord b div 16 < 64" "ord b mod 16 * 4 + ord c div 64 < 64"
  "(ord a mod 4 * 16 + ord b div 16) div 16 = ord a mod 4" "(ord a mod 4 * 16 + ord b div 16) mod 16 = ord b div 16"
  "(ord b mod 16 * 4 + ord c div 64) div 4 = ord b mod 16" "(ord b mod 16 * 4 + ord c div 64) mod 4 = ord c div 64"
  using ord_div(2) [of b] ord_div(3) [of c] mod_less_divisor [of 4 "ord a"] mod_less_divisor [of 16 "ord b"]
  by (auto simp: div_add1_eq)

lemma sextets_small: "k \<in> set (sextets s) \<Longrightarrow> k < 64"
proof (induction s rule: sextets.induct)
  case (4 a b c s)
  show ?case using 4 ord_div(1) [of a] ord_pieces(1) [of a b] ord_pieces(2) [of b c] by auto
next
  case (3 a b)
  then show ?case using ord_div(1) [of a] ord_pieces(1) [of a b] by auto
next
  case (2 a)
  then show ?case using ord_div(1) [of a] by auto
qed simp

lemma from_sextets_sextets: "from_sextets (sextets s) = Some s"
proof (induction s rule: sextets.induct)
  case (4 a b c s)
  show ?case using 4 ord_div(2) [of b] ord_div(3) [of c] by (simp add: ord_pieces)
next
  case (3 a b)
  show ?case using ord_div(2) [of b] by (simp add: ord_pieces)
qed simp_all

lemma b64_values_map: "(\<And>k. k \<in> set ks \<Longrightarrow> k < 64) \<Longrightarrow> b64_values (map b64_char ks) = Some ks"
  by (induction ks) auto

lemma b64_char_plain: "k < 64 \<Longrightarrow> b64_char k \<noteq> CHR 0x0A \<and> b64_char k \<noteq> CHR 0x0D \<and> ord (b64_char k) > 0x20 \<and> ord (b64_char k) < 0x80"
proof -
  assume "k < 64"
  then have "0x20 < ord (b64_char k) \<and> ord (b64_char k) < 0x80" by (auto simp: ord_b64_char)
  then show ?thesis by auto
qed

lemma EncodeToString_plain: "c \<in> set (EncodeToString s) \<Longrightarrow> c \<noteq> CHR 0x0A \<and> c \<noteq> CHR 0x0D \<and> 0x20 < ord c \<and> ord c < 0x80"
  using b64_char_plain sextets_small by (auto simp: EncodeToString_def)

lemma Decode_Encode [simp]: "DecodeString (EncodeToString s) = Some s"
proof -
  have "filter (\<lambda>c. c \<noteq> CHR 0x0A \<and> c \<noteq> CHR 0x0D) (EncodeToString s) = EncodeToString s"
    using EncodeToString_plain by (auto simp: filter_id_conv)
  moreover have "b64_values (EncodeToString s) = Some (sextets s)"
    unfolding EncodeToString_def by (rule b64_values_map) (rule sextets_small)
  ultimately show ?thesis by (simp add: DecodeString_def from_sextets_sextets)
qed

end
