(* ===== verification/SingleUse.thy ===== *)
theory SingleUse
  imports Prelude
begin

text \<open>
  The contract shared by the relay's one-time credentials: the pairing secret of internal/auth and
  the confirmation nonces of internal/server.
\<close>

section \<open>The contract of a single-use credential\<close>

text \<open>
  A store of credentials driven by operations: \<open>holds s t\<close> says that \<open>t\<close> would still be accepted,
  \<open>accepts s op t\<close> that the operation is answered with success on account of \<open>t\<close>, \<open>issues s op t\<close>
  that it makes \<open>t\<close> valid. The laws are local; the counting argument over whole runs is made once.
\<close>

locale single_use =
  fixes step :: "'s \<Rightarrow> 'op \<Rightarrow> 's"
    and accepts :: "'s \<Rightarrow> 'op \<Rightarrow> 't \<Rightarrow> bool"
    and issues :: "'s \<Rightarrow> 'op \<Rightarrow> 't \<Rightarrow> bool"
    and holds :: "'s \<Rightarrow> 't \<Rightarrow> bool"
  assumes accepts_held: "accepts s op t \<Longrightarrow> holds s t"
    and held_after: "holds (step s op) t \<Longrightarrow> issues s op t \<or> holds s t \<and> \<not> accepts s op t"
begin

fun accepted :: "'s \<Rightarrow> 'op list \<Rightarrow> 't \<Rightarrow> nat" where
  "accepted s [] t = 0"
| "accepted s (op # ops) t = (if accepts s op t then 1 else 0) + accepted (step s op) ops t"

fun issued :: "'s \<Rightarrow> 'op list \<Rightarrow> 't \<Rightarrow> nat" where
  "issued s [] t = 0"
| "issued s (op # ops) t = (if issues s op t then 1 else 0) + issued (step s op) ops t"

lemma accepted_le: "accepted s ops t \<le> (if holds s t then 1 else 0) + issued s ops t"
proof (induction ops arbitrary: s)
  case (Cons op ops)
  have "accepted (step s op) ops t \<le> (if holds (step s op) t then 1 else 0) + issued (step s op) ops t" by (rule Cons)
  moreover have "(if accepts s op t then 1 else 0) + (if holds (step s op) t then 1 else 0) \<le>
      (if holds s t then 1 else 0) + (if issues s op t then 1 else 0 :: nat)"
    using accepts_held [of s op t] held_after [of s op t] by auto
  ultimately show ?case by simp
qed simp

lemma at_most_once: "\<not> holds s t \<Longrightarrow> issued s ops t \<le> 1 \<Longrightarrow> accepted s ops t \<le> 1"
  using accepted_le [of s ops t] by simp

end

end
