(* ===== verification/AuthPairing.thy ===== *)
theory AuthPairing
  imports Base64 SingleUse
begin

text \<open>
  The pairing secret (internal/auth/pairing.go). What \<open>io.ReadFull\<close> draws from the entropy source is an
  argument of each operation that reads it; a short read is a failure. The constant-time comparison is
  equality of byte strings.
\<close>

section \<open>internal/auth/pairing.go\<close>

definition pairingSecretBytes :: nat where "pairingSecretBytes = 32"

record Pairing =
  pr_secret :: string
  pr_invalidated :: bool

text \<open>A draw from the entropy source: \<open>None\<close> when it fails.\<close>

type_synonym entropy = "string option"

definition ErrEntropy :: string where "ErrEntropy = ''auth: entropy failure''"

definition rotateLocked :: "entropy \<Rightarrow> Pairing \<Rightarrow> Pairing \<times> string option" where
  "rotateLocked r p =
     (case r of
        None \<Rightarrow> (p, Some ErrEntropy)
      | Some buf \<Rightarrow> (p\<lparr>pr_secret := buf, pr_invalidated := False\<rparr>, None))"

definition NewPairing :: "entropy \<Rightarrow> string + Pairing" where
  "NewPairing r =
     (case rotateLocked r \<lparr>pr_secret = [], pr_invalidated = False\<rparr> of
        (p, Some err) \<Rightarrow> Inl err
      | (p, None) \<Rightarrow> Inr p)"

definition Rotate :: "entropy \<Rightarrow> Pairing \<Rightarrow> Pairing \<times> string option" where
  "Rotate r p = rotateLocked r p"

definition Token :: "Pairing \<Rightarrow> string" where
  "Token p = EncodeToString (pr_secret p)"

definition ConstantTimeCompare :: "string \<Rightarrow> string \<Rightarrow> bool" where
  "ConstantTimeCompare x y \<longleftrightarrow> x = y"

definition Verify :: "entropy \<Rightarrow> string \<Rightarrow> Pairing \<Rightarrow> Pairing \<times> bool" where
  "Verify r provided p =
     (if pr_invalidated p then (p, False)
      else case DecodeString (TrimSpace provided) of
        None \<Rightarrow> (p, False)
      | Some decoded \<Rightarrow>
          if \<not> ConstantTimeCompare decoded (pr_secret p) then (p, False)
          else (case rotateLocked r p of
                  (p, Some err) \<Rightarrow> (p\<lparr>pr_invalidated := True\<rparr>, False)
                | (p, None) \<Rightarrow> (p, True)))"

definition Link :: "string \<Rightarrow> string \<Rightarrow> string" where
  "Link baseURL token = TrimRight (TrimSpace baseURL) ''/'' @ ''/#pair='' @ token"

definition PairingLink :: "Pairing \<Rightarrow> string \<Rightarrow> string" where
  "PairingLink p baseURL = Link baseURL (Token p)"

section \<open>Single use\<close>

datatype pairing_op = OpVerify entropy string | OpRotate entropy

definition pairing_step :: "Pairing \<Rightarrow> pairing_op \<Rightarrow> Pairing" where
  "pairing_step p op = (case op of OpVerify r s \<Rightarrow> fst (Verify r s p) | OpRotate r \<Rightarrow> fst (Rotate r p))"

definition pairing_accepts :: "Pairing \<Rightarrow> pairing_op \<Rightarrow> string \<Rightarrow> bool" where
  "pairing_accepts p op t =
     (case op of OpVerify r s \<Rightarrow> snd (Verify r s p) \<and> DecodeString (TrimSpace s) = Some t | OpRotate r \<Rightarrow> False)"

text \<open>An operation issues a secret when it draws it: a rotation, or the rotation inside a success.\<close>

definition pairing_issues :: "Pairing \<Rightarrow> pairing_op \<Rightarrow> string \<Rightarrow> bool" where
  "pairing_issues p op t =
     (case op of OpVerify r s \<Rightarrow> snd (Verify r s p) \<and> r = Some t | OpRotate r \<Rightarrow> r = Some t)"

definition pairing_holds :: "Pairing \<Rightarrow> string \<Rightarrow> bool" where
  "pairing_holds p t \<longleftrightarrow> \<not> pr_invalidated p \<and> pr_secret p = t"

lemma Verify_match:
  assumes "\<not> pr_invalidated p" "DecodeString (TrimSpace s) = Some (pr_secret p)"
  shows "Verify (Some buf) s p = (\<lparr>pr_secret = buf, pr_invalidated = False\<rparr>, True)"
    "Verify None s p = (p\<lparr>pr_invalidated := True\<rparr>, False)"
  using assms by (cases p; simp add: Verify_def rotateLocked_def ConstantTimeCompare_def)+

lemma Verify_reject:
  "pr_invalidated p \<or> DecodeString (TrimSpace s) \<noteq> Some (pr_secret p) \<Longrightarrow> Verify r s p = (p, False)"
  by (auto simp: Verify_def ConstantTimeCompare_def split: option.split)

lemma Verify_True:
  "snd (Verify r s p) \<Longrightarrow> \<not> pr_invalidated p \<and> DecodeString (TrimSpace s) = Some (pr_secret p) \<and> r \<noteq> None"
  by (cases "pr_invalidated p \<or> DecodeString (TrimSpace s) \<noteq> Some (pr_secret p)"; cases r)
    (auto simp: Verify_reject Verify_match)

lemma Verify_False: "\<not> snd (Verify r s p) \<Longrightarrow> fst (Verify r s p) = p \<or> pr_invalidated (fst (Verify r s p))"
  by (cases "pr_invalidated p \<or> DecodeString (TrimSpace s) \<noteq> Some (pr_secret p)"; cases r)
    (auto simp: Verify_reject Verify_match)

interpretation pairing: single_use pairing_step pairing_accepts pairing_issues pairing_holds
proof
  fix p op t
  show "pairing_accepts p op t \<Longrightarrow> pairing_holds p t"
    by (cases op) (auto simp: pairing_accepts_def pairing_holds_def dest: Verify_True)
  show "pairing_holds (pairing_step p op) t \<Longrightarrow> pairing_issues p op t \<or> pairing_holds p t \<and> \<not> pairing_accepts p op t"
  proof (cases op)
    case (OpVerify r s)
    assume h: "pairing_holds (pairing_step p op) t"
    show ?thesis
    proof (cases "snd (Verify r s p)")
      case True
      then obtain buf where "r = Some buf" "Verify r s p = (\<lparr>pr_secret = buf, pr_invalidated = False\<rparr>, True)"
        using Verify_True [OF True] Verify_match(1) [of p s] by auto
      then show ?thesis using h OpVerify by (simp add: pairing_step_def pairing_issues_def pairing_holds_def)
    next
      case False
      then show ?thesis using h OpVerify Verify_False [OF False]
        by (auto simp: pairing_step_def pairing_accepts_def pairing_holds_def)
    qed
  qed (auto simp: pairing_step_def pairing_issues_def pairing_accepts_def pairing_holds_def Rotate_def rotateLocked_def split: option.splits)
qed

text \<open>How often, in a run of operations, a secret was exchanged for a session and how often it was drawn.\<close>

fun exchanges :: "Pairing \<Rightarrow> pairing_op list \<Rightarrow> string \<Rightarrow> nat" where
  "exchanges p [] t = 0"
| "exchanges p (op # ops) t = (if pairing_accepts p op t then 1 else 0) + exchanges (pairing_step p op) ops t"

fun draws :: "Pairing \<Rightarrow> pairing_op list \<Rightarrow> string \<Rightarrow> nat" where
  "draws p [] t = 0"
| "draws p (op # ops) t = (if pairing_issues p op t then 1 else 0) + draws (pairing_step p op) ops t"

lemma exchanges_eq: "exchanges p ops t = pairing.accepted p ops t" and draws_eq: "draws p ops t = pairing.issued p ops t"
  by (induction ops arbitrary: p) simp_all

text \<open>
  A pairing link pairs once. Over any sequence of verifications and rotations, with an entropy source
  that may fail at any draw, a secret is exchanged for a session at most as often as it was drawn; in
  particular the current secret at most once, unless the entropy source draws it again.
\<close>

theorem pairing_single_use:
  "exchanges p ops t \<le> (if pairing_holds p t then 1 else 0) + draws p ops t"
  unfolding exchanges_eq draws_eq by (rule pairing.accepted_le)

lemma TrimSpace_plain:
  assumes "\<forall>c\<in>set s. 0x20 < ord c \<and> ord c < 0x80"
  shows "TrimSpace s = s"
proof -
  have "encode_runes (map ord s) = s" using assms by (induction s) (auto simp: encode_rune_ascii)
  moreover have "valid_runes (map ord s)" using assms by (auto simp: valid_runes_def valid_rune_def)
  moreover have "\<not> IsSpace (ord c)" if "c \<in> set s" for c using assms that by (auto simp: IsSpace_def)
  then have "trim_runes (map ord s) = map ord s" by (intro trim_runes_id) (auto simp: hd_map last_map)
  ultimately show ?thesis by (metis TrimSpace_encode_runes)
qed

text \<open>
  The link in force works, and fails closed. The token the daemon publishes is accepted when the next
  draw succeeds, and then replaced by that draw; when the draw fails the exchange is refused, and every
  later one too, whatever is presented, until a rotation succeeds. Any other text leaves the secret.
\<close>

theorem Verify_current:
  "\<not> pr_invalidated p \<Longrightarrow> Verify (Some buf) (Token p) p = (\<lparr>pr_secret = buf, pr_invalidated = False\<rparr>, True) \<and>
   Verify None (Token p) p = (p\<lparr>pr_invalidated := True\<rparr>, False) \<and>
   (\<forall>r s. Verify r s (p\<lparr>pr_invalidated := True\<rparr>) = (p\<lparr>pr_invalidated := True\<rparr>, False)) \<and>
   (\<forall>r s. DecodeString (TrimSpace s) \<noteq> Some (pr_secret p) \<longrightarrow> Verify r s p = (p, False))"
proof -
  assume i: "\<not> pr_invalidated p"
  have "DecodeString (TrimSpace (Token p)) = Some (pr_secret p)"
    using EncodeToString_plain by (simp add: Token_def TrimSpace_plain)
  then show ?thesis using Verify_match [OF i] Verify_reject by simp
qed

theorem Verify_current_witness:
  "Verify (Some ''new'') (Token \<lparr>pr_secret = ''old'', pr_invalidated = False\<rparr>) \<lparr>pr_secret = ''old'', pr_invalidated = False\<rparr> =
     (\<lparr>pr_secret = ''new'', pr_invalidated = False\<rparr>, True)"
  using Verify_current [of "\<lparr>pr_secret = ''old'', pr_invalidated = False\<rparr>" "''new''"] by simp

end
