(* ===== verification/AuthSession.thy ===== *)
theory AuthSession
  imports Base64 "HOL-Library.AList" "HOL-Library.Multiset" "HOL-Library.Product_Lexorder"
begin

text \<open>
  Sessions and CSRF tokens (internal/auth/session.go, internal/auth/csrf.go). The map of sessions is
  an association list with distinct keys: its order is the order in which a \<open>range\<close> over the Go map
  visits it, which the language leaves open. Clock readings and entropy draws are arguments.
\<close>

section \<open>internal/auth/session.go\<close>

record Identity =
  id_Email :: string
  id_CommonName :: string
  id_Quick :: bool

definition Display :: "Identity \<Rightarrow> string" where
  "Display i =
     (if id_Quick i then ''Quick Tunnel operator''
      else if id_Email i \<noteq> [] then id_Email i
      else if id_CommonName i \<noteq> [] then id_CommonName i
      else ''unknown'')"

record Session =
  s_ID :: string
  s_AuditID :: string
  s_CSRFToken :: string
  s_Identity :: Identity
  s_CreatedAt :: gotime
  s_ExpiresAt :: gotime
  s_LastSeen :: gotime

record SessionStore =
  sessions :: "(string \<times> Session) list"
  ttl :: duration
  idle :: duration

definition minJanitorInterval :: duration where "minJanitorInterval = 1000000000"

definition NewSessionStore :: "duration \<Rightarrow> duration \<Rightarrow> SessionStore" where
  "NewSessionStore t i = \<lparr>sessions = [], ttl = t, idle = i\<rparr>"

text \<open>One token of the entropy source; the buffer it fills has the requested size.\<close>

definition randomToken :: "string option \<Rightarrow> string option" where
  "randomToken r = map_option EncodeToString r"

text \<open>The zero \<open>time.Time\<close> is the instant 0.\<close>

definition IsZero :: "gotime \<Rightarrow> bool" where
  "IsZero t \<longleftrightarrow> t = 0"

definition Create ::
  "string option \<times> string option \<times> string option \<Rightarrow> gotime \<Rightarrow> Identity \<Rightarrow> gotime \<Rightarrow> SessionStore \<Rightarrow> SessionStore \<times> Session option" where
  "Create r now i hardExpiry st =
     (let (r1, r2, r3) = r in
      case randomToken r1 of None \<Rightarrow> (st, None) | Some sid \<Rightarrow>
      (case randomToken r2 of None \<Rightarrow> (st, None) | Some csrf \<Rightarrow>
      (case randomToken r3 of None \<Rightarrow> (st, None) | Some auditID \<Rightarrow>
        let expires = now + ttl st;
            expires = (if \<not> IsZero hardExpiry \<and> hardExpiry < expires then hardExpiry else expires);
            sess = \<lparr>s_ID = sid, s_AuditID = auditID, s_CSRFToken = csrf, s_Identity = i, s_CreatedAt = now,
                     s_ExpiresAt = expires, s_LastSeen = now\<rparr>
        in (st\<lparr>sessions := AList.update sid sess (sessions st)\<rparr>, Some sess))))"

definition expiredLocked :: "SessionStore \<Rightarrow> gotime \<Rightarrow> Session \<Rightarrow> bool" where
  "expiredLocked st now sess =
     (if \<not> now < s_ExpiresAt sess then True
      else if idle st > 0 \<and> now - s_LastSeen sess > idle st then True
      else False)"

definition Get :: "gotime \<Rightarrow> string \<Rightarrow> SessionStore \<Rightarrow> SessionStore \<times> Session option" where
  "Get now i st =
     (if i = [] then (st, None)
      else case map_of (sessions st) i of
        None \<Rightarrow> (st, None)
      | Some sess \<Rightarrow>
          if expiredLocked st now sess then (st\<lparr>sessions := AList.delete i (sessions st)\<rparr>, None)
          else
            let sess = sess\<lparr>s_LastSeen := now\<rparr>
            in (st\<lparr>sessions := AList.update i sess (sessions st)\<rparr>, Some sess))"

definition IdentitySubject :: "Identity \<Rightarrow> string" where
  "IdentitySubject i = (if id_Quick i then [] else if id_Email i \<noteq> [] then id_Email i else id_CommonName i)"

text \<open>One iteration over a session that has not expired; the loop's deletions are the filter below.\<close>

definition pick_best :: "string \<Rightarrow> (string \<times> Session) option \<Rightarrow> string \<times> Session \<Rightarrow> (string \<times> Session) option" where
  "pick_best key best e =
     (if IdentitySubject (s_Identity (snd e)) \<noteq> key then best
      else case best of
        None \<Rightarrow> Some e
      | Some b \<Rightarrow>
          if s_CreatedAt (snd e) > s_CreatedAt (snd b) \<or>
             s_CreatedAt (snd e) = s_CreatedAt (snd b) \<and> s_ID (snd e) > s_ID (snd b)
          then Some e else best)"

definition live_sessions :: "SessionStore \<Rightarrow> gotime \<Rightarrow> (string \<times> Session) list" where
  "live_sessions st now = filter (\<lambda>(sid, sess). \<not> expiredLocked st now sess) (sessions st)"

definition GetByIdentity :: "gotime \<Rightarrow> Identity \<Rightarrow> SessionStore \<Rightarrow> SessionStore \<times> Session option" where
  "GetByIdentity now i st =
     (let key = IdentitySubject i in
      if key = [] then (st, None)
      else
        let st' = st\<lparr>sessions := live_sessions st now\<rparr> in
        case foldl (pick_best key) None (sessions st') of
          None \<Rightarrow> (st', None)
        | Some (sid, best) \<Rightarrow>
            let best = best\<lparr>s_LastSeen := now\<rparr>
            in (st'\<lparr>sessions := AList.update sid best (sessions st')\<rparr>, Some best))"

definition Delete :: "string \<Rightarrow> SessionStore \<Rightarrow> SessionStore" where
  "Delete i st = st\<lparr>sessions := AList.delete i (sessions st)\<rparr>"

definition GC :: "gotime \<Rightarrow> SessionStore \<Rightarrow> SessionStore \<times> nat" where
  "GC now st =
     (st\<lparr>sessions := live_sessions st now\<rparr>,
      length (filter (\<lambda>(sid, sess). expiredLocked st now sess) (sessions st)))"

definition Len :: "SessionStore \<Rightarrow> nat" where
  "Len st = length (sessions st)"

definition janitor_interval :: "duration \<Rightarrow> duration" where
  "janitor_interval i = (if i < minJanitorInterval then minJanitorInterval else i)"

section \<open>internal/auth/csrf.go\<close>

definition ValidCSRF :: "string \<Rightarrow> string \<Rightarrow> bool" where
  "ValidCSRF expected provided = (if expected = [] \<or> provided = [] then False else expected = provided)"

text \<open>\<open>header\<close> is the value of the request's CSRF header, empty when it is absent.\<close>

definition ValidateRequestCSRF :: "gotime \<Rightarrow> string \<Rightarrow> string \<Rightarrow> SessionStore \<Rightarrow> SessionStore \<times> bool" where
  "ValidateRequestCSRF now header sessionID st =
     (case Get now sessionID st of
        (st, None) \<Rightarrow> (st, False)
      | (st, Some sess) \<Rightarrow> (st, ValidCSRF (s_CSRFToken sess) header))"

section \<open>Operations in any order\<close>

datatype session_op =
    OpCreate "string option \<times> string option \<times> string option" gotime Identity gotime
  | OpGet gotime string
  | OpGetByIdentity gotime Identity
  | OpDelete string
  | OpGC gotime

definition session_step :: "session_op \<Rightarrow> SessionStore \<Rightarrow> SessionStore \<times> Session option" where
  "session_step op st =
     (case op of
        OpCreate r now i hard \<Rightarrow> Create r now i hard st
      | OpGet now i \<Rightarrow> Get now i st
      | OpGetByIdentity now i \<Rightarrow> GetByIdentity now i st
      | OpDelete i \<Rightarrow> (Delete i st, None)
      | OpGC now \<Rightarrow> (fst (GC now st), None))"

definition session_run :: "session_op list \<Rightarrow> SessionStore \<Rightarrow> SessionStore" where
  "session_run ops st = foldl (\<lambda>st op. fst (session_step op st)) st ops"

text \<open>
  What every stored session satisfies: it is filed under its own identifier, and its expiry is at most
  one lifetime after its creation.
\<close>

definition session_ok :: "SessionStore \<Rightarrow> string \<times> Session \<Rightarrow> bool" where
  "session_ok st e \<longleftrightarrow> s_ID (snd e) = fst e \<and> s_ExpiresAt (snd e) \<le> s_CreatedAt (snd e) + ttl st"

definition store_inv :: "SessionStore \<Rightarrow> bool" where
  "store_inv st \<longleftrightarrow> distinct (map fst (sessions st)) \<and> list_all (session_ok st) (sessions st)"

lemma store_inv_new: "store_inv (NewSessionStore t i)"
  by (simp add: store_inv_def NewSessionStore_def)

lemma store_inv_update:
  assumes "store_inv st" "session_ok st (k, v)"
  shows "store_inv (st\<lparr>sessions := AList.update k v (sessions st)\<rparr>)"
proof -
  have u: "e = (k, v) \<or> e \<in> set xs" if "e \<in> set (AList.update k v xs)" for e xs
    using that by (induction xs) (auto split: if_splits)
  have "session_ok (st\<lparr>sessions := x\<rparr>) = session_ok st" for x by (simp add: session_ok_def fun_eq_iff)
  moreover have "\<forall>e\<in>set (AList.update k v (sessions st)). session_ok st e"
    using assms u by (metis list_all_iff store_inv_def)
  ultimately show ?thesis using assms(1) by (simp add: store_inv_def distinct_update list_all_iff)
qed

lemma store_inv_sub:
  assumes "store_inv st" "set xs \<subseteq> set (sessions st)" "distinct (map fst xs)"
  shows "store_inv (st\<lparr>sessions := xs\<rparr>)"
  using assms by (auto simp: store_inv_def list_all_iff session_ok_def)

lemma store_inv_delete: "store_inv st \<Longrightarrow> store_inv (st\<lparr>sessions := AList.delete k (sessions st)\<rparr>)"
  by (rule store_inv_sub) (auto simp: store_inv_def AList.delete_eq distinct_map_filter)

lemma store_inv_live: "store_inv st \<Longrightarrow> store_inv (st\<lparr>sessions := live_sessions st now\<rparr>)"
  by (rule store_inv_sub) (auto simp: store_inv_def live_sessions_def distinct_map_filter)


lemma Create_cases:
  obtains "Create r now i hard st = (st, None)"
  | sess where "Create r now i hard st = (st\<lparr>sessions := AList.update (s_ID sess) sess (sessions st)\<rparr>, Some sess)"
      "s_CreatedAt sess = now" "s_LastSeen sess = now" "s_Identity sess = i"
      "s_ExpiresAt sess = (if hard \<noteq> 0 then min hard (now + ttl st) else now + ttl st)"
      "fst r \<noteq> None" "s_ID sess = EncodeToString (the (fst r))"
  by (cases r; cases "fst r"; cases "fst (snd r)"; cases "snd (snd r)")
    (simp_all add: Create_def randomToken_def Let_def IsZero_def min_def)

lemma Get_cases:
  obtains "Get now i st = (st, None)" "i = [] \<or> map_of (sessions st) i = None"
  | sess where "map_of (sessions st) i = Some sess" "expiredLocked st now sess"
      "Get now i st = (st\<lparr>sessions := AList.delete i (sessions st)\<rparr>, None)"
  | sess where "map_of (sessions st) i = Some sess" "\<not> expiredLocked st now sess" "i \<noteq> []"
      "Get now i st = (st\<lparr>sessions := AList.update i (sess\<lparr>s_LastSeen := now\<rparr>) (sessions st)\<rparr>, Some (sess\<lparr>s_LastSeen := now\<rparr>))"
  by (cases "i = []"; cases "map_of (sessions st) i"; cases "expiredLocked st now (the (map_of (sessions st) i))")
    (simp_all add: Get_def Let_def)

definition rank :: "string \<times> Session \<Rightarrow> gotime \<times> string" where
  "rank e = (s_CreatedAt (snd e), s_ID (snd e))"

definition owned :: "string \<Rightarrow> string \<times> Session \<Rightarrow> bool" where
  "owned key e \<longleftrightarrow> IdentitySubject (s_Identity (snd e)) = key"

lemma pick_best_rank:
  "pick_best key b e = (if owned key e \<and> (case b of None \<Rightarrow> True | Some b' \<Rightarrow> rank b' < rank e) then Some e else b)"
  by (auto simp: pick_best_def owned_def rank_def split: option.split)

lemma foldl_pick_best:
  "foldl (pick_best key) b xs =
     foldl (\<lambda>b e. if (case b of None \<Rightarrow> True | Some b' \<Rightarrow> rank b' < rank e) then Some e else b) b (filter (owned key) xs)"
  by (induction xs arbitrary: b) (auto simp: pick_best_rank)

lemma foldl_newest:
  "foldl (\<lambda>b e. if (case b of None \<Rightarrow> True | Some b' \<Rightarrow> rank b' < rank e) then Some e else b) (Some b) xs = Some m \<Longrightarrow>
     m \<in> insert b (set xs) \<and> (\<forall>e\<in>insert b (set xs). rank e \<le> rank m)"
proof (induction xs arbitrary: b)
  case (Cons x xs)
  show ?case
  proof (cases "rank b < rank x")
    case True
    then have "m \<in> insert x (set xs) \<and> (\<forall>e\<in>insert x (set xs). rank e \<le> rank m)" using Cons by simp
    then show ?thesis using True by (auto intro: order_trans less_imp_le)
  next
    case False
    then have "m \<in> insert b (set xs) \<and> (\<forall>e\<in>insert b (set xs). rank e \<le> rank m)" using Cons by simp
    then show ?thesis using False by (auto intro: order_trans simp: not_less)
  qed
qed simp

lemma foldl_newest_Some: "\<exists>m. foldl (\<lambda>b e. if (case b of None \<Rightarrow> True | Some b' \<Rightarrow> rank b' < rank e) then Some e else b) (Some b) xs = Some m"
  by (induction xs arbitrary: b) simp_all

lemma pick_best_spec:
  "case foldl (pick_best key) None xs of
     None \<Rightarrow> \<forall>e\<in>set xs. \<not> owned key e
   | Some m \<Rightarrow> m \<in> set xs \<and> owned key m \<and> (\<forall>e\<in>set xs. owned key e \<longrightarrow> rank e \<le> rank m)"
proof (cases "filter (owned key) xs")
  case Nil
  then show ?thesis by (simp add: foldl_pick_best filter_empty_conv)
next
  case (Cons y ys)
  have s: "set (y # ys) = {e \<in> set xs. owned key e}" by (simp flip: Cons)
  obtain m where "foldl (\<lambda>b e. if (case b of None \<Rightarrow> True | Some b' \<Rightarrow> rank b' < rank e) then Some e else b) (Some y) ys = Some m"
    using foldl_newest_Some by blast
  with foldl_newest [OF this] s show ?thesis by (auto simp: foldl_pick_best Cons)
qed

lemma pick_best_in: "foldl (pick_best key) None xs = Some e \<Longrightarrow> e \<in> set xs"
  using pick_best_spec [of xs key] by simp

lemma store_ok: "store_inv st \<Longrightarrow> e \<in> set (sessions st) \<Longrightarrow> session_ok st e"
  by (simp add: store_inv_def list_all_iff)

lemma session_ok_seen [simp]: "session_ok st (k, s\<lparr>s_LastSeen := now\<rparr>) = session_ok st (k, s)"
  by (simp add: session_ok_def)

lemma session_ok_store [simp]: "session_ok (st\<lparr>sessions := x\<rparr>) = session_ok st"
  by (simp add: session_ok_def fun_eq_iff)

text \<open>
  A returning operator is handed the session they already have, the same one every time. Among the
  live sessions of the same non-empty subject the lookup returns the most recently created one, with the
  identifier as tie-break, whatever the order in which the map is ranged over; it returns none when there is
  no such session, and never one of another subject or of a quick-tunnel operator.
\<close>

theorem GetByIdentity_stable:
  assumes "store_inv st" "mset (sessions st') = mset (sessions st)" "ttl st' = ttl st" "idle st' = idle st"
  shows "snd (GetByIdentity now i st') = snd (GetByIdentity now i st) \<and>
    (case snd (GetByIdentity now i st) of
       None \<Rightarrow> IdentitySubject i = [] \<or> (\<forall>e\<in>set (sessions st). owned (IdentitySubject i) e \<longrightarrow> expiredLocked st now (snd e))
     | Some sess \<Rightarrow> IdentitySubject i \<noteq> [] \<and> \<not> id_Quick (s_Identity sess) \<and> IdentitySubject (s_Identity sess) = IdentitySubject i \<and>
         (\<exists>old. (s_ID sess, old) \<in> set (sessions st) \<and> \<not> expiredLocked st now old \<and> sess = old\<lparr>s_LastSeen := now\<rparr>) \<and>
         (\<forall>e\<in>set (sessions st). owned (IdentitySubject i) e \<and> \<not> expiredLocked st now (snd e) \<longrightarrow>
            (s_CreatedAt (snd e), s_ID (snd e)) \<le> (s_CreatedAt sess, s_ID sess)))"
proof -
  let ?key = "IdentitySubject i" and ?L = "live_sessions st now" and ?L' = "live_sessions st' now"
  have exp: "expiredLocked st' = expiredLocked st" using assms(3,4) by (simp add: expiredLocked_def fun_eq_iff)
  have "mset ?L' = mset ?L" using assms(2) by (simp add: live_sessions_def exp)
  then have L: "set ?L' = set ?L" by (rule mset_eq_setD)
  have mem: "e \<in> set ?L \<longleftrightarrow> e \<in> set (sessions st) \<and> \<not> expiredLocked st now (snd e)" for e
    by (auto simp: live_sessions_def)
  have uniq: "e = e'" if "e \<in> set ?L" "e' \<in> set ?L" "rank e = rank e'" for e e'
  proof -
    have "fst e = fst e'" using that store_ok [OF assms(1)] mem by (simp add: rank_def session_ok_def)
    moreover have "distinct (map fst (sessions st))" using assms(1) by (simp add: store_inv_def)
    ultimately show ?thesis using that mem by (metis eq_key_imp_eq_value prod.collapse)
  qed
  note spec = pick_best_spec [of ?L ?key] pick_best_spec [of ?L' ?key, unfolded L]
  have eq: "foldl (pick_best ?key) None ?L' = foldl (pick_best ?key) None ?L"
  proof (cases "foldl (pick_best ?key) None ?L"; cases "foldl (pick_best ?key) None ?L'")
    fix e e' assume e: "foldl (pick_best ?key) None ?L = Some e" "foldl (pick_best ?key) None ?L' = Some e'"
    then have "rank e = rank e'" using spec by (auto intro: antisym)
    then show ?thesis using spec uniq [of e e'] e by auto
  qed (use spec in auto)
  have res: "snd (GetByIdentity now i s) = (if ?key = [] then None
      else map_option (\<lambda>e. (snd e)\<lparr>s_LastSeen := now\<rparr>) (foldl (pick_best ?key) None (live_sessions s now)))" for s
    by (auto simp: GetByIdentity_def Let_def split: option.split)
  show ?thesis
  proof (cases "?key = []")
    case True then show ?thesis by (simp add: res)
  next
    case False
    show ?thesis
    proof (cases "foldl (pick_best ?key) None ?L")
      case None
      then show ?thesis using False spec(1) mem by (auto simp: res eq)
    next
      case (Some e)
      have e: "e \<in> set ?L" "owned ?key e" "\<forall>e'\<in>set ?L. owned ?key e' \<longrightarrow> rank e' \<le> rank e" using spec(1) Some by auto
      moreover have "fst e = s_ID (snd e)" using e(1) mem store_ok [OF assms(1)] by (simp add: session_ok_def)
      ultimately have "(s_ID (snd e), snd e) \<in> set (sessions st)" "\<not> expiredLocked st now (snd e)" using mem by (metis prod.collapse)+
      moreover have "\<not> id_Quick (s_Identity (snd e))" using e(2) False by (auto simp: owned_def IdentitySubject_def)
      ultimately show ?thesis using False Some e(2,3) mem
        by (auto simp: res eq owned_def rank_def simp del: less_eq_prod_simp intro!: exI [of _ "snd e"])
    qed
  qed
qed

lemma GetByIdentity_inv:
  assumes "store_inv st" shows "store_inv (fst (GetByIdentity now i st))"
proof -
  let ?st = "st\<lparr>sessions := live_sessions st now\<rparr>"
  have l: "store_inv ?st" by (rule store_inv_live [OF assms])
  have "store_inv (?st\<lparr>sessions := AList.update k (b\<lparr>s_LastSeen := now\<rparr>) (sessions ?st)\<rparr>)"
    if "foldl (pick_best key) None (sessions ?st) = Some (k, b)" for key k b
    using pick_best_in [OF that] store_ok [OF l] by (intro store_inv_update [OF l]) auto
  then show ?thesis using assms l by (auto simp: GetByIdentity_def Let_def split: option.split)
qed

lemma session_step_inv:
  assumes "store_inv st" shows "store_inv (fst (session_step op st))"
proof (cases op)
  case (OpCreate r now i hard)
  show ?thesis
  proof (cases rule: Create_cases [of r now i hard st])
    case (2 sess)
    have "session_ok st (s_ID sess, sess)" using 2(2,5) by (simp add: session_ok_def)
    then show ?thesis using assms OpCreate 2(1) by (simp add: session_step_def store_inv_update)
  qed (use assms OpCreate in \<open>simp add: session_step_def\<close>)
next
  case (OpGet now i)
  show ?thesis
  proof (cases rule: Get_cases [of now i st])
    case (3 sess)
    then have "session_ok st (i, sess)" using store_ok [OF assms] map_of_SomeD by metis
    then show ?thesis using assms OpGet 3 by (simp add: session_step_def store_inv_update)
  qed (use assms OpGet in \<open>simp_all add: session_step_def store_inv_delete\<close>)
qed (use assms in \<open>simp_all add: session_step_def GetByIdentity_inv Delete_def GC_def store_inv_delete store_inv_live\<close>)

lemma session_run_inv: "store_inv st \<Longrightarrow> store_inv (session_run ops st)"
  unfolding session_run_def by (induction ops arbitrary: st) (simp_all add: session_step_inv)

lemma session_step_config [simp]:
  "ttl (fst (session_step op st)) = ttl st" "idle (fst (session_step op st)) = idle st"
  by (auto simp: session_step_def Create_def Get_def GetByIdentity_def Delete_def GC_def Let_def split: session_op.split option.split prod.split)

lemma session_run_config [simp]: "ttl (session_run ops st) = ttl st" "idle (session_run ops st) = idle st"
  unfolding session_run_def by (induction ops arbitrary: st) simp_all

text \<open>
  A session never outlives its bounds. After any sequence of operations at any clock readings, a
  lookup that succeeds returns a session filed under the presented identifier, strictly before its
  expiry, which is at most one lifetime after its creation, and within the idle timeout when there is one.
\<close>

theorem Get_within_bounds:
  assumes "st = session_run ops (NewSessionStore t i)" "Get now sid st = (st', Some sess)"
  shows "s_ID sess = sid \<and> sid \<noteq> [] \<and> now < s_ExpiresAt sess \<and> s_ExpiresAt sess \<le> s_CreatedAt sess + t \<and>
    s_LastSeen sess = now \<and>
    (\<exists>old. map_of (sessions st) sid = Some old \<and> sess = old\<lparr>s_LastSeen := now\<rparr> \<and> (i > 0 \<longrightarrow> now - s_LastSeen old \<le> i))"
proof -
  have inv: "store_inv st" "ttl st = t" "idle st = i"
    using session_run_inv [OF store_inv_new] assms(1) by (simp_all add: NewSessionStore_def)
  show ?thesis
  proof (cases rule: Get_cases [of now sid st])
    case (3 old)
    then have ok: "session_ok st (sid, old)" using store_ok [OF inv(1)] map_of_SomeD by metis
    have "sess = old\<lparr>s_LastSeen := now\<rparr>" using 3(4) assms(2) by simp
    then show ?thesis using 3 ok inv(2,3) by (auto simp: session_ok_def expiredLocked_def split: if_splits)
  qed (use assms(2) in simp_all)
qed


definition example_identity :: Identity where
  "example_identity = \<lparr>id_Email = ''op'', id_CommonName = [], id_Quick = False\<rparr>"

definition example_create :: session_op where
  "example_create = OpCreate (Some ''sid'', Some ''csrf'', Some ''audit'') 100 example_identity 0"

definition example_store :: SessionStore where
  "example_store = session_run [example_create] (NewSessionStore 50 10)"

lemma example_store_sessions:
  "sessions example_store = [(EncodeToString ''sid'', \<lparr>s_ID = EncodeToString ''sid'', s_AuditID = EncodeToString ''audit'',
     s_CSRFToken = EncodeToString ''csrf'', s_Identity = example_identity, s_CreatedAt = 100, s_ExpiresAt = 150, s_LastSeen = 100\<rparr>)]"
  "ttl example_store = 50" "idle example_store = 10"
  by (simp_all add: example_store_def session_run_def example_create_def session_step_def Create_def randomToken_def Let_def
      IsZero_def NewSessionStore_def)

theorem Get_within_bounds_witness:
  "\<exists>st sess. Get 105 (EncodeToString ''sid'') example_store = (st, Some sess) \<and> s_ExpiresAt sess \<le> s_CreatedAt sess + 50"
proof -
  have ne: "EncodeToString ''sid'' \<noteq> []" by (simp add: EncodeToString_def)
  obtain st sess where g: "Get 105 (EncodeToString ''sid'') example_store = (st, Some sess)"
    by (simp add: Get_def example_store_sessions ne expiredLocked_def Let_def)
  then show ?thesis using Get_within_bounds [OF example_store_def g] by blast
qed

theorem GetByIdentity_stable_witness:
  "\<exists>sess. snd (GetByIdentity 105 example_identity example_store) = Some sess \<and> s_ID sess = EncodeToString ''sid''"
proof -
  have "store_inv example_store" unfolding example_store_def by (rule session_run_inv [OF store_inv_new])
  note g = GetByIdentity_stable [OF this refl refl refl, of 105 example_identity]
  show ?thesis using g by (cases "snd (GetByIdentity 105 example_identity example_store)")
      (auto simp: example_store_sessions expiredLocked_def owned_def IdentitySubject_def example_identity_def)
qed

section \<open>Revocation\<close>

definition creates :: "session_op \<Rightarrow> string \<Rightarrow> bool" where
  "creates op sid = (case op of OpCreate r _ _ _ \<Rightarrow> map_option EncodeToString (fst r) = Some sid | _ \<Rightarrow> False)"

lemma live_keys: "fst ` set (live_sessions st now) \<subseteq> fst ` set (sessions st)"
  by (auto simp: live_sessions_def)

lemma update_keys: "fst ` set (AList.update k v xs) = insert k (fst ` set xs)"
  by (induction xs) auto

lemma session_step_keys:
  assumes "sid \<notin> fst ` set (sessions st)" "\<not> creates op sid"
  shows "sid \<notin> fst ` set (sessions (fst (session_step op st)))"
proof (cases op)
  case (OpCreate r now i hard)
  show ?thesis
    using assms OpCreate by (cases rule: Create_cases [of r now i hard st]) (auto simp: session_step_def creates_def update_keys)
next
  case (OpGet now i)
  show ?thesis
  proof (cases rule: Get_cases [of now i st])
    case (3 sess)
    then have "i \<in> fst ` set (sessions st)" by (force dest: map_of_SomeD)
    then show ?thesis using assms OpGet 3 by (auto simp: session_step_def update_keys)
  qed (use assms OpGet in \<open>auto simp: session_step_def AList.delete_eq\<close>)
next
  case (OpGetByIdentity now i)
  have l: "sid \<notin> fst ` set (live_sessions st now)" using assms(1) live_keys by blast
  have "k \<noteq> sid" if "foldl (pick_best key) None (live_sessions st now) = Some (k, b)" for key k b
    using pick_best_in [OF that] l by force
  then show ?thesis using assms OpGetByIdentity l
    by (auto simp: session_step_def GetByIdentity_def Let_def update_keys split: option.split)
next
  case (OpGC now)
  then show ?thesis using assms live_keys [of st now] by (auto simp: session_step_def GC_def)
qed (use assms in \<open>auto simp: session_step_def Delete_def AList.delete_eq\<close>)

text \<open>
  Logging out is final. Once a session has been deleted, its identifier authenticates nothing at
  any later time, whatever other operations follow, unless a new session is created under the very same
  random identifier; and no CSRF token is accepted for it.
\<close>

theorem Delete_final:
  assumes "\<forall>op\<in>set ops. \<not> creates op sid"
  shows "snd (Get now sid (session_run ops (Delete sid st))) = None \<and>
    \<not> snd (ValidateRequestCSRF now header sid (session_run ops (Delete sid st)))"
proof -
  have "sid \<notin> fst ` set (sessions (session_run ops s))" if "sid \<notin> fst ` set (sessions s)" for s
    using assms that unfolding session_run_def by (induction ops arbitrary: s) (simp_all add: session_step_keys)
  moreover have "sid \<notin> fst ` set (sessions (Delete sid st))" by (auto simp: Delete_def AList.delete_eq)
  ultimately have "sid \<notin> fst ` set (sessions (session_run ops (Delete sid st)))" by blast
  then have "map_of (sessions (session_run ops (Delete sid st))) sid = None" by (simp add: map_of_eq_None_iff)
  then show ?thesis by (simp add: Get_def ValidateRequestCSRF_def)
qed

theorem Delete_final_witness:
  "snd (Get 105 (EncodeToString ''sid'') (session_run [OpGC 101] (Delete (EncodeToString ''sid'') example_store))) = None"
  using Delete_final [of "[OpGC 101]" "EncodeToString ''sid''" 105 example_store] by (simp add: creates_def)

text \<open>
  The CSRF check is exactly equality of two non-empty tokens of a live session: an absent header, an
  empty token, an unknown or an expired session all fail.
\<close>

theorem ValidateRequestCSRF_iff:
  "snd (ValidateRequestCSRF now header sid st) \<longleftrightarrow>
     sid \<noteq> [] \<and> header \<noteq> [] \<and>
     (\<exists>sess. map_of (sessions st) sid = Some sess \<and> \<not> expiredLocked st now sess \<and> s_CSRFToken sess = header)"
  by (cases rule: Get_cases [of now sid st]) (auto simp: ValidateRequestCSRF_def ValidCSRF_def)

end
