(* ===== verification/ServerStores.thy ===== *)
theory ServerStores
  imports Base64 SingleUse "HOL-Library.Word"
begin

text \<open>
  The in-memory stores behind mutations (internal/server/stores.go): confirmation nonces and the
  idempotency cache. Maps are partial functions, a sweep removes the expired entries; clock readings and
  the bytes of a random token are arguments.
\<close>

section \<open>internal/server/stores.go: confirmation nonces\<close>

record nonce =
  n_operation :: string
  n_resource :: string
  n_generation :: "64 word"
  n_session :: string
  n_paramsHash :: string
  n_expiresAt :: gotime

type_synonym nonceStore = "string \<rightharpoonup> nonce"

definition randToken :: "string \<Rightarrow> string" where
  "randToken b = EncodeToString b"

definition nonce_gcLocked :: "gotime \<Rightarrow> nonceStore \<Rightarrow> nonceStore" where
  "nonce_gcLocked now m = map_filter_out (\<lambda>k v. now > n_expiresAt v) m"

text \<open>\<open>bytes\<close> is the entropy drawn, \<open>now\<close> the clock for the expiry and \<open>gc_now\<close> the clock for the sweep.\<close>

definition issue ::
  "string \<Rightarrow> gotime \<Rightarrow> gotime \<Rightarrow> string \<Rightarrow> string \<Rightarrow> 64 word \<Rightarrow> string \<Rightarrow> string \<Rightarrow> duration \<Rightarrow> nonceStore \<Rightarrow> nonceStore \<times> string \<times> gotime" where
  "issue bytes now gc_now operation resource generation session paramsHash ttl m =
     (let token = randToken bytes; exp = now + ttl; m = nonce_gcLocked gc_now m
      in (m(token \<mapsto> \<lparr>n_operation = operation, n_resource = resource, n_generation = generation,
             n_session = session, n_paramsHash = paramsHash, n_expiresAt = exp\<rparr>), token, exp))"

definition consume ::
  "gotime \<Rightarrow> string \<Rightarrow> string \<Rightarrow> string \<Rightarrow> 64 word \<Rightarrow> string \<Rightarrow> string \<Rightarrow> nonceStore \<Rightarrow> nonceStore \<times> bool" where
  "consume now token operation resource generation session paramsHash m =
     (case m token of
        None \<Rightarrow> (m, False)
      | Some n \<Rightarrow>
          let m = m(token := None) in
          if now > n_expiresAt n then (m, False)
          else if n_operation n \<noteq> operation \<or> n_resource n \<noteq> resource \<or> n_generation n \<noteq> generation then (m, False)
          else if n_session n \<noteq> session then (m, False)
          else if n_paramsHash n \<noteq> paramsHash then (m, False)
          else (m, True))"

section \<open>internal/server/stores.go: idempotency cache\<close>

record idemEntry =
  e_status :: int
  e_body :: string
  e_expiresAt :: gotime
  e_pending :: bool
  e_fingerprint :: string

datatype idemResult = idemReserved | idemInFlight | idemDone | idemMismatch | idemMiss

type_synonym idemStore = "string \<rightharpoonup> idemEntry"

definition noEntry :: idemEntry where
  "noEntry = \<lparr>e_status = 0, e_body = [], e_expiresAt = 0, e_pending = False, e_fingerprint = []\<rparr>"

definition idemKey :: "string \<Rightarrow> string \<Rightarrow> string" where
  "idemKey session requestID = session @ [CHR 0x00] @ requestID"

definition peek :: "gotime \<Rightarrow> string \<Rightarrow> string \<Rightarrow> idemStore \<Rightarrow> idemStore \<times> idemEntry \<times> idemResult" where
  "peek now key fingerprint m =
     (case m key of
        None \<Rightarrow> (m, noEntry, idemMiss)
      | Some e \<Rightarrow>
          if now > e_expiresAt e then (m(key := None), noEntry, idemMiss)
          else if e_fingerprint e \<noteq> fingerprint then (m, noEntry, idemMismatch)
          else if e_pending e then (m, noEntry, idemMiss)
          else (m, e, idemDone))"

definition idem_gcLocked :: "gotime \<Rightarrow> idemStore \<Rightarrow> idemStore" where
  "idem_gcLocked now m = map_filter_out (\<lambda>k v. now > e_expiresAt v) m"

text \<open>\<open>gc_now\<close> and \<open>now\<close> are the two clock readings of the code.\<close>

definition reserve ::
  "gotime \<Rightarrow> gotime \<Rightarrow> string \<Rightarrow> string \<Rightarrow> duration \<Rightarrow> idemStore \<Rightarrow> idemStore \<times> idemEntry \<times> idemResult" where
  "reserve gc_now now key fingerprint reservationTTL m =
     (let m = idem_gcLocked gc_now m in
      case m key of
        Some e \<Rightarrow>
          if e_fingerprint e \<noteq> fingerprint then (m, noEntry, idemMismatch)
          else if e_pending e then (m, noEntry, idemInFlight)
          else (m, e, idemDone)
      | None \<Rightarrow>
          (m(key \<mapsto> \<lparr>e_status = 0, e_body = [], e_expiresAt = now + reservationTTL, e_pending = True,
               e_fingerprint = fingerprint\<rparr>), noEntry, idemReserved))"

definition complete :: "gotime \<Rightarrow> string \<Rightarrow> string \<Rightarrow> int \<Rightarrow> string \<Rightarrow> duration \<Rightarrow> idemStore \<Rightarrow> idemStore" where
  "complete now key fingerprint status body ttl m =
     m(key \<mapsto> \<lparr>e_status = status, e_body = body, e_expiresAt = now + ttl, e_pending = False, e_fingerprint = fingerprint\<rparr>)"

definition release :: "string \<Rightarrow> idemStore \<Rightarrow> idemStore" where
  "release key m = (case m key of Some e \<Rightarrow> if e_pending e then m(key := None) else m | None \<Rightarrow> m)"

section \<open>Nonces are single use and bound\<close>

datatype nonce_op =
    OpIssue string gotime gotime string string "64 word" string string duration
  | OpConsume gotime string string string "64 word" string string

definition nonce_step :: "nonceStore \<Rightarrow> nonce_op \<Rightarrow> nonceStore" where
  "nonce_step m op =
     (case op of
        OpIssue b now gc op' res gen sess h ttl \<Rightarrow> fst (issue b now gc op' res gen sess h ttl m)
      | OpConsume now tok op' res gen sess h \<Rightarrow> fst (consume now tok op' res gen sess h m))"

definition nonce_accepts :: "nonceStore \<Rightarrow> nonce_op \<Rightarrow> string \<Rightarrow> bool" where
  "nonce_accepts m op t =
     (case op of
        OpIssue b now gc op' res gen sess h ttl \<Rightarrow> False
      | OpConsume now tok op' res gen sess h \<Rightarrow> tok = t \<and> snd (consume now tok op' res gen sess h m))"

definition hands_out :: "nonce_op \<Rightarrow> string \<Rightarrow> bool" where
  "hands_out op t =
     (case op of OpIssue b now gc op' res gen sess h ttl \<Rightarrow> randToken b = t | OpConsume now tok op' res gen sess h \<Rightarrow> False)"

definition nonce_issues :: "nonceStore \<Rightarrow> nonce_op \<Rightarrow> string \<Rightarrow> bool" where
  "nonce_issues m op t = hands_out op t"

definition nonce_holds :: "nonceStore \<Rightarrow> string \<Rightarrow> bool" where
  "nonce_holds m t \<longleftrightarrow> m t \<noteq> None"

lemma consume_store: "fst (consume now tok op' res gen sess h m) = m(tok := None)"
  by (auto simp: consume_def Let_def fun_eq_iff split: option.split)

lemma issue_store: "fst (issue b now gc op' res gen sess h ttl m) i =
    (if i = randToken b then Some \<lparr>n_operation = op', n_resource = res, n_generation = gen, n_session = sess, n_paramsHash = h, n_expiresAt = now + ttl\<rparr>
     else nonce_gcLocked gc m i)"
  by (simp add: issue_def Let_def)

lemma nonce_gc_Some: "nonce_gcLocked now m i = Some n \<Longrightarrow> m i = Some n \<and> \<not> now > n_expiresAt n"
  by (auto simp: nonce_gcLocked_def)

interpretation nonces: single_use nonce_step nonce_accepts nonce_issues nonce_holds
proof
  fix m op t
  show "nonce_accepts m op t \<Longrightarrow> nonce_holds m t"
    by (cases op) (auto simp: nonce_accepts_def nonce_holds_def consume_def split: option.splits)
  show "nonce_holds (nonce_step m op) t \<Longrightarrow> nonce_issues m op t \<or> nonce_holds m t \<and> \<not> nonce_accepts m op t"
    by (cases op)
      (auto simp: nonce_accepts_def nonce_holds_def nonce_step_def nonce_issues_def hands_out_def consume_store issue_store
        split: if_splits dest: nonce_gc_Some)
qed

definition nonce_run :: "nonce_op list \<Rightarrow> nonceStore \<Rightarrow> nonceStore" where
  "nonce_run ops m = foldl nonce_step m ops"

text \<open>How often a token confirmed an operation in a run, and how often it was handed out.\<close>

fun confirmations :: "nonceStore \<Rightarrow> nonce_op list \<Rightarrow> string \<Rightarrow> nat" where
  "confirmations m [] t = 0"
| "confirmations m (op # ops) t = (if nonce_accepts m op t then 1 else 0) + confirmations (nonce_step m op) ops t"

definition handed_out :: "nonce_op list \<Rightarrow> string \<Rightarrow> nat" where
  "handed_out ops t = length (filter (\<lambda>op. hands_out op t) ops)"

lemma confirmations_eq: "confirmations m ops t = nonces.accepted m ops t"
  by (induction ops arbitrary: m) simp_all

lemma handed_out_eq: "handed_out ops t = nonces.issued m ops t"
  unfolding handed_out_def by (induction ops arbitrary: m) (auto simp: nonce_issues_def)

text \<open>
  A confirmation nonce confirms once. Over any run of issues and consumptions from the empty store,
  at any clock readings and with any arguments presented, a token is accepted at most as often as it was
  handed out; a token of a random source that never repeats is accepted at most once.
\<close>

theorem nonce_single_use: "confirmations Map.empty ops t \<le> handed_out ops t"
  using nonces.accepted_le [of Map.empty ops t] by (simp add: confirmations_eq handed_out_eq [of _ _ Map.empty] nonce_holds_def)

lemma nonce_run_origin:
  "nonce_run ops Map.empty t = Some n \<Longrightarrow>
     \<exists>b now gc ttl. OpIssue b now gc (n_operation n) (n_resource n) (n_generation n) (n_session n) (n_paramsHash n) ttl \<in> set ops \<and>
       randToken b = t \<and> n_expiresAt n = now + ttl"
proof (induction ops rule: rev_induct)
  case (snoc op ops)
  have s: "nonce_run (ops @ [op]) Map.empty = nonce_step (nonce_run ops Map.empty) op" by (simp add: nonce_run_def)
  show ?case
  proof (cases op)
    case (OpIssue b now gc op' res gen sess h ttl)
    show ?thesis
    proof (cases "t = randToken b")
      case True
      then have "n = \<lparr>n_operation = op', n_resource = res, n_generation = gen, n_session = sess, n_paramsHash = h, n_expiresAt = now + ttl\<rparr>"
        using snoc.prems s OpIssue by (simp add: nonce_step_def issue_store)
      then show ?thesis using True OpIssue
        by (intro exI [of _ b] exI [of _ now] exI [of _ gc] exI [of _ ttl]) simp
    next
      case False
      then have "nonce_run ops Map.empty t = Some n" using snoc.prems s OpIssue
        by (auto simp: nonce_step_def issue_store dest: nonce_gc_Some)
      from snoc.IH [OF this] show ?thesis by (metis UnCI set_append)
    qed
  next
    case (OpConsume now tok op' res gen sess h)
    then have "nonce_run ops Map.empty t = Some n" using snoc.prems s
      by (auto simp: nonce_step_def consume_store split: if_splits)
    from snoc.IH [OF this] show ?thesis by (metis UnCI set_append)
  qed
qed (simp add: nonce_run_def)

text \<open>
  A confirmation binds what was confirmed. When a consumption is accepted, the very token was handed
  out earlier for the same operation, resource, pane generation, session and parameter hash, and has not
  expired; and any use of a token, accepted or not, burns it.
\<close>

theorem nonce_bound:
  assumes "consume now tok op' res gen sess h (nonce_run ops Map.empty) = (m, ok)"
  shows "(ok \<longrightarrow> (\<exists>b t0 gc ttl. OpIssue b t0 gc op' res gen sess h ttl \<in> set ops \<and> randToken b = tok \<and> now \<le> t0 + ttl)) \<and>
    \<not> snd (consume now2 tok op2 res2 gen2 sess2 h2 m)"
proof
  show "ok \<longrightarrow> (\<exists>b t0 gc ttl. OpIssue b t0 gc op' res gen sess h ttl \<in> set ops \<and> randToken b = tok \<and> now \<le> t0 + ttl)"
  proof
    assume ok
    then obtain n where n: "nonce_run ops Map.empty tok = Some n" "\<not> now > n_expiresAt n"
      "n_operation n = op'" "n_resource n = res" "n_generation n = gen" "n_session n = sess" "n_paramsHash n = h"
      using assms by (auto simp: consume_def Let_def split: option.splits if_splits)
    from nonce_run_origin [OF n(1)] n(2-) show "\<exists>b t0 gc ttl. OpIssue b t0 gc op' res gen sess h ttl \<in> set ops \<and> randToken b = tok \<and> now \<le> t0 + ttl"
      by (metis not_less)
  qed
  have "m = (nonce_run ops Map.empty)(tok := None)" using assms consume_store by (metis fst_conv)
  then show "\<not> snd (consume now2 tok op2 res2 gen2 sess2 h2 m)" by (simp add: consume_def)
qed

theorem nonce_bound_witness:
  "\<not> snd (consume 1 (randToken ''k'') ''pane.close'' ''p'' 1 ''s'' ''h''
     (fst (consume 1 (randToken ''k'') ''pane.close'' ''p'' 1 ''s'' ''h''
       (nonce_run [OpIssue ''k'' 0 0 ''pane.close'' ''p'' 1 ''s'' ''h'' 30] Map.empty))))"
proof -
  let ?m = "nonce_run [OpIssue ''k'' 0 0 ''pane.close'' ''p'' 1 ''s'' ''h'' 30] Map.empty"
  have "consume 1 (randToken ''k'') ''pane.close'' ''p'' 1 ''s'' ''h'' ?m = (?m(randToken ''k'' := None), True)"
    by (simp add: nonce_run_def nonce_step_def issue_def consume_def Let_def)
  from nonce_bound [OF this] this show ?thesis by simp
qed

section \<open>A request runs once\<close>

datatype idem_op =
    OpPeek gotime string string
  | OpReserve gotime gotime string string duration
  | OpComplete gotime string string int string duration
  | OpRelease string

definition idem_step :: "idemStore \<Rightarrow> idem_op \<Rightarrow> idemStore" where
  "idem_step m op =
     (case op of
        OpPeek now k f \<Rightarrow> fst (peek now k f m)
      | OpReserve gc now k f ttl \<Rightarrow> fst (reserve gc now k f ttl m)
      | OpComplete now k f st body ttl \<Rightarrow> complete now k f st body ttl m
      | OpRelease k \<Rightarrow> release k m)"

definition idem_run :: "idem_op list \<Rightarrow> idemStore \<Rightarrow> idemStore" where
  "idem_run ops m = foldl idem_step m ops"

text \<open>Operations of other requests while an entry is alive: the clock has not passed its expiry, and the
  owner of the key has neither completed nor released it again.\<close>

definition meanwhile :: "string \<Rightarrow> gotime \<Rightarrow> idem_op \<Rightarrow> bool" where
  "meanwhile key t op =
     (case op of
        OpPeek now k f \<Rightarrow> now \<le> t
      | OpReserve gc now k f ttl \<Rightarrow> gc \<le> t
      | OpComplete now k f st body ttl \<Rightarrow> k \<noteq> key
      | OpRelease k \<Rightarrow> k \<noteq> key)"

lemma idem_gc_keep: "m k = Some e \<Longrightarrow> gc \<le> e_expiresAt e \<Longrightarrow> idem_gcLocked gc m k = Some e"
  by (simp add: idem_gcLocked_def)

lemma idem_step_keep:
  assumes "m key = Some e" "meanwhile key (e_expiresAt e) op"
  shows "idem_step m op key = Some e"
proof (cases op)
  case (OpReserve gc now k f ttl)
  then have "idem_gcLocked gc m key = Some e" using assms by (simp add: meanwhile_def idem_gc_keep)
  then show ?thesis using OpReserve by (auto simp: idem_step_def reserve_def Let_def split: option.split)
qed (use assms in \<open>auto simp: idem_step_def meanwhile_def peek_def complete_def release_def split: option.splits\<close>)

lemma idem_run_keep:
  "m key = Some e \<Longrightarrow> list_all (meanwhile key (e_expiresAt e)) ops \<Longrightarrow> idem_run ops m key = Some e"
  unfolding idem_run_def by (induction ops arbitrary: m) (auto simp: idem_step_keep)

lemma reserve_live:
  assumes "m key = Some e" "gc \<le> e_expiresAt e"
  shows "snd (reserve gc now key f ttl m) =
    (if e_fingerprint e \<noteq> f then (noEntry, idemMismatch) else if e_pending e then (noEntry, idemInFlight) else (e, idemDone))"
  using idem_gc_keep [of m key e gc] assms by (simp add: reserve_def Let_def)

text \<open>
  A request identifier runs its mutation once. After a reservation succeeded, and as long as it has not
  expired and its owner has neither completed nor released it, every other attempt under the key, however
  the operations of all requests interleave, is told that the request is in flight, or is refused when it
  carries a different payload; it never gets the reservation.
\<close>

theorem reserve_exclusive:
  assumes "reserve gc now key f ttl m = (m1, e, idemReserved)" "list_all (meanwhile key (now + ttl)) ops" "gc' \<le> now + ttl"
  shows "snd (snd (reserve gc' now' key f' ttl' (idem_run ops m1))) = (if f' = f then idemInFlight else idemMismatch)"
proof -
  have "m1 key = Some \<lparr>e_status = 0, e_body = [], e_expiresAt = now + ttl, e_pending = True, e_fingerprint = f\<rparr>"
    using assms(1) by (auto simp: reserve_def Let_def split: option.splits if_splits)
  from idem_run_keep [of m1 key, OF this, of ops] assms(2)
  have "idem_run ops m1 key = Some \<lparr>e_status = 0, e_body = [], e_expiresAt = now + ttl, e_pending = True, e_fingerprint = f\<rparr>" by simp
  from reserve_live [of "idem_run ops m1" key, OF this, of gc' now' f' ttl'] assms(3) show ?thesis by auto
qed

text \<open>
  A retry gets the recorded answer. After a mutation completed, every attempt under its key within the
  retention time is answered with the recorded status and body when it carries the same payload, and is
  refused when it does not, whatever other requests do in between.
\<close>

theorem complete_replays:
  assumes "list_all (meanwhile key (now + ttl)) ops" "gc \<le> now + ttl"
    "(e, r) = snd (reserve gc now' key f' ttl' (idem_run ops (complete now key f status body ttl m)))"
  shows "if f' = f then r = idemDone \<and> e_status e = status \<and> e_body e = body else r = idemMismatch"
proof -
  let ?m = "complete now key f status body ttl m"
  let ?e = "\<lparr>e_status = status, e_body = body, e_expiresAt = now + ttl, e_pending = False, e_fingerprint = f\<rparr>"
  have "?m key = Some ?e" by (simp add: complete_def)
  from idem_run_keep [of ?m key, OF this, of ops] assms(1) have "idem_run ops ?m key = Some ?e" by simp
  from reserve_live [of "idem_run ops ?m" key, OF this, of gc now' f' ttl'] assms(2,3) show ?thesis by (auto split: if_splits)
qed

theorem reserve_exclusive_witness:
  "snd (snd (reserve 5 5 ''k'' ''f'' 10 (idem_run [OpRelease ''other''] (fst (reserve 0 0 ''k'' ''f'' 10 Map.empty))))) = idemInFlight"
proof -
  have "reserve 0 0 ''k'' ''f'' 10 Map.empty = (fst (reserve 0 0 ''k'' ''f'' 10 Map.empty), noEntry, idemReserved)"
    by (simp add: reserve_def Let_def idem_gcLocked_def map_filter_out_def)
  from reserve_exclusive [OF this, of "[OpRelease ''other'']" 5 5 "''f''" 10] show ?thesis by (simp add: meanwhile_def)
qed

theorem complete_replays_witness:
  "e_body (fst (snd (reserve 5 5 ''k'' ''f'' 10 (idem_run [] (complete 1 ''k'' ''f'' 200 ''ok'' 10 Map.empty))))) = ''ok''"
  using complete_replays [of "''k''" 1 10 "[]" 5 _ _ 5 "''f''" 10 "''f''" 200 "''ok''" Map.empty, OF _ _ prod.collapse] by simp

text \<open>
  A late release frees a reservation that is not its own. When a reservation has expired and another
  request has reserved the key, a release by the first owner removes the second owner's pending entry, and
  a third request then gets the reservation while the second is still running.
\<close>

theorem release_foreign_reservation:
  "let (m1, _, r1) = reserve 0 0 k f 10 Map.empty;
       (m2, _, r2) = reserve 11 11 k f 10 m1;
       m3 = release k m2;
       (m4, _, r3) = reserve 12 12 k f 10 m3
   in r1 = idemReserved \<and> r2 = idemReserved \<and> r3 = idemReserved"
  by (simp add: reserve_def release_def Let_def idem_gcLocked_def map_filter_out_def)

lemma idemKey_injective:
  assumes "CHR 0x00 \<notin> set s" "CHR 0x00 \<notin> set s'"
  shows "idemKey s r = idemKey s' r' \<longleftrightarrow> s = s' \<and> r = r'"
  using split_first [of s "CHR 0x00" r s' r'] assms by (auto simp: idemKey_def)

end
