(* ===== verification/Strconv.thy ===== *)
theory Strconv
  imports GoStrings "HOL-Library.Word"
begin

text \<open>
  What the relay uses of package strconv: decimal rendering and parsing of integers.
\<close>

section \<open>Rendering\<close>

text \<open>\<open>strconv.FormatUint\<close> and \<open>strconv.Itoa\<close> in base 10.\<close>

fun decimal :: "nat \<Rightarrow> string" where
  "decimal n = (if n < 10 then [char_of (48 + n)] else decimal (n div 10) @ [char_of (48 + n mod 10)])"

declare decimal.simps [simp del]

definition int_literal :: "int \<Rightarrow> string" where
  "int_literal n = (if n < 0 then CHR ''-'' # decimal (nat (- n)) else decimal (nat n))"

lemma decimal_digits: "c \<in> set (decimal n) \<Longrightarrow> c \<in> set ''0123456789''"
proof (induction n rule: decimal.induct)
  case (1 n)
  have dig: "char_of (48 + k) \<in> set ''0123456789''" if "k < 10" for k :: nat
  proof -
    have "k \<in> {0, 1, 2, 3, 4, 5, 6, 7, 8, 9}" using that by auto
    then show ?thesis by (elim insertE emptyE) (simp_all add: char_of_def bit_simps drop_bit_eq_div)
  qed
  show ?case
  proof (cases "n < 10")
    case True then show ?thesis using "1.prems" dig [of n] by (simp add: decimal.simps [of n])
  next
    case False then show ?thesis using 1 dig [of "n mod 10"] by (auto simp: decimal.simps [of n])
  qed
qed


definition from_decimal :: "string \<Rightarrow> nat" where
  "from_decimal s = foldl (\<lambda>n c. 10 * n + (ord c - 48)) 0 s"

lemma from_decimal_decimal [simp]: "from_decimal (decimal n) = n"
proof (induction n rule: decimal.induct)
  case (1 n)
  show ?case
  proof (cases "n < 10")
    case True then show ?thesis by (simp add: decimal.simps [of n] from_decimal_def)
  next
    case False
    have "foldl (\<lambda>n c. 10 * n + (ord c - 48)) 0 (decimal (n div 10)) = n div 10" using 1 False by (simp add: from_decimal_def)
    moreover have "(48 + n mod 10) mod 256 - 48 = n mod 10" by (simp add: mod_less)
    ultimately show ?thesis using False by (simp add: decimal.simps [of n] from_decimal_def)
  qed
qed

lemma decimal_inject: "decimal m = decimal n \<longleftrightarrow> m = n"
  by (metis from_decimal_decimal)

section \<open>Parsing\<close>

definition digit_char :: "char \<Rightarrow> bool" where
  "digit_char c \<longleftrightarrow> 0x30 \<le> ord c \<and> ord c \<le> 0x39"

text \<open>\<open>strconv.ParseUint\<close> with base 10 and 64 bits, and \<open>strconv.Atoi\<close>: digits only, an optional sign for the latter.\<close>

definition ParseUint :: "string \<Rightarrow> 64 word option" where
  "ParseUint s =
     (if s = [] \<or> \<not> list_all digit_char s then None
      else let n = from_decimal s in if n < 2 ^ 64 then Some (of_nat n) else None)"

definition Atoi :: "string \<Rightarrow> int option" where
  "Atoi s =
     (let (neg, ds) = (case s of [] \<Rightarrow> (False, []) | c # cs \<Rightarrow> if c = CHR ''-'' then (True, cs) else if c = CHR ''+'' then (False, cs) else (False, s))
      in if ds = [] \<or> \<not> list_all digit_char ds then None
         else
           let n = int (from_decimal ds); v = (if neg then - n else n)
           in if - (2 ^ 63) \<le> v \<and> v < 2 ^ 63 then Some v else None)"

end
