(* ===== verification/StateRuns.thy ===== *)
theory StateRuns
  imports StateInvariant Strconv
begin

text \<open>
  The run projection of the engine (internal/state/runs.go). The hexadecimal SHA-256 digest of an
  occupant fingerprint is a parameter.
\<close>

section \<open>internal/state/runs.go\<close>

record RunWorktree =
  rw_RepoName :: string
  rw_RepoRoot :: string
  rw_CheckoutPath :: string
  rw_IsLinkedWorktree :: bool

record Run =
  RunID :: string
  PaneID :: string
  PaneGeneration :: "64 word"
  AgentIncarnation :: string
  WorkspaceID :: string
  WorkspaceLabel :: string
  TabID :: string
  TabLabel :: string
  TerminalID :: string
  AgentKind :: string
  AgentName :: string
  DisplayAgent :: string
  Title :: string
  Status :: AgentStatus
  InteractiveReady :: bool
  LaunchPending :: bool
  Focused :: bool
  CWD :: string
  ForegroundCWD :: string
  Worktree :: "RunWorktree option"
  Revision :: int
  StateChangeSeq :: int

record RunSet =
  SnapshotHash :: string
  set_Runs :: "Run list"

definition normalizeStatus :: "AgentStatus \<Rightarrow> AgentStatus" where
  "normalizeStatus s = (if s \<in> {StatusIdle, StatusWorking, StatusBlocked, StatusDone} then s else StatusUnknown)"

definition incarnationDigestLen :: nat where
  "incarnationDigestLen = 16"

text \<open>\<open>hexsha\<close> is the lower-case hexadecimal SHA-256 digest of a string.\<close>

definition incarnation :: "(string \<Rightarrow> string) \<Rightarrow> string \<Rightarrow> string" where
  "incarnation hexsha fingerprint = (if fingerprint = [] then [] else take incarnationDigestLen (hexsha fingerprint))"

definition runID :: "string \<Rightarrow> 64 word \<Rightarrow> string \<Rightarrow> string" where
  "runID paneID gen inc =
     (let i = paneID @ ''@'' @ decimal (unat gen) in if inc = [] then i else i @ ''#'' @ inc)"

text \<open>The three indexes: the first agent entry of a pane wins, the last workspace and tab entry does.\<close>

definition agents_by_pane :: "Agent list \<Rightarrow> (string \<rightharpoonup> Agent)" where
  "agents_by_pane as = map_of (map (\<lambda>a. (a_PaneID a, a)) as)"

definition workspaces_by_id :: "Workspace list \<Rightarrow> (string \<rightharpoonup> Workspace)" where
  "workspaces_by_id ws = map_of (rev (map (\<lambda>w. (w_WorkspaceID w, w)) ws))"

definition tabs_by_id :: "Tab list \<Rightarrow> (string \<rightharpoonup> Tab)" where
  "tabs_by_id ts = map_of (rev (map (\<lambda>t. (t_TabID t, t)) ts))"

text \<open>
  One iteration of the loop over the panes, in the order of the code: the run built from the pane, what
  the agent entry fills in, the workspace and tab context.
\<close>

definition base_run :: "Pane \<Rightarrow> 64 word \<Rightarrow> string \<Rightarrow> Run" where
  "base_run p gen inc = \<lparr>RunID = runID (p_PaneID p) gen inc, PaneID = p_PaneID p, PaneGeneration = gen,
     AgentIncarnation = inc, WorkspaceID = p_WorkspaceID p, WorkspaceLabel = [], TabID = p_TabID p,
     TabLabel = [], TerminalID = p_TerminalID p, AgentKind = p_Agent p, AgentName = [],
     DisplayAgent = p_DisplayAgent p, Title = p_Title p, Status = normalizeStatus (p_AgentStatus p),
     InteractiveReady = False, LaunchPending = False, Focused = p_Focused p, CWD = p_CWD p,
     ForegroundCWD = p_ForegroundCWD p, Worktree = None, Revision = p_Revision p, StateChangeSeq = 0\<rparr>"

definition fill_agent :: "Pane \<Rightarrow> Agent option \<Rightarrow> Run \<Rightarrow> Run" where
  "fill_agent p agent run =
     (case agent of
        None \<Rightarrow> run
      | Some a \<Rightarrow>
          run\<lparr>AgentName := a_Name a, InteractiveReady := a_InteractiveReady a,
            LaunchPending := a_LaunchPending a, StateChangeSeq := a_StateChangeSeq a,
            AgentKind := (if AgentKind run = [] then a_Agent a else AgentKind run),
            DisplayAgent := (if DisplayAgent run = [] then a_DisplayAgent a else DisplayAgent run),
            Title := (if Title run = [] then a_Title a else Title run),
            Status := (if p_AgentStatus p = [] then normalizeStatus (a_AgentStatus a) else Status run)\<rparr>)"

definition fill_workspace :: "Workspace option \<Rightarrow> Run \<Rightarrow> Run" where
  "fill_workspace w run =
     (case w of
        None \<Rightarrow> run
      | Some ws \<Rightarrow>
          (let run = run\<lparr>WorkspaceLabel := w_Label ws\<rparr> in
           case w_Worktree ws of
             None \<Rightarrow> run
           | Some wt \<Rightarrow> run\<lparr>Worktree := Some \<lparr>rw_RepoName = wt_RepoName wt, rw_RepoRoot = wt_RepoRoot wt,
               rw_CheckoutPath = wt_CheckoutPath wt, rw_IsLinkedWorktree = wt_IsLinkedWorktree wt\<rparr>\<rparr>))"

definition fill_tab :: "Tab option \<Rightarrow> Run \<Rightarrow> Run" where
  "fill_tab t run = (case t of None \<Rightarrow> run | Some t \<Rightarrow> run\<lparr>TabLabel := t_Label t\<rparr>)"

definition project_run ::
  "(string \<Rightarrow> string) \<Rightarrow> Topology \<Rightarrow> (string \<rightharpoonup> 64 word) \<Rightarrow> (string \<rightharpoonup> string) \<Rightarrow> Pane \<Rightarrow> Run option" where
  "project_run hexsha topo gens occ p =
     (let agent = agents_by_pane (s_Agents topo) (p_PaneID p) in
      if p_Agent p = [] \<and> agent = None then None
      else
        case gens (p_PaneID p) of
          None \<Rightarrow> None
        | Some gen \<Rightarrow>
            let inc = incarnation hexsha (case occ (p_PaneID p) of None \<Rightarrow> [] | Some o' \<Rightarrow> o')
            in Some (fill_tab (tabs_by_id (s_Tabs topo) (p_TabID p))
                 (fill_workspace (workspaces_by_id (s_Workspaces topo) (p_WorkspaceID p))
                   (fill_agent p agent (base_run p gen inc)))))"

definition projectRuns ::
  "(string \<Rightarrow> string) \<Rightarrow> Topology \<Rightarrow> (string \<rightharpoonup> 64 word) \<Rightarrow> (string \<rightharpoonup> string) \<Rightarrow> Run list" where
  "projectRuns hexsha topo gens occ = sort_key PaneID (List.map_filter (project_run hexsha topo gens occ) (s_Panes topo))"

definition Runs :: "(string \<Rightarrow> string) \<Rightarrow> Engine \<Rightarrow> RunSet" where
  "Runs hexsha e =
     (case current e of
        None \<Rightarrow> \<lparr>SnapshotHash = [], set_Runs = []\<rparr>
      | Some snap \<Rightarrow>
          (case Topo snap of
             None \<Rightarrow> \<lparr>SnapshotHash = [], set_Runs = []\<rparr>
           | Some topo \<Rightarrow> \<lparr>SnapshotHash = Hash snap, set_Runs = projectRuns hexsha topo (generations e) (occupants e)\<rparr>))"

section \<open>The run list\<close>

lemma normalizeStatus_closed:
  "normalizeStatus s \<in> {StatusIdle, StatusWorking, StatusBlocked, StatusDone, StatusUnknown}"
  by (simp add: normalizeStatus_def)

lemma fill_agent_fields [simp]:
  "PaneID (fill_agent p a r) = PaneID r" "PaneGeneration (fill_agent p a r) = PaneGeneration r"
  "AgentIncarnation (fill_agent p a r) = AgentIncarnation r" "RunID (fill_agent p a r) = RunID r"
  by (simp_all add: fill_agent_def split: option.split)

lemma fill_context_fields [simp]:
  "PaneID (fill_workspace w r) = PaneID r" "PaneGeneration (fill_workspace w r) = PaneGeneration r"
  "AgentIncarnation (fill_workspace w r) = AgentIncarnation r" "RunID (fill_workspace w r) = RunID r"
  "Status (fill_workspace w r) = Status r" "PaneID (fill_tab t r) = PaneID r"
  "PaneGeneration (fill_tab t r) = PaneGeneration r" "AgentIncarnation (fill_tab t r) = AgentIncarnation r"
  "RunID (fill_tab t r) = RunID r" "Status (fill_tab t r) = Status r"
  by (simp_all add: fill_workspace_def fill_tab_def Let_def split: option.split)

lemma fill_agent_status:
  "Status (fill_agent p a (base_run p g i)) \<in> {StatusIdle, StatusWorking, StatusBlocked, StatusDone, StatusUnknown}"
  using normalizeStatus_closed by (auto simp: fill_agent_def base_run_def split: option.split)

lemma project_run_Some:
  assumes "project_run hexsha topo gens occ p = Some r"
  shows "PaneID r = p_PaneID p" "gens (p_PaneID p) = Some (PaneGeneration r)"
    "Status r \<in> {StatusIdle, StatusWorking, StatusBlocked, StatusDone, StatusUnknown}"
    "AgentIncarnation r = incarnation hexsha (case occ (p_PaneID p) of None \<Rightarrow> [] | Some o' \<Rightarrow> o')"
    "RunID r = runID (PaneID r) (PaneGeneration r) (AgentIncarnation r)"
proof -
  let ?inc = "incarnation hexsha (case occ (p_PaneID p) of None \<Rightarrow> [] | Some o' \<Rightarrow> o')"
  obtain g where g: "gens (p_PaneID p) = Some g" and r: "r = fill_tab (tabs_by_id (s_Tabs topo) (p_TabID p))
      (fill_workspace (workspaces_by_id (s_Workspaces topo) (p_WorkspaceID p))
        (fill_agent p (agents_by_pane (s_Agents topo) (p_PaneID p)) (base_run p g ?inc)))"
    using assms by (auto simp: project_run_def Let_def split: if_splits option.splits)
  show "PaneID r = p_PaneID p" "gens (p_PaneID p) = Some (PaneGeneration r)" "AgentIncarnation r = ?inc"
    "RunID r = runID (PaneID r) (PaneGeneration r) (AgentIncarnation r)"
    by (simp_all add: r g base_run_def)
  show "Status r \<in> {StatusIdle, StatusWorking, StatusBlocked, StatusDone, StatusUnknown}"
    using fill_agent_status by (simp add: r)
qed

lemma project_run_None:
  "project_run hexsha topo gens occ p = None \<longleftrightarrow>
     p_Agent p = [] \<and> p_PaneID p \<notin> a_PaneID ` set (s_Agents topo) \<or> gens (p_PaneID p) = None"
proof -
  have "agents_by_pane (s_Agents topo) i = None \<longleftrightarrow> i \<notin> a_PaneID ` set (s_Agents topo)" for i
    by (auto simp: agents_by_pane_def map_of_eq_None_iff image_image)
  then show ?thesis by (simp add: project_run_def Let_def split: option.split)
qed

lemma set_projectRuns:
  "r \<in> set (projectRuns hexsha topo gens occ) \<longleftrightarrow> (\<exists>p\<in>set (s_Panes topo). project_run hexsha topo gens occ p = Some r)"
  by (auto simp: projectRuns_def map_filter_def) force

lemma projectRuns_sorted: "sorted (map PaneID (projectRuns hexsha topo gens occ))"
  by (simp add: projectRuns_def)

lemma projectRuns_distinct:
  assumes "wf_panes topo"
  shows "distinct (map PaneID (projectRuns hexsha topo gens occ))"
proof -
  have "map PaneID (List.map_filter (project_run hexsha topo gens occ) ps) =
      map p_PaneID (filter (\<lambda>p. project_run hexsha topo gens occ p \<noteq> None) ps)" for ps
    by (induction ps) (auto simp: map_filter_simps project_run_Some split: option.splits)
  moreover have "distinct (map p_PaneID (filter f (s_Panes topo)))" for f
    using assms by (simp add: wf_panes_def distinct_map_filter)
  ultimately have "distinct (map PaneID (List.map_filter (project_run hexsha topo gens occ) (s_Panes topo)))" by simp
  then show ?thesis unfolding projectRuns_def
    by (metis (no_types) mset_map mset_sort mset_eq_imp_distinct_iff)
qed


text \<open>
  The run list and the mutation guard agree. In every reachable engine the runs are ordered by pane
  identifier with one run per pane at most, a pane of the current topology is listed exactly when an
  agent occupies it, each run asserts the generation the guard accepts, carries the digest of the pane's
  current occupant, and has one of the five lifecycle states.
\<close>

theorem Runs_agree:
  assumes "identifying_digest d T" "engine_reachable d z T e" "current e = Some s" "Topo s = Some topo"
    "rs = set_Runs (Runs hexsha e)"
  shows "sorted (map PaneID rs) \<and> distinct (map PaneID rs) \<and>
    PaneID ` set rs = {p_PaneID p | p. p \<in> set (s_Panes topo) \<and> (p_Agent p \<noteq> [] \<or> p_PaneID p \<in> a_PaneID ` set (s_Agents topo))} \<and>
    (\<forall>r\<in>set rs. CheckGeneration e (PaneID r) (PaneGeneration r) \<and>
       AgentIncarnation r = incarnation hexsha (the (pane_occupants (s_Panes topo) (PaneID r))) \<and>
       Status r \<in> {StatusIdle, StatusWorking, StatusBlocked, StatusDone, StatusUnknown})"
proof -
  have inv: "engine_inv d T e" by (rule engine_reachable_inv [OF assms(1,2)])
  then obtain "topo \<in> T" and occ: "occupants e = pane_occupants (s_Panes topo)"
    using assms(3,4) by (auto simp: engine_inv_def current_inv_def)
  then have wf: "wf_panes topo" using assms(1) by (auto simp: identifying_digest_def)
  have dom: "generations e (p_PaneID p) \<noteq> None" if "p \<in> set (s_Panes topo)" for p
  proof -
    have "p_PaneID p \<in> dom (occupants e)" using that by (simp add: occ pane_occupants_dom)
    then show ?thesis using inv by (auto simp: engine_inv_def gens_inv_def)
  qed
  have rs: "rs = projectRuns hexsha topo (generations e) (occupants e)" using assms(3-5) by (simp add: Runs_def)
  have mem: "r \<in> set rs \<longleftrightarrow> (\<exists>p\<in>set (s_Panes topo). project_run hexsha topo (generations e) (occupants e) p = Some r)" for r
    by (simp add: rs set_projectRuns)
  have "PaneID ` set rs = p_PaneID ` {p \<in> set (s_Panes topo). project_run hexsha topo (generations e) (occupants e) p \<noteq> None}"
    by (auto simp: mem image_iff project_run_Some) (metis mem project_run_Some(1))+
  also have "\<dots> = {p_PaneID p | p. p \<in> set (s_Panes topo) \<and> (p_Agent p \<noteq> [] \<or> p_PaneID p \<in> a_PaneID ` set (s_Agents topo))}"
    using dom by (auto simp: project_run_None image_def) metis+
  finally have "PaneID ` set rs = \<dots>" .
  moreover have "CheckGeneration e (PaneID r) (PaneGeneration r) \<and>
       AgentIncarnation r = incarnation hexsha (the (pane_occupants (s_Panes topo) (PaneID r))) \<and>
       Status r \<in> {StatusIdle, StatusWorking, StatusBlocked, StatusDone, StatusUnknown}" if in_rs: "r \<in> set rs" for r
  proof -
    obtain p where p: "p \<in> set (s_Panes topo)" "project_run hexsha topo (generations e) (occupants e) p = Some r"
      using in_rs by (auto simp: mem)
    have "occupants e (p_PaneID p) = Some (OccupantFingerprint p)"
      using p(1) wf by (simp add: occ wf_panes_def pane_occupants_Some)
    then show ?thesis using project_run_Some [OF p(2)]
      by (simp add: CheckGeneration_def Generation_def flip: occ)
  qed
  ultimately show ?thesis using projectRuns_sorted projectRuns_distinct [OF wf] by (simp add: rs)
qed

theorem Runs_agree_witness:
  "\<exists>r. set_Runs (Runs id example_polled) = [r] \<and> PaneID r = ''p'' \<and> CheckGeneration example_polled ''p'' (PaneGeneration r)"
proof -
  let ?t = "example_topology [] [example_pane ''p'' ''x'']"
  have d: "identifying_digest example_digest {?t}" by (simp add: identifying_digest_def wf_panes_def)
  obtain s where s: "current example_polled = Some s" "Topo s = Some ?t"
    by (simp add: example_polled_def run_polls_def example_poll_def apply_outcome_def example_engine_def NewEngine_def Let_def publish_def)
  note a = Runs_agree [OF d example_polled_reachable s refl, of id]
  have "p_Agent (example_pane ''p'' ''x'') = ''claude''" by (simp add: example_pane_def)
  then have i: "PaneID ` set (set_Runs (Runs id example_polled)) = {''p''}"
    using a [THEN conjunct2, THEN conjunct2, THEN conjunct1] by simp
  have dist: "distinct (map PaneID (set_Runs (Runs id example_polled)))" using a by blast
  have "card (set (map PaneID (set_Runs (Runs id example_polled)))) = 1" using i by simp
  then have "length (set_Runs (Runs id example_polled)) = 1" using distinct_card [OF dist] by simp
  then obtain r where r: "set_Runs (Runs id example_polled) = [r]" by (auto simp: length_Suc_conv)
  then have "PaneID r = ''p''" using i by simp
  moreover have "CheckGeneration example_polled (PaneID r) (PaneGeneration r)" using a r by simp
  ultimately show ?thesis using r by simp
qed

section \<open>Run identifiers\<close>

text \<open>
  A run identifier determines the pane, the generation and the occupant digest, for any pane
  identifiers whatever and any digests that hold neither separator (hexadecimal ones do not). A pane
  that is recycled for another occupant therefore gets another run identifier although its generation
  starts again at 1.
\<close>

theorem runID_injective:
  assumes "CHR ''@'' \<notin> set inc" "CHR ''#'' \<notin> set inc" "CHR ''@'' \<notin> set inc'" "CHR ''#'' \<notin> set inc'"
  shows "runID p g inc = runID p' g' inc' \<longleftrightarrow> p = p' \<and> g = g' \<and> inc = inc'"
proof
  assume eq: "runID p g inc = runID p' g' inc'"
  have d: "CHR ''@'' \<notin> set (decimal n)" "CHR ''#'' \<notin> set (decimal n)" for n using decimal_digits by fastforce+
  have pg: "p = p' \<and> g = g'" if "p @ CHR ''@'' # decimal (unat g) = p' @ CHR ''@'' # decimal (unat g')"
    using split_last [OF that d(1) d(1)] by (auto simp: decimal_inject word_unat_eq_iff)
  have no: "q @ CHR ''@'' # decimal n \<noteq> q' @ CHR ''#'' # i" if "CHR ''@'' \<notin> set i" for q n q' i
  proof
    assume "q @ CHR ''@'' # decimal n = q' @ CHR ''#'' # i"
    then obtain us where "q = q' @ us \<and> us @ CHR ''@'' # decimal n = CHR ''#'' # i \<or> q @ us = q' \<and> CHR ''@'' # decimal n = us @ CHR ''#'' # i"
      by (auto simp: append_eq_append_conv2)
    then show False using that d(2) [of n] by (cases us) (auto dest: arg_cong [of _ _ set])
  qed
  show "p = p' \<and> g = g' \<and> inc = inc'"
  proof (cases "inc = []"; cases "inc' = []")
    assume "inc \<noteq> []" "inc' \<noteq> []"
    then have "(p @ CHR ''@'' # decimal (unat g)) @ CHR ''#'' # inc = (p' @ CHR ''@'' # decimal (unat g')) @ CHR ''#'' # inc'"
      using eq by (simp add: runID_def)
    from split_last [OF this assms(2,4)] show ?thesis using pg by blast
  qed (use eq pg no [of inc' p _ "p' @ CHR ''@'' # decimal (unat g')"] no [of inc p' _ "p @ CHR ''@'' # decimal (unat g)"] assms
        in \<open>auto simp: runID_def\<close>)
qed simp

theorem runID_injective_witness: "runID ''p'' 1 ''aa'' \<noteq> runID ''p'' 1 ''bb''"
  using runID_injective [of "''aa''" "''bb''" "''p''" 1 "''p''" 1] by simp

end
