(* ===== verification/ServerRuns.thy ===== *)
theory ServerRuns
  imports StateRuns Interpret
begin

text \<open>
  The run contract of the server (internal/server/runs.go): the run inbox, one run with its observed
  output, and the experimental interpreted parts. A handler is a function of the request, of the answers
  of its collaborators and of the configuration; its result is the reply, the audit entries and the
  upstream reads.
\<close>

section \<open>internal/server/errors.go and upstream.go\<close>

definition codeBadRequest :: string where "codeBadRequest = ''bad_request''"
definition codeGenerationStale :: string where "codeGenerationStale = ''generation_stale''"
definition codeDeadlineExceeded :: string where "codeDeadlineExceeded = ''deadline_exceeded''"
definition codeUnavailable :: string where "codeUnavailable = ''unavailable''"
definition codeInternal :: string where "codeInternal = ''internal''"
definition codeUnsupported :: string where "codeUnsupported = ''unsupported''"
definition codeRunUnavailable :: string where "codeRunUnavailable = ''run_unavailable''"
definition codeRunReadFailed :: string where "codeRunReadFailed = ''run_read_failed''"

section \<open>internal/server/runs.go\<close>

definition runContractVersion :: int where "runContractVersion = 1"
definition partObservedTerminalOutput :: string where "partObservedTerminalOutput = ''observed_terminal_output''"
definition partInterpretedTranscript :: string where "partInterpretedTranscript = ''interpreted_transcript''"
definition partInterpretedInteraction :: string where "partInterpretedInteraction = ''interpreted_interaction''"
definition defaultRunOutputLines :: int where "defaultRunOutputLines = 200"
definition maxRunTextFieldLen :: nat where "maxRunTextFieldLen = 512"

text \<open>The wire types hold the fields of the engine's run and run set; the adapter copies them one by one.\<close>

type_synonym RunSummary = Run
type_synonym RunProjection = RunSet

record Interpretation =
  ip_Enabled :: bool
  ip_Parsers :: "string list"
  ip_MaxTurns :: int

text \<open>The configuration without the options of the terminal bridge.\<close>

record ServerConfig =
  PublicHost :: string
  DevHosts :: "string list"
  AllowedOrigins :: "string list"
  cfg_Quick :: bool
  WorkspaceRoots :: "string list"
  MaxBodyBytes :: int
  RequestTimeout :: duration
  ServerMutationDeadline :: duration
  DeadlineSkew :: duration
  IdempotencyTTL :: duration
  ConfirmationTTL :: duration
  RateEvery :: duration
  RateBurst :: int
  MaxPaneReadLines :: int
  MaxRunOutputLines :: int
  MaxRunOutputBytes :: int
  MaxRuns :: int
  cfg_Interpretation :: Interpretation

definition or_default :: "int \<Rightarrow> int \<Rightarrow> int" where
  "or_default d x = (if x \<le> 0 then d else x)"

definition applyDefaults :: "ServerConfig \<Rightarrow> ServerConfig" where
  "applyDefaults c =
     c\<lparr>MaxBodyBytes := or_default 1048576 (MaxBodyBytes c),
       RequestTimeout := or_default 15000000000 (RequestTimeout c),
       ServerMutationDeadline := or_default 10000000000 (ServerMutationDeadline c),
       DeadlineSkew := or_default 500000000 (DeadlineSkew c),
       IdempotencyTTL := or_default 300000000000 (IdempotencyTTL c),
       ConfirmationTTL := or_default 30000000000 (ConfirmationTTL c),
       RateEvery := or_default 100000000 (RateEvery c),
       RateBurst := or_default 40 (RateBurst c),
       MaxPaneReadLines := or_default 2000 (MaxPaneReadLines c),
       MaxRunOutputLines := or_default 400 (MaxRunOutputLines c),
       MaxRunOutputBytes := or_default 65536 (MaxRunOutputBytes c),
       MaxRuns := or_default 200 (MaxRuns c),
       cfg_Interpretation := (cfg_Interpretation c)
         \<lparr>ip_MaxTurns := or_default (MaxTurns DefaultLimits) (ip_MaxTurns (cfg_Interpretation c))\<rparr>\<rparr>"

definition parses :: "Interpretation \<Rightarrow> string \<Rightarrow> bool" where
  "parses i agentKind = (if \<not> ip_Enabled i \<or> agentKind = [] then False else agentKind \<in> set (ip_Parsers i))"

record runCapabilities =
  rc_ContractVersion :: int
  rc_Supported :: bool
  rc_StructuredMessages :: bool
  rc_StructuredToolCalls :: bool
  rc_StructuredInteractions :: bool
  rc_StructuredDiffs :: bool
  rc_StructuredTests :: bool
  rc_StructuredPlans :: bool
  rc_ObservedTerminalOutput :: bool
  rc_HeuristicInterpretation :: bool
  rc_InterpretationParsers :: "string list"
  rc_PartTypes :: "string list"
  rc_OutputSources :: "string list"
  rc_MaxOutputBytes :: int
  rc_MaxOutputLines :: int
  rc_MaxRuns :: int

definition runPartTypes :: "ServerConfig \<Rightarrow> string list" where
  "runPartTypes cfg =
     (let types = [partObservedTerminalOutput] in
      if ip_Enabled (cfg_Interpretation cfg) then types @ [partInterpretedTranscript, partInterpretedInteraction] else types)"

definition interpretationParsers :: "ServerConfig \<Rightarrow> string list" where
  "interpretationParsers cfg =
     (if \<not> ip_Enabled (cfg_Interpretation cfg) then [] else sort (ip_Parsers (cfg_Interpretation cfg)))"

definition runOutputSources :: "string list" where
  "runOutputSources = [''recent'', ''recent-unwrapped'', ''visible'']"

definition paneReadSources :: "string set" where
  "paneReadSources = {''visible'', ''recent'', ''recent-unwrapped''}"

definition capabilities :: "ServerConfig \<Rightarrow> runCapabilities" where
  "capabilities cfg = \<lparr>rc_ContractVersion = runContractVersion, rc_Supported = True, rc_StructuredMessages = False,
     rc_StructuredToolCalls = False, rc_StructuredInteractions = False, rc_StructuredDiffs = False,
     rc_StructuredTests = False, rc_StructuredPlans = False, rc_ObservedTerminalOutput = True,
     rc_HeuristicInterpretation = ip_Enabled (cfg_Interpretation cfg), rc_InterpretationParsers = interpretationParsers cfg,
     rc_PartTypes = runPartTypes cfg, rc_OutputSources = runOutputSources, rc_MaxOutputBytes = MaxRunOutputBytes cfg,
     rc_MaxOutputLines = MaxRunOutputLines cfg, rc_MaxRuns = MaxRuns cfg\<rparr>"

record runsResponse =
  rr_ContractVersion :: int
  rr_Capabilities :: runCapabilities
  rr_SnapshotHash :: string
  rr_Runs :: "RunSummary list"
  rr_Truncated :: bool

record observedOutputPart =
  op_Type :: string
  op_Source :: string
  op_Format :: string
  op_Lines :: int
  op_Bytes :: nat
  op_Truncated :: bool
  op_Text :: string

record interpretedTranscriptPart =
  tp_Type :: string
  tp_Parser :: string
  tp_Experimental :: bool
  tp_Turns :: "Turn list"
  tp_DroppedTurns :: nat
  tp_DroppedLines :: nat
  tp_StartsMidTurn :: bool

record interpretedInteractionPart =
  np_Type :: string
  np_Parser :: string
  np_Experimental :: bool
  np_Interaction :: string
  np_Title :: string
  np_Detail :: "string list"
  np_Question :: string
  np_Answerable :: bool
  np_Options :: "Option list"
  np_Diff :: "DiffLine list"

datatype part = ObservedPart observedOutputPart | TranscriptPart interpretedTranscriptPart | InteractionPart interpretedInteractionPart

record runResponse =
  rn_ContractVersion :: int
  rn_Capabilities :: runCapabilities
  rn_Run :: RunSummary
  rn_Parts :: "part list"

definition sanitizeRunField :: "string \<Rightarrow> string" where
  "sanitizeRunField s =
     (if s = [] then s
      else
        let out = SanitizeLogLine s
        in if length out > maxRunTextFieldLen then truncateUTF8 out maxRunTextFieldLen else out)"

definition sanitizeRun :: "RunSummary \<Rightarrow> RunSummary" where
  "sanitizeRun run =
     (let run = run\<lparr>WorkspaceLabel := sanitizeRunField (WorkspaceLabel run), TabLabel := sanitizeRunField (TabLabel run),
            AgentName := sanitizeRunField (AgentName run), DisplayAgent := sanitizeRunField (DisplayAgent run),
            Title := sanitizeRunField (Title run), CWD := sanitizeRunField (CWD run),
            ForegroundCWD := sanitizeRunField (ForegroundCWD run)\<rparr>
      in case Worktree run of
           None \<Rightarrow> run
         | Some wt \<Rightarrow> run\<lparr>Worktree := Some (wt\<lparr>rw_RepoName := sanitizeRunField (rw_RepoName wt),
             rw_RepoRoot := sanitizeRunField (rw_RepoRoot wt), rw_CheckoutPath := sanitizeRunField (rw_CheckoutPath wt)\<rparr>)\<rparr>)"

definition boundedRuns :: "ServerConfig \<Rightarrow> RunProjection \<Rightarrow> RunSummary list \<times> bool" where
  "boundedRuns cfg projection =
     (let projected = set_Runs projection; truncated = int (length projected) > MaxRuns cfg;
          projected = (if truncated then take (nat (MaxRuns cfg)) projected else projected)
      in (map sanitizeRun projected, truncated))"

definition findRun :: "RunProjection \<Rightarrow> string \<Rightarrow> RunSummary option" where
  "findRun projection paneID = map_option sanitizeRun (List.find (\<lambda>run. PaneID run = paneID) (set_Runs projection))"

definition boundObservedText :: "string \<Rightarrow> int \<Rightarrow> string \<times> bool" where
  "boundObservedText s maxB =
     (let s = SanitizeTextBlock s in
      if maxB \<le> 0 \<or> int (length s) \<le> maxB then (s, False)
      else (dropWhile (\<lambda>b. \<not> rune_start b) (drop (nat (int (length s) - maxB)) s), True))"

definition countLines :: "string \<Rightarrow> int" where
  "countLines s =
     (if s = [] then 0
      else
        let n = int (count_list s (CHR 0x0A))
        in if \<not> HasSuffix s [CHR 0x0A] then n + 1 else n)"

definition interpretedParts :: "ServerConfig \<Rightarrow> string \<Rightarrow> string \<Rightarrow> part list" where
  "interpretedParts cfg agentKind text =
     (if \<not> parses (cfg_Interpretation cfg) agentKind then []
      else
        case Parse agentKind text (DefaultLimits\<lparr>MaxTurns := ip_MaxTurns (cfg_Interpretation cfg)\<rparr>) of
          None \<Rightarrow> []
        | Some res \<Rightarrow>
            (if res_Turns res \<noteq> []
             then [TranscriptPart \<lparr>tp_Type = partInterpretedTranscript, tp_Parser = res_Parser res, tp_Experimental = True,
                    tp_Turns = res_Turns res, tp_DroppedTurns = res_DroppedTurns res,
                    tp_DroppedLines = res_DroppedLines res, tp_StartsMidTurn = res_PartialLead res\<rparr>]
             else []) @
            (case res_Interaction res of
               None \<Rightarrow> []
             | Some act \<Rightarrow> [InteractionPart \<lparr>np_Type = partInterpretedInteraction, np_Parser = res_Parser res,
                 np_Experimental = True, np_Interaction = in_Kind act, np_Title = in_Title act, np_Detail = in_Detail act,
                 np_Question = in_Question act, np_Answerable = in_Answerable act, np_Options = in_Options act,
                 np_Diff = in_Diff act\<rparr>]))"

datatype ctx_err = CtxLive | CtxDeadlineExceeded | CtxCanceled

text \<open>\<open>code\<close> is the structured code the error carries, empty when it carries none.\<close>

definition classifyReadErr :: "ctx_err \<Rightarrow> string \<Rightarrow> string \<times> int" where
  "classifyReadErr ctx code =
     (if ctx = CtxDeadlineExceeded then (codeDeadlineExceeded, 504)
      else if ctx = CtxCanceled then (codeUnavailable, 503)
      else if code = ''not_found'' then (codeRunUnavailable, 404)
      else if code \<in> {''invalid_params'', ''invalid_request''} then (codeBadRequest, 400)
      else if code \<in> {''feature_disabled'', ''platform_unsupported'', ''plugin_disabled'', ''incompatible''} then (codeUnsupported, 501)
      else if code = ''timeout'' then (codeDeadlineExceeded, 504)
      else if code \<in> {''connect'', ''transport'', ''canceled''} then (codeUnavailable, 503)
      else (codeRunReadFailed, 502))"


section \<open>The handlers\<close>

text \<open>An entry is stamped with the time when it is recorded; the time is zero before.\<close>

record AuditEntry =
  au_Time :: gotime
  au_Event :: string
  au_Subject :: string
  au_SessionID :: string
  au_Operation :: string
  au_Resource :: string
  au_RequestID :: string
  au_Result :: string
  au_Detail :: string
  au_Bytes :: nat

datatype 'a reply = ErrorReply int string string | OkReply 'a

record run_request =
  rq_Subject :: string
  rq_SessionID :: string
  rq_PaneID :: string
  rq_ExpectedGeneration :: string
  rq_Source :: string
  rq_Lines :: string

text \<open>
  What a handler did besides answering: the audit entries it recorded and the pane reads it sent to
  Herdr. \<open>gen\<close> and \<open>projection\<close> are the answers of the two calls to the state provider, which may come from
  different states of the engine; \<open>read\<close> is the pane read (\<open>Inl\<close> the error's code); \<open>ctx\<close> is the state of the
  request context after it; \<open>encodes\<close> says whether the response can be encoded.
\<close>

record 'a handled =
  hd_reply :: "'a reply"
  hd_audit :: "AuditEntry list"
  hd_reads :: "(string \<times> string \<times> int) list"

definition refuse :: "int \<Rightarrow> string \<Rightarrow> string \<Rightarrow> 'a handled" where
  "refuse status code message = \<lparr>hd_reply = ErrorReply status code message, hd_audit = [], hd_reads = []\<rparr>"

definition handleRuns :: "(runsResponse \<Rightarrow> bool) \<Rightarrow> ServerConfig \<Rightarrow> RunProjection \<Rightarrow> runsResponse handled" where
  "handleRuns encodes cfg projection =
     (let (runs, truncated) = boundedRuns cfg projection;
          resp = \<lparr>rr_ContractVersion = runContractVersion, rr_Capabilities = capabilities cfg,
            rr_SnapshotHash = SnapshotHash projection, rr_Runs = runs, rr_Truncated = truncated\<rparr>
      in if \<not> encodes resp then refuse 500 codeInternal ''runs encode failed''
         else \<lparr>hd_reply = OkReply resp, hd_audit = [], hd_reads = []\<rparr>)"

text \<open>The validation of the query: the asserted generation, the source and the line count, or the refusal.\<close>

definition parse_generation :: "run_request \<Rightarrow> 64 word option" where
  "parse_generation rq =
     (if rq_ExpectedGeneration rq = [] then None
      else case ParseUint (rq_ExpectedGeneration rq) of
        None \<Rightarrow> None
      | Some g \<Rightarrow> if g = 0 then None else Some g)"

definition parse_source :: "run_request \<Rightarrow> string option" where
  "parse_source rq =
     (let source = (if rq_Source rq = [] then ''recent-unwrapped'' else rq_Source rq)
      in if source \<notin> paneReadSources then None else Some source)"

definition parse_lines :: "ServerConfig \<Rightarrow> run_request \<Rightarrow> int option" where
  "parse_lines cfg rq =
     (case (if rq_Lines rq = [] then Some defaultRunOutputLines
            else case Atoi (rq_Lines rq) of None \<Rightarrow> None | Some n \<Rightarrow> if n \<le> 0 then None else Some n) of
        None \<Rightarrow> None
      | Some lines \<Rightarrow> Some (if lines > MaxRunOutputLines cfg then MaxRunOutputLines cfg else lines))"

definition run_audit :: "run_request \<Rightarrow> string \<Rightarrow> nat \<Rightarrow> AuditEntry" where
  "run_audit rq result bytes = \<lparr>au_Time = 0, au_Event = ''run.read'', au_Subject = rq_Subject rq, au_SessionID = rq_SessionID rq,
     au_Operation = [], au_Resource = rq_PaneID rq, au_RequestID = [], au_Result = result, au_Detail = [], au_Bytes = bytes\<rparr>"

definition run_reply ::
  "(runResponse \<Rightarrow> bool) \<Rightarrow> ServerConfig \<Rightarrow> run_request \<Rightarrow> RunSummary \<Rightarrow> string \<Rightarrow> int \<Rightarrow> string \<Rightarrow> runResponse handled" where
  "run_reply encodes cfg rq run source lines content =
     (let (text, truncated) = boundObservedText content (MaxRunOutputBytes cfg);
          parts = ObservedPart \<lparr>op_Type = partObservedTerminalOutput, op_Source = source, op_Format = ''text'',
              op_Lines = countLines text, op_Bytes = length text, op_Truncated = truncated, op_Text = text\<rparr>
            # interpretedParts cfg (AgentKind run) text;
          resp = \<lparr>rn_ContractVersion = runContractVersion, rn_Capabilities = capabilities cfg, rn_Run = run, rn_Parts = parts\<rparr>
      in if \<not> encodes resp
         then \<lparr>hd_reply = ErrorReply 500 codeInternal ''run encode failed'', hd_audit = [], hd_reads = [(rq_PaneID rq, source, lines)]\<rparr>
         else \<lparr>hd_reply = OkReply resp, hd_audit = [run_audit rq ''ok'' (length text)], hd_reads = [(rq_PaneID rq, source, lines)]\<rparr>)"

definition handleRun ::
  "(runResponse \<Rightarrow> bool) \<Rightarrow> ServerConfig \<Rightarrow> (string \<Rightarrow> 64 word option) \<Rightarrow> RunProjection \<Rightarrow>
   (string \<Rightarrow> string \<Rightarrow> int \<Rightarrow> string + string) \<Rightarrow> ctx_err \<Rightarrow> run_request \<Rightarrow> runResponse handled" where
  "handleRun encodes cfg gen projection read ctx rq =
     (let paneID = rq_PaneID rq in
      if paneID = [] then refuse 400 codeBadRequest ''missing pane id''
      else case parse_generation rq of
        None \<Rightarrow> refuse 400 codeGenerationStale ''expected_generation is required to read a run''
      | Some expectedGen \<Rightarrow>
     (case parse_source rq of
        None \<Rightarrow> refuse 400 codeBadRequest ''invalid source''
      | Some source \<Rightarrow>
     (case parse_lines cfg rq of
        None \<Rightarrow> refuse 400 codeBadRequest ''invalid lines''
      | Some lines \<Rightarrow>
     (case gen paneID of
        None \<Rightarrow> refuse 409 codeGenerationStale ''pane no longer exists''
      | Some g \<Rightarrow>
          if g \<noteq> expectedGen then refuse 409 codeGenerationStale ''pane changed; refresh and retry''
          else case findRun projection paneID of
            None \<Rightarrow> refuse 404 codeRunUnavailable ''no agent run occupies this pane''
          | Some run \<Rightarrow>
              if PaneGeneration run \<noteq> expectedGen then refuse 409 codeGenerationStale ''pane changed; refresh and retry''
              else case read paneID source lines of
                Inl err \<Rightarrow>
                  let (code, status) = classifyReadErr ctx err
                  in \<lparr>hd_reply = ErrorReply status code ''run output unavailable'',
                      hd_audit = [run_audit rq (''error:'' @ code) 0], hd_reads = [(paneID, source, lines)]\<rparr>
              | Inr content \<Rightarrow> run_reply encodes cfg rq run source lines content))))"

section \<open>What a response carries\<close>

lemma sanitizeRunField_clean: "length (sanitizeRunField s) \<le> maxRunTextFieldLen \<and> valid_utf8 (sanitizeRunField s) \<and> list_all line_clean (runes (sanitizeRunField s))"
proof -
  obtain rs where s: "SanitizeLogLine s = encode_runes rs" and v: "valid_runes rs" and c: "list_all line_clean rs"
    using SanitizeLogLine_runes by blast
  obtain k where k: "truncateUTF8 (encode_runes rs) maxRunTextFieldLen = encode_runes (take k rs)"
    using truncateUTF8_encode_runes by blast
  have f: "sanitizeRunField s = truncateUTF8 (encode_runes rs) maxRunTextFieldLen"
    by (cases "s = []") (use s in \<open>auto simp: sanitizeRunField_def truncateUTF8_def Let_def\<close>)
  have "valid_runes (take k rs)" "list_all line_clean (take k rs)"
    using v c by (auto simp: valid_runes_def list_all_iff dest: in_set_takeD)
  then show ?thesis using truncateUTF8_length [of "encode_runes rs" maxRunTextFieldLen]
    by (simp add: f k rune_simps valid_utf8_encode_runes)
qed

lemma boundObservedText_runes:
  assumes "boundObservedText s n = (text, trunc)"
  shows "\<exists>rs. text = encode_runes rs \<and> valid_runes rs \<and> list_all block_clean rs \<and>
    (\<exists>pre. SanitizeTextBlock s = pre @ text) \<and> (0 < n \<longrightarrow> int (length text) \<le> n) \<and> (\<not> trunc \<longrightarrow> text = SanitizeTextBlock s)"
proof -
  obtain rs where s: "SanitizeTextBlock s = encode_runes rs" and v: "valid_runes rs" and c: "list_all block_clean rs"
    using SanitizeTextBlock_runes by blast
  show ?thesis
  proof (cases "n \<le> 0 \<or> int (length (encode_runes rs)) \<le> n")
    case True
    then have "text = encode_runes rs" "\<not> trunc" using assms s by (auto simp: boundObservedText_def Let_def)
    then show ?thesis using s v c True by auto
  next
    case False
    let ?d = "nat (int (length (encode_runes rs)) - n)"
    have t: "text = dropWhile (\<lambda>b. \<not> rune_start b) (drop ?d (encode_runes rs))" "trunc"
      using assms s False by (auto simp: boundObservedText_def Let_def)
    have "?d \<le> length (encode_runes rs)" using False by (simp add: nat_le_iff)
    from dropWhile_not_start_encode [OF this] obtain k where k: "text = encode_runes (drop k rs)" using t(1) by auto
    have "length text \<le> length (drop ?d (encode_runes rs))" unfolding t(1) by (rule length_dropWhile_le)
    also have "int \<dots> \<le> n" using False by (simp add: of_nat_diff nat_le_iff)
    finally have "int (length text) \<le> n" by simp
    moreover have "encode_runes rs = encode_runes (take k rs) @ text"
      using k by (metis append_take_drop_id encode_runes_append)
    moreover have "valid_runes (drop k rs)" "list_all block_clean (drop k rs)"
      using v c by (auto simp: valid_runes_def list_all_iff dest: in_set_dropD)
    ultimately show ?thesis using k s t(2) by auto
  qed
qed


definition line_count :: "string \<Rightarrow> nat" where
  "line_count s = (let ls = Split s (CHR 0x0A) in if last ls = [] then length ls - 1 else length ls)"

lemma Split_length: "length (Split s c) = Suc (count_list s c)"
  by (induction s) (auto split: list.splits)

lemma Split_single: "Split s c = [[]] \<longleftrightarrow> s = []"
  by (cases s) (auto split: list.splits)

lemma Split_last: "last (Split s c) = [] \<longleftrightarrow> s = [] \<or> last s = c"
proof (induction s)
  case (Cons a s)
  show ?case
  proof (cases "s = []")
    case False
    obtain q qs where q: "Split s c = q # qs" by (cases "Split s c") auto
    have "Split (a # s) c = (if a = c then [] # q # qs else (a # q) # qs)" using q by simp
    moreover have "q # qs \<noteq> [[]]" using Split_single [of s c] q False by simp
    moreover have "last (q # qs) = [] \<longleftrightarrow> last s = c" using Cons.IH q False by simp
    ultimately show ?thesis using False by (auto split: if_splits)
  qed simp
qed simp

lemma countLines_eq: "countLines s = int (line_count s)"
proof (cases "s = []")
  case False
  have "HasSuffix s [CHR 0x0A] \<longleftrightarrow> last s = CHR 0x0A"
    using False by (cases s rule: rev_cases) (auto simp: HasSuffix_def)
  then show ?thesis using False by (simp add: countLines_def line_count_def Let_def Split_length Split_last)
qed (simp add: countLines_def line_count_def)

lemma takeWhile_not_start_encode:
  assumes "n \<le> length (encode_runes rs)"
  shows "length (takeWhile (\<lambda>b. \<not> rune_start b) (drop n (encode_runes rs))) \<le> 3"
  using assms
proof (induction rs arbitrary: n)
  case (Cons r rs)
  have next0: "takeWhile (\<lambda>b. \<not> rune_start b) (encode_runes rs) = []"
  proof (cases rs)
    case (Cons q qs)
    obtain b bs where "encode_rune q = b # bs" by (cases "encode_rune q") auto
    then show ?thesis using encode_rune_start [of q] Cons by simp
  qed simp
  show ?case
  proof (cases "n < length (encode_rune r)")
    case True
    show ?thesis
    proof (cases "n = 0")
      case True
      obtain b bs where "encode_rune r = b # bs" by (cases "encode_rune r") auto
      then show ?thesis using encode_rune_start [of r] True by simp
    next
      case False
      have "\<forall>b \<in> set (drop n (encode_rune r)). \<not> rune_start b"
        using False by (auto simp: in_set_conv_nth encode_rune_cont)
      then have "takeWhile (\<lambda>b. \<not> rune_start b) (drop n (encode_runes (r # rs))) = drop n (encode_rune r)"
        using True next0 by simp
      then show ?thesis using encode_rune_length [of r] False by simp
    qed
  next
    case False
    then show ?thesis using Cons by (simp add: le_diff_conv)
  qed
qed simp

text \<open>
  The observed text of a run is exactly the tail of what the pane showed. It is the sanitized output
  or, when that exceeds the bound, its longest tail within the bound that starts at a character boundary;
  it is valid UTF-8 whose only control characters are newline and tab; and the line and byte counts
  published with it are those of the text itself.
\<close>

theorem observed_text:
  assumes "boundObservedText content n = (text, trunc)"
  shows "(\<exists>pre. SanitizeTextBlock content = pre @ text) \<and> (0 < n \<longrightarrow> int (length text) \<le> n) \<and>
    (trunc \<longleftrightarrow> 0 < n \<and> int (length (SanitizeTextBlock content)) > n) \<and> (\<not> trunc \<longrightarrow> text = SanitizeTextBlock content) \<and>
    (trunc \<longrightarrow> n - int (length text) < 4) \<and>
    valid_utf8 text \<and> list_all block_clean (runes text) \<and> countLines text = int (line_count text)"
proof -
  obtain rs where s: "SanitizeTextBlock content = encode_runes rs" using SanitizeTextBlock_runes by blast
  have tr: "trunc \<longleftrightarrow> 0 < n \<and> int (length (SanitizeTextBlock content)) > n"
    using assms by (auto simp: boundObservedText_def Let_def split: if_splits)
  have "n - int (length text) < 4" if trunc
  proof -
    have b: "0 < n" "int (length (encode_runes rs)) > n" using that tr s by auto
    let ?d = "nat (int (length (encode_runes rs)) - n)"
    have le: "?d \<le> length (encode_runes rs)" using b by (simp add: nat_le_iff)
    have "text = dropWhile (\<lambda>b. \<not> rune_start b) (drop ?d (encode_runes rs))"
      using assms s b by (auto simp: boundObservedText_def Let_def)
    then have "length (drop ?d (encode_runes rs)) =
        length (takeWhile (\<lambda>b. \<not> rune_start b) (drop ?d (encode_runes rs))) + length text"
      by (metis length_append takeWhile_dropWhile_id)
    moreover have "length (takeWhile (\<lambda>b. \<not> rune_start b) (drop ?d (encode_runes rs))) \<le> 3"
      by (rule takeWhile_not_start_encode [OF le])
    moreover have "int (length (drop ?d (encode_runes rs))) = n" using b by (simp add: of_nat_diff nat_le_iff)
    ultimately show ?thesis by linarith
  qed
  moreover obtain qs where q: "text = encode_runes qs" "valid_runes qs" "list_all block_clean qs"
    "\<exists>pre. SanitizeTextBlock content = pre @ text" "0 < n \<longrightarrow> int (length text) \<le> n" "\<not> trunc \<longrightarrow> text = SanitizeTextBlock content"
    using boundObservedText_runes [OF assms] by blast
  moreover have "valid_utf8 text" "list_all block_clean (runes text)" using q(1-3) by (simp_all add: valid_utf8_encode_runes runes_encode_runes)
  ultimately show ?thesis using tr countLines_eq by blast
qed

theorem observed_text_witness:
  "snd (boundObservedText ''ab'' 1) \<and> int (length (fst (boundObservedText ''ab'' 1))) \<le> 1"
proof -
  have e: "''ab'' = encode_runes [97, 98]" by (simp add: encode_rune_def) code_simp
  have v: "valid_runes [97, 98]" by (simp add: valid_rune_def)
  have "SanitizeTextBlock ''ab'' = ''ab''" unfolding SanitizeTextBlock_def
    unfolding e using v valid_utf8_encode_runes [OF v] by (intro text_block.keeps_clean) (simp_all only: runes_encode_runes, simp add: clean_defs RuneError_def)
  then have l: "length (SanitizeTextBlock ''ab'') = 2" by simp
  obtain t b where t: "boundObservedText ''ab'' 1 = (t, b)" by fastforce
  from observed_text [OF t] l t show ?thesis by simp
qed

section \<open>The guard of a run read\<close>

lemma findRun_Some: "findRun projection p = Some run \<Longrightarrow> \<exists>r\<in>set (set_Runs projection). PaneID r = p \<and> run = sanitizeRun r"
  by (auto simp: findRun_def find_Some_iff)

lemma sanitizeRun_identity [simp]:
  "PaneID (sanitizeRun r) = PaneID r" "PaneGeneration (sanitizeRun r) = PaneGeneration r"
  "RunID (sanitizeRun r) = RunID r" "AgentIncarnation (sanitizeRun r) = AgentIncarnation r"
  "Status (sanitizeRun r) = Status r" "AgentKind (sanitizeRun r) = AgentKind r"
  by (simp_all add: sanitizeRun_def Let_def split: option.split)

lemma handleRun_reads:
  assumes "hd_reads (handleRun encodes cfg gen projection read ctx rq) \<noteq> []"
  obtains expectedGen source lines run where
    "rq_PaneID rq \<noteq> []" "parse_generation rq = Some expectedGen" "parse_source rq = Some source" "parse_lines cfg rq = Some lines"
    "gen (rq_PaneID rq) = Some expectedGen" "findRun projection (rq_PaneID rq) = Some run" "PaneGeneration run = expectedGen"
    "hd_reads (handleRun encodes cfg gen projection read ctx rq) = [(rq_PaneID rq, source, lines)]"
  using assms
  by (auto simp: handleRun_def refuse_def run_reply_def Let_def split_beta split: if_splits option.splits sum.splits)

text \<open>
  C16: a run is read only under the generation the client asserted. A request causes at most one pane read,
  for the pane it names, an allowlisted source and a line count within the configured bound, and only
  when its asserted generation is a non-zero number equal both to the pane's current generation and to that of the run
  found for the pane; a request that fails any of these checks is refused without a read.
\<close>

theorem handleRun_guarded:
  assumes "hd_reads (handleRun encodes cfg gen projection read ctx rq) \<noteq> []" "0 < MaxRunOutputLines cfg"
  shows "\<exists>g source lines r. hd_reads (handleRun encodes cfg gen projection read ctx rq) = [(rq_PaneID rq, source, lines)] \<and>
    ParseUint (rq_ExpectedGeneration rq) = Some g \<and> g \<noteq> 0 \<and> gen (rq_PaneID rq) = Some g \<and>
    r \<in> set (set_Runs projection) \<and> PaneID r = rq_PaneID rq \<and> PaneGeneration r = g \<and>
    source \<in> set runOutputSources \<and> 0 < lines \<and> lines \<le> MaxRunOutputLines cfg"
  using assms(1)
proof (rule handleRun_reads)
  fix g source lines run
  assume r: "parse_generation rq = Some g" "parse_source rq = Some source" "parse_lines cfg rq = Some lines"
    "gen (rq_PaneID rq) = Some g" "findRun projection (rq_PaneID rq) = Some run" "PaneGeneration run = g"
    "hd_reads (handleRun encodes cfg gen projection read ctx rq) = [(rq_PaneID rq, source, lines)]"
  have "ParseUint (rq_ExpectedGeneration rq) = Some g" "g \<noteq> 0"
    using r(1) by (auto simp: parse_generation_def split: if_splits option.splits)
  moreover have "source \<in> set runOutputSources"
    using r(2) by (auto simp: parse_source_def Let_def paneReadSources_def runOutputSources_def split: if_splits)
  moreover have "0 < lines" "lines \<le> MaxRunOutputLines cfg"
    using r(3) assms(2) by (auto simp: parse_lines_def defaultRunOutputLines_def split: if_splits option.splits)
  moreover obtain r' where "r' \<in> set (set_Runs projection)" "PaneID r' = rq_PaneID rq" "PaneGeneration r' = g"
    using findRun_Some [OF r(5)] r(6) by auto
  ultimately show ?thesis using r(4,7) by blast
qed

text \<open>The state provider the server is given: what it relies on when it reads generations and runs.\<close>

locale state_view =
  fixes view_generation :: "'s \<Rightarrow> string \<Rightarrow> 64 word option"
    and view_runs :: "'s \<Rightarrow> RunSet"
    and view_ok :: "'s \<Rightarrow> bool"
  assumes runs_generation: "view_ok s \<Longrightarrow> r \<in> set (set_Runs (view_runs s)) \<Longrightarrow> view_generation s (PaneID r) = Some (PaneGeneration r)"
    and runs_distinct: "view_ok s \<Longrightarrow> distinct (map PaneID (set_Runs (view_runs s)))"
begin

lemma findRun_generation:
  "view_ok s \<Longrightarrow> findRun (view_runs s) p = Some run \<Longrightarrow> view_generation s p = Some (PaneGeneration run)"
  using runs_generation by (auto dest!: findRun_Some)

lemma findRun_exact:
  assumes "view_ok s" "r \<in> set (set_Runs (view_runs s))"
  shows "findRun (view_runs s) (PaneID r) = Some (sanitizeRun r)"
proof -
  have "List.find (\<lambda>run. PaneID run = PaneID r) xs = Some r" if "r \<in> set xs" "distinct (map PaneID xs)" for xs
    using that by (induction xs) (auto simp: image_iff)
  then show ?thesis using assms runs_distinct by (simp add: findRun_def)
qed

end

definition engine_view_ok :: "Engine \<Rightarrow> bool" where
  "engine_view_ok e \<longleftrightarrow> (\<exists>d z T. identifying_digest d T \<and> engine_reachable d z T e)"

interpretation engine_view: state_view Generation "Runs hexsha" engine_view_ok for hexsha
proof
  fix e r assume "engine_view_ok e" "r \<in> set (set_Runs (Runs hexsha e))"
  then show "Generation e (PaneID r) = Some (PaneGeneration r)"
    by (auto simp: Runs_def set_projectRuns Generation_def project_run_Some split: option.splits)
next
  fix e assume "engine_view_ok e"
  then obtain d z T where r: "identifying_digest d T" "engine_reachable d z T e" by (auto simp: engine_view_ok_def)
  from engine_reachable_inv [OF this] r(1) show "distinct (map PaneID (set_Runs (Runs hexsha e)))"
    by (auto simp: Runs_def engine_inv_def current_inv_def identifying_digest_def projectRuns_distinct split: option.splits)
qed


text \<open>
  C30: on one state of the engine the two guards of a run read agree. A well-formed request leads to a pane
  read exactly when the asserted generation is the pane's and an agent run occupies the pane, and the
  answer then carries that run; the second generation check only ever refuses when the engine moved
  between the two calls.
\<close>

theorem handleRun_on_engine:
  assumes "engine_view_ok e" "rq_PaneID rq \<noteq> []" "parse_generation rq = Some g" "parse_source rq = Some source" "parse_lines cfg rq = Some lines"
  shows "(hd_reads (handleRun encodes cfg (Generation e) (Runs hexsha e) read ctx rq) \<noteq> [] \<longleftrightarrow>
      CheckGeneration e (rq_PaneID rq) g \<and> rq_PaneID rq \<in> PaneID ` set (set_Runs (Runs hexsha e))) \<and>
    (\<forall>resp. hd_reply (handleRun encodes cfg (Generation e) (Runs hexsha e) read ctx rq) = OkReply resp \<longrightarrow>
      (\<exists>r\<in>set (set_Runs (Runs hexsha e)). PaneID r = rq_PaneID rq \<and> PaneGeneration r = g \<and> rn_Run resp = sanitizeRun r))"
proof -
  let ?h = "handleRun encodes cfg (Generation e) (Runs hexsha e) read ctx rq"
  have one: "findRun (Runs hexsha e) (rq_PaneID rq) = None \<longleftrightarrow> rq_PaneID rq \<notin> PaneID ` set (set_Runs (Runs hexsha e))"
    by (force simp: findRun_def find_None_iff)
  have agree: "Generation e (rq_PaneID rq) = Some (PaneGeneration run)" if "findRun (Runs hexsha e) (rq_PaneID rq) = Some run" for run
    by (rule engine_view.findRun_generation [OF assms(1) that])
  have "hd_reads ?h \<noteq> []" if "Generation e (rq_PaneID rq) = Some g" "findRun (Runs hexsha e) (rq_PaneID rq) = Some run" for run
    using assms that agree [OF that(2)] by (simp add: handleRun_def run_reply_def Let_def split_beta split: sum.split)
  moreover have "CheckGeneration e (rq_PaneID rq) g \<and> rq_PaneID rq \<in> PaneID ` set (set_Runs (Runs hexsha e))" if "hd_reads ?h \<noteq> []"
    using that by (rule handleRun_reads) (use assms(3) one in \<open>auto simp: CheckGeneration_def\<close>)
  moreover have "\<exists>r\<in>set (set_Runs (Runs hexsha e)). PaneID r = rq_PaneID rq \<and> PaneGeneration r = g \<and> rn_Run resp = sanitizeRun r"
    if ok: "hd_reply ?h = OkReply resp" for resp
  proof -
    obtain run where "findRun (Runs hexsha e) (rq_PaneID rq) = Some run" "PaneGeneration run = g" "rn_Run resp = run"
      using ok assms(2-5)
      by (auto simp: handleRun_def refuse_def run_reply_def Let_def split_beta split: if_splits option.splits sum.splits)
    then show ?thesis by (auto dest!: findRun_Some)
  qed
  ultimately show ?thesis using one by (fastforce simp: CheckGeneration_def split: option.splits)
qed

definition example_request :: run_request where
  "example_request = \<lparr>rq_Subject = ''op'', rq_SessionID = ''s'', rq_PaneID = ''p'', rq_ExpectedGeneration = ''1'',
     rq_Source = [], rq_Lines = []\<rparr>"

definition example_config :: ServerConfig where
  "example_config = applyDefaults \<lparr>PublicHost = ''phone.example'', DevHosts = [], AllowedOrigins = [''https://phone.example''],
     cfg_Quick = False, WorkspaceRoots = [], MaxBodyBytes = 0, RequestTimeout = 0, ServerMutationDeadline = 0,
     DeadlineSkew = 0, IdempotencyTTL = 0, ConfirmationTTL = 0, RateEvery = 0, RateBurst = 0, MaxPaneReadLines = 0,
     MaxRunOutputLines = 0, MaxRunOutputBytes = 0, MaxRuns = 0,
     cfg_Interpretation = \<lparr>ip_Enabled = False, ip_Parsers = [], ip_MaxTurns = 0\<rparr>\<rparr>"

lemma example_request_parsed:
  "rq_PaneID example_request = ''p''" "parse_generation example_request = Some 1"
  "parse_source example_request = Some ''recent-unwrapped''" "parse_lines example_config example_request = Some 200"
  by (simp_all add: example_request_def parse_generation_def ParseUint_def digit_char_def from_decimal_def parse_source_def
      paneReadSources_def parse_lines_def example_config_def applyDefaults_def or_default_def Let_def defaultRunOutputLines_def)


definition example_read :: "string \<Rightarrow> string \<Rightarrow> int \<Rightarrow> string + string" where
  "example_read p s n = Inr []"

lemma example_polled_view: "engine_view_ok example_polled"
  unfolding engine_view_ok_def
  using example_polled_reachable by (intro exI conjI) (auto simp: identifying_digest_def wf_panes_def)

lemma example_runs:
  assumes "current e = Some s" "Topo s = Some (example_topology [] [example_pane i x])" "generations e i \<noteq> None"
  shows "i \<in> PaneID ` set (set_Runs (Runs hexsha e))"
proof -
  let ?t = "example_topology [] [example_pane i x]"
  have "project_run hexsha ?t (generations e) (occupants e) (example_pane i x) \<noteq> None"
    using assms(3) by (simp add: project_run_None) (simp add: example_pane_def)
  then obtain r where r: "project_run hexsha ?t (generations e) (occupants e) (example_pane i x) = Some r" by blast
  then have "r \<in> set (set_Runs (Runs hexsha e))" using assms(1,2) by (simp add: Runs_def set_projectRuns)
  then show ?thesis using project_run_Some(1) [OF r] by force
qed

lemma example_poll_current:
  assumes "\<forall>c. current e = Some c \<longrightarrow> Hash c \<noteq> hashTopology d (example_topology [] ps)"
  shows "\<exists>s. current (run_polls d z [example_poll ps] e) = Some s \<and> Topo s = Some (example_topology [] ps) \<and>
    Hash s = hashTopology d (example_topology [] ps)"
  using assms by (auto simp: run_polls_def example_poll_def apply_outcome_def Let_def publish_def split: option.split)

lemma example_hash:
  "hashTopology example_digest (example_topology [] []) = []"
  "hashTopology example_digest (example_topology [] [p]) = OccupantFingerprint p"
  by (simp_all add: hashTopology_def example_digest_def project_def example_topology_def project_pane_def)

lemma example_polled_current:
  "\<exists>s. current example_polled = Some s \<and> Topo s = Some (example_topology [] [example_pane ''p'' ''x'']) \<and>
     Hash s = OccupantFingerprint (example_pane ''p'' ''x'')"
proof -
  have "current example_engine = None" by (simp add: example_engine_def NewEngine_def Let_def)
  then show ?thesis
    using example_poll_current [of example_engine example_digest "[example_pane ''p'' ''x'']" example_size]
    by (simp add: example_polled_def example_hash)
qed

theorem handleRun_on_engine_witness:
  "hd_reads (handleRun (\<lambda>_. True) example_config (Generation example_polled) (Runs id example_polled) example_read CtxLive example_request) \<noteq> []"
proof -
  have "''p'' \<in> PaneID ` set (set_Runs (Runs id example_polled))"
    using example_polled_current by (auto intro: example_runs)
  then show ?thesis
    using handleRun_on_engine [OF example_polled_view, of example_request 1 "''recent-unwrapped''" example_config 200 "\<lambda>_. True" id example_read CtxLive]
    by (simp add: example_request_parsed CheckGeneration_def Generation_def)
qed

theorem handleRun_guarded_witness:
  "\<exists>g. ParseUint (rq_ExpectedGeneration example_request) = Some g \<and> Generation example_polled ''p'' = Some g"
proof -
  let ?h = "handleRun (\<lambda>_. True) example_config (Generation example_polled) (Runs id example_polled) example_read CtxLive example_request"
  have "''p'' \<in> PaneID ` set (set_Runs (Runs id example_polled))"
    using example_polled_current by (auto intro: example_runs)
  then obtain run where f: "findRun (Runs id example_polled) ''p'' = Some run"
    by (auto simp: findRun_def find_None_iff split: option.splits) (cases "List.find (\<lambda>run. PaneID run = ''p'') (set_Runs (Runs id example_polled))"; force simp: find_None_iff)
  from engine_view.findRun_generation [OF example_polled_view f] have "PaneGeneration run = 1" by (simp add: Generation_def)
  then have "hd_reads ?h \<noteq> []"
    using f by (simp add: handleRun_def example_request_parsed Generation_def example_read_def run_reply_def Let_def split_beta)
  from handleRun_guarded [OF this] show ?thesis by (auto simp: example_config_def applyDefaults_def or_default_def Let_def example_request_parsed)
qed

text \<open>
  The generation does not protect a run read from recycling. The pane of the example is read under
  generation 1, disappears in one poll and comes back with another occupant; a request that still asserts
  generation 1 is then answered from the new occupant's pane.
\<close>

theorem handleRun_recycled:
  "let e = run_polls example_digest example_size [example_poll [], example_poll [example_pane ''p'' ''y'']] example_polled
   in occupants e ''p'' \<noteq> occupants example_polled ''p'' \<and>
      hd_reads (handleRun (\<lambda>_. True) example_config (Generation e) (Runs id e) example_read CtxLive example_request) =
        [(''p'', ''recent-unwrapped'', 200)]"
proof -
  let ?e1 = "run_polls example_digest example_size [example_poll []] example_polled"
  let ?e = "run_polls example_digest example_size [example_poll [example_pane ''p'' ''y'']] ?e1"
  obtain s1 where s1: "current ?e1 = Some s1" "Hash s1 = []"
    using example_polled_current example_poll_current [of example_polled example_digest "[]" example_size] by (auto simp: example_hash)
  obtain s where s: "current ?e = Some s" "Topo s = Some (example_topology [] [example_pane ''p'' ''y''])"
    using s1 example_poll_current [of ?e1 example_digest "[example_pane ''p'' ''y'']" example_size]
      not_sym [OF fingerprint_nonempty [of "example_pane ''p'' ''y''"]] by (simp add: example_hash) blast
  have g: "gens_inv ?e1" by (simp add: run_example_poll)
  have gen: "generations ?e ''p'' = Some 1" "occupants ?e ''p'' = Some (OccupantFingerprint (example_pane ''p'' ''y''))"
    by (simp_all add: run_example_poll [OF g] run_example_poll(1,2) next_generation_def pane_occupants_def)
  have "''p'' \<in> PaneID ` set (set_Runs (Runs id ?e))" using s gen(1) by (auto intro: example_runs)
  then obtain run where f: "findRun (Runs id ?e) ''p'' = Some run"
    by (cases "findRun (Runs id ?e) ''p''") (force simp: findRun_def find_None_iff)+
  then have "PaneGeneration run = 1"
    using gen(1) by (auto dest!: findRun_Some project_run_Some(2) simp: Runs_def s set_projectRuns)
  then have "hd_reads (handleRun (\<lambda>_. True) example_config (Generation ?e) (Runs id ?e) example_read CtxLive example_request) =
      [(''p'', ''recent-unwrapped'', 200)]"
    using f gen(1) by (simp add: handleRun_def example_request_parsed Generation_def example_read_def run_reply_def Let_def split_beta)
  moreover have "?e = run_polls example_digest example_size [example_poll [], example_poll [example_pane ''p'' ''y'']] example_polled"
    by (simp add: run_polls_def)
  ultimately show ?thesis using gen(2) by simp
qed

end
