(* ===== verification/Json.thy ===== *)
theory Json
  imports GoStrings "HOL-Library.AList"
begin

text \<open>
  What the relay uses of package encoding/json. A value is the tree the decoder reads; an object keeps
  its members in wire order, repeated keys included, because Go treats them differently when it decodes
  into a map and into a struct. Strings are the decoded bytes and a number is its literal.
\<close>

section \<open>Values\<close>

datatype json = JNull | JBool bool | JNum string | JStr string | JArr "json list" | JObj "(string \<times> json) list"

lemma json_size_member [termination_simp]: "(k, v) \<in> set ms \<Longrightarrow> size v < Suc (size_list (size_prod (\<lambda>_. 0) size) ms)"
  by (induction ms) auto

section \<open>Decoding into a map, a string and an untyped value\<close>

text \<open>Into \<open>map[string]json.RawMessage\<close>: of several members with one key the last stays.\<close>

fun members :: "json \<Rightarrow> (string \<times> json) list option" where
  "members (JObj ms) = Some ms"
| "members JNull = Some []"
| "members _ = None"

definition last_member :: "(string \<times> json) list \<Rightarrow> string \<Rightarrow> json option" where
  "last_member ms k = map_of (rev ms) k"

text \<open>Into a fresh \<open>string\<close>: \<open>null\<close> leaves it empty.\<close>

fun json_string :: "json \<Rightarrow> string option" where
  "json_string (JStr s) = Some s"
| "json_string JNull = Some []"
| "json_string _ = None"

text \<open>
  Into \<open>any\<close>: a number becomes a \<open>float64\<close> (\<open>fnum\<close> renders it as the encoder does and fails out of
  range), an object becomes a map, whose keys the encoder sorts.
\<close>

definition canonical_members :: "(string \<times> json) list \<Rightarrow> (string \<times> json) list" where
  "canonical_members ms = sort_key fst (AList.clearjunk (rev ms))"

fun untyped :: "(string \<Rightarrow> string option) \<Rightarrow> json \<Rightarrow> json option" where
  "untyped fnum JNull = Some JNull"
| "untyped fnum (JBool b) = Some (JBool b)"
| "untyped fnum (JStr s) = Some (JStr s)"
| "untyped fnum (JNum n) = map_option JNum (fnum n)"
| "untyped fnum (JArr xs) = map_option JArr (those (map (untyped fnum) xs))"
| "untyped fnum (JObj ms) =
     map_option (JObj \<circ> canonical_members) (those (map (\<lambda>(k, v). map_option (Pair k) (untyped fnum v)) ms))"

section \<open>Encoding\<close>

definition hex_digit :: "nat \<Rightarrow> char" where
  "hex_digit n = (if n < 10 then char_of (48 + n) else char_of (87 + n))"

definition escape_chunk :: "rune \<times> string \<Rightarrow> string" where
  "escape_chunk c =
     (case c of (r, bytes) \<Rightarrow>
        if r = 0x22 \<or> r = 0x5C then CHR 0x5C # bytes
        else if r = 0x08 then [CHR 0x5C, CHR ''b'']
        else if r = 0x0C then [CHR 0x5C, CHR ''f'']
        else if r = 0x0A then [CHR 0x5C, CHR ''n'']
        else if r = 0x0D then [CHR 0x5C, CHR ''r'']
        else if r = 0x09 then [CHR 0x5C, CHR ''t'']
        else if r < 0x20 \<or> r = 0x3C \<or> r = 0x3E \<or> r = 0x26
        then CHR 0x5C # ''u00'' @ [hex_digit (r div 16), hex_digit (r mod 16)]
        else if r = RuneError \<and> length bytes = 1 then CHR 0x5C # ''ufffd''
        else if r = 0x2028 then CHR 0x5C # ''u2028''
        else if r = 0x2029 then CHR 0x5C # ''u2029''
        else bytes)"

definition quote :: "string \<Rightarrow> string" where
  "quote s = CHR 0x22 # concat (map escape_chunk (rune_chunks s)) @ [CHR 0x22]"

fun separated :: "string list \<Rightarrow> string" where
  "separated [] = []"
| "separated [x] = x"
| "separated (x # y # xs) = x @ '','' @ separated (y # xs)"

fun encode_json :: "json \<Rightarrow> string" where
  "encode_json JNull = ''null''"
| "encode_json (JBool b) = (if b then ''true'' else ''false'')"
| "encode_json (JNum n) = n"
| "encode_json (JStr s) = quote s"
| "encode_json (JArr xs) = ''['' @ separated (map encode_json xs) @ '']''"
| "encode_json (JObj ms) = ''{'' @ separated (map (\<lambda>(k, v). quote k @ '':'' @ encode_json v) ms) @ ''}''"

section \<open>Decoding into a struct\<close>

text \<open>
  A key selects the field of that name or else the first field whose name it matches under case
  folding. A key that selects none is an error for a decoder that disallows unknown fields.
\<close>

definition select_field :: "string list \<Rightarrow> string \<Rightarrow> string option" where
  "select_field fields k = (if k \<in> set fields then Some k else List.find (EqualFold k) fields)"

definition select_fields :: "string list \<Rightarrow> json \<Rightarrow> (string \<times> json) list option" where
  "select_fields fields j =
     (case members j of
        None \<Rightarrow> None
      | Some ms \<Rightarrow> those (map (\<lambda>(k, v). map_option (\<lambda>f. (f, v)) (select_field fields k)) ms))"

text \<open>\<open>json.Unmarshal\<close> skips a key that selects no field.\<close>

definition select_known :: "string list \<Rightarrow> json \<Rightarrow> (string \<times> json) list option" where
  "select_known fields j =
     map_option (\<lambda>ms. List.map_filter (\<lambda>(k, v). map_option (\<lambda>f. (f, v)) (select_field fields k)) ms) (members j)"

definition field_values :: "(string \<times> json) list \<Rightarrow> string \<Rightarrow> json list" where
  "field_values fs f = map snd (filter (\<lambda>(g, v). g = f) fs)"

text \<open>
  The values of one field are stored one after another; \<open>null\<close> leaves a scalar or a struct as it is and
  empties a map or a slice.
\<close>

fun store_all :: "('a \<Rightarrow> json \<Rightarrow> 'a option) \<Rightarrow> 'a \<Rightarrow> json list \<Rightarrow> 'a option" where
  "store_all st x [] = Some x"
| "store_all st x (v # vs) = (case st x v of None \<Rightarrow> None | Some y \<Rightarrow> store_all st y vs)"

fun store_string :: "string \<Rightarrow> json \<Rightarrow> string option" where
  "store_string x (JStr s) = Some s"
| "store_string x JNull = Some x"
| "store_string x _ = None"

fun store_bool :: "bool \<Rightarrow> json \<Rightarrow> bool option" where
  "store_bool x (JBool b) = Some b"
| "store_bool x JNull = Some x"
| "store_bool x _ = None"

fun store_float :: "(string \<Rightarrow> string option) \<Rightarrow> string \<Rightarrow> json \<Rightarrow> string option" where
  "store_float fnum x (JNum n) = fnum n"
| "store_float fnum x JNull = Some x"
| "store_float fnum x _ = None"

fun store_int :: "(string \<Rightarrow> int option) \<Rightarrow> int \<Rightarrow> json \<Rightarrow> int option" where
  "store_int inum x (JNum n) = inum n"
| "store_int inum x JNull = Some x"
| "store_int inum x _ = None"

fun store_members :: "(string \<times> json) list \<Rightarrow> json \<Rightarrow> (string \<times> json) list option" where
  "store_members x (JObj ms) = Some (x @ ms)"
| "store_members x JNull = Some x"
| "store_members x _ = None"

fun store_map :: "(string \<times> string) list \<Rightarrow> json \<Rightarrow> (string \<times> string) list option" where
  "store_map x (JObj ms) =
     map_option (foldl (\<lambda>m (k, s). AList.update k s m) x) (those (map (\<lambda>(k, v). map_option (Pair k) (json_string v)) ms))"
| "store_map x JNull = Some []"
| "store_map x _ = None"

text \<open>
  A slice is a backing array and a length; an element that is \<open>null\<close> keeps what its slot of the backing
  array held before.
\<close>

fun store_slice :: "('a \<Rightarrow> json \<Rightarrow> 'a option) \<Rightarrow> 'a \<Rightarrow> 'a list \<times> nat \<Rightarrow> json \<Rightarrow> ('a list \<times> nat) option" where
  "store_slice st z (b, n) (JArr xs) =
     (if xs = [] then Some ([], 0)
      else map_option (\<lambda>ys. (ys @ drop (length xs) b, length xs))
             (those (map (\<lambda>(i, v). st (if i < length b then b ! i else z) v) (enumerate 0 xs))))"
| "store_slice st z x JNull = Some ([], 0)"
| "store_slice st z x _ = None"

definition get_string :: "(string \<times> json) list \<Rightarrow> string \<Rightarrow> string option" where
  "get_string fs f = store_all store_string [] (field_values fs f)"

definition get_bool :: "(string \<times> json) list \<Rightarrow> string \<Rightarrow> bool option" where
  "get_bool fs f = store_all store_bool False (field_values fs f)"

definition get_float :: "(string \<Rightarrow> string option) \<Rightarrow> (string \<times> json) list \<Rightarrow> string \<Rightarrow> string option" where
  "get_float fnum fs f = store_all (store_float fnum) ''0'' (field_values fs f)"

definition get_int :: "(string \<Rightarrow> int option) \<Rightarrow> (string \<times> json) list \<Rightarrow> string \<Rightarrow> int option" where
  "get_int inum fs f = store_all (store_int inum) 0 (field_values fs f)"

definition get_map :: "(string \<times> json) list \<Rightarrow> string \<Rightarrow> (string \<times> string) list option" where
  "get_map fs f = store_all store_map [] (field_values fs f)"

definition get_slice :: "('a \<Rightarrow> json \<Rightarrow> 'a option) \<Rightarrow> 'a \<Rightarrow> (string \<times> json) list \<Rightarrow> string \<Rightarrow> 'a list option" where
  "get_slice st z fs f = map_option (\<lambda>(b, n). take n b) (store_all (store_slice st z) ([], 0) (field_values fs f))"

definition get_strings :: "(string \<times> json) list \<Rightarrow> string \<Rightarrow> string list option" where
  "get_strings fs f = get_slice store_string [] fs f"

definition get_members :: "(string \<times> json) list \<Rightarrow> string \<Rightarrow> (string \<times> json) list option" where
  "get_members fs f = store_all store_members [] (field_values fs f)"

section \<open>A field and a map entry of the same name\<close>

text \<open>
  No key of the object is a case variant of a field name: then the struct field and the map entry of the
  same name see the same values.
\<close>

definition exact_keys :: "string list \<Rightarrow> json \<Rightarrow> bool" where
  "exact_keys fields j = (case members j of None \<Rightarrow> True | Some ms \<Rightarrow> list_all (\<lambda>(k, v). k \<in> set fields) ms)"

lemma those_eq_Some: "those xs = Some ys \<longleftrightarrow> xs = map Some ys"
  by (induction xs arbitrary: ys) (auto split: option.splits)

lemma select_fields_exact:
  assumes "exact_keys fields j" "members j = Some ms"
  shows "select_fields fields j = Some ms"
proof -
  have "map (\<lambda>(k, v). map_option (\<lambda>f. (f, v)) (select_field fields k)) ms = map Some ms"
    using assms by (auto simp: exact_keys_def list_all_iff select_field_def)
  then show ?thesis using assms(2) by (simp add: select_fields_def those_eq_Some)
qed

lemma store_all_append: "store_all st x (vs @ ws) = Option.bind (store_all st x vs) (\<lambda>y. store_all st y ws)"
  by (induction vs arbitrary: x) (auto split: option.split)

lemma field_values_last:
  assumes "last_member ms f = Some v"
  shows "\<exists>vs. field_values ms f = vs @ [v]"
proof -
  have "map_of (rev ms) f = Some v \<Longrightarrow> \<exists>ws. map snd (filter (\<lambda>(g, v). g = f) (rev ms)) = v # ws"
    by (induction ms rule: rev_induct) (auto split: if_splits)
  then obtain ws where "rev (field_values ms f) = v # ws"
    using assms by (auto simp: last_member_def field_values_def rev_map rev_filter)
  then show ?thesis by (metis rev_rev_ident rev.simps(2))
qed

lemma get_string_last:
  assumes "last_member ms f = Some (JStr s)" "get_string ms f = Some t"
  shows "t = s"
  using field_values_last [OF assms(1)] assms(2) by (auto simp: get_string_def store_all_append bind_eq_Some_conv)

lemma get_string_absent:
  assumes "last_member ms f = None"
  shows "get_string ms f = Some []"
proof -
  have "field_values ms f = []" using assms
    by (force simp: last_member_def field_values_def map_of_eq_None_iff filter_empty_conv)
  then show ?thesis by (simp add: get_string_def)
qed

end
