(* ===== verification/HerdrCalls.thy ===== *)
theory HerdrCalls
  imports Json Strconv HerdrModel Sanitize
begin

text \<open>
  The typed mutation functions of the Herdr client (internal/herdr/mutations.go and agents.go): which
  arguments each of them refuses and which request it sends. The transport behind \<open>call\<close> is not modelled;
  a function is described by the request it makes.
\<close>

section \<open>Requests and errors\<close>

text \<open>
  A typed client function either refuses its arguments or sends one request: the method, its parameters
  as they are encoded, and the discriminator expected of the result.
\<close>

record herdr_request =
  hr_method :: string
  hr_params :: json
  hr_expect :: string

record Error =
  Code :: string
  Message :: string

definition CodeInvalidParams :: string where "CodeInvalidParams = ''invalid_params''"

definition newError :: "string \<Rightarrow> string \<Rightarrow> Error" where
  "newError code msg = \<lparr>Code = code, Message = sanitizeMessage msg\<rparr>"

type_synonym client_call = "Error + herdr_request"

definition call :: "string \<Rightarrow> (string \<times> json) list \<Rightarrow> string \<Rightarrow> client_call" where
  "call meth params expected = Inr \<lparr>hr_method = meth, hr_params = JObj params, hr_expect = expected\<rparr>"

definition invalid :: "string \<Rightarrow> client_call" where
  "invalid msg = Inl (newError CodeInvalidParams msg)"

text \<open>A pointer, map or slice field that is left out when empty.\<close>

definition optStr :: "string \<Rightarrow> string option" where
  "optStr s = (if s = [] then None else Some s)"

definition omit_string :: "string \<Rightarrow> string option \<Rightarrow> (string \<times> json) list" where
  "omit_string k p = (case p of None \<Rightarrow> [] | Some s \<Rightarrow> [(k, JStr s)])"

definition omit_map :: "string \<Rightarrow> (string \<times> string) list \<Rightarrow> (string \<times> json) list" where
  "omit_map k m = (if m = [] then [] else [(k, JObj (sort_key fst (map (\<lambda>(x, v). (x, JStr v)) m)))])"

definition omit_strings :: "string \<Rightarrow> string list \<Rightarrow> (string \<times> json) list" where
  "omit_strings k xs = (if xs = [] then [] else [(k, JArr (map JStr xs))])"

text \<open>A \<open>float64\<close> is its rendering; it is sent only when it is positive.\<close>

definition num_positive :: "string \<Rightarrow> bool" where
  "num_positive n \<longleftrightarrow> n \<noteq> ''0'' \<and> \<not> HasPrefix n ''-''"

definition omit_float :: "string \<Rightarrow> string \<Rightarrow> (string \<times> json) list" where
  "omit_float k n = (if num_positive n then [(k, JNum n)] else [])"

section \<open>internal/herdr/mutations.go: workspaces\<close>

record WorkspaceCreateOptions =
  wc_CWD :: string
  wc_Label :: string
  wc_Env :: "(string \<times> string) list"
  wc_Focus :: bool

definition WorkspaceCreate :: "WorkspaceCreateOptions \<Rightarrow> client_call" where
  "WorkspaceCreate o' = call ''workspace.create''
     (omit_string ''cwd'' (optStr (wc_CWD o')) @ omit_string ''label'' (optStr (wc_Label o')) @ omit_map ''env'' (wc_Env o') @
      [(''focus'', JBool (wc_Focus o'))]) ''workspace_created''"

definition workspaceByID :: "string \<Rightarrow> string \<Rightarrow> (string \<times> json) list \<Rightarrow> client_call" where
  "workspaceByID meth workspaceID params =
     (if workspaceID = [] then invalid (meth @ '' requires a workspace id'') else call meth params ''workspace_info'')"

definition WorkspaceFocus :: "string \<Rightarrow> client_call" where
  "WorkspaceFocus workspaceID = workspaceByID ''workspace.focus'' workspaceID [(''workspace_id'', JStr workspaceID)]"

definition WorkspaceRename :: "string \<Rightarrow> string \<Rightarrow> client_call" where
  "WorkspaceRename workspaceID label =
     workspaceByID ''workspace.rename'' workspaceID [(''workspace_id'', JStr workspaceID), (''label'', JStr label)]"

definition WorkspaceClose :: "string \<Rightarrow> client_call" where
  "WorkspaceClose workspaceID =
     (if workspaceID = [] then invalid ''workspace.close requires a workspace id''
      else call ''workspace.close'' [(''workspace_id'', JStr workspaceID)] ''ok'')"

section \<open>internal/herdr/mutations.go: tabs\<close>

record TabCreateOptions =
  tc_WorkspaceID :: string
  tc_CWD :: string
  tc_Label :: string
  tc_Env :: "(string \<times> string) list"
  tc_Focus :: bool

definition TabCreate :: "TabCreateOptions \<Rightarrow> client_call" where
  "TabCreate o' = call ''tab.create''
     (omit_string ''workspace_id'' (optStr (tc_WorkspaceID o')) @ omit_string ''cwd'' (optStr (tc_CWD o')) @
      omit_string ''label'' (optStr (tc_Label o')) @ omit_map ''env'' (tc_Env o') @ [(''focus'', JBool (tc_Focus o'))]) ''tab_created''"

definition tabByID :: "string \<Rightarrow> string \<Rightarrow> (string \<times> json) list \<Rightarrow> client_call" where
  "tabByID meth tabID params = (if tabID = [] then invalid (meth @ '' requires a tab id'') else call meth params ''tab_info'')"

definition TabFocus :: "string \<Rightarrow> client_call" where
  "TabFocus tabID = tabByID ''tab.focus'' tabID [(''tab_id'', JStr tabID)]"

definition TabRename :: "string \<Rightarrow> string \<Rightarrow> client_call" where
  "TabRename tabID label = tabByID ''tab.rename'' tabID [(''tab_id'', JStr tabID), (''label'', JStr label)]"

definition TabMove :: "string \<Rightarrow> int \<Rightarrow> client_call" where
  "TabMove tabID insertIndex =
     (if tabID = [] then invalid ''tab.move requires a tab id''
      else if insertIndex < 0 then invalid ''tab.move insert_index must be non-negative''
      else call ''tab.move'' [(''tab_id'', JStr tabID), (''insert_index'', JNum (int_literal insertIndex))] ''tab_list'')"

definition TabClose :: "string \<Rightarrow> client_call" where
  "TabClose tabID =
     (if tabID = [] then invalid ''tab.close requires a tab id'' else call ''tab.close'' [(''tab_id'', JStr tabID)] ''ok'')"

section \<open>internal/herdr/mutations.go: panes\<close>

definition split_valid :: "string \<Rightarrow> bool" where
  "split_valid d \<longleftrightarrow> d \<in> {''right'', ''down''}"

definition direction_valid :: "string \<Rightarrow> bool" where
  "direction_valid d \<longleftrightarrow> d \<in> {''left'', ''right'', ''up'', ''down''}"

definition zoom_valid :: "string \<Rightarrow> bool" where
  "zoom_valid z \<longleftrightarrow> z \<in> {''toggle'', ''on'', ''off''}"

record PaneSplitOptions =
  ps_TargetPaneID :: string
  ps_Direction :: string
  ps_Ratio :: string
  ps_CWD :: string
  ps_Env :: "(string \<times> string) list"
  ps_Focus :: bool

definition PaneSplit :: "PaneSplitOptions \<Rightarrow> client_call" where
  "PaneSplit o' =
     (if ps_TargetPaneID o' = [] then invalid ''pane.split requires an explicit target pane id''
      else if \<not> split_valid (ps_Direction o') then invalid ''pane.split direction must be right or down''
      else call ''pane.split''
        ([(''target_pane_id'', JStr (ps_TargetPaneID o')), (''direction'', JStr (ps_Direction o'))] @
         omit_float ''ratio'' (ps_Ratio o') @ omit_string ''cwd'' (optStr (ps_CWD o')) @ omit_map ''env'' (ps_Env o') @
         [(''focus'', JBool (ps_Focus o'))]) ''pane_info'')"

definition paneByID :: "string \<Rightarrow> (string \<times> json) list \<Rightarrow> string \<Rightarrow> client_call" where
  "paneByID meth params paneID = (if paneID = [] then invalid (meth @ '' requires a pane id'') else call meth params ''pane_info'')"

definition PaneFocus :: "string \<Rightarrow> client_call" where
  "PaneFocus paneID = paneByID ''pane.focus'' [(''pane_id'', JStr paneID)] paneID"

definition null_string :: "string \<Rightarrow> json" where
  "null_string s = (case optStr s of None \<Rightarrow> JNull | Some t \<Rightarrow> JStr t)"

definition PaneRename :: "string \<Rightarrow> string \<Rightarrow> client_call" where
  "PaneRename paneID label = paneByID ''pane.rename'' [(''pane_id'', JStr paneID), (''label'', null_string label)] paneID"

definition PaneResize :: "string \<Rightarrow> string \<Rightarrow> string \<Rightarrow> client_call" where
  "PaneResize paneID dir amount =
     (if paneID = [] then invalid ''pane.resize requires a pane id''
      else if \<not> direction_valid dir then invalid ''pane.resize direction is invalid''
      else call ''pane.resize'' ([(''pane_id'', JStr paneID), (''direction'', JStr dir)] @ omit_float ''amount'' amount) ''pane_resize'')"

definition PaneZoom :: "string \<Rightarrow> string \<Rightarrow> client_call" where
  "PaneZoom paneID mode =
     (if paneID = [] then invalid ''pane.zoom requires a pane id''
      else if \<not> zoom_valid mode then invalid ''pane.zoom mode is invalid''
      else call ''pane.zoom'' [(''pane_id'', JStr paneID), (''mode'', JStr mode)] ''pane_zoom'')"

definition PaneSwap :: "string \<Rightarrow> string \<Rightarrow> client_call" where
  "PaneSwap sourcePaneID targetPaneID =
     (if sourcePaneID = [] \<or> targetPaneID = [] then invalid ''pane.swap requires source and target pane ids''
      else call ''pane.swap'' [(''source_pane_id'', JStr sourcePaneID), (''target_pane_id'', JStr targetPaneID)] ''pane_swap'')"

record PaneMoveDestination =
  md_kind :: string
  md_tabID :: string
  md_split :: string
  md_targetPane :: string
  md_ratio :: "string option"
  md_label :: string
  md_tabLabel :: string
  md_workspaceID :: string

definition no_destination :: "string \<Rightarrow> PaneMoveDestination" where
  "no_destination kind = \<lparr>md_kind = kind, md_tabID = [], md_split = [], md_targetPane = [], md_ratio = None,
     md_label = [], md_tabLabel = [], md_workspaceID = []\<rparr>"

definition MoveToTab :: "string \<Rightarrow> string \<Rightarrow> string \<Rightarrow> string \<Rightarrow> PaneMoveDestination" where
  "MoveToTab tabID split targetPaneID ratio = (no_destination ''tab'')
     \<lparr>md_tabID := tabID, md_split := split, md_targetPane := targetPaneID,
      md_ratio := (if num_positive ratio then Some ratio else None)\<rparr>"

definition MoveToNewTab :: "string \<Rightarrow> string \<Rightarrow> PaneMoveDestination" where
  "MoveToNewTab workspaceID label = (no_destination ''new_tab'')\<lparr>md_workspaceID := workspaceID, md_label := label\<rparr>"

definition MoveToNewWorkspace :: "string \<Rightarrow> string \<Rightarrow> PaneMoveDestination" where
  "MoveToNewWorkspace label tabLabel = (no_destination ''new_workspace'')\<lparr>md_label := label, md_tabLabel := tabLabel\<rparr>"

text \<open>The wire form is a map, encoded with its keys in order.\<close>

definition wire :: "PaneMoveDestination \<Rightarrow> Error + json" where
  "wire d =
     (if md_kind d = ''tab'' then
        (if md_tabID d = [] then Inl (newError CodeInvalidParams ''move to tab requires a tab id'')
         else if \<not> split_valid (md_split d) then Inl (newError CodeInvalidParams ''move to tab requires split right or down'')
         else Inr (JObj (sort_key fst
           ([(''type'', JStr ''tab''), (''tab_id'', JStr (md_tabID d)), (''split'', JStr (md_split d))] @
            omit_string ''target_pane_id'' (optStr (md_targetPane d)) @
            (case md_ratio d of None \<Rightarrow> [] | Some r \<Rightarrow> [(''ratio'', JNum r)])))))
      else if md_kind d = ''new_tab'' then
        Inr (JObj (sort_key fst ((''type'', JStr ''new_tab'') #
          omit_string ''workspace_id'' (optStr (md_workspaceID d)) @ omit_string ''label'' (optStr (md_label d)))))
      else if md_kind d = ''new_workspace'' then
        Inr (JObj (sort_key fst ((''type'', JStr ''new_workspace'') #
          omit_string ''label'' (optStr (md_label d)) @ omit_string ''tab_label'' (optStr (md_tabLabel d)))))
      else Inl (newError CodeInvalidParams ''pane.move requires a valid destination''))"

definition PaneMove :: "string \<Rightarrow> PaneMoveDestination \<Rightarrow> bool \<Rightarrow> client_call" where
  "PaneMove paneID dest focus =
     (if paneID = [] then invalid ''pane.move requires a pane id''
      else case wire dest of
        Inl err \<Rightarrow> Inl err
      | Inr w \<Rightarrow> call ''pane.move'' [(''pane_id'', JStr paneID), (''destination'', w), (''focus'', JBool focus)] ''pane_move'')"

definition PaneClose :: "string \<Rightarrow> client_call" where
  "PaneClose paneID =
     (if paneID = [] then invalid ''pane.close requires a pane id'' else call ''pane.close'' [(''pane_id'', JStr paneID)] ''ok'')"

section \<open>internal/herdr/mutations.go: worktrees\<close>

record WorktreeCreateOptions =
  kc_WorkspaceID :: string
  kc_CWD :: string
  kc_Branch :: string
  kc_Base :: string
  kc_Path :: string
  kc_Label :: string
  kc_Focus :: bool

definition WorktreeCreate :: "WorktreeCreateOptions \<Rightarrow> client_call" where
  "WorktreeCreate o' =
     (if kc_WorkspaceID o' = [] \<and> kc_CWD o' = [] then invalid ''worktree.create requires a workspace id or cwd''
      else call ''worktree.create''
        (omit_string ''workspace_id'' (optStr (kc_WorkspaceID o')) @ omit_string ''cwd'' (optStr (kc_CWD o')) @
         omit_string ''branch'' (optStr (kc_Branch o')) @ omit_string ''base'' (optStr (kc_Base o')) @
         omit_string ''path'' (optStr (kc_Path o')) @ omit_string ''label'' (optStr (kc_Label o')) @
         [(''focus'', JBool (kc_Focus o'))]) ''worktree_created'')"

record WorktreeOpenOptions =
  ko_WorkspaceID :: string
  ko_CWD :: string
  ko_Branch :: string
  ko_Path :: string
  ko_Label :: string
  ko_Focus :: bool

definition WorktreeOpen :: "WorktreeOpenOptions \<Rightarrow> client_call" where
  "WorktreeOpen o' =
     (if ko_Path o' = [] \<and> ko_Branch o' = [] then invalid ''worktree.open requires a path or branch''
      else call ''worktree.open''
        (omit_string ''workspace_id'' (optStr (ko_WorkspaceID o')) @ omit_string ''cwd'' (optStr (ko_CWD o')) @
         omit_string ''branch'' (optStr (ko_Branch o')) @ omit_string ''path'' (optStr (ko_Path o')) @
         omit_string ''label'' (optStr (ko_Label o')) @ [(''focus'', JBool (ko_Focus o'))]) ''worktree_opened'')"

definition WorktreeRemove :: "string \<Rightarrow> bool \<Rightarrow> client_call" where
  "WorktreeRemove workspaceID force =
     (if workspaceID = [] then invalid ''worktree.remove requires a workspace id''
      else call ''worktree.remove'' [(''workspace_id'', JStr workspaceID), (''force'', JBool force)] ''worktree_removed'')"

section \<open>internal/herdr/agents.go\<close>

definition name_char :: "char \<Rightarrow> bool" where
  "name_char c \<longleftrightarrow> 0x61 \<le> ord c \<and> ord c \<le> 0x7A \<or> 0x30 \<le> ord c \<and> ord c \<le> 0x39 \<or> c = CHR ''_'' \<or> c = CHR ''-''"

definition ValidAgentName :: "string \<Rightarrow> bool" where
  "ValidAgentName name =
     (if name = [] \<or> length name > 32 then False
      else if ord (hd name) < 0x61 \<or> ord (hd name) > 0x7A then False
      else list_all name_char (tl name))"

record PromptOptions =
  po_Wait :: bool
  po_Until :: "AgentStatus list"
  po_TimeoutMS :: int

definition omit_int :: "string \<Rightarrow> int \<Rightarrow> (string \<times> json) list" where
  "omit_int k n = (if n > 0 then [(k, JNum (int_literal n))] else [])"

definition AgentPrompt :: "string \<Rightarrow> string \<Rightarrow> PromptOptions \<Rightarrow> client_call" where
  "AgentPrompt target text o' =
     (if target = [] then invalid ''agent.prompt requires a target''
      else call ''agent.prompt''
        ([(''target'', JStr target), (''text'', JStr text)] @
         (if po_Wait o' \<or> po_Until o' \<noteq> [] \<or> po_TimeoutMS o' > 0
          then [(''wait'', JObj (omit_strings ''until'' (po_Until o') @ omit_int ''timeout_ms'' (po_TimeoutMS o')))] else []))
        ''agent_prompted'')"

definition AgentSendKeys :: "string \<Rightarrow> string list \<Rightarrow> client_call" where
  "AgentSendKeys target keys =
     (if target = [] then invalid ''agent.send_keys requires a target''
      else case ValidateKeys keys of
        (bad, ok) \<Rightarrow>
          if \<not> ok then (if bad = [] then invalid ''agent.send_keys requires at least one key''
                         else invalid (''agent.send_keys rejected invalid key: '' @ bad))
          else call ''agent.send_keys'' [(''target'', JStr target), (''keys'', JArr (map JStr keys))] ''ok'')"

definition AgentRename :: "string \<Rightarrow> string \<Rightarrow> client_call" where
  "AgentRename target name =
     (if target = [] then invalid ''agent.rename requires a target''
      else if name \<noteq> [] \<and> \<not> ValidAgentName name then invalid ''agent name must match [a-z][a-z0-9_-]{0,31}''
      else call ''agent.rename'' [(''target'', JStr target), (''name'', null_string name)] ''agent_info'')"

definition AgentFocus :: "string \<Rightarrow> client_call" where
  "AgentFocus target =
     (if target = [] then invalid ''agent.focus requires a target''
      else call ''agent.focus'' [(''target'', JStr target)] ''agent_info'')"

record StartOptions =
  so_Name :: string
  so_Kind :: string
  so_PaneID :: string
  so_Args :: "string list"
  so_TimeoutMS :: int

definition AgentStart :: "StartOptions \<Rightarrow> client_call" where
  "AgentStart o' =
     (if so_PaneID o' = [] then invalid ''agent.start requires a pane id''
      else if so_Kind o' = [] then invalid ''agent.start requires a kind''
      else if \<not> ValidAgentName (so_Name o') then invalid ''agent name must match [a-z][a-z0-9_-]{0,31}''
      else call ''agent.start''
        ([(''name'', JStr (so_Name o')), (''kind'', JStr (so_Kind o')), (''pane_id'', JStr (so_PaneID o'))] @
         omit_strings ''args'' (so_Args o') @ omit_int ''timeout_ms'' (so_TimeoutMS o')) ''agent_started'')"

definition AgentWait :: "string \<Rightarrow> AgentStatus list \<Rightarrow> int \<Rightarrow> client_call" where
  "AgentWait target until timeoutMS =
     (if target = [] then invalid ''agent.wait requires a target''
      else call ''agent.wait''
        ((''target'', JStr target) # omit_strings ''until'' until @ omit_int ''timeout_ms'' timeoutMS) ''agent_info'')"

section \<open>The resource a request acts on\<close>

text \<open>The field of a request that names the resource it acts on, and the value there.\<close>

definition target_field :: "string \<Rightarrow> string" where
  "target_field meth =
     (if meth = ''pane.split'' then ''target_pane_id''
      else if meth = ''pane.swap'' then ''source_pane_id''
      else if meth \<in> {''agent.prompt'', ''agent.send_keys'', ''agent.rename'', ''agent.focus''} then ''target''
      else if meth \<in> {''workspace.focus'', ''workspace.rename'', ''workspace.close'', ''worktree.remove''} then ''workspace_id''
      else if meth \<in> {''tab.focus'', ''tab.rename'', ''tab.move'', ''tab.close''} then ''tab_id''
      else ''pane_id'')"

definition acts_on :: "herdr_request \<Rightarrow> json option" where
  "acts_on rq = (case hr_params rq of JObj ms \<Rightarrow> map_of ms (target_field (hr_method rq)) | _ \<Rightarrow> None)"

named_theorems client_defs \<open>definitions of the typed client functions\<close>

lemmas client_call_defs [client_defs] =
  WorkspaceFocus_def WorkspaceRename_def WorkspaceClose_def workspaceByID_def
  TabFocus_def TabRename_def TabMove_def TabClose_def tabByID_def
  PaneFocus_def PaneSplit_def PaneResize_def PaneZoom_def PaneSwap_def PaneMove_def PaneRename_def PaneClose_def paneByID_def
  AgentFocus_def AgentPrompt_def AgentSendKeys_def AgentRename_def AgentStart_def WorktreeRemove_def
  call_def invalid_def

lemma acts_on_call:
  "acts_on \<lparr>hr_method = meth, hr_params = JObj ms, hr_expect = ex\<rparr> = map_of ms (target_field meth)"
  by (simp add: acts_on_def)

text \<open>Every function that names a resource acts on exactly the resource it was given, and never on an empty one.\<close>

lemma client_acts_on:
  "WorkspaceFocus i = Inr rq \<Longrightarrow> acts_on rq = Some (JStr i) \<and> i \<noteq> []"
  "WorkspaceRename i l = Inr rq \<Longrightarrow> acts_on rq = Some (JStr i) \<and> i \<noteq> []"
  "WorkspaceClose i = Inr rq \<Longrightarrow> acts_on rq = Some (JStr i) \<and> i \<noteq> []"
  "TabFocus i = Inr rq \<Longrightarrow> acts_on rq = Some (JStr i) \<and> i \<noteq> []"
  "TabRename i l = Inr rq \<Longrightarrow> acts_on rq = Some (JStr i) \<and> i \<noteq> []"
  "TabMove i k = Inr rq \<Longrightarrow> acts_on rq = Some (JStr i) \<and> i \<noteq> []"
  "TabClose i = Inr rq \<Longrightarrow> acts_on rq = Some (JStr i) \<and> i \<noteq> []"
  "PaneFocus i = Inr rq \<Longrightarrow> acts_on rq = Some (JStr i) \<and> i \<noteq> []"
  "PaneSplit ps = Inr rq \<Longrightarrow> acts_on rq = Some (JStr (ps_TargetPaneID ps)) \<and> ps_TargetPaneID ps \<noteq> []"
  "PaneResize i d a = Inr rq \<Longrightarrow> acts_on rq = Some (JStr i) \<and> i \<noteq> []"
  "PaneZoom i z = Inr rq \<Longrightarrow> acts_on rq = Some (JStr i) \<and> i \<noteq> []"
  "PaneSwap i j = Inr rq \<Longrightarrow> acts_on rq = Some (JStr i) \<and> i \<noteq> []"
  "PaneMove i dest f = Inr rq \<Longrightarrow> acts_on rq = Some (JStr i) \<and> i \<noteq> []"
  "PaneRename i l = Inr rq \<Longrightarrow> acts_on rq = Some (JStr i) \<and> i \<noteq> []"
  "PaneClose i = Inr rq \<Longrightarrow> acts_on rq = Some (JStr i) \<and> i \<noteq> []"
  "AgentFocus i = Inr rq \<Longrightarrow> acts_on rq = Some (JStr i) \<and> i \<noteq> []"
  "AgentPrompt i t po = Inr rq \<Longrightarrow> acts_on rq = Some (JStr i) \<and> i \<noteq> []"
  "AgentSendKeys i ks = Inr rq \<Longrightarrow> acts_on rq = Some (JStr i) \<and> i \<noteq> []"
  "AgentRename i n = Inr rq \<Longrightarrow> acts_on rq = Some (JStr i) \<and> i \<noteq> []"
  "AgentStart so = Inr rq \<Longrightarrow> acts_on rq = Some (JStr (so_PaneID so)) \<and> so_PaneID so \<noteq> []"
  "WorktreeRemove i b = Inr rq \<Longrightarrow> acts_on rq = Some (JStr i) \<and> i \<noteq> []"
  by (auto simp: client_defs acts_on_call target_field_def split: if_splits prod.splits sum.splits)

end
