(* ===== verification/MutationDispatch.thy ===== *)
theory MutationDispatch
  imports HerdrCalls "HOL-Library.Monad_Syntax"
begin

text \<open>
  The mutator behind the server (internal/integration/mutate.go, adapters.go and agentkinds.go): strict
  decoding of the parameters of each allowlisted operation into the typed client call, the cache of
  startable agent kinds, and which resource a dispatched call acts on.
\<close>

section \<open>internal/integration/mutate.go: parameters\<close>

text \<open>
  Strict decoding of the parameters into a struct with the given fields. Every failure is one error of
  code \<open>invalid_params\<close>; the decoder's own wording is left out of its message. \<open>fnum\<close> is the rendering of a
  literal as a \<open>float64\<close>.
\<close>

definition decode :: "string list \<Rightarrow> json option \<Rightarrow> (string \<times> json) list option" where
  "decode names raw = select_fields names (case raw of None \<Rightarrow> JObj [] | Some j \<Rightarrow> j)"

definition decoded :: "client_call option \<Rightarrow> client_call" where
  "decoded c = (case c of None \<Rightarrow> invalid ''invalid params: '' | Some r \<Rightarrow> r)"

definition stringField :: "json option \<Rightarrow> string \<Rightarrow> string" where
  "stringField raw field =
     (case raw of
        None \<Rightarrow> []
      | Some j \<Rightarrow>
          (case members j of
             None \<Rightarrow> []
           | Some ms \<Rightarrow>
               (case last_member ms field of
                  None \<Rightarrow> []
                | Some v \<Rightarrow> (case json_string v of None \<Rightarrow> [] | Some s \<Rightarrow> s))))"

section \<open>internal/integration/mutate.go: one branch per operation\<close>

type_synonym floats = "string \<Rightarrow> string option"

definition on_workspace_create :: "json option \<Rightarrow> client_call" where
  "on_workspace_create raw = decoded (do {
     p \<leftarrow> decode [''cwd'', ''label'', ''env'', ''focus''] raw;
     cwd \<leftarrow> get_string p ''cwd''; label \<leftarrow> get_string p ''label''; env \<leftarrow> get_map p ''env''; focus \<leftarrow> get_bool p ''focus'';
     Some (WorkspaceCreate \<lparr>wc_CWD = cwd, wc_Label = label, wc_Env = env, wc_Focus = focus\<rparr>) })"

definition on_workspace_focus :: "json option \<Rightarrow> client_call" where
  "on_workspace_focus raw = decoded (do {
     p \<leftarrow> decode [''workspace_id''] raw; i \<leftarrow> get_string p ''workspace_id''; Some (WorkspaceFocus i) })"

definition on_workspace_rename :: "json option \<Rightarrow> client_call" where
  "on_workspace_rename raw = decoded (do {
     p \<leftarrow> decode [''workspace_id'', ''label''] raw;
     i \<leftarrow> get_string p ''workspace_id''; label \<leftarrow> get_string p ''label''; Some (WorkspaceRename i label) })"

definition on_workspace_close :: "json option \<Rightarrow> client_call" where
  "on_workspace_close raw = decoded (do {
     p \<leftarrow> decode [''workspace_id''] raw; i \<leftarrow> get_string p ''workspace_id''; Some (WorkspaceClose i) })"

definition on_tab_create :: "json option \<Rightarrow> client_call" where
  "on_tab_create raw = decoded (do {
     p \<leftarrow> decode [''workspace_id'', ''cwd'', ''label'', ''env'', ''focus''] raw;
     w \<leftarrow> get_string p ''workspace_id''; cwd \<leftarrow> get_string p ''cwd''; label \<leftarrow> get_string p ''label'';
     env \<leftarrow> get_map p ''env''; focus \<leftarrow> get_bool p ''focus'';
     Some (TabCreate \<lparr>tc_WorkspaceID = w, tc_CWD = cwd, tc_Label = label, tc_Env = env, tc_Focus = focus\<rparr>) })"

definition on_tab_focus :: "json option \<Rightarrow> client_call" where
  "on_tab_focus raw = decoded (do { p \<leftarrow> decode [''tab_id''] raw; i \<leftarrow> get_string p ''tab_id''; Some (TabFocus i) })"

definition on_tab_rename :: "json option \<Rightarrow> client_call" where
  "on_tab_rename raw = decoded (do {
     p \<leftarrow> decode [''tab_id'', ''label''] raw; i \<leftarrow> get_string p ''tab_id''; label \<leftarrow> get_string p ''label'';
     Some (TabRename i label) })"

definition on_tab_move :: "json option \<Rightarrow> client_call" where
  "on_tab_move raw = decoded (do {
     p \<leftarrow> decode [''tab_id'', ''insert_index''] raw; i \<leftarrow> get_string p ''tab_id''; k \<leftarrow> get_int Atoi p ''insert_index'';
     Some (TabMove i k) })"

definition on_tab_close :: "json option \<Rightarrow> client_call" where
  "on_tab_close raw = decoded (do { p \<leftarrow> decode [''tab_id''] raw; i \<leftarrow> get_string p ''tab_id''; Some (TabClose i) })"

definition on_pane_focus :: "json option \<Rightarrow> client_call" where
  "on_pane_focus raw = decoded (do { p \<leftarrow> decode [''pane_id''] raw; i \<leftarrow> get_string p ''pane_id''; Some (PaneFocus i) })"

definition on_pane_split :: "floats \<Rightarrow> json option \<Rightarrow> client_call" where
  "on_pane_split fnum raw = decoded (do {
     p \<leftarrow> decode [''pane_id'', ''direction'', ''ratio'', ''cwd'', ''env'', ''focus''] raw;
     i \<leftarrow> get_string p ''pane_id''; dir \<leftarrow> get_string p ''direction''; ratio \<leftarrow> get_float fnum p ''ratio'';
     cwd \<leftarrow> get_string p ''cwd''; env \<leftarrow> get_map p ''env''; focus \<leftarrow> get_bool p ''focus'';
     Some (PaneSplit \<lparr>ps_TargetPaneID = i, ps_Direction = dir, ps_Ratio = ratio, ps_CWD = cwd, ps_Env = env, ps_Focus = focus\<rparr>) })"

definition on_pane_resize :: "floats \<Rightarrow> json option \<Rightarrow> client_call" where
  "on_pane_resize fnum raw = decoded (do {
     p \<leftarrow> decode [''pane_id'', ''direction'', ''amount''] raw;
     i \<leftarrow> get_string p ''pane_id''; dir \<leftarrow> get_string p ''direction''; amount \<leftarrow> get_float fnum p ''amount'';
     Some (PaneResize i dir amount) })"

definition on_pane_zoom :: "json option \<Rightarrow> client_call" where
  "on_pane_zoom raw = decoded (do {
     p \<leftarrow> decode [''pane_id'', ''mode''] raw; i \<leftarrow> get_string p ''pane_id''; mode \<leftarrow> get_string p ''mode'';
     Some (PaneZoom i (if mode = [] then ''toggle'' else mode)) })"

definition on_pane_swap :: "json option \<Rightarrow> client_call" where
  "on_pane_swap raw = decoded (do {
     p \<leftarrow> decode [''pane_id'', ''target_pane_id''] raw; i \<leftarrow> get_string p ''pane_id''; j \<leftarrow> get_string p ''target_pane_id'';
     Some (PaneSwap i j) })"

definition paneMove :: "floats \<Rightarrow> json option \<Rightarrow> client_call" where
  "paneMove fnum raw = decoded (do {
     p \<leftarrow> decode [''pane_id'', ''focus'', ''destination''] raw;
     i \<leftarrow> get_string p ''pane_id''; focus \<leftarrow> get_bool p ''focus''; ms \<leftarrow> get_members p ''destination'';
     d \<leftarrow> select_fields [''type'', ''tab_id'', ''split'', ''target_pane_id'', ''ratio'', ''workspace_id'', ''label'', ''tab_label''] (JObj ms);
     typ \<leftarrow> get_string d ''type''; tab \<leftarrow> get_string d ''tab_id''; split \<leftarrow> get_string d ''split'';
     targetPane \<leftarrow> get_string d ''target_pane_id''; ratio \<leftarrow> get_float fnum d ''ratio'';
     w \<leftarrow> get_string d ''workspace_id''; label \<leftarrow> get_string d ''label''; tabLabel \<leftarrow> get_string d ''tab_label'';
     Some (if typ = ''tab'' then PaneMove i (MoveToTab tab split targetPane ratio) focus
           else if typ = ''new_tab'' then PaneMove i (MoveToNewTab w label) focus
           else if typ = ''new_workspace'' then PaneMove i (MoveToNewWorkspace label tabLabel) focus
           else invalid ''pane.move requires a destination type of tab, new_tab, or new_workspace'') })"

definition on_pane_rename :: "json option \<Rightarrow> client_call" where
  "on_pane_rename raw = decoded (do {
     p \<leftarrow> decode [''pane_id'', ''label''] raw; i \<leftarrow> get_string p ''pane_id''; label \<leftarrow> get_string p ''label'';
     Some (PaneRename i label) })"

definition on_pane_close :: "json option \<Rightarrow> client_call" where
  "on_pane_close raw = decoded (do { p \<leftarrow> decode [''pane_id''] raw; i \<leftarrow> get_string p ''pane_id''; Some (PaneClose i) })"

definition on_agent_focus :: "json option \<Rightarrow> client_call" where
  "on_agent_focus raw = decoded (do { p \<leftarrow> decode [''pane_id''] raw; i \<leftarrow> get_string p ''pane_id''; Some (AgentFocus i) })"

definition on_agent_prompt :: "json option \<Rightarrow> client_call" where
  "on_agent_prompt raw = decoded (do {
     p \<leftarrow> decode [''pane_id'', ''text''] raw; i \<leftarrow> get_string p ''pane_id''; text \<leftarrow> get_string p ''text'';
     Some (AgentPrompt i text \<lparr>po_Wait = False, po_Until = [], po_TimeoutMS = 0\<rparr>) })"

definition on_agent_send_keys :: "json option \<Rightarrow> client_call" where
  "on_agent_send_keys raw = decoded (do {
     p \<leftarrow> decode [''pane_id'', ''keys''] raw; i \<leftarrow> get_string p ''pane_id''; keys \<leftarrow> get_strings p ''keys'';
     Some (AgentSendKeys i keys) })"

definition on_agent_rename :: "json option \<Rightarrow> client_call" where
  "on_agent_rename raw = decoded (do {
     p \<leftarrow> decode [''pane_id'', ''name''] raw; i \<leftarrow> get_string p ''pane_id''; name \<leftarrow> get_string p ''name'';
     Some (AgentRename i name) })"

definition on_agent_start :: "json option \<Rightarrow> client_call" where
  "on_agent_start raw = decoded (do {
     p \<leftarrow> decode [''pane_id'', ''kind'', ''name'', ''args''] raw;
     i \<leftarrow> get_string p ''pane_id''; kind \<leftarrow> get_string p ''kind''; name \<leftarrow> get_string p ''name''; args \<leftarrow> get_strings p ''args'';
     Some (AgentStart \<lparr>so_Name = name, so_Kind = kind, so_PaneID = i, so_Args = args, so_TimeoutMS = 0\<rparr>) })"

definition on_worktree_create :: "json option \<Rightarrow> client_call" where
  "on_worktree_create raw = decoded (do {
     p \<leftarrow> decode [''workspace_id'', ''cwd'', ''branch'', ''base'', ''path'', ''label'', ''focus''] raw;
     w \<leftarrow> get_string p ''workspace_id''; cwd \<leftarrow> get_string p ''cwd''; branch \<leftarrow> get_string p ''branch'';
     base \<leftarrow> get_string p ''base''; path \<leftarrow> get_string p ''path''; label \<leftarrow> get_string p ''label''; focus \<leftarrow> get_bool p ''focus'';
     Some (WorktreeCreate \<lparr>kc_WorkspaceID = w, kc_CWD = cwd, kc_Branch = branch, kc_Base = base, kc_Path = path,
       kc_Label = label, kc_Focus = focus\<rparr>) })"

definition on_worktree_open :: "json option \<Rightarrow> client_call" where
  "on_worktree_open raw = decoded (do {
     p \<leftarrow> decode [''workspace_id'', ''cwd'', ''branch'', ''path'', ''label'', ''focus''] raw;
     w \<leftarrow> get_string p ''workspace_id''; cwd \<leftarrow> get_string p ''cwd''; branch \<leftarrow> get_string p ''branch'';
     path \<leftarrow> get_string p ''path''; label \<leftarrow> get_string p ''label''; focus \<leftarrow> get_bool p ''focus'';
     Some (WorktreeOpen \<lparr>ko_WorkspaceID = w, ko_CWD = cwd, ko_Branch = branch, ko_Path = path, ko_Label = label, ko_Focus = focus\<rparr>) })"

definition worktreeRemove :: "json option \<Rightarrow> bool \<Rightarrow> client_call" where
  "worktreeRemove raw force = decoded (do {
     p \<leftarrow> decode [''worktree_id''] raw; i \<leftarrow> get_string p ''worktree_id''; Some (WorktreeRemove i force) })"

text \<open>The table of the branches; an error without a code is one with the empty code.\<close>

definition branches :: "floats \<Rightarrow> json option \<Rightarrow> (string \<times> client_call) list" where
  "branches fnum raw =
     [(''workspace.create'', on_workspace_create raw), (''workspace.focus'', on_workspace_focus raw),
      (''workspace.rename'', on_workspace_rename raw), (''workspace.close'', on_workspace_close raw),
      (''tab.create'', on_tab_create raw), (''tab.focus'', on_tab_focus raw), (''tab.rename'', on_tab_rename raw),
      (''tab.move'', on_tab_move raw), (''tab.close'', on_tab_close raw),
      (''pane.focus'', on_pane_focus raw), (''pane.split'', on_pane_split fnum raw), (''pane.resize'', on_pane_resize fnum raw),
      (''pane.zoom'', on_pane_zoom raw), (''pane.swap'', on_pane_swap raw), (''pane.move'', paneMove fnum raw),
      (''pane.rename'', on_pane_rename raw), (''pane.close'', on_pane_close raw),
      (''agent.focus'', on_agent_focus raw), (''agent.prompt'', on_agent_prompt raw), (''agent.send_keys'', on_agent_send_keys raw),
      (''agent.rename'', on_agent_rename raw), (''agent.start'', on_agent_start raw),
      (''worktree.create'', on_worktree_create raw), (''worktree.open'', on_worktree_open raw),
      (''worktree.remove'', worktreeRemove raw False), (''worktree.remove_force'', worktreeRemove raw True)]"

definition dispatchMutation :: "floats \<Rightarrow> string \<Rightarrow> json option \<Rightarrow> client_call" where
  "dispatchMutation fnum op raw =
     (case map_of (branches fnum raw) op of
        Some c \<Rightarrow> c
      | None \<Rightarrow> Inl \<lparr>Code = [], Message = ''integration: operation is not implemented''\<rparr>)"

section \<open>internal/integration/agentkinds.go\<close>

record agentKinds =
  ak_ttl :: duration
  ak_cached :: "string list"
  ak_fetchedAt :: gotime
  ak_loaded :: bool

definition newAgentKinds :: "duration \<Rightarrow> agentKinds" where
  "newAgentKinds ttl = \<lparr>ak_ttl = ttl, ak_cached = [], ak_fetchedAt = 0, ak_loaded = False\<rparr>"

text \<open>
  \<open>found\<close> is what discovery answers if it is asked; the three clock readings are those of the freshness
  check, of the fallback and of the store. The name of a refused kind is left out of the message.
\<close>

definition kinds_list ::
  "gotime \<Rightarrow> gotime \<Rightarrow> gotime \<Rightarrow> Error + string list \<Rightarrow> agentKinds \<Rightarrow> agentKinds \<times> (Error + string list)" where
  "kinds_list t1 t2 t3 found a =
     (if ak_loaded a \<and> t1 - ak_fetchedAt a < ak_ttl a then (a, Inr (ak_cached a))
      else case found of
        Inl err \<Rightarrow> if ak_loaded a \<and> t2 - ak_fetchedAt a \<le> 2 * ak_ttl a then (a, Inr (ak_cached a)) else (a, Inl err)
      | Inr kinds \<Rightarrow> (a\<lparr>ak_cached := kinds, ak_fetchedAt := t3, ak_loaded := True\<rparr>, Inr kinds))"

definition kinds_validate ::
  "gotime \<Rightarrow> gotime \<Rightarrow> gotime \<Rightarrow> Error + string list \<Rightarrow> string \<Rightarrow> agentKinds \<Rightarrow> agentKinds \<times> Error option" where
  "kinds_validate t1 t2 t3 found kind a =
     (if kind = [] then (a, Some (newError CodeInvalidParams ''agent.start requires a kind''))
      else case kinds_list t1 t2 t3 found a of
        (a, Inl err) \<Rightarrow> (a, Some (err\<lparr>Message := ''integration: cannot validate agent kind: '' @ Message err\<rparr>))
      | (a, Inr kinds) \<Rightarrow>
          (a, if kind \<in> set kinds then None
              else Some (newError CodeInvalidParams ''agent kind is not one this herdr build can start'')))"

section \<open>internal/integration/adapters.go: the mutator\<close>

definition Mutate ::
  "floats \<Rightarrow> gotime \<Rightarrow> gotime \<Rightarrow> gotime \<Rightarrow> Error + string list \<Rightarrow> string \<Rightarrow> json option \<Rightarrow> agentKinds option \<Rightarrow>
   agentKinds option \<times> client_call" where
  "Mutate fnum t1 t2 t3 found op params kinds =
     (if op = ''agent.start'' \<and> kinds \<noteq> None then
        (case kinds_validate t1 t2 t3 found (stringField params ''kind'') (the kinds) of
           (a, Some err) \<Rightarrow> (Some a, Inl err)
         | (a, None) \<Rightarrow> (Some a, dispatchMutation fnum op params))
      else (kinds, dispatchMutation fnum op params))"

section \<open>Guard and dispatch see the same resource\<close>

text \<open>
  No key of the parameters is a case variant of the field. Go matches the key of an object to a struct
  field without regard to case but to a map key exactly.
\<close>

definition unambiguous :: "json option \<Rightarrow> string \<Rightarrow> bool" where
  "unambiguous raw field =
     (case raw of None \<Rightarrow> True
      | Some j \<Rightarrow> (case members j of None \<Rightarrow> True | Some ms \<Rightarrow> list_all (\<lambda>(k, v). EqualFold k field \<longrightarrow> k = field) ms))"

lemma select_field_into:
  assumes "select_field names k = Some f" "EqualFold k f \<longrightarrow> k = f"
  shows "k = f"
proof (cases "k \<in> set names")
  case False
  then have "List.find (EqualFold k) names = Some f" using assms(1) by (simp add: select_field_def)
  then have "EqualFold k f" by (auto simp: find_Some_iff)
  then show ?thesis using assms(2) by simp
qed (use assms(1) in \<open>simp add: select_field_def\<close>)

lemma select_field_exact: "k \<in> set names \<Longrightarrow> select_field names k = Some k"
  by (simp add: select_field_def)

lemma select_fields_values:
  assumes "select_fields names (JObj ms) = Some fs" "list_all (\<lambda>(k, v). EqualFold k f \<longrightarrow> k = f) ms" "f \<in> set names"
  shows "field_values fs f = field_values ms f"
proof -
  have "map (\<lambda>(k, v). map_option (\<lambda>g. (g, v)) (select_field names k)) ms = map Some fs"
    using assms(1) by (simp add: select_fields_def those_eq_Some)
  then show ?thesis using assms(2)
  proof (induction ms arbitrary: fs)
    case (Cons m ms)
    obtain k v where m: "m = (k, v)" by (cases m)
    from Cons.prems(1) obtain g gs where fs: "fs = (g, v) # gs" and g: "select_field names k = Some g"
      and gs: "map (\<lambda>(k, v). map_option (\<lambda>g. (g, v)) (select_field names k)) ms = map Some gs"
      by (cases fs) (auto simp: m)
    have "field_values gs f = field_values ms f" using Cons.IH [OF gs] Cons.prems(2) by simp
    moreover have "g = f \<longleftrightarrow> k = f"
      using select_field_into [of names k f] select_field_exact [OF assms(3)] g Cons.prems(2) by (auto simp: m)
    ultimately show ?case by (simp add: fs m field_values_def)
  qed (simp add: field_values_def)
qed

lemma decode_resource:
  assumes "decode names raw = Some p" "get_string p f = Some i" "unambiguous raw f" "f \<in> set names" "stringField raw f \<noteq> []"
  shows "i = stringField raw f"
proof -
  obtain j ms v where raw: "raw = Some j" and j: "members j = Some ms" and v: "last_member ms f = Some v"
    and s: "json_string v = Some (stringField raw f)"
    using assms(5) by (auto simp: stringField_def split: option.splits)
  have "v = JStr (stringField raw f)" using s assms(5) by (cases v) auto
  moreover have "j = JObj ms" using j v by (cases j) (auto simp: last_member_def)
  ultimately have "field_values p f = field_values ms f" "last_member ms f = Some (JStr (stringField raw f))"
    using select_fields_values [of names ms p f] assms(1,3,4) v raw by (auto simp: decode_def unambiguous_def)
  then show ?thesis using get_string_last [of ms f] assms(2) by (simp add: get_string_def)
qed

text \<open>A branch that decodes a resource field and hands it to a client function acts on it.\<close>

lemma decoded_acts_on:
  assumes "decoded (Option.bind (decode names raw) (\<lambda>p. Option.bind (get_string p f) (k p))) = Inr rq"
    "unambiguous raw f" "f \<in> set names" "stringField raw f \<noteq> []"
    "\<And>p i c. k p i = Some c \<Longrightarrow> c = Inr rq \<Longrightarrow> acts_on rq = Some (JStr i)"
  shows "acts_on rq = Some (JStr (stringField raw f))"
proof -
  obtain p i c where d: "decode names raw = Some p" and i: "get_string p f = Some i" and c: "k p i = Some c" "c = Inr rq"
    using assms(1) by (auto simp: decoded_def invalid_def bind_eq_Some_conv split: option.splits)
  from decode_resource [OF d i assms(2-4)] assms(5) [OF c] show ?thesis by simp
qed

end
