(* ===== verification/ServerMutations.thy ===== *)
theory ServerMutations
  imports MutationDispatch ServerRuns ServerStores
begin

text \<open>
  The mutation and confirmation handlers of the server (internal/server/mutations.go with the codes of
  errors.go and upstream.go): the allowlist, the checks in their order, the idempotency reservation, the
  single-use confirmation, the dispatch and the recording of its outcome.
\<close>

section \<open>internal/server/errors.go: codes and messages\<close>

definition codeNotFound :: string where "codeNotFound = ''not_found''"
definition codeConflict :: string where "codeConflict = ''conflict''"
definition codeConfirmationNeeded :: string where "codeConfirmationNeeded = ''confirmation_required''"
definition codeConfirmationInvalid :: string where "codeConfirmationInvalid = ''confirmation_invalid''"

definition mutationMessages :: "(string \<times> string) list" where
  "mutationMessages =
     [(codeNotFound, ''resource not found''),
      (codeBadRequest, ''operation rejected: invalid parameters''),
      (codeUnsupported, ''operation not supported by this herdr build''),
      (codeConflict, ''operation conflicts with another in progress''),
      (codeDeadlineExceeded, ''operation timed out''),
      (codeUnavailable, ''herdr unavailable''),
      (codeInternal, ''operation failed''),
      (codeConfirmationNeeded, ''operation outcome uncertain; obtain a fresh confirmation to retry''),
      (codeGenerationStale, ''resource changed; refresh and retry''),
      (codeConfirmationInvalid, ''confirmation invalid or expired'')]"

definition mutationMessage :: "string \<Rightarrow> string" where
  "mutationMessage code = (case map_of mutationMessages code of Some m \<Rightarrow> m | None \<Rightarrow> ''operation failed'')"

section \<open>internal/server/mutations.go: the allowlist\<close>

record opSpec =
  requiresConfirmation :: bool
  resourceField :: string
  altResourceField :: string

definition opspec :: "string \<Rightarrow> bool \<Rightarrow> string \<Rightarrow> opSpec" where
  "opspec resource confirm alt = \<lparr>requiresConfirmation = confirm, resourceField = resource, altResourceField = alt\<rparr>"

definition generationChecked :: "opSpec \<Rightarrow> bool" where
  "generationChecked s \<longleftrightarrow> resourceField s = ''pane_id''"

definition operations :: "(string \<times> opSpec) list" where
  "operations =
     [(''workspace.create'', opspec [] False []),
      (''workspace.focus'', opspec ''workspace_id'' False []),
      (''workspace.rename'', opspec ''workspace_id'' False []),
      (''workspace.close'', opspec ''workspace_id'' True []),
      (''tab.create'', opspec [] False []),
      (''tab.focus'', opspec ''tab_id'' False []),
      (''tab.rename'', opspec ''tab_id'' False []),
      (''tab.move'', opspec ''tab_id'' False []),
      (''tab.close'', opspec ''tab_id'' True []),
      (''pane.focus'', opspec ''pane_id'' False []),
      (''pane.split'', opspec ''pane_id'' False []),
      (''pane.resize'', opspec ''pane_id'' False []),
      (''pane.zoom'', opspec ''pane_id'' False []),
      (''pane.swap'', opspec ''pane_id'' False []),
      (''pane.move'', opspec ''pane_id'' False []),
      (''pane.rename'', opspec ''pane_id'' False []),
      (''pane.close'', opspec ''pane_id'' True []),
      (''agent.focus'', opspec ''pane_id'' False ''target''),
      (''agent.prompt'', opspec ''pane_id'' False ''target''),
      (''agent.send_keys'', opspec ''pane_id'' False ''target''),
      (''agent.rename'', opspec ''pane_id'' False ''target''),
      (''agent.start'', opspec ''pane_id'' False []),
      (''worktree.create'', opspec [] False []),
      (''worktree.open'', opspec [] False []),
      (''worktree.remove'', opspec ''worktree_id'' True ''workspace_id''),
      (''worktree.remove_force'', opspec ''worktree_id'' True ''workspace_id'')]"

text \<open>The specification of a confirmable action is that of an operation that requires confirmation.\<close>

definition confirmable :: "(string \<times> opSpec) list" where
  "confirmable =
     [(''workspace.close'', opspec ''workspace_id'' True []),
      (''tab.close'', opspec ''tab_id'' True []),
      (''pane.close'', opspec ''pane_id'' True []),
      (''worktree.remove'', opspec ''worktree_id'' True ''workspace_id''),
      (''worktree.remove_force'', opspec ''worktree_id'' True ''workspace_id''),
      (''terminal.takeover'', opspec ''pane_id'' True [])]"

definition opTakeover :: string where "opTakeover = ''terminal.takeover''"

definition allowedOperationNames :: "string list" where
  "allowedOperationNames = sort (map fst operations)"

section \<open>internal/server/mutations.go: parameters\<close>

definition paramString :: "json option \<Rightarrow> string \<Rightarrow> string" where
  "paramString raw field =
     (case raw of
        None \<Rightarrow> []
      | Some j \<Rightarrow>
          (case members j of
             None \<Rightarrow> []
           | Some ms \<Rightarrow>
               (case last_member ms field of
                  None \<Rightarrow> []
                | Some v \<Rightarrow> (case json_string v of None \<Rightarrow> [] | Some s \<Rightarrow> s))))"

definition divergentAlt :: "json option \<Rightarrow> string \<Rightarrow> string \<Rightarrow> bool" where
  "divergentAlt raw altField canonical =
     (if altField = [] then False
      else let alt = paramString raw altField in alt \<noteq> [] \<and> alt \<noteq> canonical)"

definition normalizeParams :: "floats \<Rightarrow> json option \<Rightarrow> string option" where
  "normalizeParams fnum raw = (case raw of None \<Rightarrow> Some ''{}'' | Some j \<Rightarrow> map_option encode_json (untyped fnum j))"

text \<open>\<open>hexsha\<close> is the hexadecimal SHA-256 digest.\<close>

definition hashParams :: "(string \<Rightarrow> string) \<Rightarrow> string \<Rightarrow> string" where
  "hashParams hexsha params = hexsha params"

definition requestFingerprint :: "(string \<Rightarrow> string) \<Rightarrow> string \<Rightarrow> 64 word \<Rightarrow> string \<Rightarrow> string" where
  "requestFingerprint hexsha operation expectedGeneration normalizedParams =
     hashParams hexsha (operation @ [CHR 0x00] @ decimal (unat expectedGeneration) @ [CHR 0x00] @ normalizedParams)"

section \<open>Requests and answers\<close>

record ServerIdentity =
  sv_Subject :: string
  sv_Display :: string
  sv_SessionID :: string
  sv_Quick :: bool
  sv_CSRFToken :: string
  sv_ExpiresAt :: gotime

record confirmationRequest =
  cq_Operation :: string
  cq_ResourceID :: string
  cq_ExpectedGeneration :: "64 word"
  cq_Params :: "json option"

record mutationRequest =
  mq_RequestID :: string
  mq_Operation :: string
  mq_DeadlineUnixMs :: int
  mq_ExpectedGeneration :: "64 word"
  mq_Confirmation :: string
  mq_Params :: "json option"

text \<open>
  The decoding of a body. \<open>None\<close> is a body that is missing, too long, not JSON or followed by more data. A
  raw field holds the last value given for it.
\<close>

definition decodeJSON :: "string list \<Rightarrow> json option \<Rightarrow> (string \<times> json) list option" where
  "decodeJSON names body = Option.bind body (select_fields names)"

fun store_uint :: "64 word \<Rightarrow> json \<Rightarrow> 64 word option" where
  "store_uint x (JNum n) = ParseUint n"
| "store_uint x JNull = Some x"
| "store_uint x _ = None"

definition get_uint :: "(string \<times> json) list \<Rightarrow> string \<Rightarrow> 64 word option" where
  "get_uint fs f = store_all store_uint 0 (field_values fs f)"

definition get_raw :: "(string \<times> json) list \<Rightarrow> string \<Rightarrow> json option" where
  "get_raw fs f = (let vs = field_values fs f in if vs = [] then None else Some (last vs))"

definition decode_confirmation :: "json option \<Rightarrow> confirmationRequest option" where
  "decode_confirmation body = do {
     p \<leftarrow> decodeJSON [''operation'', ''resource_id'', ''expected_generation'', ''params''] body;
     operation \<leftarrow> get_string p ''operation''; resource \<leftarrow> get_string p ''resource_id'';
     g \<leftarrow> get_uint p ''expected_generation'';
     Some \<lparr>cq_Operation = operation, cq_ResourceID = resource, cq_ExpectedGeneration = g, cq_Params = get_raw p ''params''\<rparr> }"

definition decode_mutation :: "json option \<Rightarrow> mutationRequest option" where
  "decode_mutation body = do {
     p \<leftarrow> decodeJSON [''request_id'', ''operation'', ''deadline_unix_ms'', ''expected_generation'', ''confirmation'', ''params''] body;
     request \<leftarrow> get_string p ''request_id''; operation \<leftarrow> get_string p ''operation'';
     deadline \<leftarrow> get_int Atoi p ''deadline_unix_ms''; g \<leftarrow> get_uint p ''expected_generation'';
     confirmation \<leftarrow> get_string p ''confirmation'';
     Some \<lparr>mq_RequestID = request, mq_Operation = operation, mq_DeadlineUnixMs = deadline, mq_ExpectedGeneration = g,
       mq_Confirmation = confirmation, mq_Params = get_raw p ''params''\<rparr> }"

datatype answer =
    ErrorAnswer int string string
  | ConfirmationAnswer string int
  | RawAnswer int string
  | ReplayAnswer int string

definition error_body :: "string \<Rightarrow> string \<Rightarrow> bool \<Rightarrow> json" where
  "error_body code message retryable =
     JObj ([(''code'', JStr code), (''message'', JStr message)] @ (if retryable then [(''retryable'', JBool True)] else []))"

definition failed_body :: "string \<Rightarrow> string \<Rightarrow> string \<Rightarrow> bool \<Rightarrow> string" where
  "failed_body requestID code message retryable =
     encode_json (JObj [(''request_id'', JStr requestID), (''accepted'', JBool False), (''error'', error_body code message retryable)])"

definition accepted_body :: "string \<Rightarrow> json \<Rightarrow> string" where
  "accepted_body requestID result =
     encode_json (JObj [(''request_id'', JStr requestID), (''accepted'', JBool True), (''result'', result)])"

definition writeMutationErr :: "string \<Rightarrow> int \<Rightarrow> string \<Rightarrow> string \<Rightarrow> bool \<Rightarrow> answer" where
  "writeMutationErr requestID status code msg retryable = RawAnswer status (failed_body requestID code msg retryable)"

definition replay :: "idemEntry \<Rightarrow> answer" where
  "replay e = ReplayAnswer (e_status e) (e_body e)"

section \<open>internal/server/mutations.go: confirmations\<close>

record mutation_state =
  ms_nonces :: nonceStore
  ms_idem :: idemStore
  ms_audit :: "AuditEntry list"

definition audit_entry :: "string \<Rightarrow> ServerIdentity \<Rightarrow> string \<Rightarrow> string \<Rightarrow> string \<Rightarrow> string \<Rightarrow> AuditEntry" where
  "audit_entry event ident operation resource requestID result =
     \<lparr>au_Time = 0, au_Event = event, au_Subject = sv_Subject ident, au_SessionID = sv_SessionID ident,
      au_Operation = operation, au_Resource = resource, au_RequestID = requestID, au_Result = result, au_Detail = [], au_Bytes = 0\<rparr>"

text \<open>\<open>gen\<close> is the generation lookup of the state provider, \<open>bytes\<close> the entropy drawn for the token, \<open>now\<close> and \<open>gc_now\<close> its clock readings.\<close>

definition handleConfirmations ::
  "floats \<Rightarrow> (string \<Rightarrow> string) \<Rightarrow> ServerConfig \<Rightarrow> (string \<Rightarrow> 64 word option) \<Rightarrow> string \<Rightarrow> gotime \<Rightarrow> gotime \<Rightarrow>
   ServerIdentity \<Rightarrow> json option \<Rightarrow> mutation_state \<Rightarrow> mutation_state \<times> answer" where
  "handleConfirmations fnum hexsha cfg gen bytes now gc_now ident body st =
     (case decode_confirmation body of
        None \<Rightarrow> (st, ErrorAnswer 400 codeBadRequest ''invalid request body'')
      | Some req \<Rightarrow>
     (case map_of confirmable (cq_Operation req) of
        None \<Rightarrow> (st, ErrorAnswer 400 codeBadRequest ''operation does not require confirmation'')
      | Some spec \<Rightarrow>
          let got = paramString (cq_Params req) (resourceField spec); g = gen (cq_ResourceID req) in
          if resourceField spec \<noteq> [] \<and> cq_ResourceID req = [] then (st, ErrorAnswer 400 codeBadRequest ''missing resource id'')
          else if resourceField spec \<noteq> [] \<and> got \<noteq> [] \<and> got \<noteq> cq_ResourceID req
          then (st, ErrorAnswer 400 codeBadRequest ''resource id mismatch'')
          else if divergentAlt (cq_Params req) (altResourceField spec) (cq_ResourceID req)
          then (st, ErrorAnswer 400 codeBadRequest ''conflicting resource identifiers'')
          else if generationChecked spec \<and> g = None then (st, ErrorAnswer 404 codeNotFound ''resource not found'')
          else if generationChecked spec \<and> g \<noteq> Some (cq_ExpectedGeneration req)
          then (st, ErrorAnswer 409 codeGenerationStale ''resource changed; refresh and retry'')
          else case normalizeParams fnum (cq_Params req) of
            None \<Rightarrow> (st, ErrorAnswer 400 codeBadRequest ''invalid params'')
          | Some norm \<Rightarrow>
              (case issue bytes now gc_now (cq_Operation req) (cq_ResourceID req) (cq_ExpectedGeneration req)
                      (sv_SessionID ident) (hashParams hexsha norm) (ConfirmationTTL cfg) (ms_nonces st) of
                 (nonces, token, exp) \<Rightarrow>
                   (st\<lparr>ms_nonces := nonces,
                       ms_audit := ms_audit st @ [audit_entry ''confirmation.issue'' ident (cq_Operation req) (cq_ResourceID req) [] []]\<rparr>,
                    ConfirmationAnswer token (exp div 1000000)))))"

section \<open>internal/server/mutations.go: mutations\<close>

definition reservationTTL :: "ServerConfig \<Rightarrow> duration" where
  "reservationTTL cfg = (let ttl = 2 * ServerMutationDeadline cfg in if ttl < 30000000000 then 30000000000 else ttl)"

text \<open>\<open>code\<close> is the structured code the error carries, empty when it carries none.\<close>

definition classifyMutateErr :: "ctx_err \<Rightarrow> string \<Rightarrow> string \<times> int \<times> bool" where
  "classifyMutateErr ctx code =
     (if ctx = CtxDeadlineExceeded then (codeDeadlineExceeded, 504, True)
      else if ctx = CtxCanceled then (codeUnavailable, 503, True)
      else if code = ''not_found'' then (codeNotFound, 404, False)
      else if code \<in> {''invalid_params'', ''invalid_request''} then (codeBadRequest, 400, False)
      else if code \<in> {''feature_disabled'', ''platform_unsupported'', ''plugin_disabled'', ''incompatible''} then (codeUnsupported, 501, False)
      else if code = ''stream_conflict'' then (codeConflict, 409, False)
      else if code = ''timeout'' then (codeDeadlineExceeded, 504, True)
      else if code \<in> {''connect'', ''transport'', ''canceled''} then (codeUnavailable, 503, True)
      else (codeInternal, 502, False))"

text \<open>
  The time left, \<open>Inl\<close> the refusal. \<open>time.Time.Sub\<close> saturates at the range of a \<open>time.Duration\<close>.
\<close>

definition time_sub :: "gotime \<Rightarrow> gotime \<Rightarrow> duration" where
  "time_sub a b = max (- (2 ^ 63)) (min (2 ^ 63 - 1) (a - b))"

definition mutation_budget :: "ServerConfig \<Rightarrow> gotime \<Rightarrow> mutationRequest \<Rightarrow> answer + duration" where
  "mutation_budget cfg now req =
     (let timeout = (\<lambda>msg. Inl (writeMutationErr (mq_RequestID req) 504 codeDeadlineExceeded msg True));
          serverBudget = ServerMutationDeadline cfg;
          clientRemaining = time_sub (mq_DeadlineUnixMs req * 1000000) now - DeadlineSkew cfg in
      if mq_DeadlineUnixMs req > 0 \<and> clientRemaining \<le> 0 then timeout ''client deadline already passed''
      else
        let serverBudget = (if mq_DeadlineUnixMs req > 0 \<and> clientRemaining < serverBudget then clientRemaining else serverBudget)
        in if serverBudget \<le> 0 then timeout ''no time budget'' else Inr serverBudget)"

text \<open>The generation guard: \<open>None\<close> when it lets the request pass.\<close>

definition generation_guard :: "(string \<Rightarrow> 64 word option) \<Rightarrow> opSpec \<Rightarrow> string \<Rightarrow> mutationRequest \<Rightarrow> answer option" where
  "generation_guard gen spec resource req =
     (let refused = (\<lambda>status msg retryable. Some (writeMutationErr (mq_RequestID req) status codeGenerationStale msg retryable)) in
      if \<not> generationChecked spec then None
      else if mq_ExpectedGeneration req = 0 then refused 400 ''expected_generation is required for this operation'' False
      else case gen resource of
        None \<Rightarrow> refused 409 ''resource no longer exists'' True
      | Some g \<Rightarrow> if g \<noteq> mq_ExpectedGeneration req then refused 409 ''resource changed; refresh and retry'' True else None)"

text \<open>
  The handler runs in three stages between which the stores are unlocked and other requests may act:
  the validation up to the time budget, the claim of the idempotency key and of the confirmation, and the
  recording of the outcome. \<open>admitted\<close> is what the first stage hands to the others.
\<close>

record admitted =
  ad_spec :: opSpec
  ad_key :: string
  ad_fingerprint :: string
  ad_paramsHash :: string
  ad_resource :: string
  ad_budget :: duration

definition id_reused :: "mutationRequest \<Rightarrow> answer" where
  "id_reused req = writeMutationErr (mq_RequestID req) 409 codeConflict ''request id already used for a different request'' False"

definition admit ::
  "floats \<Rightarrow> (string \<Rightarrow> string) \<Rightarrow> ServerConfig \<Rightarrow> (string \<Rightarrow> 64 word option) \<Rightarrow> gotime \<Rightarrow> gotime \<Rightarrow>
   ServerIdentity \<Rightarrow> mutationRequest \<Rightarrow> mutation_state \<Rightarrow> mutation_state \<times> (answer + admitted)" where
  "admit fnum hexsha cfg gen t_peek t_now ident req st =
     (if mq_RequestID req = [] then (st, Inl (ErrorAnswer 400 codeBadRequest ''missing request id''))
      else case map_of operations (mq_Operation req) of
        None \<Rightarrow> (st, Inl (ErrorAnswer 400 codeBadRequest ''unknown operation''))
      | Some spec \<Rightarrow>
     (case normalizeParams fnum (mq_Params req) of
        None \<Rightarrow> (st, Inl (ErrorAnswer 400 codeBadRequest ''invalid params''))
      | Some norm \<Rightarrow>
          let key = idemKey (sv_SessionID ident) (mq_RequestID req);
              fingerprint = requestFingerprint hexsha (mq_Operation req) (mq_ExpectedGeneration req) norm;
              resource = (if resourceField spec \<noteq> [] then paramString (mq_Params req) (resourceField spec) else [])
          in case peek t_peek key fingerprint (ms_idem st) of
            (idem, e, res) \<Rightarrow>
              let st = st\<lparr>ms_idem := idem\<rparr> in
              if res = idemDone then (st, Inl (replay e))
              else if res = idemMismatch then (st, Inl (id_reused req))
              else if divergentAlt (mq_Params req) (altResourceField spec) resource
              then (st, Inl (ErrorAnswer 400 codeBadRequest ''conflicting resource identifiers''))
              else if requiresConfirmation spec \<and> mq_Confirmation req = []
              then (st, Inl (writeMutationErr (mq_RequestID req) 428 codeConfirmationNeeded ''confirmation required'' False))
              else case generation_guard gen spec resource req of
                Some a \<Rightarrow> (st, Inl a)
              | None \<Rightarrow>
                  (case mutation_budget cfg t_now req of
                     Inl a \<Rightarrow> (st, Inl a)
                   | Inr budget \<Rightarrow>
                       (st, Inr \<lparr>ad_spec = spec, ad_key = key, ad_fingerprint = fingerprint, ad_paramsHash = hashParams hexsha norm,
                                 ad_resource = resource, ad_budget = budget\<rparr>))))"

text \<open>\<open>None\<close> is a successful claim: the request may be dispatched. \<open>ctx\<close> is the state of its context.\<close>

definition claim ::
  "ServerConfig \<Rightarrow> gotime \<Rightarrow> gotime \<Rightarrow> gotime \<Rightarrow> ctx_err \<Rightarrow> ServerIdentity \<Rightarrow> mutationRequest \<Rightarrow> admitted \<Rightarrow>
   mutation_state \<Rightarrow> mutation_state \<times> answer option" where
  "claim cfg t_gc t_reserve t_consume ctx ident req ad st =
     (case reserve t_gc t_reserve (ad_key ad) (ad_fingerprint ad) (reservationTTL cfg) (ms_idem st) of
        (idem, entry, res) \<Rightarrow>
          let st = st\<lparr>ms_idem := idem\<rparr>; released = st\<lparr>ms_idem := release (ad_key ad) idem\<rparr> in
          if res = idemDone then (st, Some (replay entry))
          else if res = idemInFlight
          then (st, Some (writeMutationErr (mq_RequestID req) 409 codeConflict ''request already in progress'' True))
          else if res = idemMismatch then (st, Some (id_reused req))
          else if ctx \<noteq> CtxLive
          then (released, Some (writeMutationErr (mq_RequestID req) 504 codeDeadlineExceeded ''deadline exceeded before dispatch'' True))
          else if requiresConfirmation (ad_spec ad) then
            (case consume t_consume (mq_Confirmation req) (mq_Operation req) (ad_resource ad) (mq_ExpectedGeneration req)
                    (sv_SessionID ident) (ad_paramsHash ad) (ms_nonces st) of
               (nonces, ok) \<Rightarrow>
                 if ok then (st\<lparr>ms_nonces := nonces\<rparr>, None)
                 else (released\<lparr>ms_nonces := nonces\<rparr>,
                       Some (writeMutationErr (mq_RequestID req) 403 codeConfirmationInvalid ''confirmation invalid or expired'' False)))
          else (st, None))"

definition settle ::
  "ServerConfig \<Rightarrow> gotime \<Rightarrow> ctx_err \<Rightarrow> ServerIdentity \<Rightarrow> mutationRequest \<Rightarrow> admitted \<Rightarrow> string + json \<Rightarrow>
   mutation_state \<Rightarrow> mutation_state \<times> answer" where
  "settle cfg t_complete ctx ident req ad outcome st =
     (case outcome of
        Inl upstream \<Rightarrow>
          let (code, status, retryable) = classifyMutateErr ctx upstream;
              reconfirm = retryable \<and> requiresConfirmation (ad_spec ad);
              code = (if reconfirm then codeConfirmationNeeded else code);
              status = (if reconfirm then 428 else status);
              retryable = (if reconfirm then False else retryable);
              body = failed_body (mq_RequestID req) code (mutationMessage code) retryable;
              st = st\<lparr>ms_audit := ms_audit st @
                [audit_entry ''mutation'' ident (mq_Operation req) (ad_resource ad) (mq_RequestID req) (''error:'' @ code)]\<rparr>
          in (st\<lparr>ms_idem :=
                (if code = codeConfirmationNeeded \<or> retryable then release (ad_key ad) (ms_idem st)
                 else complete t_complete (ad_key ad) (ad_fingerprint ad) status body (IdempotencyTTL cfg) (ms_idem st))\<rparr>,
              RawAnswer status body)
      | Inr result \<Rightarrow>
          let body = accepted_body (mq_RequestID req) result;
              st = st\<lparr>ms_audit := ms_audit st @
                [audit_entry ''mutation'' ident (mq_Operation req) (ad_resource ad) (mq_RequestID req) ''ok'']\<rparr>
          in (st\<lparr>ms_idem := complete t_complete (ad_key ad) (ad_fingerprint ad) 200 body (IdempotencyTTL cfg) (ms_idem st)\<rparr>,
              RawAnswer 200 body))"

text \<open>
  The whole handler, undisturbed. The record holds its clock readings and the state of its context before
  and after the dispatch; \<open>mutate\<close> is the mutator. The last component of the result is what was dispatched.
\<close>

record moments =
  at_peek :: gotime
  at_now :: gotime
  at_gc :: gotime
  at_reserve :: gotime
  at_consume :: gotime
  at_complete :: gotime
  ctx_before :: ctx_err
  ctx_after :: ctx_err

definition handleMutations ::
  "floats \<Rightarrow> (string \<Rightarrow> string) \<Rightarrow> ServerConfig \<Rightarrow> (string \<Rightarrow> 64 word option) \<Rightarrow> (string \<Rightarrow> json option \<Rightarrow> string + json) \<Rightarrow>
   moments \<Rightarrow> ServerIdentity \<Rightarrow> json option \<Rightarrow> mutation_state \<Rightarrow> mutation_state \<times> answer \<times> (string \<times> json option) list" where
  "handleMutations fnum hexsha cfg gen mutate t ident body st =
     (case decode_mutation body of
        None \<Rightarrow> (st, ErrorAnswer 400 codeBadRequest ''invalid request body'', [])
      | Some req \<Rightarrow>
     (case admit fnum hexsha cfg gen (at_peek t) (at_now t) ident req st of
        (st, Inl a) \<Rightarrow> (st, a, [])
      | (st, Inr ad) \<Rightarrow>
     (case claim cfg (at_gc t) (at_reserve t) (at_consume t) (ctx_before t) ident req ad st of
        (st, Some a) \<Rightarrow> (st, a, [])
      | (st, None) \<Rightarrow>
     (case settle cfg (at_complete t) (ctx_after t) ident req ad (mutate (mq_Operation req) (mq_Params req)) st of
        (st, a) \<Rightarrow> (st, a, [(mq_Operation req, mq_Params req)])))))"

end
