(* ===== verification/MutationGuards.thy ===== *)
theory MutationGuards
  imports ServerMutations
begin

text \<open>
  What the mutation handlers guarantee: exactly which requests are dispatched, and that a retried request
  runs once.
\<close>

section \<open>When a mutation reaches Herdr\<close>

text \<open>
  What the contract asks of a request before Herdr is touched, independent of the order in which the
  handler checks it. \<open>free_key\<close>: no unexpired entry of the idempotency cache stands under the request's key.
\<close>

definition free_key :: "gotime \<Rightarrow> gotime \<Rightarrow> string \<Rightarrow> string \<Rightarrow> idemStore \<Rightarrow> bool" where
  "free_key t_peek t_gc key fingerprint m =
     (case m key of
        None \<Rightarrow> True
      | Some e \<Rightarrow> e_expiresAt e < t_peek \<or> e_expiresAt e < t_gc \<and> e_pending e \<and> e_fingerprint e = fingerprint)"

definition confirmed :: "gotime \<Rightarrow> string \<Rightarrow> mutationRequest \<Rightarrow> string \<Rightarrow> string \<Rightarrow> nonceStore \<Rightarrow> bool" where
  "confirmed now session req resource paramsHash m =
     (case m (mq_Confirmation req) of
        None \<Rightarrow> False
      | Some n \<Rightarrow> now \<le> n_expiresAt n \<and> n_operation n = mq_Operation req \<and> n_resource n = resource \<and>
          n_generation n = mq_ExpectedGeneration req \<and> n_session n = session \<and> n_paramsHash n = paramsHash)"

definition resource_of :: "opSpec \<Rightarrow> mutationRequest \<Rightarrow> string" where
  "resource_of spec req = (if resourceField spec = [] then [] else paramString (mq_Params req) (resourceField spec))"

definition permitted ::
  "floats \<Rightarrow> (string \<Rightarrow> string) \<Rightarrow> ServerConfig \<Rightarrow> (string \<Rightarrow> 64 word option) \<Rightarrow> moments \<Rightarrow> ServerIdentity \<Rightarrow>
   mutationRequest \<Rightarrow> mutation_state \<Rightarrow> bool" where
  "permitted fnum hexsha cfg gen t ident req st =
     (case (map_of operations (mq_Operation req), normalizeParams fnum (mq_Params req)) of
        (Some spec, Some norm) \<Rightarrow>
          mq_RequestID req \<noteq> [] \<and>
          free_key (at_peek t) (at_gc t) (idemKey (sv_SessionID ident) (mq_RequestID req))
            (requestFingerprint hexsha (mq_Operation req) (mq_ExpectedGeneration req) norm) (ms_idem st) \<and>
          \<not> divergentAlt (mq_Params req) (altResourceField spec) (resource_of spec req) \<and>
          (generationChecked spec \<longrightarrow> mq_ExpectedGeneration req \<noteq> 0 \<and> gen (resource_of spec req) = Some (mq_ExpectedGeneration req)) \<and>
          0 < ServerMutationDeadline cfg \<and>
          (0 < mq_DeadlineUnixMs req \<longrightarrow> DeadlineSkew cfg < time_sub (mq_DeadlineUnixMs req * 1000000) (at_now t)) \<and>
          ctx_before t = CtxLive \<and>
          (requiresConfirmation spec \<longrightarrow> mq_Confirmation req \<noteq> [] \<and>
             confirmed (at_consume t) (sv_SessionID ident) req (resource_of spec req) (hashParams hexsha norm) (ms_nonces st))
      | _ \<Rightarrow> False)"

lemma generation_guard_None:
  "generation_guard gen spec resource req = None \<longleftrightarrow>
     (generationChecked spec \<longrightarrow> mq_ExpectedGeneration req \<noteq> 0 \<and> gen resource = Some (mq_ExpectedGeneration req))"
  by (auto simp: generation_guard_def Let_def split: option.split)

lemma mutation_budget_Inr:
  "(\<exists>b. mutation_budget cfg now req = Inr b) \<longleftrightarrow> 0 < ServerMutationDeadline cfg \<and>
     (0 < mq_DeadlineUnixMs req \<longrightarrow> DeadlineSkew cfg < time_sub (mq_DeadlineUnixMs req * 1000000) now)"
  by (auto simp: mutation_budget_def Let_def)

lemma consume_ok:
  "snd (consume now (mq_Confirmation req) (mq_Operation req) resource (mq_ExpectedGeneration req) session h m) \<longleftrightarrow>
     confirmed now session req resource h m"
  by (auto simp: consume_def confirmed_def Let_def split: option.split)

text \<open>What the validation stage passes on, and when.\<close>

lemma admit_result:
  assumes "admit fnum hexsha cfg gen t_peek t_now ident req st = (st', Inr ad)"
  obtains spec norm where "map_of operations (mq_Operation req) = Some spec" "normalizeParams fnum (mq_Params req) = Some norm"
    "ad_spec ad = spec" "ad_key ad = idemKey (sv_SessionID ident) (mq_RequestID req)"
    "ad_fingerprint ad = requestFingerprint hexsha (mq_Operation req) (mq_ExpectedGeneration req) norm"
    "ad_paramsHash ad = hashParams hexsha norm" "ad_resource ad = resource_of spec req"
    "st' = st\<lparr>ms_idem := fst (peek t_peek (ad_key ad) (ad_fingerprint ad) (ms_idem st))\<rparr>"
    "snd (snd (peek t_peek (ad_key ad) (ad_fingerprint ad) (ms_idem st))) \<notin> {idemDone, idemMismatch}"
    "\<not> divergentAlt (mq_Params req) (altResourceField spec) (resource_of spec req)"
    "requiresConfirmation spec \<longrightarrow> mq_Confirmation req \<noteq> []" "mq_RequestID req \<noteq> []"
    "generation_guard gen spec (resource_of spec req) req = None" "\<exists>b. mutation_budget cfg t_now req = Inr b"
  using assms
  by (auto simp: admit_def Let_def resource_of_def split: if_splits option.splits prod.splits sum.splits)

lemma free_key_iff:
  "free_key t_peek t_gc key f m \<longleftrightarrow> snd (snd (peek t_peek key f m)) \<notin> {idemDone, idemMismatch} \<and>
     snd (snd (reserve t_gc t_reserve key f ttl (fst (peek t_peek key f m)))) = idemReserved"
proof (cases "m key")
  case None
  then show ?thesis by (auto simp: free_key_def peek_def reserve_def idem_gcLocked_def Let_def split: option.split)
next
  case (Some e)
  then show ?thesis
    by (auto simp: free_key_def peek_def reserve_def idem_gcLocked_def Let_def not_less map_filter_out_None split: option.splits if_splits)
qed

lemma admit_passes:
  assumes "map_of operations (mq_Operation req) = Some spec" "normalizeParams fnum (mq_Params req) = Some norm"
    "key = idemKey (sv_SessionID ident) (mq_RequestID req)"
    "f = requestFingerprint hexsha (mq_Operation req) (mq_ExpectedGeneration req) norm"
    "snd (snd (peek t_peek key f (ms_idem st))) \<notin> {idemDone, idemMismatch}"
    "\<not> divergentAlt (mq_Params req) (altResourceField spec) (resource_of spec req)"
    "requiresConfirmation spec \<longrightarrow> mq_Confirmation req \<noteq> []" "mq_RequestID req \<noteq> []"
    "generation_guard gen spec (resource_of spec req) req = None" "mutation_budget cfg t_now req = Inr b"
  shows "\<exists>st' ad. admit fnum hexsha cfg gen t_peek t_now ident req st = (st', Inr ad)"
  using assms by (cases "resourceField spec = []") (auto simp: admit_def Let_def resource_of_def split: prod.split)

lemma claim_None:
  "snd (claim cfg t_gc t_reserve t_consume ctx ident req ad st) = None \<longleftrightarrow>
     snd (snd (reserve t_gc t_reserve (ad_key ad) (ad_fingerprint ad) (reservationTTL cfg) (ms_idem st))) = idemReserved \<and>
     ctx = CtxLive \<and>
     (requiresConfirmation (ad_spec ad) \<longrightarrow>
        confirmed t_consume (sv_SessionID ident) req (ad_resource ad) (ad_paramsHash ad) (ms_nonces st))"
proof -
  obtain idem e res where r: "reserve t_gc t_reserve (ad_key ad) (ad_fingerprint ad) (reservationTTL cfg) (ms_idem st) = (idem, e, res)"
    by (cases "reserve t_gc t_reserve (ad_key ad) (ad_fingerprint ad) (reservationTTL cfg) (ms_idem st)") auto
  moreover have "res \<noteq> idemMiss" using r by (auto simp: reserve_def Let_def split: option.splits if_splits)
  ultimately show ?thesis
    using consume_ok [of t_consume req "ad_resource ad" "sv_SessionID ident" "ad_paramsHash ad" "ms_nonces st"]
    by (cases res) (auto simp: claim_def Let_def split: prod.splits)
qed

text \<open>The request is permitted exactly when it passes the first two stages of the handler.\<close>

lemma permitted_iff:
  "permitted fnum hexsha cfg gen t ident req st \<longleftrightarrow>
     (\<exists>st' ad. admit fnum hexsha cfg gen (at_peek t) (at_now t) ident req st = (st', Inr ad) \<and>
        snd (claim cfg (at_gc t) (at_reserve t) (at_consume t) (ctx_before t) ident req ad st') = None)"
    (is "?p \<longleftrightarrow> (\<exists>st' ad. ?a = _ \<and> ?c ad st')")
proof
  assume p: ?p
  then obtain spec norm where s: "map_of operations (mq_Operation req) = Some spec" and n: "normalizeParams fnum (mq_Params req) = Some norm"
    by (auto simp: permitted_def split: option.splits)
  note q = p [unfolded permitted_def s n, simplified] and free = free_key_iff [of _ _ _ _ _ "at_reserve t" "reservationTTL cfg"]
  obtain b where b: "mutation_budget cfg (at_now t) req = Inr b" using q mutation_budget_Inr by blast
  obtain st' ad where ad: "?a = (st', Inr ad)"
    using admit_passes [OF s n refl refl, of "at_peek t" ident hexsha st gen cfg "at_now t" b] q b
    by (auto simp: generation_guard_None free)
  then have "?c ad st'" by (rule admit_result) (use q s n in \<open>auto simp: claim_None free\<close>)
  with ad show "\<exists>st' ad. ?a = (st', Inr ad) \<and> ?c ad st'" by blast
next
  assume "\<exists>st' ad. ?a = (st', Inr ad) \<and> ?c ad st'"
  then obtain st' ad where ad: "?a = (st', Inr ad)" and c: "?c ad st'" by blast
  from ad show ?p
    by (rule admit_result)
      (use c in \<open>auto simp: permitted_def claim_None generation_guard_None mutation_budget_Inr
        free_key_iff [of _ _ _ _ _ "at_reserve t" "reservationTTL cfg"]\<close>)
qed

lemma handleMutations_calls:
  assumes "decode_mutation body = Some req"
  shows "snd (snd (handleMutations fnum hexsha cfg gen mutate t ident body st)) =
    (case admit fnum hexsha cfg gen (at_peek t) (at_now t) ident req st of
       (st, Inl a) \<Rightarrow> []
     | (st, Inr ad) \<Rightarrow> if snd (claim cfg (at_gc t) (at_reserve t) (at_consume t) (ctx_before t) ident req ad st) = None
         then [(mq_Operation req, mq_Params req)] else [])"
  using assms by (auto simp: handleMutations_def split: prod.splits sum.splits option.splits)

text \<open>
  C4: a mutation reaches Herdr exactly when it is permitted, and then once. The handler dispatches the
  operation and the parameters of the request if and only if the body decodes, the operation is on the
  allowlist, no unexpired entry holds the request identifier of the session, the identifiers do not
  conflict, the asserted generation of a pane-scoped operation is non-zero and the pane's current one, time
  is left, and a destructive operation presents an unexpired confirmation issued for this very operation,
  resource, generation, session and parameters.
\<close>

theorem handleMutations_dispatches:
  "snd (snd (handleMutations fnum hexsha cfg gen mutate t ident body st)) =
     (case decode_mutation body of
        None \<Rightarrow> []
      | Some req \<Rightarrow> if permitted fnum hexsha cfg gen t ident req st then [(mq_Operation req, mq_Params req)] else [])"
proof (cases "decode_mutation body")
  case (Some req)
  then show ?thesis
    unfolding handleMutations_calls [OF Some] permitted_iff by (auto split: prod.splits sum.splits)
qed (simp add: handleMutations_def)

section \<open>Retries\<close>

lemma reserve_pending:
  "reserve gc now k f ttl m = (m', e, idemReserved) \<Longrightarrow>
     m' k = Some \<lparr>e_status = 0, e_body = [], e_expiresAt = now + ttl, e_pending = True, e_fingerprint = f\<rparr>"
  by (auto simp: reserve_def Let_def split: option.splits if_splits)

lemma claim_reserves:
  assumes "claim cfg t_gc t_reserve t_consume ctx ident req ad st = (st', None)"
  shows "ms_idem st' (ad_key ad) = Some \<lparr>e_status = 0, e_body = [], e_expiresAt = t_reserve + reservationTTL cfg,
    e_pending = True, e_fingerprint = ad_fingerprint ad\<rparr>"
proof -
  obtain idem e res where r: "reserve t_gc t_reserve (ad_key ad) (ad_fingerprint ad) (reservationTTL cfg) (ms_idem st) = (idem, e, res)"
    by (cases "reserve t_gc t_reserve (ad_key ad) (ad_fingerprint ad) (reservationTTL cfg) (ms_idem st)") auto
  have "ms_idem st' = idem" using assms r by (auto simp: claim_def Let_def split: if_splits prod.splits)
  moreover have "res = idemReserved" using claim_None [of cfg t_gc t_reserve t_consume ctx ident req ad st] assms r by simp
  ultimately show ?thesis using reserve_pending [of t_gc t_reserve "ad_key ad"] r by simp
qed

lemma settle_records:
  assumes "settle cfg t_complete ctx ident req ad outcome st = (st', a)" "ms_idem st (ad_key ad) = Some e" "e_pending e"
  shows "\<exists>status body. a = RawAnswer status body \<and>
    (ms_idem st' (ad_key ad) = None \<or>
     ms_idem st' (ad_key ad) = Some \<lparr>e_status = status, e_body = body, e_expiresAt = t_complete + IdempotencyTTL cfg,
       e_pending = False, e_fingerprint = ad_fingerprint ad\<rparr>)"
  using assms by (auto simp: settle_def Let_def complete_def release_def split: sum.splits prod.splits)

lemma handleMutations_split:
  assumes "handleMutations fnum hexsha cfg gen mutate t ident body st = (st', a, [c])"
  obtains req ad st1 st2 where "decode_mutation body = Some req"
    "admit fnum hexsha cfg gen (at_peek t) (at_now t) ident req st = (st1, Inr ad)"
    "claim cfg (at_gc t) (at_reserve t) (at_consume t) (ctx_before t) ident req ad st1 = (st2, None)"
    "settle cfg (at_complete t) (ctx_after t) ident req ad (mutate (mq_Operation req) (mq_Params req)) st2 = (st', a)"
    "c = (mq_Operation req, mq_Params req)"
  using assms by (auto simp: handleMutations_def split: option.splits prod.splits sum.splits)

text \<open>A request under a key that holds a recorded answer is replayed or refused in its validation stage.\<close>

lemma admit_recorded:
  assumes "ms_idem st (idemKey (sv_SessionID ident) (mq_RequestID req)) = Some e" "\<not> e_pending e" "t_peek \<le> e_expiresAt e"
    "map_of operations (mq_Operation req) = Some spec" "normalizeParams fnum (mq_Params req) = Some norm" "mq_RequestID req \<noteq> []"
  shows "admit fnum hexsha cfg gen t_peek t_now ident req st =
    (st, Inl (if e_fingerprint e = requestFingerprint hexsha (mq_Operation req) (mq_ExpectedGeneration req) norm
              then replay e else id_reused req))"
  using assms by (auto simp: admit_def Let_def peek_def)

text \<open>
  C22: a retried mutation runs once. After a request was dispatched, either its key is free again (the
  outcome was uncertain and a retry is wanted) or its answer is on record: then, whatever other requests
  did to the cache in between, the same body sent again within the retention time is answered with the
  recorded status and bytes and reaches Herdr no second time, at whatever generation the pane is by then;
  and another payload under the same request identifier is refused.
\<close>

theorem handleMutations_replays:
  assumes "handleMutations fnum hexsha cfg gen mutate t ident body st = (st1, a, [c])"
    "decode_mutation body = Some req" "key = idemKey (sv_SessionID ident) (mq_RequestID req)"
    "ms_idem st1 key \<noteq> None" "until = at_complete t + IdempotencyTTL cfg"
    "ms_idem st2 = idem_run ops (ms_idem st1)" "list_all (meanwhile key until) ops" "at_peek t' \<le> until"
  shows "\<exists>status reply. a = RawAnswer status reply \<and>
    handleMutations fnum hexsha cfg gen' mutate' t' ident body st2 = (st2, ReplayAnswer status reply, []) \<and>
    (\<forall>body' req' norm' norm. decode_mutation body' = Some req' \<and> mq_RequestID req' = mq_RequestID req \<and>
       normalizeParams fnum (mq_Params req) = Some norm \<and> normalizeParams fnum (mq_Params req') = Some norm' \<and>
       requestFingerprint hexsha (mq_Operation req') (mq_ExpectedGeneration req') norm' \<noteq>
       requestFingerprint hexsha (mq_Operation req) (mq_ExpectedGeneration req) norm \<longrightarrow>
       snd (snd (handleMutations fnum hexsha cfg gen' mutate' t' ident body' st2)) = [])"
proof -
  obtain ad sa sb where ad: "admit fnum hexsha cfg gen (at_peek t) (at_now t) ident req st = (sa, Inr ad)"
    and cl: "claim cfg (at_gc t) (at_reserve t) (at_consume t) (ctx_before t) ident req ad sa = (sb, None)"
    and se: "settle cfg (at_complete t) (ctx_after t) ident req ad (mutate (mq_Operation req) (mq_Params req)) sb = (st1, a)"
    using handleMutations_split [OF assms(1)] assms(2) by (metis option.inject)
  obtain spec norm where sn: "map_of operations (mq_Operation req) = Some spec" "normalizeParams fnum (mq_Params req) = Some norm"
    "ad_key ad = key" "ad_fingerprint ad = requestFingerprint hexsha (mq_Operation req) (mq_ExpectedGeneration req) norm" "mq_RequestID req \<noteq> []"
    using admit_result [OF ad] assms(3) by metis
  obtain status reply where a: "a = RawAnswer status reply" and e: "ms_idem st1 key = Some \<lparr>e_status = status, e_body = reply,
      e_expiresAt = until, e_pending = False, e_fingerprint = ad_fingerprint ad\<rparr>"
    using settle_records [OF se claim_reserves [OF cl]] assms(4,5) sn(3) by auto
  from idem_run_keep [of "ms_idem st1" key, OF e, of ops] assms(6,7)
  have e2: "ms_idem st2 key = Some \<lparr>e_status = status, e_body = reply, e_expiresAt = until, e_pending = False, e_fingerprint = ad_fingerprint ad\<rparr>"
    by simp
  have "handleMutations fnum hexsha cfg gen' mutate' t' ident body st2 = (st2, ReplayAnswer status reply, [])"
    using admit_recorded [OF e2 [unfolded assms(3)] _ _ sn(1,2,5), of "at_peek t'" hexsha cfg gen' "at_now t'"] assms(2,8) sn(4)
    by (simp add: handleMutations_def replay_def)
  moreover have "snd (snd (handleMutations fnum hexsha cfg gen' mutate' t' ident body' st2)) = []"
    if d: "decode_mutation body' = Some req'" "mq_RequestID req' = mq_RequestID req" "normalizeParams fnum (mq_Params req') = Some norm'"
      "requestFingerprint hexsha (mq_Operation req') (mq_ExpectedGeneration req') norm' \<noteq> ad_fingerprint ad" for body' req' norm'
  proof (cases "map_of operations (mq_Operation req')")
    case None
    then show ?thesis using d(1) by (simp add: handleMutations_def admit_def)
  next
    case (Some spec')
    have "ms_idem st2 (idemKey (sv_SessionID ident) (mq_RequestID req')) = ms_idem st2 key" using assms(3) d(2) by simp
    then show ?thesis
      using admit_recorded [OF _ _ _ Some d(3), of st2 ident _ "at_peek t'" hexsha cfg gen' "at_now t'"] d assms(8) e2 sn(5)
      by (auto simp: handleMutations_def)
  qed
  ultimately show ?thesis using a sn(2,4) by (intro exI [of _ status] exI [of _ reply]) auto
qed

section \<open>Examples\<close>

definition example_operator :: ServerIdentity where
  "example_operator = \<lparr>sv_Subject = ''op@example'', sv_Display = ''op'', sv_SessionID = ''s1'', sv_Quick = False,
     sv_CSRFToken = ''t'', sv_ExpiresAt = 0\<rparr>"

definition example_moments :: moments where
  "example_moments = \<lparr>at_peek = 1, at_now = 1, at_gc = 1, at_reserve = 1, at_consume = 1, at_complete = 2,
     ctx_before = CtxLive, ctx_after = CtxLive\<rparr>"

definition no_mutations :: mutation_state where
  "no_mutations = \<lparr>ms_nonces = Map.empty, ms_idem = Map.empty, ms_audit = []\<rparr>"

definition create_body :: json where
  "create_body = JObj [(''request_id'', JStr ''r1''), (''operation'', JStr ''workspace.create'')]"

lemma create_body_decoded:
  "decode_mutation (Some create_body) = Some \<lparr>mq_RequestID = ''r1'', mq_Operation = ''workspace.create'', mq_DeadlineUnixMs = 0,
     mq_ExpectedGeneration = 0, mq_Confirmation = [], mq_Params = None\<rparr>"
  by (simp add: decode_mutation_def decodeJSON_def create_body_def select_fields_def select_field_def get_string_def
      field_values_def get_int_def get_uint_def get_raw_def Let_def)

lemma create_handled:
  "\<exists>st a. handleMutations Some id example_config (\<lambda>_. None) (\<lambda>op raw. Inr JNull) example_moments example_operator (Some create_body) no_mutations =
     (st, a, [(''workspace.create'', None)]) \<and> ms_idem st (idemKey ''s1'' ''r1'') \<noteq> None"
  by (simp add: handleMutations_def create_body_decoded admit_def operations_def opspec_def normalizeParams_def peek_def no_mutations_def
      divergentAlt_def generation_guard_def generationChecked_def mutation_budget_def claim_def reserve_def idem_gcLocked_def
      map_filter_out_def settle_def complete_def example_operator_def example_moments_def example_config_def applyDefaults_def
      or_default_def Let_def)

theorem handleMutations_replays_witness:
  "\<exists>st a status reply. handleMutations Some id example_config (\<lambda>_. None) (\<lambda>op raw. Inr JNull) example_moments example_operator
       (Some create_body) no_mutations = (st, a, [(''workspace.create'', None)]) \<and>
     handleMutations Some id example_config (\<lambda>_. None) (\<lambda>op raw. Inr JNull) example_moments example_operator (Some create_body) st =
       (st, ReplayAnswer status reply, [])"
proof -
  obtain st a where h: "handleMutations Some id example_config (\<lambda>_. None) (\<lambda>op raw. Inr JNull) example_moments example_operator
      (Some create_body) no_mutations = (st, a, [(''workspace.create'', None)])" and i: "ms_idem st (idemKey ''s1'' ''r1'') \<noteq> None"
    using create_handled by blast
  have n: "ms_idem st (idemKey (sv_SessionID example_operator) (mq_RequestID \<lparr>mq_RequestID = ''r1'', mq_Operation = ''workspace.create'',
      mq_DeadlineUnixMs = 0, mq_ExpectedGeneration = 0, mq_Confirmation = [], mq_Params = None\<rparr>)) \<noteq> None"
    using i by (simp add: example_operator_def)
  from handleMutations_replays [OF h create_body_decoded refl n refl, of st "[]" example_moments "\<lambda>_. None" "\<lambda>op raw. Inr JNull"] h
  show ?thesis by (auto simp: idem_run_def example_moments_def example_config_def applyDefaults_def or_default_def)
qed

end
