(* ===== verification/MutationTargets.thy ===== *)
theory MutationTargets
  imports MutationGuards
begin

text \<open>
  Which resource a dispatched mutation acts on, compared with the resource that was guarded
  (internal/server/mutations.go against internal/integration/mutate.go).
\<close>

section \<open>Guard and dispatch\<close>

lemma paramString_stringField: "paramString = stringField"
  by (intro ext) (simp add: paramString_def stringField_def)

lemma branch_acts_on:
  "on_workspace_focus raw = Inr rq \<Longrightarrow> unambiguous raw ''workspace_id'' \<Longrightarrow> stringField raw ''workspace_id'' \<noteq> [] \<Longrightarrow>
     acts_on rq = Some (JStr (stringField raw ''workspace_id''))"
  "on_workspace_rename raw = Inr rq \<Longrightarrow> unambiguous raw ''workspace_id'' \<Longrightarrow> stringField raw ''workspace_id'' \<noteq> [] \<Longrightarrow>
     acts_on rq = Some (JStr (stringField raw ''workspace_id''))"
  "on_workspace_close raw = Inr rq \<Longrightarrow> unambiguous raw ''workspace_id'' \<Longrightarrow> stringField raw ''workspace_id'' \<noteq> [] \<Longrightarrow>
     acts_on rq = Some (JStr (stringField raw ''workspace_id''))"
  "on_tab_focus raw = Inr rq \<Longrightarrow> unambiguous raw ''tab_id'' \<Longrightarrow> stringField raw ''tab_id'' \<noteq> [] \<Longrightarrow>
     acts_on rq = Some (JStr (stringField raw ''tab_id''))"
  "on_tab_rename raw = Inr rq \<Longrightarrow> unambiguous raw ''tab_id'' \<Longrightarrow> stringField raw ''tab_id'' \<noteq> [] \<Longrightarrow>
     acts_on rq = Some (JStr (stringField raw ''tab_id''))"
  "on_tab_move raw = Inr rq \<Longrightarrow> unambiguous raw ''tab_id'' \<Longrightarrow> stringField raw ''tab_id'' \<noteq> [] \<Longrightarrow>
     acts_on rq = Some (JStr (stringField raw ''tab_id''))"
  "on_tab_close raw = Inr rq \<Longrightarrow> unambiguous raw ''tab_id'' \<Longrightarrow> stringField raw ''tab_id'' \<noteq> [] \<Longrightarrow>
     acts_on rq = Some (JStr (stringField raw ''tab_id''))"
  "worktreeRemove raw force = Inr rq \<Longrightarrow> unambiguous raw ''worktree_id'' \<Longrightarrow> stringField raw ''worktree_id'' \<noteq> [] \<Longrightarrow>
     acts_on rq = Some (JStr (stringField raw ''worktree_id''))"
  unfolding on_workspace_focus_def on_workspace_rename_def on_workspace_close_def on_tab_focus_def on_tab_rename_def
    on_tab_move_def on_tab_close_def worktreeRemove_def
  by (erule decoded_acts_on; auto simp: bind_eq_Some_conv dest: client_acts_on)+

lemma pane_branch_acts_on:
  assumes "unambiguous raw ''pane_id''" "stringField raw ''pane_id'' \<noteq> []"
  shows "on_pane_focus raw = Inr rq \<Longrightarrow> acts_on rq = Some (JStr (stringField raw ''pane_id''))"
    "on_pane_split fnum raw = Inr rq \<Longrightarrow> acts_on rq = Some (JStr (stringField raw ''pane_id''))"
    "on_pane_resize fnum raw = Inr rq \<Longrightarrow> acts_on rq = Some (JStr (stringField raw ''pane_id''))"
    "on_pane_zoom raw = Inr rq \<Longrightarrow> acts_on rq = Some (JStr (stringField raw ''pane_id''))"
    "on_pane_swap raw = Inr rq \<Longrightarrow> acts_on rq = Some (JStr (stringField raw ''pane_id''))"
    "paneMove fnum raw = Inr rq \<Longrightarrow> acts_on rq = Some (JStr (stringField raw ''pane_id''))"
    "on_pane_rename raw = Inr rq \<Longrightarrow> acts_on rq = Some (JStr (stringField raw ''pane_id''))"
    "on_pane_close raw = Inr rq \<Longrightarrow> acts_on rq = Some (JStr (stringField raw ''pane_id''))"
    "on_agent_focus raw = Inr rq \<Longrightarrow> acts_on rq = Some (JStr (stringField raw ''pane_id''))"
    "on_agent_prompt raw = Inr rq \<Longrightarrow> acts_on rq = Some (JStr (stringField raw ''pane_id''))"
    "on_agent_send_keys raw = Inr rq \<Longrightarrow> acts_on rq = Some (JStr (stringField raw ''pane_id''))"
    "on_agent_rename raw = Inr rq \<Longrightarrow> acts_on rq = Some (JStr (stringField raw ''pane_id''))"
    "on_agent_start raw = Inr rq \<Longrightarrow> acts_on rq = Some (JStr (stringField raw ''pane_id''))"
  unfolding on_pane_focus_def on_pane_split_def on_pane_resize_def on_pane_zoom_def on_pane_swap_def paneMove_def
    on_pane_rename_def on_pane_close_def on_agent_focus_def on_agent_prompt_def on_agent_send_keys_def on_agent_rename_def
    on_agent_start_def
  by (erule decoded_acts_on [OF _ assms(1) _ assms(2)]; auto simp: bind_eq_Some_conv invalid_def split: if_splits dest: client_acts_on)+

lemma dispatch_acts_on:
  assumes "map_of operations op = Some spec" "resourceField spec \<noteq> []" "dispatchMutation fnum op raw = Inr rq"
    "unambiguous raw (resourceField spec)" "stringField raw (resourceField spec) \<noteq> []"
  shows "acts_on rq = Some (JStr (stringField raw (resourceField spec)))"
  using assms
  by (auto simp: operations_def opspec_def dispatchMutation_def branches_def split: if_splits
      intro: branch_acts_on pane_branch_acts_on)


section \<open>Examples\<close>

definition prompt_params :: "string \<Rightarrow> json" where
  "prompt_params key = JObj [(''pane_id'', JStr ''A''), (key, JStr ''B''), (''text'', JStr ''rm'')]"

definition prompt_body :: "string \<Rightarrow> json" where
  "prompt_body key = JObj [(''request_id'', JStr ''r1''), (''operation'', JStr ''agent.prompt''),
     (''expected_generation'', JNum ''7''), (''params'', prompt_params key)]"


lemma handler_audit:
  assumes "handleMutations fnum hexsha cfg gen mutate t ident body st = (st', a, [c])" "decode_mutation body = Some req"
    "map_of operations (mq_Operation req) = Some spec"
  shows "map au_Resource (ms_audit st') = map au_Resource (ms_audit st) @ [resource_of spec req]"
proof -
  obtain ad s1 s2 where ad: "admit fnum hexsha cfg gen (at_peek t) (at_now t) ident req st = (s1, Inr ad)"
    and c: "claim cfg (at_gc t) (at_reserve t) (at_consume t) (ctx_before t) ident req ad s1 = (s2, None)"
    and s: "settle cfg (at_complete t) (ctx_after t) ident req ad (mutate (mq_Operation req) (mq_Params req)) s2 = (st', a)"
    using handleMutations_split [OF assms(1)] assms(2) by (metis option.inject)
  have "ms_audit s1 = ms_audit st" "ad_resource ad = resource_of spec req"
    using admit_result [OF ad] assms(3) by (metis mutation_state.select_convs(3) mutation_state.surjective mutation_state.update_convs(2) option.inject)+
  moreover have "ms_audit s2 = ms_audit s1" using c by (auto simp: claim_def Let_def split: if_splits prod.splits)
  moreover have "map au_Resource (ms_audit st') = map au_Resource (ms_audit s2) @ [ad_resource ad]"
    using s by (auto simp: settle_def Let_def audit_entry_def split: sum.splits prod.splits)
  ultimately show ?thesis by simp
qed

text \<open>
  C23: a second capitalisation of the key defeats the guard. The generation of pane A is asserted, checked
  and audited, the mutation is accepted, and the prompt is typed into pane B, which has no generation the
  client asserted: the map lookup of the guard is exact, the struct decoding of the dispatcher is not, and
  its later member wins.
\<close>

theorem guard_bypassed_by_case:
  "\<exists>st a rq. handleMutations Some id example_config (Map.empty(''A'' \<mapsto> 7)) mutate example_moments example_operator
       (Some (prompt_body ''PANE_ID'')) no_mutations = (st, a, [(''agent.prompt'', Some (prompt_params ''PANE_ID''))]) \<and>
     map au_Resource (ms_audit st) = [''A''] \<and>
     snd (Mutate Some 0 0 0 (Inr []) ''agent.prompt'' (Some (prompt_params ''PANE_ID'')) None) = Inr rq \<and> acts_on rq = Some (JStr ''B'')"
proof -
  let ?req = "\<lparr>mq_RequestID = ''r1'', mq_Operation = ''agent.prompt'', mq_DeadlineUnixMs = 0, mq_ExpectedGeneration = 7,
    mq_Confirmation = [], mq_Params = Some (prompt_params ''PANE_ID'')\<rparr>"
  let ?h = "handleMutations Some id example_config (Map.empty(''A'' \<mapsto> 7)) mutate example_moments example_operator
       (Some (prompt_body ''PANE_ID'')) no_mutations"
  have d: "decode_mutation (Some (prompt_body ''PANE_ID'')) = Some ?req"
    by (simp add: decode_mutation_def decodeJSON_def prompt_body_def select_fields_def select_field_def get_string_def
        field_values_def get_int_def get_uint_def get_raw_def ParseUint_def digit_char_def from_decimal_def Let_def)
  have o: "map_of operations ''agent.prompt'' = Some (opspec ''pane_id'' False ''target'')" by (simp add: operations_def)
  have n: "\<exists>norm. normalizeParams Some (Some (prompt_params ''PANE_ID'')) = Some norm"
    by (simp add: normalizeParams_def prompt_params_def)
  have r: "resource_of (opspec ''pane_id'' False ''target'') ?req = ''A''"
    by (simp add: resource_of_def opspec_def paramString_def prompt_params_def last_member_def)
  have "\<not> divergentAlt (Some (prompt_params ''PANE_ID'')) ''target'' ''A''"
    by (simp add: divergentAlt_def paramString_def prompt_params_def last_member_def Let_def)
  then have "permitted Some id example_config (Map.empty(''A'' \<mapsto> 7)) example_moments example_operator ?req no_mutations"
    using n r by (auto simp: permitted_def o opspec_def free_key_def no_mutations_def generationChecked_def example_config_def
        applyDefaults_def or_default_def example_moments_def)
  then have calls: "snd (snd ?h) = [(''agent.prompt'', Some (prompt_params ''PANE_ID''))]"
    unfolding handleMutations_calls [OF d] permitted_iff by (auto split: prod.splits sum.splits)
  obtain st a where h: "?h = (st, a, [(''agent.prompt'', Some (prompt_params ''PANE_ID''))])"
    using calls by (metis prod.collapse)
  have f: "select_field [''pane_id'', ''text''] ''PANE_ID'' = Some ''pane_id''" by code_simp
  have "snd (Mutate Some 0 0 0 (Inr []) ''agent.prompt'' (Some (prompt_params ''PANE_ID'')) None) =
      AgentPrompt ''B'' ''rm'' \<lparr>po_Wait = False, po_Until = [], po_TimeoutMS = 0\<rparr>"
    by (simp add: Mutate_def dispatchMutation_def branches_def on_agent_prompt_def decode_def prompt_params_def select_fields_def f
        select_field_exact get_string_def field_values_def decoded_def)
  then show ?thesis using h handler_audit [OF h d] o r
    by (simp add: AgentPrompt_def call_def acts_on_call target_field_def no_mutations_def)
qed

end
