(* ===== verification/MutationSystem.thy ===== *)
theory MutationSystem
  imports MutationGuards
begin

text \<open>
  Many requests at once: the stages of the mutation handler as steps of a transition system over the
  shared stores.
\<close>

section \<open>Interleaved requests\<close>

text \<open>
  Requests in flight: each has reserved its key and is on its way to the mutator, until it settles or
  gives up. The clock is read once in each step. \<open>timely\<close>: no request in flight outlives its reservation,
  which is at least twice as long as the time it is given.
\<close>

record job =
  jb_ident :: ServerIdentity
  jb_req :: mutationRequest
  jb_ad :: admitted
  jb_until :: gotime

record mutation_system =
  sys_state :: mutation_state
  sys_clock :: gotime
  sys_running :: "nat \<rightharpoonup> job"

definition timely :: "gotime \<Rightarrow> mutation_system \<Rightarrow> bool" where
  "timely now s \<longleftrightarrow> (\<forall>n j. sys_running s n = Some j \<longrightarrow> now \<le> jb_until j)"

inductive mutation_step :: "floats \<Rightarrow> (string \<Rightarrow> string) \<Rightarrow> ServerConfig \<Rightarrow> mutation_system \<Rightarrow> mutation_system \<Rightarrow> bool"
  for fnum hexsha cfg where
  tick: "sys_clock s \<le> now \<Longrightarrow> timely now s \<Longrightarrow> mutation_step fnum hexsha cfg s (s\<lparr>sys_clock := now\<rparr>)"
| confirmation: "handleConfirmations fnum hexsha cfg gen bytes (sys_clock s) (sys_clock s) ident body (sys_state s) = (st, a) \<Longrightarrow>
    mutation_step fnum hexsha cfg s (s\<lparr>sys_state := st\<rparr>)"
| validate: "admit fnum hexsha cfg gen (sys_clock s) (sys_clock s) ident req (sys_state s) = (st, r) \<Longrightarrow>
    mutation_step fnum hexsha cfg s (s\<lparr>sys_state := st\<rparr>)"
| reserves: "reserve (sys_clock s) (sys_clock s) (ad_key ad) (ad_fingerprint ad) (reservationTTL cfg) (ms_idem (sys_state s)) = (idem, e, idemReserved) \<Longrightarrow>
    sys_running s n = None \<Longrightarrow>
    mutation_step fnum hexsha cfg s (s\<lparr>sys_state := (sys_state s)\<lparr>ms_idem := idem\<rparr>,
      sys_running := (sys_running s)(n \<mapsto> \<lparr>jb_ident = ident, jb_req = req, jb_ad = ad, jb_until = sys_clock s + reservationTTL cfg\<rparr>)\<rparr>)"
| turned_away: "reserve (sys_clock s) (sys_clock s) key f (reservationTTL cfg) (ms_idem (sys_state s)) = (idem, e, r) \<Longrightarrow>
    r \<noteq> idemReserved \<Longrightarrow> mutation_step fnum hexsha cfg s (s\<lparr>sys_state := (sys_state s)\<lparr>ms_idem := idem\<rparr>\<rparr>)"
| consumes: "sys_running s n = Some j \<Longrightarrow>
    consume (sys_clock s) (mq_Confirmation (jb_req j)) (mq_Operation (jb_req j)) (ad_resource (jb_ad j))
      (mq_ExpectedGeneration (jb_req j)) (sv_SessionID (jb_ident j)) (ad_paramsHash (jb_ad j)) (ms_nonces (sys_state s)) = (nonces, ok) \<Longrightarrow>
    mutation_step fnum hexsha cfg s (s\<lparr>sys_state := (sys_state s)\<lparr>ms_nonces := nonces\<rparr>\<rparr>)"
| gives_up: "sys_running s n = Some j \<Longrightarrow>
    mutation_step fnum hexsha cfg s (s\<lparr>sys_state := (sys_state s)\<lparr>ms_idem := release (ad_key (jb_ad j)) (ms_idem (sys_state s))\<rparr>,
      sys_running := (sys_running s)(n := None)\<rparr>)"
| settles: "sys_running s n = Some j \<Longrightarrow>
    settle cfg (sys_clock s) ctx (jb_ident j) (jb_req j) (jb_ad j) outcome (sys_state s) = (st, a) \<Longrightarrow>
    mutation_step fnum hexsha cfg s (s\<lparr>sys_state := st, sys_running := (sys_running s)(n := None)\<rparr>)"

inductive mutation_reachable :: "floats \<Rightarrow> (string \<Rightarrow> string) \<Rightarrow> ServerConfig \<Rightarrow> mutation_system \<Rightarrow> bool"
  for fnum hexsha cfg where
  start: "mutation_reachable fnum hexsha cfg \<lparr>sys_state = no_mutations, sys_clock = now, sys_running = Map.empty\<rparr>"
| step: "mutation_reachable fnum hexsha cfg s \<Longrightarrow> mutation_step fnum hexsha cfg s s' \<Longrightarrow> mutation_reachable fnum hexsha cfg s'"

text \<open>A request in flight owns the pending entry of its key, and no two own the same.\<close>

definition owns :: "idemStore \<Rightarrow> job \<Rightarrow> bool" where
  "owns m j = (case m (ad_key (jb_ad j)) of None \<Rightarrow> False | Some e \<Rightarrow> e_pending e \<and> e_expiresAt e = jb_until j)"

definition exclusive :: "mutation_system \<Rightarrow> bool" where
  "exclusive s \<longleftrightarrow> timely (sys_clock s) s \<and>
     (\<forall>n j. sys_running s n = Some j \<longrightarrow> owns (ms_idem (sys_state s)) j) \<and>
     (\<forall>m n i j. sys_running s m = Some i \<and> sys_running s n = Some j \<and> ad_key (jb_ad i) = ad_key (jb_ad j) \<longrightarrow> m = n)"

lemma owns_other: "m' (ad_key (jb_ad j)) = m (ad_key (jb_ad j)) \<Longrightarrow> owns m' j = owns m j"
  by (simp add: owns_def)

lemma owns_gc: "owns m j \<Longrightarrow> now \<le> jb_until j \<Longrightarrow> idem_gcLocked now m (ad_key (jb_ad j)) = m (ad_key (jb_ad j))"
  by (auto simp: owns_def idem_gcLocked_def map_filter_out_def split: option.splits)

lemma owns_peek: "owns m j \<Longrightarrow> now \<le> jb_until j \<Longrightarrow> fst (peek now k f m) (ad_key (jb_ad j)) = m (ad_key (jb_ad j))"
  by (auto simp: owns_def peek_def split: option.splits)

lemma owns_turned_away:
  assumes "owns m j" "now \<le> jb_until j" "reserve now t k f ttl m = (m', e, r)" "r \<noteq> idemReserved"
  shows "m' (ad_key (jb_ad j)) = m (ad_key (jb_ad j))"
  using assms owns_gc [OF assms(1,2)] by (auto simp: reserve_def Let_def split: option.splits if_splits)

lemma owns_reserved:
  assumes "owns m j" "now \<le> jb_until j" "reserve now t k f ttl m = (m', e, idemReserved)"
  shows "ad_key (jb_ad j) \<noteq> k \<and> m' (ad_key (jb_ad j)) = m (ad_key (jb_ad j))"
proof -
  have "idem_gcLocked now m k = None" "m' = (idem_gcLocked now m)(k \<mapsto>
      \<lparr>e_status = 0, e_body = [], e_expiresAt = t + ttl, e_pending = True, e_fingerprint = f\<rparr>)"
    using assms(3) by (auto simp: reserve_def Let_def split: option.splits if_splits)
  then show ?thesis using owns_gc [OF assms(1,2)] assms(1) by (auto simp: owns_def split: option.splits)
qed

lemma admit_idem:
  "\<exists>k f. ms_idem (fst (admit fnum hexsha cfg gen t_peek t_now ident req st)) \<in> {ms_idem st, fst (peek t_peek k f (ms_idem st))}"
proof -
  let ?k = "idemKey (sv_SessionID ident) (mq_RequestID req)"
  let ?f = "requestFingerprint hexsha (mq_Operation req) (mq_ExpectedGeneration req) (the (normalizeParams fnum (mq_Params req)))"
  have "ms_idem (fst (admit fnum hexsha cfg gen t_peek t_now ident req st)) \<in> {ms_idem st, fst (peek t_peek ?k ?f (ms_idem st))}"
    by (auto simp: admit_def Let_def split: option.splits prod.splits sum.splits)
  then show ?thesis by blast
qed


lemma settle_idem:
  assumes "settle cfg now ctx ident req ad outcome st = (st', a)" "k \<noteq> ad_key ad"
  shows "ms_idem st' k = ms_idem st k"
  using assms by (auto simp: settle_def Let_def complete_def release_def split: sum.splits prod.splits option.splits)

lemma handleConfirmations_idem:
  "ms_idem (fst (handleConfirmations fnum hexsha cfg gen bytes now gc ident body st)) = ms_idem st"
  by (auto simp: handleConfirmations_def Let_def split: option.splits prod.splits)

lemma reservationTTL_pos: "0 < reservationTTL cfg"
  by (simp add: reservationTTL_def Let_def)

lemma exclusive_state:
  assumes "exclusive s" "\<And>n j. sys_running s n = Some j \<Longrightarrow> ms_idem st (ad_key (jb_ad j)) = ms_idem (sys_state s) (ad_key (jb_ad j))"
  shows "exclusive (s\<lparr>sys_state := st\<rparr>)"
  using assms by (auto simp: exclusive_def timely_def owns_def)

lemma exclusive_leave:
  assumes "exclusive s" "sys_running s n = Some j" "\<And>k. k \<noteq> ad_key (jb_ad j) \<Longrightarrow> ms_idem st k = ms_idem (sys_state s) k"
  shows "exclusive (s\<lparr>sys_state := st, sys_running := (sys_running s)(n := None)\<rparr>)"
proof -
  have "ad_key (jb_ad i) \<noteq> ad_key (jb_ad j)" if "sys_running s m = Some i" "m \<noteq> n" for m i
    using assms(1,2) that unfolding exclusive_def by blast
  then show ?thesis using assms by (auto simp: exclusive_def timely_def owns_def)
qed

lemma exclusive_enter:
  assumes "exclusive s" "sys_running s n = None"
    "reserve (sys_clock s) (sys_clock s) (ad_key (jb_ad j)) f (reservationTTL cfg) (ms_idem (sys_state s)) = (idem, e, idemReserved)"
    "jb_until j = sys_clock s + reservationTTL cfg"
  shows "exclusive (s\<lparr>sys_state := (sys_state s)\<lparr>ms_idem := idem\<rparr>, sys_running := (sys_running s)(n \<mapsto> j)\<rparr>)"
proof -
  have other: "ad_key (jb_ad i) \<noteq> ad_key (jb_ad j) \<and> owns idem i" if "sys_running s m = Some i" for m i
    using owns_reserved [OF _ _ assms(3), of i] assms(1) that by (auto simp: exclusive_def timely_def owns_def)
  have "owns idem j" using reserve_pending [OF assms(3)] assms(4) by (simp add: owns_def)
  then show ?thesis using assms(1,4) other reservationTTL_pos [of cfg]
    by (auto simp: exclusive_def timely_def) (metis other)
qed

lemma mutation_step_exclusive:
  assumes "mutation_step fnum hexsha cfg s s'" "exclusive s"
  shows "exclusive s'"
  using assms
proof (cases rule: mutation_step.cases)
  case (tick now)
  then show ?thesis using assms(2) by (auto simp: exclusive_def timely_def)
next
  case (confirmation gen bytes ident body st a)
  then have "ms_idem st = ms_idem (sys_state s)"
    using handleConfirmations_idem [of fnum hexsha cfg gen bytes "sys_clock s" "sys_clock s" ident body "sys_state s"] by simp
  then show ?thesis unfolding confirmation(1) by (intro exclusive_state [OF assms(2)]) simp
next
  case (validate gen ident req st r)
  have "ms_idem st (ad_key (jb_ad j)) = ms_idem (sys_state s) (ad_key (jb_ad j))" if "sys_running s n = Some j" for n j
    using admit_idem [of fnum hexsha cfg gen "sys_clock s" "sys_clock s" ident req "sys_state s"] validate(2)
      owns_peek [of "ms_idem (sys_state s)" j "sys_clock s"] assms(2) that by (auto simp: exclusive_def timely_def)
  then show ?thesis unfolding validate(1) by (rule exclusive_state [OF assms(2)])
next
  case (turned_away key f idem e r)
  have "idem (ad_key (jb_ad j)) = ms_idem (sys_state s) (ad_key (jb_ad j))" if "sys_running s n = Some j" for n j
    using owns_turned_away [OF _ _ turned_away(2,3), of j] assms(2) that by (auto simp: exclusive_def timely_def)
  then show ?thesis unfolding turned_away(1) by (intro exclusive_state [OF assms(2)]) simp
next
  case (gives_up n j)
  have "release (ad_key (jb_ad j)) (ms_idem (sys_state s)) k = ms_idem (sys_state s) k" if "k \<noteq> ad_key (jb_ad j)" for k
    using that by (auto simp: release_def split: option.split)
  then show ?thesis unfolding gives_up(1) by (intro exclusive_leave [OF assms(2) gives_up(2)]) simp
next
  case (settles n j ctx outcome st a)
  then show ?thesis by (auto intro!: exclusive_leave [OF assms(2)] settle_idem)
qed (auto intro!: exclusive_state [OF assms(2)] exclusive_enter [OF assms(2)])

lemma reachable_exclusive: "mutation_reachable fnum hexsha cfg s \<Longrightarrow> exclusive s"
proof (induction rule: mutation_reachable.induct)
  case (start now)
  then show ?case by (simp add: exclusive_def timely_def)
qed (rule mutation_step_exclusive)


text \<open>The time a request is given is positive and at most half as long as its reservation.\<close>

lemma budget_within_reservation:
  "mutation_budget cfg now req = Inr b \<Longrightarrow> 0 < b \<and> 2 * b \<le> reservationTTL cfg"
  by (auto simp: mutation_budget_def reservationTTL_def Let_def split: if_splits)


end
