(* ===== verification/AuthJwt.thy ===== *)
theory AuthJwt
  imports Json Strconv Base64 "HOL-Library.Monad_Syntax"
begin

text \<open>
  Verification of Cloudflare Access tokens (internal/auth/jwt.go): decoding, the checks in their order, the
  construction of RSA keys, and what an accepted token satisfies.
\<close>

section \<open>Errors, claims and keys\<close>

datatype jwt_error =
    ErrMalformedToken | ErrUnsupportedAlg | ErrMissingKID | ErrUnknownKID | ErrBadSignature | ErrExpired | ErrNotYetValid
  | ErrIssuedInFuture | ErrWrongIssuer | ErrWrongAudience | ErrIdentityDenied | ErrNoIdentity | ErrJWKSUnavailable

definition DefaultClockSkew :: duration where "DefaultClockSkew = 60000000000"
definition minRSAModulusBits :: nat where "minRSAModulusBits = 2048"

record PublicKey =
  rsa_N :: nat
  rsa_E :: int

record Claims =
  cl_Issuer :: string
  cl_Audience :: "string list"
  cl_Email :: string
  cl_CommonName :: string
  cl_Subject :: string
  cl_Type :: string
  cl_IssuedAt :: int
  cl_NotBefore :: int
  cl_ExpiresAt :: int

definition ClaimsIdentity :: "Claims \<Rightarrow> string" where
  "ClaimsIdentity c = (if cl_Email c \<noteq> [] then cl_Email c else cl_CommonName c)"

section \<open>The verifier\<close>

text \<open>The key source and the clock are arguments of the verification.\<close>

record Verifier =
  ver_issuer :: string
  ver_audience :: string
  ver_allowed :: "string set"
  ver_skew :: duration

definition WithClockSkew :: "duration \<Rightarrow> Verifier \<Rightarrow> Verifier" where
  "WithClockSkew d v = (if d \<ge> 0 then v\<lparr>ver_skew := d\<rparr> else v)"

definition NewVerifier :: "string \<Rightarrow> string \<Rightarrow> string list \<Rightarrow> bool \<Rightarrow> (Verifier \<Rightarrow> Verifier) list \<Rightarrow> string + Verifier" where
  "NewVerifier issuer audience allowed has_keys opts =
     (let issuer = TrimSpace issuer; audience = TrimSpace audience in
      if issuer = [] then Inl ''auth: issuer is required''
      else if audience = [] then Inl ''auth: audience is required''
      else if \<not> has_keys then Inl ''auth: key source is required''
      else Inr (fold (\<lambda>o' v. o' v) opts
        \<lparr>ver_issuer = issuer, ver_audience = audience, ver_allowed = {a \<in> set (map TrimSpace allowed). a \<noteq> []},
         ver_skew = DefaultClockSkew\<rparr>))"

section \<open>Decoding\<close>

record jwtHeader =
  hdr_Alg :: string
  hdr_Kid :: string
  hdr_Typ :: string

definition decode_header :: "json \<Rightarrow> jwtHeader option" where
  "decode_header j = do {
     p \<leftarrow> select_known [''alg'', ''kid'', ''typ''] j;
     alg \<leftarrow> get_string p ''alg''; kid \<leftarrow> get_string p ''kid''; typ \<leftarrow> get_string p ''typ'';
     Some \<lparr>hdr_Alg = alg, hdr_Kid = kid, hdr_Typ = typ\<rparr> }"

text \<open>An audience is a string or an array of strings; each value replaces the one before.\<close>

fun store_audience :: "string list \<Rightarrow> json \<Rightarrow> string list option" where
  "store_audience x JNull = Some []"
| "store_audience x (JArr vs) = those (map json_string vs)"
| "store_audience x (JStr s) = Some [s]"
| "store_audience x _ = None"

definition decode_claims :: "json \<Rightarrow> Claims option" where
  "decode_claims j = do {
     p \<leftarrow> select_known [''iss'', ''aud'', ''email'', ''common_name'', ''sub'', ''type'', ''iat'', ''nbf'', ''exp''] j;
     iss \<leftarrow> get_string p ''iss''; aud \<leftarrow> store_all store_audience [] (field_values p ''aud'');
     email \<leftarrow> get_string p ''email''; cn \<leftarrow> get_string p ''common_name''; sub \<leftarrow> get_string p ''sub'';
     typ \<leftarrow> get_string p ''type''; iat \<leftarrow> get_int Atoi p ''iat''; nbf \<leftarrow> get_int Atoi p ''nbf''; exp \<leftarrow> get_int Atoi p ''exp'';
     Some \<lparr>cl_Issuer = iss, cl_Audience = aud, cl_Email = email, cl_CommonName = cn, cl_Subject = sub, cl_Type = typ,
       cl_IssuedAt = iat, cl_NotBefore = nbf, cl_ExpiresAt = exp\<rparr> }"

text \<open>\<open>parse\<close> reads JSON text; a segment is base64 of JSON.\<close>

definition decode_segment :: "(string \<Rightarrow> json option) \<Rightarrow> (json \<Rightarrow> 'a option) \<Rightarrow> string \<Rightarrow> 'a option" where
  "decode_segment parse dec seg = Option.bind (DecodeString seg) (\<lambda>bytes. Option.bind (parse bytes) dec)"

section \<open>Verification\<close>

definition containsExact :: "string list \<Rightarrow> string \<Rightarrow> bool" where
  "containsExact xs want = list_ex (\<lambda>s. s = want) xs"

text \<open>\<open>int64\<close> addition wraps around.\<close>

definition int64 :: "int \<Rightarrow> int" where
  "int64 x = (x + 2 ^ 63) mod 2 ^ 64 - 2 ^ 63"

definition Unix :: "gotime \<Rightarrow> int" where
  "Unix t = t div 1000000000"

definition check_claims :: "Verifier \<Rightarrow> gotime \<Rightarrow> Claims \<Rightarrow> jwt_error + Claims" where
  "check_claims v now raw =
     (let skewSecs = ver_skew v div 1000000000 in
      if cl_ExpiresAt raw = 0 then Inl ErrExpired
      else if Unix now > int64 (cl_ExpiresAt raw + skewSecs) then Inl ErrExpired
      else if cl_NotBefore raw \<noteq> 0 \<and> int64 (Unix now + skewSecs) < cl_NotBefore raw then Inl ErrNotYetValid
      else if cl_IssuedAt raw \<noteq> 0 \<and> cl_IssuedAt raw > int64 (Unix now + skewSecs) then Inl ErrIssuedInFuture
      else if cl_Issuer raw \<noteq> ver_issuer v then Inl ErrWrongIssuer
      else if \<not> containsExact (cl_Audience raw) (ver_audience v) then Inl ErrWrongAudience
      else if ver_allowed v \<noteq> {} \<and> ClaimsIdentity raw = [] then Inl ErrNoIdentity
      else if ver_allowed v \<noteq> {} \<and> \<not> (cl_Email raw \<noteq> [] \<and> cl_Email raw \<in> ver_allowed v) \<and>
        \<not> (cl_CommonName raw \<noteq> [] \<and> cl_CommonName raw \<in> ver_allowed v) then Inl ErrIdentityDenied
      else Inr raw)"

text \<open>
  \<open>rsa_ok pub input sig\<close> is the RSASSA-PKCS1-v1.5 check of \<open>sig\<close> against the SHA-256 digest of \<open>input\<close>, \<open>lookup\<close>
  the key source, which may change its own state \<open>ks\<close>; \<open>Inr None\<close> is a nil key.
\<close>

definition verify_signed ::
  "(string \<Rightarrow> json option) \<Rightarrow> (PublicKey \<Rightarrow> string \<Rightarrow> string \<Rightarrow> bool) \<Rightarrow> Verifier \<Rightarrow> gotime \<Rightarrow>
   string \<Rightarrow> string \<Rightarrow> string \<Rightarrow> PublicKey \<Rightarrow> jwt_error + Claims" where
  "verify_signed parse rsa_ok v now header payload signature pub =
     (case DecodeString signature of
        None \<Rightarrow> Inl ErrMalformedToken
      | Some sig \<Rightarrow>
          if \<not> rsa_ok pub (header @ ''.'' @ payload) sig then Inl ErrBadSignature
          else case decode_segment parse decode_claims payload of
            None \<Rightarrow> Inl ErrMalformedToken
          | Some raw \<Rightarrow> check_claims v now raw)"

definition verify_segments ::
  "(string \<Rightarrow> json option) \<Rightarrow> (PublicKey \<Rightarrow> string \<Rightarrow> string \<Rightarrow> bool) \<Rightarrow> (string \<Rightarrow> 'k \<Rightarrow> 'k \<times> ('e + PublicKey option)) \<Rightarrow>
   Verifier \<Rightarrow> gotime \<Rightarrow> string \<Rightarrow> string \<Rightarrow> string \<Rightarrow> 'k \<Rightarrow> 'k \<times> (jwt_error + Claims)" where
  "verify_segments parse rsa_ok lookup v now header payload signature ks =
     (if header = [] \<or> payload = [] \<or> signature = [] then (ks, Inl ErrMalformedToken)
      else case decode_segment parse decode_header header of
        None \<Rightarrow> (ks, Inl ErrMalformedToken)
      | Some hdr \<Rightarrow>
          if hdr_Alg hdr \<noteq> ''RS256'' then (ks, Inl ErrUnsupportedAlg)
          else if hdr_Kid hdr = [] then (ks, Inl ErrMissingKID)
          else (case lookup (hdr_Kid hdr) ks of
             (ks, Inl _) \<Rightarrow> (ks, Inl ErrUnknownKID)
           | (ks, Inr None) \<Rightarrow> (ks, Inl ErrUnknownKID)
           | (ks, Inr (Some pub)) \<Rightarrow> (ks, verify_signed parse rsa_ok v now header payload signature pub)))"

definition VerifyToken ::
  "(string \<Rightarrow> json option) \<Rightarrow> (PublicKey \<Rightarrow> string \<Rightarrow> string \<Rightarrow> bool) \<Rightarrow> (string \<Rightarrow> 'k \<Rightarrow> 'k \<times> ('e + PublicKey option)) \<Rightarrow>
   Verifier \<Rightarrow> gotime \<Rightarrow> string \<Rightarrow> 'k \<Rightarrow> 'k \<times> (jwt_error + Claims)" where
  "VerifyToken parse rsa_ok lookup v now token ks =
     (case Split token CHR ''.'' of
        [header, payload, signature] \<Rightarrow> verify_segments parse rsa_ok lookup v now header payload signature ks
      | _ \<Rightarrow> (ks, Inl ErrMalformedToken))"

section \<open>Keys\<close>

definition from_bytes :: "string \<Rightarrow> nat" where
  "from_bytes s = foldl (\<lambda>n c. 256 * n + ord c) 0 s"

definition rsaPublicKeyFromJWK :: "string \<Rightarrow> string \<Rightarrow> PublicKey option" where
  "rsaPublicKeyFromJWK nB64 eB64 = do {
     nBytes \<leftarrow> DecodeString (TrimRight nB64 ''='');
     eBytes \<leftarrow> DecodeString (TrimRight eB64 ''='');
     let n = from_bytes nBytes; e = from_bytes eBytes in
     if nBytes = [] \<or> eBytes = [] then None
     else if \<not> e < 2 ^ 63 \<or> e < 2 then None
     else if n < 2 ^ (minRSAModulusBits - 1) then None
     else Some \<lparr>rsa_N = n, rsa_E = int e\<rparr> }"

section \<open>What is accepted\<close>


lemma Split_no_sep: "p \<in> set (Split s sep) \<Longrightarrow> sep \<notin> set p"
  by (induction s sep arbitrary: p rule: Split.induct) (auto split: if_splits list.splits)

lemma Split_append: "sep \<notin> set p \<Longrightarrow> Split (p @ sep # s) sep = p # Split s sep"
  by (induction p) (auto split: list.split)

lemma Split_whole: "sep \<notin> set p \<Longrightarrow> Split p sep = [p]"
  by (induction p) (auto split: list.split)

lemma Split_Cons:
  assumes "Split s sep = p # ps" 
  shows "(ps = [] \<and> s = p) \<or> (\<exists>t. s = p @ sep # t \<and> Split t sep = ps)"
  using assms
proof (induction s sep arbitrary: p ps rule: Split.induct)
  case (2 c s sep)
  show ?case
  proof (cases "c = sep")
    case True then show ?thesis using 2 by auto
  next
    case False
    obtain q qs where q: "Split s sep = q # qs" by (cases "Split s sep") auto
    with "2.prems" False have pq: "p = c # q" "ps = qs" by auto
    show ?thesis using "2.IH" (2) [OF False q] pq by auto
  qed
qed simp

lemma Split_three:
  "Split s sep = [a, b, c] \<longleftrightarrow> s = a @ sep # b @ sep # c \<and> sep \<notin> set a \<and> sep \<notin> set b \<and> sep \<notin> set c"
proof
  assume *: "Split s sep = [a, b, c]"
  obtain t where t: "s = a @ sep # t" "Split t sep = [b, c]" using Split_Cons [OF *] by auto
  obtain u where u: "t = b @ sep # u" "Split u sep = [c]" using Split_Cons [OF t(2)] by auto
  have "u = c" using Split_Cons [OF u(2)] by (metis Split_nonempty)
  then show "s = a @ sep # b @ sep # c \<and> sep \<notin> set a \<and> sep \<notin> set b \<and> sep \<notin> set c"
    using t u Split_no_sep [of _ s sep] * by simp
qed (simp add: Split_append Split_whole)

lemma Atoi_range: "Atoi s = Some n \<Longrightarrow> - (2 ^ 63) \<le> n \<and> n < 2 ^ 63"
  by (auto simp: Atoi_def Let_def split: prod.splits if_splits)

lemma store_all_inv: "store_all st x vs = Some y \<Longrightarrow> P x \<Longrightarrow> (\<And>x v y. P x \<Longrightarrow> st x v = Some y \<Longrightarrow> P y) \<Longrightarrow> P y"
  by (induction vs arbitrary: x) (auto split: option.splits)

lemma get_int_range:
  assumes "get_int Atoi fs f = Some n"
  shows "- (2 ^ 63) \<le> n \<and> n < 2 ^ 63"
proof (rule store_all_inv [OF assms [unfolded get_int_def]])
  fix x v y assume "- (2 ^ 63) \<le> x \<and> x < (2 ^ 63 :: int)" "store_int Atoi x v = Some y"
  then show "- (2 ^ 63) \<le> y \<and> y < 2 ^ 63" by (cases "(Atoi, x, v)" rule: store_int.cases) (auto dest: Atoi_range)
qed simp

lemma decode_segment_range:
  "decode_segment parse decode_claims seg = Some c \<Longrightarrow> - (2 ^ 63) \<le> cl_ExpiresAt c \<and> cl_ExpiresAt c < 2 ^ 63"
  by (auto simp: decode_segment_def decode_claims_def bind_eq_Some_conv dest!: get_int_range)

lemma int64_id: "- (2 ^ 63) \<le> x \<Longrightarrow> x < 2 ^ 63 \<Longrightarrow> int64 x = x"
  by (simp add: int64_def)

lemma int64_overflow: "2 ^ 63 \<le> x \<Longrightarrow> x < 2 ^ 64 \<Longrightarrow> int64 x = x - 2 ^ 64"
proof -
  assume x: "2 ^ 63 \<le> x" "x < 2 ^ 64"
  have "(x + 2 ^ 63) mod 2 ^ 64 = (x + 2 ^ 63 - 2 ^ 64) mod 2 ^ 64" by (simp only: minus_mod_self2)
  also have "\<dots> = x + 2 ^ 63 - 2 ^ 64" using x by (intro mod_pos_pos_trivial) auto
  finally show ?thesis by (simp add: int64_def)
qed

text \<open>
  What a verifier demands of the claims, over the integers: the lifetime with the tolerance on both ends,
  the issuer, the audience and, when there is an allowlist, a listed identity. An expiry so late that the
  tolerance leads beyond the range of \<open>int64\<close> is refused.
\<close>

definition valid_claims :: "Verifier \<Rightarrow> gotime \<Rightarrow> Claims \<Rightarrow> bool" where
  "valid_claims v now c \<longleftrightarrow>
     (let skew = ver_skew v div 1000000000; t = Unix now in
      cl_ExpiresAt c \<noteq> 0 \<and> t \<le> cl_ExpiresAt c + skew \<and> cl_ExpiresAt c + skew < 2 ^ 63 \<and>
      (cl_NotBefore c = 0 \<or> cl_NotBefore c \<le> t + skew) \<and> (cl_IssuedAt c = 0 \<or> cl_IssuedAt c \<le> t + skew) \<and>
      cl_Issuer c = ver_issuer v \<and> ver_audience v \<in> set (cl_Audience c) \<and>
      (ver_allowed v \<noteq> {} \<longrightarrow> (\<exists>i\<in>ver_allowed v. i \<noteq> [] \<and> i \<in> {cl_Email c, cl_CommonName c})))"

lemma check_claims_valid:
  assumes "0 \<le> ver_skew v" "ver_skew v < 2 ^ 62" "0 \<le> now" "Unix now < 2 ^ 62"
    and "- (2 ^ 63) \<le> cl_ExpiresAt c" "cl_ExpiresAt c < 2 ^ 63"
  shows "check_claims v now c = Inr c' \<longleftrightarrow> c' = c \<and> valid_claims v now c"
proof -
  define s where "s = ver_skew v div 1000000000"
  have s: "0 \<le> s" "s < 2 ^ 62" unfolding s_def using assms(1,2) by auto
  have t: "0 \<le> Unix now" using assms(3) by (simp add: Unix_def)
  have now: "int64 (Unix now + s) = Unix now + s" using s t assms(4) by (intro int64_id) auto
  have exp: "Unix now \<le> int64 (cl_ExpiresAt c + s) \<longleftrightarrow> Unix now \<le> cl_ExpiresAt c + s \<and> cl_ExpiresAt c + s < 2 ^ 63"
  proof (cases "cl_ExpiresAt c + s < 2 ^ 63")
    case True then show ?thesis using s assms(5) by (simp add: int64_id)
  next
    case False then show ?thesis using s t assms(6) by (simp add: int64_overflow)
  qed
  show ?thesis
    unfolding check_claims_def valid_claims_def Let_def s_def [symmetric] now
    using exp by (auto simp: containsExact_def list_ex_iff ClaimsIdentity_def not_less)
qed

lemma verify_signed_accepts:
  assumes "0 \<le> ver_skew v" "ver_skew v < 2 ^ 62" "0 \<le> now" "Unix now < 2 ^ 62"
  shows "verify_signed parse rsa_ok v now header payload signature pub = Inr c \<longleftrightarrow>
     (\<exists>sig. DecodeString signature = Some sig \<and> rsa_ok pub (header @ ''.'' @ payload) sig) \<and>
     decode_segment parse decode_claims payload = Some c \<and> valid_claims v now c"
proof (cases "decode_segment parse decode_claims payload")
  case (Some raw)
  with decode_segment_range [OF Some] show ?thesis
    by (auto simp: verify_signed_def check_claims_valid [OF assms] split: option.split)
qed (auto simp: verify_signed_def split: option.split)

lemma verify_segments_accepts:
  "verify_segments parse rsa_ok lookup v now header payload signature ks = (ks', Inr c) \<longleftrightarrow>
     header \<noteq> [] \<and> payload \<noteq> [] \<and> signature \<noteq> [] \<and>
     (\<exists>hdr pub. decode_segment parse decode_header header = Some hdr \<and> hdr_Alg hdr = ''RS256'' \<and> hdr_Kid hdr \<noteq> [] \<and>
        lookup (hdr_Kid hdr) ks = (ks', Inr (Some pub)) \<and> verify_signed parse rsa_ok v now header payload signature pub = Inr c)"
  by (auto simp: verify_segments_def split: option.splits prod.splits sum.splits)

text \<open>
  C12: an Access token is accepted exactly when everything holds. Verification returns claims if and only if
  the token has three non-empty segments, its header names RS256 and a key, the key source returns a key for
  that very identifier, the signature over the first two segments verifies under it, and the claims returned
  are those of the signed payload and are within their lifetime, of this issuer, for this audience and of a
  listed identity. The wrap-around of the expiry cannot make an expired token acceptable.
\<close>

theorem VerifyToken_accepts:
  assumes "0 \<le> ver_skew v" "ver_skew v < 2 ^ 62" "0 \<le> now" "Unix now < 2 ^ 62"
  shows "VerifyToken parse rsa_ok lookup v now token ks = (ks', Inr c) \<longleftrightarrow>
    (\<exists>header payload signature hdr pub sig.
       token = header @ ''.'' @ payload @ ''.'' @ signature \<and> CHR ''.'' \<notin> set (header @ payload @ signature) \<and>
       header \<noteq> [] \<and> payload \<noteq> [] \<and> signature \<noteq> [] \<and>
       decode_segment parse decode_header header = Some hdr \<and> hdr_Alg hdr = ''RS256'' \<and> hdr_Kid hdr \<noteq> [] \<and>
       lookup (hdr_Kid hdr) ks = (ks', Inr (Some pub)) \<and>
       DecodeString signature = Some sig \<and> rsa_ok pub (header @ ''.'' @ payload) sig \<and>
       decode_segment parse decode_claims payload = Some c) \<and> valid_claims v now c"
proof -
  have eq: "VerifyToken parse rsa_ok lookup v now token ks = (ks', Inr c) \<longleftrightarrow>
    (\<exists>header payload signature. Split token CHR ''.'' = [header, payload, signature] \<and>
       verify_segments parse rsa_ok lookup v now header payload signature ks = (ks', Inr c))"
    by (auto simp: VerifyToken_def split: list.split)
  show ?thesis (is "?l \<longleftrightarrow> ?r")
  proof
    assume ?l
    then obtain h p s where "Split token CHR ''.'' = [h, p, s]" "verify_segments parse rsa_ok lookup v now h p s ks = (ks', Inr c)"
      unfolding eq by blast
    then show ?r unfolding verify_segments_accepts verify_signed_accepts [OF assms] Split_three
      by (elim conjE exE, intro conjI exI [of _ h] exI [of _ p] exI [of _ s]) auto
  next
    assume ?r
    then show ?l unfolding eq verify_segments_accepts verify_signed_accepts [OF assms] Split_three
      by (elim conjE exE) (intro exI conjI; simp)
  qed
qed

section \<open>An accepted token\<close>

definition example_verifier :: Verifier where
  "example_verifier =
     \<lparr>ver_issuer = ''https://team'', ver_audience = ''app'', ver_allowed = {''me''}, ver_skew = DefaultClockSkew\<rparr>"

definition example_modulus :: string where "example_modulus = EncodeToString (CHR 0x80 # replicate 255 (CHR 0x00))"

text \<open>The header, the payload and the key document of the examples.\<close>

definition example_parse :: "string \<Rightarrow> json option" where
  "example_parse s =
     (if s = ''h'' then Some (JObj [(''alg'', JStr ''RS256''), (''kid'', JStr ''k1'')])
      else if s = ''p'' then Some (JObj [(''iss'', JStr ''https://team''), (''aud'', JArr [JStr ''app'']), (''email'', JStr ''me''), (''exp'', JNum ''100'')])
      else if s = ''d'' then Some (JObj [(''keys'', JArr [JObj
        [(''kty'', JStr ''RSA''), (''kid'', JStr ''k1''), (''n'', JStr example_modulus), (''e'', JStr ''AQAB'')]])])
      else None)"

definition example_key :: PublicKey where "example_key = \<lparr>rsa_N = 2 ^ 2047, rsa_E = 65537\<rparr>"

definition example_claims :: Claims where
  "example_claims = \<lparr>cl_Issuer = ''https://team'', cl_Audience = [''app''], cl_Email = ''me'', cl_CommonName = [], cl_Subject = [],
     cl_Type = [], cl_IssuedAt = 0, cl_NotBefore = 0, cl_ExpiresAt = 100\<rparr>"

lemma example_segments:
  "decode_segment example_parse decode_header ''aA'' = Some \<lparr>hdr_Alg = ''RS256'', hdr_Kid = ''k1'', hdr_Typ = []\<rparr>"
  "decode_segment example_parse decode_claims ''cA'' = Some example_claims" "DecodeString ''cw'' = Some ''s''"
proof -
  have "DecodeString ''aA'' = Some ''h''" "DecodeString ''cA'' = Some ''p''" by code_simp+
  then show "decode_segment example_parse decode_header ''aA'' = Some \<lparr>hdr_Alg = ''RS256'', hdr_Kid = ''k1'', hdr_Typ = []\<rparr>"
    "decode_segment example_parse decode_claims ''cA'' = Some example_claims"
    by (simp_all add: decode_segment_def example_parse_def decode_header_def decode_claims_def select_known_def map_filter_simps
        select_field_def get_string_def get_int_def field_values_def Atoi_def Let_def digit_char_def from_decimal_def example_claims_def
        those_def)
qed code_simp

theorem VerifyToken_accepts_witness:
  "VerifyToken example_parse (\<lambda>pub input sig. sig = ''s'') (\<lambda>kid ks. (ks, if kid = ''k1'' then Inr (Some example_key) else Inl ks))
     example_verifier 150000000000 ''aA.cA.cw'' () = ((), Inr example_claims)"
proof (rule iffD2 [OF VerifyToken_accepts], simp_all only:)
  show "(\<exists>header payload signature hdr pub sig.
      ''aA.cA.cw'' = header @ ''.'' @ payload @ ''.'' @ signature \<and> CHR ''.'' \<notin> set (header @ payload @ signature) \<and>
      header \<noteq> [] \<and> payload \<noteq> [] \<and> signature \<noteq> [] \<and>
      decode_segment example_parse decode_header header = Some hdr \<and> hdr_Alg hdr = ''RS256'' \<and> hdr_Kid hdr \<noteq> [] \<and>
      ((), if hdr_Kid hdr = ''k1'' then Inr (Some example_key) else Inl ()) = ((), Inr (Some pub)) \<and>
      DecodeString signature = Some sig \<and> sig = ''s'' \<and> decode_segment example_parse decode_claims payload = Some example_claims) \<and>
    valid_claims example_verifier 150000000000 example_claims"
    by (rule conjI, rule exI [of _ "''aA''"], rule exI [of _ "''cA''"], rule exI [of _ "''cw''"])
      (simp_all add: example_segments valid_claims_def example_verifier_def example_claims_def DefaultClockSkew_def Unix_def)
qed (simp_all add: example_verifier_def DefaultClockSkew_def Unix_def)

end
