(* ===== verification/AuthJwks.thy ===== *)
theory AuthJwks
  imports AuthJwt
begin

text \<open>
  The cache of Access signing keys (internal/auth/jwks.go): options, the parsing of a key document, refresh,
  lookup with throttling and the bounded use of stale keys; the cache as a key source of the verifier.
\<close>

section \<open>The cache and its options\<close>

definition DefaultJWKSTTL :: duration where "DefaultJWKSTTL = 3600000000000"
definition defaultJWKSMaxBody :: int where "defaultJWKSMaxBody = 1048576"
definition defaultMinRefreshInterval :: duration where "defaultMinRefreshInterval = 15000000000"

record JWKSCache =
  jc_url :: string
  jc_ttl :: duration
  jc_maxBody :: int
  jc_minRefreshInterval :: duration
  jc_keys :: "string \<rightharpoonup> PublicKey"
  jc_fetchedAt :: gotime
  jc_lastAttempt :: gotime
  jc_loaded :: bool

definition WithTTL :: "duration \<Rightarrow> JWKSCache \<Rightarrow> JWKSCache" where
  "WithTTL d j = (if d > 0 then j\<lparr>jc_ttl := d\<rparr> else j)"

definition WithMinRefreshInterval :: "duration \<Rightarrow> JWKSCache \<Rightarrow> JWKSCache" where
  "WithMinRefreshInterval d j = (if d \<ge> 0 then j\<lparr>jc_minRefreshInterval := d\<rparr> else j)"

definition WithMaxBody :: "int \<Rightarrow> JWKSCache \<Rightarrow> JWKSCache" where
  "WithMaxBody n j = (if n > 0 then j\<lparr>jc_maxBody := n\<rparr> else j)"

definition WithCertsURL :: "string \<Rightarrow> JWKSCache \<Rightarrow> JWKSCache" where
  "WithCertsURL u j = (if u \<noteq> [] then j\<lparr>jc_url := u\<rparr> else j)"

definition TrimPrefix :: "string \<Rightarrow> string \<Rightarrow> string" where
  "TrimPrefix s p = (if HasPrefix s p then drop (length p) s else s)"

definition TrimSuffix :: "string \<Rightarrow> string \<Rightarrow> string" where
  "TrimSuffix s p = (if HasSuffix s p then take (length s - length p) s else s)"

definition NormalizeTeamDomain :: "string \<Rightarrow> string" where
  "NormalizeTeamDomain teamDomain =
     (let d = TrimSpace teamDomain;
          d = TrimPrefix d ''https://'';
          d = TrimPrefix d ''http://'';
          d = TrimSuffix d ''/''
      in ToLower d)"

definition IssuerForTeam :: "string \<Rightarrow> string" where
  "IssuerForTeam teamDomain = ''https://'' @ NormalizeTeamDomain teamDomain"

definition CertsURLForTeam :: "string \<Rightarrow> string" where
  "CertsURLForTeam teamDomain = IssuerForTeam teamDomain @ ''/cdn-cgi/access/certs''"

definition NewJWKSCache :: "string \<Rightarrow> (JWKSCache \<Rightarrow> JWKSCache) list \<Rightarrow> JWKSCache option" where
  "NewJWKSCache teamDomain opts =
     (if NormalizeTeamDomain teamDomain = [] then None
      else Some (fold (\<lambda>o' j. o' j) opts
        \<lparr>jc_url = CertsURLForTeam teamDomain, jc_ttl = DefaultJWKSTTL, jc_maxBody = defaultJWKSMaxBody,
         jc_minRefreshInterval = defaultMinRefreshInterval, jc_keys = Map.empty, jc_fetchedAt = 0, jc_lastAttempt = 0,
         jc_loaded = False\<rparr>))"

section \<open>Fetching\<close>

record jwk =
  jwk_Kty :: string
  jwk_Kid :: string
  jwk_N :: string
  jwk_E :: string
  jwk_Alg :: string
  jwk_Use :: string

definition zero_jwk :: jwk where
  "zero_jwk = \<lparr>jwk_Kty = [], jwk_Kid = [], jwk_N = [], jwk_E = [], jwk_Alg = [], jwk_Use = []\<rparr>"

text \<open>A key is decoded into its slot of the slice, over what the slot holds.\<close>

definition store_jwk :: "jwk \<Rightarrow> json \<Rightarrow> jwk option" where
  "store_jwk x j = do {
     p \<leftarrow> select_known [''kty'', ''kid'', ''n'', ''e'', ''alg'', ''use''] j;
     let field = (\<lambda>f old. store_all store_string old (field_values p f)) in do {
     kty \<leftarrow> field ''kty'' (jwk_Kty x); kid \<leftarrow> field ''kid'' (jwk_Kid x); n \<leftarrow> field ''n'' (jwk_N x);
     e \<leftarrow> field ''e'' (jwk_E x); alg \<leftarrow> field ''alg'' (jwk_Alg x); use \<leftarrow> field ''use'' (jwk_Use x);
     Some \<lparr>jwk_Kty = kty, jwk_Kid = kid, jwk_N = n, jwk_E = e, jwk_Alg = alg, jwk_Use = use\<rparr> }}"

definition decode_jwks :: "json \<Rightarrow> jwk list option" where
  "decode_jwks j = Option.bind (select_known [''keys''] j) (\<lambda>p. get_slice store_jwk zero_jwk p ''keys'')"

definition usable_key :: "jwk \<Rightarrow> (string \<times> PublicKey) option" where
  "usable_key k =
     (if \<not> EqualFold (jwk_Kty k) ''RSA'' then None
      else if jwk_Alg k \<noteq> [] \<and> \<not> EqualFold (jwk_Alg k) ''RS256'' then None
      else if jwk_Use k \<noteq> [] \<and> \<not> EqualFold (jwk_Use k) ''sig'' then None
      else if jwk_Kid k = [] then None
      else map_option (Pair (jwk_Kid k)) (rsaPublicKeyFromJWK (jwk_N k) (jwk_E k)))"

text \<open>
  The endpoint: \<open>None\<close> is a failed request, otherwise a status and the body, \<open>None\<close> when reading it failed.
  The flag of the result tells whether the refresh succeeded.
\<close>

type_synonym endpoint = "string \<Rightarrow> (int \<times> string option) option"

definition fetched_keys :: "(string \<Rightarrow> json option) \<Rightarrow> int \<Rightarrow> (int \<times> string option) option \<Rightarrow> (string \<times> PublicKey) list" where
  "fetched_keys parse maxBody response =
     (case response of
        Some (status, Some body) \<Rightarrow>
          if status \<noteq> 200 then []
          else (case Option.bind (parse (take (nat maxBody) body)) decode_jwks of
             None \<Rightarrow> []
           | Some keys \<Rightarrow> List.map_filter usable_key keys)
      | _ \<Rightarrow> [])"

definition refresh :: "(string \<Rightarrow> json option) \<Rightarrow> gotime \<Rightarrow> endpoint \<Rightarrow> gotime \<Rightarrow> JWKSCache \<Rightarrow> JWKSCache \<times> bool" where
  "refresh parse t_attempt get t_fetched j =
     (let j = j\<lparr>jc_lastAttempt := t_attempt\<rparr>; next = fetched_keys parse (jc_maxBody j) (get (jc_url j)) in
      if next = [] then (j, False)
      else (j\<lparr>jc_keys := map_of (rev next), jc_fetchedAt := t_fetched, jc_loaded := True\<rparr>, True))"

section \<open>Lookup\<close>

text \<open>\<open>None\<close>: the cache cannot answer and must be refreshed.\<close>

definition cached_key :: "gotime \<Rightarrow> string \<Rightarrow> JWKSCache \<Rightarrow> (jwt_error + PublicKey option) option" where
  "cached_key now kid j =
     (let fresh = jc_loaded j \<and> now - jc_fetchedAt j < jc_ttl j; sinceAttempt = now - jc_lastAttempt j in
      case jc_keys j kid of
        Some key \<Rightarrow> if fresh then Some (Inr (Some key)) else None
      | None \<Rightarrow> if fresh \<and> sinceAttempt < jc_minRefreshInterval j then Some (Inl ErrUnknownKID) else None)"

definition key_after_refresh :: "gotime \<Rightarrow> bool \<Rightarrow> string \<Rightarrow> JWKSCache \<Rightarrow> jwt_error + PublicKey option" where
  "key_after_refresh now ok kid j =
     (let age = now - jc_fetchedAt j in
      case jc_keys j kid of
        Some key \<Rightarrow> if ok \<or> jc_loaded j \<and> age \<le> 2 * jc_ttl j then Inr (Some key) else Inl ErrJWKSUnavailable
      | None \<Rightarrow> if ok then Inl ErrUnknownKID else Inl ErrJWKSUnavailable)"

text \<open>The clock readings of one lookup: at its start, at the attempt, after the fetch and at its end.\<close>

record key_times =
  kt_start :: gotime
  kt_attempt :: gotime
  kt_fetched :: gotime
  kt_end :: gotime

definition CachePublicKey ::
  "(string \<Rightarrow> json option) \<Rightarrow> endpoint \<Rightarrow> key_times \<Rightarrow> string \<Rightarrow> JWKSCache \<Rightarrow> JWKSCache \<times> (jwt_error + PublicKey option)" where
  "CachePublicKey parse get t kid j =
     (case cached_key (kt_start t) kid j of
        Some r \<Rightarrow> (j, r)
      | None \<Rightarrow>
          (case refresh parse (kt_attempt t) get (kt_fetched t) j of
             (j, ok) \<Rightarrow> (j, key_after_refresh (kt_end t) ok kid j)))"

section \<open>Key sources\<close>

text \<open>
  The contract of the interface KeySource: an invariant of the source that lookups keep, and that a key
  it returns is one that is trusted for the identifier.
\<close>

locale key_source =
  fixes lookup :: "string \<Rightarrow> 'k \<Rightarrow> 'k \<times> ('e + PublicKey option)"
    and source_ok :: "'k \<Rightarrow> bool"
    and trusted :: "string \<Rightarrow> PublicKey \<Rightarrow> bool"
  assumes lookup_keeps: "source_ok ks \<Longrightarrow> source_ok (fst (lookup kid ks))"
    and lookup_trusted: "source_ok ks \<Longrightarrow> snd (lookup kid ks) = Inr (Some pub) \<Longrightarrow> trusted kid pub"
begin

lemma verify_keeps:
  assumes "source_ok ks"
  shows "source_ok (fst (VerifyToken parse rsa_ok lookup v now token ks))"
  using assms lookup_keeps [OF assms]
  by (auto simp: VerifyToken_def verify_segments_def split: list.split option.split prod.split sum.split)
    (metis fst_conv)+

lemma verified_under_trusted:
  assumes "source_ok ks" "VerifyToken parse rsa_ok lookup v now token ks = (ks', Inr c)"
  shows "\<exists>header payload signature sig kid pub. token = header @ ''.'' @ payload @ ''.'' @ signature \<and>
    decode_segment parse decode_claims payload = Some c \<and> DecodeString signature = Some sig \<and>
    trusted kid pub \<and> rsa_ok pub (header @ ''.'' @ payload) sig \<and> check_claims v now c = Inr c"
proof -
  obtain h p s where hps: "Split token CHR ''.'' = [h, p, s]" "verify_segments parse rsa_ok lookup v now h p s ks = (ks', Inr c)"
    using assms(2) by (auto simp: VerifyToken_def split: list.splits)
  obtain hdr :: jwtHeader and pub where l: "lookup (hdr_Kid hdr) ks = (ks', Inr (Some pub))" "verify_signed parse rsa_ok v now h p s pub = Inr c"
    using hps(2) unfolding verify_segments_accepts by blast
  have "trusted (hdr_Kid hdr) pub" using lookup_trusted [OF assms(1)] l(1) by (metis snd_conv)
  moreover have "(\<exists>sig. DecodeString s = Some sig \<and> rsa_ok pub (h @ ''.'' @ p) sig) \<and> decode_segment parse decode_claims p = Some c \<and>
    check_claims v now c = Inr c"
    using l(2) by (auto simp: verify_signed_def check_claims_def Let_def split: option.splits if_splits)
  ultimately show ?thesis using hps(1) unfolding Split_three by (metis append_Cons append_Nil)
qed

end

section \<open>The cache as a key source\<close>

definition strong_key :: "PublicKey \<Rightarrow> bool" where
  "strong_key pub \<longleftrightarrow> 2 ^ 2047 \<le> rsa_N pub \<and> 2 \<le> rsa_E pub \<and> rsa_E pub < 2 ^ 63"

lemma rsaPublicKeyFromJWK_strong: "rsaPublicKeyFromJWK n e = Some pub \<Longrightarrow> strong_key pub"
  by (auto simp: rsaPublicKeyFromJWK_def bind_eq_Some_conv Let_def strong_key_def minRSAModulusBits_def split: if_splits)

text \<open>The keys of a document: each is an RSA signing key of its own identifier with a modulus of at least 2048 bits.\<close>

definition fetched_from :: "(string \<Rightarrow> json option) \<Rightarrow> JWKSCache \<Rightarrow> endpoint \<Rightarrow> string \<Rightarrow> PublicKey \<Rightarrow> bool" where
  "fetched_from parse j get kid pub \<longleftrightarrow>
     (\<exists>body keys k. get (jc_url j) = Some (200, Some body) \<and> Option.bind (parse (take (nat (jc_maxBody j)) body)) decode_jwks = Some keys \<and>
        k \<in> set keys \<and> jwk_Kid k = kid \<and> kid \<noteq> [] \<and> EqualFold (jwk_Kty k) ''RSA'' \<and> rsaPublicKeyFromJWK (jwk_N k) (jwk_E k) = Some pub)"

lemma usable_key_Some:
  "usable_key k = Some (kid, pub) \<Longrightarrow>
     kid = jwk_Kid k \<and> kid \<noteq> [] \<and> EqualFold (jwk_Kty k) ''RSA'' \<and> rsaPublicKeyFromJWK (jwk_N k) (jwk_E k) = Some pub"
  by (auto simp: usable_key_def split: if_splits)

lemma in_map_filter: "y \<in> set (List.map_filter f xs) \<longleftrightarrow> (\<exists>x\<in>set xs. f x = Some y)"
  by (force simp: List.map_filter_def)

lemma fetched_keys_from:
  assumes "(kid, pub) \<in> set (fetched_keys parse (jc_maxBody j) (get (jc_url j)))"
  shows "fetched_from parse j get kid pub"
  using assms
  by (auto simp: fetched_keys_def fetched_from_def in_map_filter split: option.splits if_splits dest!: usable_key_Some) metis

lemma fetched_strong: "fetched_from parse j get kid pub \<Longrightarrow> strong_key pub"
  by (auto simp: fetched_from_def intro: rsaPublicKeyFromJWK_strong)

lemma refresh_cases:
  obtains "refresh parse ta get tf j = (j\<lparr>jc_lastAttempt := ta\<rparr>, False)"
  | "refresh parse ta get tf j =
       (j\<lparr>jc_lastAttempt := ta, jc_keys := map_of (rev (fetched_keys parse (jc_maxBody j) (get (jc_url j)))),
          jc_fetchedAt := tf, jc_loaded := True\<rparr>, True)"
  by (cases "fetched_keys parse (jc_maxBody j) (get (jc_url j)) = []") (simp_all add: refresh_def Let_def)

definition cache_ok :: "JWKSCache \<Rightarrow> bool" where
  "cache_ok j \<longleftrightarrow> (\<forall>kid pub. jc_keys j kid = Some pub \<longrightarrow> strong_key pub)"

lemma refresh_ok: "cache_ok j \<Longrightarrow> cache_ok (fst (refresh parse ta get tf j))"
  by (cases rule: refresh_cases [of parse ta get tf j])
    (auto simp: cache_ok_def dest!: map_of_SomeD fetched_keys_from intro: fetched_strong)

lemma CachePublicKey_answer:
  assumes "CachePublicKey parse get t kid j = (j', Inr (Some pub))"
  shows "jc_keys j' kid = Some pub"
  using assms
  by (auto simp: CachePublicKey_def cached_key_def key_after_refresh_def Let_def split: option.splits prod.splits if_splits)

interpretation jwks: key_source "CachePublicKey parse get t" cache_ok "\<lambda>kid. strong_key" for parse get t
proof
  fix ks kid pub assume ok: "cache_ok ks"
  show "cache_ok (fst (CachePublicKey parse get t kid ks))"
    using ok refresh_ok [OF ok, of parse "kt_attempt t" get "kt_fetched t"]
    by (auto simp: CachePublicKey_def split: option.split prod.split)
  then show "strong_key pub" if "snd (CachePublicKey parse get t kid ks) = Inr (Some pub)"
    using CachePublicKey_answer [of parse get t kid ks] that by (metis cache_ok_def prod.collapse)
qed

section \<open>Where served keys come from\<close>

text \<open>Any number of refreshes: when it was attempted, the endpoint then, when it was fetched.\<close>

definition cache_run :: "(string \<Rightarrow> json option) \<Rightarrow> (gotime \<times> endpoint \<times> gotime) list \<Rightarrow> JWKSCache \<Rightarrow> JWKSCache" where
  "cache_run parse events j = foldl (\<lambda>j (ta, get, tf). fst (refresh parse ta get tf j)) j events"

definition backed :: "(string \<Rightarrow> json option) \<Rightarrow> (gotime \<times> endpoint \<times> gotime) list \<Rightarrow> JWKSCache \<Rightarrow> bool" where
  "backed parse events j \<longleftrightarrow> (\<forall>kid pub. jc_keys j kid = Some pub \<longrightarrow> jc_loaded j \<and>
     (\<exists>ta get. (ta, get, jc_fetchedAt j) \<in> set events \<and> fetched_from parse j get kid pub))"

lemma backed_refresh:
  assumes "backed parse events j"
  shows "backed parse (events @ [(ta, get, tf)]) (fst (refresh parse ta get tf j))"
proof -
  have config: "fetched_from parse (j\<lparr>jc_lastAttempt := a, jc_keys := m, jc_fetchedAt := f, jc_loaded := b\<rparr>) = fetched_from parse j"
    "fetched_from parse (j\<lparr>jc_lastAttempt := a\<rparr>) = fetched_from parse j" for a m f b
    by (simp_all add: fetched_from_def fun_eq_iff)
  show ?thesis
  proof (cases rule: refresh_cases [of parse ta get tf j])
    case 1
    then show ?thesis using assms by (simp add: backed_def config) blast
  next
    case 2
    have "fetched_from parse j get kid pub" if "map_of (rev (fetched_keys parse (jc_maxBody j) (get (jc_url j)))) kid = Some pub" for kid pub
      using map_of_SomeD [OF that] by (simp add: fetched_keys_from)
    then show ?thesis unfolding 2 by (simp add: backed_def config) blast
  qed
qed

lemma backed_mono: "backed parse events j \<Longrightarrow> set events \<subseteq> set events' \<Longrightarrow> backed parse events' j"
  unfolding backed_def by blast

lemma cache_run_backed:
  assumes "backed parse [] j"
  shows "backed parse events (cache_run parse events j)"
proof (induction events rule: rev_induct)
  case (snoc e events)
  then show ?case using backed_refresh by (cases e) (simp add: cache_run_def)
qed (simp add: cache_run_def assms)

lemma refresh_config [simp]:
  "jc_ttl (fst (refresh parse ta get tf j)) = jc_ttl j" "jc_url (fst (refresh parse ta get tf j)) = jc_url j"
  "jc_maxBody (fst (refresh parse ta get tf j)) = jc_maxBody j"
  by (cases rule: refresh_cases [of parse ta get tf j]; simp)+

lemma cache_run_config [simp]:
  "jc_ttl (cache_run parse events j) = jc_ttl j" "jc_url (cache_run parse events j) = jc_url j"
  "jc_maxBody (cache_run parse events j) = jc_maxBody j"
  by (induction events rule: rev_induct) (auto simp: cache_run_def)

definition cache_options :: "(JWKSCache \<Rightarrow> JWKSCache) set" where
  "cache_options = range WithTTL \<union> range WithMinRefreshInterval \<union> range WithMaxBody \<union> range WithCertsURL"

lemma NewJWKSCache_empty:
  assumes "NewJWKSCache team opts = Some j" "set opts \<subseteq> cache_options"
  shows "0 < jc_ttl j \<and> jc_keys j = Map.empty"
proof -
  have "0 < jc_ttl (fold (\<lambda>o' j. o' j) os j) \<and> jc_keys (fold (\<lambda>o' j. o' j) os j) = Map.empty"
    if "set os \<subseteq> cache_options" "0 < jc_ttl j \<and> jc_keys j = Map.empty" for os j
    using that
    by (induction os arbitrary: j) (auto simp: cache_options_def WithTTL_def WithMinRefreshInterval_def WithMaxBody_def WithCertsURL_def)
  then show ?thesis using assms by (auto simp: NewJWKSCache_def DefaultJWKSTTL_def split: if_splits)
qed

lemma CachePublicKey_age:
  assumes "CachePublicKey parse get t kid j = (j', Inr (Some pub))" "0 < jc_ttl j" "kt_start t \<le> kt_fetched t" "kt_start t \<le> kt_end t"
  shows "kt_start t - jc_fetchedAt j' \<le> 2 * jc_ttl j \<and> (j' = j \<or> j' = fst (refresh parse (kt_attempt t) get (kt_fetched t) j))"
proof (cases "cached_key (kt_start t) kid j")
  case None
  show ?thesis
  proof (cases rule: refresh_cases [of parse "kt_attempt t" get "kt_fetched t" j])
    case 1
    then show ?thesis using None assms by (auto simp: CachePublicKey_def key_after_refresh_def Let_def split: option.splits if_splits)
  next
    case 2
    then show ?thesis using None assms by (auto simp: CachePublicKey_def)
  qed
next
  case (Some r)
  then show ?thesis using assms by (auto simp: CachePublicKey_def cached_key_def Let_def split: option.splits if_splits)
qed

text \<open>
  C18: a signing key is never older than two lifetimes. Whatever the endpoint answered and however often it
  failed, a key the cache serves for an identifier was listed under that identifier as an RSA key of at
  least 2048 bits in a document that the certificates URL returned with status 200, and that document was
  fetched no more than twice the cache lifetime before the request.
\<close>

theorem served_key_fetched:
  assumes "NewJWKSCache team opts = Some j0" "set opts \<subseteq> cache_options"
    "CachePublicKey parse get t kid (cache_run parse events j0) = (j, Inr (Some pub))"
    "kt_start t \<le> kt_fetched t" "kt_start t \<le> kt_end t"
  shows "\<exists>ta g tf. (ta, g, tf) \<in> set (events @ [(kt_attempt t, get, kt_fetched t)]) \<and> fetched_from parse j0 g kid pub \<and>
    kt_start t - tf \<le> 2 * jc_ttl j0 \<and> 2 ^ 2047 \<le> rsa_N pub"
proof -
  note new = NewJWKSCache_empty [OF assms(1,2)]
  let ?j = "cache_run parse events j0" and ?events = "events @ [(kt_attempt t, get, kt_fetched t)]"
  have b: "backed parse events ?j" by (rule cache_run_backed) (simp add: backed_def new)
  have age: "kt_start t - jc_fetchedAt j \<le> 2 * jc_ttl j0" "j = ?j \<or> j = fst (refresh parse (kt_attempt t) get (kt_fetched t) ?j)"
    using CachePublicKey_age [OF assms(3)] new assms(4,5) by auto
  have "backed parse ?events j" using age(2) backed_refresh [OF b] backed_mono [OF b, of ?events] by auto
  then obtain ta g where "(ta, g, jc_fetchedAt j) \<in> set ?events" "fetched_from parse j g kid pub"
    using CachePublicKey_answer [OF assms(3)] unfolding backed_def by blast
  moreover have "fetched_from parse j = fetched_from parse j0" using age(2) by (auto simp: fetched_from_def fun_eq_iff)
  ultimately show ?thesis using age(1) fetched_strong [of parse j g kid pub] by (auto simp: strong_key_def)
qed

section \<open>A served key\<close>

definition example_endpoint :: endpoint where
  "example_endpoint url = (if url = ''https://team/cdn-cgi/access/certs'' then Some (200, Some ''d'') else None)"

lemma TrimRight_encoded: "TrimRight (EncodeToString s) ''='' = EncodeToString s"
proof (cases "EncodeToString s = []")
  case False
  have "b64_char k \<noteq> CHR ''=''" if "k < 64" for k
    using that ord_b64_char [of k] by (auto split: if_splits)
  then have "CHR ''='' \<notin> set (EncodeToString s)" using sextets_small by (fastforce simp: EncodeToString_def)
  then show ?thesis using False unfolding TrimRight_def by (intro drop_end_id) (auto dest: last_in_set)
qed (simp add: TrimRight_def)

lemma from_bytes_zeros: "from_bytes (c # replicate n (CHR 0x00)) = ord c * 256 ^ n"
proof -
  have "foldl (\<lambda>n c. 256 * n + ord c) m (replicate n (CHR 0x00)) = m * 256 ^ n" for m
    by (induction n arbitrary: m) simp_all
  then show ?thesis by (simp add: from_bytes_def)
qed

lemma example_modulus_usable: "rsaPublicKeyFromJWK example_modulus ''AQAB'' \<noteq> None"
proof -
  have "DecodeString (TrimRight ''AQAB'' ''='') = Some [CHR 0x01, CHR 0x00, CHR 0x01]" by code_simp
  moreover have "from_bytes [CHR 0x01, CHR 0x00, CHR 0x01] = 65537" by (simp add: from_bytes_def)
  moreover have "from_bytes (CHR 0x80 # replicate 255 (CHR 0x00)) = 2 ^ 2047" by (simp add: from_bytes_zeros)
  ultimately show ?thesis
    by (simp add: rsaPublicKeyFromJWK_def example_modulus_def TrimRight_encoded minRSAModulusBits_def)
qed

lemma example_fetched:
  "\<exists>pub. fetched_keys example_parse defaultJWKSMaxBody (example_endpoint ''https://team/cdn-cgi/access/certs'') = [(''k1'', pub)]"
proof -
  have "EqualFold ''RSA'' ''RSA''" by (simp add: EqualFold_def)
  then show ?thesis using example_modulus_usable
    by (auto simp: fetched_keys_def example_parse_def example_endpoint_def defaultJWKSMaxBody_def decode_jwks_def select_known_def
        select_field_def map_filter_simps get_slice_def field_values_def store_jwk_def usable_key_def zero_jwk_def)
qed

theorem served_key_fetched_witness:
  "\<exists>j0 pub. NewJWKSCache ''https://team/'' [WithTTL 10] = Some j0 \<and>
     snd (CachePublicKey example_parse (\<lambda>url. None) \<lparr>kt_start = 22, kt_attempt = 23, kt_fetched = 24, kt_end = 25\<rparr> ''k1''
       (cache_run example_parse [(4, example_endpoint, 5)] j0)) = Inr (Some pub) \<and> 2 ^ 2047 \<le> rsa_N pub"
proof -
  have d: "NormalizeTeamDomain ''https://team/'' = ''team''" by code_simp
  obtain pub where pub: "fetched_keys example_parse defaultJWKSMaxBody (example_endpoint ''https://team/cdn-cgi/access/certs'') = [(''k1'', pub)]"
    using example_fetched by blast
  define j0 where "j0 = the (NewJWKSCache ''https://team/'' [WithTTL 10])"
  have n: "NewJWKSCache ''https://team/'' [WithTTL 10] = Some j0" by (simp add: j0_def NewJWKSCache_def d)
  define t where "t = \<lparr>kt_start = 22, kt_attempt = 23, kt_fetched = 24, kt_end = 25\<rparr>"
  let ?j = "cache_run example_parse [(4, example_endpoint, 5)] j0"
  have u: "CertsURLForTeam ''https://team/'' = ''https://team/cdn-cgi/access/certs''" by (simp add: CertsURLForTeam_def IssuerForTeam_def d)
  have j: "jc_loaded ?j" "jc_keys ?j ''k1'' = Some pub" "jc_fetchedAt ?j = 5" "jc_ttl j0 = 10"
    using pub by (simp_all add: j0_def NewJWKSCache_def d u WithTTL_def cache_run_def refresh_def)
  then have k: "\<exists>j. CachePublicKey example_parse (\<lambda>url. None) t ''k1'' ?j = (j, Inr (Some pub))"
    by (simp add: t_def CachePublicKey_def cached_key_def refresh_def fetched_keys_def key_after_refresh_def Let_def)
  then obtain j where "CachePublicKey example_parse (\<lambda>url. None) t ''k1'' ?j = (j, Inr (Some pub))" by blast
  from served_key_fetched [OF n _ this] have "2 ^ 2047 \<le> rsa_N pub" by (auto simp: cache_options_def t_def)
  then show ?thesis using n k unfolding t_def by force
qed

end
