(* ===== verification/AuthAdapter.thy ===== *)
theory AuthAdapter
  imports AuthJwks ServerMutations AuthPairing AuthSession
begin

text \<open>
  The authenticator of the relay (internal/integration/auth.go, with the cookies of internal/auth/session.go):
  Access verification, pairing, provisioning, lookup, revocation and CSRF over the auth components, and that
  every operation keeps each session covered by a credential.
\<close>

section \<open>internal/auth/session.go: cookies\<close>

record Cookie =
  ck_Name :: string
  ck_Value :: string
  ck_Path :: string
  ck_Expires :: gotime
  ck_MaxAge :: int
  ck_HttpOnly :: bool
  ck_Secure :: bool
  ck_SameSiteStrict :: bool

definition CookieName :: string where "CookieName = ''__Host-herdr_phone''"

definition NewSessionCookie :: "string \<Rightarrow> gotime \<Rightarrow> Cookie" where
  "NewSessionCookie value expires =
     \<lparr>ck_Name = CookieName, ck_Value = value, ck_Path = ''/'', ck_Expires = expires, ck_MaxAge = 0, ck_HttpOnly = True,
      ck_Secure = True, ck_SameSiteStrict = True\<rparr>"

definition ClearSessionCookie :: Cookie where
  "ClearSessionCookie =
     \<lparr>ck_Name = CookieName, ck_Value = [], ck_Path = ''/'', ck_Expires = 0, ck_MaxAge = -1, ck_HttpOnly = True,
      ck_Secure = True, ck_SameSiteStrict = True\<rparr>"

section \<open>internal/integration/auth.go\<close>

record ServerSession =
  ss_Cookie :: Cookie
  ss_CSRFToken :: string
  ss_Identity :: ServerIdentity
  ss_ExpiresAt :: gotime

datatype adapter_error = errNoAccessToken | errAccess jwt_error | errNoAccessIdentity | ErrPairing | errSessionEntropy

text \<open>
  The adapter with the state it owns: the pairing secret, the sessions and the key source \<open>'k\<close> behind
  the verifier. \<open>verify\<close> is the verifier at the moment of the request; \<open>header\<close> is the value of the Access
  header, empty when it is absent.
\<close>

record 'k authAdapter =
  aa_named :: bool
  aa_pairing :: Pairing
  aa_sessions :: SessionStore
  aa_keys :: 'k

type_synonym 'k verify = "string \<Rightarrow> 'k \<Rightarrow> 'k \<times> (jwt_error + Claims)"

definition verifyToken :: "'k verify \<Rightarrow> string \<Rightarrow> 'k authAdapter \<Rightarrow> 'k authAdapter \<times> (adapter_error + Claims)" where
  "verifyToken verify header a =
     (if header = [] then (a, Inl errNoAccessToken)
      else case verify header (aa_keys a) of
        (ks, Inl e) \<Rightarrow> (a\<lparr>aa_keys := ks\<rparr>, Inl (errAccess e))
      | (ks, Inr c) \<Rightarrow> (a\<lparr>aa_keys := ks\<rparr>, Inr c))"

definition VerifyAccess :: "'k verify \<Rightarrow> string \<Rightarrow> 'k authAdapter \<Rightarrow> 'k authAdapter \<times> adapter_error option" where
  "VerifyAccess verify header a =
     (if \<not> aa_named a then (a, None)
      else case verifyToken verify header a of
        (a, Inl e) \<Rightarrow> (a, Some e)
      | (a, Inr c) \<Rightarrow> (a, None))"

definition toServerIdentity :: "string \<Rightarrow> string \<Rightarrow> gotime \<Rightarrow> Identity \<Rightarrow> ServerIdentity" where
  "toServerIdentity auditID csrfToken expiresAt i =
     (let subject = (if id_Quick i then [] else if id_Email i \<noteq> [] then id_Email i else id_CommonName i)
      in \<lparr>sv_Subject = subject, sv_Display = Display i, sv_SessionID = auditID, sv_Quick = id_Quick i, sv_CSRFToken = csrfToken,
          sv_ExpiresAt = expiresAt\<rparr>)"

definition claims_identity :: "Claims \<Rightarrow> Identity" where
  "claims_identity c = \<lparr>id_Email = cl_Email c, id_CommonName = cl_CommonName c, id_Quick = False\<rparr>"

definition quick_identity :: Identity where
  "quick_identity = \<lparr>id_Email = [], id_CommonName = [], id_Quick = True\<rparr>"

text \<open>The zero time when the token has no expiry after the epoch.\<close>

definition hard_expiry :: "Claims \<Rightarrow> gotime" where
  "hard_expiry c = (if cl_ExpiresAt c > 0 then cl_ExpiresAt c * 1000000000 else 0)"

definition granted :: "Session \<Rightarrow> Identity \<Rightarrow> ServerSession" where
  "granted sess i =
     \<lparr>ss_Cookie = NewSessionCookie (s_ID sess) (s_ExpiresAt sess), ss_CSRFToken = s_CSRFToken sess,
      ss_Identity = toServerIdentity (s_AuditID sess) (s_CSRFToken sess) (s_ExpiresAt sess) i, ss_ExpiresAt = s_ExpiresAt sess\<rparr>"

type_synonym tokens = "string option \<times> string option \<times> string option"

definition exchange_secret ::
  "entropy \<Rightarrow> tokens \<Rightarrow> gotime \<Rightarrow> string \<Rightarrow> Identity \<Rightarrow> gotime \<Rightarrow> 'k authAdapter \<Rightarrow> 'k authAdapter \<times> (adapter_error + ServerSession)" where
  "exchange_secret r r' now secret i hardExpiry a =
     (case Verify r secret (aa_pairing a) of
        (p, ok) \<Rightarrow>
          let a = a\<lparr>aa_pairing := p\<rparr> in
          if \<not> ok then (a, Inl ErrPairing)
          else case Create r' now i hardExpiry (aa_sessions a) of
            (st, None) \<Rightarrow> (a\<lparr>aa_sessions := st\<rparr>, Inl errSessionEntropy)
          | (st, Some sess) \<Rightarrow> (a\<lparr>aa_sessions := st\<rparr>, Inr (granted sess i)))"

definition Pair ::
  "'k verify \<Rightarrow> entropy \<Rightarrow> tokens \<Rightarrow> gotime \<Rightarrow> string \<Rightarrow> string \<Rightarrow> 'k authAdapter \<Rightarrow> 'k authAdapter \<times> (adapter_error + ServerSession)" where
  "Pair verify r r' now header secret a =
     (if aa_named a then
        (case verifyToken verify header a of
           (a, Inl e) \<Rightarrow> (a, Inl e)
         | (a, Inr c) \<Rightarrow> exchange_secret r r' now secret (claims_identity c) (hard_expiry c) a)
      else exchange_secret r r' now secret quick_identity 0 a)"

text \<open>\<open>Inr None\<close> is the nil session of quick mode. \<open>now\<close> is read by the lookup, \<open>now'\<close> by the creation.\<close>

definition EnsureSession ::
  "'k verify \<Rightarrow> tokens \<Rightarrow> gotime \<Rightarrow> gotime \<Rightarrow> string \<Rightarrow> 'k authAdapter \<Rightarrow> 'k authAdapter \<times> (adapter_error + ServerSession option)" where
  "EnsureSession verify r now now' header a =
     (if \<not> aa_named a then (a, Inr None)
      else case verifyToken verify header a of
        (a, Inl e) \<Rightarrow> (a, Inl e)
      | (a, Inr c) \<Rightarrow>
          let i = claims_identity c in
          if IdentitySubject i = [] then (a, Inl errNoAccessIdentity)
          else (case GetByIdentity now i (aa_sessions a) of
             (st, Some sess) \<Rightarrow> (a\<lparr>aa_sessions := st\<rparr>, Inr (Some (granted sess (s_Identity sess))))
           | (st, None) \<Rightarrow>
               (case Create r now' i (hard_expiry c) st of
                  (st, None) \<Rightarrow> (a\<lparr>aa_sessions := st\<rparr>, Inl errSessionEntropy)
                | (st, Some sess) \<Rightarrow> (a\<lparr>aa_sessions := st\<rparr>, Inr (Some (granted sess (s_Identity sess)))))))"

definition SessionOf :: "gotime \<Rightarrow> string \<Rightarrow> 'k authAdapter \<Rightarrow> 'k authAdapter \<times> ServerIdentity option" where
  "SessionOf now cookieValue a =
     (case Get now cookieValue (aa_sessions a) of
        (st, None) \<Rightarrow> (a\<lparr>aa_sessions := st\<rparr>, None)
      | (st, Some sess) \<Rightarrow>
          (a\<lparr>aa_sessions := st\<rparr>, Some (toServerIdentity (s_AuditID sess) (s_CSRFToken sess) (s_ExpiresAt sess) (s_Identity sess))))"

definition Revoke :: "string \<Rightarrow> 'k authAdapter \<Rightarrow> 'k authAdapter" where
  "Revoke cookieValue a = a\<lparr>aa_sessions := Delete cookieValue (aa_sessions a)\<rparr>"

definition ValidateCSRF :: "gotime \<Rightarrow> string \<Rightarrow> string \<Rightarrow> 'k authAdapter \<Rightarrow> 'k authAdapter \<times> bool" where
  "ValidateCSRF now cookieValue csrfToken a =
     (case Get now cookieValue (aa_sessions a) of
        (st, None) \<Rightarrow> (a\<lparr>aa_sessions := st\<rparr>, False)
      | (st, Some sess) \<Rightarrow> (a\<lparr>aa_sessions := st\<rparr>, ValidCSRF (s_CSRFToken sess) csrfToken))"

definition RotatePairing :: "entropy \<Rightarrow> string \<Rightarrow> 'k authAdapter \<Rightarrow> 'k authAdapter \<times> (string + string)" where
  "RotatePairing r baseURL a =
     (case Rotate r (aa_pairing a) of
        (p, Some err) \<Rightarrow> (a\<lparr>aa_pairing := p\<rparr>, Inl err)
      | (p, None) \<Rightarrow> (a\<lparr>aa_pairing := p\<rparr>, Inr (PairingLink p baseURL)))"

section \<open>Sessions and the tokens behind them\<close>

text \<open>
  The contract of a verifier: claims are only returned for a presented token that is genuine, and the key
  source stays sound.
\<close>

locale token_verifier =
  fixes verify :: "'k verify" and keys_ok :: "'k \<Rightarrow> bool" and genuine :: "string \<Rightarrow> Claims \<Rightarrow> bool"
  assumes verify_keeps_keys: "keys_ok ks \<Longrightarrow> keys_ok (fst (verify token ks))"
    and verify_genuine: "keys_ok ks \<Longrightarrow> snd (verify token ks) = Inr c \<Longrightarrow> genuine token c"
begin

lemma verifyToken_cases:
  assumes "keys_ok (aa_keys a)"
  obtains e ks where "verifyToken verify header a = (a\<lparr>aa_keys := ks\<rparr>, Inl e)" "keys_ok ks"
  | c ks where "verifyToken verify header a = (a\<lparr>aa_keys := ks\<rparr>, Inr c)" "keys_ok ks" "genuine header c"
proof (cases "header = []")
  case True
  then show thesis using that(1) [of "aa_keys a"] assms by (simp add: verifyToken_def)
next
  case False
  obtain ks r where v: "verify header (aa_keys a) = (ks, r)" by force
  then have "keys_ok ks" using verify_keeps_keys [OF assms, of header] by simp
  then show thesis using that False v verify_genuine [OF assms, of header]
    by (cases r) (auto simp: verifyToken_def)
qed

end

text \<open>A session is covered when it names the quick-tunnel operator or a genuine token that outlives it.\<close>

definition covered :: "bool \<Rightarrow> (Claims \<Rightarrow> bool) \<Rightarrow> Session \<Rightarrow> bool" where
  "covered named genuine sess \<longleftrightarrow>
     (if named then \<exists>c. genuine c \<and> s_Identity sess = claims_identity c \<and>
        (0 < cl_ExpiresAt c \<longrightarrow> s_ExpiresAt sess \<le> cl_ExpiresAt c * 1000000000)
      else s_Identity sess = quick_identity)"

definition all_sessions :: "(Session \<Rightarrow> bool) \<Rightarrow> SessionStore \<Rightarrow> bool" where
  "all_sessions P st \<longleftrightarrow> (\<forall>e\<in>set (sessions st). P (snd e))"

lemma all_sessions_sub: "all_sessions P st \<Longrightarrow> set xs \<subseteq> set (sessions st) \<Longrightarrow> all_sessions P (st\<lparr>sessions := xs\<rparr>)"
  by (auto simp: all_sessions_def)

lemma all_sessions_update:
  assumes "all_sessions P st" "P v"
  shows "all_sessions P (st\<lparr>sessions := AList.update k v (sessions st)\<rparr>)"
proof -
  have "e = (k, v) \<or> e \<in> set xs" if "e \<in> set (AList.update k v xs)" for e xs
    using that by (induction xs) (auto split: if_splits)
  then show ?thesis using assms unfolding all_sessions_def by fastforce
qed

lemma covered_seen [simp]: "covered n g (s\<lparr>s_LastSeen := t\<rparr>) = covered n g s"
  by (simp add: covered_def)

lemma all_sessions_live: "all_sessions P st \<Longrightarrow> all_sessions P (st\<lparr>sessions := live_sessions st now\<rparr>)"
  by (rule all_sessions_sub) (auto simp: live_sessions_def)

lemma all_sessions_delete: "all_sessions P st \<Longrightarrow> all_sessions P (st\<lparr>sessions := AList.delete i (sessions st)\<rparr>)"
  by (rule all_sessions_sub) (auto simp: AList.delete_eq)

lemma Get_all_sessions:
  assumes "all_sessions (covered n g) st"
  shows "all_sessions (covered n g) (fst (Get now i st))"
proof (cases rule: Get_cases [of now i st])
  case (3 sess)
  then have "covered n g sess" using assms by (auto simp: all_sessions_def dest!: map_of_SomeD)
  then show ?thesis using 3 assms by (simp add: all_sessions_update)
qed (use assms in \<open>simp_all add: all_sessions_delete\<close>)

lemma GetByIdentity_all_sessions:
  assumes "all_sessions (covered n g) st"
  shows "all_sessions (covered n g) (fst (GetByIdentity now i st))"
proof (cases "foldl (pick_best (IdentitySubject i)) None (live_sessions st now)")
  case None
  then show ?thesis using assms by (simp add: GetByIdentity_def Let_def all_sessions_live)
next
  case (Some e)
  note live = all_sessions_live [OF assms, of now]
  have "covered n g (snd e)" using pick_best_in [OF Some] live by (auto simp: all_sessions_def)
  then show ?thesis using assms Some all_sessions_update [OF live, of "(snd e)\<lparr>s_LastSeen := now\<rparr>" "fst e"]
    by (cases e) (simp add: GetByIdentity_def Let_def)
qed

lemma Create_all_sessions:
  assumes "all_sessions (covered n g) st"
    "\<And>sess. s_Identity sess = i \<Longrightarrow> (hard \<noteq> 0 \<longrightarrow> s_ExpiresAt sess \<le> hard) \<Longrightarrow> covered n g sess"
  shows "all_sessions (covered n g) (fst (Create r now i hard st))"
proof (cases rule: Create_cases [of r now i hard st])
  case (2 sess)
  then have "covered n g sess" using assms(2) by auto
  then show ?thesis using 2(1) assms(1) by (simp add: all_sessions_update)
qed (use assms in simp)

section \<open>Every operation keeps sessions covered\<close>

definition adapter_ok :: "('k \<Rightarrow> bool) \<Rightarrow> (Claims \<Rightarrow> bool) \<Rightarrow> 'k authAdapter \<Rightarrow> bool" where
  "adapter_ok keys_ok genuine a \<longleftrightarrow> keys_ok (aa_keys a) \<and> all_sessions (covered (aa_named a) genuine) (aa_sessions a)"

lemma adapter_ok_keys: "adapter_ok k g a \<Longrightarrow> k ks \<Longrightarrow> adapter_ok k g (a\<lparr>aa_keys := ks\<rparr>)"
  by (simp add: adapter_ok_def)

lemma covered_mono: "covered n g s \<Longrightarrow> (\<And>c. g c \<Longrightarrow> g' c) \<Longrightarrow> covered n g' s"
  by (cases n) (auto simp: covered_def)

lemma adapter_ok_mono: "adapter_ok k g a \<Longrightarrow> (\<And>c. g c \<Longrightarrow> g' c) \<Longrightarrow> adapter_ok k g' a"
  using covered_mono [of "aa_named a" g _ g'] by (simp add: adapter_ok_def all_sessions_def)

lemma covered_claims:
  "g c \<Longrightarrow> s_Identity sess = claims_identity c \<Longrightarrow> (hard_expiry c \<noteq> 0 \<longrightarrow> s_ExpiresAt sess \<le> hard_expiry c) \<Longrightarrow> covered True g sess"
  by (auto simp: covered_def hard_expiry_def split: if_splits)

lemma exchange_secret_ok:
  assumes "adapter_ok k g a" "\<And>sess. s_Identity sess = i \<Longrightarrow> (hard \<noteq> 0 \<longrightarrow> s_ExpiresAt sess \<le> hard) \<Longrightarrow> covered (aa_named a) g sess"
  shows "adapter_ok k g (fst (exchange_secret r r' now secret i hard a))"
proof -
  have "all_sessions (covered (aa_named a) g) (fst (Create r' now i hard (aa_sessions a)))"
    using assms by (intro Create_all_sessions) (auto simp: adapter_ok_def)
  then show ?thesis using assms(1)
    by (auto simp: exchange_secret_def adapter_ok_def Let_def split: prod.split option.split)
qed

context token_verifier
begin

lemma VerifyAccess_ok: "adapter_ok keys_ok g a \<Longrightarrow> adapter_ok keys_ok g (fst (VerifyAccess verify header a))"
  by (rule verifyToken_cases [of a header])
    (auto simp: VerifyAccess_def adapter_ok_def)

lemma Pair_ok:
  assumes "adapter_ok keys_ok g a" "\<And>c. genuine header c \<Longrightarrow> g c"
  shows "adapter_ok keys_ok g (fst (Pair verify r r' now header secret a))"
proof (cases "aa_named a")
  case True
  have "keys_ok (aa_keys a)" using assms(1) by (simp add: adapter_ok_def)
  then show ?thesis
  proof (cases rule: verifyToken_cases [of a header])
    case (1 e ks)
    then show ?thesis using True assms(1) by (simp add: Pair_def adapter_ok_keys)
  next
    case (2 c ks)
    have "adapter_ok keys_ok g (fst (exchange_secret r r' now secret (claims_identity c) (hard_expiry c) (a\<lparr>aa_keys := ks\<rparr>)))"
      using covered_claims [of g c] assms(2) 2(3) True adapter_ok_keys [OF assms(1) 2(2)] by (intro exchange_secret_ok) simp_all
    then show ?thesis using True 2(1) by (simp add: Pair_def)
  qed
next
  case False
  then show ?thesis using assms(1) by (auto simp: Pair_def covered_def intro!: exchange_secret_ok)
qed

lemma EnsureSession_ok:
  assumes "adapter_ok keys_ok g a" "\<And>c. genuine header c \<Longrightarrow> g c"
  shows "adapter_ok keys_ok g (fst (EnsureSession verify r now now' header a))"
proof (cases "aa_named a")
  case True
  have "keys_ok (aa_keys a)" using assms(1) by (simp add: adapter_ok_def)
  then show ?thesis
  proof (cases rule: verifyToken_cases [of a header])
    case (1 e ks)
    then show ?thesis using True assms(1) by (simp add: EnsureSession_def adapter_ok_keys)
  next
    case (2 c ks)
    obtain st x where g: "GetByIdentity now (claims_identity c) (aa_sessions a) = (st, x)" by force
    obtain st' y where cr: "Create r now' (claims_identity c) (hard_expiry c) st = (st', y)" by force
    have all: "all_sessions (covered True g) st"
      using GetByIdentity_all_sessions [of True g "aa_sessions a" now "claims_identity c"] assms(1) True g by (simp add: adapter_ok_def)
    moreover have "all_sessions (covered True g) st'"
      using Create_all_sessions [OF all, of "claims_identity c" "hard_expiry c" r now'] covered_claims [of g c] assms(2) 2(3) cr by auto
    ultimately show ?thesis using True 2 g cr assms(1)
      by (auto simp: EnsureSession_def Let_def adapter_ok_def split: option.split)
  qed
qed (use assms in \<open>simp add: EnsureSession_def\<close>)

end

lemma SessionOf_ok: "adapter_ok k g a \<Longrightarrow> adapter_ok k g (fst (SessionOf now cookie a))"
  using Get_all_sessions [of "aa_named a" g "aa_sessions a" now cookie]
  by (auto simp: SessionOf_def adapter_ok_def split: prod.split option.split)

lemma ValidateCSRF_ok: "adapter_ok k g a \<Longrightarrow> adapter_ok k g (fst (ValidateCSRF now cookie token a))"
  using Get_all_sessions [of "aa_named a" g "aa_sessions a" now cookie]
  by (auto simp: ValidateCSRF_def adapter_ok_def split: prod.split option.split)

lemma Revoke_ok: "adapter_ok k g a \<Longrightarrow> adapter_ok k g (Revoke cookie a)"
  by (simp add: Revoke_def adapter_ok_def Delete_def all_sessions_delete)

lemma RotatePairing_ok: "adapter_ok k g a \<Longrightarrow> adapter_ok k g (fst (RotatePairing r base a))"
  by (auto simp: RotatePairing_def adapter_ok_def split: prod.split option.split)

end
