(* ===== verification/RateLimiter.thy ===== *)
theory RateLimiter
  imports Prelude Complex_Main
begin

text \<open>
  The token-bucket rate limiter of the server (internal/server/stores.go), with floating-point rounding as a
  parameter, and the bound on bursts.
\<close>

section \<open>internal/server/stores.go: rate limiter\<close>

text \<open>
  Token counts are rationals; \<open>fl\<close> rounds to the nearest \<open>float64\<close>. The interval is positive
  (\<open>applyDefaults\<close>).
\<close>

definition rlSweepInterval :: duration where "rlSweepInterval = 60000000000"
definition rlIdleTTL :: duration where "rlIdleTTL = 600000000000"

record bucket =
  bk_tokens :: rat
  bk_last :: gotime

record rateLimiter =
  lim_m :: "string \<rightharpoonup> bucket"
  lim_every :: duration
  lim_burst :: int
  lim_lastSweep :: gotime

definition newRateLimiter :: "duration \<Rightarrow> int \<Rightarrow> gotime \<Rightarrow> rateLimiter" where
  "newRateLimiter every burst now = \<lparr>lim_m = Map.empty, lim_every = every, lim_burst = burst, lim_lastSweep = now\<rparr>"

definition sweepLocked :: "gotime \<Rightarrow> rateLimiter \<Rightarrow> rateLimiter" where
  "sweepLocked now r =
     (if now - lim_lastSweep r < rlSweepInterval then r
      else r\<lparr>lim_lastSweep := now, lim_m := map_filter_out (\<lambda>k b. now - bk_last b \<ge> rlIdleTTL) (lim_m r)\<rparr>)"

definition allow :: "(rat \<Rightarrow> rat) \<Rightarrow> gotime \<Rightarrow> string \<Rightarrow> rateLimiter \<Rightarrow> rateLimiter \<times> bool" where
  "allow fl now key r =
     (let r = sweepLocked now r; burst = fl (of_int (lim_burst r)) in
      case lim_m r key of
        None \<Rightarrow> (r\<lparr>lim_m := (lim_m r)(key \<mapsto> \<lparr>bk_tokens = fl (burst - 1), bk_last = now\<rparr>)\<rparr>, True)
      | Some b \<Rightarrow>
          let elapsed = now - bk_last b;
              tokens = fl (bk_tokens b + fl (fl (of_int elapsed) / fl (of_int (lim_every r))));
              tokens = (if tokens > burst then burst else tokens)
          in if tokens < 1 then (r\<lparr>lim_m := (lim_m r)(key \<mapsto> \<lparr>bk_tokens = tokens, bk_last = now\<rparr>)\<rparr>, False)
             else (r\<lparr>lim_m := (lim_m r)(key \<mapsto> \<lparr>bk_tokens = fl (tokens - 1), bk_last = now\<rparr>)\<rparr>, True))"

section \<open>Bursts\<close>

text \<open>How often a key is let through among the requests of a list of keys, all at one instant.\<close>

fun let_through :: "(rat \<Rightarrow> rat) \<Rightarrow> gotime \<Rightarrow> string \<Rightarrow> string list \<Rightarrow> rateLimiter \<Rightarrow> nat" where
  "let_through fl now key [] r = 0"
| "let_through fl now key (k # ks) r =
     (case allow fl now k r of (r', ok) \<Rightarrow> (if k = key \<and> ok then 1 else 0) + let_through fl now key ks r')"

text \<open>The rounding of \<open>float64\<close>: monotone, and exact on integers of up to 53 bits.\<close>

definition rounds :: "(rat \<Rightarrow> rat) \<Rightarrow> bool" where
  "rounds fl \<longleftrightarrow> mono fl \<and> (\<forall>n. \<bar>n\<bar> \<le> 2 ^ 53 \<longrightarrow> fl (of_int n) = of_int n)"

lemma rounds_le: "rounds fl \<Longrightarrow> x \<le> of_int n \<Longrightarrow> \<bar>n\<bar> \<le> 2 ^ 53 \<Longrightarrow> fl x \<le> of_int n"
  unfolding rounds_def by (metis monoD)

lemma rounds_zero: "rounds fl \<Longrightarrow> fl 0 = 0"
  unfolding rounds_def by (metis abs_0 of_int_0 zero_le_power zero_le_numeral)

lemma sweepLocked_simps [simp]: "lim_burst (sweepLocked now r) = lim_burst r" "lim_every (sweepLocked now r) = lim_every r"
  by (simp_all add: sweepLocked_def)

lemma sweepLocked_recent:
  assumes "lim_m r key = Some b" "bk_last b = now"
  shows "lim_m (sweepLocked now r) key = Some b"
  using assms by (simp add: sweepLocked_def map_filter_out_def rlIdleTTL_def)

lemma allow_burst [simp]: "lim_burst (fst (allow fl now k r)) = lim_burst r"
  by (simp add: allow_def Let_def split: option.split)

lemma allow_other: "k \<noteq> key \<Longrightarrow> lim_m (fst (allow fl now k r)) key = lim_m (sweepLocked now r) key"
  by (simp add: allow_def Let_def split: option.split)

lemma allow_now:
  assumes fl: "rounds fl" and b: "lim_m r key = Some b" "bk_last b = now" "bk_tokens b \<le> of_int m" and m: "0 \<le> m" "m \<le> lim_burst r" "lim_burst r \<le> 2 ^ 53"
  shows "\<exists>b'. lim_m (fst (allow fl now key r)) key = Some b' \<and> bk_last b' = now \<and>
    bk_tokens b' \<le> of_int (if snd (allow fl now key r) then m - 1 else m) \<and> (snd (allow fl now key r) \<longrightarrow> 1 \<le> m)"
proof -
  have z: "fl 0 = 0" using fl by (rule rounds_zero)
  have burst: "fl (of_int (lim_burst r)) = of_int (lim_burst r)" using fl m by (simp add: rounds_def)
  define t where "t = (if fl (bk_tokens b) > of_int (lim_burst r) then of_int (lim_burst r) else fl (bk_tokens b))"
  have t: "t \<le> of_int m" using rounds_le [OF fl b(3)] m by (auto simp: t_def)
  have a: "allow fl now key r = (if t < 1 then ((sweepLocked now r)\<lparr>lim_m := (lim_m (sweepLocked now r))(key \<mapsto> \<lparr>bk_tokens = t, bk_last = now\<rparr>)\<rparr>, False)
      else ((sweepLocked now r)\<lparr>lim_m := (lim_m (sweepLocked now r))(key \<mapsto> \<lparr>bk_tokens = fl (t - 1), bk_last = now\<rparr>)\<rparr>, True))"
    using sweepLocked_recent [OF b(1,2)] b(2) by (simp add: allow_def Let_def burst z t_def)
  have "fl (t - 1) \<le> of_int (m - 1)" using t m by (intro rounds_le [OF fl]) auto
  moreover have "1 \<le> m" if "\<not> t < 1" using that t by linarith
  ultimately show ?thesis using t by (auto simp: a)
qed

lemma let_through_bounded:
  assumes "rounds fl" "lim_m r key = Some b" "bk_last b = now" "bk_tokens b \<le> of_int m" "0 \<le> m" "m \<le> lim_burst r" "lim_burst r \<le> 2 ^ 53"
  shows "int (let_through fl now key ks r) \<le> m"
  using assms(2-)
proof (induction ks arbitrary: r b m)
  case (Cons k ks)
  obtain r' ok where a: "allow fl now k r = (r', ok)" by force
  have burst: "lim_burst r' = lim_burst r" using allow_burst [of fl now k r] a by simp
  show ?case
  proof (cases "k = key")
    case True
    obtain b' where b': "lim_m r' key = Some b'" "bk_last b' = now" "bk_tokens b' \<le> of_int (if ok then m - 1 else m)" "ok \<longrightarrow> 1 \<le> m"
      using allow_now [OF assms(1) Cons.prems] a True by auto
    then show ?thesis using Cons.IH [OF b'(1,2,3)] Cons.prems a True burst by (auto split: if_splits)
  next
    case False
    then have "lim_m r' key = Some b" using allow_other [OF False, of fl now r] a sweepLocked_recent [OF Cons.prems(1,2)] by simp
    then show ?thesis using Cons.IH [of r' b m] Cons.prems a False burst by simp
  qed
qed simp

definition full_at_most :: "rateLimiter \<Rightarrow> bool" where
  "full_at_most r \<longleftrightarrow> (\<forall>key b. lim_m r key = Some b \<longrightarrow> bk_tokens b \<le> of_int (lim_burst r))"

lemma allow_full:
  assumes "rounds fl" "full_at_most r" "0 \<le> lim_burst r" "lim_burst r \<le> 2 ^ 53"
  shows "full_at_most (fst (allow fl now k r))"
proof -
  have s: "bk_tokens b \<le> of_int (lim_burst r)" if "lim_m (sweepLocked now r) key = Some b" for key b
    using that assms(2) by (auto simp: full_at_most_def sweepLocked_def map_filter_out_def split: if_splits option.splits)
  have burst: "fl (of_int (lim_burst r)) = of_int (lim_burst r)" using assms by (simp add: rounds_def)
  have le: "fl (x - 1) \<le> of_int (lim_burst r)" if "x \<le> of_int (lim_burst r)" for x
    using that assms by (intro rounds_le [OF assms(1)]) auto
  show ?thesis using s le by (auto simp: full_at_most_def allow_def Let_def burst split: option.splits if_splits)
qed

text \<open>
  The first request of a key in a burst finds a bucket that holds at most the capacity, or none.
\<close>

lemma allow_first:
  assumes "rounds fl" "full_at_most r" "1 \<le> lim_burst r" "lim_burst r \<le> 2 ^ 53"
  shows "\<exists>b'. lim_m (fst (allow fl now key r)) key = Some b' \<and> bk_last b' = now \<and>
    bk_tokens b' \<le> of_int (if snd (allow fl now key r) then lim_burst r - 1 else lim_burst r)"
proof -
  have burst: "fl (of_int (lim_burst r)) = of_int (lim_burst r)" using assms by (simp add: rounds_def)
  have le: "fl (x - 1) \<le> of_int (lim_burst r - 1)" if "x \<le> of_int (lim_burst r)" for x
    using that assms by (intro rounds_le [OF assms(1)]) auto
  show ?thesis using le [of "of_int (lim_burst r)"] le by (auto simp: allow_def Let_def burst split: option.splits)
qed

lemma let_through_full:
  assumes "rounds fl" "full_at_most r" "1 \<le> lim_burst r" "lim_burst r \<le> 2 ^ 53"
  shows "int (let_through fl now key ks r) \<le> lim_burst r"
  using assms(2-)
proof (induction ks arbitrary: r)
  case (Cons k ks)
  obtain r' ok where a: "allow fl now k r = (r', ok)" by force
  have burst: "lim_burst r' = lim_burst r" using allow_burst [of fl now k r] a by simp
  show ?case
  proof (cases "k = key")
    case True
    obtain b' where "lim_m r' key = Some b'" "bk_last b' = now" "bk_tokens b' \<le> of_int (if ok then lim_burst r - 1 else lim_burst r)"
      using allow_first [OF assms(1) Cons.prems, of now key] a True by auto
    from let_through_bounded [OF assms(1) this, of ks] show ?thesis using Cons.prems a True burst by (auto split: if_splits)
  next
    case False
    then show ?thesis using Cons.IH [of r'] allow_full [OF assms(1) Cons.prems(1), of now k] Cons.prems a burst by auto
  qed
qed simp

definition after :: "(rat \<Rightarrow> rat) \<Rightarrow> (gotime \<times> string) list \<Rightarrow> rateLimiter \<Rightarrow> rateLimiter" where
  "after fl history r = foldl (\<lambda>r (t, k). fst (allow fl t k r)) r history"

lemma after_full:
  assumes "rounds fl" "full_at_most r" "0 \<le> lim_burst r" "lim_burst r \<le> 2 ^ 53"
  shows "full_at_most (after fl history r) \<and> lim_burst (after fl history r) = lim_burst r"
proof (induction history rule: rev_induct)
  case (snoc h history)
  then show ?case using assms allow_full [OF assms(1)] by (auto simp: after_def split: prod.split)
qed (simp add: after_def assms(2))

text \<open>
  C37: no burst exceeds the capacity. Whatever requests of whatever clients came before, sweeps included, of the
  requests that arrive at one instant at most the configured burst pass under any one key, with the rounding
  of the floating-point token counts taken into account.
\<close>

theorem burst_bounded:
  assumes "rounds fl" "1 \<le> burst" "burst \<le> 2 ^ 53"
  shows "int (let_through fl now key requests (after fl history (newRateLimiter every burst t0))) \<le> burst"
proof -
  have "full_at_most (newRateLimiter every burst t0)" by (simp add: full_at_most_def newRateLimiter_def)
  moreover have b: "lim_burst (newRateLimiter every burst t0) = burst" by (simp add: newRateLimiter_def)
  ultimately have "full_at_most (after fl history (newRateLimiter every burst t0)) \<and> lim_burst (after fl history (newRateLimiter every burst t0)) = burst"
    using after_full [OF assms(1), of "newRateLimiter every burst t0" history] assms(2,3) by simp
  then show ?thesis using let_through_full [OF assms(1), of "after fl history (newRateLimiter every burst t0)" now key requests] assms(2,3) by simp
qed

theorem burst_bounded_witness:
  "let_through id 5 ''a'' [''a'', ''b'', ''a'', ''a''] (after id [(1, ''a'')] (newRateLimiter 10 2 0)) \<le> 2"
proof -
  have "rounds id" by (simp add: rounds_def mono_def)
  from burst_bounded [OF this, of 2 5 "''a''" "[''a'', ''b'', ''a'', ''a'']" "[(1, ''a'')]" 10 0] show ?thesis by simp
qed

end
