(* ===== verification/ServerRoutes.thy ===== *)
theory ServerRoutes
  imports AuthAdapter RateLimiter
begin

text \<open>
  The route table and the security middleware of the server (internal/server/routes.go, server.go): hosts,
  origins, headers, sessions, CSRF, content type and rate limit in their order, for any authenticator.
\<close>

section \<open>internal/server/server.go: hosts, origins and headers\<close>

definition hostAllowed :: "ServerConfig \<Rightarrow> string \<Rightarrow> bool" where
  "hostAllowed cfg host =
     (if host = [] then False
      else if PublicHost cfg \<noteq> [] \<and> host = PublicHost cfg then True
      else host \<in> set (DevHosts cfg))"

definition originAllowed :: "ServerConfig \<Rightarrow> string \<Rightarrow> bool" where
  "originAllowed cfg origin = (if origin = [] then False else list_ex (\<lambda>o'. EqualFold origin o') (AllowedOrigins cfg))"

definition join :: "string \<Rightarrow> string list \<Rightarrow> string" where
  "join sep xs = (case xs of [] \<Rightarrow> [] | y # ys \<Rightarrow> y @ concat (map (\<lambda>x. sep @ x) ys))"

definition ws_source :: "string \<Rightarrow> string list" where
  "ws_source o' =
     (if HasPrefix o' ''https://'' then [''wss://'' @ TrimPrefix o' ''https://'']
      else if HasPrefix o' ''http://'' then [''ws://'' @ TrimPrefix o' ''http://'']
      else [])"

definition apostrophe :: char where "apostrophe = CHR 0x27"

definition quoted :: "string \<Rightarrow> string" where
  "quoted s = apostrophe # s @ [apostrophe]"

definition buildCSP :: "string list \<Rightarrow> string" where
  "buildCSP allowedOrigins =
     (let connect = quoted ''self'' # concat (map ws_source allowedOrigins) in
      join ''; ''
        [''default-src '' @ quoted ''self'',
         ''script-src '' @ quoted ''self'',
         ''style-src '' @ quoted ''self'' @ '' '' @ quoted ''unsafe-inline'',
         ''img-src '' @ quoted ''self'' @ '' data: blob:'',
         ''font-src '' @ quoted ''self'',
         ''connect-src '' @ join '' '' connect,
         ''object-src '' @ quoted ''none'',
         ''base-uri '' @ quoted ''none'',
         ''frame-ancestors '' @ quoted ''none'',
         ''form-action '' @ quoted ''self''])"

definition securityHeaders :: "ServerConfig \<Rightarrow> bool \<Rightarrow> (string \<times> string) list" where
  "securityHeaders cfg api =
     [(''X-Content-Type-Options'', ''nosniff''),
      (''Referrer-Policy'', ''no-referrer''),
      (''X-Frame-Options'', ''DENY''),
      (''Permissions-Policy'', ''geolocation=(), microphone=(), camera=(), usb=()''),
      (''Content-Security-Policy'', buildCSP (AllowedOrigins cfg))] @
     (if api then [(''Cache-Control'', ''no-store'')] else [])"

section \<open>internal/server/errors.go: codes of the middleware\<close>

definition codeUnauthorized :: string where "codeUnauthorized = ''unauthorized''"
definition codeForbidden :: string where "codeForbidden = ''forbidden''"
definition codeUnsupportedMedia :: string where "codeUnsupportedMedia = ''unsupported_media_type''"
definition codeRateLimited :: string where "codeRateLimited = ''rate_limited''"

section \<open>internal/server/routes.go: the route table\<close>

datatype authLevel = authNone | authPair | authSession

datatype handler =
    Health | PairRoute | GetSession | DeleteSession | SnapshotRoute | PaneRead | RunList | RunDetail
  | Directories | Capabilities | Events | Terminal | Confirmations | Mutations

record routeSpec =
  rt_method :: string
  rt_pattern :: string
  rt_auth :: authLevel
  rt_mutating :: bool
  rt_websocket :: bool
  rt_handler :: handler

definition apiPrefix :: string where "apiPrefix = ''/api/v1''"

definition route :: "string \<Rightarrow> string \<Rightarrow> authLevel \<Rightarrow> bool \<Rightarrow> bool \<Rightarrow> handler \<Rightarrow> routeSpec" where
  "route m p a mut ws h = \<lparr>rt_method = m, rt_pattern = p, rt_auth = a, rt_mutating = mut, rt_websocket = ws, rt_handler = h\<rparr>"

definition registerRoutes :: "routeSpec list" where
  "registerRoutes =
     [route ''GET'' ''/health'' authNone False False Health,
      route ''POST'' (apiPrefix @ ''/pair'') authPair True False PairRoute,
      route ''GET'' (apiPrefix @ ''/session'') authSession False False GetSession,
      route ''DELETE'' (apiPrefix @ ''/session'') authSession True False DeleteSession,
      route ''GET'' (apiPrefix @ ''/snapshot'') authSession False False SnapshotRoute,
      route ''GET'' (apiPrefix @ ''/panes/{pane_id}/read'') authSession False False PaneRead,
      route ''GET'' (apiPrefix @ ''/runs'') authSession False False RunList,
      route ''GET'' (apiPrefix @ ''/runs/{pane_id}'') authSession False False RunDetail,
      route ''GET'' (apiPrefix @ ''/directories'') authSession False False Directories,
      route ''GET'' (apiPrefix @ ''/capabilities'') authSession False False Capabilities,
      route ''GET'' (apiPrefix @ ''/events'') authSession False True Events,
      route ''GET'' (apiPrefix @ ''/terminals/{pane_id}'') authSession False True Terminal,
      route ''POST'' (apiPrefix @ ''/confirmations'') authSession True False Confirmations,
      route ''POST'' (apiPrefix @ ''/mutations'') authSession True False Mutations]"

record RouteInfo =
  ri_Method :: string
  ri_Pattern :: string
  ri_RequiresAuth :: bool
  ri_RequiresLogin :: bool
  ri_Mutating :: bool
  ri_WebSocket :: bool

definition Routes :: "RouteInfo list" where
  "Routes = map (\<lambda>rt. \<lparr>ri_Method = rt_method rt, ri_Pattern = rt_pattern rt, ri_RequiresAuth = (rt_auth rt \<noteq> authNone),
     ri_RequiresLogin = (rt_auth rt = authSession), ri_Mutating = rt_mutating rt, ri_WebSocket = rt_websocket rt\<rparr>) registerRoutes"

section \<open>internal/server/routes.go: requests\<close>

text \<open>
  What the middleware reads of a request. A header is empty when it is absent, the cookie is the value of
  the session cookie. \<open>hq_sameOrigin\<close> is the answer of \<open>http.CrossOriginProtection\<close>.
\<close>

record http_request =
  hq_Host :: string
  hq_Origin :: string
  hq_Access :: string
  hq_Cookie :: "string option"
  hq_CSRF :: string
  hq_ContentType :: string
  hq_RemoteAddr :: string
  hq_Probe :: string
  hq_Path :: string
  hq_sameOrigin :: bool
  hq_Body :: "json option"

definition hasJSONContentType :: "http_request \<Rightarrow> bool" where
  "hasJSONContentType r =
     (let ct = hq_ContentType r in
      if ct = [] then False
      else EqualFold (TrimSpace (takeWhile (\<lambda>c. c \<noteq> CHR '';'') ct)) ''application/json'')"

definition before_last :: "char \<Rightarrow> string \<Rightarrow> string" where
  "before_last c s = (if c \<in> set s then take (length s - Suc (length (takeWhile (\<lambda>d. d \<noteq> c) (rev s)))) s else s)"

definition clientIP :: "http_request \<Rightarrow> string" where
  "clientIP r = (let host = before_last CHR '':'' (hq_RemoteAddr r) in if host = [] then ''unknown'' else host)"

section \<open>internal/server/interfaces.go: the authenticator\<close>

text \<open>
  The operations of the interface Authenticator that the middleware calls, at the moment of the request.
  A provisioning that fails or returns no session is \<open>None\<close>.
\<close>

record 'a Authenticator =
  NamedMode :: "'a \<Rightarrow> bool"
  au_VerifyAccess :: "http_request \<Rightarrow> 'a \<Rightarrow> 'a \<times> bool"
  au_EnsureSession :: "http_request \<Rightarrow> 'a \<Rightarrow> 'a \<times> ServerSession option"
  au_Session :: "string \<Rightarrow> 'a \<Rightarrow> 'a \<times> ServerIdentity option"
  au_ValidateCSRF :: "string \<Rightarrow> string \<Rightarrow> 'a \<Rightarrow> 'a \<times> bool"

record 'a relay =
  relay_auth :: 'a
  relay_limiter :: rateLimiter
  relay_audit :: "AuditEntry list"

definition sessionFromRequest :: "'a Authenticator \<Rightarrow> http_request \<Rightarrow> 'a \<Rightarrow> 'a \<times> (string \<times> ServerIdentity) option" where
  "sessionFromRequest ops r a =
     (case hq_Cookie r of
        None \<Rightarrow> (a, None)
      | Some c \<Rightarrow>
          if c = [] then (a, None)
          else (case au_Session ops c a of
             (a, None) \<Rightarrow> (a, None)
           | (a, Some ident) \<Rightarrow> (a, Some (c, ident))))"

text \<open>The cookies are those set on the response.\<close>

definition provisionSession ::
  "'a Authenticator \<Rightarrow> http_request \<Rightarrow> 'a relay \<Rightarrow> 'a relay \<times> Cookie list \<times> (string \<times> ServerIdentity) option" where
  "provisionSession ops r s =
     (case au_EnsureSession ops r (relay_auth s) of
        (a, None) \<Rightarrow> (s\<lparr>relay_auth := a\<rparr>, [], None)
      | (a, Some sess) \<Rightarrow>
          if ck_Value (ss_Cookie sess) = [] then (s\<lparr>relay_auth := a\<rparr>, [], None)
          else (s\<lparr>relay_auth := a, relay_audit := relay_audit s @ [audit_entry ''session.auto'' (ss_Identity sess) [] [] [] []]\<rparr>,
                [ss_Cookie sess], Some (ck_Value (ss_Cookie sess), ss_Identity sess)))"

definition no_identity :: ServerIdentity where
  "no_identity = \<lparr>sv_Subject = [], sv_Display = [], sv_SessionID = [], sv_Quick = False, sv_CSRFToken = [], sv_ExpiresAt = 0\<rparr>"

section \<open>internal/server/routes.go: the middleware\<close>

text \<open>Step 3: the session, with the cookie value, the identity and the key of the rate limiter.\<close>

definition session_step3 ::
  "'a Authenticator \<Rightarrow> routeSpec \<Rightarrow> http_request \<Rightarrow> 'a relay \<Rightarrow> 'a relay \<times> Cookie list \<times> (string \<times> ServerIdentity \<times> string) option" where
  "session_step3 ops rt r s =
     (if rt_auth rt \<noteq> authSession then (s, [], Some ([], no_identity, ''u:'' @ rt_pattern rt @ ''|'' @ clientIP r))
      else case sessionFromRequest ops r (relay_auth s) of
        (a, Some (cv, ident)) \<Rightarrow> (s\<lparr>relay_auth := a\<rparr>, [], Some (cv, ident, ''s:'' @ sv_SessionID ident))
      | (a, None) \<Rightarrow>
          if NamedMode ops a then
            (case provisionSession ops r (s\<lparr>relay_auth := a\<rparr>) of
               (s, cookies, None) \<Rightarrow> (s, cookies, None)
             | (s, cookies, Some (cv, ident)) \<Rightarrow> (s, cookies, Some (cv, ident, ''s:'' @ sv_SessionID ident)))
          else (s\<lparr>relay_auth := a\<rparr>, [], None))"

text \<open>
  The whole chain. \<open>Inl\<close> is the refusal; \<open>Inr\<close> the identity with which the route's handler runs.
  \<open>now\<close> is the clock reading of the limiter, \<open>fl\<close> its rounding.
\<close>

definition wrap ::
  "'a Authenticator \<Rightarrow> ServerConfig \<Rightarrow> (rat \<Rightarrow> rat) \<Rightarrow> gotime \<Rightarrow> routeSpec \<Rightarrow> http_request \<Rightarrow> 'a relay \<Rightarrow>
   'a relay \<times> Cookie list \<times> (answer + ServerIdentity)" where
  "wrap ops cfg fl now rt r s =
     (if \<not> hostAllowed cfg (hq_Host r) then (s, [], Inl (ErrorAnswer 421 codeForbidden ''host not allowed''))
      else
        let (a, access) = (if rt_auth rt \<noteq> authNone then au_VerifyAccess ops r (relay_auth s) else (relay_auth s, True));
            s = s\<lparr>relay_auth := a\<rparr> in
        if \<not> access then (s, [], Inl (ErrorAnswer 401 codeUnauthorized ''access denied''))
        else case session_step3 ops rt r s of
          (s, cookies, None) \<Rightarrow> (s, cookies, Inl (ErrorAnswer 401 codeUnauthorized ''no valid session''))
        | (s, cookies, Some (cookieVal, ident, rateKey)) \<Rightarrow>
            if (rt_websocket rt \<or> rt_mutating rt) \<and> \<not> originAllowed cfg (hq_Origin r)
            then (s, cookies, Inl (ErrorAnswer 403 codeForbidden ''origin not allowed''))
            else if (rt_websocket rt \<or> rt_mutating rt) \<and> \<not> hq_sameOrigin r
            then (s, cookies, Inl (ErrorAnswer 403 codeForbidden ''cross-origin request blocked''))
            else
              let (a, csrf) = (if rt_auth rt = authSession \<and> rt_mutating rt
                               then au_ValidateCSRF ops cookieVal (hq_CSRF r) (relay_auth s) else (relay_auth s, True));
                  s = s\<lparr>relay_auth := a\<rparr> in
              if \<not> csrf then (s, cookies, Inl (ErrorAnswer 403 codeForbidden ''invalid CSRF token''))
              else if rt_mutating rt \<and> rt_method rt = ''POST'' \<and> \<not> hasJSONContentType r
              then (s, cookies, Inl (ErrorAnswer 415 codeUnsupportedMedia ''expected application/json''))
              else
                let (lim, ok) = allow fl now rateKey (relay_limiter s); s = s\<lparr>relay_limiter := lim\<rparr> in
                if \<not> ok then (s, cookies, Inl (ErrorAnswer 429 codeRateLimited ''rate limit exceeded''))
                else (s, cookies, Inr ident))"

definition handleHealth :: "string \<Rightarrow> string \<Rightarrow> http_request \<Rightarrow> string" where
  "handleHealth probeToken instanceID r =
     (if probeToken \<noteq> [] \<and> hq_Probe r \<noteq> [] \<and> ConstantTimeCompare (hq_Probe r) probeToken then instanceID else ''ok'')"

text \<open>Everything that is no route: unknown endpoints and the application shell.\<close>

datatype shell_answer = ShellError int string | ShellNotFound answer | ShellAssets "(string \<times> string) list"

definition spaHandler :: "ServerConfig \<Rightarrow> bool \<Rightarrow> http_request \<Rightarrow> shell_answer" where
  "spaHandler cfg has_assets r =
     (if \<not> hostAllowed cfg (hq_Host r) then ShellError 421 ''host not allowed''
      else if HasPrefix (hq_Path r) (apiPrefix @ ''/'') then ShellNotFound (ErrorAnswer 404 codeNotFound ''unknown endpoint'')
      else if \<not> has_assets then ShellError 503 ''application shell unavailable''
      else ShellAssets (securityHeaders cfg False))"

section \<open>What a route's handler can rely on\<close>

lemma wrap_reaches:
  assumes "wrap ops cfg fl now rt r s = (s', cookies, Inr ident)"
  obtains a1 s3 cv key a2 where
    "hostAllowed cfg (hq_Host r)"
    "(if rt_auth rt \<noteq> authNone then au_VerifyAccess ops r (relay_auth s) else (relay_auth s, True)) = (a1, True)"
    "session_step3 ops rt r (s\<lparr>relay_auth := a1\<rparr>) = (s3, cookies, Some (cv, ident, key))"
    "rt_websocket rt \<or> rt_mutating rt \<Longrightarrow> originAllowed cfg (hq_Origin r) \<and> hq_sameOrigin r"
    "(if rt_auth rt = authSession \<and> rt_mutating rt then au_ValidateCSRF ops cv (hq_CSRF r) (relay_auth s3) else (relay_auth s3, True)) = (a2, True)"
    "rt_mutating rt \<Longrightarrow> rt_method rt = ''POST'' \<Longrightarrow> hasJSONContentType r"
    "snd (allow fl now key (relay_limiter s3))" "relay_auth s' = a2"
  using assms unfolding wrap_def Let_def
  by (auto split: if_splits prod.splits option.splits)

section \<open>Authenticators\<close>

text \<open>
  The contract of an authenticator for one request: an invariant of its state that every call keeps, and
  that an identity it hands out is entitled to act.
\<close>

locale authenticator =
  fixes ops :: "'a Authenticator" and rq :: http_request and auth_ok :: "'a \<Rightarrow> bool" and entitled :: "ServerIdentity \<Rightarrow> bool"
  assumes access_keeps: "auth_ok a \<Longrightarrow> auth_ok (fst (au_VerifyAccess ops rq a))"
    and session_keeps: "auth_ok a \<Longrightarrow> auth_ok (fst (au_Session ops cookie a))"
    and ensure_keeps: "auth_ok a \<Longrightarrow> auth_ok (fst (au_EnsureSession ops rq a))"
    and csrf_keeps: "auth_ok a \<Longrightarrow> auth_ok (fst (au_ValidateCSRF ops cookie token a))"
    and session_entitled: "auth_ok a \<Longrightarrow> snd (au_Session ops cookie a) = Some ident \<Longrightarrow> entitled ident"
    and ensure_entitled: "auth_ok a \<Longrightarrow> snd (au_EnsureSession ops rq a) = Some sess \<Longrightarrow> entitled (ss_Identity sess)"
begin

lemma sessionFromRequest_ok:
  assumes "auth_ok a" "sessionFromRequest ops rq a = (a', x)"
  shows "auth_ok a' \<and> (\<forall>cv ident. x = Some (cv, ident) \<longrightarrow> entitled ident)"
  using assms session_keeps [OF assms(1)] session_entitled [OF assms(1)]
  by (auto simp: sessionFromRequest_def split: option.splits if_splits prod.splits) (metis fst_conv snd_conv)+

lemma provisionSession_ok:
  assumes "auth_ok (relay_auth s)" "provisionSession ops rq s = (s', cookies, x)"
  shows "auth_ok (relay_auth s') \<and> (\<forall>cv ident. x = Some (cv, ident) \<longrightarrow> entitled ident)"
  using assms ensure_keeps [OF assms(1)] ensure_entitled [OF assms(1)]
  by (auto simp: provisionSession_def split: option.splits if_splits prod.splits)

lemma session_step3_ok:
  assumes "auth_ok (relay_auth s)" "session_step3 ops rt rq s = (s', cookies, x)"
  shows "auth_ok (relay_auth s') \<and> (\<forall>cv ident key. rt_auth rt = authSession \<and> x = Some (cv, ident, key) \<longrightarrow> entitled ident)"
proof -
  obtain a y where y: "sessionFromRequest ops rq (relay_auth s) = (a, y)" by force
  obtain s2 ck z where z: "provisionSession ops rq (s\<lparr>relay_auth := a\<rparr>) = (s2, ck, z)" by (metis prod_cases3)
  note ok = sessionFromRequest_ok [OF assms(1) y]
  then have "auth_ok (relay_auth s2) \<and> (\<forall>cv ident. z = Some (cv, ident) \<longrightarrow> entitled ident)"
    using provisionSession_ok [OF _ z] by simp
  then show ?thesis using assms ok y z
    by (auto simp: session_step3_def split: option.splits if_splits prod.splits)
qed

lemma wrap_entitled:
  assumes "auth_ok (relay_auth s)" "wrap ops cfg fl now rt rq s = (s', cookies, Inr ident)" "rt_auth rt = authSession"
  shows "entitled ident"
  using assms(2)
proof (rule wrap_reaches)
  fix a1 s3 cv key a2
  assume *: "(if rt_auth rt \<noteq> authNone then au_VerifyAccess ops rq (relay_auth s) else (relay_auth s, True)) = (a1, True)"
    "session_step3 ops rt rq (s\<lparr>relay_auth := a1\<rparr>) = (s3, cookies, Some (cv, ident, key))"
  then have "auth_ok a1" using access_keeps [OF assms(1)] assms(3) by (metis authLevel.distinct(3) fst_conv)
  then show ?thesis using session_step3_ok [OF _ *(2)] assms(3) by simp
qed

end

end
