(* ===== verification/AuthSystem.thy ===== *)
theory AuthSystem
  imports AuthAdapter
begin

text \<open>
  The authenticator with its verifier and key cache under any sequence of requests: every session stands
  for a genuine credential.
\<close>

section \<open>The verifier behind the adapter\<close>

text \<open>One request's view of the clock and of the key endpoint.\<close>

record access_env =
  env_now :: gotime
  env_get :: endpoint
  env_times :: key_times

definition verify_at ::
  "(string \<Rightarrow> json option) \<Rightarrow> (PublicKey \<Rightarrow> string \<Rightarrow> string \<Rightarrow> bool) \<Rightarrow> Verifier \<Rightarrow> access_env \<Rightarrow> JWKSCache verify" where
  "verify_at parse rsa_ok v env = VerifyToken parse rsa_ok (CachePublicKey parse (env_get env) (env_times env)) v (env_now env)"

text \<open>
  A genuine token: signed under an RSA key of at least 2048 bits, with claims that passed every check at
  the time of the request.
\<close>

definition genuine_token ::
  "(string \<Rightarrow> json option) \<Rightarrow> (PublicKey \<Rightarrow> string \<Rightarrow> string \<Rightarrow> bool) \<Rightarrow> Verifier \<Rightarrow> access_env \<Rightarrow> string \<Rightarrow> Claims \<Rightarrow> bool" where
  "genuine_token parse rsa_ok v env token c \<longleftrightarrow>
     (\<exists>header payload signature sig pub. token = header @ ''.'' @ payload @ ''.'' @ signature \<and>
        decode_segment parse decode_claims payload = Some c \<and> DecodeString signature = Some sig \<and> strong_key pub \<and>
        rsa_ok pub (header @ ''.'' @ payload) sig \<and> check_claims v (env_now env) c = Inr c)"

interpretation access: token_verifier "verify_at parse rsa_ok v env" cache_ok "genuine_token parse rsa_ok v env"
  for parse rsa_ok v env
proof
  fix ks token c assume ok: "cache_ok ks"
  show "cache_ok (fst (verify_at parse rsa_ok v env token ks))"
    unfolding verify_at_def by (rule jwks.verify_keeps [OF ok])
  assume "snd (verify_at parse rsa_ok v env token ks) = Inr c"
  then obtain ks' where "VerifyToken parse rsa_ok (CachePublicKey parse (env_get env) (env_times env)) v (env_now env) token ks = (ks', Inr c)"
    unfolding verify_at_def by (metis prod.collapse)
  from jwks.verified_under_trusted [OF ok this] show "genuine_token parse rsa_ok v env token c"
    unfolding genuine_token_def by blast
qed

section \<open>Any sequence of requests\<close>

datatype auth_op =
    OpAccess access_env string
  | OpPair access_env entropy tokens gotime string string
  | OpEnsure access_env tokens gotime gotime string
  | OpSession gotime string
  | OpRevoke string
  | OpCSRF gotime string string
  | OpRotatePairing entropy string
  | OpSweep gotime

definition auth_step ::
  "(string \<Rightarrow> json option) \<Rightarrow> (PublicKey \<Rightarrow> string \<Rightarrow> string \<Rightarrow> bool) \<Rightarrow> Verifier \<Rightarrow> JWKSCache authAdapter \<Rightarrow> auth_op \<Rightarrow> JWKSCache authAdapter" where
  "auth_step parse rsa_ok v a op =
     (case op of
        OpAccess env header \<Rightarrow> fst (VerifyAccess (verify_at parse rsa_ok v env) header a)
      | OpPair env r r' now header secret \<Rightarrow> fst (Pair (verify_at parse rsa_ok v env) r r' now header secret a)
      | OpEnsure env r now now' header \<Rightarrow> fst (EnsureSession (verify_at parse rsa_ok v env) r now now' header a)
      | OpSession now cookie \<Rightarrow> fst (SessionOf now cookie a)
      | OpRevoke cookie \<Rightarrow> Revoke cookie a
      | OpCSRF now cookie token \<Rightarrow> fst (ValidateCSRF now cookie token a)
      | OpRotatePairing r base \<Rightarrow> fst (RotatePairing r base a)
      | OpSweep now \<Rightarrow> a\<lparr>aa_sessions := fst (GC now (aa_sessions a))\<rparr>)"

definition auth_run ::
  "(string \<Rightarrow> json option) \<Rightarrow> (PublicKey \<Rightarrow> string \<Rightarrow> string \<Rightarrow> bool) \<Rightarrow> Verifier \<Rightarrow> auth_op list \<Rightarrow> JWKSCache authAdapter \<Rightarrow> JWKSCache authAdapter" where
  "auth_run parse rsa_ok v ops a = foldl (auth_step parse rsa_ok v) a ops"

fun presented :: "auth_op \<Rightarrow> (access_env \<times> string) set" where
  "presented (OpPair env r r' now header secret) = {(env, header)}"
| "presented (OpEnsure env r now now' header) = {(env, header)}"
| "presented _ = {}"

definition presented_genuine ::
  "(string \<Rightarrow> json option) \<Rightarrow> (PublicKey \<Rightarrow> string \<Rightarrow> string \<Rightarrow> bool) \<Rightarrow> Verifier \<Rightarrow> auth_op list \<Rightarrow> Claims \<Rightarrow> bool" where
  "presented_genuine parse rsa_ok v ops c \<longleftrightarrow> (\<exists>op\<in>set ops. \<exists>(env, token)\<in>presented op. genuine_token parse rsa_ok v env token c)"

lemma auth_step_ok:
  assumes "adapter_ok cache_ok g a" "\<And>env token c. (env, token) \<in> presented op \<Longrightarrow> genuine_token parse rsa_ok v env token c \<Longrightarrow> g c"
  shows "adapter_ok cache_ok g (auth_step parse rsa_ok v a op)"
proof (cases op)
  case (OpPair env r r' now header secret)
  then show ?thesis using assms access.Pair_ok [OF assms(1), where env = env and header = header] by (simp add: auth_step_def)
next
  case (OpEnsure env r now now' header)
  then show ?thesis using assms access.EnsureSession_ok [OF assms(1), where env = env and header = header] by (simp add: auth_step_def)
next
  case (OpSweep now)
  then show ?thesis using assms(1) by (simp add: auth_step_def adapter_ok_def GC_def all_sessions_live)
qed (use assms(1) in \<open>simp_all add: auth_step_def access.VerifyAccess_ok SessionOf_ok ValidateCSRF_ok Revoke_ok RotatePairing_ok\<close>)

lemma auth_step_named [simp]: "aa_named (auth_step parse rsa_ok v a op) = aa_named a"
  by (cases op)
    (auto simp: auth_step_def VerifyAccess_def Pair_def EnsureSession_def SessionOf_def Revoke_def ValidateCSRF_def RotatePairing_def
      verifyToken_def exchange_secret_def Let_def split: prod.split option.split sum.split)

lemma auth_run_ok:
  assumes "adapter_ok cache_ok (\<lambda>c. False) a"
  shows "adapter_ok cache_ok (presented_genuine parse rsa_ok v ops) (auth_run parse rsa_ok v ops a) \<and>
    aa_named (auth_run parse rsa_ok v ops a) = aa_named a"
proof (induction ops rule: rev_induct)
  case Nil
  then show ?case using adapter_ok_mono [OF assms] by (simp add: auth_run_def)
next
  case (snoc op ops)
  have "adapter_ok cache_ok (presented_genuine parse rsa_ok v (ops @ [op])) (auth_run parse rsa_ok v ops a)"
    using snoc by (elim conjE adapter_ok_mono) (auto simp: presented_genuine_def)
  then have "adapter_ok cache_ok (presented_genuine parse rsa_ok v (ops @ [op])) (auth_step parse rsa_ok v (auth_run parse rsa_ok v ops a) op)"
    by (rule auth_step_ok) (auto simp: presented_genuine_def)
  then show ?case using snoc by (simp add: auth_run_def)
qed

lemma session_covered:
  assumes "NewJWKSCache team opts = Some j0" "set opts \<subseteq> cache_options"
    "a = auth_run parse rsa_ok v ops \<lparr>aa_named = named, aa_pairing = p, aa_sessions = NewSessionStore t i, aa_keys = j0\<rparr>"
    "(sid, sess) \<in> set (sessions (aa_sessions a))"
  shows "covered named (presented_genuine parse rsa_ok v ops) sess"
proof -
  have "adapter_ok cache_ok (\<lambda>c. False) \<lparr>aa_named = named, aa_pairing = p, aa_sessions = NewSessionStore t i, aa_keys = j0\<rparr>"
    using NewJWKSCache_empty [OF assms(1,2)] by (simp add: adapter_ok_def cache_ok_def all_sessions_def NewSessionStore_def)
  from auth_run_ok [OF this, of parse rsa_ok v ops] show ?thesis using assms(3,4) by (auto simp: adapter_ok_def all_sessions_def)
qed

text \<open>
  C13: every session stands for a credential. After any sequence of requests, from any clients, in named mode
  every stored session carries the identity of an Access token that was presented in one of them and was
  genuine at that moment, signed under a key of at least 2048 bits, and expires no later than that token; in
  quick mode every session is the quick-tunnel operator's.
\<close>

theorem sessions_genuine:
  assumes "NewJWKSCache team opts = Some j0" "set opts \<subseteq> cache_options"
    "a = auth_run parse rsa_ok v ops \<lparr>aa_named = named, aa_pairing = p, aa_sessions = NewSessionStore t i, aa_keys = j0\<rparr>"
    "(sid, sess) \<in> set (sessions (aa_sessions a))"
  shows "if named
    then \<exists>op\<in>set ops. \<exists>(env, token)\<in>presented op. \<exists>c. genuine_token parse rsa_ok v env token c \<and> s_Identity sess = claims_identity c \<and>
      (0 < cl_ExpiresAt c \<longrightarrow> s_ExpiresAt sess \<le> cl_ExpiresAt c * 1000000000)
    else s_Identity sess = quick_identity"
  using session_covered [OF assms] by (auto simp: covered_def presented_genuine_def split: if_splits)

section \<open>A provisioned session\<close>

definition example_env :: access_env where
  "example_env = \<lparr>env_now = 50000000000, env_get = example_endpoint, env_times = \<lparr>kt_start = 1, kt_attempt = 2, kt_fetched = 3, kt_end = 4\<rparr>\<rparr>"

definition example_ensure :: auth_op where
  "example_ensure = OpEnsure example_env (Some ''sid'', Some ''csrf'', Some ''audit'') 50000000000 50000000000 ''aA.cA.cw''"

lemma example_access:
  assumes "NewJWKSCache ''https://team/'' [] = Some j0"
  shows "\<exists>j. verify_at example_parse (\<lambda>pub input sig. sig = ''s'') example_verifier example_env ''aA.cA.cw'' j0 = (j, Inr example_claims)"
proof -
  have d: "NormalizeTeamDomain ''https://team/'' = ''team''" by code_simp
  obtain pub where pub: "fetched_keys example_parse defaultJWKSMaxBody (example_endpoint ''https://team/cdn-cgi/access/certs'') = [(''k1'', pub)]"
    using example_fetched by blast
  have j0: "jc_url j0 = ''https://team/cdn-cgi/access/certs''" "jc_maxBody j0 = defaultJWKSMaxBody" "jc_keys j0 = Map.empty" "\<not> jc_loaded j0"
    using assms by (auto simp: NewJWKSCache_def d CertsURLForTeam_def IssuerForTeam_def)
  have k: "\<exists>j. CachePublicKey example_parse example_endpoint (env_times example_env) ''k1'' j0 = (j, Inr (Some pub))"
    using pub by (simp add: CachePublicKey_def cached_key_def refresh_def key_after_refresh_def Let_def j0)
  have "check_claims example_verifier 50000000000 example_claims = Inr example_claims"
    by (simp add: check_claims_def example_verifier_def example_claims_def DefaultClockSkew_def Unix_def int64_def containsExact_def ClaimsIdentity_def)
  then show ?thesis using k
    by (auto simp: verify_at_def VerifyToken_def verify_segments_def example_segments verify_signed_def example_env_def)
qed

theorem sessions_genuine_witness:
  "\<exists>j0 sid sess. NewJWKSCache ''https://team/'' [] = Some j0 \<and>
     (sid, sess) \<in> set (sessions (aa_sessions (auth_run example_parse (\<lambda>pub input sig. sig = ''s'') example_verifier [example_ensure]
       \<lparr>aa_named = True, aa_pairing = \<lparr>pr_secret = ''x'', pr_invalidated = False\<rparr>, aa_sessions = NewSessionStore 1000000000000 0, aa_keys = j0\<rparr>))) \<and>
     (\<exists>c. genuine_token example_parse (\<lambda>pub input sig. sig = ''s'') example_verifier example_env ''aA.cA.cw'' c \<and>
        s_Identity sess = claims_identity c)"
proof -
  have "NormalizeTeamDomain ''https://team/'' \<noteq> []" by code_simp
  then obtain j0 where j0: "NewJWKSCache ''https://team/'' [] = Some j0" by (simp add: NewJWKSCache_def)
  let ?a = "auth_run example_parse (\<lambda>pub input sig. sig = ''s'') example_verifier [example_ensure]
       \<lparr>aa_named = True, aa_pairing = \<lparr>pr_secret = ''x'', pr_invalidated = False\<rparr>, aa_sessions = NewSessionStore 1000000000000 0, aa_keys = j0\<rparr>"
  have "sessions (aa_sessions ?a) \<noteq> []"
    using example_access [OF j0]
    by (auto simp: auth_run_def auth_step_def example_ensure_def EnsureSession_def verifyToken_def claims_identity_def example_claims_def
        IdentitySubject_def GetByIdentity_def live_sessions_def NewSessionStore_def Create_def randomToken_def Let_def)
  then obtain sid sess where "(sid, sess) \<in> set (sessions (aa_sessions ?a))" by (cases "sessions (aa_sessions ?a)") auto
  with sessions_genuine [OF j0 _ refl this] j0 show ?thesis by (fastforce simp: example_ensure_def)
qed

end
