(* ===== verification/ServerSystem.thy ===== *)
theory ServerSystem
  imports ServerRoutes MutationGuards AuthSystem
begin

text \<open>
  The server put together: the authenticator of the integration package behind the middleware, and the
  mutation handler behind both. What a call to Herdr implies about the request that caused it.
\<close>

section \<open>The adapter as the server's authenticator\<close>

text \<open>The clock readings, entropy draws and key endpoint of one request, in the order the middleware uses them.\<close>

record auth_moments =
  am_access :: access_env
  am_session :: gotime
  am_ensure :: access_env
  am_lookup :: gotime
  am_create :: gotime
  am_tokens :: tokens
  am_csrf :: gotime

definition adapter_ops ::
  "(string \<Rightarrow> json option) \<Rightarrow> (PublicKey \<Rightarrow> string \<Rightarrow> string \<Rightarrow> bool) \<Rightarrow> Verifier \<Rightarrow> auth_moments \<Rightarrow> JWKSCache authAdapter Authenticator" where
  "adapter_ops parse rsa_ok v m =
     \<lparr>NamedMode = aa_named,
      au_VerifyAccess = (\<lambda>rq a. case VerifyAccess (verify_at parse rsa_ok v (am_access m)) (hq_Access rq) a of (a, e) \<Rightarrow> (a, e = None)),
      au_EnsureSession = (\<lambda>rq a. case EnsureSession (verify_at parse rsa_ok v (am_ensure m)) (am_tokens m) (am_lookup m) (am_create m) (hq_Access rq) a of
         (a, Inl e) \<Rightarrow> (a, None) | (a, Inr sess) \<Rightarrow> (a, sess)),
      au_Session = SessionOf (am_session m),
      au_ValidateCSRF = ValidateCSRF (am_csrf m)\<rparr>"

text \<open>
  An identity is entitled when it names a genuine token's operator and ends with the token, or the
  quick-tunnel operator.
\<close>

definition entitled :: "bool \<Rightarrow> (Claims \<Rightarrow> bool) \<Rightarrow> ServerIdentity \<Rightarrow> bool" where
  "entitled named genuine ident \<longleftrightarrow>
     (if named then \<exists>c. genuine c \<and> sv_Subject ident = ClaimsIdentity c \<and> \<not> sv_Quick ident \<and>
        (0 < cl_ExpiresAt c \<longrightarrow> sv_ExpiresAt ident \<le> cl_ExpiresAt c * 1000000000)
      else sv_Quick ident)"

lemma covered_entitled:
  "covered named g sess \<Longrightarrow> entitled named g (toServerIdentity (s_AuditID sess) (s_CSRFToken sess) (s_ExpiresAt sess) (s_Identity sess))"
proof (cases named)
  case True
  assume "covered named g sess"
  then obtain c where c: "g c" "s_Identity sess = claims_identity c" "0 < cl_ExpiresAt c \<longrightarrow> s_ExpiresAt sess \<le> cl_ExpiresAt c * 1000000000"
    using True by (auto simp: covered_def)
  let ?i = "toServerIdentity (s_AuditID sess) (s_CSRFToken sess) (s_ExpiresAt sess) (s_Identity sess)"
  have "sv_Subject ?i = ClaimsIdentity c" "\<not> sv_Quick ?i" "sv_ExpiresAt ?i = s_ExpiresAt sess"
    by (simp_all add: c(2) toServerIdentity_def claims_identity_def ClaimsIdentity_def)
  then show ?thesis using True c by (auto simp: entitled_def)
qed (simp add: covered_def entitled_def toServerIdentity_def quick_identity_def Let_def)

lemma update_member: "(k, v) \<in> set (AList.update k v xs)"
  by (induction xs) auto

lemma Get_member: "Get now i st = (st', Some sess) \<Longrightarrow> (i, sess) \<in> set (sessions st')"
  by (cases rule: Get_cases [of now i st]) (auto simp: update_member)

lemma GetByIdentity_member:
  "GetByIdentity now i st = (st', Some sess) \<Longrightarrow> \<exists>sid. (sid, sess) \<in> set (sessions st')"
  by (auto simp: GetByIdentity_def Let_def split: option.splits if_splits) (blast intro: update_member)

lemma Create_member: "Create r now i hard st = (st', Some sess) \<Longrightarrow> \<exists>sid. (sid, sess) \<in> set (sessions st')"
  by (cases rule: Create_cases [of r now i hard st]) (auto, blast intro: update_member)

lemma covered_member: "adapter_ok k g a \<Longrightarrow> (sid, sess) \<in> set (sessions (aa_sessions a)) \<Longrightarrow> covered (aa_named a) g sess"
  by (auto simp: adapter_ok_def all_sessions_def)

lemma SessionOf_stored:
  assumes "SessionOf now cookie a = (a', Some ident)"
  shows "\<exists>sid sess. (sid, sess) \<in> set (sessions (aa_sessions a')) \<and> aa_named a' = aa_named a \<and>
    ident = toServerIdentity (s_AuditID sess) (s_CSRFToken sess) (s_ExpiresAt sess) (s_Identity sess)"
  using assms Get_member [of now cookie "aa_sessions a"]
  by (auto simp: SessionOf_def split: prod.splits option.splits) blast

lemma EnsureSession_stored:
  assumes "EnsureSession verify r now now' header a = (a', Inr (Some s))"
  shows "\<exists>sid sess. (sid, sess) \<in> set (sessions (aa_sessions a')) \<and> aa_named a' = aa_named a \<and>
    ss_Identity s = toServerIdentity (s_AuditID sess) (s_CSRFToken sess) (s_ExpiresAt sess) (s_Identity sess)"
proof -
  have "\<exists>sess sid. s = granted sess (s_Identity sess) \<and> (sid, sess) \<in> set (sessions (aa_sessions a')) \<and> aa_named a' = aa_named a"
    using assms
    by (auto simp: EnsureSession_def verifyToken_def Let_def split: if_splits prod.splits sum.splits option.splits)
      (blast dest: GetByIdentity_member Create_member)+
  then show ?thesis by (auto simp: granted_def) blast+
qed

definition with_request ::
  "(string \<Rightarrow> json option) \<Rightarrow> (PublicKey \<Rightarrow> string \<Rightarrow> string \<Rightarrow> bool) \<Rightarrow> Verifier \<Rightarrow> auth_moments \<Rightarrow> http_request \<Rightarrow> (Claims \<Rightarrow> bool) \<Rightarrow> Claims \<Rightarrow> bool" where
  "with_request parse rsa_ok v m rq g c \<longleftrightarrow> g c \<or> genuine_token parse rsa_ok v (am_ensure m) (hq_Access rq) c"

lemma VerifyAccess_named [simp]: "aa_named (fst (VerifyAccess verify h a)) = aa_named a"
  by (auto simp: VerifyAccess_def verifyToken_def split: prod.split sum.split)

lemma EnsureSession_named [simp]: "aa_named (fst (EnsureSession verify r now now' h a)) = aa_named a"
  by (auto simp: EnsureSession_def verifyToken_def Let_def split: prod.split sum.split option.split)

lemma SessionOf_named [simp]: "aa_named (fst (SessionOf now c a)) = aa_named a"
  by (auto simp: SessionOf_def split: prod.split option.split)

lemma ValidateCSRF_named [simp]: "aa_named (fst (ValidateCSRF now c t a)) = aa_named a"
  by (auto simp: ValidateCSRF_def split: prod.split option.split)

interpretation adapter: authenticator "adapter_ops parse rsa_ok v m" rq
  "\<lambda>a. adapter_ok cache_ok (with_request parse rsa_ok v m rq g) a \<and> aa_named a = named" "entitled named (with_request parse rsa_ok v m rq g)"
  for parse rsa_ok v m rq g named
proof
  fix a :: "JWKSCache authAdapter" and cookie token ident sess
  let ?g = "with_request parse rsa_ok v m rq g"
  assume ok: "adapter_ok cache_ok ?g a \<and> aa_named a = named"
  let ?ops = "adapter_ops parse rsa_ok v m"
  show "adapter_ok cache_ok ?g (fst (au_VerifyAccess ?ops rq a)) \<and> aa_named (fst (au_VerifyAccess ?ops rq a)) = named"
    using access.VerifyAccess_ok [of ?g a] ok by (simp add: adapter_ops_def split_beta)
  show s: "adapter_ok cache_ok ?g (fst (au_Session ?ops cookie a)) \<and> aa_named (fst (au_Session ?ops cookie a)) = named"
    using SessionOf_ok [of cache_ok ?g a] ok by (simp add: adapter_ops_def)
  show "adapter_ok cache_ok ?g (fst (au_ValidateCSRF ?ops cookie token a)) \<and> aa_named (fst (au_ValidateCSRF ?ops cookie token a)) = named"
    using ValidateCSRF_ok [of cache_ok ?g a] ok by (simp add: adapter_ops_def)
  obtain a' x where e: "EnsureSession (verify_at parse rsa_ok v (am_ensure m)) (am_tokens m) (am_lookup m) (am_create m) (hq_Access rq) a = (a', x)"
    by force
  have "adapter_ok cache_ok ?g a' \<and> aa_named a' = named"
    using access.EnsureSession_ok [of ?g a parse rsa_ok v "am_ensure m" "hq_Access rq" "am_tokens m" "am_lookup m" "am_create m"] ok e
      EnsureSession_named [of "verify_at parse rsa_ok v (am_ensure m)" "am_tokens m" "am_lookup m" "am_create m" "hq_Access rq" a]
    by (simp add: with_request_def)
  moreover have eq: "au_EnsureSession ?ops rq a = (a', case x of Inl e \<Rightarrow> None | Inr s \<Rightarrow> s)"
    using e by (simp add: adapter_ops_def split: sum.split)
  ultimately show en: "adapter_ok cache_ok ?g (fst (au_EnsureSession ?ops rq a)) \<and> aa_named (fst (au_EnsureSession ?ops rq a)) = named" by simp
  show "entitled named ?g ident" if "snd (au_Session ?ops cookie a) = Some ident"
  proof -
    have "SessionOf (am_session m) cookie a = (fst (au_Session ?ops cookie a), Some ident)" using that by (simp add: adapter_ops_def prod_eq_iff)
    from SessionOf_stored [OF this] obtain sid sess where
      "(sid, sess) \<in> set (sessions (aa_sessions (fst (au_Session ?ops cookie a))))"
      "ident = toServerIdentity (s_AuditID sess) (s_CSRFToken sess) (s_ExpiresAt sess) (s_Identity sess)" by blast
    then show ?thesis using covered_entitled [OF covered_member [OF conjunct1 [OF s]]] s by auto
  qed
  show "entitled named ?g (ss_Identity sess)" if "snd (au_EnsureSession ?ops rq a) = Some sess"
  proof -
    have x: "x = Inr (Some sess)" "fst (au_EnsureSession ?ops rq a) = a'" using that eq by (auto split: sum.splits)
    from EnsureSession_stored [OF e [unfolded x]] obtain sid st where
      "(sid, st) \<in> set (sessions (aa_sessions a'))"
      "ss_Identity sess = toServerIdentity (s_AuditID st) (s_CSRFToken st) (s_ExpiresAt st) (s_Identity st)" by blast
    then show ?thesis using covered_entitled [OF covered_member [OF conjunct1 [OF en]]] en x(2) by auto
  qed
qed

section \<open>A mutation through the whole server\<close>

definition mutations_route :: routeSpec where
  "mutations_route = route ''POST'' (apiPrefix @ ''/mutations'') authSession True False Mutations"

lemma mutations_route_registered: "mutations_route \<in> set registerRoutes"
  by (simp add: mutations_route_def registerRoutes_def)

definition serve_mutation ::
  "'a Authenticator \<Rightarrow> ServerConfig \<Rightarrow> (rat \<Rightarrow> rat) \<Rightarrow> gotime \<Rightarrow> floats \<Rightarrow> (string \<Rightarrow> string) \<Rightarrow> (string \<Rightarrow> 64 word option) \<Rightarrow>
   (string \<Rightarrow> json option \<Rightarrow> string + json) \<Rightarrow> moments \<Rightarrow> http_request \<Rightarrow> 'a relay \<times> mutation_state \<Rightarrow>
   ('a relay \<times> mutation_state) \<times> answer \<times> (string \<times> json option) list" where
  "serve_mutation ops cfg fl now fnum hexsha gen mutate t r sys =
     (case wrap ops cfg fl now mutations_route r (fst sys) of
        (s, cookies, Inl a) \<Rightarrow> ((s, snd sys), a, [])
      | (s, cookies, Inr ident) \<Rightarrow>
          (case handleMutations fnum hexsha cfg gen mutate t ident (hq_Body r) (snd sys) of
             (st, a, calls) \<Rightarrow> ((s, st), a, calls)))"

lemma ValidateCSRF_token: "snd (ValidateCSRF now cookie token a) \<Longrightarrow> token \<noteq> []"
  by (auto simp: ValidateCSRF_def ValidCSRF_def split: prod.splits option.splits if_splits)

lemma VerifyAccess_genuine:
  assumes "cache_ok (aa_keys a)" "aa_named a" "snd (VerifyAccess (verify_at parse rsa_ok v env) header a) = None"
  shows "\<exists>c. genuine_token parse rsa_ok v env header c"
  using assms(1)
proof (cases rule: access.verifyToken_cases [of a parse rsa_ok v env header])
  case (1 e ks)
  then show ?thesis using assms(2,3) by (simp add: VerifyAccess_def)
qed blast

lemma handleMutations_only_permitted:
  assumes "handleMutations fnum hexsha cfg gen mutate t ident body st = (st', a, calls)" "calls \<noteq> []"
  obtains req where "decode_mutation body = Some req" "permitted fnum hexsha cfg gen t ident req st" "calls = [(mq_Operation req, mq_Params req)]"
proof (cases "decode_mutation body")
  case None
  then show thesis using assms by (simp add: handleMutations_def)
next
  case (Some req)
  have c: "calls = snd (snd (handleMutations fnum hexsha cfg gen mutate t ident body st))" using assms(1) by simp
  have "permitted fnum hexsha cfg gen t ident req st \<and> calls = [(mq_Operation req, mq_Params req)]"
    using assms(2) unfolding c handleMutations_calls [OF Some] permitted_iff by (auto split: prod.splits sum.splits if_splits)
  then show thesis using that [OF Some] by blast
qed


section \<open>A served mutation\<close>

definition example_pair :: auth_op where
  "example_pair = OpPair example_env (Some ''new'') (Some ''sid'', Some ''csrf'', Some ''audit'') 100 [] ''eA''"

definition example_http :: http_request where
  "example_http = \<lparr>hq_Host = ''phone.example'', hq_Origin = ''https://phone.example'', hq_Access = [], hq_Cookie = Some (EncodeToString ''sid''),
     hq_CSRF = EncodeToString ''csrf'', hq_ContentType = ''application/json'', hq_RemoteAddr = ''127.0.0.1:5'', hq_Probe = [],
     hq_Path = ''/api/v1/mutations'', hq_sameOrigin = True, hq_Body = Some create_body\<rparr>"

definition example_auth_moments :: auth_moments where
  "example_auth_moments = \<lparr>am_access = example_env, am_session = 101, am_ensure = example_env, am_lookup = 101, am_create = 101,
     am_tokens = (None, None, None), am_csrf = 102\<rparr>"

definition quick_adapter :: "JWKSCache \<Rightarrow> JWKSCache authAdapter" where
  "quick_adapter j0 = \<lparr>aa_named = False, aa_pairing = \<lparr>pr_secret = ''x'', pr_invalidated = False\<rparr>, aa_sessions = NewSessionStore 1000 0, aa_keys = j0\<rparr>"

lemma example_paired:
  "\<exists>sess. sessions (aa_sessions (auth_run parse rsa_ok v [example_pair] (quick_adapter j0))) = [(EncodeToString ''sid'', sess)] \<and>
     s_CSRFToken sess = EncodeToString ''csrf'' \<and> s_ExpiresAt sess = 1100 \<and>
     idle (aa_sessions (auth_run parse rsa_ok v [example_pair] (quick_adapter j0))) = 0 \<and>
     \<not> aa_named (auth_run parse rsa_ok v [example_pair] (quick_adapter j0))"
proof -
  have "DecodeString (TrimSpace ''eA'') = Some ''x''" by code_simp
  then show ?thesis
    by (simp add: auth_run_def auth_step_def example_pair_def quick_adapter_def Pair_def exchange_secret_def Verify_def ConstantTimeCompare_def
        rotateLocked_def Create_def randomToken_def NewSessionStore_def IsZero_def Let_def)
qed


end
