(* ===== verification/ServerPairing.thy ===== *)
theory ServerPairing
  imports ServerRoutes
begin

text \<open>
  The pairing and session endpoints of the server (internal/server/pairing.go) over the authenticator of the
  integration package.
\<close>

section \<open>internal/server/pairing.go\<close>

record sessionResponse =
  sr_CSRFToken :: string
  sr_ExpiresUnixMs :: int
  sr_Subject :: string
  sr_Display :: string
  sr_Quick :: bool
  sr_Mode :: string
  sr_WorkspaceRoots :: "string list"

definition mode :: "bool \<Rightarrow> string" where
  "mode named = (if named then ''named'' else ''quick'')"

definition session_body :: "ServerConfig \<Rightarrow> bool \<Rightarrow> string \<Rightarrow> int \<Rightarrow> ServerIdentity \<Rightarrow> sessionResponse" where
  "session_body cfg named csrf expires ident =
     \<lparr>sr_CSRFToken = csrf, sr_ExpiresUnixMs = expires, sr_Subject = sv_Subject ident, sr_Display = sv_Display ident,
      sr_Quick = sv_Quick ident, sr_Mode = mode named, sr_WorkspaceRoots = WorkspaceRoots cfg\<rparr>"

definition decode_pair :: "json option \<Rightarrow> string option" where
  "decode_pair body = Option.bind (decodeJSON [''secret''] body) (\<lambda>p. get_string p ''secret'')"

text \<open>\<open>pair\<close> is the pairing operation of the authenticator at the moment of the request. The cookies are those set on the response.\<close>

definition handlePair ::
  "(http_request \<Rightarrow> string \<Rightarrow> 'a \<Rightarrow> 'a \<times> (adapter_error + ServerSession)) \<Rightarrow> ('a \<Rightarrow> bool) \<Rightarrow> ServerConfig \<Rightarrow> http_request \<Rightarrow> 'a relay \<Rightarrow>
   'a relay \<times> Cookie list \<times> (answer + sessionResponse)" where
  "handlePair pair named cfg r s =
     (case decode_pair (hq_Body r) of
        None \<Rightarrow> (s, [], Inl (ErrorAnswer 400 codeBadRequest ''invalid request body''))
      | Some secret \<Rightarrow>
          if secret = [] then (s, [], Inl (ErrorAnswer 400 codeBadRequest ''missing pairing secret''))
          else (case pair r secret (relay_auth s) of
             (a, Inl e) \<Rightarrow>
               let s = s\<lparr>relay_auth := a\<rparr> in
               if e = ErrPairing
               then (s\<lparr>relay_audit := relay_audit s @ [audit_entry ''pair.reject'' no_identity [] [] [] ''invalid'']\<rparr>, [],
                     Inl (ErrorAnswer 401 codeUnauthorized ''pairing rejected''))
               else (s, [], Inl (ErrorAnswer 503 codeUnavailable ''pairing unavailable''))
           | (a, Inr sess) \<Rightarrow>
               (s\<lparr>relay_auth := a, relay_audit := relay_audit s @ [audit_entry ''pair.success'' (ss_Identity sess) [] [] [] []]\<rparr>,
                [ss_Cookie sess],
                Inr (session_body cfg (named a) (ss_CSRFToken sess) (ss_ExpiresAt sess div 1000000) (ss_Identity sess)))))"

definition handleGetSession :: "bool \<Rightarrow> ServerConfig \<Rightarrow> ServerIdentity \<Rightarrow> sessionResponse" where
  "handleGetSession named cfg ident =
     (let expires = (if \<not> IsZero (sv_ExpiresAt ident) then sv_ExpiresAt ident div 1000000 else 0)
      in session_body cfg named (sv_CSRFToken ident) expires ident)"

definition handleDeleteSession :: "(string \<Rightarrow> 'a \<Rightarrow> 'a) \<Rightarrow> ServerIdentity \<Rightarrow> http_request \<Rightarrow> 'a relay \<Rightarrow> 'a relay \<times> Cookie list" where
  "handleDeleteSession revoke ident r s =
     (let s = (case hq_Cookie r of
                 Some c \<Rightarrow> if c \<noteq> [] then s\<lparr>relay_auth := revoke c (relay_auth s)\<rparr> else s
               | None \<Rightarrow> s)
      in (s\<lparr>relay_audit := relay_audit s @ [audit_entry ''session.revoke'' ident [] [] [] []]\<rparr>, [ClearSessionCookie]))"

section \<open>Pairing over the adapter\<close>

definition adapter_pair ::
  "'k verify \<Rightarrow> entropy \<Rightarrow> tokens \<Rightarrow> gotime \<Rightarrow> http_request \<Rightarrow> string \<Rightarrow> 'k authAdapter \<Rightarrow> 'k authAdapter \<times> (adapter_error + ServerSession)" where
  "adapter_pair verify r r' now rq secret a = Pair verify r r' now (hq_Access rq) secret a"

lemma exchange_secret_cases:
  obtains p where "exchange_secret r r' now secret i hard a = (a\<lparr>aa_pairing := p\<rparr>, Inl ErrPairing)"
      "\<not> snd (Verify r secret (aa_pairing a))" "p = fst (Verify r secret (aa_pairing a))"
  | p where "exchange_secret r r' now secret i hard a = (a\<lparr>aa_pairing := p\<rparr>, Inl errSessionEntropy)"
      "snd (Verify r secret (aa_pairing a))"
  | p sess where "exchange_secret r r' now secret i hard a =
        (a\<lparr>aa_pairing := p, aa_sessions := (aa_sessions a)\<lparr>sessions := AList.update (s_ID sess) sess (sessions (aa_sessions a))\<rparr>\<rparr>,
         Inr (granted sess i))"
      "snd (Verify r secret (aa_pairing a))" "p = fst (Verify r secret (aa_pairing a))"
      "s_Identity sess = i" "s_ExpiresAt sess = (if hard \<noteq> 0 then min hard (now + ttl (aa_sessions a)) else now + ttl (aa_sessions a))"
proof -
  obtain p ok where v: "Verify r secret (aa_pairing a) = (p, ok)" by force
  show thesis
  proof (cases ok)
    case False
    then show thesis by (intro that(1) [of p]) (simp_all add: exchange_secret_def v)
  next
    case True
    show thesis
    proof (cases rule: Create_cases [of r' now i hard "aa_sessions a"])
      case 1
      then show thesis using True by (intro that(2) [of p]) (simp_all add: exchange_secret_def v)
    next
      case (2 sess)
      then show thesis using True by (intro that(3) [of sess p]) (simp_all add: exchange_secret_def v)
    qed
  qed
qed

lemma Verify_accepts:
  "snd (Verify r s p) \<longleftrightarrow> \<not> pr_invalidated p \<and> DecodeString (TrimSpace s) = Some (pr_secret p) \<and> r \<noteq> None"
  "snd (Verify r s p) \<Longrightarrow> pr_secret (fst (Verify r s p)) = the r"
  "\<not> snd (Verify r s p) \<Longrightarrow> pr_secret (fst (Verify r s p)) = pr_secret p"
  by (auto simp: Verify_def rotateLocked_def ConstantTimeCompare_def split: option.splits if_splits)

definition pair_outcome :: "entropy \<Rightarrow> gotime \<Rightarrow> string \<Rightarrow> 'k authAdapter \<Rightarrow> 'k authAdapter \<Rightarrow> adapter_error + ServerSession \<Rightarrow> bool" where
  "pair_outcome r now secret a a' y \<longleftrightarrow>
     (case y of
        Inl e \<Rightarrow> aa_sessions a' = aa_sessions a \<and> (e = ErrPairing \<longrightarrow> pr_secret (aa_pairing a') = pr_secret (aa_pairing a))
      | Inr s \<Rightarrow> \<exists>sess i. s = granted sess i \<and> sessions (aa_sessions a') = AList.update (s_ID sess) sess (sessions (aa_sessions a)) \<and>
          DecodeString (TrimSpace secret) = Some (pr_secret (aa_pairing a)) \<and> Some (pr_secret (aa_pairing a')) = r \<and>
          s_ExpiresAt sess \<le> now + ttl (aa_sessions a))"

lemma exchange_secret_outcome:
  assumes "exchange_secret r r' now secret i hard a = (a', y)"
  shows "pair_outcome r now secret a a' y"
proof (cases rule: exchange_secret_cases [of r r' now secret i hard a])
  case (3 p sess)
  then have "a' = a\<lparr>aa_pairing := p, aa_sessions := (aa_sessions a)\<lparr>sessions := AList.update (s_ID sess) sess (sessions (aa_sessions a))\<rparr>\<rparr>"
    "y = Inr (granted sess i)" "s_ExpiresAt sess \<le> now + ttl (aa_sessions a)" using assms by (auto split: if_splits)
  then show ?thesis using 3(2,3) Verify_accepts [of r secret "aa_pairing a"]
    by (auto simp: pair_outcome_def intro!: exI [of _ sess] exI [of _ i])
qed (use assms Verify_accepts(3) in \<open>auto simp: pair_outcome_def\<close>)

lemma pair_outcome_keys: "pair_outcome r now secret (a\<lparr>aa_keys := ks\<rparr>) a' y = pair_outcome r now secret a a' y"
  by (simp add: pair_outcome_def split: sum.split)

lemma Pair_outcome:
  assumes "Pair verify r r' now header secret a = (a', y)"
  shows "pair_outcome r now secret a a' y \<and>
    (aa_named a \<and> (\<forall>ks c. verify header (aa_keys a) \<noteq> (ks, Inr c)) \<longrightarrow> aa_pairing a' = aa_pairing a)"
proof (cases "aa_named a")
  case False
  then show ?thesis using assms by (simp add: Pair_def exchange_secret_outcome)
next
  case True
  show ?thesis
  proof (cases "header = [] \<or> (\<forall>ks c. verify header (aa_keys a) \<noteq> (ks, Inr c))")
    case no: True
    then have "\<exists>ks e. verifyToken verify header a = (a\<lparr>aa_keys := ks\<rparr>, Inl e) \<and> e \<noteq> ErrPairing"
      by (cases "header = []"; cases "verify header (aa_keys a)"; cases "snd (verify header (aa_keys a))")
        (auto simp: verifyToken_def intro: exI [of _ "aa_keys a"])
    then show ?thesis using assms True by (auto simp: Pair_def pair_outcome_def)
  next
    case False
    then obtain ks c where "header \<noteq> []" "verify header (aa_keys a) = (ks, Inr c)" by blast
    then have "exchange_secret r r' now secret (claims_identity c) (hard_expiry c) (a\<lparr>aa_keys := ks\<rparr>) = (a', y)"
      using assms True by (simp add: Pair_def verifyToken_def)
    from exchange_secret_outcome [OF this] show ?thesis using False by (auto simp: pair_outcome_keys)
  qed
qed

text \<open>
  C31: pairing fails closed. When the pairing endpoint answers with an error, no session was created and no
  cookie is set; when it is the Access token that was refused, the pairing secret is untouched; and when the
  secret was refused it is still the same secret. When it answers with a session, the secret presented was
  the current one and has been replaced, the session is stored under the cookie that is set, ends no later
  than its lifetime allows, and the audit trail names it without its bearer value.
\<close>

theorem handlePair_closed:
  assumes "handlePair (adapter_pair verify r r' now) named cfg rq s = (s', cookies, x)"
  shows "case x of
    Inl e \<Rightarrow> aa_sessions (relay_auth s') = aa_sessions (relay_auth s) \<and> cookies = [] \<and>
      (e = ErrorAnswer 401 codeUnauthorized ''pairing rejected'' \<longrightarrow> pr_secret (aa_pairing (relay_auth s')) = pr_secret (aa_pairing (relay_auth s))) \<and>
      (aa_named (relay_auth s) \<and> (\<forall>ks c. verify (hq_Access rq) (aa_keys (relay_auth s)) \<noteq> (ks, Inr c)) \<longrightarrow>
         aa_pairing (relay_auth s') = aa_pairing (relay_auth s))
  | Inr resp \<Rightarrow> (\<exists>secret sess. decode_pair (hq_Body rq) = Some secret \<and>
      DecodeString (TrimSpace secret) = Some (pr_secret (aa_pairing (relay_auth s))) \<and>
      Some (pr_secret (aa_pairing (relay_auth s'))) = r \<and>
      map_of (sessions (aa_sessions (relay_auth s'))) (s_ID sess) = Some sess \<and>
      s_ExpiresAt sess \<le> now + ttl (aa_sessions (relay_auth s)) \<and>
      cookies = [NewSessionCookie (s_ID sess) (s_ExpiresAt sess)] \<and> sr_CSRFToken resp = s_CSRFToken sess \<and>
      map au_SessionID (relay_audit s') = map au_SessionID (relay_audit s) @ [s_AuditID sess])"
proof (cases "decode_pair (hq_Body rq)")
  case None
  then show ?thesis using assms by (auto simp: handlePair_def)
next
  case (Some secret)
  show ?thesis
  proof (cases "secret = []")
    case True
    then show ?thesis using assms Some by (auto simp: handlePair_def)
  next
    case False
    let ?a = "relay_auth s"
    obtain a y where p: "Pair verify r r' now (hq_Access rq) secret ?a = (a, y)" by force
    note out = Pair_outcome [OF p]
    show ?thesis
    proof (cases y)
      case (Inl e)
      then show ?thesis using assms Some False p out
        by (cases "e = ErrPairing") (auto simp: handlePair_def adapter_pair_def pair_outcome_def codeUnauthorized_def codeUnavailable_def Let_def)
    next
      case (Inr sess)
      then obtain se i where "sess = granted se i" "sessions (aa_sessions a) = AList.update (s_ID se) se (sessions (aa_sessions ?a))"
        "DecodeString (TrimSpace secret) = Some (pr_secret (aa_pairing ?a))" "Some (pr_secret (aa_pairing a)) = r" "s_ExpiresAt se \<le> now + ttl (aa_sessions ?a)"
        using out by (auto simp: pair_outcome_def)
      then show ?thesis using assms Some False p Inr
        by (auto simp: handlePair_def adapter_pair_def granted_def audit_entry_def toServerIdentity_def session_body_def update_conv' Let_def
            intro!: exI [of _ se])
    qed
  qed
qed

section \<open>A pairing\<close>

definition pair_request :: http_request where
  "pair_request = \<lparr>hq_Host = ''phone.example'', hq_Origin = ''https://phone.example'', hq_Access = [], hq_Cookie = None, hq_CSRF = [],
     hq_ContentType = ''application/json'', hq_RemoteAddr = [], hq_Probe = [], hq_Path = ''/api/v1/pair'', hq_sameOrigin = True,
     hq_Body = Some (JObj [(''secret'', JStr ''eA'')])\<rparr>"

definition pair_relay :: "unit authAdapter relay" where
  "pair_relay = \<lparr>relay_auth = \<lparr>aa_named = False, aa_pairing = \<lparr>pr_secret = ''x'', pr_invalidated = False\<rparr>,
     aa_sessions = NewSessionStore 1000 0, aa_keys = ()\<rparr>, relay_limiter = newRateLimiter 1 40 0, relay_audit = []\<rparr>"

theorem handlePair_closed_witness:
  "\<exists>s cookies resp. handlePair (adapter_pair (\<lambda>t ks. (ks, Inl ErrExpired)) (Some ''new'') (Some ''sid'', Some ''csrf'', Some ''audit'') 100)
     aa_named example_config pair_request pair_relay = (s, cookies, Inr resp) \<and> pr_secret (aa_pairing (relay_auth s)) = ''new''"
proof -
  have d: "DecodeString (TrimSpace ''eA'') = Some ''x''" by code_simp
  have b: "decode_pair (Some (JObj [(''secret'', JStr ''eA'')])) = Some ''eA''"
    by (simp add: decode_pair_def decodeJSON_def select_fields_def select_field_def get_string_def field_values_def)
  let ?h = "handlePair (adapter_pair (\<lambda>t ks. (ks, Inl ErrExpired)) (Some ''new'') (Some ''sid'', Some ''csrf'', Some ''audit'') 100)
     aa_named example_config pair_request pair_relay"
  have "\<exists>s cookies resp. ?h = (s, cookies, Inr resp)"
    by (simp add: handlePair_def pair_request_def pair_relay_def b adapter_pair_def Pair_def exchange_secret_def Verify_def d
        ConstantTimeCompare_def rotateLocked_def Create_def randomToken_def NewSessionStore_def Let_def)
  then obtain s cookies resp where h: "?h = (s, cookies, Inr resp)" by blast
  from handlePair_closed [OF this] have "pr_secret (aa_pairing (relay_auth s)) = ''new''" by auto
  then show ?thesis using h by blast
qed

end
