(* ===== verification/TerminalProtocol.thy ===== *)
theory TerminalProtocol
  imports ServerMutations AnsiFilter "HOL-Library.Monad_Syntax"
begin

text \<open>
  The terminal wire protocol (internal/terminal/protocol.go) over standard base64: records of the controller, commands of the
  browser, and the commands and messages the bridge sends.
\<close>

section \<open>base64.StdEncoding\<close>

definition std_char :: "nat \<Rightarrow> char" where
  "std_char k = (if k = 62 then CHR ''+'' else if k = 63 then CHR ''/'' else b64_char k)"

definition std_value :: "char \<Rightarrow> nat option" where
  "std_value c = (if c = CHR ''+'' then Some 62 else if c = CHR ''/'' then Some 63
     else if c = CHR ''-'' \<or> c = CHR ''_'' then None else b64_value c)"

definition StdEncode :: "string \<Rightarrow> string" where
  "StdEncode s = map std_char (sextets s) @ replicate ((3 - length s mod 3) mod 3) CHR ''=''"

text \<open>Line breaks are skipped; the length is a multiple of four and at most two padding characters end it.\<close>

definition StdDecode :: "string \<Rightarrow> string option" where
  "StdDecode s =
     (let t = filter (\<lambda>c. c \<noteq> CHR 0x0A \<and> c \<noteq> CHR 0x0D) s;
          body = (if HasSuffix t ''=='' then take (length t - 2) t else if HasSuffix t ''='' then take (length t - 1) t else t) in
      if length t mod 4 \<noteq> 0 then None
      else case those (map std_value body) of None \<Rightarrow> None | Some ks \<Rightarrow> from_sextets ks)"

lemma b64_char_std: "k < 62 \<Longrightarrow> b64_char k \<notin> {CHR ''+'', CHR ''/'', CHR ''-'', CHR ''_'', CHR ''='', CHR 0x0A, CHR 0x0D}"
proof -
  assume k: "k < 62"
  then have "ord (b64_char k) \<notin> {0x2B, 0x2F, 0x2D, 0x5F, 0x3D, 0x0A, 0x0D}" by (auto simp: ord_b64_char split: if_splits)
  then show ?thesis by auto
qed

lemma std_value_char: "k < 64 \<Longrightarrow> std_value (std_char k) = Some k"
  using b64_char_std [of k] by (cases "k = 62"; cases "k = 63") (auto simp: std_value_def std_char_def)

lemma std_char_plain: "k < 64 \<Longrightarrow> std_char k \<notin> {CHR ''='', CHR 0x0A, CHR 0x0D}"
  using b64_char_std [of k] by (cases "k = 62"; cases "k = 63") (auto simp: std_char_def)

lemma padded_length: "(length (sextets s) + (3 - length s mod 3) mod 3) mod 4 = 0"
proof (induction s rule: sextets.induct)
  case (4 a b c s)
  have n: "length (a # b # c # s) mod 3 = length s mod 3" using mod_less_divisor [of 3 "length s"] by (auto simp: mod_Suc)
  have "length (sextets (a # b # c # s)) + k = 4 + (length (sextets s) + k)" for k by simp
  then show ?case unfolding n using 4 by (simp only: mod_add_self1)
qed auto

theorem StdDecode_StdEncode [simp]: "StdDecode (StdEncode s) = Some s"
proof -
  define e p where "e = map std_char (sextets s)" and "p = (3 - length s mod 3) mod 3"
  have plain: "c \<notin> {CHR ''='', CHR 0x0A, CHR 0x0D}" if "c \<in> set e" for c
    using that std_char_plain sextets_small by (auto simp: e_def)
  have t: "filter (\<lambda>c. c \<noteq> CHR 0x0A \<and> c \<noteq> CHR 0x0D) (e @ replicate p CHR ''='') = e @ replicate p CHR ''=''"
    using plain by (auto simp: filter_id_conv)
  have len: "length (e @ replicate p CHR ''='') mod 4 = 0" using padded_length [of s] by (simp add: e_def p_def)
  have no: "\<not> HasSuffix e ''=''" "\<not> HasSuffix e ''==''" "\<not> HasSuffix (e @ ''='') ''==''"
    using plain by (cases e rule: rev_cases; force simp: HasSuffix_def)+
  have "p < 3" by (simp add: p_def)
  then have body: "(if HasSuffix (e @ replicate p CHR ''='') ''=='' then take (length (e @ replicate p CHR ''='') - 2) (e @ replicate p CHR ''='')
      else if HasSuffix (e @ replicate p CHR ''='') ''='' then take (length (e @ replicate p CHR ''='') - 1) (e @ replicate p CHR ''='')
      else e @ replicate p CHR ''='') = e"
    using no by (cases "p = 0"; cases "p = 1") (auto simp: HasSuffix_def numeral_2_eq_2 less_Suc_eq numeral_3_eq_3)
  have "those (map std_value e) = Some (sextets s)"
  proof -
    have "those (map std_value (map std_char ks)) = Some ks" if "\<And>k. k \<in> set ks \<Longrightarrow> k < 64" for ks
      using that by (induction ks) (auto simp: std_value_char)
    then show ?thesis using sextets_small by (simp add: e_def)
  qed
  then show ?thesis unfolding StdDecode_def StdEncode_def e_def [symmetric] p_def [symmetric] t body Let_def
    using len by (simp add: from_sextets_sextets)
qed

section \<open>internal/terminal/protocol.go\<close>

definition recordFrame :: string where "recordFrame = ''terminal.frame''"
definition recordClosed :: string where "recordClosed = ''terminal.closed''"
definition cmdInput :: string where "cmdInput = ''terminal.input''"
definition cmdResize :: string where "cmdResize = ''terminal.resize''"
definition cmdScroll :: string where "cmdScroll = ''terminal.scroll''"
definition cmdRelease :: string where "cmdRelease = ''terminal.release''"

record controllerRecord =
  cr_Type :: string
  cr_Seq :: "64 word"
  cr_Encoding :: string
  cr_Width :: int
  cr_Height :: int
  cr_Full :: bool
  cr_Bytes :: string
  cr_Reason :: string

definition decode_record :: "json \<Rightarrow> controllerRecord option" where
  "decode_record j = do {
     p \<leftarrow> select_known [''type'', ''seq'', ''encoding'', ''width'', ''height'', ''full'', ''bytes'', ''reason''] j;
     typ \<leftarrow> get_string p ''type''; q \<leftarrow> get_uint p ''seq''; encoding \<leftarrow> get_string p ''encoding''; width \<leftarrow> get_int Atoi p ''width'';
     height \<leftarrow> get_int Atoi p ''height''; full \<leftarrow> get_bool p ''full''; bytes \<leftarrow> get_string p ''bytes''; reason \<leftarrow> get_string p ''reason'';
     Some \<lparr>cr_Type = typ, cr_Seq = q, cr_Encoding = encoding, cr_Width = width, cr_Height = height, cr_Full = full, cr_Bytes = bytes,
       cr_Reason = reason\<rparr> }"

definition decodeBytes :: "controllerRecord \<Rightarrow> string option" where
  "decodeBytes r = (if cr_Bytes r = [] then Some [] else StdDecode (cr_Bytes r))"

record controllerCommand =
  cmd_Type :: string
  cmd_Text :: string
  cmd_Bytes :: string
  cmd_Cols :: int
  cmd_Rows :: int
  cmd_CellWidthPx :: int
  cmd_CellHeightPx :: int
  cmd_Direction :: string
  cmd_Lines :: int
  cmd_Source :: string

definition no_command :: controllerCommand where
  "no_command = \<lparr>cmd_Type = [], cmd_Text = [], cmd_Bytes = [], cmd_Cols = 0, cmd_Rows = 0, cmd_CellWidthPx = 0, cmd_CellHeightPx = 0,
     cmd_Direction = [], cmd_Lines = 0, cmd_Source = []\<rparr>"

definition inputBytesCommand :: "string \<Rightarrow> controllerCommand" where
  "inputBytesCommand b = no_command\<lparr>cmd_Type := cmdInput, cmd_Bytes := StdEncode b\<rparr>"

definition resizeCommand :: "int \<Rightarrow> int \<Rightarrow> int \<Rightarrow> int \<Rightarrow> controllerCommand" where
  "resizeCommand cols rows cellW cellH =
     no_command\<lparr>cmd_Type := cmdResize, cmd_Cols := cols, cmd_Rows := rows, cmd_CellWidthPx := cellW, cmd_CellHeightPx := cellH\<rparr>"

definition scrollCommand :: "string \<Rightarrow> int \<Rightarrow> string \<Rightarrow> controllerCommand" where
  "scrollCommand direction lines source =
     no_command\<lparr>cmd_Type := cmdScroll, cmd_Direction := direction, cmd_Lines := lines, cmd_Source := source\<rparr>"

definition releaseCommand :: controllerCommand where
  "releaseCommand = no_command\<lparr>cmd_Type := cmdRelease\<rparr>"

text \<open>The encoder omits an empty field, keeps the declared order and ends the line.\<close>

definition omit_text :: "string \<Rightarrow> string \<Rightarrow> (string \<times> json) list" where
  "omit_text k s = (if s = [] then [] else [(k, JStr s)])"

definition omit_number :: "string \<Rightarrow> int \<Rightarrow> (string \<times> json) list" where
  "omit_number k n = (if n = 0 then [] else [(k, JNum (int_literal n))])"

definition command_json :: "controllerCommand \<Rightarrow> json" where
  "command_json c = JObj ((''type'', JStr (cmd_Type c)) # omit_text ''text'' (cmd_Text c) @ omit_text ''bytes'' (cmd_Bytes c) @
     omit_number ''cols'' (cmd_Cols c) @ omit_number ''rows'' (cmd_Rows c) @ omit_number ''cell_width_px'' (cmd_CellWidthPx c) @
     omit_number ''cell_height_px'' (cmd_CellHeightPx c) @ omit_text ''direction'' (cmd_Direction c) @ omit_number ''lines'' (cmd_Lines c) @
     omit_text ''source'' (cmd_Source c))"

definition command_line :: "controllerCommand \<Rightarrow> string" where
  "command_line c = encode_json (command_json c) @ [CHR 0x0A]"

record browserCommand =
  bc_Type :: string
  bc_Cols :: int
  bc_Rows :: int
  bc_CellWidthPx :: int
  bc_CellHeightPx :: int
  bc_Direction :: string
  bc_Lines :: int
  bc_Source :: string

definition browserResize :: string where "browserResize = ''resize''"
definition browserScroll :: string where "browserScroll = ''scroll''"
definition browserRelease :: string where "browserRelease = ''release''"
definition browserPing :: string where "browserPing = ''ping''"

definition decode_browser :: "json \<Rightarrow> browserCommand option" where
  "decode_browser j = do {
     p \<leftarrow> select_known [''type'', ''cols'', ''rows'', ''cell_width_px'', ''cell_height_px'', ''direction'', ''lines'', ''source''] j;
     typ \<leftarrow> get_string p ''type''; cols \<leftarrow> get_int Atoi p ''cols''; rows \<leftarrow> get_int Atoi p ''rows''; w \<leftarrow> get_int Atoi p ''cell_width_px'';
     h \<leftarrow> get_int Atoi p ''cell_height_px''; direction \<leftarrow> get_string p ''direction''; lines \<leftarrow> get_int Atoi p ''lines'';
     source \<leftarrow> get_string p ''source'';
     Some \<lparr>bc_Type = typ, bc_Cols = cols, bc_Rows = rows, bc_CellWidthPx = w, bc_CellHeightPx = h, bc_Direction = direction,
       bc_Lines = lines, bc_Source = source\<rparr> }"

definition parseBrowserCommand :: "(string \<Rightarrow> json option) \<Rightarrow> string \<Rightarrow> browserCommand option" where
  "parseBrowserCommand parse data =
     (case Option.bind (parse data) decode_browser of
        None \<Rightarrow> None
      | Some c \<Rightarrow> if bc_Type c = [] then None else Some c)"

record serverMessage =
  sm_Type :: string
  sm_Reason :: string
  sm_Width :: int
  sm_Height :: int
  sm_Full :: bool
  sm_Seq :: "64 word"

definition no_message :: serverMessage where
  "no_message = \<lparr>sm_Type = [], sm_Reason = [], sm_Width = 0, sm_Height = 0, sm_Full = False, sm_Seq = 0\<rparr>"

definition msgOpened :: string where "msgOpened = ''terminal.opened''"
definition msgClosed :: string where "msgClosed = ''terminal.closed''"
definition msgConflict :: string where "msgConflict = ''terminal.conflict''"
definition msgPong :: string where "msgPong = ''terminal.pong''"
definition msgResized :: string where "msgResized = ''terminal.resized''"

definition message_encode :: "serverMessage \<Rightarrow> string" where
  "message_encode m = encode_json (JObj ((''type'', JStr (sm_Type m)) # omit_text ''reason'' (sm_Reason m) @ omit_number ''width'' (sm_Width m) @
     omit_number ''height'' (sm_Height m) @ (if sm_Full m then [(''full'', JBool True)] else []) @ omit_number ''seq'' (uint (sm_Seq m))))"

section \<open>One command, one line\<close>

lemma newline_chunk: "(r, bytes) \<in> set (rune_chunks s) \<Longrightarrow> CHR 0x0A \<in> set bytes \<Longrightarrow> r = 0x0A"
proof (induction s rule: rune_chunks.induct)
  case (1 s)
  show ?case
  proof (cases "s = []")
    case False
    show ?thesis using "1.prems"(1) ascii_in_chunk [OF False, of "CHR 0x0A"] "1.prems"(2) "1.IH" [OF False]
      unfolding rune_chunks.simps [of s] using False by auto
  qed (use 1 in simp)
qed

lemma escape_no_newline: "CHR 0x0A \<notin> set bytes \<or> r = 0x0A \<Longrightarrow> CHR 0x0A \<notin> set (escape_chunk (r, bytes))"
proof -
  have hex: "hex_digit n \<noteq> CHR 0x0A" if "n < 16" for n
  proof -
    have "ord (hex_digit n) \<noteq> 0x0A" using that by (auto simp: hex_digit_def)
    then show ?thesis by auto
  qed
  assume "CHR 0x0A \<notin> set bytes \<or> r = 0x0A"
  then show ?thesis by (auto simp: escape_chunk_def hex dest: sym)
qed

lemma quote_no_newline: "CHR 0x0A \<notin> set (quote s)"
proof -
  have "CHR 0x0A \<notin> set (escape_chunk x)" if "x \<in> set (rune_chunks s)" for x
    using that newline_chunk [of "fst x" "snd x" s] escape_no_newline [of "snd x" "fst x"] by auto
  then show ?thesis by (auto simp: quote_def)
qed

lemma separated_set: "set (separated xs) \<subseteq> insert (CHR '','') (\<Union> (set ` set xs))"
  by (induction xs rule: separated.induct) auto

lemma int_literal_no_newline: "CHR 0x0A \<notin> set (int_literal n)"
  using decimal_digits [of "CHR 0x0A"] by (auto simp: int_literal_def)

text \<open>
  Whatever a browser puts into a command, the controller reads it as one record: the encoded command has a
  single line break, at its end.
\<close>

theorem command_one_line: "\<exists>t. command_line c = t @ [CHR 0x0A] \<and> CHR 0x0A \<notin> set t"
proof -
  have obj: "CHR 0x0A \<notin> set (encode_json (JObj ms))" if "\<And>k v. (k, v) \<in> set ms \<Longrightarrow> CHR 0x0A \<notin> set (encode_json v)" for ms
  proof
    assume "CHR 0x0A \<in> set (encode_json (JObj ms))"
    then have "CHR 0x0A \<in> set (separated (map (\<lambda>(k, v). quote k @ '':'' @ encode_json v) ms))" by simp
    then obtain k v where "(k, v) \<in> set ms" "CHR 0x0A \<in> set (quote k @ '':'' @ encode_json v)"
      using separated_set [of "map (\<lambda>(k, v). quote k @ '':'' @ encode_json v) ms"] by auto
    then show False using that quote_no_newline by auto
  qed
  have str: "CHR 0x0A \<notin> set (encode_json v)" if "(k, v) \<in> set (omit_text f s)" for k v f s
    using that quote_no_newline by (auto simp: omit_text_def split: if_splits)
  have num: "CHR 0x0A \<notin> set (encode_json v)" if "(k, v) \<in> set (omit_number f n)" for k v f n
    using that int_literal_no_newline by (auto simp: omit_number_def split: if_splits)
  have "CHR 0x0A \<notin> set (encode_json (command_json c))"
    unfolding command_json_def by (rule obj) (auto simp: quote_no_newline dest: str num)
  then show ?thesis by (simp add: command_line_def)
qed

end
