(* ===== verification/TerminalBridge.thy ===== *)
theory TerminalBridge
  imports TerminalProtocol
begin

text \<open>
  The terminal bridge (internal/terminal/bridge.go, conn.go): the handlers as functions on the bridge, and the session as a
  transition system whose rules are the steps of its goroutines between two channel operations.
\<close>

section \<open>internal/terminal/bridge.go: options and events\<close>

definition defaultMaxOutputFrameBytes :: int where "defaultMaxOutputFrameBytes = 2 ^ 20"
definition defaultMaxInputBytes :: int where "defaultMaxInputBytes = 2 ^ 16"
definition defaultOutQueue :: int where "defaultOutQueue = 256"
definition defaultPingInterval :: duration where "defaultPingInterval = 20000000000"
definition defaultPongTimeout :: duration where "defaultPongTimeout = 75000000000"
definition defaultWriteTimeout :: duration where "defaultWriteTimeout = 10000000000"
definition defaultResizeMinInterval :: duration where "defaultResizeMinInterval = 50000000"
definition maxScrollLines :: int where "maxScrollLines = 10000"

definition closeNormal :: int where "closeNormal = 1000"
definition closeGoingAway :: int where "closeGoingAway = 1001"
definition closePolicy :: int where "closePolicy = 1008"
definition closeInternalError :: int where "closeInternalError = 1011"

record Event =
  ev_Kind :: string
  ev_Bytes :: nat
  ev_Cols :: int
  ev_Rows :: int
  ev_Lines :: int
  ev_Seq :: "64 word"
  ev_Reason :: string

definition event :: "string \<Rightarrow> Event" where
  "event kind = \<lparr>ev_Kind = kind, ev_Bytes = 0, ev_Cols = 0, ev_Rows = 0, ev_Lines = 0, ev_Seq = 0, ev_Reason = []\<rparr>"

definition EventInput :: string where "EventInput = ''input''"
definition EventResize :: string where "EventResize = ''resize''"
definition EventScroll :: string where "EventScroll = ''scroll''"
definition EventRelease :: string where "EventRelease = ''release''"
definition EventClosed :: string where "EventClosed = ''closed''"
definition EventConflict :: string where "EventConflict = ''conflict''"
definition EventBackpressure :: string where "EventBackpressure = ''backpressure''"
definition EventProtocolErr :: string where "EventProtocolErr = ''protocol_error''"

text \<open>The filter constructor and the audit callback are arguments of the model.\<close>

record Options =
  MaxOutputFrameBytes :: int
  MaxInputBytes :: int
  OutQueue :: int
  PingInterval :: duration
  PongTimeout :: duration
  WriteTimeout :: duration
  ResizeMinInterval :: duration

definition or_positive :: "int \<Rightarrow> int \<Rightarrow> int" where
  "or_positive d n = (if n \<le> 0 then d else n)"

definition term_applyDefaults :: "Options \<Rightarrow> Options" where
  "term_applyDefaults o' =
     \<lparr>MaxOutputFrameBytes = or_positive defaultMaxOutputFrameBytes (MaxOutputFrameBytes o'),
      MaxInputBytes = or_positive defaultMaxInputBytes (MaxInputBytes o'), OutQueue = or_positive defaultOutQueue (OutQueue o'),
      PingInterval = or_positive defaultPingInterval (PingInterval o'), PongTimeout = or_positive defaultPongTimeout (PongTimeout o'),
      WriteTimeout = or_positive defaultWriteTimeout (WriteTimeout o'),
      ResizeMinInterval = or_positive defaultResizeMinInterval (ResizeMinInterval o')\<rparr>"

section \<open>internal/terminal/bridge.go: the bridge\<close>

record outMsg =
  om_binary :: bool
  om_data :: string

text \<open>A channel is the list of what it holds; \<open>ctx_done\<close> is the closed channel of the session's context.\<close>

record 'f bridge =
  br_filter :: 'f
  outCh :: "outMsg list"
  stdinCh :: "controllerCommand list"
  resizeCh :: "browserCommand option"
  lastSeq :: "64 word"
  haveSeq :: bool
  closeCode :: int
  closeReason :: string
  closeMsg :: string
  closeSet :: bool
  ctx_done :: bool
  br_audit :: "Event list"

definition audit :: "Event \<Rightarrow> 'f bridge \<Rightarrow> 'f bridge" where
  "audit e b = b\<lparr>br_audit := br_audit b @ [e]\<rparr>"

definition setClose :: "int \<Rightarrow> string \<Rightarrow> serverMessage option \<Rightarrow> 'f bridge \<Rightarrow> 'f bridge" where
  "setClose code reason final b =
     (if closeSet b then b
      else b\<lparr>closeSet := True, closeCode := code, closeReason := reason,
             closeMsg := (case final of None \<Rightarrow> closeMsg b | Some m \<Rightarrow> message_encode m)\<rparr>)"

definition closed_message :: "string \<Rightarrow> serverMessage" where
  "closed_message reason = no_message\<lparr>sm_Type := msgClosed, sm_Reason := reason\<rparr>"

text \<open>
  \<open>room\<close>: a send on the outbound channel can proceed. When the context is done as well, \<open>select\<close> takes either branch;
  \<open>skip\<close> is its choice.
\<close>

definition out_room :: "Options \<Rightarrow> 'f bridge \<Rightarrow> bool" where
  "out_room opts b \<longleftrightarrow> int (length (outCh b)) < OutQueue opts"

definition stdin_room :: "'f bridge \<Rightarrow> bool" where
  "stdin_room b \<longleftrightarrow> length (stdinCh b) < 64"

definition sendText :: "Options \<Rightarrow> bool \<Rightarrow> serverMessage \<Rightarrow> 'f bridge \<Rightarrow> 'f bridge" where
  "sendText opts skip m b =
     (if out_room opts b \<and> \<not> (skip \<and> ctx_done b) then b\<lparr>outCh := outCh b @ [\<lparr>om_binary = False, om_data = message_encode m\<rparr>]\<rparr> else b)"

definition Run_bridge :: "Options \<Rightarrow> 'f \<Rightarrow> 'f bridge" where
  "Run_bridge opts f =
     sendText opts False (no_message\<lparr>sm_Type := msgOpened\<rparr>)
       \<lparr>br_filter = f, outCh = [], stdinCh = [], resizeCh = None, lastSeq = 0, haveSeq = False, closeCode = closeNormal, closeReason = [],
        closeMsg = [], closeSet = False, ctx_done = False, br_audit = []\<rparr>"

definition isConflict :: "string \<Rightarrow> bool" where
  "isConflict reason =
     list_ex (\<lambda>needle. Contains (ToLower reason) needle)
       [''conflict'', ''in use'', ''another controller'', ''already controlled'', ''controlled elsewhere'']"

definition handleControllerClosed :: "string \<Rightarrow> 'f bridge \<Rightarrow> 'f bridge" where
  "handleControllerClosed reason b =
     (if isConflict reason then
        setClose closePolicy ''terminal controlled elsewhere'' (Some (no_message\<lparr>sm_Type := msgConflict, sm_Reason := reason\<rparr>))
          (audit ((event EventConflict)\<lparr>ev_Reason := reason\<rparr>) b)
      else setClose closeNormal reason (Some (closed_message reason)) (audit ((event EventClosed)\<lparr>ev_Reason := reason\<rparr>) b))"

text \<open>Where the goroutine that reads the controller stands: at the scanner, or with a frame it offers to the writer.\<close>

datatype reader_pc = Scanning | Offering outMsg | Waiting outMsg | ReaderEnded

definition forward_frame ::
  "Options \<Rightarrow> ('f \<Rightarrow> string \<Rightarrow> 'f \<times> string) \<Rightarrow> bool \<Rightarrow> controllerRecord \<Rightarrow> string \<Rightarrow> 'f bridge \<Rightarrow> 'f bridge \<times> reader_pc" where
  "forward_frame opts fstep skip rec raw b =
     (let (f, filtered) = fstep (br_filter b) raw;
          b = b\<lparr>br_filter := f\<rparr>;
          b = (if cr_Full rec \<or> cr_Width rec > 0 \<or> cr_Height rec > 0
               then sendText opts skip \<lparr>sm_Type = msgResized, sm_Reason = [], sm_Width = cr_Width rec, sm_Height = cr_Height rec,
                      sm_Full = cr_Full rec, sm_Seq = cr_Seq rec\<rparr> b
               else b)
      in (b, if filtered = [] then Scanning else Offering \<lparr>om_binary = True, om_data = filtered\<rparr>))"

definition handleFrame ::
  "Options \<Rightarrow> ('f \<Rightarrow> string \<Rightarrow> 'f \<times> string) \<Rightarrow> bool \<Rightarrow> controllerRecord \<Rightarrow> 'f bridge \<Rightarrow> 'f bridge \<times> reader_pc" where
  "handleFrame opts fstep skip rec b =
     (if haveSeq b \<and> cr_Seq rec \<le> lastSeq b then
        (setClose closePolicy ''non-monotonic frame sequence'' (Some (closed_message ''non-monotonic frame sequence''))
           (audit ((event EventProtocolErr)\<lparr>ev_Seq := cr_Seq rec, ev_Reason := ''non-monotonic sequence''\<rparr>) b), ReaderEnded)
      else
        let b = b\<lparr>haveSeq := True, lastSeq := cr_Seq rec\<rparr> in
        case decodeBytes rec of
          None \<Rightarrow> (audit ((event EventProtocolErr)\<lparr>ev_Seq := cr_Seq rec, ev_Reason := ''bad base64 frame''\<rparr>) b, Scanning)
        | Some raw \<Rightarrow>
            if int (length raw) > MaxOutputFrameBytes opts then
              (setClose closePolicy ''frame exceeds output limit'' (Some (closed_message ''frame exceeds output limit'')) b, ReaderEnded)
            else forward_frame opts fstep skip rec raw b)"

definition readController ::
  "Options \<Rightarrow> ('f \<Rightarrow> string \<Rightarrow> 'f \<times> string) \<Rightarrow> (string \<Rightarrow> json option) \<Rightarrow> bool \<Rightarrow> string \<Rightarrow> 'f bridge \<Rightarrow> 'f bridge \<times> reader_pc" where
  "readController opts fstep parse skip line b =
     (if line = [] then (b, Scanning)
      else case Option.bind (parse line) decode_record of
        None \<Rightarrow> (audit ((event EventProtocolErr)\<lparr>ev_Reason := ''bad controller record''\<rparr>) b, Scanning)
      | Some rec \<Rightarrow>
          if cr_Type rec = recordFrame then handleFrame opts fstep skip rec b
          else if cr_Type rec = recordClosed then (handleControllerClosed (cr_Reason rec) b, ReaderEnded)
          else (b, Scanning))"

definition stream_ended :: "'f bridge \<Rightarrow> 'f bridge" where
  "stream_ended = setClose closeGoingAway ''controller stream ended'' (Some (closed_message ''controller stream ended''))"

text \<open>The goroutine that reads the browser: at the check of the context, in \<open>ReadMessage\<close>, or handing a command to the writer of stdin.\<close>

datatype browser_pc = Checking | Reading | Sending controllerCommand | BrowserEnded

definition handleInput :: "Options \<Rightarrow> string \<Rightarrow> 'f bridge \<Rightarrow> 'f bridge \<times> browser_pc" where
  "handleInput opts data b =
     (if int (length data) > MaxInputBytes opts then
        (setClose closePolicy ''input too large'' None
           (audit ((event EventProtocolErr)\<lparr>ev_Bytes := length data, ev_Reason := ''input too large''\<rparr>) b), BrowserEnded)
      else if data = [] then (b, Checking)
      else (audit ((event EventInput)\<lparr>ev_Bytes := length data\<rparr>) b, Sending (inputBytesCommand data)))"

text \<open>
  \<open>pushResize\<close>: the browser reader is the only sender, so once the stale command is gone the send succeeds; a
  command the coalescer takes in between was taken before.
\<close>

definition pushResize :: "browserCommand \<Rightarrow> 'f bridge \<Rightarrow> 'f bridge" where
  "pushResize cmd b = b\<lparr>resizeCh := Some cmd\<rparr>"

definition handleCommand :: "Options \<Rightarrow> (string \<Rightarrow> json option) \<Rightarrow> bool \<Rightarrow> string \<Rightarrow> 'f bridge \<Rightarrow> 'f bridge \<times> browser_pc" where
  "handleCommand opts parse skip data b =
     (case parseBrowserCommand parse data of
        None \<Rightarrow> (audit ((event EventProtocolErr)\<lparr>ev_Reason := ''bad command''\<rparr>) b, Checking)
      | Some cmd \<Rightarrow>
          if bc_Type cmd = browserResize then
            (if bc_Cols cmd \<le> 0 \<or> bc_Rows cmd \<le> 0 \<or> bc_Cols cmd > 10000 \<or> bc_Rows cmd > 10000
             then (audit ((event EventProtocolErr)\<lparr>ev_Reason := ''bad resize dims''\<rparr>) b, Checking)
             else (pushResize cmd (audit ((event EventResize)\<lparr>ev_Cols := bc_Cols cmd, ev_Rows := bc_Rows cmd\<rparr>) b), Checking))
          else if bc_Type cmd = browserScroll then
            (if bc_Direction cmd \<noteq> ''up'' \<and> bc_Direction cmd \<noteq> ''down'' then (b, Checking)
             else
               let lines = (if bc_Lines cmd \<le> 0 then 1 else bc_Lines cmd);
                   lines = (if lines > maxScrollLines then maxScrollLines else lines);
                   src = (if bc_Source cmd = [] then ''wheel'' else bc_Source cmd)
               in (audit ((event EventScroll)\<lparr>ev_Lines := lines\<rparr>) b, Sending (scrollCommand (bc_Direction cmd) lines src)))
          else if bc_Type cmd = browserRelease then (audit (event EventRelease) b, Sending releaseCommand)
          else if bc_Type cmd = browserPing then (sendText opts skip (no_message\<lparr>sm_Type := msgPong\<rparr>) b, Checking)
          else (b, Checking))"

section \<open>internal/terminal/bridge.go: the session as a transition system\<close>

datatype writer_pc = Writing | Draining | WriterEnded
datatype resizer_pc = Coalescing "controllerCommand option" | Passing controllerCommand | ResizerEnded
datatype main_pc = AwaitDone | Terminated | Flushed | SocketClosed | Finished

text \<open>
  The bridge with its goroutines and what its surroundings have seen: the frames taken from the controller, the input
  taken from the browser, the messages written to the socket, the commands written to stdin and how the socket was closed.
\<close>

record 'f session =
  br :: "'f bridge"
  reader :: reader_pc
  writer :: writer_pc
  stdin_running :: bool
  resizer :: resizer_pc
  browser :: browser_pc
  pinging :: bool
  main :: main_pc
  frames_in :: "(64 word \<times> string) list"
  inputs_in :: "string list"
  to_browser :: "outMsg list"
  to_controller :: "controllerCommand list"
  socket :: "(int \<times> string) option"

definition start_session :: "Options \<Rightarrow> 'f \<Rightarrow> 'f session" where
  "start_session opts f =
     \<lparr>br = Run_bridge opts f, reader = Scanning, writer = Writing, stdin_running = True, resizer = Coalescing None, browser = Checking,
      pinging = True, main = AwaitDone, frames_in = [], inputs_in = [], to_browser = [], to_controller = [], socket = None\<rparr>"

text \<open>The frame a line contributes to the output, and the input a message contributes.\<close>

definition frame_of :: "Options \<Rightarrow> (string \<Rightarrow> json option) \<Rightarrow> string \<Rightarrow> 'f bridge \<Rightarrow> (64 word \<times> string) list" where
  "frame_of opts parse line b =
     (case Option.bind (parse line) decode_record of
        None \<Rightarrow> []
      | Some rec \<Rightarrow>
          if line = [] \<or> cr_Type rec \<noteq> recordFrame \<or> haveSeq b \<and> cr_Seq rec \<le> lastSeq b then []
          else case decodeBytes rec of
            None \<Rightarrow> []
          | Some raw \<Rightarrow> if int (length raw) > MaxOutputFrameBytes opts then [] else [(cr_Seq rec, raw)])"

definition input_of :: "Options \<Rightarrow> string \<Rightarrow> string list" where
  "input_of opts data = (if data = [] \<or> int (length data) > MaxInputBytes opts then [] else [data])"

definition final_text :: "'f bridge \<Rightarrow> outMsg list" where
  "final_text b = (if closeMsg b = [] then [] else [\<lparr>om_binary = False, om_data = closeMsg b\<rparr>])"

definition final_reason :: "'f bridge \<Rightarrow> string" where
  "final_reason b = (if closeReason b = [] then ''session ended'' else closeReason b)"

text \<open>A line arrives from the controller; every other step is taken by the bridge itself.\<close>

inductive line_step ::
  "Options \<Rightarrow> ('f \<Rightarrow> string \<Rightarrow> 'f \<times> string) \<Rightarrow> (string \<Rightarrow> json option) \<Rightarrow> 'f session \<Rightarrow> 'f session \<Rightarrow> bool"
  for opts fstep parse where
  reader_line: "reader s = Scanning \<Longrightarrow> readController opts fstep parse skip line (br s) = (b, pc) \<Longrightarrow>
    line_step opts fstep parse s (s\<lparr>br := b, reader := pc, frames_in := frames_in s @ frame_of opts parse line (br s)\<rparr>)"

inductive own_step ::
  "Options \<Rightarrow> ('f \<Rightarrow> string \<Rightarrow> 'f \<times> string) \<Rightarrow> (string \<Rightarrow> json option) \<Rightarrow> 'f session \<Rightarrow> 'f session \<Rightarrow> bool"
  for opts fstep parse where
  cancel: "own_step opts fstep parse s (s\<lparr>br := (br s)\<lparr>ctx_done := True\<rparr>\<rparr>)"
| reader_eof: "reader s = Scanning \<Longrightarrow> own_step opts fstep parse s (s\<lparr>br := stream_ended (br s), reader := ReaderEnded\<rparr>)"
| reader_queued: "reader s = Offering m \<or> reader s = Waiting m \<Longrightarrow> out_room opts (br s) \<Longrightarrow>
    own_step opts fstep parse s (s\<lparr>br := (br s)\<lparr>outCh := outCh (br s) @ [m]\<rparr>, reader := Scanning\<rparr>)"
| reader_gives_up: "reader s = Offering m \<or> reader s = Waiting m \<Longrightarrow> ctx_done (br s) \<Longrightarrow>
    own_step opts fstep parse s (s\<lparr>reader := ReaderEnded\<rparr>)"
| reader_waits: "reader s = Offering m \<Longrightarrow> \<not> out_room opts (br s) \<Longrightarrow> \<not> ctx_done (br s) \<Longrightarrow>
    own_step opts fstep parse s (s\<lparr>reader := Waiting m\<rparr>)"
| reader_times_out: "reader s = Waiting m \<Longrightarrow>
    own_step opts fstep parse s (s\<lparr>br := setClose closeGoingAway ''client too slow'' None
      (audit ((event EventBackpressure)\<lparr>ev_Bytes := length (om_data m)\<rparr>) (br s)), reader := ReaderEnded\<rparr>)"
| writer_writes: "writer s = Writing \<or> writer s = Draining \<Longrightarrow> outCh (br s) = m # ms \<Longrightarrow>
    own_step opts fstep parse s (s\<lparr>br := (br s)\<lparr>outCh := ms\<rparr>, to_browser := to_browser s @ [m]\<rparr>)"
| writer_fails: "writer s = Writing \<or> writer s = Draining \<Longrightarrow> outCh (br s) = m # ms \<Longrightarrow>
    own_step opts fstep parse s (s\<lparr>br := (br s)\<lparr>outCh := ms\<rparr>, writer := WriterEnded\<rparr>)"
| writer_sees_done: "writer s = Writing \<Longrightarrow> ctx_done (br s) \<Longrightarrow> own_step opts fstep parse s (s\<lparr>writer := Draining\<rparr>)"
| writer_drained: "writer s = Draining \<Longrightarrow> outCh (br s) = [] \<Longrightarrow> own_step opts fstep parse s (s\<lparr>writer := WriterEnded\<rparr>)"
| stdin_writes: "stdin_running s \<Longrightarrow> stdinCh (br s) = c # cs \<Longrightarrow>
    own_step opts fstep parse s (s\<lparr>br := (br s)\<lparr>stdinCh := cs\<rparr>, to_controller := to_controller s @ [c]\<rparr>)"
| stdin_fails: "stdin_running s \<Longrightarrow> stdinCh (br s) = c # cs \<Longrightarrow>
    own_step opts fstep parse s (s\<lparr>br := setClose closeInternalError ''controller stdin closed'' None ((br s)\<lparr>stdinCh := cs\<rparr>),
      stdin_running := False\<rparr>)"
| stdin_sees_done: "stdin_running s \<Longrightarrow> ctx_done (br s) \<Longrightarrow> own_step opts fstep parse s (s\<lparr>stdin_running := False\<rparr>)"
| resizer_takes: "resizer s = Coalescing p \<Longrightarrow> resizeCh (br s) = Some rc \<Longrightarrow>
    own_step opts fstep parse s (s\<lparr>br := (br s)\<lparr>resizeCh := None\<rparr>,
      resizer := Coalescing (Some (resizeCommand (bc_Cols rc) (bc_Rows rc) (bc_CellWidthPx rc) (bc_CellHeightPx rc)))\<rparr>)"
| resizer_ticks: "resizer s = Coalescing (Some c) \<Longrightarrow> own_step opts fstep parse s (s\<lparr>resizer := Passing c\<rparr>)"
| resizer_passes: "resizer s = Passing c \<Longrightarrow> stdin_room (br s) \<Longrightarrow>
    own_step opts fstep parse s (s\<lparr>br := (br s)\<lparr>stdinCh := stdinCh (br s) @ [c]\<rparr>, resizer := Coalescing None\<rparr>)"
| resizer_drops: "resizer s = Passing c \<Longrightarrow> ctx_done (br s) \<Longrightarrow> own_step opts fstep parse s (s\<lparr>resizer := Coalescing None\<rparr>)"
| resizer_sees_done: "resizer s = Coalescing p \<Longrightarrow> ctx_done (br s) \<Longrightarrow> own_step opts fstep parse s (s\<lparr>resizer := ResizerEnded\<rparr>)"
| browser_checks: "browser s = Checking \<Longrightarrow> \<not> ctx_done (br s) \<Longrightarrow> own_step opts fstep parse s (s\<lparr>browser := Reading\<rparr>)"
| browser_sees_done: "browser s = Checking \<Longrightarrow> ctx_done (br s) \<Longrightarrow> own_step opts fstep parse s (s\<lparr>browser := BrowserEnded\<rparr>)"
| browser_no_deadline: "browser s = Reading \<Longrightarrow> own_step opts fstep parse s (s\<lparr>browser := BrowserEnded\<rparr>)"
| browser_disconnects: "browser s = Reading \<Longrightarrow>
    own_step opts fstep parse s (s\<lparr>br := setClose closeNormal ''client disconnected'' None (br s), browser := BrowserEnded\<rparr>)"
| browser_input: "browser s = Reading \<Longrightarrow> socket s = None \<Longrightarrow> handleInput opts data (br s) = (b, pc) \<Longrightarrow>
    own_step opts fstep parse s (s\<lparr>br := b, browser := pc, inputs_in := inputs_in s @ input_of opts data\<rparr>)"
| browser_command: "browser s = Reading \<Longrightarrow> socket s = None \<Longrightarrow> handleCommand opts parse skip data (br s) = (b, pc) \<Longrightarrow>
    own_step opts fstep parse s (s\<lparr>br := b, browser := pc\<rparr>)"
| browser_sends: "browser s = Sending c \<Longrightarrow> stdin_room (br s) \<Longrightarrow>
    own_step opts fstep parse s (s\<lparr>br := (br s)\<lparr>stdinCh := stdinCh (br s) @ [c]\<rparr>, browser := Checking\<rparr>)"
| browser_drops: "browser s = Sending c \<Longrightarrow> ctx_done (br s) \<Longrightarrow> own_step opts fstep parse s (s\<lparr>browser := Checking\<rparr>)"
| ping_fails: "pinging s \<Longrightarrow>
    own_step opts fstep parse s (s\<lparr>br := setClose closeGoingAway ''keepalive failed'' None (br s), pinging := False\<rparr>)"
| ping_sees_done: "pinging s \<Longrightarrow> ctx_done (br s) \<Longrightarrow> own_step opts fstep parse s (s\<lparr>pinging := False\<rparr>)"
| main_terminates: "main s = AwaitDone \<Longrightarrow> ctx_done (br s) \<Longrightarrow> own_step opts fstep parse s (s\<lparr>main := Terminated\<rparr>)"
| main_flushed: "main s = Terminated \<Longrightarrow> writer s = WriterEnded \<Longrightarrow> own_step opts fstep parse s (s\<lparr>main := Flushed\<rparr>)"
| main_closes: "main s = Flushed \<Longrightarrow> ws = [] \<or> ws = final_text (br s) \<Longrightarrow>
    own_step opts fstep parse s (s\<lparr>main := SocketClosed, to_browser := to_browser s @ ws, socket := Some (closeCode (br s), final_reason (br s))\<rparr>)"
| main_finishes: "main s = SocketClosed \<Longrightarrow> reader s = ReaderEnded \<Longrightarrow> \<not> stdin_running s \<Longrightarrow> resizer s = ResizerEnded \<Longrightarrow>
    browser s = BrowserEnded \<Longrightarrow> \<not> pinging s \<Longrightarrow> own_step opts fstep parse s (s\<lparr>main := Finished\<rparr>)"

definition bridge_step ::
  "Options \<Rightarrow> ('f \<Rightarrow> string \<Rightarrow> 'f \<times> string) \<Rightarrow> (string \<Rightarrow> json option) \<Rightarrow> 'f session \<Rightarrow> 'f session \<Rightarrow> bool" where
  "bridge_step opts fstep parse s t \<longleftrightarrow> line_step opts fstep parse s t \<or> own_step opts fstep parse s t"

inductive bridge_reaches ::
  "Options \<Rightarrow> ('f \<Rightarrow> string \<Rightarrow> 'f \<times> string) \<Rightarrow> (string \<Rightarrow> json option) \<Rightarrow> 'f \<Rightarrow> 'f session \<Rightarrow> bool"
  for opts fstep parse f where
  started: "bridge_reaches opts fstep parse f (start_session opts f)"
| stepped: "bridge_reaches opts fstep parse f s \<Longrightarrow> bridge_step opts fstep parse s t \<Longrightarrow> bridge_reaches opts fstep parse f t"

end
