(* ===== verification/TerminalStreams.thy ===== *)
theory TerminalStreams
  imports TerminalBridge
begin

text \<open>
  Both directions of a terminal session as streams: what reaches the browser is the filtered output in order, what
  reaches the controller is the typed input in order.
\<close>

section \<open>What the handlers leave alone\<close>

lemma audit_simps [simp]:
  "br_filter (audit e b) = br_filter b" "outCh (audit e b) = outCh b" "stdinCh (audit e b) = stdinCh b" "resizeCh (audit e b) = resizeCh b"
  "lastSeq (audit e b) = lastSeq b" "haveSeq (audit e b) = haveSeq b" "ctx_done (audit e b) = ctx_done b" "closeSet (audit e b) = closeSet b"
  by (simp_all add: audit_def)

lemma setClose_simps [simp]:
  "br_filter (setClose c r m b) = br_filter b" "outCh (setClose c r m b) = outCh b" "stdinCh (setClose c r m b) = stdinCh b"
  "resizeCh (setClose c r m b) = resizeCh b" "lastSeq (setClose c r m b) = lastSeq b" "haveSeq (setClose c r m b) = haveSeq b"
  "ctx_done (setClose c r m b) = ctx_done b" "closeSet (setClose c r m b)"
  by (simp_all add: setClose_def)

lemma sendText_simps [simp]:
  "br_filter (sendText opts skip m b) = br_filter b" "stdinCh (sendText opts skip m b) = stdinCh b" "resizeCh (sendText opts skip m b) = resizeCh b"
  "lastSeq (sendText opts skip m b) = lastSeq b" "haveSeq (sendText opts skip m b) = haveSeq b" "ctx_done (sendText opts skip m b) = ctx_done b"
  by (simp_all add: sendText_def)

definition binary_of :: "outMsg list \<Rightarrow> string" where
  "binary_of ms = concat (map om_data (filter om_binary ms))"

lemma binary_of_simps [simp]:
  "binary_of [] = []" "binary_of (m # ms) = (if om_binary m then om_data m else []) @ binary_of ms" "binary_of (ms @ ns) = binary_of ms @ binary_of ns"
  by (simp_all add: binary_of_def)

lemma sendText_binary [simp]: "binary_of (outCh (sendText opts skip m b)) = binary_of (outCh b)"
  by (simp add: sendText_def)

definition queue_ok :: "Options \<Rightarrow> 'f bridge \<Rightarrow> bool" where
  "queue_ok opts b \<longleftrightarrow> int (length (outCh b)) \<le> OutQueue opts \<and> length (stdinCh b) \<le> 64"

lemma sendText_queue [simp]: "queue_ok opts b \<Longrightarrow> queue_ok opts (sendText opts skip m b)"
  by (auto simp: queue_ok_def sendText_def out_room_def)

lemma setClose_queue [simp]: "queue_ok opts (setClose c r m b) = queue_ok opts b" "queue_ok opts (audit e b) = queue_ok opts b"
  by (simp_all add: queue_ok_def)

fun held :: "reader_pc \<Rightarrow> string" where
  "held (Offering m) = binary_of [m]"
| "held (Waiting m) = binary_of [m]"
| "held _ = []"

text \<open>What one line of the controller does: it contributes a frame that passes the filter, or nothing.\<close>

definition same_channels :: "'f bridge \<Rightarrow> 'f bridge \<Rightarrow> bool" where
  "same_channels b b' \<longleftrightarrow> binary_of (outCh b') = binary_of (outCh b) \<and> stdinCh b' = stdinCh b \<and> resizeCh b' = resizeCh b \<and> ctx_done b' = ctx_done b"

lemma forward_frame_effect:
  assumes "forward_frame opts fstep skip rec raw b = (b', pc)"
  shows "same_channels b b' \<and> (queue_ok opts b \<longrightarrow> queue_ok opts b') \<and> fstep (br_filter b) raw = (br_filter b', held pc) \<and>
    haveSeq b' = haveSeq b \<and> lastSeq b' = lastSeq b \<and> pc \<noteq> ReaderEnded"
proof -
  have q: "queue_ok opts (b\<lparr>br_filter := f\<rparr>) = queue_ok opts b" for f by (simp add: queue_ok_def)
  show ?thesis using assms by (auto simp: forward_frame_def same_channels_def Let_def q split: prod.splits if_splits)
qed

definition line_effect ::
  "('f \<Rightarrow> string \<Rightarrow> 'f \<times> string) \<Rightarrow> (64 word \<times> string) list \<Rightarrow> 'f bridge \<Rightarrow> 'f bridge \<Rightarrow> reader_pc \<Rightarrow> bool" where
  "line_effect fstep fr b b' pc \<longleftrightarrow>
     (haveSeq b \<longrightarrow> haveSeq b' \<and> lastSeq b \<le> lastSeq b') \<and>
     (fr = [] \<and> br_filter b' = br_filter b \<and> held pc = [] \<or>
      (\<exists>q raw. fr = [(q, raw)] \<and> fstep (br_filter b) raw = (br_filter b', held pc) \<and> pc \<noteq> ReaderEnded \<and>
         (haveSeq b \<longrightarrow> lastSeq b < q) \<and> haveSeq b' \<and> lastSeq b' = q))"

lemma handleFrame_effect:
  assumes "handleFrame opts fstep skip rec b = (b', pc)"
  shows "same_channels b b' \<and> (queue_ok opts b \<longrightarrow> queue_ok opts b') \<and>
    line_effect fstep (if haveSeq b \<and> cr_Seq rec \<le> lastSeq b then [] else case decodeBytes rec of None \<Rightarrow> []
       | Some raw \<Rightarrow> if int (length raw) > MaxOutputFrameBytes opts then [] else [(cr_Seq rec, raw)]) b b' pc"
proof -
  let ?b = "b\<lparr>haveSeq := True, lastSeq := cr_Seq rec\<rparr>"
  have q: "queue_ok opts ?b = queue_ok opts b" by (simp add: queue_ok_def)
  show ?thesis
  proof (cases "haveSeq b \<and> cr_Seq rec \<le> lastSeq b")
    case True then show ?thesis using assms by (auto simp: handleFrame_def same_channels_def line_effect_def)
  next
    case late: False
    then have lt: "haveSeq b \<Longrightarrow> lastSeq b < cr_Seq rec" by auto
    show ?thesis
    proof (cases "\<exists>raw. decodeBytes rec = Some raw \<and> int (length raw) \<le> MaxOutputFrameBytes opts")
      case True
      then obtain raw where raw: "decodeBytes rec = Some raw" "int (length raw) \<le> MaxOutputFrameBytes opts" by blast
      then have "forward_frame opts fstep skip rec raw ?b = (b', pc)" using assms late by (simp add: handleFrame_def)
      from forward_frame_effect [OF this] show ?thesis using raw late lt q by (auto simp: same_channels_def line_effect_def)
    next
      case False
      then show ?thesis using assms late lt q by (force simp: handleFrame_def same_channels_def line_effect_def Let_def split: option.splits if_splits)
    qed
  qed
qed

lemma readController_effect:
  assumes "readController opts fstep parse skip line b = (b', pc)"
  shows "same_channels b b' \<and> (queue_ok opts b \<longrightarrow> queue_ok opts b') \<and> line_effect fstep (frame_of opts parse line b) b b' pc"
proof (cases "line = []")
  case True then show ?thesis using assms
    by (auto simp: readController_def same_channels_def line_effect_def frame_of_def split: option.splits)
next
  case ne: False
  show ?thesis
  proof (cases "\<exists>rec. Option.bind (parse line) decode_record = Some rec \<and> cr_Type rec = recordFrame")
    case True
    then obtain rec where rec: "Option.bind (parse line) decode_record = Some rec" "cr_Type rec = recordFrame" by blast
    then have "handleFrame opts fstep skip rec b = (b', pc)" using assms ne by (simp add: readController_def)
    from handleFrame_effect [OF this] show ?thesis using rec ne by (simp add: frame_of_def)
  next
    case False
    then have "frame_of opts parse line b = []" by (auto simp: frame_of_def split: option.splits)
    then show ?thesis using assms ne False
      by (auto simp: readController_def handleControllerClosed_def same_channels_def line_effect_def split: option.splits if_splits)
  qed
qed

section \<open>Output: what the browser gets is the filtered stream\<close>

text \<open>\<open>g\<close> continues a filter \<open>f\<close> that has consumed \<open>c\<close> and emitted \<open>out\<close>.\<close>

definition continues :: "('f \<Rightarrow> string \<Rightarrow> 'f \<times> string) \<Rightarrow> 'f \<Rightarrow> string \<Rightarrow> 'f \<Rightarrow> string \<Rightarrow> bool" where
  "continues fstep f c g out \<longleftrightarrow> (\<forall>q. fstep f (c @ q) = (fst (fstep g q), out @ snd (fstep g q)))"

definition consumed :: "'f session \<Rightarrow> string" where
  "consumed s = concat (map snd (frames_in s))"

definition on_its_way :: "'f session \<Rightarrow> string \<Rightarrow> string" where
  "on_its_way s lost =
     binary_of (to_browser s) @ (if writer s = WriterEnded then lost else binary_of (outCh (br s)) @ held (reader s) @ lost)"

definition output_inv :: "('f \<Rightarrow> string \<Rightarrow> 'f \<times> string) \<Rightarrow> 'f \<Rightarrow> 'f session \<Rightarrow> bool" where
  "output_inv fstep f s \<longleftrightarrow>
     (\<exists>lost. continues fstep f (consumed s) (br_filter (br s)) (on_its_way s lost) \<and>
        (lost \<noteq> [] \<longrightarrow> reader s = ReaderEnded \<or> writer s = WriterEnded))"

lemma final_text_binary: "ws = [] \<or> ws = final_text b \<Longrightarrow> binary_of ws = []"
  by (auto simp: final_text_def)

text \<open>The contract of the filter is \<open>stream_filter\<close>: it may be given its input in pieces.\<close>

context stream_filter
begin

lemma continues_step:
  assumes "continues filt f c g out" "filt g raw = (h, out')"
  shows "continues filt f (c @ raw) h (out @ out')"
  using assms filt_append [of g raw] by (simp add: continues_def Let_def split: prod.splits)

lemma output_inv_line:
  assumes "output_inv filt f s" "reader s = Scanning" "readController opts filt parse skip line (br s) = (b, pc)"
  shows "output_inv filt f (s\<lparr>br := b, reader := pc, frames_in := frames_in s @ frame_of opts parse line (br s)\<rparr>)"
proof -
  let ?t = "s\<lparr>br := b, reader := pc, frames_in := frames_in s @ frame_of opts parse line (br s)\<rparr>"
  obtain lost where l: "continues filt f (consumed s) (br_filter (br s)) (on_its_way s lost)" "lost \<noteq> [] \<longrightarrow> writer s = WriterEnded"
    using assms(1,2) by (auto simp: output_inv_def)
  have e: "same_channels (br s) b" "line_effect filt (frame_of opts parse line (br s)) (br s) b pc"
    using readController_effect [OF assms(3)] by auto
  have way: "on_its_way ?t lost' = on_its_way s (if writer s = WriterEnded then lost' else held pc @ lost')" for lost'
    using assms(2) e(1) by (simp add: on_its_way_def same_channels_def)
  show ?thesis
  proof (cases "frame_of opts parse line (br s) = []")
    case True
    then have "continues filt f (consumed ?t) (br_filter (br ?t)) (on_its_way ?t lost)"
      using l e(2) way by (simp add: line_effect_def consumed_def)
    then show ?thesis using l(2) by (auto simp: output_inv_def)
  next
    case False
    then obtain q raw where fr: "frame_of opts parse line (br s) = [(q, raw)]" "filt (br_filter (br s)) raw = (br_filter b, held pc)"
      using e(2) by (auto simp: line_effect_def)
    let ?lost = "if writer s = WriterEnded then lost @ held pc else lost"
    have "continues filt f (consumed ?t) (br_filter (br ?t)) (on_its_way s lost @ held pc)"
      using continues_step [OF l(1) fr(2)] fr(1) by (simp add: consumed_def)
    moreover have "on_its_way s lost @ held pc = on_its_way ?t ?lost"
      using l(2) assms(2) unfolding way by (auto simp: on_its_way_def)
    ultimately show ?thesis using l(2) unfolding output_inv_def by (intro exI [of _ ?lost]) auto
  qed
qed

lemma output_inv_same:
  assumes "output_inv filt f s" "frames_in t = frames_in s" "br_filter (br t) = br_filter (br s)"
    and "binary_of (to_browser t) = binary_of (to_browser s)" "binary_of (outCh (br t)) = binary_of (outCh (br s))"
    and "held (reader t) = held (reader s)" "writer t = WriterEnded \<longleftrightarrow> writer s = WriterEnded" "reader s = ReaderEnded \<longrightarrow> reader t = ReaderEnded"
  shows "output_inv filt f t"
proof -
  have "on_its_way t lost = on_its_way s lost" for lost using assms by (simp add: on_its_way_def)
  then show ?thesis using assms by (auto simp: output_inv_def consumed_def)
qed

lemma output_inv_moved:
  assumes "output_inv filt f s" "frames_in t = frames_in s" "br_filter (br t) = br_filter (br s)"
    and "\<And>lost. lost \<noteq> [] \<longrightarrow> reader s = ReaderEnded \<or> writer s = WriterEnded \<Longrightarrow> \<exists>lost'. on_its_way t lost' = on_its_way s lost \<and>
      (lost' \<noteq> [] \<longrightarrow> reader t = ReaderEnded \<or> writer t = WriterEnded)"
  shows "output_inv filt f t"
  using assms unfolding output_inv_def consumed_def by metis

lemma output_inv_own:
  assumes "own_step opts filt parse s t" "output_inv filt f s"
  shows "output_inv filt f t"
  using assms
proof (cases rule: own_step.cases)
  case (reader_queued m)
  then show ?thesis using assms(2) by (intro output_inv_moved [OF assms(2)]) (auto simp: on_its_way_def)
next
  case (reader_gives_up m)
  then show ?thesis using assms(2) by (intro output_inv_moved [OF assms(2)]) (auto simp: on_its_way_def)
next
  case (reader_times_out m)
  then show ?thesis using assms(2) by (intro output_inv_moved [OF assms(2)]) (auto simp: on_its_way_def)
next
  case (writer_writes m ms)
  then show ?thesis using assms(2) by (intro output_inv_moved [OF assms(2)]) (auto simp: on_its_way_def)
next
  case (writer_fails m ms)
  then show ?thesis using assms(2) by (intro output_inv_moved [OF assms(2)]) (auto simp: on_its_way_def)
next
  case writer_drained
  then show ?thesis using assms(2) by (intro output_inv_moved [OF assms(2)]) (auto simp: on_its_way_def)
next
  case (browser_input data b pc)
  then show ?thesis by (intro output_inv_same [OF assms(2)]) (auto simp: handleInput_def split: if_splits)
next
  case (browser_command skip data b pc)
  then show ?thesis by (intro output_inv_same [OF assms(2)])
      (auto simp: handleCommand_def pushResize_def Let_def split: option.splits if_splits)
next
  case (main_closes ws)
  then show ?thesis by (intro output_inv_same [OF assms(2)]) (auto simp: final_text_binary)
qed (intro output_inv_same [OF assms(2)]; auto simp: stream_ended_def)+

lemma output_inv_step: "bridge_step opts filt parse s t \<Longrightarrow> output_inv filt f s \<Longrightarrow> output_inv filt f t"
  by (auto simp: bridge_step_def output_inv_own output_inv_line elim!: line_step.cases)

lemma output_inv_start: "output_inv filt f (start_session opts f)"
  by (simp add: output_inv_def continues_def consumed_def on_its_way_def start_session_def Run_bridge_def)

lemma output_inv_reaches: "bridge_reaches opts filt parse f s \<Longrightarrow> output_inv filt f s"
  by (induction rule: bridge_reaches.induct) (auto intro: output_inv_start output_inv_step)

lemma delivered_prefix:
  assumes "bridge_reaches opts filt parse f s"
  shows "\<exists>rest. snd (filt f (consumed s)) = binary_of (to_browser s) @ rest"
  using output_inv_reaches [OF assms] filt_nil unfolding output_inv_def continues_def on_its_way_def
  by (metis append.assoc append_Nil2 snd_conv)

end

section \<open>Input: what the controller gets is what the browser typed\<close>

definition input_of_command :: "controllerCommand \<Rightarrow> string list" where
  "input_of_command c = (if cmd_Type c = cmdInput then (case StdDecode (cmd_Bytes c) of None \<Rightarrow> [] | Some d \<Rightarrow> [d]) else [])"

definition inputs_of :: "controllerCommand list \<Rightarrow> string list" where
  "inputs_of cs = concat (map input_of_command cs)"

lemma inputs_of_simps [simp]:
  "inputs_of [] = []" "inputs_of (c # cs) = input_of_command c @ inputs_of cs" "inputs_of (cs @ ds) = inputs_of cs @ inputs_of ds"
  by (simp_all add: inputs_of_def)

lemma input_of_commands [simp]:
  "input_of_command (inputBytesCommand d) = [d]" "input_of_command (resizeCommand a b' c d') = []"
  "input_of_command (scrollCommand x n src) = []" "input_of_command releaseCommand = []"
  by (simp_all add: input_of_command_def inputBytesCommand_def resizeCommand_def scrollCommand_def releaseCommand_def no_command_def
      cmdInput_def cmdResize_def cmdScroll_def cmdRelease_def)

fun sending :: "browser_pc \<Rightarrow> controllerCommand list" where
  "sending (Sending c) = [c]"
| "sending _ = []"

definition resize_ok :: "controllerCommand \<Rightarrow> bool" where
  "resize_ok c \<longleftrightarrow> (\<exists>cols rows w h. c = resizeCommand cols rows w h \<and> 0 < cols \<and> cols \<le> 10000 \<and> 0 < rows \<and> rows \<le> 10000)"

definition command_ok :: "Options \<Rightarrow> controllerCommand \<Rightarrow> bool" where
  "command_ok opts c \<longleftrightarrow> resize_ok c \<or> c = releaseCommand \<or>
     (\<exists>data. c = inputBytesCommand data \<and> data \<noteq> [] \<and> int (length data) \<le> MaxInputBytes opts) \<or>
     (\<exists>d n src. c = scrollCommand d n src \<and> d \<in> {''up'', ''down''} \<and> 1 \<le> n \<and> n \<le> 10000 \<and> src \<noteq> [])"

fun resizer_holds :: "resizer_pc \<Rightarrow> controllerCommand list" where
  "resizer_holds (Coalescing (Some c)) = [c]"
| "resizer_holds (Passing c) = [c]"
| "resizer_holds _ = []"

definition dims_ok :: "browserCommand \<Rightarrow> bool" where
  "dims_ok rc \<longleftrightarrow> 0 < bc_Cols rc \<and> bc_Cols rc \<le> 10000 \<and> 0 < bc_Rows rc \<and> bc_Rows rc \<le> 10000"

definition commands_inv :: "Options \<Rightarrow> 'f session \<Rightarrow> bool" where
  "commands_inv opts s \<longleftrightarrow>
     list_all (command_ok opts) (to_controller s @ stdinCh (br s) @ sending (browser s)) \<and>
     list_all resize_ok (resizer_holds (resizer s)) \<and> (\<forall>rc. resizeCh (br s) = Some rc \<longrightarrow> dims_ok rc)"

definition handed_over :: "'f session \<Rightarrow> string list \<Rightarrow> string list" where
  "handed_over s lost = inputs_of (to_controller s) @
     (if stdin_running s then inputs_of (stdinCh (br s)) @ inputs_of (sending (browser s)) @ lost else lost)"

definition may_lose :: "'f session \<Rightarrow> string list \<Rightarrow> bool" where
  "may_lose s lost \<longleftrightarrow> (lost \<noteq> [] \<longrightarrow> \<not> stdin_running s \<or> ctx_done (br s) \<and> browser s \<in> {Checking, BrowserEnded})"

definition input_inv :: "'f session \<Rightarrow> bool" where
  "input_inv s \<longleftrightarrow> (\<exists>lost. inputs_in s = handed_over s lost \<and> may_lose s lost)"

lemma command_ok_input: "data \<noteq> [] \<Longrightarrow> \<not> MaxInputBytes opts < int (length data) \<Longrightarrow> command_ok opts (inputBytesCommand data)"
  unfolding command_ok_def by (metis linorder_not_less)

lemma command_ok_scroll:
  "d = ''up'' \<or> d = ''down'' \<Longrightarrow> 1 \<le> n \<Longrightarrow> n \<le> 10000 \<Longrightarrow> src \<noteq> [] \<Longrightarrow> command_ok opts (scrollCommand d n src)"
  unfolding command_ok_def by blast

lemma handleInput_effect:
  assumes "handleInput opts data b = (b', pc)"
  shows "outCh b' = outCh b \<and> stdinCh b' = stdinCh b \<and> resizeCh b' = resizeCh b \<and> ctx_done b' = ctx_done b \<and> haveSeq b' = haveSeq b \<and> lastSeq b' = lastSeq b \<and>
    pc \<noteq> Reading \<and> inputs_of (sending pc) = input_of opts data \<and> list_all (command_ok opts) (sending pc)"
  using assms by (auto simp: handleInput_def input_of_def intro: command_ok_input split: if_splits)

lemma handleCommand_effect:
  assumes "handleCommand opts parse skip data b = (b', pc)"
  shows "(queue_ok opts b \<longrightarrow> queue_ok opts b') \<and> stdinCh b' = stdinCh b \<and> ctx_done b' = ctx_done b \<and> haveSeq b' = haveSeq b \<and> lastSeq b' = lastSeq b \<and>
    pc \<noteq> Reading \<and> inputs_of (sending pc) = [] \<and> list_all (command_ok opts) (sending pc) \<and>
    (\<forall>rc. resizeCh b' = Some rc \<longrightarrow> resizeCh b = Some rc \<or> dims_ok rc)"
proof -
  have q: "queue_ok opts (pushResize c b) = queue_ok opts b" for c and b :: "'a bridge" by (simp add: queue_ok_def pushResize_def)
  have p: "stdinCh (pushResize c b) = stdinCh b" "ctx_done (pushResize c b) = ctx_done b" "haveSeq (pushResize c b) = haveSeq b"
    "lastSeq (pushResize c b) = lastSeq b" "resizeCh (pushResize c b) = Some c" for c and b :: "'a bridge" by (simp_all add: pushResize_def)
  show ?thesis using assms
    by (auto simp: handleCommand_def q p command_ok_def [of _ releaseCommand] dims_ok_def maxScrollLines_def Let_def intro!: command_ok_scroll
        split: option.splits if_splits)
qed

lemma command_ok_resize: "resize_ok c \<Longrightarrow> command_ok opts c"
  by (simp add: command_ok_def)

lemma resize_no_input: "resize_ok c \<Longrightarrow> input_of_command c = []"
  by (auto simp: resize_ok_def)

lemma commands_inv_line: "line_step opts fstep parse s t \<Longrightarrow> commands_inv opts s \<Longrightarrow> commands_inv opts t"
  by (auto simp: commands_inv_def same_channels_def elim!: line_step.cases dest!: readController_effect)

lemma commands_inv_own:
  assumes "own_step opts fstep parse s t" "commands_inv opts s"
  shows "commands_inv opts t"
  using assms
proof (cases rule: own_step.cases)
  case (resizer_takes p rc)
  then show ?thesis using assms(2) by (auto simp: commands_inv_def dims_ok_def resize_ok_def)
next
  case (resizer_passes c)
  then show ?thesis using assms(2) by (auto simp: commands_inv_def command_ok_resize)
next
  case (browser_input data b pc)
  then show ?thesis using assms(2) handleInput_effect [OF browser_input(4)] by (auto simp: commands_inv_def)
next
  case (browser_command skip data b pc)
  then show ?thesis using assms(2) handleCommand_effect [OF browser_command(4)] by (auto simp: commands_inv_def)
qed (auto simp: commands_inv_def stream_ended_def)

lemma commands_inv_reaches: "bridge_reaches opts fstep parse f s \<Longrightarrow> commands_inv opts s"
proof (induction rule: bridge_reaches.induct)
  case started
  show ?case by (simp add: commands_inv_def start_session_def Run_bridge_def)
qed (auto simp: bridge_step_def intro: commands_inv_line commands_inv_own)

lemma input_inv_moved:
  assumes "input_inv s" "inputs_in t = inputs_in s @ new"
    and "\<And>lost. may_lose s lost \<Longrightarrow> \<exists>lost'. handed_over t lost' = handed_over s lost @ new \<and> may_lose t lost'"
  shows "input_inv t"
  using assms unfolding input_inv_def by metis

lemma input_inv_same:
  assumes "input_inv s" "inputs_in t = inputs_in s" "to_controller t = to_controller s" "stdin_running t = stdin_running s"
    "stdinCh (br t) = stdinCh (br s)" "inputs_of (sending (browser t)) = inputs_of (sending (browser s))"
    "\<And>lost. may_lose s lost \<Longrightarrow> may_lose t lost"
  shows "input_inv t"
proof -
  have "handed_over t lost = handed_over s lost" for lost using assms(3-6) by (simp add: handed_over_def)
  then show ?thesis using assms(1,2,7) unfolding input_inv_def by auto
qed

lemma input_inv_line: "line_step opts fstep parse s t \<Longrightarrow> input_inv s \<Longrightarrow> input_inv t"
  by (erule line_step.cases, rule input_inv_same) (auto simp: same_channels_def may_lose_def dest!: readController_effect)

lemma input_inv_own:
  assumes "own_step opts fstep parse s t" "input_inv s" "commands_inv opts s"
  shows "input_inv t"
  using assms
proof (cases rule: own_step.cases)
  case (stdin_writes c cs)
  then show ?thesis by (intro input_inv_moved [OF assms(2), of _ "[]"]) (auto simp: handed_over_def may_lose_def)
next
  case (stdin_fails c cs)
  then show ?thesis by (intro input_inv_moved [OF assms(2), of _ "[]"]) (auto simp: handed_over_def may_lose_def)
next
  case stdin_sees_done
  then show ?thesis by (intro input_inv_moved [OF assms(2), of _ "[]"]) (auto simp: handed_over_def may_lose_def)
next
  case (resizer_passes c)
  then have "input_of_command c = []" using assms(3) by (intro resize_no_input) (auto simp: commands_inv_def)
  then show ?thesis using resizer_passes by (intro input_inv_moved [OF assms(2), of _ "[]"]) (auto simp: handed_over_def may_lose_def)
next
  case (browser_input data b pc)
  then show ?thesis using handleInput_effect [OF browser_input(4)]
    by (intro input_inv_moved [OF assms(2), of _ "input_of opts data"]) (auto simp: handed_over_def may_lose_def)
next
  case (browser_command skip data b pc)
  then show ?thesis using handleCommand_effect [OF browser_command(4)] by (intro input_inv_same [OF assms(2)]) (auto simp: may_lose_def)
next
  case (browser_sends c)
  then show ?thesis by (intro input_inv_moved [OF assms(2), of _ "[]"]) (auto simp: handed_over_def may_lose_def)
next
  case (browser_drops c)
  then show ?thesis by (intro input_inv_moved [OF assms(2), of _ "[]"]) (auto simp: handed_over_def may_lose_def)
qed (intro input_inv_same [OF assms(2)]; auto simp: may_lose_def stream_ended_def)+

lemma input_inv_reaches: "bridge_reaches opts fstep parse f s \<Longrightarrow> input_inv s"
proof (induction rule: bridge_reaches.induct)
  case started
  show ?case by (simp add: input_inv_def handed_over_def may_lose_def start_session_def Run_bridge_def)
next
  case (stepped s t)
  then show ?case using input_inv_own [OF _ stepped(3) commands_inv_reaches [OF stepped(1)]] input_inv_line by (auto simp: bridge_step_def)
qed

end
