(* ===== verification/TerminalSession.thy ===== *)
theory TerminalSession
  imports TerminalStreams
begin

text \<open>
  Bounds, order and shutdown of a terminal session, and its properties.
\<close>

section \<open>Bounds, order and shutdown\<close>

definition frames_inv :: "'f session \<Rightarrow> bool" where
  "frames_inv s \<longleftrightarrow> sorted_wrt (<) (map fst (frames_in s)) \<and> (\<forall>q\<in>fst ` set (frames_in s). haveSeq (br s) \<and> q \<le> lastSeq (br s))"

definition control_inv :: "'f session \<Rightarrow> bool" where
  "control_inv s \<longleftrightarrow>
     (main s \<noteq> AwaitDone \<longrightarrow> ctx_done (br s)) \<and> (main s \<in> {Flushed, SocketClosed, Finished} \<longrightarrow> writer s = WriterEnded) \<and>
     (socket s \<noteq> None \<longleftrightarrow> main s \<in> {SocketClosed, Finished}) \<and>
     (main s = Finished \<longrightarrow> reader s = ReaderEnded \<and> \<not> stdin_running s \<and> resizer s = ResizerEnded \<and> browser s = BrowserEnded \<and> \<not> pinging s)"

definition session_inv :: "Options \<Rightarrow> 'f session \<Rightarrow> bool" where
  "session_inv opts s \<longleftrightarrow> queue_ok opts (br s) \<and> frames_inv s \<and> control_inv s"

lemma session_inv_line:
  assumes "line_step opts fstep parse s t" "session_inv opts s"
  shows "session_inv opts t"
  using assms(1)
proof (cases rule: line_step.cases)
  case (reader_line skip line b pc)
  have e: "same_channels (br s) b" "queue_ok opts (br s) \<longrightarrow> queue_ok opts b" "line_effect fstep (frame_of opts parse line (br s)) (br s) b pc"
    using readController_effect [OF reader_line(3)] by auto
  have "frames_inv t"
  proof (cases "frame_of opts parse line (br s)")
    case Nil then show ?thesis using e(3) assms(2) reader_line by (fastforce simp: session_inv_def frames_inv_def line_effect_def)
  next
    case (Cons x xs)
    then obtain q raw where "frame_of opts parse line (br s) = [(q, raw)]" "haveSeq (br s) \<longrightarrow> lastSeq (br s) < q" "haveSeq b" "lastSeq b = q"
      using e(3) by (auto simp: line_effect_def)
    then show ?thesis using assms(2) reader_line by (fastforce simp: session_inv_def frames_inv_def sorted_wrt_append)
  qed
  then show ?thesis using assms(2) e reader_line by (auto simp: session_inv_def control_inv_def same_channels_def)
qed

lemma queue_ok_shrinks: "queue_ok opts b \<Longrightarrow> length (outCh b') \<le> length (outCh b) \<Longrightarrow> length (stdinCh b') \<le> length (stdinCh b) \<Longrightarrow> queue_ok opts b'"
  by (auto simp: queue_ok_def)

lemma queue_ok_own:
  assumes "own_step opts fstep parse s t" "queue_ok opts (br s)"
  shows "queue_ok opts (br t)"
  using assms(1)
proof (cases rule: own_step.cases)
  case (browser_input data b pc)
  then show ?thesis using assms(2) handleInput_effect [OF browser_input(4)] by (auto intro: queue_ok_shrinks)
next
  case (browser_command skip data b pc)
  then show ?thesis using assms(2) handleCommand_effect [OF browser_command(4)] by simp
qed (use assms(2) in \<open>auto simp: queue_ok_def stream_ended_def out_room_def stdin_room_def\<close>)

lemma frames_inv_own:
  assumes "own_step opts fstep parse s t" "frames_inv s"
  shows "frames_inv t"
  using assms(1)
proof (cases rule: own_step.cases)
  case (browser_input data b pc)
  then show ?thesis using assms(2) handleInput_effect [OF browser_input(4)] by (auto simp: frames_inv_def)
next
  case (browser_command skip data b pc)
  then show ?thesis using assms(2) handleCommand_effect [OF browser_command(4)] by (auto simp: frames_inv_def)
qed (use assms(2) in \<open>auto simp: frames_inv_def stream_ended_def\<close>)

lemma control_inv_own:
  assumes "own_step opts fstep parse s t" "control_inv s"
  shows "control_inv t"
  using assms(1)
proof (cases rule: own_step.cases)
  case (browser_input data b pc)
  then show ?thesis using assms(2) handleInput_effect [OF browser_input(4)] by (auto simp: control_inv_def)
next
  case (browser_command skip data b pc)
  then show ?thesis using assms(2) handleCommand_effect [OF browser_command(4)] by (auto simp: control_inv_def)
qed (use assms(2) in \<open>auto simp: control_inv_def stream_ended_def\<close>)

lemma session_inv_reaches: "bridge_reaches opts fstep parse f s \<Longrightarrow> 0 < OutQueue opts \<Longrightarrow> session_inv opts s"
proof (induction rule: bridge_reaches.induct)
  case started
  then show ?case by (simp add: session_inv_def queue_ok_def frames_inv_def control_inv_def start_session_def Run_bridge_def sendText_def out_room_def)
next
  case (stepped s t)
  then show ?case using session_inv_line [of opts fstep parse s t] queue_ok_own [of opts fstep parse s t] frames_inv_own [of opts fstep parse s t]
      control_inv_own [of opts fstep parse s t] by (auto simp: bridge_step_def session_inv_def)
qed

section \<open>After cancellation the bridge winds down\<close>

text \<open>A bound on the steps that are left once the context is done.\<close>

fun reader_work :: "reader_pc \<Rightarrow> nat" where
  "reader_work Scanning = 1" | "reader_work (Offering m) = 4" | "reader_work (Waiting m) = 3" | "reader_work ReaderEnded = 0"

fun writer_work :: "writer_pc \<Rightarrow> nat" where
  "writer_work Writing = 2" | "writer_work Draining = 1" | "writer_work WriterEnded = 0"

fun resizer_work :: "resizer_pc \<Rightarrow> nat" where
  "resizer_work (Coalescing None) = 1" | "resizer_work (Coalescing (Some c)) = 4" | "resizer_work (Passing c) = 3" | "resizer_work ResizerEnded = 0"

fun browser_work :: "browser_pc \<Rightarrow> nat" where
  "browser_work Checking = 1" | "browser_work Reading = 6" | "browser_work (Sending c) = 3" | "browser_work BrowserEnded = 0"

fun main_work :: "main_pc \<Rightarrow> nat" where
  "main_work AwaitDone = 4" | "main_work Terminated = 3" | "main_work Flushed = 2" | "main_work SocketClosed = 1" | "main_work Finished = 0"

definition channel_work :: "'f bridge \<Rightarrow> nat" where
  "channel_work b = length (outCh b) + length (stdinCh b) + (case resizeCh b of None \<Rightarrow> 0 | Some rc \<Rightarrow> 4)"

definition work :: "'f session \<Rightarrow> nat" where
  "work s = channel_work (br s) + reader_work (reader s) + writer_work (writer s) + (if stdin_running s then 1 else 0) +
     resizer_work (resizer s) + browser_work (browser s) + (if pinging s then 1 else 0) + main_work (main s)"

lemma channel_work_simps [simp]:
  "channel_work (audit e b) = channel_work b" "channel_work (setClose c r m b) = channel_work b"
  "channel_work (b\<lparr>br_filter := f\<rparr>) = channel_work b" "channel_work (b\<lparr>haveSeq := h, lastSeq := q\<rparr>) = channel_work b"
  by (simp_all add: channel_work_def)

lemma channel_work_grows:
  "channel_work (sendText opts skip m b) \<le> channel_work b + 1" "channel_work (pushResize rc b) \<le> channel_work b + 4"
  by (simp_all add: channel_work_def sendText_def pushResize_def split: option.split)

lemma forward_frame_work:
  assumes "forward_frame opts fstep skip rec raw b = (b', pc)" shows "channel_work b' + reader_work pc \<le> channel_work b + 5"
proof -
  have "channel_work b' \<le> channel_work b + 1"
    using assms channel_work_grows(1) [of opts skip _ "b\<lparr>br_filter := fst (fstep (br_filter b) raw)\<rparr>"]
    by (auto simp: forward_frame_def Let_def split: prod.splits if_splits)
  moreover have "reader_work pc \<le> 4" by (cases pc) auto
  ultimately show ?thesis by simp
qed

lemma readController_work:
  assumes "readController opts fstep parse skip line b = (b', pc)" shows "channel_work b' + reader_work pc \<le> channel_work b + 5"
  using assms forward_frame_work [of opts fstep skip _ _ "b\<lparr>haveSeq := True, lastSeq := _\<rparr>" b' pc]
  by (auto simp: readController_def handleFrame_def handleControllerClosed_def Let_def split: option.splits if_splits)

lemma work_line: "line_step opts fstep parse s t \<Longrightarrow> work t \<le> work s + 4"
  by (auto simp: work_def elim!: line_step.cases dest!: readController_work)

lemma handleInput_work:
  assumes "handleInput opts data b = (b', pc)" shows "channel_work b' + browser_work pc < channel_work b + 6"
  using assms by (auto simp: handleInput_def split: if_splits)

lemma handleCommand_work:
  assumes "handleCommand opts parse skip data b = (b', pc)" shows "channel_work b' + browser_work pc < channel_work b + 6"
proof -
  have "channel_work (sendText opts skip m b) + 1 < channel_work b + 6" "channel_work (pushResize rc (audit e b)) + 1 < channel_work b + 6" for m rc e
    using channel_work_grows(1) [of opts skip m b] channel_work_grows(2) [of rc "audit e b"] by simp_all
  then show ?thesis using assms by (auto simp: handleCommand_def Let_def split: option.splits if_splits)
qed

lemma work_decreases:
  assumes "own_step opts fstep parse s t" "ctx_done (br s)" "t \<noteq> s"
  shows "work t < work s"
  using assms(1)
proof (cases rule: own_step.cases)
  case (browser_input data b pc)
  then show ?thesis using handleInput_work [OF browser_input(4)] by (simp add: work_def)
next
  case (browser_command skip data b pc)
  then show ?thesis using handleCommand_work [OF browser_command(4)] by (simp add: work_def)
next
  case (resizer_takes p rc)
  then show ?thesis by (cases p) (auto simp: work_def channel_work_def)
next
  case (resizer_sees_done p)
  then show ?thesis by (cases p) (auto simp: work_def channel_work_def)
qed (use assms(2,3) in \<open>auto simp: work_def channel_work_def stream_ended_def\<close>)

lemma own_step_possible:
  assumes "control_inv s" "ctx_done (br s)" "main s \<noteq> Finished"
  shows "\<exists>t. own_step opts fstep parse s t \<and> t \<noteq> s"
proof -
  consider (rd) "reader s \<noteq> ReaderEnded" | (wr) "writer s \<noteq> WriterEnded" | (sd) "stdin_running s" | (rs) "resizer s \<noteq> ResizerEnded"
    | (bw) "browser s \<noteq> BrowserEnded" | (pg) "pinging s"
    | (mn) "reader s = ReaderEnded" "writer s = WriterEnded" "\<not> stdin_running s" "resizer s = ResizerEnded" "browser s = BrowserEnded" "\<not> pinging s"
    by blast
  then obtain t where "own_step opts fstep parse s t" "work t < work s"
  proof cases
    case rd
    then show ?thesis using assms(2) that [OF own_step.reader_eof] that [OF own_step.reader_gives_up]
      by (cases "reader s") (auto simp: work_def stream_ended_def)
  next
    case wr
    then show ?thesis using assms(2) that [OF own_step.writer_sees_done] that [OF own_step.writer_drained] that [OF own_step.writer_fails]
      by (cases "writer s"; cases "outCh (br s)") (auto simp: work_def channel_work_def)
  next
    case sd
    then show ?thesis using assms(2) that [OF own_step.stdin_sees_done] by (auto simp: work_def)
  next
    case rs
    then show ?thesis using assms(2) that [OF own_step.resizer_sees_done] that [OF own_step.resizer_drops]
      by (cases "resizer s" rule: resizer_work.cases) (auto simp: work_def)
  next
    case bw
    then show ?thesis using assms(2) that [OF own_step.browser_sees_done] that [OF own_step.browser_no_deadline] that [OF own_step.browser_drops]
      by (cases "browser s") (auto simp: work_def)
  next
    case pg
    then show ?thesis using assms(2) that [OF own_step.ping_sees_done] by (auto simp: work_def)
  next
    case mn
    then show ?thesis using assms that [OF own_step.main_terminates] that [OF own_step.main_flushed] that [OF own_step.main_closes, of "[]"]
        that [OF own_step.main_finishes] by (cases "main s") (auto simp: work_def)
  qed
  then show ?thesis by blast
qed

lemma ctx_done_stays: "bridge_step opts fstep parse s t \<Longrightarrow> ctx_done (br s) \<Longrightarrow> ctx_done (br t)"
  by (auto simp: bridge_step_def same_channels_def stream_ended_def elim!: line_step.cases own_step.cases
      dest!: readController_effect handleInput_effect handleCommand_effect)

lemma work_bound:
  assumes "queue_ok opts (br s)"
  shows "int (work s) \<le> OutQueue opts + 90"
proof -
  have "reader_work (reader s) \<le> 4" "writer_work (writer s) \<le> 2" "browser_work (browser s) \<le> 6" "main_work (main s) \<le> 4"
    by (cases "reader s"; cases "writer s"; cases "browser s"; cases "main s"; simp)+
  moreover have "resizer_work (resizer s) \<le> 4" by (cases "resizer s" rule: resizer_work.cases) auto
  moreover have "int (channel_work (br s)) \<le> OutQueue opts + 68" using assms by (auto simp: queue_ok_def channel_work_def split: option.split)
  ultimately show ?thesis by (simp add: work_def)
qed

lemma run_work:
  assumes "ctx_done (br (run 0))"
    "\<forall>i<n. line_step opts fstep parse (run i) (run (Suc i)) \<or> own_step opts fstep parse (run i) (run (Suc i)) \<and> run (Suc i) \<noteq> run i"
  shows "ctx_done (br (run n)) \<and>
    card {i. i < n \<and> \<not> line_step opts fstep parse (run i) (run (Suc i))} + work (run n) \<le>
      work (run 0) + 4 * card {i. i < n \<and> line_step opts fstep parse (run i) (run (Suc i))}"
  using assms(2)
proof (induction n)
  case (Suc n)
  let ?l = "\<lambda>i. line_step opts fstep parse (run i) (run (Suc i))"
  have IH: "ctx_done (br (run n))" "card {i. i < n \<and> \<not> ?l i} + work (run n) \<le> work (run 0) + 4 * card {i. i < n \<and> ?l i}"
    using Suc by auto
  have step: "?l n \<or> own_step opts fstep parse (run n) (run (Suc n)) \<and> run (Suc n) \<noteq> run n" using Suc.prems by simp
  have sets: "{i. i < Suc n \<and> P i} = (if P n then insert n {i. i < n \<and> P i} else {i. i < n \<and> P i})" for P
    by (auto simp: less_Suc_eq)
  have "ctx_done (br (run (Suc n)))" using step ctx_done_stays [OF _ IH(1)] by (auto simp: bridge_step_def)
  moreover have "work (run (Suc n)) \<le> work (run n) + (if ?l n then 4 else 0)" "\<not> ?l n \<Longrightarrow> work (run (Suc n)) < work (run n)"
    using step work_line work_decreases [OF _ IH(1)] by fastforce+
  ultimately show ?case unfolding sets using IH(2) by auto
qed (use assms(1) in simp)

lemma run_reaches:
  assumes "bridge_reaches opts fstep parse f (run 0)"
    "\<forall>i<n. line_step opts fstep parse (run i) (run (Suc i)) \<or> own_step opts fstep parse (run i) (run (Suc i)) \<and> run (Suc i) \<noteq> run i"
  shows "bridge_reaches opts fstep parse f (run n)"
  using assms(2)
proof (induction n)
  case (Suc n)
  then have "bridge_step opts fstep parse (run n) (run (Suc n))" by (auto simp: bridge_step_def)
  then show ?case using Suc by (auto intro: bridge_reaches.stepped)
qed (simp add: assms(1))


lemma closed_stays:
  assumes "control_inv s" "socket s \<noteq> None" "bridge_step opts fstep parse s t"
  shows "to_browser t = to_browser s \<and> socket t = socket s"
  using assms(3) unfolding bridge_step_def
proof
  assume "own_step opts fstep parse s t"
  then show ?thesis by (cases rule: own_step.cases) (use assms(1,2) in \<open>auto simp: control_inv_def\<close>)
qed (auto elim: line_step.cases)

lemma filter_prefix_safe:
  assumes "snd (Filter NewANSIFilter p) = out @ rest"
  shows "list_all (\<lambda>b. ord b \<noteq> ctrlENQ) out \<and> c1_safe 0 out"
proof -
  have "list_all (\<lambda>b. ord b \<noteq> ctrlENQ) (snd (Filter NewANSIFilter p)) \<and> c1_safe 0 (snd (Filter NewANSIFilter p))"
    using run_emission [of NewANSIFilter p] NewANSIFilter_wf by (simp add: Filter_def emission_ok_def ctrl_defs)
  then show ?thesis unfolding assms by (simp add: c1_safe_append)
qed

text \<open>
  C6: the browser sees exactly the filtered terminal. In every state a session can reach, the binary messages written to
  the socket are a prefix of the filter's output for the concatenated frames that were accepted from the controller, in
  order, none twice; while reader and writer run the rest is queued and nothing is lost. They contain neither the answerback
  byte nor an 8-bit control introducer, the accepted frames have strictly increasing sequence numbers, and nothing is
  written once the socket is closed.
\<close>

theorem bridge_output:
  assumes "bridge_reaches opts Filter parse NewANSIFilter s" "0 < OutQueue opts"
  shows "(\<exists>rest. snd (Filter NewANSIFilter (concat (map snd (frames_in s)))) = binary_of (to_browser s) @ rest \<and>
       (reader s \<noteq> ReaderEnded \<and> writer s \<noteq> WriterEnded \<longrightarrow> rest = binary_of (outCh (br s)) @ held (reader s))) \<and>
     list_all (\<lambda>b. ord b \<noteq> ctrlENQ) (binary_of (to_browser s)) \<and> c1_safe 0 (binary_of (to_browser s)) \<and>
     sorted_wrt (<) (map fst (frames_in s)) \<and>
     (\<forall>t. socket s \<noteq> None \<and> bridge_step opts Filter parse s t \<longrightarrow> to_browser t = to_browser s \<and> socket t = socket s)"
proof -
  have inv: "session_inv opts s" by (rule session_inv_reaches [OF assms])
  obtain lost where l: "continues Filter NewANSIFilter (consumed s) (br_filter (br s)) (on_its_way s lost)"
      "lost \<noteq> [] \<longrightarrow> reader s = ReaderEnded \<or> writer s = WriterEnded"
    using ansi.output_inv_reaches [OF assms(1)] by (auto simp: output_inv_def)
  have "Filter NewANSIFilter (consumed s @ []) = (fst (Filter (br_filter (br s)) []), on_its_way s lost @ snd (Filter (br_filter (br s)) []))"
    using l(1) unfolding continues_def by blast
  then have out: "snd (Filter NewANSIFilter (consumed s)) = on_its_way s lost" by (simp add: ansi.filt_nil)
  then have p: "\<exists>rest. snd (Filter NewANSIFilter (consumed s)) = binary_of (to_browser s) @ rest \<and>
       (reader s \<noteq> ReaderEnded \<and> writer s \<noteq> WriterEnded \<longrightarrow> rest = binary_of (outCh (br s)) @ held (reader s))"
    using l(2) unfolding on_its_way_def by auto
  then have "list_all (\<lambda>b. ord b \<noteq> ctrlENQ) (binary_of (to_browser s)) \<and> c1_safe 0 (binary_of (to_browser s))"
    using filter_prefix_safe by blast
  then show ?thesis using p inv closed_stays [of s opts Filter parse] by (auto simp: consumed_def session_inv_def frames_inv_def)
qed

text \<open>
  C7: the controller gets what was typed. In every state a session can reach, the input written to the controller's stdin is a
  prefix of the non-empty messages of admissible size the browser sent, each whole, in order and once, and until the
  session is cancelled or stdin fails the rest is queued; every command is an input within the bound, a resize with
  dimensions in 1..10000, a scroll up or down by 1..10000 lines or a release; and both queues stay within their
  capacity.
\<close>

theorem bridge_input:
  assumes "bridge_reaches opts fstep parse f s" "0 < OutQueue opts"
  shows "(\<exists>rest. inputs_in s = inputs_of (to_controller s) @ rest \<and>
       (\<not> ctx_done (br s) \<and> stdin_running s \<longrightarrow> rest = inputs_of (stdinCh (br s)) @ inputs_of (sending (browser s)))) \<and>
     list_all (command_ok opts) (to_controller s) \<and> int (length (outCh (br s))) \<le> OutQueue opts \<and> length (stdinCh (br s)) \<le> 64"
proof -
  have "\<exists>rest. inputs_in s = inputs_of (to_controller s) @ rest \<and>
       (\<not> ctx_done (br s) \<and> stdin_running s \<longrightarrow> rest = inputs_of (stdinCh (br s)) @ inputs_of (sending (browser s)))"
    using input_inv_reaches [OF assms(1)] by (auto simp: input_inv_def handed_over_def may_lose_def split: if_splits)
  then show ?thesis using session_inv_reaches [OF assms] commands_inv_reaches [OF assms(1)]
    by (auto simp: session_inv_def queue_ok_def commands_inv_def)
qed

section \<open>A short session\<close>

text \<open>The browser types one byte, the controller sends one frame; both arrive, then the browser leaves.\<close>

definition example_options :: Options where
  "example_options = term_applyDefaults \<lparr>MaxOutputFrameBytes = 0, MaxInputBytes = 0, OutQueue = 0, PingInterval = 0, PongTimeout = 0,
     WriteTimeout = 0, ResizeMinInterval = 0\<rparr>"

definition example_line :: "string \<Rightarrow> json option" where
  "example_line l = (if l = ''f'' then Some (JObj [(''type'', JStr recordFrame), (''seq'', JNum ''7''), (''bytes'', JStr ''aGk='')]) else None)"

lemma example_options_queue: "OutQueue example_options = 256" "MaxInputBytes example_options = 65536" "MaxOutputFrameBytes example_options = 1048576"
  by (simp_all add: example_options_def term_applyDefaults_def or_positive_def defaultOutQueue_def defaultMaxInputBytes_def defaultMaxOutputFrameBytes_def)

lemma example_frame:
  assumes "\<not> haveSeq b"
  shows "readController example_options Filter example_line False ''f'' b =
     ((b\<lparr>haveSeq := True, lastSeq := 7\<rparr>)\<lparr>br_filter := fst (Filter (br_filter b) ''hi'')\<rparr>,
      if snd (Filter (br_filter b) ''hi'') = [] then Scanning else Offering \<lparr>om_binary = True, om_data = snd (Filter (br_filter b) ''hi'')\<rparr>)"
  "frame_of example_options example_line ''f'' b = [(7, ''hi'')]"
proof -
  have d: "StdDecode ''aGk='' = Some ''hi''" by code_simp
  have r: "Option.bind (example_line ''f'') decode_record = Some \<lparr>cr_Type = recordFrame, cr_Seq = 7, cr_Encoding = [], cr_Width = 0, cr_Height = 0,
      cr_Full = False, cr_Bytes = ''aGk='', cr_Reason = []\<rparr>"
    by (simp add: example_line_def decode_record_def select_known_def select_field_def map_filter_simps get_string_def get_uint_def get_int_def get_bool_def
        field_values_def ParseUint_def digit_char_def from_decimal_def Let_def)
  show "readController example_options Filter example_line False ''f'' b =
     ((b\<lparr>haveSeq := True, lastSeq := 7\<rparr>)\<lparr>br_filter := fst (Filter (br_filter b) ''hi'')\<rparr>,
      if snd (Filter (br_filter b) ''hi'') = [] then Scanning else Offering \<lparr>om_binary = True, om_data = snd (Filter (br_filter b) ''hi'')\<rparr>)"
    using assms by (simp add: readController_def r handleFrame_def decodeBytes_def d forward_frame_def example_options_queue Let_def split: prod.split)
  show "frame_of example_options example_line ''f'' b = [(7, ''hi'')]"
    using assms by (simp add: frame_of_def r decodeBytes_def d example_options_queue)
qed

lemma example_reached:
  "\<exists>s. bridge_reaches example_options Filter example_line NewANSIFilter s \<and> frames_in s = [(7, ''hi'')] \<and> binary_of (to_browser s) = ''hi'' \<and>
     inputs_in s = [''x''] \<and> inputs_of (to_controller s) = [''x''] \<and> ctx_done (br s) \<and> main s = Terminated"
proof -
  let ?o = example_options and ?R = "bridge_reaches example_options Filter example_line NewANSIFilter"
  note own = bridge_reaches.stepped [OF _ bridge_step_def [THEN iffD2, OF disjI2]]
  note line = bridge_reaches.stepped [OF _ bridge_step_def [THEN iffD2, OF disjI1]]
  have "encode_runes [0x68, 0x69] = ''hi''" by code_simp
  then have f: "snd (Filter NewANSIFilter ''hi'') = ''hi''" using Filter_text_unchanged [of "[0x68, 0x69]"] by (simp add: valid_rune_def del: encode_runes_Cons)
  define s0 where "s0 = start_session ?o NewANSIFilter"
  have b0: "br s0 = \<lparr>br_filter = NewANSIFilter, outCh = [\<lparr>om_binary = False, om_data = message_encode (no_message\<lparr>sm_Type := msgOpened\<rparr>)\<rparr>], stdinCh = [],
      resizeCh = None, lastSeq = 0, haveSeq = False, closeCode = closeNormal, closeReason = [], closeMsg = [], closeSet = False, ctx_done = False, br_audit = []\<rparr>"
    by (simp add: s0_def start_session_def Run_bridge_def sendText_def out_room_def example_options_queue)
  have p0: "reader s0 = Scanning" "writer s0 = Writing" "stdin_running s0" "browser s0 = Checking" "main s0 = AwaitDone" "frames_in s0 = []" "inputs_in s0 = []"
    "to_browser s0 = []" "to_controller s0 = []" "socket s0 = None" by (simp_all add: s0_def start_session_def)
  have r0: "?R s0" unfolding s0_def by (rule bridge_reaches.started)
  define b1 where "b1 = (br s0)\<lparr>haveSeq := True, lastSeq := 7\<rparr>\<lparr>br_filter := fst (Filter NewANSIFilter ''hi'')\<rparr>"
  define s1 where "s1 = s0\<lparr>br := b1, reader := Offering \<lparr>om_binary = True, om_data = ''hi''\<rparr>, frames_in := frames_in s0 @ frame_of ?o example_line ''f'' (br s0)\<rparr>"
  have "readController ?o Filter example_line False ''f'' (br s0) = (b1, Offering \<lparr>om_binary = True, om_data = ''hi''\<rparr>)"
    using example_frame(1) [of "br s0"] by (simp add: b1_def b0 f)
  then have r1: "?R s1" unfolding s1_def by (intro line [OF r0 line_step.reader_line]) (simp_all add: p0)
  define s2 where "s2 = s1\<lparr>br := (br s1)\<lparr>outCh := outCh (br s1) @ [\<lparr>om_binary = True, om_data = ''hi''\<rparr>]\<rparr>, reader := Scanning\<rparr>"
  have r2: "?R s2" unfolding s2_def
    by (rule own [OF r1 own_step.reader_queued]) (auto simp: s1_def b1_def b0 out_room_def example_options_queue)
  define s3 where "s3 = s2\<lparr>br := (br s2)\<lparr>outCh := tl (outCh (br s2))\<rparr>, to_browser := to_browser s2 @ [hd (outCh (br s2))]\<rparr>"
  have r3: "?R s3" unfolding s3_def by (rule own [OF r2 own_step.writer_writes]) (auto simp: s2_def s1_def b1_def b0 p0)
  define s4 where "s4 = s3\<lparr>br := (br s3)\<lparr>outCh := tl (outCh (br s3))\<rparr>, to_browser := to_browser s3 @ [hd (outCh (br s3))]\<rparr>"
  have r4: "?R s4" unfolding s4_def by (rule own [OF r3 own_step.writer_writes]) (auto simp: s3_def s2_def s1_def b1_def b0 p0)
  have p4: "binary_of (to_browser s4) = ''hi''" "frames_in s4 = [(7, ''hi'')]" "browser s4 = Checking" "\<not> ctx_done (br s4)" "socket s4 = None"
    "inputs_in s4 = []" "to_controller s4 = []" "stdinCh (br s4) = []" "stdin_running s4" "main s4 = AwaitDone"
    using example_frame(2) [of "br s0"] by (simp_all add: s4_def s3_def s2_def s1_def b1_def b0 p0)
  define s5 where "s5 = s4\<lparr>browser := Reading\<rparr>"
  have r5: "?R s5" unfolding s5_def by (rule own [OF r4 own_step.browser_checks]) (simp_all add: p4)
  define b5 where "b5 = audit ((event EventInput)\<lparr>ev_Bytes := length ''x''\<rparr>) (br s4)"
  have "handleInput ?o ''x'' (br s5) = (b5, Sending (inputBytesCommand ''x''))" by (simp add: handleInput_def example_options_queue b5_def s5_def)
  moreover define s6 where "s6 = s5\<lparr>br := b5, browser := Sending (inputBytesCommand ''x''), inputs_in := inputs_in s5 @ input_of ?o ''x''\<rparr>"
  ultimately have r6: "?R s6" unfolding s6_def by (intro own [OF r5 own_step.browser_input]) (simp_all add: p4 s5_def)
  define s7 where "s7 = s6\<lparr>br := (br s6)\<lparr>stdinCh := stdinCh (br s6) @ [inputBytesCommand ''x'']\<rparr>, browser := Checking\<rparr>"
  have r7: "?R s7" unfolding s7_def by (rule own [OF r6 own_step.browser_sends]) (auto simp: stdin_room_def b5_def p4 s6_def)
  define s8 where "s8 = s7\<lparr>br := (br s7)\<lparr>stdinCh := []\<rparr>, to_controller := to_controller s7 @ [inputBytesCommand ''x'']\<rparr>"
  have r8: "?R s8" unfolding s8_def by (rule own [OF r7 own_step.stdin_writes]) (auto simp: b5_def p4 s7_def s6_def s5_def)
  define s9 where "s9 = s8\<lparr>br := (br s8)\<lparr>ctx_done := True\<rparr>\<rparr>"
  have r9: "?R s9" unfolding s9_def by (rule own [OF r8 own_step.cancel])
  note defs = s9_def s8_def s7_def s6_def s5_def b5_def
  have "?R (s9\<lparr>main := Terminated\<rparr>)" by (rule own [OF r9 own_step.main_terminates]) (auto simp: p4 defs)
  then show ?thesis by (intro exI [of _ "s9\<lparr>main := Terminated\<rparr>"]) (simp add: p4 input_of_def example_options_queue defs)
qed

theorem bridge_output_witness:
  "\<exists>s. bridge_reaches example_options Filter example_line NewANSIFilter s \<and> binary_of (to_browser s) = ''hi'' \<and>
     list_all (\<lambda>b. ord b \<noteq> ctrlENQ) (binary_of (to_browser s))"
  using example_reached bridge_output [of example_options example_line] example_options_queue by fastforce

theorem bridge_input_witness:
  "\<exists>s. bridge_reaches example_options Filter example_line NewANSIFilter s \<and> inputs_of (to_controller s) = [''x''] \<and>
     list_all (command_ok example_options) (to_controller s)"
  using example_reached bridge_input [of example_options Filter example_line NewANSIFilter] example_options_queue by fastforce


end
