(* ===== verification/EventStream.thy ===== *)
theory EventStream
  imports StateInvariant
begin

text \<open>
  The event stream (internal/server/events.go) on the state adapter (internal/integration/adapters.go): the hub, its clients, the
  goroutine that carries the snapshots of one engine subscription to the hub, and the handlers of the connections, as a
  transition system over the channels they share; and what the subscription of the hub satisfies in every state.
\<close>

section \<open>internal/server/interfaces.go and internal/integration/adapters.go\<close>

record ServerSnapshot =
  ss_Version :: int
  ss_Hash :: string
  ss_Data :: string
  ss_UpdatedAt :: gotime

text \<open>
  \<open>marshal\<close> is the JSON encoding of an engine snapshot, which may fail; a snapshot that is not encodable is sent as \<open>null\<close>. The
  conversion of the 64-bit sequence number to \<open>int\<close> is the signed reading.
\<close>

definition toServer :: "(Snapshot \<Rightarrow> string option) \<Rightarrow> gotime \<Rightarrow> Snapshot option \<Rightarrow> ServerSnapshot" where
  "toServer marshal now snap =
     (case snap of
        None \<Rightarrow> \<lparr>ss_Version = 0, ss_Hash = [], ss_Data = ''null'', ss_UpdatedAt = now\<rparr>
      | Some s \<Rightarrow>
          let data = (case marshal s of Some d \<Rightarrow> d | None \<Rightarrow> ''null'')
          in \<lparr>ss_Version = sint (Seq s), ss_Hash = Hash s, ss_Data = data, ss_UpdatedAt = now\<rparr>)"

definition state_Snapshot :: "(Snapshot \<Rightarrow> string option) \<Rightarrow> gotime \<Rightarrow> Engine \<Rightarrow> ServerSnapshot" where
  "state_Snapshot marshal now e = toServer marshal now (Current e)"

section \<open>internal/server/events.go\<close>

record eventClient =
  ec_ch :: "ServerSnapshot option"
  ec_done :: bool

definition newEventClient :: eventClient where
  "newEventClient = \<lparr>ec_ch = None, ec_done = False\<rparr>"

text \<open>
  \<open>enqueue\<close> has one caller at a time, the goroutine of the state subscription. Whether the reader takes the old snapshot before
  it is dropped or not, the channel of capacity one ends with the new snapshot.
\<close>

definition client_enqueue :: "eventClient \<Rightarrow> ServerSnapshot \<Rightarrow> eventClient" where
  "client_enqueue c s = (case ec_ch c of None \<Rightarrow> c\<lparr>ec_ch := Some s\<rparr> | Some old \<Rightarrow> c\<lparr>ec_ch := None\<rparr>\<lparr>ec_ch := Some s\<rparr>)"

definition stop :: "eventClient \<Rightarrow> eventClient" where
  "stop c = c\<lparr>ec_done := True\<rparr>"

text \<open>
  A connection is its client together with the place its handler has reached, whether its context was cancelled, and the
  snapshots written to its socket. \<open>EvJoining\<close> is the moment between registration and the reading of the current snapshot.
\<close>

datatype conn_pc = EvJoining | EvSending ServerSnapshot | EvServing | EvLeaving | EvLeft

record ev_conn =
  cn_client :: eventClient
  cn_pc :: conn_pc
  cn_cancelled :: bool
  cn_sent :: "ServerSnapshot list"

type_synonym connections = "nat \<rightharpoonup> ev_conn"

definition on_client :: "(eventClient \<Rightarrow> eventClient) \<Rightarrow> ev_conn \<Rightarrow> ev_conn" where
  "on_client f c = c\<lparr>cn_client := f (cn_client c)\<rparr>"

text \<open>The hub's set of clients is a list of connection numbers.\<close>

definition broadcast :: "nat list \<Rightarrow> ServerSnapshot \<Rightarrow> connections \<Rightarrow> connections" where
  "broadcast clients s conns =
     (\<lambda>i. if i \<in> set clients then map_option (on_client (\<lambda>c. client_enqueue c s)) (conns i) else conns i)"

definition hub_add :: "nat \<Rightarrow> nat list \<Rightarrow> nat list" where
  "hub_add i clients = List.insert i clients"

definition hub_remove :: "nat \<Rightarrow> nat list \<Rightarrow> nat list" where
  "hub_remove i clients = removeAll i clients"

definition hub_count :: "nat list \<Rightarrow> nat" where
  "hub_count clients = length clients"

definition stop_all :: "nat list \<Rightarrow> connections \<Rightarrow> connections" where
  "stop_all clients conns = (\<lambda>i. if i \<in> set clients then map_option (on_client stop) (conns i) else conns i)"

section \<open>The event stream\<close>

text \<open>
  The engine, the goroutine of \<open>Subscribe\<close> (integration/adapters.go) that carries the snapshots of one subscription to the hub,
  and the handlers of \<open>handleEvents\<close>. \<open>ev_history\<close> records the values \<open>Current\<close> has had, oldest first.
\<close>

datatype pump_pc = PumpWaiting | PumpNotified | PumpDelivering "Snapshot list" | PumpEnded

record event_system =
  ev_engine :: Engine
  ev_sub :: nat
  ev_done :: bool
  ev_pump :: pump_pc
  ev_hub :: "nat list"
  ev_conns :: connections
  ev_history :: "Snapshot option list"

definition newHub :: "Engine \<Rightarrow> event_system" where
  "newHub e =
     (let (e', i) = Subscribe e
      in \<lparr>ev_engine = e', ev_sub = i, ev_done = False, ev_pump = PumpWaiting, ev_hub = [], ev_conns = Map.empty, ev_history = [current e]\<rparr>)"

definition the_sub :: "event_system \<Rightarrow> Subscription option" where
  "the_sub s = sub_store (ev_engine s) (ev_sub s)"

definition set_sub :: "Subscription \<Rightarrow> event_system \<Rightarrow> event_system" where
  "set_sub q s = s\<lparr>ev_engine := (ev_engine s)\<lparr>sub_store := (sub_store (ev_engine s))(ev_sub s \<mapsto> q)\<rparr>\<rparr>"

definition set_conn :: "nat \<Rightarrow> ev_conn \<Rightarrow> event_system \<Rightarrow> event_system" where
  "set_conn i c s = s\<lparr>ev_conns := (ev_conns s)(i \<mapsto> c)\<rparr>"

definition poll_events ::
  "(hashProjection \<Rightarrow> string option) \<Rightarrow> (Snapshot \<Rightarrow> int option) \<Rightarrow> gotime \<Rightarrow> pollOutcome \<Rightarrow> event_system \<Rightarrow> event_system" where
  "poll_events d z now out s =
     (let e = ev_engine s; e' = apply_outcome d z now out e
      in s\<lparr>ev_engine := e', ev_history := (if eseq e' = eseq e then ev_history s else ev_history s @ [current e'])\<rparr>)"

text \<open>\<open>Server.Close\<close>: the base context is cancelled, the subscription is given up, every client is stopped and forgotten.\<close>

definition hub_close :: "event_system \<Rightarrow> event_system" where
  "hub_close s =
     s\<lparr>ev_done := True, ev_engine := Unsubscribe (ev_engine s) (ev_sub s), ev_hub := [],
       ev_conns := (\<lambda>i. map_option (\<lambda>c. c\<lparr>cn_cancelled := True\<rparr>) (stop_all (ev_hub s) (ev_conns s) i))\<rparr>"

inductive pump_step :: "(Snapshot \<Rightarrow> string option) \<Rightarrow> event_system \<Rightarrow> event_system \<Rightarrow> bool" for marshal where
  pump_done: "ev_pump s = PumpWaiting \<Longrightarrow> ev_done s \<Longrightarrow> pump_step marshal s (s\<lparr>ev_pump := PumpEnded\<rparr>)"
| pump_dropped: "ev_pump s = PumpWaiting \<Longrightarrow> the_sub s = Some q \<Longrightarrow> sub_done q \<Longrightarrow> pump_step marshal s (s\<lparr>ev_pump := PumpEnded\<rparr>)"
| pump_notified: "ev_pump s = PumpWaiting \<Longrightarrow> the_sub s = Some q \<Longrightarrow> take_notify q = (q', True) \<Longrightarrow>
    pump_step marshal s (set_sub q' s\<lparr>ev_pump := PumpNotified\<rparr>)"
| pump_drains: "ev_pump s = PumpNotified \<Longrightarrow> the_sub s = Some q \<Longrightarrow> Drain q = (q', batch) \<Longrightarrow>
    pump_step marshal s (set_sub q' s\<lparr>ev_pump := PumpDelivering batch\<rparr>)"
| pump_delivers: "ev_pump s = PumpDelivering (snap # rest) \<Longrightarrow>
    pump_step marshal s (s\<lparr>ev_conns := broadcast (ev_hub s) (toServer marshal now (Some snap)) (ev_conns s), ev_pump := PumpDelivering rest\<rparr>)"
| pump_delivered: "ev_pump s = PumpDelivering [] \<Longrightarrow> pump_step marshal s (s\<lparr>ev_pump := PumpWaiting\<rparr>)"

inductive conn_step :: "(Snapshot \<Rightarrow> string option) \<Rightarrow> nat \<Rightarrow> event_system \<Rightarrow> event_system \<Rightarrow> bool" for marshal i where
  conn_reads_current: "ev_conns s i = Some c \<Longrightarrow> cn_pc c = EvJoining \<Longrightarrow>
    conn_step marshal i s (set_conn i (c\<lparr>cn_pc := EvSending (state_Snapshot marshal now (ev_engine s))\<rparr>) s)"
| conn_sends: "ev_conns s i = Some c \<Longrightarrow> cn_pc c = EvSending snap \<Longrightarrow> \<not> cn_cancelled c \<Longrightarrow>
    conn_step marshal i s (set_conn i (c\<lparr>cn_pc := EvServing, cn_sent := cn_sent c @ [snap]\<rparr>) s)"
| conn_send_fails: "ev_conns s i = Some c \<Longrightarrow> cn_pc c = EvSending snap \<Longrightarrow> conn_step marshal i s (set_conn i (c\<lparr>cn_pc := EvLeaving\<rparr>) s)"
| conn_takes: "ev_conns s i = Some c \<Longrightarrow> cn_pc c = EvServing \<Longrightarrow> ec_ch (cn_client c) = Some snap \<Longrightarrow>
    conn_step marshal i s (set_conn i (c\<lparr>cn_pc := EvSending snap, cn_client := (cn_client c)\<lparr>ec_ch := None\<rparr>\<rparr>) s)"
| conn_cancelled: "ev_conns s i = Some c \<Longrightarrow> cn_pc c = EvServing \<Longrightarrow> cn_cancelled c \<or> ec_done (cn_client c) \<Longrightarrow>
    conn_step marshal i s (set_conn i (c\<lparr>cn_pc := EvLeaving\<rparr>) s)"
| conn_ping_fails: "ev_conns s i = Some c \<Longrightarrow> cn_pc c = EvServing \<Longrightarrow> conn_step marshal i s (set_conn i (c\<lparr>cn_pc := EvLeaving\<rparr>) s)"
| conn_read_fails: "ev_conns s i = Some c \<Longrightarrow>
    conn_step marshal i s (set_conn i (on_client stop c\<lparr>cn_cancelled := True\<rparr>) s)"
| conn_leaves: "ev_conns s i = Some c \<Longrightarrow> cn_pc c = EvLeaving \<Longrightarrow>
    conn_step marshal i s (set_conn i (on_client stop c\<lparr>cn_pc := EvLeft, cn_cancelled := True\<rparr>) (s\<lparr>ev_hub := hub_remove i (ev_hub s)\<rparr>))"

inductive events_step ::
  "(hashProjection \<Rightarrow> string option) \<Rightarrow> (Snapshot \<Rightarrow> int option) \<Rightarrow> (Snapshot \<Rightarrow> string option) \<Rightarrow> event_system \<Rightarrow> event_system \<Rightarrow> bool"
  for d z marshal where
  ev_polls: "events_step d z marshal s (poll_events d z now out s)"
| ev_pumps: "pump_step marshal s t \<Longrightarrow> events_step d z marshal s t"
| ev_serves: "conn_step marshal i s t \<Longrightarrow> events_step d z marshal s t"
| ev_accepts: "ev_conns s i = None \<Longrightarrow>
    events_step d z marshal s (set_conn i \<lparr>cn_client = newEventClient, cn_pc = EvJoining, cn_cancelled = ev_done s, cn_sent = []\<rparr>
      (s\<lparr>ev_hub := hub_add i (ev_hub s)\<rparr>))"
| ev_closes: "events_step d z marshal s (hub_close s)"

inductive events_run ::
  "(hashProjection \<Rightarrow> string option) \<Rightarrow> (Snapshot \<Rightarrow> int option) \<Rightarrow> (Snapshot \<Rightarrow> string option) \<Rightarrow> event_system \<Rightarrow> event_system \<Rightarrow> bool"
  for d z marshal s where
  run_here: "events_run d z marshal s s"
| run_on: "events_run d z marshal s t \<Longrightarrow> events_step d z marshal t u \<Longrightarrow> events_run d z marshal s u"

inductive_cases pump_stepE: "pump_step marshal s t"
inductive_cases conn_stepE: "conn_step marshal i s t"
inductive_cases events_stepE: "events_step d z marshal s t"

section \<open>The subscription of the hub\<close>

lemma poll_effect:
  assumes "subs_inv e" "sub_store e i = Some q" and e': "e' = apply_outcome d z now out e"
  shows "(eseq e' = eseq e \<and> current e' = current e \<and> sub_store e' = sub_store e) \<or>
    (\<exists>snap. eseq e' \<noteq> eseq e \<and> current e' = Some snap \<and> sub_store e' i = Some (fst (enqueue q snap)))"
proof -
  have pub: "\<exists>snap. eseq (publish z f t h) \<noteq> eseq f \<and> current (publish z f t h) = Some snap \<and>
      sub_store (publish z f t h) i = Some (fst (enqueue q snap))"
    if f: "subs_inv f" "sub_store f i = Some q" for f t h
  proof -
    have k: "distinct (subs f)" "\<forall>i\<in>set (subs f). sub_store f i \<noteq> None" "i \<in> set (subs f) \<or> sub_closed q"
      using f by (auto simp: subs_inv_def)
    then show ?thesis using broadcast_to_spec [OF k(1,2)] f(2)
      by (auto simp: publish_def broadcastLocked_def Let_def split_beta enqueue_closed)
  qed
  let ?f = "updateGenerationsLocked (e\<lparr>polls := polls e + 1, lastPollAt := now, lastPollErr := None\<rparr>)"
  have "subs_inv (?f t)" "sub_store (?f t) i = Some q" for t using assms by simp_all
  from pub [OF this] show ?thesis unfolding e' by (auto simp: apply_outcome_def Let_def split: option.splits)
qed

definition sub_ready :: "event_system \<Rightarrow> Subscription \<Rightarrow> bool" where
  "sub_ready s q \<longleftrightarrow> (Latest q \<noteq> None \<longrightarrow> sub_notify q \<or> ev_pump s = PumpNotified)"

fun batch_of :: "pump_pc \<Rightarrow> Snapshot list" where
  "batch_of (PumpDelivering b) = b"
| "batch_of _ = []"

definition source_inv :: "event_system \<Rightarrow> bool" where
  "source_inv s \<longleftrightarrow> subs_inv (ev_engine s) \<and> ev_history s \<noteq> [] \<and> last (ev_history s) = current (ev_engine s) \<and>
     length (batch_of (ev_pump s)) \<le> 1 \<and>
     (\<exists>q. the_sub s = Some q \<and> (\<not> sub_closed q \<longrightarrow> sub_ready s q \<and>
        (Latest q = None \<longrightarrow> (\<forall>x\<in>set (batch_of (ev_pump s)). current (ev_engine s) = Some x))))"

lemma source_subE:
  assumes "source_inv s"
  obtains q where "the_sub s = Some q" "sub_inv q" "\<And>x. Latest q = Some x \<Longrightarrow> current (ev_engine s) = Some x"
    "\<not> sub_closed q \<Longrightarrow> sub_ready s q"
    "\<And>x. \<not> sub_closed q \<Longrightarrow> Latest q = None \<Longrightarrow> x \<in> set (batch_of (ev_pump s)) \<Longrightarrow> current (ev_engine s) = Some x"
proof -
  obtain q where q: "the_sub s = Some q" "\<not> sub_closed q \<longrightarrow> sub_ready s q \<and>
      (Latest q = None \<longrightarrow> (\<forall>x\<in>set (batch_of (ev_pump s)). current (ev_engine s) = Some x))" and i: "subs_inv (ev_engine s)"
    using assms by (auto simp: source_inv_def)
  have "queue_ok (ev_engine s) q" using i q(1) by (auto simp: subs_inv_def the_sub_def)
  then show ?thesis by (intro that [of q]) (use q in \<open>auto simp: queue_ok_def\<close>)
qed

lemma set_sub_simps [simp]:
  "the_sub (set_sub q s) = Some q" "ev_pump (set_sub q s) = ev_pump s" "ev_history (set_sub q s) = ev_history s"
  "ev_conns (set_sub q s) = ev_conns s" "ev_hub (set_sub q s) = ev_hub s" "ev_done (set_sub q s) = ev_done s"
  "current (ev_engine (set_sub q s)) = current (ev_engine s)" "ev_sub (set_sub q s) = ev_sub s"
  by (simp_all add: set_sub_def the_sub_def)

lemma set_conn_simps [simp]:
  "the_sub (set_conn i c s) = the_sub s" "ev_pump (set_conn i c s) = ev_pump s" "ev_history (set_conn i c s) = ev_history s"
  "ev_conns (set_conn i c s) = (ev_conns s)(i \<mapsto> c)" "ev_hub (set_conn i c s) = ev_hub s" "ev_done (set_conn i c s) = ev_done s"
  "ev_engine (set_conn i c s) = ev_engine s" "ev_sub (set_conn i c s) = ev_sub s"
  by (simp_all add: set_conn_def the_sub_def)

lemma the_sub_frame [simp]:
  "the_sub (s\<lparr>ev_pump := p\<rparr>) = the_sub s" "the_sub (s\<lparr>ev_conns := cs\<rparr>) = the_sub s" "the_sub (s\<lparr>ev_hub := h\<rparr>) = the_sub s"
  by (simp_all add: the_sub_def)

lemma source_inv_frame:
  "ev_engine t = ev_engine s \<Longrightarrow> ev_sub t = ev_sub s \<Longrightarrow> ev_history t = ev_history s \<Longrightarrow> ev_pump t = ev_pump s \<Longrightarrow>
     source_inv t = source_inv s"
  by (simp add: source_inv_def the_sub_def sub_ready_def)

lemma subs_inv_set_sub:
  assumes "subs_inv (ev_engine s)" "the_sub s = Some q" "sub_inv q'" "sub_maxBytes q' = sub_maxBytes q"
    "Latest q' \<in> {Latest q, None}" "sub_closed q' = sub_closed q"
  shows "subs_inv (ev_engine (set_sub q' s))"
  using subs_inv_store [of "ev_engine s" "ev_sub s" q q'] assms by (simp add: set_sub_def the_sub_def)

lemma take_notify_props:
  "take_notify q = (q', True) \<Longrightarrow> Latest q' = Latest q \<and> sub_closed q' = sub_closed q \<and> sub_maxBytes q' = sub_maxBytes q \<and> sub_notify q"
  by (auto simp: take_notify_def Latest_def)

lemma Drain_props:
  assumes "sub_inv q" "Drain q = (q', batch)"
  shows "Latest q' = None \<and> sub_closed q' = sub_closed q \<and> sub_maxBytes q' = sub_maxBytes q \<and> sub_notify q' = sub_notify q \<and>
    batch = (case Latest q of None \<Rightarrow> [] | Some x \<Rightarrow> [x])"
  using client_queue.get_view [OF assms(1)] assms(2) by (auto simp: Drain_def Latest_def split: if_splits)

lemma source_inv_pump:
  assumes "source_inv s" "pump_step marshal s t" shows "source_inv t"
  using assms(2,1)
proof cases
  case (pump_notified q q')
  from assms(1) obtain q0 where q0: "the_sub s = Some q0" "sub_inv q0" "\<not> sub_closed q0 \<Longrightarrow> sub_ready s q0" by (rule source_subE) blast
  have q': "sub_inv q'" using sub_inv_take_notify [OF q0(2)] q0(1) pump_notified by (metis fst_conv option.inject)
  have "subs_inv (ev_engine (set_sub q' s))"
    using assms(1) q' take_notify_props [OF pump_notified(4)] pump_notified(3)
    by (intro subs_inv_set_sub [of s q]) (auto simp: source_inv_def)
  then show ?thesis using assms(1) pump_notified(1) by (simp add: source_inv_def sub_ready_def)
next
  case (pump_drains q q' batch)
  from assms(1) obtain q0 where q0: "the_sub s = Some q0" "sub_inv q0" "\<And>x. Latest q0 = Some x \<Longrightarrow> current (ev_engine s) = Some x"
    by (rule source_subE) blast
  then have q: "sub_inv q" "q0 = q" using pump_drains by simp_all
  have q': "sub_inv q'" using sub_inv_Drain [OF q(1)] pump_drains by (metis fst_conv)
  note dp = Drain_props [OF q(1) pump_drains(4)]
  have "subs_inv (ev_engine (set_sub q' s))"
    using assms(1) q' dp pump_drains(3) by (intro subs_inv_set_sub [of s q]) (auto simp: source_inv_def)
  then show ?thesis using assms(1) pump_drains(1) dp q0(3) q(2) by (auto simp: source_inv_def sub_ready_def split: option.splits)
qed (auto simp: source_inv_def sub_ready_def)

lemma source_inv_poll:
  assumes "source_inv s" shows "source_inv (poll_events d z now out s)"
proof -
  from assms obtain q where q: "the_sub s = Some q" "sub_inv q" "\<not> sub_closed q \<Longrightarrow> sub_ready s q"
    "\<And>x. \<not> sub_closed q \<Longrightarrow> Latest q = None \<Longrightarrow> x \<in> set (batch_of (ev_pump s)) \<Longrightarrow> current (ev_engine s) = Some x"
    by (rule source_subE) blast
  let ?e = "apply_outcome d z now out (ev_engine s)"
  have i: "subs_inv (ev_engine s)" using assms by (simp add: source_inv_def)
  have "(eseq ?e = eseq (ev_engine s) \<and> current ?e = current (ev_engine s) \<and> sub_store ?e = sub_store (ev_engine s)) \<or>
    (\<exists>snap. eseq ?e \<noteq> eseq (ev_engine s) \<and> current ?e = Some snap \<and> sub_store ?e (ev_sub s) = Some (fst (enqueue q snap)))"
    by (rule poll_effect [OF i]) (use q(1) in \<open>simp_all add: the_sub_def\<close>)
  then show ?thesis
  proof (elim disjE exE conjE)
    assume "eseq ?e = eseq (ev_engine s)" "current ?e = current (ev_engine s)" "sub_store ?e = sub_store (ev_engine s)"
    then show ?thesis using assms apply_subs_inv [OF i] by (simp add: source_inv_def poll_events_def Let_def the_sub_def sub_ready_def)
  next
    fix snap assume "eseq ?e \<noteq> eseq (ev_engine s)" "current ?e = Some snap" "sub_store ?e (ev_sub s) = Some (fst (enqueue q snap))"
    then show ?thesis using assms apply_subs_inv [OF i] q(2)
      by (auto simp: source_inv_def poll_events_def Let_def the_sub_def sub_ready_def enqueue_eq signal_def Latest_def closeLocked_def)
  qed
qed

lemma source_inv_close:
  assumes "source_inv s" shows "source_inv (hub_close s)"
proof -
  obtain q where q: "the_sub s = Some q" using assms by (rule source_subE) blast
  have "subs_inv (Unsubscribe (ev_engine s) (ev_sub s))" using assms by (intro Unsubscribe_subs_inv) (simp add: source_inv_def)
  then show ?thesis using assms q by (auto simp: source_inv_def hub_close_def the_sub_def Unsubscribe_def Close_def)
qed

lemma source_inv_step: "events_step d z marshal s t \<Longrightarrow> source_inv s \<Longrightarrow> source_inv t"
proof (induction rule: events_step.induct)
  case (ev_serves i s t)
  then have "ev_engine t = ev_engine s \<and> ev_sub t = ev_sub s \<and> ev_history t = ev_history s \<and> ev_pump t = ev_pump s"
    by (elim conn_stepE) simp_all
  then show ?case using ev_serves.prems source_inv_frame by metis
next
  case (ev_accepts s i)
  show ?case by (rule iffD2 [OF source_inv_frame ev_accepts.prems]) simp_all
qed (auto intro: source_inv_poll source_inv_pump source_inv_close)

lemma source_inv_new:
  assumes "subs_inv e" shows "source_inv (newHub e)"
proof -
  have "subs_inv (fst (Subscribe e))" by (rule Subscribe_subs_inv [OF assms])
  moreover have "\<exists>q. sub_store (fst (Subscribe e)) (snd (Subscribe e)) = Some q \<and> (\<not> sub_closed q \<longrightarrow> Latest q \<noteq> None \<longrightarrow> sub_notify q)"
  proof (cases "current e")
    case None
    then show ?thesis by (simp add: Subscribe_def Let_def newSubscription_def Latest_def)
  next
    case (Some c)
    then show ?thesis by (simp add: Subscribe_def Let_def split_beta enqueue_eq signal_def)
  qed
  ultimately show ?thesis by (simp add: source_inv_def newHub_def split_beta the_sub_def sub_ready_def)
qed

end
