(* ===== verification/EventDelivery.thy ===== *)
theory EventDelivery
  imports EventStream "HOL-Library.Sublist"
begin

text \<open>
  What a browser sees of the event stream: the order of its messages, when it is up to date, and what happens after the
  engine has dropped the subscription of the hub.
\<close>

section \<open>What a connection has been told\<close>

definition displays :: "(Snapshot \<Rightarrow> string option) \<Rightarrow> Snapshot option \<Rightarrow> ServerSnapshot \<Rightarrow> bool" where
  "displays marshal cur x \<longleftrightarrow> x = toServer marshal (ss_UpdatedAt x) cur"

lemma displays_toServer [simp]: "displays marshal cur (toServer marshal now cur)"
  by (simp add: displays_def toServer_def Let_def split: option.split)

fun flight :: "conn_pc \<Rightarrow> ServerSnapshot list" where
  "flight (EvSending x) = [x]"
| "flight _ = []"

fun fetched :: "conn_pc \<Rightarrow> bool" where
  "fetched (EvSending x) = True"
| "fetched EvServing = True"
| "fetched _ = False"

definition trail :: "ev_conn \<Rightarrow> ServerSnapshot list" where
  "trail c = cn_sent c @ flight (cn_pc c) @ (case ec_ch (cn_client c) of None \<Rightarrow> [] | Some x \<Rightarrow> [x])"

definition conn_ok :: "ev_conn \<Rightarrow> bool" where
  "conn_ok c \<longleftrightarrow> (cn_pc c = EvJoining \<longrightarrow> cn_sent c = []) \<and> (cn_pc c = EvServing \<longrightarrow> cn_sent c \<noteq> [])"

definition live :: "conn_pc \<Rightarrow> bool" where
  "live pc \<longleftrightarrow> pc = EvJoining \<or> fetched pc"

definition open_stream :: "event_system \<Rightarrow> bool" where
  "open_stream s \<longleftrightarrow> (case the_sub s of None \<Rightarrow> False | Some q \<Rightarrow> \<not> sub_closed q)"

text \<open>Nothing published is still on its way through the subscription.\<close>

definition settled :: "event_system \<Rightarrow> bool" where
  "settled s \<longleftrightarrow> open_stream s \<and> (case the_sub s of None \<Rightarrow> False | Some q \<Rightarrow> Latest q = None) \<and> batch_of (ev_pump s) = []"

definition fresh :: "(Snapshot \<Rightarrow> string option) \<Rightarrow> Engine \<Rightarrow> ev_conn \<Rightarrow> bool" where
  "fresh marshal e c \<longleftrightarrow> (live (cn_pc c) \<longrightarrow> trail c \<noteq> [] \<longrightarrow> displays marshal (current e) (last (trail c)))"

definition fresh_inv :: "(Snapshot \<Rightarrow> string option) \<Rightarrow> event_system \<Rightarrow> bool" where
  "fresh_inv marshal s \<longleftrightarrow>
     (\<forall>i c. ev_conns s i = Some c \<longrightarrow> conn_ok c \<and> (settled s \<longrightarrow> fresh marshal (ev_engine s) c) \<and>
        (open_stream s \<longrightarrow> live (cn_pc c) \<longrightarrow> i \<in> set (ev_hub s)))"

lemma fresh_invI:
  assumes "\<And>i c. ev_conns s i = Some c \<Longrightarrow> conn_ok c"
    "\<And>i c. ev_conns s i = Some c \<Longrightarrow> settled s \<Longrightarrow> fresh marshal (ev_engine s) c"
    "\<And>i c. ev_conns s i = Some c \<Longrightarrow> open_stream s \<Longrightarrow> live (cn_pc c) \<Longrightarrow> i \<in> set (ev_hub s)"
  shows "fresh_inv marshal s"
  using assms by (auto simp: fresh_inv_def)

lemma fresh_inv_same_conns:
  assumes "fresh_inv marshal s" "ev_conns t = ev_conns s" "ev_hub t = ev_hub s"
    "settled t \<Longrightarrow> settled s \<and> current (ev_engine t) = current (ev_engine s)" "open_stream t \<Longrightarrow> open_stream s"
  shows "fresh_inv marshal t"
  using assms by (auto simp: fresh_inv_def fresh_def)

lemma fresh_inv_set_conn:
  assumes "fresh_inv marshal s" "the_sub t = the_sub s" "ev_pump t = ev_pump s" "ev_engine t = ev_engine s" "ev_conns t = (ev_conns s)(i \<mapsto> c)"
    "conn_ok c" "settled s \<Longrightarrow> fresh marshal (ev_engine s) c" "live (cn_pc c) \<Longrightarrow> open_stream s \<Longrightarrow> i \<in> set (ev_hub t)"
    "set (ev_hub s) - {i} \<subseteq> set (ev_hub t)"
  shows "fresh_inv marshal t"
proof (rule fresh_invI)
  have same: "settled t = settled s" "open_stream t = open_stream s" using assms(2,3) by (simp_all add: settled_def open_stream_def)
  fix j c' assume c': "ev_conns t j = Some c'"
  show "conn_ok c'" using c' assms(1,5,6) by (auto simp: fresh_inv_def split: if_splits)
  show "settled t \<Longrightarrow> fresh marshal (ev_engine t) c'" using c' assms(1,4,5,7) same by (auto simp: fresh_inv_def split: if_splits)
  show "open_stream t \<Longrightarrow> live (cn_pc c') \<Longrightarrow> j \<in> set (ev_hub t)"
    using c' assms(1,5,8,9) same by (auto simp: fresh_inv_def split: if_splits)
qed

lemma client_enqueue_ch [simp]: "ec_ch (client_enqueue c x) = Some x"
  by (simp add: client_enqueue_def split: option.split)

lemma on_client_simps [simp]:
  "cn_client (on_client f c) = f (cn_client c)" "cn_pc (on_client f c) = cn_pc c" "cn_sent (on_client f c) = cn_sent c"
  "cn_cancelled (on_client f c) = cn_cancelled c"
  by (simp_all add: on_client_def)

lemma stop_ch [simp]: "ec_ch (stop c) = ec_ch c" by (simp add: stop_def)

lemma live_simps [simp]: "live EvJoining" "live EvServing" "live (EvSending x)" "\<not> live EvLeaving" "\<not> live EvLeft"
  by (simp_all add: live_def)

lemma fresh_conn_step:
  assumes "fresh_inv marshal s" "conn_step marshal i s t" shows "fresh_inv marshal t"
proof -
  have old: "conn_ok c" "settled s \<Longrightarrow> fresh marshal (ev_engine s) c" "open_stream s \<Longrightarrow> live (cn_pc c) \<Longrightarrow> i \<in> set (ev_hub s)"
    if "ev_conns s i = Some c" for c
    using assms(1) that by (auto simp: fresh_inv_def)
  note defs = conn_ok_def fresh_def trail_def state_Snapshot_def Current_def hub_remove_def
  show ?thesis using assms(2)
  proof cases
    case (conn_reads_current c now)
    show ?thesis unfolding conn_reads_current(1)
      by (rule fresh_inv_set_conn [OF assms(1)]) (use old [OF conn_reads_current(2)] conn_reads_current(3) in \<open>auto simp: defs split: option.split\<close>)
  next
    case (conn_sends c snap)
    show ?thesis unfolding conn_sends(1)
      by (rule fresh_inv_set_conn [OF assms(1)]) (use old [OF conn_sends(2)] conn_sends(3) in \<open>auto simp: defs split: option.split\<close>)
  next
    case (conn_send_fails c snap)
    show ?thesis unfolding conn_send_fails(1)
      by (rule fresh_inv_set_conn [OF assms(1)]) (auto simp: defs)
  next
    case (conn_takes c snap)
    show ?thesis unfolding conn_takes(1)
      by (rule fresh_inv_set_conn [OF assms(1)]) (use old [OF conn_takes(2)] conn_takes(3,4) in \<open>auto simp: defs split: option.split\<close>)
  next
    case (conn_cancelled c)
    show ?thesis unfolding conn_cancelled(1)
      by (rule fresh_inv_set_conn [OF assms(1)]) (auto simp: defs)
  next
    case (conn_ping_fails c)
    show ?thesis unfolding conn_ping_fails(1)
      by (rule fresh_inv_set_conn [OF assms(1)]) (auto simp: defs)
  next
    case (conn_read_fails c)
    show ?thesis unfolding conn_read_fails(1)
      by (rule fresh_inv_set_conn [OF assms(1), of _ i "on_client stop c\<lparr>cn_cancelled := True\<rparr>"]) (use old [OF conn_read_fails(2)] in \<open>auto simp: defs\<close>)
  next
    case (conn_leaves c)
    show ?thesis unfolding conn_leaves(1)
      by (rule fresh_inv_set_conn [OF assms(1)]) (auto simp: defs)
  qed
qed

lemma the_sub_poll:
  assumes "source_inv s" "the_sub s = Some q"
  shows "(the_sub (poll_events d z now out s) = Some q \<and> current (ev_engine (poll_events d z now out s)) = current (ev_engine s) \<and>
      ev_history (poll_events d z now out s) = ev_history s) \<or>
    (\<exists>snap. the_sub (poll_events d z now out s) = Some (fst (enqueue q snap)) \<and> current (ev_engine (poll_events d z now out s)) = Some snap \<and>
      ev_history (poll_events d z now out s) = ev_history s @ [Some snap])"
proof -
  have "subs_inv (ev_engine s)" using assms(1) by (simp add: source_inv_def)
  moreover have "sub_store (ev_engine s) (ev_sub s) = Some q" using assms(2) by (simp add: the_sub_def)
  ultimately show ?thesis using poll_effect [of "ev_engine s" "ev_sub s" q _ d z now out]
    by (fastforce simp: poll_events_def Let_def the_sub_def)
qed

lemma poll_events_frame [simp]:
  "ev_conns (poll_events d z now out s) = ev_conns s" "ev_hub (poll_events d z now out s) = ev_hub s"
  "ev_pump (poll_events d z now out s) = ev_pump s" "ev_done (poll_events d z now out s) = ev_done s"
  "ev_sub (poll_events d z now out s) = ev_sub s"
  by (simp_all add: poll_events_def Let_def)

lemma fresh_poll:
  assumes "source_inv s" "fresh_inv marshal s" shows "fresh_inv marshal (poll_events d z now out s)"
proof -
  obtain q where q: "the_sub s = Some q" "sub_inv q" using assms(1) by (rule source_subE) blast
  show ?thesis
  proof (rule fresh_inv_same_conns [OF assms(2)])
    assume "settled (poll_events d z now out s)"
    then show "settled s \<and> current (ev_engine (poll_events d z now out s)) = current (ev_engine s)"
      using the_sub_poll [OF assms(1) q(1), of d z now out] q by (auto simp: settled_def open_stream_def Latest_enqueue enqueue_open_iff)
  next
    assume "open_stream (poll_events d z now out s)"
    then show "open_stream s"
      using the_sub_poll [OF assms(1) q(1), of d z now out] q by (auto simp: open_stream_def enqueue_closed)
  qed simp_all
qed

lemma fresh_broadcast:
  assumes "fresh_inv marshal s" "source_inv s" "ev_pump s = PumpDelivering (snap # rest)"
  shows "fresh_inv marshal (s\<lparr>ev_conns := broadcast (ev_hub s) (toServer marshal now (Some snap)) (ev_conns s), ev_pump := PumpDelivering rest\<rparr>)"
    (is "fresh_inv marshal ?t")
proof (rule fresh_invI)
  have op: "open_stream ?t = open_stream s" by (simp add: open_stream_def the_sub_def)
  have cur: "current (ev_engine s) = Some snap" if "settled ?t"
  proof -
    obtain q where q: "the_sub s = Some q" "\<And>x. \<not> sub_closed q \<Longrightarrow> Latest q = None \<Longrightarrow> x \<in> set (batch_of (ev_pump s)) \<Longrightarrow> current (ev_engine s) = Some x"
      using assms(2) by (rule source_subE) blast
    then show ?thesis using that assms(3) by (simp add: settled_def open_stream_def the_sub_def)
  qed
  fix i c' assume "ev_conns ?t i = Some c'"
  then obtain c where c: "ev_conns s i = Some c" and c': "c' = (if i \<in> set (ev_hub s) then on_client (\<lambda>c. client_enqueue c (toServer marshal now (Some snap))) c else c)"
    by (auto simp: broadcast_def split: if_splits)
  have ok: "conn_ok c" "open_stream s \<Longrightarrow> live (cn_pc c) \<Longrightarrow> i \<in> set (ev_hub s)" using assms(1) c by (auto simp: fresh_inv_def)
  show "conn_ok c'" using ok(1) c' by (simp add: conn_ok_def)
  show "open_stream ?t \<Longrightarrow> live (cn_pc c') \<Longrightarrow> i \<in> set (ev_hub ?t)" using ok(2) c' op by (simp split: if_splits)
  show "fresh marshal (ev_engine ?t) c'" if st: "settled ?t"
  proof (cases "live (cn_pc c)")
    case True
    have "open_stream s" using st op by (simp add: settled_def)
    then have "i \<in> set (ev_hub s)" using ok(2) True by blast
    then show ?thesis using cur [OF st] by (simp add: c' fresh_def trail_def)
  qed (auto simp: fresh_def c')
qed

lemma fresh_pump_step:
  assumes "fresh_inv marshal s" "source_inv s" "pump_step marshal s t" shows "fresh_inv marshal t"
proof -
  obtain q where q: "the_sub s = Some q" "sub_inv q" using assms(2) by (rule source_subE) blast
  show ?thesis using assms(3)
  proof cases
    case pump_done
    show ?thesis unfolding pump_done(1)
      by (rule fresh_inv_same_conns [OF assms(1)]) (use pump_done(2) in \<open>simp_all add: settled_def open_stream_def\<close>)
  next
    case (pump_dropped q')
    show ?thesis unfolding pump_dropped(1)
      by (rule fresh_inv_same_conns [OF assms(1)]) (use pump_dropped(2) in \<open>simp_all add: settled_def open_stream_def\<close>)
  next
    case (pump_notified q0 q')
    show ?thesis unfolding pump_notified(1)
      by (rule fresh_inv_same_conns [OF assms(1)])
        (use pump_notified(2,3) take_notify_props [OF pump_notified(4)] in \<open>simp_all add: settled_def open_stream_def\<close>)
  next
    case (pump_drains q0 q' batch)
    then have "q0 = q" using q by simp
    show ?thesis unfolding pump_drains(1)
      by (rule fresh_inv_same_conns [OF assms(1)])
        (use pump_drains(2,3) Drain_props [OF q(2) pump_drains(4) [unfolded \<open>q0 = q\<close>]] q in \<open>auto simp: settled_def open_stream_def split: option.splits\<close>)
  next
    case (pump_delivers snap rest now)
    then show ?thesis using fresh_broadcast [OF assms(1,2)] by simp
  next
    case pump_delivered
    show ?thesis unfolding pump_delivered(1)
      by (rule fresh_inv_same_conns [OF assms(1)]) (use pump_delivered(2) in \<open>simp_all add: settled_def open_stream_def\<close>)
  qed
qed

lemma closed_stream: "source_inv s \<Longrightarrow> \<not> open_stream (hub_close s)"
  by (erule source_subE) (simp add: open_stream_def hub_close_def the_sub_def Unsubscribe_def Close_def)

lemma fresh_step:
  assumes "events_step d z marshal s t" "source_inv s" "fresh_inv marshal s" shows "fresh_inv marshal t"
  using assms
proof (induction rule: events_step.induct)
  case (ev_accepts s i)
  show ?case
    by (rule fresh_inv_set_conn [OF ev_accepts.prems(2)])
      (auto simp: conn_ok_def fresh_def trail_def newEventClient_def hub_add_def)
next
  case (ev_closes s)
  show ?case
  proof (rule fresh_invI)
    fix i c assume "ev_conns (hub_close s) i = Some c"
    then obtain c0 where "ev_conns s i = Some c0" "cn_pc c = cn_pc c0" "cn_sent c = cn_sent c0"
      by (auto simp: hub_close_def stop_all_def split: if_splits)
    then show "conn_ok c" using ev_closes.prems(2) by (auto simp: fresh_inv_def conn_ok_def)
  qed (use closed_stream [OF ev_closes.prems(1)] in \<open>auto simp: settled_def\<close>)
qed (auto intro: fresh_poll fresh_pump_step fresh_conn_step)

section \<open>Order\<close>

text \<open>The messages a connection got through its queue, the initial snapshot aside.\<close>

definition fed :: "ev_conn \<Rightarrow> ServerSnapshot list" where
  "fed c = (if cn_pc c = EvJoining then trail c else tl (trail c))"

definition fed_from :: "(Snapshot \<Rightarrow> string option) \<Rightarrow> Snapshot option list \<Rightarrow> ServerSnapshot list \<Rightarrow> bool" where
  "fed_from marshal h xs \<longleftrightarrow> (\<exists>hs. subseq hs h \<and> list_all2 (displays marshal) hs xs)"

lemma fed_from_Nil [simp]: "fed_from marshal h []"
  by (auto simp: fed_from_def)

lemma fed_from_longer: "fed_from marshal h xs \<Longrightarrow> fed_from marshal (h @ h') xs"
  unfolding fed_from_def using subseq_order.order_trans [OF _ subseq_rev_drop_many [of h h h']] by blast

lemma list_all2_subseq:
  assumes "subseq ys xs" "list_all2 P hs xs" shows "\<exists>gs. subseq gs hs \<and> list_all2 P gs ys"
  using assms
proof (induction arbitrary: hs rule: list_emb.induct)
  case (list_emb_Cons xs ys y)
  then obtain h gs where h: "hs = h # gs" "list_all2 P gs ys" by (auto simp: list_all2_Cons2)
  obtain g where "subseq g gs" "list_all2 P g xs" using list_emb_Cons.IH [OF h(2)] by blast
  then show ?case using h(1) by blast
next
  case (list_emb_Cons2 x y xs ys)
  then obtain h gs where h: "hs = h # gs" "P h y" "list_all2 P gs ys" by (auto simp: list_all2_Cons2)
  obtain g where "subseq g gs" "list_all2 P g xs" using list_emb_Cons2.IH [OF h(3)] by blast
  then show ?case using h(1,2) list_emb_Cons2.hyps(1) by (intro exI [of _ "h # g"]) simp
qed (auto)

lemma fed_from_subseq: "subseq ys xs \<Longrightarrow> fed_from marshal h xs \<Longrightarrow> fed_from marshal h ys"
  unfolding fed_from_def using list_all2_subseq subseq_order.order_trans by meson

lemma fed_from_snoc:
  "fed_from marshal h xs \<Longrightarrow> displays marshal x y \<Longrightarrow> fed_from marshal (h @ h' @ [x]) (xs @ [y])"
  unfolding fed_from_def
  by (metis list_all2_Cons list_all2_Nil list_all2_appendI list_emb_append_mono list_emb_append2 subseq_order.order_refl)

definition first_ok :: "(Snapshot \<Rightarrow> string option) \<Rightarrow> Snapshot option list \<Rightarrow> ev_conn \<Rightarrow> bool" where
  "first_ok marshal h c \<longleftrightarrow>
     (cn_sent c @ flight (cn_pc c) \<noteq> [] \<longrightarrow> (\<exists>x\<in>set h. displays marshal x (hd (cn_sent c @ flight (cn_pc c)))))"

definition waiting_snaps :: "event_system \<Rightarrow> Snapshot option list" where
  "waiting_snaps s = map Some (batch_of (ev_pump s)) @
     (case the_sub s of None \<Rightarrow> [] | Some q \<Rightarrow> (case Latest q of None \<Rightarrow> [] | Some x \<Rightarrow> [Some x]))"

definition order_inv :: "(Snapshot \<Rightarrow> string option) \<Rightarrow> event_system \<Rightarrow> bool" where
  "order_inv marshal s \<longleftrightarrow>
     (\<exists>h1 h2. ev_history s = h1 @ h2 \<and> subseq (waiting_snaps s) h2 \<and>
        (\<forall>i c. ev_conns s i = Some c \<longrightarrow> fed_from marshal h1 (fed c))) \<and>
     (\<forall>i c. ev_conns s i = Some c \<longrightarrow> first_ok marshal (ev_history s) c)"

lemma order_inv_same_conns:
  assumes "order_inv marshal s" "ev_conns t = ev_conns s" "ev_history t = ev_history s" "subseq (waiting_snaps t) (waiting_snaps s)"
  shows "order_inv marshal t"
  using assms unfolding order_inv_def by (metis subseq_order.order_trans)

lemma order_inv_set_conn:
  assumes "order_inv marshal s" "ev_conns t = (ev_conns s)(i \<mapsto> c)" "ev_history t = ev_history s" "the_sub t = the_sub s" "ev_pump t = ev_pump s"
    "first_ok marshal (ev_history s) c" "\<And>h. (\<And>c0. ev_conns s i = Some c0 \<Longrightarrow> fed_from marshal h (fed c0)) \<Longrightarrow> fed_from marshal h (fed c)"
  shows "order_inv marshal t"
proof -
  obtain h1 h2 where h: "ev_history s = h1 @ h2" "subseq (waiting_snaps s) h2" "\<And>j c. ev_conns s j = Some c \<Longrightarrow> fed_from marshal h1 (fed c)"
    using assms(1) by (auto simp: order_inv_def)
  have "waiting_snaps t = waiting_snaps s" using assms(4,5) by (simp add: waiting_snaps_def)
  moreover have "fed_from marshal h1 (fed c')" if "ev_conns t j = Some c'" for j c'
    using that assms(2) assms(7) [of h1] h(3) by (auto split: if_splits)
  moreover have "first_ok marshal (ev_history t) c'" if "ev_conns t j = Some c'" for j c'
    using that assms(1,2,3,6) by (auto simp: order_inv_def split: if_splits)
  ultimately show ?thesis unfolding order_inv_def using h(1,2) assms(3) by metis
qed

lemma order_conn_step:
  assumes "order_inv marshal s" "fresh_inv marshal s" "source_inv s" "conn_step marshal i s t" shows "order_inv marshal t"
proof -
  have old: "conn_ok c" "first_ok marshal (ev_history s) c" if "ev_conns s i = Some c" for c
    using assms(1,2) that by (auto simp: fresh_inv_def order_inv_def)
  have cur: "current (ev_engine s) \<in> set (ev_history s)" using assms(3) by (metis last_in_set source_inv_def)
  note defs = conn_ok_def first_ok_def fed_def trail_def state_Snapshot_def Current_def
  show ?thesis using assms(4)
  proof cases
    case (conn_reads_current c now)
    have "displays marshal (current (ev_engine s)) (toServer marshal now (current (ev_engine s)))" by simp
    then show ?thesis unfolding conn_reads_current(1)
      by (intro order_inv_set_conn [OF assms(1), of _ i "c\<lparr>cn_pc := EvSending (state_Snapshot marshal now (ev_engine s))\<rparr>"])
        (use old [OF conn_reads_current(2)] conn_reads_current(2,3) cur in \<open>auto simp: defs split: option.splits intro!: bexI [OF _ cur]\<close>)
  next
    case (conn_sends c snap)
    show ?thesis unfolding conn_sends(1)
      by (rule order_inv_set_conn [OF assms(1), of _ i "c\<lparr>cn_pc := EvServing, cn_sent := cn_sent c @ [snap]\<rparr>"])
        (use old [OF conn_sends(2)] conn_sends(2,3) in \<open>auto simp: defs split: option.split\<close>)
  next
    case (conn_send_fails c snap)
    have "subseq (fed (c\<lparr>cn_pc := EvLeaving\<rparr>)) (fed c)"
      using conn_send_fails(3)
      by (cases "cn_sent c") (auto simp: fed_def trail_def split: option.split intro!: list_emb_append_mono)
    then show ?thesis unfolding conn_send_fails(1)
      by (intro order_inv_set_conn [OF assms(1), of _ i "c\<lparr>cn_pc := EvLeaving\<rparr>"])
        (use old [OF conn_send_fails(2)] conn_send_fails(2,3) fed_from_subseq in \<open>auto simp: first_ok_def\<close>)
  next
    case (conn_takes c snap)
    show ?thesis unfolding conn_takes(1)
      by (rule order_inv_set_conn [OF assms(1), of _ i "c\<lparr>cn_pc := EvSending snap, cn_client := (cn_client c)\<lparr>ec_ch := None\<rparr>\<rparr>"])
        (use old [OF conn_takes(2)] conn_takes(2-4) in \<open>auto simp: defs\<close>)
  next
    case (conn_cancelled c)
    show ?thesis unfolding conn_cancelled(1)
      by (rule order_inv_set_conn [OF assms(1), of _ i "c\<lparr>cn_pc := EvLeaving\<rparr>"])
        (use old [OF conn_cancelled(2)] conn_cancelled(2,3) in \<open>auto simp: defs\<close>)
  next
    case (conn_ping_fails c)
    show ?thesis unfolding conn_ping_fails(1)
      by (rule order_inv_set_conn [OF assms(1), of _ i "c\<lparr>cn_pc := EvLeaving\<rparr>"])
        (use old [OF conn_ping_fails(2)] conn_ping_fails(2,3) in \<open>auto simp: defs\<close>)
  next
    case (conn_read_fails c)
    show ?thesis unfolding conn_read_fails(1)
      by (rule order_inv_set_conn [OF assms(1), of _ i "on_client stop c\<lparr>cn_cancelled := True\<rparr>"])
        (use old [OF conn_read_fails(2)] conn_read_fails(2) in \<open>auto simp: defs\<close>)
  next
    case (conn_leaves c)
    show ?thesis unfolding conn_leaves(1)
      by (rule order_inv_set_conn [OF assms(1), of _ i "on_client stop c\<lparr>cn_pc := EvLeft, cn_cancelled := True\<rparr>"])
        (use old [OF conn_leaves(2)] conn_leaves(2,3) in \<open>auto simp: defs\<close>)
  qed
qed

lemma order_poll:
  assumes "order_inv marshal s" "source_inv s" shows "order_inv marshal (poll_events d z now out s)"
proof -
  obtain q where q: "the_sub s = Some q" "sub_inv q" using assms(2) by (rule source_subE) blast
  let ?t = "poll_events d z now out s"
  show ?thesis using the_sub_poll [OF assms(2) q(1), of d z now out]
  proof (elim disjE exE conjE)
    assume "the_sub ?t = Some q" "ev_history ?t = ev_history s"
    then show ?thesis using q(1) by (intro order_inv_same_conns [OF assms(1)]) (simp_all add: waiting_snaps_def)
  next
    fix snap assume t: "the_sub ?t = Some (fst (enqueue q snap))" "ev_history ?t = ev_history s @ [Some snap]"
    obtain h1 h2 where h: "ev_history s = h1 @ h2" "subseq (waiting_snaps s) h2" "\<And>j c. ev_conns s j = Some c \<Longrightarrow> fed_from marshal h1 (fed c)"
      using assms(1) by (auto simp: order_inv_def)
    have "subseq (map Some (batch_of (ev_pump s))) h2"
      using h(2) unfolding waiting_snaps_def by (meson list_emb_append2 subseq_order.order_trans subseq_order.order_refl subseq_rev_drop_many)
    then have "subseq (waiting_snaps ?t) (h2 @ [Some snap])" using t(1) Latest_enqueue [OF q(2), of snap]
      by (auto simp: waiting_snaps_def intro: list_emb_append_mono)
    moreover have "first_ok marshal (ev_history ?t) c" if "ev_conns s j = Some c" for j c
      using assms(1) that t(2) by (auto simp: order_inv_def first_ok_def)
    moreover have "ev_history ?t = h1 @ (h2 @ [Some snap])" using h(1) t(2) by simp
    ultimately show ?thesis unfolding order_inv_def poll_events_frame using h(3) by blast
  qed
qed

lemma fed_enqueue:
  "conn_ok c \<Longrightarrow> fed_from marshal h1 (fed c) \<Longrightarrow> displays marshal x y \<Longrightarrow>
     fed_from marshal (h1 @ h' @ [x]) (fed (on_client (\<lambda>c. client_enqueue c y) c))"
proof -
  assume a: "conn_ok c" "fed_from marshal h1 (fed c)" "displays marshal x y"
  let ?pre = "if cn_pc c = EvJoining then [] else tl (cn_sent c @ flight (cn_pc c))"
  have "subseq ?pre (fed c)" by (auto simp: fed_def trail_def tl_append split: list.split)
  then have "fed_from marshal (h1 @ h' @ [x]) (?pre @ [y])" using fed_from_snoc [OF fed_from_subseq [OF _ a(2)] a(3)] by blast
  moreover have "subseq (fed (on_client (\<lambda>c. client_enqueue c y) c)) (?pre @ [y])"
    using a(1) by (cases "cn_pc c") (auto simp: fed_def trail_def tl_append conn_ok_def split: list.split)
  ultimately show ?thesis by (rule fed_from_subseq [rotated])
qed

lemma order_pump_step:
  assumes "order_inv marshal s" "source_inv s" "fresh_inv marshal s" "pump_step marshal s t" shows "order_inv marshal t"
proof -
  obtain q where q: "the_sub s = Some q" "sub_inv q" using assms(2) by (rule source_subE) blast
  show ?thesis using assms(4)
  proof cases
    case (pump_notified q0 q')
    show ?thesis unfolding pump_notified(1)
      by (rule order_inv_same_conns [OF assms(1)])
        (use pump_notified(2,3) take_notify_props [OF pump_notified(4)] in \<open>simp_all add: waiting_snaps_def\<close>)
  next
    case (pump_drains q0 q' batch)
    then have "q0 = q" using q by simp
    show ?thesis unfolding pump_drains(1)
      by (rule order_inv_same_conns [OF assms(1)])
        (use pump_drains(2,3) Drain_props [OF q(2) pump_drains(4) [unfolded \<open>q0 = q\<close>]] q in \<open>auto simp: waiting_snaps_def split: option.splits\<close>)
  next
    case (pump_delivers snap rest now)
    obtain h1 h2 where h: "ev_history s = h1 @ h2" "subseq (waiting_snaps s) h2" "\<And>j c. ev_conns s j = Some c \<Longrightarrow> fed_from marshal h1 (fed c)"
      using assms(1) by (auto simp: order_inv_def)
    have w: "waiting_snaps s = Some snap # waiting_snaps t" using pump_delivers(1,2) by (simp add: waiting_snaps_def)
    obtain a b where ab: "h2 = a @ Some snap # b" "subseq (waiting_snaps t) b"
      using h(2) unfolding w by (auto dest: list_emb_ConsD)
    have "fed_from marshal (h1 @ a @ [Some snap]) (fed c')" if c': "ev_conns t j = Some c'" for j c'
    proof -
      obtain c where c: "ev_conns s j = Some c" "c' = c \<or> c' = on_client (\<lambda>c. client_enqueue c (toServer marshal now (Some snap))) c"
        using c' pump_delivers(1) by (auto simp: broadcast_def split: if_splits)
      have "conn_ok c" using assms(3) c(1) by (auto simp: fresh_inv_def)
      then show ?thesis using c(2) h(3) [OF c(1)] fed_enqueue [of c marshal h1 "Some snap" _ a] fed_from_longer [of marshal h1 "fed c" "a @ [Some snap]"]
        by (elim disjE) simp_all
    qed
    moreover have "first_ok marshal (ev_history t) c'" if c': "ev_conns t j = Some c'" for j c'
    proof -
      obtain c where c: "ev_conns s j = Some c" "c' = c \<or> c' = on_client (\<lambda>c. client_enqueue c (toServer marshal now (Some snap))) c"
        using c' pump_delivers(1) by (auto simp: broadcast_def split: if_splits)
      then have "first_ok marshal (ev_history s) c" using assms(1) by (auto simp: order_inv_def)
      then show ?thesis using c(2) pump_delivers(1) by (auto simp: first_ok_def)
    qed
    moreover have "ev_history t = (h1 @ a @ [Some snap]) @ b" using h(1) ab(1) pump_delivers(1) by simp
    ultimately show ?thesis unfolding order_inv_def using ab(2) by blast
  qed (rule order_inv_same_conns [OF assms(1)]; simp add: waiting_snaps_def)+
qed

lemma order_step:
  assumes "events_step d z marshal s t" "source_inv s" "fresh_inv marshal s" "order_inv marshal s" shows "order_inv marshal t"
  using assms
proof (induction rule: events_step.induct)
  case (ev_accepts s i)
  show ?case
    by (rule order_inv_set_conn [OF ev_accepts.prems(3), of _ i "\<lparr>cn_client = newEventClient, cn_pc = EvJoining, cn_cancelled = ev_done s, cn_sent = []\<rparr>"])
      (auto simp: first_ok_def fed_def trail_def newEventClient_def)
next
  case (ev_closes s)
  obtain h1 h2 where h: "ev_history s = h1 @ h2" "\<And>j c. ev_conns s j = Some c \<Longrightarrow> fed_from marshal h1 (fed c)" "subseq (waiting_snaps s) h2"
    using ev_closes.prems(3) by (auto simp: order_inv_def)
  have "\<exists>c0. ev_conns s j = Some c0 \<and> fed c = fed c0 \<and> first_ok marshal (ev_history s) c = first_ok marshal (ev_history s) c0"
    if c: "ev_conns (hub_close s) j = Some c" for j c
  proof -
    obtain c0 where "ev_conns s j = Some c0" "cn_pc c = cn_pc c0" "cn_sent c = cn_sent c0" "ec_ch (cn_client c) = ec_ch (cn_client c0)"
      using c by (auto simp: hub_close_def stop_all_def split: if_splits)
    then show ?thesis by (intro exI [of _ c0]) (simp add: fed_def trail_def first_ok_def)
  qed
  moreover have "first_ok marshal (ev_history s) c" if "ev_conns s j = Some c" for j c using ev_closes.prems(3) that by (auto simp: order_inv_def)
  ultimately have cs: "fed_from marshal h1 (fed c) \<and> first_ok marshal (ev_history s) c" if "ev_conns (hub_close s) j = Some c" for j c
    using that h(2) by metis
  obtain q where q: "the_sub s = Some q" "sub_inv q" using ev_closes.prems(1) by (rule source_subE) blast
  have "Latest (Close q) = None" using Close_props [OF q(2)] by simp
  then have "subseq (waiting_snaps (hub_close s)) (waiting_snaps s)" using q(1)
    by (simp add: waiting_snaps_def hub_close_def the_sub_def Unsubscribe_def subseq_rev_drop_many)
  then have "subseq (waiting_snaps (hub_close s)) h2" using h(3) by (rule subseq_order.order_trans)
  moreover have "ev_history (hub_close s) = ev_history s" by (simp add: hub_close_def)
  ultimately show ?case unfolding order_inv_def using h(1) cs by auto
qed (auto intro: order_poll order_pump_step order_conn_step)

section \<open>The stream a browser sees\<close>

definition stream_inv :: "(Snapshot \<Rightarrow> string option) \<Rightarrow> event_system \<Rightarrow> bool" where
  "stream_inv marshal s \<longleftrightarrow> source_inv s \<and> fresh_inv marshal s \<and> order_inv marshal s"

lemma stream_inv_new:
  assumes "subs_inv e" shows "stream_inv marshal (newHub e)"
proof -
  have "fresh_inv marshal (newHub e)" by (simp add: fresh_inv_def newHub_def split_beta)
  moreover have "subseq (waiting_snaps (newHub e)) [current e]"
  proof (cases "current e")
    case None
    then show ?thesis by (simp add: waiting_snaps_def newHub_def split_beta the_sub_def Subscribe_def Let_def newSubscription_def Latest_def)
  next
    case (Some c)
    have "Latest (fst (enqueue (newSubscription (maxItems e) (maxBytes e)) c)) \<in> {None, Some c}" by (simp add: Latest_enqueue)
    then show ?thesis using Some by (auto simp: waiting_snaps_def newHub_def split_beta the_sub_def Subscribe_def Let_def)
  qed
  then have "order_inv marshal (newHub e)" 
    unfolding order_inv_def by (intro conjI exI [of _ "[]"] exI [of _ "[current e]"]) (simp_all add: newHub_def split_beta)
  ultimately show ?thesis using source_inv_new [OF assms] by (simp add: stream_inv_def)
qed

lemma stream_inv_step: "events_step d z marshal s t \<Longrightarrow> stream_inv marshal s \<Longrightarrow> stream_inv marshal t"
  unfolding stream_inv_def using source_inv_step fresh_step order_step by metis

lemma stream_inv_run: "events_run d z marshal s t \<Longrightarrow> stream_inv marshal s \<Longrightarrow> stream_inv marshal t"
  by (induction rule: events_run.induct) (auto intro: stream_inv_step)


text \<open>A dropped subscription is never replaced.\<close>

definition stalled :: "nat \<Rightarrow> ServerSnapshot list \<Rightarrow> event_system \<Rightarrow> bool" where
  "stalled i sent s \<longleftrightarrow> (\<exists>q. the_sub s = Some q \<and> sub_closed q \<and> sub_pending q = []) \<and> batch_of (ev_pump s) = [] \<and>
     (\<exists>c. ev_conns s i = Some c \<and> cn_sent c = sent \<and> ec_ch (cn_client c) = None \<and> cn_pc c \<in> {EvServing, EvLeaving, EvLeft})"

lemma stalled_conn_step:
  assumes "stalled i sent s" "conn_step marshal j s t" shows "stalled i sent t"
  using assms(2)
  by cases (use assms(1) in \<open>auto simp: stalled_def\<close>)

lemma stalled_pump_step:
  assumes "stalled i sent s" "pump_step marshal s t" shows "stalled i sent t"
  using assms(2)
  by cases (use assms(1) in \<open>auto simp: stalled_def take_notify_def Drain_def\<close>)

lemma stalled_poll:
  assumes "stalled i sent s" "source_inv s" shows "stalled i sent (poll_events d z now out s)"
proof -
  obtain q where q: "the_sub s = Some q" "sub_closed q" "sub_pending q = []" using assms(1) by (auto simp: stalled_def)
  then have "the_sub (poll_events d z now out s) = Some q" using the_sub_poll [OF assms(2) q(1), of d z now out] by (auto simp: enqueue_closed)
  then show ?thesis using assms(1) q by (auto simp: stalled_def)
qed

lemma stalled_step:
  assumes "events_step d z marshal s t" "source_inv s" "stalled i sent s" shows "stalled i sent t"
  using assms
proof (induction rule: events_step.induct)
  case (ev_closes s)
  then show ?case by (auto simp: stalled_def hub_close_def the_sub_def Unsubscribe_def Close_def closeLocked_def stop_all_def)
next
  case (ev_accepts s j)
  then show ?case by (auto simp: stalled_def)
qed (auto intro: stalled_poll stalled_pump_step stalled_conn_step)

lemma stalled_run:
  assumes "events_run d z marshal s t" "stream_inv marshal s" "stalled i sent s" shows "stalled i sent t"
  using assms
proof (induction rule: events_run.induct)
  case (run_on t u)
  then show ?case using stalled_step stream_inv_run unfolding stream_inv_def by metis
qed simp


section \<open>Examples\<close>

lemma subs_inv_example: "subs_inv example_engine"
  using NewEngine_inv [of "\<lparr>cfg_hasSource = True, cfg_PollHot = 0, cfg_PollCold = 0, cfg_MaxQueueItems = 0, cfg_MaxQueueBytes = 0\<rparr>" example_engine example_digest UNIV]
  by (simp add: engine_inv_def NewEngine_def example_engine_def)

lemma example_newHub:
  "ev_pump (newHub example_engine) = PumpWaiting" "ev_engine (newHub example_engine) = fst (Subscribe example_engine)"
  "the_sub (newHub example_engine) = Some (newSubscription 8 4194304)" "ev_conns (newHub example_engine) = Map.empty"
  "ev_done (newHub example_engine) = False" "current example_engine = None"
  by (simp_all add: newHub_def split_beta the_sub_def Subscribe_def Let_def example_engine_def NewEngine_def engine_consts)

lemma example_joined:
  obtains s c where "events_run d z marshal (newHub example_engine) s" "ev_pump s = PumpWaiting" "the_sub s = Some (newSubscription 8 4194304)"
    "ev_engine s = fst (Subscribe example_engine)" "ev_conns s 0 = Some c" "cn_pc c = EvServing" "ec_ch (cn_client c) = None"
    "cn_sent c = [toServer marshal 0 None]"
proof -
  let ?c0 = "\<lparr>cn_client = newEventClient, cn_pc = EvJoining, cn_cancelled = ev_done (newHub example_engine), cn_sent = []\<rparr>"
  let ?c1 = "?c0\<lparr>cn_pc := EvSending (toServer marshal 0 None)\<rparr>"
  let ?c2 = "?c1\<lparr>cn_pc := EvServing, cn_sent := cn_sent ?c1 @ [toServer marshal 0 None]\<rparr>"
  let ?s0 = "newHub example_engine"
  let ?s1 = "set_conn 0 ?c0 (?s0\<lparr>ev_hub := hub_add 0 (ev_hub ?s0)\<rparr>)"
  let ?s2 = "set_conn 0 ?c1 ?s1" and ?s3 = "set_conn 0 ?c2 (set_conn 0 ?c1 ?s1)"
  have 1: "events_run d z marshal ?s0 ?s1"
    by (rule events_run.run_on [OF events_run.run_here events_step.ev_accepts]) (simp add: example_newHub)
  have "conn_step marshal 0 ?s1 (set_conn 0 (?c0\<lparr>cn_pc := EvSending (state_Snapshot marshal 0 (ev_engine ?s1))\<rparr>) ?s1)"
    by (rule conn_step.conn_reads_current) simp_all
  moreover have "state_Snapshot marshal 0 (ev_engine ?s1) = toServer marshal 0 None"
    by (simp add: state_Snapshot_def Current_def example_newHub)
  ultimately have 2: "events_run d z marshal ?s0 ?s2" using events_run.run_on [OF 1 events_step.ev_serves] by simp
  have "conn_step marshal 0 ?s2 ?s3" by (rule conn_step.conn_sends) (simp_all add: example_newHub)
  then have "events_run d z marshal ?s0 ?s3" using events_run.run_on [OF 2 events_step.ev_serves] by blast
  then show ?thesis by (rule that [of ?s3 ?c2]) (simp_all add: example_newHub newEventClient_def)
qed


definition example_large :: "Snapshot \<Rightarrow> int option" where
  "example_large s = Some 5000000"


end
