(* ===== verification/TerminalRoute.thy ===== *)
theory TerminalRoute
  imports TerminalSession MutationGuards
begin

text \<open>
  The terminal route (internal/server/terminalroute.go) and the command it launches (internal/terminal/controller.go): the guards of
  an attachment, the confirmation of a takeover, the bounds of the terminal, composed with the session of the bridge.
\<close>

section \<open>internal/terminal/controller.go\<close>

record Spec =
  sp_PaneID :: string
  sp_Cols :: int
  sp_Rows :: int
  sp_Takeover :: bool

record ExecLauncher =
  ex_BinPath :: string
  ex_SocketPath :: string
  ex_WaitDelay :: duration

text \<open>The command \<open>Launch\<close> builds; starting it is the operating system's business.\<close>

record controller_cmd =
  cc_Path :: string
  cc_Args :: "string list"
  cc_Env :: "string list"
  cc_WaitDelay :: duration

definition Launch :: "string list \<Rightarrow> ExecLauncher \<Rightarrow> Spec \<Rightarrow> controller_cmd option" where
  "Launch environ l spec =
     (if ex_BinPath l = [] then None
      else Some \<lparr>cc_Path = ex_BinPath l,
        cc_Args = [''terminal'', ''session'', ''control'', sp_PaneID spec, ''--cols'', int_literal (sp_Cols spec), ''--rows'', int_literal (sp_Rows spec)] @
          (if sp_Takeover spec then [''--takeover''] else []),
        cc_Env = environ @ (if ex_SocketPath l \<noteq> [] then [''HERDR_SOCKET_PATH='' @ ex_SocketPath l] else []),
        cc_WaitDelay = (if ex_WaitDelay l \<le> 0 then 5000000000 else ex_WaitDelay l)\<rparr>)"

section \<open>internal/server/terminalroute.go\<close>

definition defaultTermCols :: int where "defaultTermCols = 80"
definition defaultTermRows :: int where "defaultTermRows = 24"
definition maxTermDim :: int where "maxTermDim = 10000"

definition takeoverDetail :: "bool \<Rightarrow> string" where
  "takeoverDetail takeover = (if takeover then ''takeover'' else ''attach'')"

definition queryDim :: "string \<Rightarrow> int \<Rightarrow> int" where
  "queryDim v def =
     (if v = [] then def
      else case Atoi v of
        None \<Rightarrow> def
      | Some n \<Rightarrow> if n \<le> 0 then def else if n > maxTermDim then maxTermDim else n)"

text \<open>The path value and the query parameters the handler reads; a missing parameter is the empty string.\<close>

record terminal_request =
  tq_PaneID :: string
  tq_Cols :: string
  tq_Rows :: string
  tq_ExpectedGeneration :: string
  tq_Takeover :: string
  tq_Confirmation :: string

definition terminal_audit :: "string \<Rightarrow> ServerIdentity \<Rightarrow> string \<Rightarrow> AuditEntry" where
  "terminal_audit ev ident paneID = \<lparr>au_Time = 0, au_Event = ''terminal.'' @ ev, au_Subject = [], au_SessionID = sv_SessionID ident,
     au_Operation = [], au_Resource = paneID, au_RequestID = [], au_Result = [], au_Detail = [], au_Bytes = 0\<rparr>"

text \<open>The audit callback handed to the bridge: category, size and reason of an event, never content.\<close>

definition bridge_audit :: "ServerIdentity \<Rightarrow> string \<Rightarrow> Event \<Rightarrow> AuditEntry" where
  "bridge_audit ident paneID ev = (terminal_audit (ev_Kind ev) ident paneID)\<lparr>au_Detail := ev_Reason ev, au_Bytes := ev_Bytes ev\<rparr>"

definition zero_options :: Options where
  "zero_options = \<lparr>MaxOutputFrameBytes = 0, MaxInputBytes = 0, OutQueue = 0, PingInterval = 0, PongTimeout = 0, WriteTimeout = 0, ResizeMinInterval = 0\<rparr>"

text \<open>
  The handler up to \<open>terminal.Run\<close>: an error answer, or the specification and the options it runs the bridge with.
  \<open>upgraded\<close> is the outcome of \<open>websocket.Accept\<close>. The nonce store and the audit entries are threaded.
\<close>

datatype attach = Refused int string string | Attached Spec Options

definition parse_expected :: "string \<Rightarrow> 64 word option" where
  "parse_expected v = (if v = [] then Some 0 else ParseUint v)"

definition handleTerminal ::
  "(string \<Rightarrow> string) \<Rightarrow> floats \<Rightarrow> bool \<Rightarrow> bool \<Rightarrow> (string \<Rightarrow> 64 word option) \<Rightarrow> gotime \<Rightarrow> bool \<Rightarrow> ServerIdentity \<Rightarrow> terminal_request \<Rightarrow> nonceStore \<Rightarrow>
   nonceStore \<times> attach \<times> AuditEntry list" where
  "handleTerminal hexsha fnum launcher filters gen now upgraded ident r nonces =
     (let paneID = tq_PaneID r in
      if paneID = [] then (nonces, Refused 400 codeBadRequest ''missing pane id'', [])
      else if \<not> launcher then (nonces, Refused 503 codeUnavailable ''terminal launcher unavailable'', [])
      else if \<not> filters then (nonces, Refused 503 codeUnavailable ''terminal filtering unavailable'', [])
      else
        let cols = queryDim (tq_Cols r) defaultTermCols; rows = queryDim (tq_Rows r) defaultTermRows in
        case parse_expected (tq_ExpectedGeneration r) of
          None \<Rightarrow> (nonces, Refused 400 codeBadRequest ''invalid generation'', [])
        | Some expectedGen \<Rightarrow>
            if expectedGen = 0 then (nonces, Refused 400 codeGenerationStale ''expected_generation is required to attach a terminal'', [])
            else
              let takeover = (tq_Takeover r = ''1'' \<or> tq_Takeover r = ''true'');
                  norm = (case normalizeParams fnum None of Some n \<Rightarrow> n | None \<Rightarrow> []);
                  (nonces, confirmed) =
                    (if \<not> takeover then (nonces, True)
                     else if tq_Confirmation r = [] then (nonces, False)
                     else consume now (tq_Confirmation r) opTakeover paneID expectedGen (sv_SessionID ident) (hashParams hexsha norm) nonces)
              in if \<not> confirmed then (nonces, Refused 403 codeConfirmationInvalid ''takeover confirmation invalid or expired'', [])
                 else case gen paneID of
                   None \<Rightarrow> (nonces, Refused 409 codeGenerationStale ''pane no longer exists'', [])
                 | Some g \<Rightarrow>
                     if g \<noteq> expectedGen then (nonces, Refused 409 codeGenerationStale ''pane changed; refresh and retry'', [])
                     else if \<not> upgraded then (nonces, Refused 400 codeBadRequest ''websocket upgrade failed'', [])
                     else (nonces, Attached \<lparr>sp_PaneID = paneID, sp_Cols = cols, sp_Rows = rows, sp_Takeover = takeover\<rparr> zero_options,
                       [(terminal_audit ''open'' ident paneID)\<lparr>au_Subject := sv_Subject ident, au_Detail := takeoverDetail takeover\<rparr>]))"

text \<open>A close reason is cut back to the longest valid text that fits.\<close>

fun valid_prefix :: "string \<Rightarrow> nat \<Rightarrow> string" where
  "valid_prefix s 0 = []"
| "valid_prefix s (Suc n) = (if valid_utf8 (take (Suc n) s) then take (Suc n) s else valid_prefix s n)"

definition truncateCloseReason :: "string \<Rightarrow> string" where
  "truncateCloseReason reason =
     (if length reason \<le> 123 \<and> valid_utf8 reason then reason
      else let reason = (if length reason > 123 then take 123 reason else reason) in valid_prefix reason (length reason))"

section \<open>Attaching\<close>

lemma queryDim_bounds: "1 \<le> def \<Longrightarrow> def \<le> maxTermDim \<Longrightarrow> 1 \<le> queryDim v def \<and> queryDim v def \<le> maxTermDim"
  by (auto simp: queryDim_def maxTermDim_def split: option.split)

lemma consume_store_upd: "fst (consume now tok op res g sess h m) = m(tok := None)"
  by (auto simp: consume_def Let_def fun_upd_idem split: option.split)

definition takeover_asked :: "terminal_request \<Rightarrow> bool" where
  "takeover_asked r \<longleftrightarrow> tq_Takeover r = ''1'' \<or> tq_Takeover r = ''true''"

text \<open>What the handler asks of a request for a pane whose generation is \<open>g\<close>.\<close>

definition attachable ::
  "(string \<Rightarrow> string) \<Rightarrow> (string \<Rightarrow> 64 word option) \<Rightarrow> gotime \<Rightarrow> ServerIdentity \<Rightarrow> terminal_request \<Rightarrow> 64 word \<Rightarrow> nonceStore \<Rightarrow> nonceStore \<Rightarrow> bool" where
  "attachable hexsha gen now ident r g nonces nonces' \<longleftrightarrow>
     tq_PaneID r \<noteq> [] \<and> tq_ExpectedGeneration r \<noteq> [] \<and> ParseUint (tq_ExpectedGeneration r) = Some g \<and> g \<noteq> 0 \<and> gen (tq_PaneID r) = Some g \<and>
     (if takeover_asked r
      then tq_Confirmation r \<noteq> [] \<and>
        consume now (tq_Confirmation r) opTakeover (tq_PaneID r) g (sv_SessionID ident) (hashParams hexsha ''{}'') nonces = (nonces', True)
      else nonces' = nonces)"

definition attach_spec :: "terminal_request \<Rightarrow> Spec" where
  "attach_spec r = \<lparr>sp_PaneID = tq_PaneID r, sp_Cols = queryDim (tq_Cols r) defaultTermCols, sp_Rows = queryDim (tq_Rows r) defaultTermRows,
     sp_Takeover = takeover_asked r\<rparr>"

lemma attachedI:
  assumes "attachable hexsha gen now ident r g nonces nonces'"
  shows "\<exists>audits. handleTerminal hexsha fnum True True gen now True ident r nonces = (nonces', Attached (attach_spec r) zero_options, audits)"
  using assms
  by (auto simp: attachable_def handleTerminal_def parse_expected_def Let_def normalizeParams_def attach_spec_def takeover_asked_def split: if_splits)

lemma attachedD:
  assumes "handleTerminal hexsha fnum launcher filters gen now upgraded ident r nonces = (nonces', Attached spec opts, audits)"
  shows "launcher \<and> filters \<and> upgraded \<and> spec = attach_spec r \<and> opts = zero_options \<and> (\<exists>g. attachable hexsha gen now ident r g nonces nonces')"
proof -
  have pl: "launcher" "filters" "tq_PaneID r \<noteq> []" using assms by (auto simp: handleTerminal_def Let_def split: if_splits)
  obtain g where g: "parse_expected (tq_ExpectedGeneration r) = Some g" "g \<noteq> 0"
    using assms pl by (auto simp: handleTerminal_def Let_def split: option.splits if_splits)
  then have pg: "tq_ExpectedGeneration r \<noteq> []" "ParseUint (tq_ExpectedGeneration r) = Some g"
    by (auto simp: parse_expected_def split: if_splits)
  show ?thesis
  proof (cases "takeover_asked r")
    case False
    then show ?thesis using assms pl g pg
      by (auto simp: handleTerminal_def Let_def attachable_def attach_spec_def takeover_asked_def split: option.splits if_splits)
  next
    case True
    obtain m ok where c: "consume now (tq_Confirmation r) opTakeover (tq_PaneID r) g (sv_SessionID ident) (hashParams hexsha ''{}'') nonces = (m, ok)"
      by fastforce
    have t: "tq_Takeover r = ''1'' \<or> tq_Takeover r = ''true''" using True by (simp add: takeover_asked_def)
    have "tq_Confirmation r \<noteq> [] \<and> ok \<and> m = nonces' \<and> gen (tq_PaneID r) = Some g \<and> upgraded \<and> spec = attach_spec r \<and> opts = zero_options"
      using assms pl g t c True
      by (auto simp: handleTerminal_def Let_def normalizeParams_def attach_spec_def split: option.splits if_splits)
    then show ?thesis using pl g pg c True by (auto simp: attachable_def)
  qed
qed

lemma browser_prefix:
  assumes "bridge_reaches opts Filter parse NewANSIFilter s"
  shows "\<exists>rest. snd (Filter NewANSIFilter (concat (map snd (frames_in s)))) = binary_of (to_browser s) @ rest"
proof -
  obtain lost where "continues Filter NewANSIFilter (consumed s) (br_filter (br s)) (on_its_way s lost)"
    using ansi.output_inv_reaches [OF assms] by (auto simp: output_inv_def)
  then have "Filter NewANSIFilter (consumed s @ []) = (fst (Filter (br_filter (br s)) []), on_its_way s lost @ snd (Filter (br_filter (br s)) []))"
    unfolding continues_def by blast
  then have "snd (Filter NewANSIFilter (consumed s)) = on_its_way s lost" by (simp add: ansi.filt_nil)
  then show ?thesis unfolding consumed_def on_its_way_def by auto
qed

lemma zero_options_defaults:
  "MaxInputBytes (term_applyDefaults zero_options) = 65536" "OutQueue (term_applyDefaults zero_options) = 256"
  by (simp_all add: zero_options_def term_applyDefaults_def or_positive_def defaultMaxInputBytes_def defaultOutQueue_def)


definition example_attach :: terminal_request where
  "example_attach = \<lparr>tq_PaneID = ''p'', tq_Cols = ''100000'', tq_Rows = ''0'', tq_ExpectedGeneration = ''1'', tq_Takeover = ''1'',
     tq_Confirmation = randToken ''k''\<rparr>"


section \<open>Close reasons\<close>

lemma valid_prefix_props:
  "valid_prefix s n = take (length (valid_prefix s n)) s \<and> length (valid_prefix s n) \<le> n \<and> valid_utf8 (valid_prefix s n) \<and>
   (\<forall>k\<le>n. valid_utf8 (take k s) \<longrightarrow> length (take k s) \<le> length (valid_prefix s n))"
proof (induction n)
  case 0
  show ?case by (simp add: valid_utf8_def)
next
  case (Suc n)
  show ?case
  proof (cases "valid_utf8 (take (Suc n) s)")
    case True
    then show ?thesis by (auto simp: min_def)
  next
    case False
    then show ?thesis using Suc by (auto simp: le_Suc_eq)
  qed
qed

text \<open>
  What the socket is closed with is valid UTF-8 of at most 123 bytes, the longest such prefix of the intended reason.
\<close>

theorem truncateCloseReason_longest:
  "length (truncateCloseReason reason) \<le> 123 \<and> valid_utf8 (truncateCloseReason reason) \<and>
   truncateCloseReason reason = take (length (truncateCloseReason reason)) reason \<and>
   (\<forall>k\<le>123. valid_utf8 (take k reason) \<longrightarrow> length (take k reason) \<le> length (truncateCloseReason reason))"
proof (cases "length reason \<le> 123 \<and> valid_utf8 reason")
  case True
  then show ?thesis by (simp add: truncateCloseReason_def)
next
  case False
  let ?t = "take 123 reason"
  have r: "truncateCloseReason reason = valid_prefix ?t (length ?t)" using False by (auto simp: truncateCloseReason_def Let_def)
  have p: "valid_prefix ?t (length ?t) = take (length (valid_prefix ?t (length ?t))) ?t" "length (valid_prefix ?t (length ?t)) \<le> length ?t"
    "valid_utf8 (valid_prefix ?t (length ?t))"
    "\<And>k. k \<le> length ?t \<Longrightarrow> valid_utf8 (take k ?t) \<Longrightarrow> length (take k ?t) \<le> length (valid_prefix ?t (length ?t))"
    using valid_prefix_props [of ?t "length ?t"] by blast+
  have "length (take k reason) \<le> length (valid_prefix ?t (length ?t))" if "k \<le> 123" "valid_utf8 (take k reason)" for k
  proof -
    let ?k = "min k (length ?t)"
    have "take ?k ?t = take k reason" using that(1) by (cases "k \<le> length reason") (simp_all add: min_def)
    then show ?thesis using p(4) [OF min.cobounded2, of k] that(2) by metis
  qed
  moreover have "take (length (valid_prefix ?t (length ?t))) ?t = take (length (valid_prefix ?t (length ?t))) reason" 
  proof -
    have "length (valid_prefix ?t (length ?t)) \<le> 123" using p(2) by (rule le_trans) simp
    then show ?thesis by (simp add: min_absorb1)
  qed
  ultimately show ?thesis using p(1,2,3) unfolding r by auto
qed

end
