(* ===== verification/Redact.thy ===== *)
theory Redact
  imports Sanitize
begin

text \<open>
  Secret redaction (internal/security/redact.go): the four patterns of \<open>RedactSecrets\<close> as matchers over runes, the replacement
  passes in their order, and \<open>SanitizeForLog\<close>. The locale \<open>redaction_pass\<close> states when a pass that replaces the matches of one pattern
  leaves no match of another; it is interpreted for every pair the proof needs.
\<close>

section \<open>The patterns of internal/security/redact.go\<close>

text \<open>
  A pattern is a function from the rune before a position and the runes from there on to the length of the leftmost-first
  match at that position. Bytes that are not UTF-8 are read as U+FFFD, as \<open>regexp\<close> reads them. In every pattern the rune that ends
  a repetition lies outside its class, so greedy matching needs no backtracking.
\<close>

definition redacted :: string where "redacted = ''[REDACTED]''"

definition seg_rune :: "rune \<Rightarrow> bool" where
  "seg_rune r \<longleftrightarrow> 0x41 \<le> r \<and> r \<le> 0x5A \<or> 0x61 \<le> r \<and> r \<le> 0x7A \<or> 0x30 \<le> r \<and> r \<le> 0x39 \<or> r = 0x5F \<or> r = 0x2D"

definition token_rune :: "rune \<Rightarrow> bool" where
  "token_rune r \<longleftrightarrow> seg_rune r \<or> r = 0x2B \<or> r = 0x2F \<or> r = 0x3D"

definition word_rune :: "rune \<Rightarrow> bool" where
  "word_rune r \<longleftrightarrow> 0x41 \<le> r \<and> r \<le> 0x5A \<or> 0x61 \<le> r \<and> r \<le> 0x7A \<or> 0x30 \<le> r \<and> r \<le> 0x39 \<or> r = 0x5F"

definition boundary :: "rune option \<Rightarrow> rune list \<Rightarrow> bool" where
  "boundary prev rs = ((case prev of None \<Rightarrow> False | Some p \<Rightarrow> word_rune p) \<noteq> (case rs of [] \<Rightarrow> False | r # _ \<Rightarrow> word_rune r))"

definition ascii :: "string \<Rightarrow> rune list" where
  "ascii s = map ord s"

definition eyJ :: "rune list" where "eyJ = [0x65, 0x79, 0x4A]"

text \<open>One segment and the rest behind it, then a dot and another one.\<close>

definition segment :: "(rune \<Rightarrow> bool) \<Rightarrow> nat \<Rightarrow> rune list \<Rightarrow> nat option" where
  "segment class least rs = (let n = length (takeWhile class rs) in if least \<le> n then Some n else None)"

definition dot_segment :: "rune list \<Rightarrow> nat option" where
  "dot_segment rs = (case rs of [] \<Rightarrow> None | r # rs' \<Rightarrow> if r = 0x2E then map_option Suc (segment seg_rune 1 rs') else None)"

definition jwtPattern :: "rune option \<Rightarrow> rune list \<Rightarrow> nat option" where
  "jwtPattern prev rs =
     (if take 3 rs \<noteq> eyJ then None
      else case segment seg_rune 1 (drop 3 rs) of
        None \<Rightarrow> None
      | Some a \<Rightarrow>
     (case dot_segment (drop (3 + a) rs) of
        None \<Rightarrow> None
      | Some b \<Rightarrow> map_option (\<lambda>c. 3 + a + b + c) (dot_segment (drop (3 + a + b) rs))))"

definition tunnelTokenPattern :: "rune option \<Rightarrow> rune list \<Rightarrow> nat option" where
  "tunnelTokenPattern prev rs =
     (if take 3 rs \<noteq> eyJ then None else map_option (\<lambda>n. 3 + n) (segment token_rune 20 (drop 3 rs)))"

definition pairPattern :: "rune option \<Rightarrow> rune list \<Rightarrow> nat option" where
  "pairPattern prev rs =
     (if boundary prev rs \<and> map fold_rune (take 5 rs) = ascii ''pair=''
      then map_option (\<lambda>n. 5 + n) (segment seg_rune 1 (drop 5 rs)) else None)"

definition headerNames :: "string list" where
  "headerNames = [''cf-access-jwt-assertion'', ''cf-access-client-secret'', ''cf-access-client-id'', ''cf_authorization'', ''authorization'',
     ''cookie'', ''set-cookie'', ''x-csrf-token'']"

definition header_value :: "rune list \<Rightarrow> nat option" where
  "header_value rs =
     (let blanks = length (takeWhile (\<lambda>r. r = 0x20 \<or> r = 0x09) rs)
      in case drop blanks rs of
           [] \<Rightarrow> None
         | r # rest \<Rightarrow> if r = 0x3A \<or> r = 0x3D then Some (blanks + 1 + length (takeWhile (\<lambda>r. r \<noteq> 0x0D \<and> r \<noteq> 0x0A) rest)) else None)"

definition header_with :: "rune list \<Rightarrow> string \<Rightarrow> nat option" where
  "header_with rs name =
     (if map fold_rune (take (length name) rs) = ascii name
      then map_option (\<lambda>n. length name + n) (header_value (drop (length name) rs)) else None)"

fun first_some :: "('a \<Rightarrow> 'b option) \<Rightarrow> 'a list \<Rightarrow> 'b option" where
  "first_some f [] = None"
| "first_some f (x # xs) = (case f x of None \<Rightarrow> first_some f xs | Some y \<Rightarrow> Some y)"

definition headerPattern :: "rune option \<Rightarrow> rune list \<Rightarrow> nat option" where
  "headerPattern prev rs = (if boundary prev rs then first_some (header_with rs) headerNames else None)"

section \<open>\<open>RedactSecrets\<close>\<close>

text \<open>
  \<open>ReplaceAllStringFunc\<close> over the decoded runes, each kept with the bytes it came from. \<open>f\<close> gets the matched runes; no pattern
  matches the empty string.
\<close>

type_synonym chunk = "rune \<times> string"

function replace_all :: "(rune option \<Rightarrow> rune list \<Rightarrow> nat option) \<Rightarrow> (chunk list \<Rightarrow> chunk list) \<Rightarrow> rune option \<Rightarrow> chunk list \<Rightarrow> chunk list" where
  "replace_all m f prev [] = []"
| "replace_all m f prev (c # cs) =
     (case m prev (map fst (c # cs)) of
        Some (Suc n) \<Rightarrow> f (take (Suc n) (c # cs)) @ replace_all m f (Some (fst (last (take (Suc n) (c # cs))))) (drop n cs)
      | _ \<Rightarrow> c # replace_all m f (Some (fst c)) cs)"
  by pat_completeness auto
termination by (relation "measure (length \<circ> snd \<circ> snd \<circ> snd)") auto

definition plain :: "string \<Rightarrow> chunk list" where
  "plain s = map (\<lambda>c. (ord c, [c])) s"

definition header_repl :: "chunk list \<Rightarrow> chunk list" where
  "header_repl t =
     (let key = takeWhile (\<lambda>c. fst c \<noteq> 0x3A \<and> fst c \<noteq> 0x3D) t
      in if key = t then plain redacted else take (length key + 1) t @ plain ('' '' @ redacted))"

definition ReplaceAll :: "(rune option \<Rightarrow> rune list \<Rightarrow> nat option) \<Rightarrow> (chunk list \<Rightarrow> chunk list) \<Rightarrow> string \<Rightarrow> string" where
  "ReplaceAll m f s = concat (map snd (replace_all m f None (rune_chunks s)))"

definition RedactSecrets :: "string \<Rightarrow> string" where
  "RedactSecrets s =
     (let s = ReplaceAll headerPattern header_repl s;
          s = ReplaceAll jwtPattern (\<lambda>_. plain redacted) s;
          s = ReplaceAll tunnelTokenPattern (\<lambda>_. plain redacted) s
      in ReplaceAll pairPattern (\<lambda>_. plain (''pair='' @ redacted)) s)"

definition SanitizeForLog :: "string \<Rightarrow> string" where
  "SanitizeForLog s = SanitizeLogLine (RedactSecrets s)"

section \<open>Decoding around ASCII\<close>

lemma ascii_not_cont: "ord c < 0x80 \<Longrightarrow> \<not> is_cont c \<and> \<not> second_ok b c"
  by (auto simp: is_cont_def second_ok_def second_lo_def split: if_splits)

lemma decode_rune_before_ascii:
  assumes "u \<noteq> []" "ord c < 0x80" shows "decode_rune (u @ c # v) = decode_rune u"
proof -
  note c = ascii_not_cont [OF assms(2)]
  consider a where "u = [a]" | a b where "u = [a, b]" | a b d where "u = [a, b, d]" | a b d e w where "u = a # b # d # e # w"
    using assms(1) by (metis list.exhaust)
  then show ?thesis
  proof cases
    case 1
    then show ?thesis using c by (cases v; cases "tl v") (simp_all add: decode_rune.simps(2) split: list.split)
  next
    case 2
    then show ?thesis using c by (cases v) (simp_all add: decode_rune.simps(2))
  next
    case 3
    then show ?thesis using c by (simp add: decode_rune.simps(2))
  next
    case 4
    then show ?thesis by (simp add: decode_rune.simps(2))
  qed
qed

lemma rune_chunks_before_ascii: "ord c < 0x80 \<Longrightarrow> rune_chunks (u @ c # v) = rune_chunks u @ rune_chunks (c # v)"
proof (induction u rule: rune_chunks.induct)
  case (1 u)
  show ?case
  proof (cases "u = []")
    case False
    have w: "snd (decode_rune u) \<le> length u" using decode_rune_width [OF False] by simp
    have "rune_chunks (u @ c # v) = (fst (decode_rune u), take (snd (decode_rune u)) u) # rune_chunks (drop (snd (decode_rune u)) u @ c # v)"
      using decode_rune_before_ascii [OF False 1(2)] w by (simp add: rune_chunks.simps [of "u @ c # v"])
    then show ?thesis using 1(1) [OF False 1(2)] False by (simp add: rune_chunks.simps [of u])
  qed simp
qed

lemma rune_chunks_ascii: "ord c < 0x80 \<Longrightarrow> rune_chunks (c # v) = (ord c, [c]) # rune_chunks v"
  using rune_chunks_append [of "[c]" v "ord c"] by (simp add: decode_rune.simps(2))


text \<open>A list of chunks that is the decoding of its own bytes.\<close>

definition well :: "chunk list \<Rightarrow> bool" where
  "well cs \<longleftrightarrow> rune_chunks (concat (map snd cs)) = cs"

lemma well_rune_chunks [simp]: "well (rune_chunks s)"
  by (simp add: well_def rune_chunks_concat)

lemma well_Nil [simp]: "well []"
  by (simp add: well_def)

lemma rune_chunks_nonempty: "k \<in> set (rune_chunks z) \<Longrightarrow> snd k \<noteq> []"
proof (induction z rule: rune_chunks.induct)
  case (1 z)
  then show ?case using decode_rune_width [of z] by (cases "z = []") (auto simp: rune_chunks.simps [of z])
qed

lemma same_bytes:
  "us @ vs = us' @ vs' \<Longrightarrow> concat (map snd us) = concat (map snd us') \<Longrightarrow> \<forall>k\<in>set (us @ vs). snd k \<noteq> [] \<Longrightarrow> us = us'"
proof (induction us arbitrary: us')
  case Nil
  then show ?case by (cases us') auto
next
  case (Cons u us)
  then show ?case by (cases us') auto
qed

lemma well_split:
  assumes "ord c < 0x80" shows "well (xs @ (ord c, [c]) # ys) \<longleftrightarrow> well xs \<and> well ys"
proof -
  let ?x = "concat (map snd xs)" and ?y = "concat (map snd ys)"
  have eq: "rune_chunks (?x @ c # ?y) = rune_chunks ?x @ (ord c, [c]) # rune_chunks ?y"
    using rune_chunks_before_ascii [OF assms, of ?x ?y] rune_chunks_ascii [OF assms, of ?y] by simp
  have "rune_chunks ?x = xs" if w: "rune_chunks (?x @ c # ?y) = xs @ (ord c, [c]) # ys"
  proof (rule same_bytes)
    show "rune_chunks ?x @ (ord c, [c]) # rune_chunks ?y = xs @ (ord c, [c]) # ys" using w eq by simp
    show "\<forall>k\<in>set (rune_chunks ?x @ (ord c, [c]) # rune_chunks ?y). snd k \<noteq> []" using rune_chunks_nonempty by auto
  qed (simp add: rune_chunks_concat)
  then show ?thesis unfolding well_def using eq by auto
qed

lemma well_plain:
  "list_all (\<lambda>c. ord c < 0x80) s \<Longrightarrow> s \<noteq> [] \<Longrightarrow> well (xs @ plain s @ ys) \<longleftrightarrow> well xs \<and> well ys"
proof (induction s arbitrary: xs)
  case (Cons c s)
  have eq: "well (xs @ plain (c # s) @ ys) \<longleftrightarrow> well xs \<and> well ([] @ plain s @ ys)"
    using Cons.prems well_split [of c xs "plain s @ ys"] by (simp add: plain_def)
  show ?case
  proof (cases "s = []")
    case True
    then show ?thesis using eq by (simp add: plain_def)
  next
    case False
    then show ?thesis using eq Cons.IH [of "[]"] Cons.prems(1) by simp
  qed
qed simp

lemma chunk_ascii: "k \<in> set (rune_chunks z) \<Longrightarrow> fst k < 0x80 \<Longrightarrow> \<exists>c. ord c < 0x80 \<and> k = (ord c, [c])"
proof (induction z rule: rune_chunks.induct)
  case (1 z)
  obtain b t where z: "z = b # t" using 1(2) by (cases z) auto
  obtain r n where d: "decode_rune (b # t) = (r, n)" by fastforce
  have "\<exists>c. ord c < 0x80 \<and> (r, take n (b # t)) = (ord c, [c])" if "r < 0x80"
    using d by (cases rule: decode_rune_cases) (use that in \<open>auto simp: RuneError_def second_ok_def second_lo_def is_cont_def split: if_splits\<close>)
  moreover have "k = (r, take n (b # t)) \<or> k \<in> set (rune_chunks (drop n z))" using 1(2) z d by (auto simp: rune_chunks.simps [of "b # t"])
  ultimately show ?case using 1(1) [OF _ _ 1(3)] z d 1(3) by auto
qed

lemma well_ascii_block:
  assumes "well (xs @ t @ ys)" "t \<noteq> []" "list_all (\<lambda>k. fst k < 0x80) t" shows "well xs \<and> well ys"
proof -
  have "\<forall>k\<in>set t. \<exists>c. ord c < 0x80 \<and> k = (ord c, [c])"
    using assms(1,3) chunk_ascii [of _ "concat (map snd (xs @ t @ ys))"] unfolding well_def list_all_iff by auto
  then have "t = plain (map (\<lambda>k. hd (snd k)) t)" "list_all (\<lambda>c. ord c < 0x80) (map (\<lambda>k. hd (snd k)) t)"
    by (auto simp: plain_def list_all_iff map_idI intro!: map_idI [symmetric])
  then show ?thesis using well_plain [of "map (\<lambda>k. hd (snd k)) t" xs ys] assms(1,2) by simp
qed

text \<open>A pass that replaces ASCII matches by an ASCII constant.\<close>

locale ascii_redaction =
  fixes m :: "rune option \<Rightarrow> rune list \<Rightarrow> nat option" and R :: string
  assumes bounds: "m p xs = Some n \<Longrightarrow> 0 < n \<and> n \<le> length xs \<and> list_all (\<lambda>r. r < 0x80) (take n xs)"
    and R_ascii: "R \<noteq> [] \<and> list_all (\<lambda>c. ord c < 0x80) R"
begin

lemma well_pass: "well (gap @ cs) \<Longrightarrow> well (gap @ replace_all m (\<lambda>_. plain R) p cs)"
proof (induction cs arbitrary: gap p rule: length_induct)
  case (1 cs)
  show ?case
  proof (cases cs)
    case (Cons c cs')
    show ?thesis
    proof (cases "m p (map fst cs)")
      case None
      have "well ((gap @ [c]) @ replace_all m (\<lambda>_. plain R) (Some (fst c)) cs')"
        using 1 Cons by (intro 1(1) [rule_format]) simp_all
      then show ?thesis using Cons None by simp
    next
      case (Some n)
      note b = bounds [OF Some]
      then obtain k where k: "n = Suc k" by (cases n) auto
      let ?t = "take n cs" and ?d = "drop n cs" and ?p = "Some (fst (last (take n cs)))"
      have "list_all (\<lambda>k. fst k < 0x80) ?t" using b by (simp add: list_all_iff take_map)
      then have "well gap \<and> well ?d" using 1(2) b Cons by (intro well_ascii_block [of gap ?t ?d]) auto
      then have "well ([] @ replace_all m (\<lambda>_. plain R) ?p ?d)" using b Cons by (intro 1(1) [rule_format]) simp_all
      then have "well (gap @ plain R @ replace_all m (\<lambda>_. plain R) ?p ?d)"
        using well_plain [of R gap] R_ascii \<open>well gap \<and> well ?d\<close> by simp
      then show ?thesis using Cons Some k by simp
    qed
  qed (use 1 in simp)
qed

lemma runes_pass: "runes (ReplaceAll m (\<lambda>_. plain R) s) = map fst (replace_all m (\<lambda>_. plain R) None (rune_chunks s))"
  using well_pass [of "[]" "rune_chunks s" None] by (simp add: runes_def ReplaceAll_def well_def rune_chunks_concat)

end

section \<open>No match is left\<close>

fun free :: "(rune option \<Rightarrow> rune list \<Rightarrow> nat option) \<Rightarrow> rune option \<Rightarrow> rune list \<Rightarrow> bool" where
  "free m p [] = True"
| "free m p (r # rs) = (m p (r # rs) = None \<and> free m (Some r) rs)"

text \<open>Where the pattern \<open>k\<close> does not match, neither does \<open>m\<close>.\<close>

fun within :: "(rune option \<Rightarrow> rune list \<Rightarrow> nat option) \<Rightarrow> (rune option \<Rightarrow> rune list \<Rightarrow> nat option) \<Rightarrow> rune option \<Rightarrow> rune list \<Rightarrow> bool" where
  "within m k p [] = True"
| "within m k p (r # rs) = ((k p (r # rs) = None \<longrightarrow> m p (r # rs) = None) \<and> within m k (Some r) rs)"

lemma within_self: "within m m p rs"
  by (induction rs arbitrary: p) auto

lemma within_free: "free m p rs \<Longrightarrow> within m k p rs"
  by (induction rs arbitrary: p) auto

lemma within_drop: "within m k p rs \<Longrightarrow> 0 < n \<Longrightarrow> n \<le> length rs \<Longrightarrow> within m k (Some (last (take n rs))) (drop n rs)"
proof (induction n arbitrary: p rs)
  case (Suc n)
  then show ?case by (cases rs; cases n) auto
qed simp

locale redaction_pass = ascii_redaction k R for k R +
  fixes m :: "rune option \<Rightarrow> rune list \<Rightarrow> nat option" and A B :: "rune list"
  assumes breaks: "m p (xs @ 0x5B # ys) \<noteq> None \<Longrightarrow> m p xs \<noteq> None"
    and R_split: "ascii R = A @ 0x5B # B" "last (ascii R) = 0x5D"
    and covers: "k q t \<noteq> None \<Longrightarrow> m p (g @ A) \<noteq> None \<Longrightarrow> m p (g @ t) \<noteq> None"
    and after: "k q t = Some n \<Longrightarrow> n < length t \<Longrightarrow> m p (t ! n # ys) = m p' (t ! n # ys)"
    and R_free: "free m (Some 0x5D) xs \<Longrightarrow> free m p (ascii R @ xs)"
begin

lemma map_plain: "map fst (plain R) = ascii R"
  by (simp add: plain_def ascii_def)

lemma gap_form:
  "\<exists>g t. map fst cs = g @ t \<and>
     (t = [] \<and> map fst (replace_all k (\<lambda>_. plain R) p cs) = g \<or>
      (\<exists>q o'. k q t \<noteq> None \<and> map fst (replace_all k (\<lambda>_. plain R) p cs) = g @ ascii R @ o'))"
proof (induction cs arbitrary: p)
  case (Cons c cs)
  show ?case
  proof (cases "k p (map fst (c # cs))")
    case None
    obtain g t where g: "map fst cs = g @ t" "t = [] \<and> map fst (replace_all k (\<lambda>_. plain R) (Some (fst c)) cs) = g \<or>
        (\<exists>q o'. k q t \<noteq> None \<and> map fst (replace_all k (\<lambda>_. plain R) (Some (fst c)) cs) = g @ ascii R @ o')"
      using Cons.IH by blast
    then show ?thesis using None by (intro exI [of _ "fst c # g"] exI [of _ t]) auto
  next
    case (Some n)
    then obtain j where "n = Suc j" using bounds [OF Some] by (cases n) auto
    then show ?thesis using Some map_plain by (intro exI [of _ "[]"] exI [of _ "map fst (c # cs)"]) auto
  qed
qed simp

lemma free_pass:
  assumes "within m k p (map fst cs)" "\<And>c cs' ys. cs = c # cs' \<Longrightarrow> m p' (fst c # ys) = m p (fst c # ys)"
  shows "free m p' (map fst (replace_all k (\<lambda>_. plain R) p cs))"
  using assms
proof (induction cs arbitrary: p p' rule: length_induct)
  case (1 cs)
  show ?case
  proof (cases cs)
    case (Cons c cs')
    show ?thesis
    proof (cases "k p (map fst cs)")
      case None
      let ?out = "map fst (replace_all k (\<lambda>_. plain R) (Some (fst c)) cs')"
      have "free m (Some (fst c)) ?out" using 1(2) Cons by (intro 1(1) [rule_format]) auto
      moreover have "m p (fst c # ?out) = None"
      proof (rule ccontr)
        assume bad: "m p (fst c # ?out) \<noteq> None"
        have none: "m p (map fst cs) = None" using 1(2) Cons None by simp
        obtain g t where g: "map fst cs' = g @ t" "t = [] \<and> ?out = g \<or> (\<exists>q o'. k q t \<noteq> None \<and> ?out = g @ ascii R @ o')"
          using gap_form [of cs' "Some (fst c)"] by (elim exE conjE) (rule that)
        from g(2) show False
        proof (elim disjE exE conjE)
          assume "t = []" "?out = g"
          then show False using bad none g(1) Cons by simp
        next
          fix q o' assume t: "k q t \<noteq> None" "?out = g @ ascii R @ o'"
          then have "m p ((fst c # g @ A) @ 0x5B # B @ o') \<noteq> None" using bad R_split by simp
          then have "m p ((fst c # g) @ A) \<noteq> None" using breaks [of p "fst c # g @ A"] by simp
          then have "m p ((fst c # g) @ t) \<noteq> None" by (rule covers [OF t(1)])
          then show False using none g(1) Cons by simp
        qed
      qed
      moreover have "m p' (fst c # ?out) = m p (fst c # ?out)" by (rule 1(3) [OF Cons])
      ultimately show ?thesis using Cons None by simp
    next
      case (Some n)
      note b = bounds [OF Some]
      then obtain j where j: "n = Suc j" by (cases n) auto
      let ?p = "Some (fst (last (take n cs)))"
      have "within m k (Some (last (take n (map fst cs)))) (drop n (map fst cs))" using within_drop [OF 1(2), of n] b by simp
      moreover have "take n cs \<noteq> []" using b Cons by auto
      then have "last (take n (map fst cs)) = fst (last (take n cs))" unfolding take_map by (rule last_map)
      ultimately have w: "within m k ?p (map fst (drop n cs))" by (simp add: drop_map)
      have "free m (Some 0x5D) (map fst (replace_all k (\<lambda>_. plain R) ?p (drop n cs)))"
      proof (rule 1(1) [rule_format])
        show "length (drop n cs) < length cs" using b Cons by simp
        show "within m k ?p (map fst (drop n cs))" by (rule w)
        fix d ds ys assume d: "drop n cs = d # ds"
        then have "n < length cs" "cs ! n = d" by (metis drop_all list.distinct(1) not_le, metis nth_via_drop)
        then show "m (Some 0x5D) (fst d # ys) = m ?p (fst d # ys)" using after [OF Some, of _ ys] by simp
      qed
      then have "free m p' (ascii R @ map fst (replace_all k (\<lambda>_. plain R) ?p (drop n cs)))" by (rule R_free)
      then show ?thesis using Cons Some j map_plain by simp
    qed
  qed simp
qed

lemma redacts: "within m k None (runes s) \<Longrightarrow> free m None (runes (ReplaceAll k (\<lambda>_. plain R) s))"
  using free_pass [of None "rune_chunks s" None] runes_pass [of s] by (simp add: runes_def)

end

section \<open>What the patterns match\<close>

lemma segment_iff: "segment P l rs \<noteq> None \<longleftrightarrow> (\<exists>a b. rs = a @ b \<and> l \<le> length a \<and> list_all P a)"
proof
  assume "segment P l rs \<noteq> None"
  then have "l \<le> length (takeWhile P rs)" by (auto simp: segment_def Let_def split: if_splits)
  moreover have "list_all P (takeWhile P rs)" by (auto simp: list_all_iff dest: set_takeWhileD)
  ultimately show "\<exists>a b. rs = a @ b \<and> l \<le> length a \<and> list_all P a" by (metis takeWhile_dropWhile_id)
next
  assume "\<exists>a b. rs = a @ b \<and> l \<le> length a \<and> list_all P a"
  then obtain a b where a: "rs = a @ b" "l \<le> length a" "list_all P a" by blast
  then have "length a \<le> length (takeWhile P rs)" by (simp add: list_all_iff)
  then show "segment P l rs \<noteq> None" using a(2) by (simp add: segment_def)
qed

lemma segment_Some:
  "segment P l rs = Some n \<Longrightarrow> l \<le> n \<and> n \<le> length rs \<and> list_all P (take n rs) \<and> (n < length rs \<longrightarrow> \<not> P (rs ! n))"
proof -
  assume "segment P l rs = Some n"
  then have n: "n = length (takeWhile P rs)" "l \<le> n" by (auto simp: segment_def Let_def split: if_splits)
  then have "take n rs = takeWhile P rs" by (metis takeWhile_eq_take)
  moreover have "list_all P (takeWhile P rs)" by (auto simp: list_all_iff dest: set_takeWhileD)
  ultimately show ?thesis using n length_takeWhile_le nth_length_takeWhile by metis
qed

lemma seg_ascii: "seg_rune r \<Longrightarrow> r < 0x80" "token_rune r \<Longrightarrow> r < 0x80"
  by (auto simp: seg_rune_def token_rune_def)

lemma segment_stop: "list_all P a \<Longrightarrow> \<not> P d \<Longrightarrow> segment P l (a @ d # r) = (if l \<le> length a then Some (length a) else None)"
  by (simp add: segment_def list_all_iff)

lemma dot_not_seg [simp]: "\<not> seg_rune 0x2E"
  by (simp add: seg_rune_def)

lemma segment_parts: "segment P l rs = Some n \<Longrightarrow> \<exists>a b. rs = a @ b \<and> length a = n \<and> l \<le> n \<and> list_all P a \<and> (b \<noteq> [] \<longrightarrow> \<not> P (hd b))"
  using segment_Some [of P l rs n] by (intro exI [of _ "take n rs"] exI [of _ "drop n rs"]) (auto simp: hd_drop_conv_nth)

lemma dot_segment_parts:
  "dot_segment rs = Some n \<Longrightarrow> \<exists>a b. rs = 0x2E # a @ b \<and> Suc (length a) = n \<and> a \<noteq> [] \<and> list_all seg_rune a \<and> (b \<noteq> [] \<longrightarrow> \<not> seg_rune (hd b))"
  by (cases rs) (fastforce simp: dot_segment_def split: if_splits dest: segment_parts)+

lemma dot_segment_stop: "list_all seg_rune a \<Longrightarrow> a \<noteq> [] \<Longrightarrow> dot_segment (0x2E # a @ 0x2E # r) = Some (Suc (length a))"
  by (simp add: dot_segment_def segment_stop Suc_le_eq)

lemma jwt_parts:
  assumes "jwtPattern p rs = Some n"
  shows "\<exists>a b c d. rs = eyJ @ a @ 0x2E # b @ 0x2E # c @ d \<and> n = length a + length b + length c + 5 \<and> a \<noteq> [] \<and> b \<noteq> [] \<and> c \<noteq> [] \<and>
    list_all seg_rune a \<and> list_all seg_rune b \<and> list_all seg_rune c \<and> (d \<noteq> [] \<longrightarrow> \<not> seg_rune (hd d))"
proof -
  obtain x y z where m: "take 3 rs = eyJ" "segment seg_rune 1 (drop 3 rs) = Some x" "dot_segment (drop (3 + x) rs) = Some y"
    "dot_segment (drop (3 + x + y) rs) = Some z" "n = 3 + x + y + z"
    using assms by (auto simp: jwtPattern_def split: if_splits option.splits)
  obtain a r1 where a: "drop 3 rs = a @ r1" "length a = x" "1 \<le> x" "list_all seg_rune a" using segment_parts [OF m(2)] by blast
  have r1: "drop (3 + x) rs = r1" using a by (metis add.commute append_eq_conv_conj drop_drop)
  then obtain b r2 where b: "r1 = 0x2E # b @ r2" "Suc (length b) = y" "b \<noteq> []" "list_all seg_rune b"
    using dot_segment_parts [OF m(3)] by auto
  have "drop (3 + x + y) rs = drop y r1" using r1 by (metis add.commute drop_drop)
  also have "drop y r1 = r2" unfolding b(1) b(2) [symmetric] by simp
  finally have r2: "drop (3 + x + y) rs = r2" .
  then obtain c d where c: "r2 = 0x2E # c @ d" "Suc (length c) = z" "c \<noteq> []" "list_all seg_rune c" "d \<noteq> [] \<longrightarrow> \<not> seg_rune (hd d)"
    using dot_segment_parts [OF m(4)] by auto
  have "rs = eyJ @ a @ r1" using m(1) a(1) by (metis append_take_drop_id)
  then have "rs = eyJ @ a @ 0x2E # b @ 0x2E # c @ d" using b(1) c(1) by simp
  moreover have "n = length a + length b + length c + 5" using a(2) b(2) c(2) m(5) by linarith
  moreover have "a \<noteq> []" using a(2,3) by force
  ultimately show ?thesis using a(4) b(3,4) c(3,4,5) by (intro exI [of _ a] exI [of _ b] exI [of _ c] exI [of _ d] conjI)
qed

lemma jwt_iff:
  "jwtPattern p rs \<noteq> None \<longleftrightarrow> (\<exists>a b c d. rs = (eyJ @ a @ 0x2E # b @ 0x2E # c) @ d \<and> a \<noteq> [] \<and> b \<noteq> [] \<and> c \<noteq> [] \<and>
     list_all seg_rune a \<and> list_all seg_rune b \<and> list_all seg_rune c)"
proof
  assume "jwtPattern p rs \<noteq> None"
  then obtain n where "jwtPattern p rs = Some n" by blast
  from jwt_parts [OF this] obtain a b c d where "rs = eyJ @ a @ 0x2E # b @ 0x2E # c @ d" "a \<noteq> []" "b \<noteq> []" "c \<noteq> []"
    "list_all seg_rune a" "list_all seg_rune b" "list_all seg_rune c" by blast
  then show "\<exists>a b c d. rs = (eyJ @ a @ 0x2E # b @ 0x2E # c) @ d \<and> a \<noteq> [] \<and> b \<noteq> [] \<and> c \<noteq> [] \<and>
     list_all seg_rune a \<and> list_all seg_rune b \<and> list_all seg_rune c"
    by (intro exI [of _ a] exI [of _ b] exI [of _ c] exI [of _ d]) simp
next
  assume "\<exists>a b c d. rs = (eyJ @ a @ 0x2E # b @ 0x2E # c) @ d \<and> a \<noteq> [] \<and> b \<noteq> [] \<and> c \<noteq> [] \<and>
     list_all seg_rune a \<and> list_all seg_rune b \<and> list_all seg_rune c"
  then obtain a b c d where rs: "rs = eyJ @ a @ 0x2E # b @ 0x2E # c @ d" and ne: "a \<noteq> []" "b \<noteq> []" "c \<noteq> []"
    and seg: "list_all seg_rune a" "list_all seg_rune b" "list_all seg_rune c" by auto
  have 1: "drop 3 rs = a @ 0x2E # b @ 0x2E # c @ d" "take 3 rs = eyJ" unfolding rs by (simp_all add: eyJ_def)
  then have 2: "drop (3 + length a) rs = 0x2E # b @ 0x2E # c @ d" by (metis add.commute append_eq_conv_conj drop_drop)
  then have "drop (3 + length a + Suc (length b)) rs = drop (Suc (length b)) (0x2E # b @ 0x2E # c @ d)" by (metis add.commute drop_drop)
  then have 3: "drop (3 + length a + Suc (length b)) rs = 0x2E # c @ d" by simp
  have "dot_segment (0x2E # c @ d) \<noteq> None" using segment_iff [of seg_rune 1 "c @ d"] ne(3) seg(3)
    by (auto simp: dot_segment_def Suc_le_eq)
  moreover have "segment seg_rune 1 (drop 3 rs) = Some (length a)" unfolding 1 using ne(1) seg(1) by (simp add: segment_stop Suc_le_eq)
  moreover have "dot_segment (drop (3 + length a) rs) = Some (Suc (length b))" unfolding 2 using ne(2) seg(2) by (rule dot_segment_stop [rotated])
  ultimately show "jwtPattern p rs \<noteq> None" using 3 by (simp add: jwtPattern_def 1(2))
qed

lemma prefix_before: "u @ r = xs @ z # ys \<Longrightarrow> z \<notin> set u \<Longrightarrow> \<exists>r'. xs = u @ r'"
  by (auto simp: append_eq_append_conv2 append_eq_Cons_conv)

lemma tunnel_iff:
  "tunnelTokenPattern p rs \<noteq> None \<longleftrightarrow> (\<exists>a d. rs = (eyJ @ a) @ d \<and> 20 \<le> length a \<and> list_all token_rune a)"
proof
  assume "tunnelTokenPattern p rs \<noteq> None"
  then have m: "take 3 rs = eyJ" "segment token_rune 20 (drop 3 rs) \<noteq> None" by (auto simp: tunnelTokenPattern_def split: if_splits)
  then obtain a d where "drop 3 rs = a @ d" "20 \<le> length a" "list_all token_rune a" unfolding segment_iff by blast
  moreover from this have "rs = (eyJ @ a) @ d" using m(1) by (metis append.assoc append_take_drop_id)
  ultimately show "\<exists>a d. rs = (eyJ @ a) @ d \<and> 20 \<le> length a \<and> list_all token_rune a" by blast
next
  assume "\<exists>a d. rs = (eyJ @ a) @ d \<and> 20 \<le> length a \<and> list_all token_rune a"
  then obtain a d where rs: "rs = (eyJ @ a) @ d" and a: "20 \<le> length a" "list_all token_rune a" by blast
  have "take 3 rs = eyJ" "drop 3 rs = a @ d" unfolding rs by (simp_all add: eyJ_def)
  then show "tunnelTokenPattern p rs \<noteq> None" using segment_iff [of token_rune 20 "a @ d"] a by (auto simp: tunnelTokenPattern_def)
qed

lemma pair_iff:
  "pairPattern p rs \<noteq> None \<longleftrightarrow> boundary p rs \<and> (\<exists>h a d. rs = (h @ a) @ d \<and> map fold_rune h = ascii ''pair='' \<and> a \<noteq> [] \<and> list_all seg_rune a)"
proof
  assume "pairPattern p rs \<noteq> None"
  then have m: "boundary p rs" "map fold_rune (take 5 rs) = ascii ''pair=''" "segment seg_rune 1 (drop 5 rs) \<noteq> None"
    by (auto simp: pairPattern_def split: if_splits)
  then obtain a d where "drop 5 rs = a @ d" "1 \<le> length a" "list_all seg_rune a" unfolding segment_iff by blast
  moreover from this have "rs = (take 5 rs @ a) @ d" by (metis append.assoc append_take_drop_id)
  ultimately show "boundary p rs \<and> (\<exists>h a d. rs = (h @ a) @ d \<and> map fold_rune h = ascii ''pair='' \<and> a \<noteq> [] \<and> list_all seg_rune a)"
    using m by (intro conjI exI [of _ "take 5 rs"] exI [of _ a] exI [of _ d]) auto
next
  assume a: "boundary p rs \<and> (\<exists>h a d. rs = (h @ a) @ d \<and> map fold_rune h = ascii ''pair='' \<and> a \<noteq> [] \<and> list_all seg_rune a)"
  then obtain h a d where rs: "rs = (h @ a) @ d" "map fold_rune h = ascii ''pair=''" "a \<noteq> []" "list_all seg_rune a" by blast
  have "length h = length (ascii ''pair='')" using rs(2) by (metis length_map)
  then have "length h = 5" by (simp add: ascii_def)
  then have "take 5 rs = h" "drop 5 rs = a @ d" unfolding rs(1) by simp_all
  then show "pairPattern p rs \<noteq> None" using a rs(2-4) segment_iff [of seg_rune 1 "a @ d"] by (auto simp: pairPattern_def Suc_le_eq)
qed

section \<open>The three passes leave nothing\<close>

lemma jwt_extend: "jwtPattern p xs \<noteq> None \<Longrightarrow> jwtPattern p (xs @ ys) \<noteq> None"
  unfolding jwt_iff by (metis append.assoc)

lemma tunnel_extend: "tunnelTokenPattern p xs \<noteq> None \<Longrightarrow> tunnelTokenPattern p (xs @ ys) \<noteq> None"
  unfolding tunnel_iff by (metis append.assoc)

lemma boundary_append: "xs \<noteq> [] \<Longrightarrow> boundary p (xs @ ys) = boundary p xs"
  by (cases xs) (simp_all add: boundary_def)

lemma pair_extend: "pairPattern p xs \<noteq> None \<Longrightarrow> pairPattern p (xs @ ys) \<noteq> None"
proof -
  assume a: "pairPattern p xs \<noteq> None"
  then have "xs \<noteq> []" unfolding pair_iff by auto
  then show ?thesis using a boundary_append [of xs p ys] unfolding pair_iff by (metis append.assoc)
qed

lemma bracket_out: "\<not> seg_rune 0x5B" "\<not> token_rune 0x5B" "0x5B \<notin> set eyJ"
  by (simp_all add: seg_rune_def token_rune_def eyJ_def)

lemma fold_bracket: "map fold_rune h = ascii ''pair='' \<Longrightarrow> 0x5B \<notin> set h"
proof
  assume "map fold_rune h = ascii ''pair=''" "0x5B \<in> set h"
  then have "fold_rune 0x5B \<in> set (ascii ''pair='')" by (metis image_eqI set_map)
  then show False by (simp add: fold_rune_def ascii_def)
qed

lemma jwt_breaks: "jwtPattern p (xs @ 0x5B # ys) \<noteq> None \<Longrightarrow> jwtPattern p xs \<noteq> None"
proof -
  assume "jwtPattern p (xs @ 0x5B # ys) \<noteq> None"
  then obtain a b c d where e: "(eyJ @ a @ 0x2E # b @ 0x2E # c) @ d = xs @ 0x5B # ys"
    and abc: "a \<noteq> []" "b \<noteq> []" "c \<noteq> []" "list_all seg_rune a" "list_all seg_rune b" "list_all seg_rune c"
    unfolding jwt_iff by metis
  have "0x5B \<notin> set (eyJ @ a @ 0x2E # b @ 0x2E # c)" using abc bracket_out by (auto simp: list_all_iff)
  from prefix_before [OF e this] show ?thesis using abc unfolding jwt_iff by blast
qed

lemma tunnel_breaks: "tunnelTokenPattern p (xs @ 0x5B # ys) \<noteq> None \<Longrightarrow> tunnelTokenPattern p xs \<noteq> None"
proof -
  assume "tunnelTokenPattern p (xs @ 0x5B # ys) \<noteq> None"
  then obtain a d where e: "(eyJ @ a) @ d = xs @ 0x5B # ys" and a: "20 \<le> length a" "list_all token_rune a"
    unfolding tunnel_iff by metis
  have "0x5B \<notin> set (eyJ @ a)" using a bracket_out by (auto simp: list_all_iff)
  from prefix_before [OF e this] show ?thesis using a unfolding tunnel_iff by blast
qed

lemma pair_breaks: "pairPattern p (xs @ 0x5B # ys) \<noteq> None \<Longrightarrow> pairPattern p xs \<noteq> None"
proof -
  assume m: "pairPattern p (xs @ 0x5B # ys) \<noteq> None"
  then obtain h a d where e: "(h @ a) @ d = xs @ 0x5B # ys" and a: "map fold_rune h = ascii ''pair=''" "a \<noteq> []" "list_all seg_rune a"
    and b: "boundary p (xs @ 0x5B # ys)"
    unfolding pair_iff by metis
  have "0x5B \<notin> set (h @ a)" using a bracket_out fold_bracket by (auto simp: list_all_iff)
  from prefix_before [OF e this] obtain r where r: "xs = (h @ a) @ r" by blast
  then have "boundary p xs" using b a(2) boundary_append [of xs p "0x5B # ys"] by simp
  then show ?thesis using r a unfolding pair_iff by blast
qed

lemma jwt_bounds: "jwtPattern p xs = Some n \<Longrightarrow> 0 < n \<and> n \<le> length xs \<and> list_all (\<lambda>r. r < 0x80) (take n xs)"
proof -
  assume "jwtPattern p xs = Some n"
  from jwt_parts [OF this] obtain a b c d where x: "xs = eyJ @ a @ 0x2E # b @ 0x2E # c @ d" "n = length a + length b + length c + 5"
    "list_all seg_rune a" "list_all seg_rune b" "list_all seg_rune c" by blast
  let ?u = "eyJ @ a @ 0x2E # b @ 0x2E # c"
  have "xs = ?u @ d" "n = length ?u" unfolding x by (simp_all add: eyJ_def)
  then have "take n xs = ?u" "0 < n" "n \<le> length xs" by (simp_all add: eyJ_def)
  then show ?thesis using x by (auto simp: list_all_iff eyJ_def dest: seg_ascii)
qed

lemma tunnel_bounds:
  "tunnelTokenPattern p xs = Some n \<Longrightarrow> 0 < n \<and> n \<le> length xs \<and> list_all (\<lambda>r. r < 0x80) (take n xs)"
proof -
  assume "tunnelTokenPattern p xs = Some n"
  then obtain j where j: "take 3 xs = eyJ" "segment token_rune 20 (drop 3 xs) = Some j" "n = 3 + j"
    by (auto simp: tunnelTokenPattern_def split: if_splits)
  note s = segment_Some [OF j(2)]
  have "take n xs = eyJ @ take j (drop 3 xs)" unfolding j(3) take_add j(1) by simp
  then show ?thesis using s j(3) by (auto simp: list_all_iff eyJ_def dest: seg_ascii)
qed

lemma fold_ascii: "fold_rune r \<in> set (ascii ''pair='') \<Longrightarrow> r < 0x80"
  by (auto simp: fold_rune_def ascii_def split: if_splits)

lemma pair_bounds:
  "pairPattern p xs = Some n \<Longrightarrow> 0 < n \<and> n \<le> length xs \<and> list_all (\<lambda>r. r < 0x80) (take n xs)"
proof -
  assume "pairPattern p xs = Some n"
  then obtain j where j: "map fold_rune (take 5 xs) = ascii ''pair=''" "segment seg_rune 1 (drop 5 xs) = Some j" "n = 5 + j"
    by (auto simp: pairPattern_def split: if_splits)
  note s = segment_Some [OF j(2)]
  have "r < 0x80" if "r \<in> set (take 5 xs)" for r using that j(1) fold_ascii by (metis image_eqI set_map)
  moreover have "take n xs = take 5 xs @ take j (drop 5 xs)" unfolding j(3) by (rule take_add)
  ultimately show ?thesis using s j(3) by (auto simp: list_all_iff dest: seg_ascii)
qed

lemmas bracket_text = ascii_def redacted_def

lemma jwt_prev: "jwtPattern p xs = jwtPattern p' xs"
  by (simp add: jwtPattern_def)

lemma tunnel_prev: "tunnelTokenPattern p xs = tunnelTokenPattern p' xs"
  by (simp add: tunnelTokenPattern_def)

lemma free_prev: "(\<And>p p' xs. m p xs = m p' xs) \<Longrightarrow> free m p xs = free m p' xs"
  by (cases xs) (auto, metis+)

lemma redacted_props: "redacted \<noteq> [] \<and> list_all (\<lambda>c. ord c < 0x80) redacted" "ascii redacted = [] @ 0x5B # ascii ''REDACTED]''" "last (ascii redacted) = 0x5D"
  by (simp_all add: bracket_text)

interpretation jwt_redacts_jwt: redaction_pass jwtPattern redacted jwtPattern "[]" "ascii ''REDACTED]''"
proof (unfold_locales, fact jwt_bounds, fact redacted_props, fact jwt_breaks, fact redacted_props, fact redacted_props)
  show "jwtPattern p (g @ t) \<noteq> None" if "jwtPattern p (g @ []) \<noteq> None" for p g t using that jwt_extend [of p g t] by simp
  show "free jwtPattern p (ascii redacted @ xs)" if "free jwtPattern (Some 0x5D) xs" for p xs
    using that by (simp add: bracket_text jwtPattern_def eyJ_def)
qed (rule jwt_prev)

interpretation tunnel_redacts_tunnel: redaction_pass tunnelTokenPattern redacted tunnelTokenPattern "[]" "ascii ''REDACTED]''"
proof (unfold_locales, fact tunnel_bounds, fact redacted_props, fact tunnel_breaks, fact redacted_props, fact redacted_props)
  show "tunnelTokenPattern p (g @ t) \<noteq> None" if "tunnelTokenPattern p (g @ []) \<noteq> None" for p g t using that tunnel_extend [of p g t] by simp
  show "free tunnelTokenPattern p (ascii redacted @ xs)" if "free tunnelTokenPattern (Some 0x5D) xs" for p xs
    using that by (simp add: bracket_text tunnelTokenPattern_def eyJ_def)
qed (rule tunnel_prev)

interpretation tunnel_keeps_jwt: redaction_pass tunnelTokenPattern redacted jwtPattern "[]" "ascii ''REDACTED]''"
proof (unfold_locales, fact jwt_breaks, fact redacted_props, fact redacted_props)
  show "jwtPattern p (g @ t) \<noteq> None" if "jwtPattern p (g @ []) \<noteq> None" for p g t using that jwt_extend [of p g t] by simp
  show "free jwtPattern p (ascii redacted @ xs)" if "free jwtPattern (Some 0x5D) xs" for p xs
    by (rule jwt_redacts_jwt.R_free [OF that])
qed (rule jwt_prev)

text \<open>The pairing pass writes the key in lower case; that changes no class a pattern looks at.\<close>

definition alike :: "rune \<Rightarrow> rune \<Rightarrow> bool" where
  "alike x y \<longleftrightarrow> x = y \<or> fold_rune x = fold_rune y \<and> fold_rune x \<in> set (ascii ''pair'')"

lemma fold_letter: "fold_rune x = c \<Longrightarrow> c \<in> {0x70, 0x61, 0x69, 0x72} \<Longrightarrow> x = c \<or> x = c - 0x20"
  by (auto simp: fold_rune_def split: if_splits)

lemma pair_letters: "set (ascii ''pair'') = {0x70, 0x61, 0x69, 0x72}"
  by (auto simp: ascii_def)

lemma alike_class:
  assumes "alike x y"
  shows "seg_rune x = seg_rune y \<and> token_rune x = token_rune y \<and> word_rune x = word_rune y \<and> fold_rune x = fold_rune y \<and> (x = 0x2E) = (y = 0x2E)"
proof (cases "x = y")
  case False
  define c where "c = fold_rune x"
  have c: "fold_rune y = c" "c \<in> {0x70, 0x61, 0x69, 0x72}" using assms False by (auto simp: alike_def pair_letters c_def)
  have "x = c \<or> x = c - 0x20" "y = c \<or> y = c - 0x20" using c fold_letter [of x c] fold_letter [of y c] by (auto simp: c_def)
  moreover have "seg_rune c" "seg_rune (c - 0x20)" "word_rune c" "word_rune (c - 0x20)" "c \<noteq> 0x2E" "c - 0x20 \<noteq> 0x2E"
    using c(2) by (auto simp: seg_rune_def word_rune_def)
  ultimately show ?thesis using c(1) by (auto simp: c_def token_rune_def)
qed simp

lemma alike_eyJ: "x \<in> set eyJ \<Longrightarrow> alike x y \<Longrightarrow> y = x"
  by (auto simp: alike_def eyJ_def fold_rune_def ascii_def)

lemma alike_all: "list_all2 alike xs ys \<Longrightarrow> list_all P xs \<Longrightarrow> (\<And>x y. alike x y \<Longrightarrow> P x \<Longrightarrow> P y) \<Longrightarrow> list_all P ys"
  by (induction rule: list_all2_induct) auto

lemma alike_same: "list_all2 alike xs ys \<Longrightarrow> set xs \<subseteq> set eyJ \<Longrightarrow> ys = xs"
  by (induction rule: list_all2_induct) (auto dest: alike_eyJ)

lemma alike_fold: "list_all2 alike xs ys \<Longrightarrow> map fold_rune ys = map fold_rune xs"
  by (induction rule: list_all2_induct) (auto dest: alike_class)

lemma jwt_alike:
  assumes "list_all2 alike xs ys" "jwtPattern p xs \<noteq> None" shows "jwtPattern p ys \<noteq> None"
proof -
  obtain a b c d where x: "xs = (eyJ @ a @ 0x2E # b @ 0x2E # c) @ d" and abc: "a \<noteq> []" "b \<noteq> []" "c \<noteq> []"
    "list_all seg_rune a" "list_all seg_rune b" "list_all seg_rune c" using assms(2) unfolding jwt_iff by blast
  obtain e' a' x' b' y' c' d' where y: "ys = (e' @ a' @ x' # b' @ y' # c') @ d'" and al: "list_all2 alike eyJ e'" "list_all2 alike a a'"
    "alike 0x2E x'" "list_all2 alike b b'" "alike 0x2E y'" "list_all2 alike c c'"
    using assms(1) unfolding x by (auto simp: list_all2_append1 list_all2_Cons1)
  have "e' = eyJ" "x' = 0x2E" "y' = 0x2E" using al alike_same [OF al(1)] alike_class [OF al(3)] alike_class [OF al(5)] by auto
  moreover have "list_all seg_rune a'" "list_all seg_rune b'" "list_all seg_rune c'"
    using al(2,4,6) abc(4-6) alike_class by (auto elim!: alike_all)
  moreover have "a' \<noteq> []" "b' \<noteq> []" "c' \<noteq> []" using al(2,4,6) abc(1-3) by auto
  ultimately show ?thesis unfolding jwt_iff y by blast
qed

lemma tunnel_alike:
  assumes "list_all2 alike xs ys" "tunnelTokenPattern p xs \<noteq> None" shows "tunnelTokenPattern p ys \<noteq> None"
proof -
  obtain a d where x: "xs = (eyJ @ a) @ d" and a: "20 \<le> length a" "list_all token_rune a" using assms(2) unfolding tunnel_iff by blast
  obtain e' a' d' where y: "ys = (e' @ a') @ d'" and al: "list_all2 alike eyJ e'" "list_all2 alike a a'"
    using assms(1) unfolding x by (auto simp: list_all2_append1)
  have "e' = eyJ" using alike_same [OF al(1)] by auto
  moreover have "list_all token_rune a'" using al(2) a(2) alike_class by (auto elim!: alike_all)
  moreover have "20 \<le> length a'" using al(2) a(1) by (simp add: list_all2_lengthD [symmetric])
  ultimately show ?thesis unfolding tunnel_iff y by blast
qed

lemma pair_alike:
  assumes "list_all2 alike xs ys" "pairPattern p xs \<noteq> None" shows "pairPattern p ys \<noteq> None"
proof -
  obtain h a d where x: "xs = (h @ a) @ d" and a: "map fold_rune h = ascii ''pair=''" "a \<noteq> []" "list_all seg_rune a" and b: "boundary p xs"
    using assms(2) unfolding pair_iff by blast
  obtain h' a' d' where y: "ys = (h' @ a') @ d'" and al: "list_all2 alike h h'" "list_all2 alike a a'"
    using assms(1) unfolding x by (auto simp: list_all2_append1)
  have "boundary p ys" using b assms(1) by (cases xs; cases ys) (auto simp: boundary_def dest: alike_class)
  moreover have "list_all seg_rune a'" using al(2) a(3) alike_class by (auto elim!: alike_all)
  moreover have "a' \<noteq> []" "map fold_rune h' = ascii ''pair=''" using al a(1,2) alike_fold [OF al(1)] by auto
  ultimately show ?thesis unfolding pair_iff y by blast
qed

lemma pair_key:
  assumes "pairPattern q t \<noteq> None" obtains h r where "t = h @ r" "list_all2 alike (ascii ''pair='') h"
proof -
  obtain h a d where t: "t = (h @ a) @ d" "map fold_rune h = ascii ''pair=''" using assms unfolding pair_iff by blast
  have "alike x y" if "x \<in> set (ascii ''pair='')" "fold_rune y = x" for x y
  proof (cases "x = 0x3D")
    case True
    then show ?thesis using that(2) by (auto simp: alike_def fold_rune_def split: if_splits)
  next
    case False
    then have x: "x \<in> set (ascii ''pair'')" using that(1) by (auto simp: ascii_def)
    then have "fold_rune x = x" by (auto simp: pair_letters fold_rune_def)
    then show ?thesis using x that(2) by (simp add: alike_def)
  qed
  then have "list_all2 alike (ascii ''pair='') h"
    unfolding t(2) [symmetric] by (simp add: list_all2_map1 list_all2_same)
  then show ?thesis using that [of h "a @ d"] t(1) by simp
qed

lemma pair_covers:
  assumes "pairPattern q t \<noteq> None" "m p (g @ ascii ''pair='') \<noteq> None"
    and "\<And>xs ys. list_all2 alike xs ys \<Longrightarrow> m p xs \<noteq> None \<Longrightarrow> m p ys \<noteq> None" "\<And>xs ys. m p xs \<noteq> None \<Longrightarrow> m p (xs @ ys) \<noteq> None"
  shows "m p (g @ t) \<noteq> None"
proof -
  obtain h r where t: "t = h @ r" "list_all2 alike (ascii ''pair='') h" using assms(1) by (rule pair_key)
  have "list_all2 alike g g" by (simp add: list_all2_same alike_def)
  then have "list_all2 alike (g @ ascii ''pair='') (g @ h)" using t(2) by (rule list_all2_appendI)
  then have "m p (g @ h) \<noteq> None" using assms(2,3) by blast
  then show ?thesis using assms(4) [of "g @ h" r] t(1) by simp
qed

lemma pair_text: "''pair='' @ redacted \<noteq> [] \<and> list_all (\<lambda>c. ord c < 0x80) (''pair='' @ redacted)"
  "ascii (''pair='' @ redacted) = ascii ''pair='' @ 0x5B # ascii ''REDACTED]''" "last (ascii (''pair='' @ redacted)) = 0x5D"
  by (simp_all add: bracket_text)

interpretation pair_redacts_pair: redaction_pass pairPattern "''pair='' @ redacted" pairPattern "ascii ''pair=''" "ascii ''REDACTED]''"
proof (unfold_locales, fact pair_bounds, fact pair_text, fact pair_breaks, fact pair_text, fact pair_text)
  show "pairPattern p (g @ t) \<noteq> None" if "pairPattern q t \<noteq> None" "pairPattern p (g @ ascii ''pair='') \<noteq> None" for q t p g
    using pair_covers [where m = pairPattern, OF that] pair_alike pair_extend by blast
  show "pairPattern p (t ! n # ys) = pairPattern p' (t ! n # ys)" if m: "pairPattern q t = Some n" "n < length t" for q t n p p' ys
  proof -
    obtain j where j: "segment seg_rune 1 (drop 5 t) = Some j" "n = 5 + j" using m(1) by (auto simp: pairPattern_def split: if_splits)
    have "\<not> seg_rune (t ! n)" using segment_Some [OF j(1)] j(2) m(2) by simp
    moreover have "seg_rune r" if "fold_rune r = 0x70" for r using that by (auto simp: fold_rune_def seg_rune_def split: if_splits)
    ultimately have "fold_rune (t ! n) \<noteq> 0x70" by blast
    then show ?thesis by (simp add: pairPattern_def ascii_def)
  qed
  show "free pairPattern p (ascii (''pair='' @ redacted) @ xs)" if "free pairPattern (Some 0x5D) xs" for p xs
    using that by (simp add: bracket_text pairPattern_def fold_rune_def segment_def seg_rune_def)
qed

interpretation pair_keeps_jwt: redaction_pass pairPattern "''pair='' @ redacted" jwtPattern "ascii ''pair=''" "ascii ''REDACTED]''"
proof (unfold_locales, fact jwt_breaks, fact pair_text, fact pair_text)
  show "jwtPattern p (g @ t) \<noteq> None" if "pairPattern q t \<noteq> None" "jwtPattern p (g @ ascii ''pair='') \<noteq> None" for q t p g
    using pair_covers [where m = jwtPattern, OF that] jwt_alike jwt_extend by blast
  show "free jwtPattern p (ascii (''pair='' @ redacted) @ xs)" if "free jwtPattern (Some 0x5D) xs" for p xs
    using that by (simp add: bracket_text jwtPattern_def eyJ_def)
qed (rule jwt_prev)

interpretation pair_keeps_tunnel: redaction_pass pairPattern "''pair='' @ redacted" tunnelTokenPattern "ascii ''pair=''" "ascii ''REDACTED]''"
proof (unfold_locales, fact tunnel_breaks, fact pair_text, fact pair_text)
  show "tunnelTokenPattern p (g @ t) \<noteq> None" if "pairPattern q t \<noteq> None" "tunnelTokenPattern p (g @ ascii ''pair='') \<noteq> None" for q t p g
    using pair_covers [where m = tunnelTokenPattern, OF that] tunnel_alike tunnel_extend by blast
  show "free tunnelTokenPattern p (ascii (''pair='' @ redacted) @ xs)" if "free tunnelTokenPattern (Some 0x5D) xs" for p xs
    using that by (simp add: bracket_text tunnelTokenPattern_def eyJ_def)
qed (rule tunnel_prev)

definition secret_free :: "rune list \<Rightarrow> bool" where
  "secret_free rs \<longleftrightarrow> free jwtPattern None rs \<and> free tunnelTokenPattern None rs \<and> free pairPattern None rs"

lemma RedactSecrets_secret_free: "secret_free (runes (RedactSecrets s))"
proof -
  define h where "h = ReplaceAll headerPattern header_repl s"
  define j where "j = ReplaceAll jwtPattern (\<lambda>_. plain redacted) h"
  define t where "t = ReplaceAll tunnelTokenPattern (\<lambda>_. plain redacted) j"
  have r: "RedactSecrets s = ReplaceAll pairPattern (\<lambda>_. plain (''pair='' @ redacted)) t"
    by (simp add: RedactSecrets_def h_def j_def t_def Let_def)
  have j: "free jwtPattern None (runes j)" unfolding j_def by (rule jwt_redacts_jwt.redacts [OF within_self])
  have t: "free jwtPattern None (runes t)" "free tunnelTokenPattern None (runes t)" unfolding t_def
    by (rule tunnel_keeps_jwt.redacts [OF within_free [OF j]]) (rule tunnel_redacts_tunnel.redacts [OF within_self])
  show ?thesis unfolding secret_free_def r
    using pair_keeps_jwt.redacts [OF within_free [OF t(1)]] pair_keeps_tunnel.redacts [OF within_free [OF t(2)]]
      pair_redacts_pair.redacts [OF within_self] by blast
qed

text \<open>
  C19: what \<open>RedactSecrets\<close> returns holds no token. Whatever the text, malformed UTF-8 included, no position of the result starts a
  compact JWT, a tunnel token or a pairing value.
\<close>

theorem RedactSecrets_free: "secret_free (runes (RedactSecrets s))"
  by (rule RedactSecrets_secret_free)

lemma replace_all_free: "free m p (map fst cs) \<Longrightarrow> replace_all m f p cs = cs"
  by (induction cs arbitrary: p) auto

lemma ReplaceAll_free: "free m None (runes s) \<Longrightarrow> ReplaceAll m f s = s"
  by (simp add: ReplaceAll_def runes_def replace_all_free rune_chunks_concat)

lemma runes_of_ascii: "list_all (\<lambda>c. ord c < 0x80) s \<Longrightarrow> runes s = ascii s"
  by (induction s) (simp_all add: runes_def ascii_def rune_chunks_ascii)

lemma encode_ascii: "list_all (\<lambda>c. ord c < 0x80) s \<Longrightarrow> encode_runes (ascii s) = s"
  by (induction s) (simp_all add: ascii_def encode_rune_ascii)

lemma RedactSecrets_keeps: "secret_free (runes s) \<Longrightarrow> free headerPattern None (runes s) \<Longrightarrow> RedactSecrets s = s"
  by (simp add: RedactSecrets_def ReplaceAll_free secret_free_def)

text \<open>
  Control characters undo the redaction. \<open>SanitizeForLog\<close> redacts first and drops control characters afterwards, so a token with
  a control character in it is not recognised and leaves the function whole.
\<close>

theorem SanitizeForLog_emits_token:
  "SanitizeForLog (''eyJ'' @ CHR 0x01 # ''hbGci.c3Vi.c2ln'') = ''eyJhbGci.c3Vi.c2ln'' \<and> \<not> secret_free (runes ''eyJhbGci.c3Vi.c2ln'')"
proof
  let ?s = "''eyJ'' @ CHR 0x01 # ''hbGci.c3Vi.c2ln''"
  have r: "runes ?s = [101, 121, 74, 1, 104, 98, 71, 99, 105, 46, 99, 51, 86, 105, 46, 99, 50, 108, 110]"
    by (subst runes_of_ascii) (simp_all add: ascii_def)
  have "free jwtPattern None (runes ?s)" unfolding r by (simp add: jwtPattern_def eyJ_def segment_def seg_rune_def)
  moreover have "free tunnelTokenPattern None (runes ?s)" unfolding r by (simp add: tunnelTokenPattern_def eyJ_def segment_def token_rune_def seg_rune_def)
  moreover have "free pairPattern None (runes ?s)" unfolding r by (simp add: pairPattern_def ascii_def fold_rune_def)
  moreover have "free headerPattern None (runes ?s)" unfolding r
    by (simp add: headerPattern_def headerNames_def header_with_def ascii_def fold_rune_def)
  ultimately have "RedactSecrets ?s = ?s" by (intro RedactSecrets_keeps) (simp_all add: secret_free_def)
  moreover have "concat (map log_emit (runes ?s)) = ascii ''eyJhbGci.c3Vi.c2ln''"
    unfolding r by (simp add: log_emit_def RuneError_def ascii_def)
  ultimately show "SanitizeForLog ?s = ''eyJhbGci.c3Vi.c2ln''"
    unfolding SanitizeForLog_def SanitizeLogLine_def sanitize_with_def by (simp add: encode_ascii)
  have "runes ''eyJhbGci.c3Vi.c2ln'' = [101, 121, 74, 104, 98, 71, 99, 105, 46, 99, 51, 86, 105, 46, 99, 50, 108, 110]"
    by (subst runes_of_ascii) (simp_all add: ascii_def)
  then show "\<not> secret_free (runes ''eyJhbGci.c3Vi.c2ln'')"
    by (simp add: secret_free_def jwtPattern_def eyJ_def segment_def seg_rune_def dot_segment_def)
qed

end
