(* ===== verification/GoPaths.thy ===== *)
theory GoPaths
  imports AuthJwks
begin

text \<open>
  What the configuration uses of \<open>os.Expand\<close> and of \<open>path/filepath\<close> on Unix.
\<close>

section \<open>os.Expand\<close>

definition isShellSpecialVar :: "char \<Rightarrow> bool" where
  "isShellSpecialVar c \<longleftrightarrow> c \<in> set ''*#$@!?-0123456789''"

definition isAlphaNum :: "char \<Rightarrow> bool" where
  "isAlphaNum c \<longleftrightarrow> c = CHR ''_'' \<or> 0x30 \<le> ord c \<and> ord c \<le> 0x39 \<or> 0x61 \<le> ord c \<and> ord c \<le> 0x7A \<or> 0x41 \<le> ord c \<and> ord c \<le> 0x5A"

text \<open>The name after a dollar sign and how many bytes it takes; the text is not empty.\<close>

definition getShellName :: "string \<Rightarrow> string \<times> nat" where
  "getShellName s =
     (case s of
        [] \<Rightarrow> ([], 0)
      | c # t \<Rightarrow>
          if c = CHR ''{'' then
            (if length s > 2 \<and> isShellSpecialVar (t ! 0) \<and> t ! 1 = CHR ''}'' then ([t ! 0], 3)
             else if CHR ''}'' \<in> set t then
               (let name = takeWhile (\<lambda>d. d \<noteq> CHR ''}'') t in if name = [] then ([], 2) else (name, length name + 2))
             else ([], 1))
          else if isShellSpecialVar c then ([c], 1)
          else (let name = takeWhile isAlphaNum s in (name, length name)))"

text \<open>The expansion, and the names it looked up, in order.\<close>

fun Expand :: "(string \<Rightarrow> string) \<Rightarrow> string \<Rightarrow> string \<times> string list" where
  "Expand env [] = ([], [])"
| "Expand env [c] = ([c], [])"
| "Expand env (c # d # s) =
     (if c \<noteq> CHR ''$'' then (case Expand env (d # s) of (out, names) \<Rightarrow> (c # out, names))
      else
        let (name, w) = getShellName (d # s) in
        case Expand env (drop w (d # s)) of
          (out, names) \<Rightarrow>
            if name = [] \<and> w > 0 then (out, names)
            else if name = [] then (c # out, names)
            else (env name @ out, name # names))"

section \<open>path/filepath on Unix\<close>

text \<open>Clean works on the elements between slashes: empty and dot elements vanish, dot-dot removes the element before it.\<close>

fun clean_elements :: "bool \<Rightarrow> string list \<Rightarrow> string list \<Rightarrow> string list" where
  "clean_elements rooted acc [] = rev acc"
| "clean_elements rooted acc (e # es) =
     (if e = [] \<or> e = ''.'' then clean_elements rooted acc es
      else if e = ''..'' then
        (case acc of
           [] \<Rightarrow> clean_elements rooted (if rooted then [] else [e]) es
         | a # as \<Rightarrow> if a = ''..'' then clean_elements rooted (e # acc) es else clean_elements rooted as es)
      else clean_elements rooted (e # acc) es)"

definition joined :: "string list \<Rightarrow> string" where
  "joined es = (case es of [] \<Rightarrow> [] | x # xs \<Rightarrow> x @ concat (map (\<lambda>e. CHR ''/'' # e) xs))"

definition IsAbs :: "string \<Rightarrow> bool" where
  "IsAbs p \<longleftrightarrow> HasPrefix p ''/''"

definition Clean :: "string \<Rightarrow> string" where
  "Clean p =
     (if p = [] then ''.''
      else
        let es = clean_elements (IsAbs p) [] (Split p CHR ''/'') in
        if IsAbs p then CHR ''/'' # joined es else if es = [] then ''.'' else joined es)"

definition Join :: "string list \<Rightarrow> string" where
  "Join elems = (let es = filter (\<lambda>e. e \<noteq> []) elems in if es = [] then [] else Clean (joined es))"

section \<open>What cleaning gives\<close>

lemma clean_elements_nonempty:
  "(\<And>a. a \<in> set acc \<Longrightarrow> a \<noteq> []) \<Longrightarrow> e \<in> set (clean_elements rooted acc es) \<Longrightarrow> e \<noteq> []"
proof (induction rooted acc es rule: clean_elements.induct)
  case (2 rooted acc e' es)
  then show ?case by (cases acc) (auto split: if_splits)
qed simp

lemma joined_nonempty: "es \<noteq> [] \<Longrightarrow> hd es \<noteq> [] \<Longrightarrow> joined es \<noteq> []"
  by (cases es) (auto simp: joined_def)

lemma Clean_nonempty [simp]: "Clean p \<noteq> []"
proof -
  have "joined (clean_elements r [] ds) \<noteq> []" if "clean_elements r [] ds \<noteq> []" for r ds
    using that clean_elements_nonempty [of "[]" "hd (clean_elements r [] ds)" r ds] by (intro joined_nonempty) auto
  then show ?thesis by (simp add: Clean_def Let_def)
qed

end
