(* ===== verification/Config.thy ===== *)
theory Config
  imports GoPaths Interpret
begin

text \<open>
  The configuration (internal/config/config.go, paths.go): the decoded file over the defaults, path expansion,
  validation and loading. The TOML decoder, \<open>time.ParseDuration\<close> and \<open>url.Parse\<close> are parameters.
\<close>

section \<open>internal/config/paths.go\<close>

text \<open>A refused configuration: the field and the rule it breaks. The wording of the messages is not modelled.\<close>

datatype config_error = Refused string string | Unparsed

definition check :: "bool \<Rightarrow> string \<Rightarrow> string \<Rightarrow> config_error option" where
  "check ok field rule = (if ok then None else Some (Refused field rule))"

text \<open>The checks of a function in their order: the first that fails is the answer.\<close>

fun first_error :: "config_error option list \<Rightarrow> config_error option" where
  "first_error [] = None"
| "first_error (None # es) = first_error es"
| "first_error (Some e # es) = Some e"

lemma first_error_None: "first_error es = None \<longleftrightarrow> (\<forall>e\<in>set es. e = None)"
  by (induction es rule: first_error.induct) auto

lemma check_None [simp]: "check ok f r = None \<longleftrightarrow> ok"
  by (simp add: check_def)

definition ExpandPath :: "(string \<Rightarrow> string) \<Rightarrow> string \<Rightarrow> string option" where
  "ExpandPath env p =
     (if TrimSpace p = [] then None
      else
        let (expanded, names) = Expand env p; home = env ''HOME'' in
        if list_ex (\<lambda>name. env name = []) names then None
        else if (expanded = ''~'' \<or> HasPrefix expanded ''~/'') \<and> home = [] then None
        else
          let expanded = (if expanded = ''~'' then home
                          else if HasPrefix expanded ''~/'' then Join [home, drop 2 expanded]
                          else expanded) in
          if TrimSpace expanded = [] then None else Some (Clean expanded))"

definition looksLikePath :: "string \<Rightarrow> bool" where
  "looksLikePath s \<longleftrightarrow> list_ex (\<lambda>c. c \<in> set ''/~$'') s"

definition expandIfPath :: "(string \<Rightarrow> string) \<Rightarrow> string \<Rightarrow> string option" where
  "expandIfPath env s = (if s = [] \<or> \<not> looksLikePath s then Some s else ExpandPath env s)"

section \<open>internal/config/config.go: modes, defaults and bounds\<close>

definition ModeNamed :: string where "ModeNamed = ''named''"
definition ModeQuick :: string where "ModeQuick = ''quick''"
definition ModeExternal :: string where "ModeExternal = ''external''"

definition ModeManagesTunnel :: "string \<Rightarrow> bool" where
  "ModeManagesTunnel m \<longleftrightarrow> m = ModeNamed \<or> m = ModeQuick"

definition ModeUsesAccess :: "string \<Rightarrow> bool" where
  "ModeUsesAccess m \<longleftrightarrow> m = ModeNamed \<or> m = ModeExternal"

definition LoopbackHost :: string where "LoopbackHost = ''127.0.0.1''"

definition minPort :: int where "minPort = 1"
definition maxPort :: int where "maxPort = 65535"
definition minPollHot :: duration where "minPollHot = 250000000"
definition maxDuration :: duration where "maxDuration = 2592000000000000"
definition maxGracePeriod :: duration where "maxGracePeriod = 300000000000"
definition maxPollInterval :: duration where "maxPollInterval = 600000000000"
definition minTerminalFont :: int where "minTerminalFont = 8"
definition maxTerminalFont :: int where "maxTerminalFont = 72"
definition maxInterpretedTurn :: int where "maxInterpretedTurn = 500"
definition maxIdentityRuneLen :: nat where "maxIdentityRuneLen = 320"

record ConfigServer =
  cs_Host :: string
  cs_Port :: int
  cs_SessionTTL :: duration
  cs_IdleLock :: duration
  cs_AllowedWorkspaceRoots :: "string list"

record ConfigCloudflare =
  cc_Mode :: string
  cc_Binary :: string
  cc_PublicURL :: string
  cc_ConfigFile :: string
  cc_Tunnel :: string
  cc_CredentialsFile :: string
  cc_TokenFile :: string
  cc_TokenCommand :: "string list"
  cc_QuickEnabled :: bool
  cc_GracePeriod :: duration

record ConfigAccess =
  ca_Enabled :: bool
  ca_TeamDomain :: string
  ca_Audience :: string
  ca_AllowedIdentities :: "string list"
  ca_AllowAnyIdentity :: bool
  ca_JWKSTTL :: duration

record ConfigHerdr =
  ch_SocketPath :: string
  ch_Binary :: string
  ch_PollHot :: duration
  ch_PollCold :: duration

record ConfigUI =
  cu_Theme :: string
  cu_TerminalFontSize :: int

record ConfigExperimental =
  ce_AgentOutputParsing :: bool
  ce_AgentOutputParsers :: "string list"
  ce_MaxInterpretedTurns :: int

record Config =
  c_Server :: ConfigServer
  c_Cloudflare :: ConfigCloudflare
  c_Access :: ConfigAccess
  c_Herdr :: ConfigHerdr
  c_UI :: ConfigUI
  c_Experimental :: ConfigExperimental
  c_SourcePath :: string

definition defaultAgentOutputParsers :: "string list" where
  "defaultAgentOutputParsers = ParserKinds"

definition Default :: Config where
  "Default =
     \<lparr>c_Server = \<lparr>cs_Host = LoopbackHost, cs_Port = 8787, cs_SessionTTL = 43200000000000, cs_IdleLock = 1800000000000,
        cs_AllowedWorkspaceRoots = [''~'']\<rparr>,
      c_Cloudflare = \<lparr>cc_Mode = ModeNamed, cc_Binary = ''cloudflared'', cc_PublicURL = [], cc_ConfigFile = [], cc_Tunnel = [],
        cc_CredentialsFile = [], cc_TokenFile = [], cc_TokenCommand = [], cc_QuickEnabled = False, cc_GracePeriod = 15000000000\<rparr>,
      c_Access = \<lparr>ca_Enabled = True, ca_TeamDomain = [], ca_Audience = [], ca_AllowedIdentities = [], ca_AllowAnyIdentity = False,
        ca_JWKSTTL = 3600000000000\<rparr>,
      c_Herdr = \<lparr>ch_SocketPath = [], ch_Binary = [], ch_PollHot = 1500000000, ch_PollCold = 12000000000\<rparr>,
      c_UI = \<lparr>cu_Theme = ''system'', cu_TerminalFontSize = 13\<rparr>,
      c_Experimental = \<lparr>ce_AgentOutputParsing = False, ce_AgentOutputParsers = defaultAgentOutputParsers, ce_MaxInterpretedTurns = 60\<rparr>,
      c_SourcePath = []\<rparr>"

section \<open>internal/config/config.go: the file over the defaults\<close>

text \<open>The decoded file: a key that is absent is \<open>None\<close>.\<close>

record rawServer =
  rs_Host :: "string option"
  rs_Port :: "int option"
  rs_SessionTTL :: "string option"
  rs_IdleLock :: "string option"
  rs_AllowedWorkspaceRoots :: "string list option"

record rawCloudflare =
  rc_Mode :: "string option"
  rc_Binary :: "string option"
  rc_PublicURL :: "string option"
  rc_ConfigFile :: "string option"
  rc_Tunnel :: "string option"
  rc_CredentialsFile :: "string option"
  rc_TokenFile :: "string option"
  rc_TokenCommand :: "string list option"
  rc_QuickEnabled :: "bool option"
  rc_GracePeriod :: "string option"

record rawAccess =
  ra_Enabled :: "bool option"
  ra_TeamDomain :: "string option"
  ra_Audience :: "string option"
  ra_AllowedIdentities :: "string list option"
  ra_AllowAnyIdentity :: "bool option"
  ra_JWKSTTL :: "string option"

record rawHerdr =
  rh_SocketPath :: "string option"
  rh_Binary :: "string option"
  rh_PollHot :: "string option"
  rh_PollCold :: "string option"

record rawUI =
  ru_Theme :: "string option"
  ru_TerminalFontSize :: "int option"

record rawExperimental =
  re_AgentOutputParsing :: "bool option"
  re_AgentOutputParsers :: "string list option"
  re_MaxInterpretedTurns :: "int option"

text \<open>A missing section \<open>auth\<close> and a missing section \<open>auth.access\<close> are the same.\<close>

record rawConfig =
  raw_Server :: "rawServer option"
  raw_Cloudflare :: "rawCloudflare option"
  raw_Access :: "rawAccess option"
  raw_Herdr :: "rawHerdr option"
  raw_UI :: "rawUI option"
  raw_Experimental :: "rawExperimental option"

text \<open>\<open>pd\<close> is \<open>time.ParseDuration\<close>.\<close>

type_synonym durations = "string \<Rightarrow> duration option"

definition override :: "'a option \<Rightarrow> 'a \<Rightarrow> 'a" where
  "override src dst = (case src of None \<Rightarrow> dst | Some x \<Rightarrow> x)"

definition applyDuration :: "durations \<Rightarrow> string option \<Rightarrow> duration \<Rightarrow> duration" where
  "applyDuration pd src dst = (case src of None \<Rightarrow> dst | Some s \<Rightarrow> (case pd s of None \<Rightarrow> dst | Some d \<Rightarrow> d))"

definition duration_ok :: "durations \<Rightarrow> string option \<Rightarrow> string \<Rightarrow> config_error option" where
  "duration_ok pd src field = check (case src of None \<Rightarrow> True | Some s \<Rightarrow> pd s \<noteq> None) field ''invalid duration''"

definition apply_server :: "durations \<Rightarrow> rawServer \<Rightarrow> ConfigServer \<Rightarrow> config_error + ConfigServer" where
  "apply_server pd s c =
     (case first_error [duration_ok pd (rs_SessionTTL s) ''server.session_ttl'', duration_ok pd (rs_IdleLock s) ''server.idle_lock''] of
        Some e \<Rightarrow> Inl e
      | None \<Rightarrow> Inr \<lparr>cs_Host = override (rs_Host s) (cs_Host c), cs_Port = override (rs_Port s) (cs_Port c),
          cs_SessionTTL = applyDuration pd (rs_SessionTTL s) (cs_SessionTTL c), cs_IdleLock = applyDuration pd (rs_IdleLock s) (cs_IdleLock c),
          cs_AllowedWorkspaceRoots = override (rs_AllowedWorkspaceRoots s) (cs_AllowedWorkspaceRoots c)\<rparr>)"

definition apply_cloudflare :: "durations \<Rightarrow> rawCloudflare \<Rightarrow> ConfigCloudflare \<Rightarrow> config_error + ConfigCloudflare" where
  "apply_cloudflare pd r c =
     (case duration_ok pd (rc_GracePeriod r) ''cloudflare.grace_period'' of
        Some e \<Rightarrow> Inl e
      | None \<Rightarrow> Inr \<lparr>cc_Mode = override (rc_Mode r) (cc_Mode c), cc_Binary = override (rc_Binary r) (cc_Binary c),
          cc_PublicURL = override (rc_PublicURL r) (cc_PublicURL c), cc_ConfigFile = override (rc_ConfigFile r) (cc_ConfigFile c),
          cc_Tunnel = override (rc_Tunnel r) (cc_Tunnel c), cc_CredentialsFile = override (rc_CredentialsFile r) (cc_CredentialsFile c),
          cc_TokenFile = override (rc_TokenFile r) (cc_TokenFile c), cc_TokenCommand = override (rc_TokenCommand r) (cc_TokenCommand c),
          cc_QuickEnabled = override (rc_QuickEnabled r) (cc_QuickEnabled c),
          cc_GracePeriod = applyDuration pd (rc_GracePeriod r) (cc_GracePeriod c)\<rparr>)"

definition apply_access :: "durations \<Rightarrow> rawAccess \<Rightarrow> ConfigAccess \<Rightarrow> config_error + ConfigAccess" where
  "apply_access pd r c =
     (case duration_ok pd (ra_JWKSTTL r) ''auth.access.jwks_ttl'' of
        Some e \<Rightarrow> Inl e
      | None \<Rightarrow> Inr \<lparr>ca_Enabled = override (ra_Enabled r) (ca_Enabled c), ca_TeamDomain = override (ra_TeamDomain r) (ca_TeamDomain c),
          ca_Audience = override (ra_Audience r) (ca_Audience c),
          ca_AllowedIdentities = override (ra_AllowedIdentities r) (ca_AllowedIdentities c),
          ca_AllowAnyIdentity = override (ra_AllowAnyIdentity r) (ca_AllowAnyIdentity c),
          ca_JWKSTTL = applyDuration pd (ra_JWKSTTL r) (ca_JWKSTTL c)\<rparr>)"

definition apply_herdr :: "durations \<Rightarrow> rawHerdr \<Rightarrow> ConfigHerdr \<Rightarrow> config_error + ConfigHerdr" where
  "apply_herdr pd r c =
     (case first_error [duration_ok pd (rh_PollHot r) ''herdr.poll_hot'', duration_ok pd (rh_PollCold r) ''herdr.poll_cold''] of
        Some e \<Rightarrow> Inl e
      | None \<Rightarrow> Inr \<lparr>ch_SocketPath = override (rh_SocketPath r) (ch_SocketPath c), ch_Binary = override (rh_Binary r) (ch_Binary c),
          ch_PollHot = applyDuration pd (rh_PollHot r) (ch_PollHot c), ch_PollCold = applyDuration pd (rh_PollCold r) (ch_PollCold c)\<rparr>)"

definition apply_ui :: "rawUI \<Rightarrow> ConfigUI \<Rightarrow> ConfigUI" where
  "apply_ui r c = \<lparr>cu_Theme = override (ru_Theme r) (cu_Theme c), cu_TerminalFontSize = override (ru_TerminalFontSize r) (cu_TerminalFontSize c)\<rparr>"

definition apply_experimental :: "rawExperimental \<Rightarrow> ConfigExperimental \<Rightarrow> ConfigExperimental" where
  "apply_experimental r c =
     \<lparr>ce_AgentOutputParsing = override (re_AgentOutputParsing r) (ce_AgentOutputParsing c),
      ce_AgentOutputParsers = override (re_AgentOutputParsers r) (ce_AgentOutputParsers c),
      ce_MaxInterpretedTurns = override (re_MaxInterpretedTurns r) (ce_MaxInterpretedTurns c)\<rparr>"

text \<open>A section is applied when it is there.\<close>

definition section_of :: "('r \<Rightarrow> 'c \<Rightarrow> config_error + 'c) \<Rightarrow> 'r option \<Rightarrow> 'c \<Rightarrow> config_error + 'c" where
  "section_of f r c = (case r of None \<Rightarrow> Inr c | Some s \<Rightarrow> f s c)"

definition applyTo :: "durations \<Rightarrow> rawConfig \<Rightarrow> Config \<Rightarrow> config_error + Config" where
  "applyTo pd r cfg =
     (case section_of (apply_server pd) (raw_Server r) (c_Server cfg) of Inl e \<Rightarrow> Inl e | Inr s \<Rightarrow>
     (case section_of (apply_cloudflare pd) (raw_Cloudflare r) (c_Cloudflare cfg) of Inl e \<Rightarrow> Inl e | Inr c \<Rightarrow>
     (case section_of (apply_access pd) (raw_Access r) (c_Access cfg) of Inl e \<Rightarrow> Inl e | Inr a \<Rightarrow>
     (case section_of (apply_herdr pd) (raw_Herdr r) (c_Herdr cfg) of Inl e \<Rightarrow> Inl e | Inr h \<Rightarrow>
        Inr (cfg\<lparr>c_Server := s, c_Cloudflare := c, c_Access := a, c_Herdr := h,
          c_UI := (case raw_UI r of None \<Rightarrow> c_UI cfg | Some u \<Rightarrow> apply_ui u (c_UI cfg)),
          c_Experimental := (case raw_Experimental r of None \<Rightarrow> c_Experimental cfg | Some x \<Rightarrow> apply_experimental x (c_Experimental cfg))\<rparr>)))))"

text \<open>\<open>toml\<close> decodes the bytes and lists the keys it did not know.\<close>

definition decodeInto :: "(string \<Rightarrow> (rawConfig \<times> string list) option) \<Rightarrow> durations \<Rightarrow> string \<Rightarrow> Config \<Rightarrow> config_error + Config" where
  "decodeInto toml pd data cfg =
     (case toml data of
        None \<Rightarrow> Inl Unparsed
      | Some (raw, undecoded) \<Rightarrow> if undecoded \<noteq> [] then Inl (Refused (hd (sort undecoded)) ''unknown key'') else applyTo pd raw cfg)"

section \<open>internal/config/config.go: expansion\<close>

definition expand_roots :: "(string \<Rightarrow> string) \<Rightarrow> string list \<Rightarrow> string list option" where
  "expand_roots env roots = those (map (ExpandPath env) roots)"

definition expand :: "(string \<Rightarrow> string) \<Rightarrow> Config \<Rightarrow> config_error + Config" where
  "expand env c =
     (let cf = c_Cloudflare c; h = c_Herdr c; field = (\<lambda>name p. check (expandIfPath env p \<noteq> None) name ''not expandable'');
          path = (\<lambda>p. the (expandIfPath env p)) in
      case first_error
        [check (expand_roots env (cs_AllowedWorkspaceRoots (c_Server c)) \<noteq> None) ''server.allowed_workspace_roots'' ''not expandable'',
         field ''cloudflare.config_file'' (cc_ConfigFile cf), field ''cloudflare.credentials_file'' (cc_CredentialsFile cf),
         field ''cloudflare.token_file'' (cc_TokenFile cf), field ''cloudflare.binary'' (cc_Binary cf),
         field ''herdr.socket_path'' (ch_SocketPath h), field ''herdr.binary'' (ch_Binary h)] of
        Some e \<Rightarrow> Inl e
      | None \<Rightarrow> Inr (c\<lparr>
          c_Server := (c_Server c)\<lparr>cs_AllowedWorkspaceRoots := the (expand_roots env (cs_AllowedWorkspaceRoots (c_Server c)))\<rparr>,
          c_Cloudflare := cf\<lparr>cc_ConfigFile := path (cc_ConfigFile cf), cc_CredentialsFile := path (cc_CredentialsFile cf),
            cc_TokenFile := path (cc_TokenFile cf), cc_Binary := path (cc_Binary cf)\<rparr>,
          c_Herdr := h\<lparr>ch_SocketPath := path (ch_SocketPath h), ch_Binary := path (ch_Binary h)\<rparr>\<rparr>))"

section \<open>internal/config/config.go: validation\<close>

definition checkDuration :: "string \<Rightarrow> duration \<Rightarrow> duration \<Rightarrow> config_error option" where
  "checkDuration field d m = first_error [check (\<not> d \<le> 0) field ''must be positive'', check (\<not> d > m) field ''too long'']"

text \<open>What the validation reads of \<open>url.Parse\<close>.\<close>

record parsed_url =
  url_Scheme :: string
  url_Host :: string
  url_Hostname :: string
  url_hasUser :: bool

definition validateHTTPSURL :: "(string \<Rightarrow> parsed_url option) \<Rightarrow> string \<Rightarrow> string \<Rightarrow> config_error option" where
  "validateHTTPSURL parse_url field raw =
     (case parse_url raw of
        None \<Rightarrow> Some (Refused field ''invalid URL'')
      | Some u \<Rightarrow> first_error
          [check (url_Scheme u = ''https'') field ''must use https'',
           check (\<not> (url_Host u = [] \<or> url_Hostname u = [])) field ''must be absolute'',
           check (\<not> url_hasUser u) field ''must not contain userinfo''])"

definition validateTeamDomain :: "string \<Rightarrow> config_error option" where
  "validateTeamDomain s = first_error
     [check (\<not> (list_ex (\<lambda>c. c \<in> {CHR ''/'', CHR '' '', CHR 0x09}) s \<or> Contains s ''://'')) ''auth.access.team_domain'' ''must be a bare hostname'',
      check (Contains s ''.'') ''auth.access.team_domain'' ''must be fully qualified'']"

definition containsControl :: "string \<Rightarrow> bool" where
  "containsControl s = list_ex (\<lambda>r. r < 0x20 \<or> r = 0x7F) (runes s)"

definition validate_server :: "ConfigServer \<Rightarrow> config_error option" where
  "validate_server s = first_error
     [check (cs_Host s = LoopbackHost) ''server.host'' ''must be loopback'',
      check (\<not> (cs_Port s < minPort \<or> cs_Port s > maxPort)) ''server.port'' ''out of range'',
      checkDuration ''server.session_ttl'' (cs_SessionTTL s) maxDuration,
      checkDuration ''server.idle_lock'' (cs_IdleLock s) maxDuration,
      check (\<not> cs_IdleLock s > cs_SessionTTL s) ''server.idle_lock'' ''must not exceed server.session_ttl'']"

definition validate_access :: "ConfigAccess \<Rightarrow> config_error option" where
  "validate_access a = first_error
     ([checkDuration ''auth.access.jwks_ttl'' (ca_JWKSTTL a) maxDuration,
       check (ca_TeamDomain a \<noteq> []) ''auth.access.team_domain'' ''must not be empty'',
       validateTeamDomain (ca_TeamDomain a),
       check (TrimSpace (ca_Audience a) \<noteq> []) ''auth.access.audience'' ''must not be empty''] @
      concat (map (\<lambda>i. [check (TrimSpace i \<noteq> []) ''auth.access.allowed_identities'' ''must not be empty'',
        check (\<not> (length (runes i) > maxIdentityRuneLen \<or> containsControl i)) ''auth.access.allowed_identities'' ''not a valid identity''])
        (ca_AllowedIdentities a)))"

definition HasIdentityAllowlist :: "ConfigAccess \<Rightarrow> bool" where
  "HasIdentityAllowlist a = list_ex (\<lambda>i. TrimSpace i \<noteq> []) (ca_AllowedIdentities a)"

definition validateIdentityGate :: "ConfigAccess \<Rightarrow> config_error option" where
  "validateIdentityGate a = check (HasIdentityAllowlist a \<or> ca_AllowAnyIdentity a) ''auth.access.allowed_identities'' ''required''"

definition credentialStrategies :: "ConfigCloudflare \<Rightarrow> string list" where
  "credentialStrategies c =
     (if cc_ConfigFile c \<noteq> [] \<or> cc_CredentialsFile c \<noteq> [] \<or> cc_Tunnel c \<noteq> [] then [''config/credentials''] else []) @
     (if cc_TokenFile c \<noteq> [] then [''token file''] else []) @
     (if cc_TokenCommand c \<noteq> [] then [''token command''] else [])"

definition validateNamed :: "ConfigCloudflare \<Rightarrow> ConfigAccess \<Rightarrow> config_error option" where
  "validateNamed c a = first_error
     [check (ca_Enabled a) ''auth.access.enabled'' ''required'',
      check (cc_PublicURL c \<noteq> []) ''cloudflare.public_url'' ''required'',
      check (length (credentialStrategies c) = 1) ''cloudflare'' ''exactly one credential strategy'',
      validate_access a,
      validateIdentityGate a]"

definition validateExternal :: "ConfigCloudflare \<Rightarrow> ConfigAccess \<Rightarrow> config_error option" where
  "validateExternal c a = first_error
     [check (ca_Enabled a) ''auth.access.enabled'' ''required'',
      check (cc_PublicURL c \<noteq> []) ''cloudflare.public_url'' ''required'',
      check (\<not> length (credentialStrategies c) > 0) ''cloudflare'' ''no credential strategy'',
      validate_access a,
      validateIdentityGate a]"

definition validate_cloudflare :: "(string \<Rightarrow> parsed_url option) \<Rightarrow> ConfigAccess \<Rightarrow> ConfigCloudflare \<Rightarrow> config_error option" where
  "validate_cloudflare parse_url a c = first_error
     [check (cc_Binary c \<noteq> []) ''cloudflare.binary'' ''must not be empty'',
      checkDuration ''cloudflare.grace_period'' (cc_GracePeriod c) maxGracePeriod,
      check (list_all (\<lambda>arg. TrimSpace arg \<noteq> []) (cc_TokenCommand c)) ''cloudflare.token_command'' ''must not be empty'',
      (if cc_PublicURL c \<noteq> [] then validateHTTPSURL parse_url ''cloudflare.public_url'' (cc_PublicURL c) else None),
      (if cc_Mode c = ModeNamed then validateNamed c a
       else if cc_Mode c = ModeExternal then validateExternal c a
       else if cc_Mode c = ModeQuick then check (cc_QuickEnabled c) ''cloudflare.quick_enabled'' ''must be enabled''
       else Some (Refused ''cloudflare.mode'' ''unknown mode''))]"

definition validate_herdr :: "ConfigHerdr \<Rightarrow> config_error option" where
  "validate_herdr h = first_error
     [checkDuration ''herdr.poll_hot'' (ch_PollHot h) maxPollInterval,
      check (\<not> ch_PollHot h < minPollHot) ''herdr.poll_hot'' ''too short'',
      checkDuration ''herdr.poll_cold'' (ch_PollCold h) maxPollInterval,
      check (\<not> ch_PollCold h < ch_PollHot h) ''herdr.poll_cold'' ''must not be shorter than herdr.poll_hot'']"

definition validate_ui :: "ConfigUI \<Rightarrow> config_error option" where
  "validate_ui u = first_error
     [check (cu_Theme u \<in> {''system'', ''light'', ''dark''}) ''ui.theme'' ''unknown theme'',
      check (\<not> (cu_TerminalFontSize u < minTerminalFont \<or> cu_TerminalFontSize u > maxTerminalFont)) ''ui.terminal_font_size'' ''out of range'']"

definition validate_experimental :: "ConfigExperimental \<Rightarrow> config_error option" where
  "validate_experimental e = first_error
     [check (list_all Supported (ce_AgentOutputParsers e)) ''experimental.agent_output_parsers'' ''unknown agent kind'',
      check (\<not> (ce_AgentOutputParsing e \<and> ce_AgentOutputParsers e = [])) ''experimental.agent_output_parsing'' ''no parsers'',
      check (\<not> (ce_MaxInterpretedTurns e < 1 \<or> ce_MaxInterpretedTurns e > maxInterpretedTurn)) ''experimental.max_interpreted_turns'' ''out of range'']"

definition ParsesAgentKind :: "ConfigExperimental \<Rightarrow> string \<Rightarrow> bool" where
  "ParsesAgentKind e kind = (if \<not> ce_AgentOutputParsing e \<or> kind = [] then False else kind \<in> set (ce_AgentOutputParsers e))"

definition Validate :: "(string \<Rightarrow> parsed_url option) \<Rightarrow> Config \<Rightarrow> config_error option" where
  "Validate parse_url c = first_error
     [validate_server (c_Server c), validate_cloudflare parse_url (c_Access c) (c_Cloudflare c), validate_herdr (c_Herdr c),
      validate_experimental (c_Experimental c), validate_ui (c_UI c)]"

section \<open>internal/config/config.go: loading\<close>

definition candidatePaths :: "(string \<Rightarrow> string) \<Rightarrow> string list" where
  "candidatePaths env =
     (let plugin = env ''HERDR_PLUGIN_CONFIG_DIR''; xdg = env ''XDG_CONFIG_HOME''; home = env ''HOME'' in
      (if plugin \<noteq> [] then [Join [plugin, ''config.toml'']] else []) @
      (if xdg \<noteq> [] then [Join [xdg, ''herdr-phone'', ''config.toml'']] else []) @
      (if home \<noteq> [] then [Join [home, ''.config'', ''herdr-phone'', ''config.toml'']] else []))"

definition config_path :: "(string \<Rightarrow> bool) \<Rightarrow> (string \<Rightarrow> string) \<Rightarrow> string" where
  "config_path fileExists env =
     (let candidates = candidatePaths env in
      case List.find fileExists candidates of
        Some c \<Rightarrow> c
      | None \<Rightarrow> (case candidates of [] \<Rightarrow> [] | c # cs \<Rightarrow> c))"

definition expanded_and_valid :: "(string \<Rightarrow> parsed_url option) \<Rightarrow> (string \<Rightarrow> string) \<Rightarrow> Config \<Rightarrow> config_error + Config" where
  "expanded_and_valid parse_url env cfg =
     (case expand env cfg of
        Inl e \<Rightarrow> Inl e
      | Inr cfg \<Rightarrow> (case Validate parse_url cfg of Some e \<Rightarrow> Inl e | None \<Rightarrow> Inr cfg))"

definition LoadData ::
  "(string \<Rightarrow> (rawConfig \<times> string list) option) \<Rightarrow> durations \<Rightarrow> (string \<Rightarrow> parsed_url option) \<Rightarrow> (string \<Rightarrow> string) \<Rightarrow> string \<Rightarrow> config_error + Config" where
  "LoadData toml pd parse_url env data =
     (case decodeInto toml pd data Default of
        Inl e \<Rightarrow> Inl e
      | Inr cfg \<Rightarrow> expanded_and_valid parse_url env cfg)"

text \<open>Reading a file: \<open>Inl True\<close> when it does not exist, \<open>Inl False\<close> when it cannot be read.\<close>

definition Load ::
  "(string \<Rightarrow> (rawConfig \<times> string list) option) \<Rightarrow> durations \<Rightarrow> (string \<Rightarrow> parsed_url option) \<Rightarrow> (string \<Rightarrow> bool) \<Rightarrow> (string \<Rightarrow> bool + string) \<Rightarrow>
   (string \<Rightarrow> string) \<Rightarrow> config_error + Config" where
  "Load toml pd parse_url fileExists readFile env =
     (let path = config_path fileExists env in
      if path = [] then expanded_and_valid parse_url env Default
      else case readFile path of
        Inr data \<Rightarrow>
          (case decodeInto toml pd data Default of
             Inl e \<Rightarrow> Inl e
           | Inr cfg \<Rightarrow> expanded_and_valid parse_url env (cfg\<lparr>c_SourcePath := path\<rparr>))
      | Inl missing \<Rightarrow> if missing then expanded_and_valid parse_url env Default else Inl Unparsed)"

end
