(* ===== verification/Startup.thy ===== *)
theory Startup
  imports Config ServerSystem
begin

text \<open>
  From the configuration to the running parts (internal/integration/configmap.go, paths.go, directories.go, buildAuth of
  stack.go; internal/config/verify.go): what a loaded configuration guarantees of the sessions, the hosts and the directories.
\<close>

section \<open>internal/integration/configmap.go\<close>

definition effectiveMode :: "Config \<Rightarrow> bool \<Rightarrow> string option" where
  "effectiveMode cfg quick =
     (if quick then (if \<not> cc_QuickEnabled (c_Cloudflare cfg) then None else Some ModeQuick)
      else if cc_Mode (c_Cloudflare cfg) = ModeQuick \<and> \<not> cc_QuickEnabled (c_Cloudflare cfg) then None
      else Some (cc_Mode (c_Cloudflare cfg)))"

definition interpretationConfig :: "ConfigExperimental \<Rightarrow> Interpretation" where
  "interpretationConfig e =
     (if \<not> ce_AgentOutputParsing e then \<lparr>ip_Enabled = False, ip_Parsers = [], ip_MaxTurns = 0\<rparr>
      else \<lparr>ip_Enabled = True, ip_Parsers = ce_AgentOutputParsers e, ip_MaxTurns = ce_MaxInterpretedTurns e\<rparr>)"

text \<open>\<open>strings.Index\<close> of a separator: what follows its first occurrence.\<close>

fun after_first :: "string \<Rightarrow> string \<Rightarrow> string option" where
  "after_first sep [] = (if sep = [] then Some [] else None)"
| "after_first sep (c # s) = (if HasPrefix (c # s) sep then Some (drop (length sep) (c # s)) else after_first sep s)"

definition hostOnly :: "string \<Rightarrow> string" where
  "hostOnly rawURL =
     (let s = TrimSpace rawURL;
          s = (case after_first ''://'' s of None \<Rightarrow> s | Some t \<Rightarrow> t)
      in takeWhile (\<lambda>c. c \<noteq> CHR ''/'') s)"

definition no_server_config :: ServerConfig where
  "no_server_config = \<lparr>PublicHost = [], DevHosts = [], AllowedOrigins = [], cfg_Quick = False, WorkspaceRoots = [], MaxBodyBytes = 0,
     RequestTimeout = 0, ServerMutationDeadline = 0, DeadlineSkew = 0, IdempotencyTTL = 0, ConfirmationTTL = 0, RateEvery = 0,
     RateBurst = 0, MaxPaneReadLines = 0, MaxRunOutputLines = 0, MaxRunOutputBytes = 0, MaxRuns = 0,
     cfg_Interpretation = \<lparr>ip_Enabled = False, ip_Parsers = [], ip_MaxTurns = 0\<rparr>\<rparr>"

definition serverConfig :: "string \<Rightarrow> string \<Rightarrow> int \<Rightarrow> ConfigExperimental \<Rightarrow> ServerConfig" where
  "serverConfig m publicURL port e =
     (let hostPort = ''127.0.0.1:'' @ int_literal port; localHost = ''localhost:'' @ int_literal port;
          cfg = no_server_config\<lparr>DevHosts := [hostPort, localHost], AllowedOrigins := [''http://'' @ hostPort, ''http://'' @ localHost],
            cfg_Quick := (m = ModeQuick), cfg_Interpretation := interpretationConfig e\<rparr>;
          host = hostOnly publicURL
      in if publicURL \<noteq> [] then cfg\<lparr>PublicHost := host, AllowedOrigins := (''https://'' @ host) # AllowedOrigins cfg\<rparr> else cfg)"

section \<open>internal/integration/stack.go: the authenticator\<close>

text \<open>
  With a mode that uses Access the adapter has a verifier over the key cache; in quick mode it has neither. \<open>r\<close>
  is the entropy of the first pairing secret. The closure that reports the public URL is not part of the state.
\<close>

datatype built_auth = AccessAuth "JWKSCache authAdapter" Verifier | QuickAuth "unit authAdapter"

definition buildAuth :: "entropy \<Rightarrow> Config \<Rightarrow> string \<Rightarrow> built_auth option" where
  "buildAuth r cfg m =
     (case NewPairing r of
        Inl e \<Rightarrow> None
      | Inr p \<Rightarrow>
          let st = NewSessionStore (cs_SessionTTL (c_Server cfg)) (cs_IdleLock (c_Server cfg)); a = c_Access cfg in
          if \<not> ModeUsesAccess m then Some (QuickAuth \<lparr>aa_named = False, aa_pairing = p, aa_sessions = st, aa_keys = ()\<rparr>)
          else (case NewJWKSCache (ca_TeamDomain a) [WithTTL (ca_JWKSTTL a)] of
             None \<Rightarrow> None
           | Some jwks \<Rightarrow>
               (case NewVerifier (IssuerForTeam (ca_TeamDomain a)) (ca_Audience a) (ca_AllowedIdentities a) True [] of
                  Inl e \<Rightarrow> None
                | Inr v \<Rightarrow> Some (AccessAuth \<lparr>aa_named = True, aa_pairing = p, aa_sessions = st, aa_keys = jwks\<rparr> v))))"

section \<open>internal/integration/paths.go\<close>

definition resolveStateDir :: "(string \<Rightarrow> string) \<Rightarrow> string option" where
  "resolveStateDir env =
     (if env ''HERDR_PLUGIN_STATE_DIR'' \<noteq> [] then Some (env ''HERDR_PLUGIN_STATE_DIR'')
      else if env ''XDG_STATE_HOME'' \<noteq> [] then Some (Join [env ''XDG_STATE_HOME'', ''herdr-phone''])
      else if env ''HOME'' \<noteq> [] then Some (Join [env ''HOME'', ''.local'', ''state'', ''herdr-phone''])
      else None)"

definition resolveHerdrSocket :: "Config \<Rightarrow> (string \<Rightarrow> string) \<Rightarrow> string" where
  "resolveHerdrSocket cfg env =
     (if ch_SocketPath (c_Herdr cfg) \<noteq> [] then ch_SocketPath (c_Herdr cfg)
      else if env ''HERDR_SOCKET_PATH'' \<noteq> [] then env ''HERDR_SOCKET_PATH''
      else if env ''XDG_CONFIG_HOME'' \<noteq> [] then Join [env ''XDG_CONFIG_HOME'', ''herdr'', ''herdr.sock'']
      else if env ''HOME'' \<noteq> [] then Join [env ''HOME'', ''.config'', ''herdr'', ''herdr.sock'']
      else [])"

definition resolveHerdrBin :: "Config \<Rightarrow> (string \<Rightarrow> string) \<Rightarrow> string" where
  "resolveHerdrBin cfg env =
     (if ch_Binary (c_Herdr cfg) \<noteq> [] then ch_Binary (c_Herdr cfg)
      else if env ''HERDR_BIN_PATH'' \<noteq> [] then env ''HERDR_BIN_PATH''
      else ''herdr'')"

section \<open>internal/config/verify.go and internal/integration/directories.go\<close>

text \<open>
  \<open>evalSymlinks\<close> resolves every link of a path and \<open>is_dir\<close> is what \<open>os.Stat\<close> says of it, \<open>None\<close> when
  it fails.
\<close>

definition verify_root :: "(string \<Rightarrow> string option) \<Rightarrow> (string \<Rightarrow> bool option) \<Rightarrow> string \<Rightarrow> string option" where
  "verify_root evalSymlinks is_dir dir =
     (if \<not> IsAbs dir then None
      else case evalSymlinks dir of
        None \<Rightarrow> None
      | Some target \<Rightarrow> if is_dir target = Some True then Some target else None)"

definition VerifyWorkspaceRoots :: "(string \<Rightarrow> string option) \<Rightarrow> (string \<Rightarrow> bool option) \<Rightarrow> string list \<Rightarrow> string list option" where
  "VerifyWorkspaceRoots evalSymlinks is_dir roots = those (map (verify_root evalSymlinks is_dir) roots)"

definition Resolve :: "(string \<Rightarrow> string option) \<Rightarrow> (string \<Rightarrow> bool option) \<Rightarrow> string list \<Rightarrow> string \<Rightarrow> string option" where
  "Resolve evalSymlinks is_dir roots path =
     (if TrimSpace path = [] then None
      else case evalSymlinks (Clean path) of
        None \<Rightarrow> None
      | Some target \<Rightarrow>
          if is_dir target \<noteq> Some True then None
          else if list_ex (\<lambda>r. target = r \<or> HasPrefix target (r @ ''/'')) roots then Some target
          else None)"

text \<open>A secret file: regular, of the current user, closed to group and others. \<open>perm\<close> are the permission bits.\<close>

record file_info =
  fi_regular :: bool
  fi_uid :: nat
  fi_perm :: nat

definition VerifySecretFile :: "nat \<Rightarrow> file_info option \<Rightarrow> bool" where
  "VerifySecretFile uid info =
     (case info of
        None \<Rightarrow> False
      | Some i \<Rightarrow> fi_regular i \<and> fi_uid i = uid \<and> fi_perm i mod 64 = 0)"

definition validateForServe :: "nat \<Rightarrow> (string \<Rightarrow> file_info option) \<Rightarrow> Config \<Rightarrow> string \<Rightarrow> bool" where
  "validateForServe uid lstat cfg m =
     (let c = c_Cloudflare cfg in
      m = ModeNamed \<longrightarrow>
        (cc_CredentialsFile c \<noteq> [] \<longrightarrow> VerifySecretFile uid (lstat (cc_CredentialsFile c))) \<and>
        (cc_TokenFile c \<noteq> [] \<longrightarrow> VerifySecretFile uid (lstat (cc_TokenFile c))))"

section \<open>What a validated configuration gives\<close>

lemma checkDuration_None [simp]: "checkDuration f d m = None \<longleftrightarrow> 0 < d \<and> d \<le> m"
  by (auto simp: checkDuration_def first_error_None not_le not_less)

definition config_ok :: "Config \<Rightarrow> bool" where
  "config_ok cfg \<longleftrightarrow>
     (let s = c_Server cfg; h = c_Herdr cfg; e = c_Experimental cfg; u = c_UI cfg in
      cs_Host s = ''127.0.0.1'' \<and> 1 \<le> cs_Port s \<and> cs_Port s \<le> 65535 \<and>
      0 < cs_IdleLock s \<and> cs_IdleLock s \<le> cs_SessionTTL s \<and> cs_SessionTTL s \<le> 30 * 24 * 3600 * 1000000000 \<and>
      250000000 \<le> ch_PollHot h \<and> ch_PollHot h \<le> ch_PollCold h \<and> ch_PollCold h \<le> 600 * 1000000000 \<and>
      0 < cc_GracePeriod (c_Cloudflare cfg) \<and> cc_GracePeriod (c_Cloudflare cfg) \<le> 300 * 1000000000 \<and>
      1 \<le> ce_MaxInterpretedTurns e \<and> ce_MaxInterpretedTurns e \<le> 500 \<and> (\<forall>k\<in>set (ce_AgentOutputParsers e). Supported k) \<and>
      8 \<le> cu_TerminalFontSize u \<and> cu_TerminalFontSize u \<le> 72)"

definition access_ok :: "Config \<Rightarrow> bool" where
  "access_ok cfg \<longleftrightarrow>
     (let a = c_Access cfg; c = c_Cloudflare cfg in
      ca_Enabled a \<and> cc_PublicURL c \<noteq> [] \<and> 0 < ca_JWKSTTL a \<and> validateTeamDomain (ca_TeamDomain a) = None \<and> TrimSpace (ca_Audience a) \<noteq> [] \<and>
      (\<forall>i\<in>set (ca_AllowedIdentities a). TrimSpace i \<noteq> []) \<and> (ca_AllowedIdentities a = [] \<longrightarrow> ca_AllowAnyIdentity a) \<and>
      length (credentialStrategies c) = (if cc_Mode c = ModeNamed then 1 else 0))"

lemma Validate_config_ok: "Validate parse_url cfg = None \<Longrightarrow> config_ok cfg"
  by (auto simp: Validate_def config_ok_def validate_server_def validate_herdr_def validate_experimental_def validate_ui_def
      validate_cloudflare_def first_error_None Let_def LoopbackHost_def minPort_def maxPort_def maxDuration_def minPollHot_def
      maxPollInterval_def maxGracePeriod_def minTerminalFont_def maxTerminalFont_def maxInterpretedTurn_def list_all_iff)

lemma validate_access_None:
  assumes "validate_access a = None"
  shows "0 < ca_JWKSTTL a \<and> validateTeamDomain (ca_TeamDomain a) = None \<and> TrimSpace (ca_Audience a) \<noteq> [] \<and>
    (\<forall>i\<in>set (ca_AllowedIdentities a). TrimSpace i \<noteq> [])"
  using assms by (auto simp: validate_access_def first_error_None)

lemma validateIdentityGate_None:
  "validateIdentityGate a = None \<Longrightarrow> ca_AllowedIdentities a = [] \<Longrightarrow> ca_AllowAnyIdentity a"
  by (auto simp: validateIdentityGate_def HasIdentityAllowlist_def)

lemma Validate_access_ok:
  assumes "Validate parse_url cfg = None" "ModeUsesAccess (cc_Mode (c_Cloudflare cfg))"
  shows "access_ok cfg"
proof -
  let ?a = "c_Access cfg" and ?c = "c_Cloudflare cfg"
  have "if cc_Mode ?c = ModeNamed then validateNamed ?c ?a = None else validateExternal ?c ?a = None"
    using assms by (auto simp: Validate_def validate_cloudflare_def first_error_None ModeUsesAccess_def ModeNamed_def ModeExternal_def)
  then show ?thesis using validate_access_None [of ?a] validateIdentityGate_None [of ?a]
    by (auto simp: access_ok_def Let_def validateNamed_def validateExternal_def first_error_None split: if_splits)
qed

lemma expanded_and_valid_Validate: "expanded_and_valid parse_url env cfg = Inr cfg' \<Longrightarrow> Validate parse_url cfg' = None"
  by (auto simp: expanded_and_valid_def split: sum.splits option.splits)

lemma Load_Validate:
  "Load toml pd parse_url fileExists readFile env = Inr cfg \<Longrightarrow> Validate parse_url cfg = None"
  by (auto simp: Load_def Let_def expanded_and_valid_Validate split: sum.splits if_splits)

lemma LoadData_Validate: "LoadData toml pd parse_url env data = Inr cfg \<Longrightarrow> Validate parse_url cfg = None"
  by (auto simp: LoadData_def expanded_and_valid_Validate split: sum.splits)


section \<open>From the configuration to the sessions\<close>

lemma chunk_nonempty: "x \<in> set (rune_chunks s) \<Longrightarrow> snd x \<noteq> []"
proof (induction s rule: rune_chunks.induct)
  case (1 s)
  then show ?case using decode_rune_width [of s] by (cases "s = []") (auto simp: rune_chunks.simps [of s])
qed

lemma TrimSpace_keeps:
  assumes "c \<in> set s" "ord c < 0x80" "\<not> IsSpace (ord c)"
  shows "TrimSpace s \<noteq> []"
proof -
  obtain e where e: "(ord c, e) \<in> set (rune_chunks s)" using ascii_in_runes [OF assms(1,2)] by (auto simp: runes_def)
  have keep: "x \<in> set (dropWhile P xs)" if "x \<in> set xs" "\<not> P x" for x :: "rune \<times> string" and P xs
    using that by (induction xs) auto
  have "(ord c, e) \<in> set (drop_end (IsSpace \<circ> fst) (dropWhile (IsSpace \<circ> fst) (rune_chunks s)))"
    unfolding drop_end_def set_rev using e assms(3) by (intro keep) (simp_all add: keep)
  then show ?thesis using chunk_nonempty [OF e] by (force simp: TrimSpace_def)
qed

lemma Contains_char: "Contains s [c] \<Longrightarrow> c \<in> set s"
  by (induction s) (auto simp: HasPrefix_def)

lemma NormalizeTeamDomain_nonempty:
  assumes "validateTeamDomain d = None"
  shows "NormalizeTeamDomain d \<noteq> []"
proof -
  have sl: "CHR ''/'' \<notin> set d" and dot: "CHR ''.'' \<in> set d"
    using assms Contains_char by (auto simp: validateTeamDomain_def first_error_None list_ex_iff)
  have "TrimSpace d \<noteq> []" by (rule TrimSpace_keeps [OF dot]) (auto simp: IsSpace_def)
  moreover have "CHR ''/'' \<notin> set (TrimSpace d)" using sl TrimSpace_parts [of d] by (metis UnCI set_append)
  then have "\<not> HasPrefix (TrimSpace d) ''https://''" "\<not> HasPrefix (TrimSpace d) ''http://''" "\<not> HasSuffix (TrimSpace d) ''/''"
    by (auto simp: HasPrefix_def HasSuffix_def dest: in_set_takeD in_set_dropD) (metis in_set_takeD in_set_dropD list.set_intros)+
  ultimately show ?thesis by (simp add: NormalizeTeamDomain_def Let_def TrimPrefix_def TrimSuffix_def ToLower_def runes_def)
qed

lemma buildAuth_total:
  assumes "Validate parse_url cfg = None" "ModeUsesAccess (cc_Mode (c_Cloudflare cfg))" "NewPairing r = Inr p"
  shows "\<exists>j v. buildAuth r cfg (cc_Mode (c_Cloudflare cfg)) = Some (AccessAuth
      \<lparr>aa_named = True, aa_pairing = p, aa_sessions = NewSessionStore (cs_SessionTTL (c_Server cfg)) (cs_IdleLock (c_Server cfg)), aa_keys = j\<rparr> v) \<and>
    NewJWKSCache (ca_TeamDomain (c_Access cfg)) [WithTTL (ca_JWKSTTL (c_Access cfg))] = Some j \<and>
    ver_issuer v = TrimSpace (IssuerForTeam (ca_TeamDomain (c_Access cfg))) \<and> ver_audience v = TrimSpace (ca_Audience (c_Access cfg)) \<and>
    ver_allowed v = TrimSpace ` set (ca_AllowedIdentities (c_Access cfg))"
proof -
  let ?a = "c_Access cfg"
  have ok: "access_ok cfg" by (rule Validate_access_ok [OF assms(1,2)])
  have n: "NormalizeTeamDomain (ca_TeamDomain ?a) \<noteq> []" using ok by (intro NormalizeTeamDomain_nonempty) (simp add: access_ok_def Let_def)
  have i: "TrimSpace (IssuerForTeam d) \<noteq> []" for d
    by (rule TrimSpace_keeps [of "CHR ''h''"]) (auto simp: IssuerForTeam_def IsSpace_def)
  have al: "{x \<in> set (map TrimSpace (ca_AllowedIdentities ?a)). x \<noteq> []} = TrimSpace ` set (ca_AllowedIdentities ?a)"
    using ok by (auto simp: access_ok_def Let_def)
  show ?thesis unfolding buildAuth_def NewVerifier_def Let_def al using assms n i ok
    by (auto simp: NewJWKSCache_def access_ok_def Let_def)
qed

lemma genuine_configured:
  assumes "genuine_token parse rsa_ok v env token c"
  shows "cl_Issuer c = ver_issuer v \<and> ver_audience v \<in> set (cl_Audience c) \<and>
    (ver_allowed v \<noteq> {} \<longrightarrow> cl_Email c \<in> ver_allowed v \<or> cl_CommonName c \<in> ver_allowed v)"
  using assms by (auto simp: genuine_token_def check_claims_def Let_def containsExact_def list_ex_iff split: if_splits)

text \<open>
  C2: the configuration decides who gets in. With a configuration that loads in a mode behind Access, and entropy for
  the first pairing secret, the authenticator is built; and after any sequence of requests from any clients every session it
  holds belongs to the identity of a presented, genuine Access token issued by the configured team for the configured
  audience, whose email or common name is on the configured list whenever there is one. There is one unless
  the operator declared that any identity may enter.
\<close>

theorem configured_identities:
  assumes "Load toml pd parse_url fileExists readFile env = Inr cfg" "effectiveMode cfg False = Some m" "ModeUsesAccess m"
    and "NewPairing r = Inr p"
  shows "\<exists>a v. buildAuth r cfg m = Some (AccessAuth a v) \<and>
    (\<forall>parse rsa_ok ops sid sess. (sid, sess) \<in> set (sessions (aa_sessions (auth_run parse rsa_ok v ops a))) \<longrightarrow>
       (\<exists>op\<in>set ops. \<exists>(e, token)\<in>presented op. \<exists>c. genuine_token parse rsa_ok v e token c \<and> s_Identity sess = claims_identity c \<and>
          cl_Issuer c = TrimSpace (IssuerForTeam (ca_TeamDomain (c_Access cfg))) \<and>
          TrimSpace (ca_Audience (c_Access cfg)) \<in> set (cl_Audience c) \<and>
          (if ca_AllowedIdentities (c_Access cfg) = [] then ca_AllowAnyIdentity (c_Access cfg)
           else {cl_Email c, cl_CommonName c} \<inter> TrimSpace ` set (ca_AllowedIdentities (c_Access cfg)) \<noteq> {})))"
proof -
  note valid = Load_Validate [OF assms(1)]
  have m: "m = cc_Mode (c_Cloudflare cfg)" using assms(2) by (auto simp: effectiveMode_def split: if_splits)
  then have ok: "access_ok cfg" using Validate_access_ok [OF valid] assms(3) by simp
  define a where "a j = \<lparr>aa_named = True, aa_pairing = p,
    aa_sessions = NewSessionStore (cs_SessionTTL (c_Server cfg)) (cs_IdleLock (c_Server cfg)), aa_keys = j\<rparr>" for j :: JWKSCache
  obtain j v where b: "buildAuth r cfg m = Some (AccessAuth (a j) v)"
    and j: "NewJWKSCache (ca_TeamDomain (c_Access cfg)) [WithTTL (ca_JWKSTTL (c_Access cfg))] = Some j"
    and v: "ver_issuer v = TrimSpace (IssuerForTeam (ca_TeamDomain (c_Access cfg)))" "ver_audience v = TrimSpace (ca_Audience (c_Access cfg))"
      "ver_allowed v = TrimSpace ` set (ca_AllowedIdentities (c_Access cfg))"
    using buildAuth_total [OF valid _ assms(4)] assms(3) unfolding m a_def by blast
  have "\<exists>op\<in>set ops. \<exists>(e, token)\<in>presented op. \<exists>c. genuine_token parse rsa_ok v e token c \<and> s_Identity sess = claims_identity c"
    if "(sid, sess) \<in> set (sessions (aa_sessions (auth_run parse rsa_ok v ops (a j))))" for parse rsa_ok ops sid sess
    using session_covered [OF j _ refl that [unfolded a_def]] by (auto simp: covered_def presented_genuine_def cache_options_def)
  moreover have "cl_Issuer c = TrimSpace (IssuerForTeam (ca_TeamDomain (c_Access cfg))) \<and> TrimSpace (ca_Audience (c_Access cfg)) \<in> set (cl_Audience c) \<and>
      (if ca_AllowedIdentities (c_Access cfg) = [] then ca_AllowAnyIdentity (c_Access cfg)
       else {cl_Email c, cl_CommonName c} \<inter> TrimSpace ` set (ca_AllowedIdentities (c_Access cfg)) \<noteq> {})"
    if "genuine_token parse rsa_ok v e token c" for parse rsa_ok e token c
    using genuine_configured [OF that] v ok by (auto simp: access_ok_def Let_def)
  ultimately show ?thesis unfolding b by (intro exI [of _ "a j"] exI [of _ v] conjI refl) blast
qed

section \<open>The hosts the server answers\<close>

lemma serverConfig_hosts:
  assumes "hostAllowed (serverConfig m publicURL port e) host"
  shows "host \<in> {hostOnly publicURL, ''127.0.0.1:'' @ int_literal port, ''localhost:'' @ int_literal port} \<and> host \<noteq> []"
  using assms by (auto simp: hostAllowed_def serverConfig_def no_server_config_def Let_def split: if_splits)

section \<open>Directories stay under the roots\<close>

lemma Split_prefix: "Split (p @ CHR ''/'' # s) CHR ''/'' = Split p CHR ''/'' @ Split s CHR ''/''"
proof (induction p)
  case (Cons c p)
  then show ?case by (cases "Split p CHR ''/''") auto
qed simp

lemma those_set: "those xs = Some ys \<Longrightarrow> Some ` set ys = set xs"
proof (induction xs arbitrary: ys)
  case (Cons x xs)
  then obtain y zs where "x = Some y" "those xs = Some zs" "ys = y # zs" by (auto split: option.splits)
  then show ?case using Cons.IH [of zs] by simp
qed simp

lemma Resolve_below:
  assumes "VerifyWorkspaceRoots evalSymlinks is_dir roots = Some resolved" "Resolve evalSymlinks is_dir resolved path = Some target"
  shows "\<exists>r\<in>set roots. \<exists>base rest. IsAbs r \<and> evalSymlinks r = Some base \<and> (target = base \<or> HasPrefix target (base @ ''/'')) \<and>
    Split target CHR ''/'' = Split base CHR ''/'' @ rest"
proof -
  obtain base where b: "base \<in> set resolved" "target = base \<or> HasPrefix target (base @ ''/'')"
    using assms(2) by (auto simp: Resolve_def list_ex_iff split: if_splits option.splits)
  have "\<exists>rest. Split target CHR ''/'' = Split base CHR ''/'' @ rest" using b(2)
  proof
    assume "HasPrefix target (base @ ''/'')"
    then have "target = base @ CHR ''/'' # drop (Suc (length base)) target"
      by (metis HasPrefix_def append.assoc append_Cons append_Nil append_take_drop_id length_append_singleton)
    then show ?thesis by (metis Split_prefix)
  qed simp
  moreover have "Some base \<in> verify_root evalSymlinks is_dir ` set roots"
    using those_set [OF assms(1) [unfolded VerifyWorkspaceRoots_def]] b(1) by auto
  then obtain r where "r \<in> set roots" "verify_root evalSymlinks is_dir r = Some base" by auto
  then have "r \<in> set roots" "IsAbs r" "evalSymlinks r = Some base" by (auto simp: verify_root_def split: if_splits option.splits)
  ultimately show ?thesis using b(2) by blast
qed

lemma Resolve_target: "Resolve evalSymlinks is_dir roots path = Some target \<Longrightarrow> evalSymlinks (Clean path) = Some target \<and> is_dir target = Some True"
  by (auto simp: Resolve_def split: if_splits option.splits)

text \<open>
  Browsing stays under the workspace roots. A directory that is resolved is the symlink-free target of the
  requested path, is a directory, and lies at or below the symlink-free target of a configured absolute root by whole
  path components: a sibling whose name only starts like a root's is refused.
\<close>

theorem Resolve_confined:
  assumes "VerifyWorkspaceRoots evalSymlinks is_dir roots = Some resolved" "Resolve evalSymlinks is_dir resolved path = Some target"
  shows "evalSymlinks (Clean path) = Some target \<and> is_dir target = Some True \<and>
    (\<exists>r\<in>set roots. \<exists>base rest. IsAbs r \<and> evalSymlinks r = Some base \<and>
       Split target CHR ''/'' = Split base CHR ''/'' @ rest)"
  using Resolve_target [OF assms(2)] Resolve_below [OF assms] by blast

section \<open>A relay behind an existing tunnel\<close>

definition example_file :: rawConfig where
  "example_file = \<lparr>raw_Server = None,
     raw_Cloudflare = Some \<lparr>rc_Mode = Some ''external'', rc_Binary = None, rc_PublicURL = Some ''https://phone.example'', rc_ConfigFile = None,
       rc_Tunnel = None, rc_CredentialsFile = None, rc_TokenFile = None, rc_TokenCommand = None, rc_QuickEnabled = None, rc_GracePeriod = None\<rparr>,
     raw_Access = Some \<lparr>ra_Enabled = None, ra_TeamDomain = Some ''team.example'', ra_Audience = Some ''aud'',
       ra_AllowedIdentities = Some [''a@example''], ra_AllowAnyIdentity = None, ra_JWKSTTL = Some ''2h''\<rparr>,
     raw_Herdr = None, raw_UI = None, raw_Experimental = None\<rparr>"

definition example_url :: "string \<Rightarrow> parsed_url option" where
  "example_url s = (if s = ''https://phone.example''
     then Some \<lparr>url_Scheme = ''https'', url_Host = ''phone.example'', url_Hostname = ''phone.example'', url_hasUser = False\<rparr> else None)"

definition example_env :: "string \<Rightarrow> string" where
  "example_env name = (if name = ''HOME'' then ''/home/a'' else [])"

definition example_load :: "config_error + Config" where
  "example_load = Load (\<lambda>data. if data = ''toml'' then Some (example_file, []) else None)
     (\<lambda>d. if d = ''2h'' then Some 7200000000000 else None) example_url (\<lambda>path. False) (\<lambda>path. Inr ''toml'') example_env"

definition example_loaded :: Config where
  "example_loaded = Default\<lparr>
     c_Server := (c_Server Default)\<lparr>cs_AllowedWorkspaceRoots := [''/home/a'']\<rparr>,
     c_Cloudflare := (c_Cloudflare Default)\<lparr>cc_Mode := ''external'', cc_PublicURL := ''https://phone.example''\<rparr>,
     c_Access := (c_Access Default)\<lparr>ca_TeamDomain := ''team.example'', ca_Audience := ''aud'', ca_AllowedIdentities := [''a@example''],
       ca_JWKSTTL := 7200000000000\<rparr>,
     c_SourcePath := ''/home/a/.config/herdr-phone/config.toml''\<rparr>"

lemma example_trimmed:
  "TrimSpace ''aud'' = ''aud''" "TrimSpace ''a@example'' = ''a@example''" "TrimSpace ''~'' = ''~''" "TrimSpace ''/home/a'' = ''/home/a''"
  "TrimSpace ''/home/a/./link'' = ''/home/a/./link''" "TrimSpace ''/home'' = ''/home''"
  by (simp_all add: TrimSpace_plain)

lemma example_evaluated:
  "config_path (\<lambda>path. False) example_env = ''/home/a/.config/herdr-phone/config.toml'' \<and> Clean ''/home/a'' = ''/home/a'' \<and>
   Clean ''/home/a/./link'' = ''/home/a/link'' \<and> Clean ''/home'' = ''/home'' \<and> list_all Supported ParserKinds \<and>
   validateTeamDomain ''team.example'' = None \<and> expandIfPath example_env ''cloudflared'' = Some ''cloudflared''"
  by code_simp

lemma example_runes: "length (runes ''a@example'') = 9" "\<not> containsControl ''a@example''"
  by (simp_all add: runes_ascii containsControl_def)

lemma example_roots: "expand_roots example_env [''~''] = Some [''/home/a'']"
  by (simp add: expand_roots_def ExpandPath_def example_env_def example_trimmed example_evaluated HasPrefix_def)

lemmas example_facts = example_trimmed example_evaluated example_runes example_roots

lemma example_valid: "Validate example_url example_loaded = None"
  by (simp add: Validate_def validate_server_def validate_cloudflare_def validate_herdr_def validate_experimental_def validate_ui_def
      validateExternal_def validate_access_def validateIdentityGate_def HasIdentityAllowlist_def validateHTTPSURL_def credentialStrategies_def
      first_error_None example_facts example_url_def example_loaded_def Default_def defaultAgentOutputParsers_def ModeNamed_def
      ModeExternal_def LoopbackHost_def minPort_def maxPort_def maxDuration_def minPollHot_def maxPollInterval_def maxGracePeriod_def
      minTerminalFont_def maxTerminalFont_def maxInterpretedTurn_def maxIdentityRuneLen_def)

lemma example_loads: "example_load = Inr example_loaded"
proof -
  have "decodeInto (\<lambda>data. if data = ''toml'' then Some (example_file, []) else None) (\<lambda>d. if d = ''2h'' then Some 7200000000000 else None) ''toml'' Default =
      Inr (example_loaded\<lparr>c_Server := c_Server Default, c_SourcePath := []\<rparr>)"
    by (simp add: decodeInto_def example_file_def applyTo_def section_of_def apply_cloudflare_def apply_access_def duration_ok_def check_def
        applyDuration_def override_def example_loaded_def Default_def)
  moreover have "expand example_env (example_loaded\<lparr>c_Server := c_Server Default\<rparr>) = Inr example_loaded"
    by (simp add: expand_def example_loaded_def Default_def example_facts check_def Let_def expandIfPath_def [of _ "[]"])
  ultimately show ?thesis
    by (simp add: example_load_def Load_def example_facts expanded_and_valid_def example_valid) (simp add: example_loaded_def example_valid [unfolded example_loaded_def])
qed


theorem configured_identities_witness:
  "\<exists>cfg a v. example_load = Inr cfg \<and> buildAuth (Some (replicate 32 CHR ''x'')) cfg ''external'' = Some (AccessAuth a v) \<and>
     (\<forall>parse rsa_ok ops sid sess. (sid, sess) \<in> set (sessions (aa_sessions (auth_run parse rsa_ok v ops a))) \<longrightarrow>
        id_Email (s_Identity sess) = ''a@example'' \<or> id_CommonName (s_Identity sess) = ''a@example'')"
proof -
  define cfg where "cfg = example_loaded"
  have cfg: "example_load = Inr cfg" "cc_Mode (c_Cloudflare cfg) = ''external''" "ca_AllowedIdentities (c_Access cfg) = [''a@example'']"
    by (simp_all add: cfg_def example_loads) (simp_all add: example_loaded_def)
  have m: "effectiveMode cfg False = Some ''external''" "ModeUsesAccess ''external''"
    using cfg by (simp_all add: effectiveMode_def ModeQuick_def ModeUsesAccess_def ModeExternal_def)
  have p: "NewPairing (Some (replicate 32 CHR ''x'')) = Inr \<lparr>pr_secret = replicate 32 CHR ''x'', pr_invalidated = False\<rparr>"
    by (simp add: NewPairing_def rotateLocked_def)
  have c: "id_Email (s_Identity sess) = ''a@example'' \<or> id_CommonName (s_Identity sess) = ''a@example''"
    if "s_Identity sess = claims_identity c" "{cl_Email c, cl_CommonName c} \<inter> {''a@example''} \<noteq> {}" for sess c
    using that by (auto simp: claims_identity_def)
  from configured_identities [OF cfg(1) [unfolded example_load_def] m p] obtain a v where
    "buildAuth (Some (replicate 32 CHR ''x'')) cfg ''external'' = Some (AccessAuth a v)"
    "\<forall>parse rsa_ok ops sid sess. (sid, sess) \<in> set (sessions (aa_sessions (auth_run parse rsa_ok v ops a))) \<longrightarrow>
        (\<exists>c. s_Identity sess = claims_identity c \<and> {cl_Email c, cl_CommonName c} \<inter> {''a@example''} \<noteq> {})"
    unfolding cfg(3) by (simp add: example_facts) blast
  then show ?thesis using cfg(1) c by blast
qed

theorem Resolve_confined_witness:
  "\<exists>target rest. Resolve (\<lambda>p. if p = ''/home/a/link'' then Some ''/home/a/w'' else Some p) (\<lambda>p. Some True) [''/home/a''] ''/home/a/./link'' = Some target \<and>
     Split target CHR ''/'' = [[], ''home'', ''a''] @ rest"
proof -
  let ?ev = "\<lambda>p. if p = ''/home/a/link'' then Some ''/home/a/w'' else Some p" and ?dir = "\<lambda>p. Some True"
  have "VerifyWorkspaceRoots ?ev ?dir [''/home/a''] = Some [''/home/a'']" "Resolve ?ev ?dir [''/home/a''] ''/home/a/./link'' = Some ''/home/a/w''"
    by (simp_all add: VerifyWorkspaceRoots_def verify_root_def Resolve_def example_facts IsAbs_def HasPrefix_def)
  from Resolve_confined [OF this] this show ?thesis by auto
qed

text \<open>
  A root that is the filesystem root is accepted at start but allows nothing below it: the separator is appended to a
  path that already ends in one.
\<close>

theorem filesystem_root_refuses:
  "VerifyWorkspaceRoots Some (\<lambda>p. Some True) [''/''] = Some [''/''] \<and>
   Resolve Some (\<lambda>p. Some True) [''/''] ''/home'' = None"
  by (simp add: VerifyWorkspaceRoots_def verify_root_def Resolve_def example_facts IsAbs_def HasPrefix_def)

end
