(* ===== verification/ServerViews.thy ===== *)
theory ServerViews
  imports TerminalProtocol Redact Startup EventStream "HOL-Library.Multiset"
begin

text \<open>
  The read side of the server: the audit file (internal/server/audit.go), the directory listing (directories.go), the snapshot, capability
  and pane routes (snapshot.go), and the reads of the Herdr client behind them (internal/herdr/reads.go).
\<close>

section \<open>internal/server/audit.go\<close>

definition maxAuditFieldLen :: nat where "maxAuditFieldLen = 512"

definition audit_rune :: "rune \<Rightarrow> bool" where
  "audit_rune r \<longleftrightarrow> \<not> (r = 0x1B \<or> r < 0x20 \<or> r = 0x7F)"

definition sanitizeField :: "string \<Rightarrow> string" where
  "sanitizeField s =
     (if s = [] then s
      else let out = encode_runes (filter audit_rune (runes (SanitizeForLog s)))
           in if length out > maxAuditFieldLen then take maxAuditFieldLen out else out)"

definition sanitizeEntry :: "AuditEntry \<Rightarrow> AuditEntry" where
  "sanitizeEntry e = e\<lparr>au_Event := sanitizeField (au_Event e), au_Subject := sanitizeField (au_Subject e), au_SessionID := sanitizeField (au_SessionID e),
     au_Operation := sanitizeField (au_Operation e), au_Resource := sanitizeField (au_Resource e), au_RequestID := sanitizeField (au_RequestID e),
     au_Result := sanitizeField (au_Result e), au_Detail := sanitizeField (au_Detail e)\<rparr>"

text \<open>The auditor is its file, the list of the entries written as one JSON line each; a failed write is dropped.\<close>

definition stamp :: "gotime \<Rightarrow> AuditEntry \<Rightarrow> AuditEntry" where
  "stamp now e = (if au_Time e = 0 then e\<lparr>au_Time := now\<rparr> else e)"

definition Record :: "gotime \<Rightarrow> bool \<Rightarrow> AuditEntry \<Rightarrow> AuditEntry list \<Rightarrow> AuditEntry list" where
  "Record now written e file =
     (let e = sanitizeEntry (stamp now e)
      in if written then file @ [e] else file)"

section \<open>internal/server/directories.go\<close>

record DirectoryEntry =
  de_Name :: string
  de_Path :: string

record directoriesResponse =
  dr_Path :: string
  dr_Entries :: "DirectoryEntry list"

text \<open>\<open>readDir\<close> is \<open>os.ReadDir\<close>: the names of a directory, each with \<open>IsDir\<close>.\<close>

definition handleDirectories ::
  "(string \<Rightarrow> string option) \<Rightarrow> (string \<Rightarrow> bool option) \<Rightarrow> (string \<Rightarrow> (string \<times> bool) list option) \<Rightarrow> string list \<Rightarrow> string \<Rightarrow> directoriesResponse reply" where
  "handleDirectories evalSymlinks is_dir readDir roots path =
     (if path = [] then ErrorReply 400 codeBadRequest ''missing path''
      else case Resolve evalSymlinks is_dir roots path of
        None \<Rightarrow> ErrorReply 403 codeForbidden ''path not allowed''
      | Some resolved \<Rightarrow>
          (case readDir resolved of
             None \<Rightarrow> ErrorReply 404 codeNotFound ''directory not readable''
           | Some dirents \<Rightarrow>
               let entries = map (\<lambda>de. \<lparr>de_Name = fst de, de_Path = Join [resolved, fst de]\<rparr>) (filter snd dirents)
               in OkReply \<lparr>dr_Path = resolved, dr_Entries = sort_key de_Name entries\<rparr>))"

section \<open>internal/server/snapshot.go\<close>

record http_out =
  ho_status :: int
  ho_headers :: "(string \<times> string) list"
  ho_body :: string

definition etagMatches :: "string \<Rightarrow> string \<Rightarrow> bool" where
  "etagMatches header etag =
     (let header = TrimSpace header
      in header = ''*'' \<or> list_ex (\<lambda>candidate. TrimPrefix (TrimSpace candidate) ''W/'' = etag) (Split header CHR '',''))"

definition before :: "char \<Rightarrow> string \<Rightarrow> string" where
  "before sep s = takeWhile (\<lambda>c. c \<noteq> sep) s"

definition acceptsGzip :: "string \<Rightarrow> bool" where
  "acceptsGzip accept = list_ex (\<lambda>enc. EqualFold (TrimSpace (before CHR '';'' enc)) ''gzip'') (Split accept CHR '','')"

text \<open>\<open>gzip\<close> is the compressor, which may fail.\<close>

definition writeMaybeGzip :: "(string \<Rightarrow> string option) \<Rightarrow> string \<Rightarrow> (string \<times> string) list \<Rightarrow> int \<Rightarrow> string \<Rightarrow> string \<Rightarrow> http_out" where
  "writeMaybeGzip gzip accept headers status contentType body =
     (let headers = headers @ [(''Content-Type'', contentType)];
          plain_out = (\<lambda>hs. \<lparr>ho_status = status, ho_headers = hs, ho_body = body\<rparr>)
      in if acceptsGzip accept \<and> length body \<ge> 512 then
           (case gzip body of
              Some z \<Rightarrow> \<lparr>ho_status = status, ho_headers = headers @ [(''Content-Encoding'', ''gzip''), (''Vary'', ''Accept-Encoding'')], ho_body = z\<rparr>
            | None \<Rightarrow> plain_out (headers @ [(''Vary'', ''Accept-Encoding'')]))
         else plain_out headers)"

definition json_type :: string where "json_type = ''application/json; charset=utf-8''"

definition handleSnapshot ::
  "(string \<Rightarrow> string option) \<Rightarrow> (ServerSnapshot \<Rightarrow> string option) \<Rightarrow> ServerSnapshot \<Rightarrow> string \<Rightarrow> string \<Rightarrow> http_out reply" where
  "handleSnapshot gzip encode snap ifNoneMatch accept =
     (let etag = CHR 0x22 # ss_Hash snap @ [CHR 0x22];
          headers = [(''Cache-Control'', ''no-cache''), (''ETag'', etag)]
      in if ifNoneMatch \<noteq> [] \<and> etagMatches ifNoneMatch etag then OkReply \<lparr>ho_status = 304, ho_headers = headers, ho_body = []\<rparr>
         else case encode snap of
           None \<Rightarrow> ErrorReply 500 codeInternal ''snapshot encode failed''
         | Some body \<Rightarrow> OkReply (writeMaybeGzip gzip accept headers 200 json_type body))"

record limitsJSON =
  lj_MaxBodyBytes :: int
  lj_MaxPaneReadLines :: int
  lj_ConfirmationTTLs :: int
  lj_MaxRunOutputLines :: int
  lj_MaxRunOutputBytes :: int
  lj_MaxRuns :: int

record ComponentHealth =
  ch_Healthy :: bool
  ch_Detail :: string

record DaemonStatus =
  ds_Version :: string
  ds_Protocol :: int
  ds_Mode :: string
  ds_Ready :: bool
  ds_Herdr :: ComponentHealth
  ds_State :: ComponentHealth
  ds_Clients :: nat

record TunnelInfo =
  ti_Mode :: string
  ti_PublicURL :: string
  ti_Health :: ComponentHealth

record capabilitiesResponse =
  cp_Version :: int
  cp_Operations :: "string list"
  cp_Capabilities :: string
  cp_Status :: DaemonStatus
  cp_Tunnel :: TunnelInfo
  cp_Limits :: limitsJSON
  cp_Runs :: runCapabilities

definition handleCapabilities ::
  "(string \<Rightarrow> string option) \<Rightarrow> (capabilitiesResponse \<Rightarrow> string option) \<Rightarrow> ServerConfig \<Rightarrow> DaemonStatus \<Rightarrow> nat list \<Rightarrow> string \<Rightarrow> TunnelInfo \<Rightarrow> string \<Rightarrow> http_out reply" where
  "handleCapabilities gzip encode cfg status clients caps tunnel accept =
     (let resp = \<lparr>cp_Version = 1, cp_Operations = allowedOperationNames, cp_Capabilities = caps,
            cp_Status = status\<lparr>ds_Clients := hub_count clients\<rparr>, cp_Tunnel = tunnel,
            cp_Limits = \<lparr>lj_MaxBodyBytes = MaxBodyBytes cfg, lj_MaxPaneReadLines = MaxPaneReadLines cfg,
              lj_ConfirmationTTLs = ConfirmationTTL cfg div 1000000000, lj_MaxRunOutputLines = MaxRunOutputLines cfg,
              lj_MaxRunOutputBytes = MaxRunOutputBytes cfg, lj_MaxRuns = MaxRuns cfg\<rparr>,
            cp_Runs = capabilities cfg\<rparr>
      in case encode resp of
           None \<Rightarrow> ErrorReply 500 codeInternal ''capabilities encode failed''
         | Some body \<Rightarrow> OkReply (writeMaybeGzip gzip accept [] 200 json_type body))"

record paneReadResponse =
  pr_PaneID :: string
  pr_Source :: string
  pr_Lines :: int
  pr_Content :: string

definition handlePaneRead ::
  "ServerConfig \<Rightarrow> (string \<Rightarrow> string \<Rightarrow> int \<Rightarrow> string + string) \<Rightarrow> string \<Rightarrow> string \<Rightarrow> string \<Rightarrow> paneReadResponse handled" where
  "handlePaneRead cfg read paneID sourceParam linesParam =
     (if paneID = [] then refuse 400 codeBadRequest ''missing pane id''
      else
        let source = (if sourceParam = [] then ''visible'' else sourceParam) in
        if source \<notin> paneReadSources then refuse 400 codeBadRequest ''invalid source''
        else case (if linesParam = [] then Some 100 else case Atoi linesParam of None \<Rightarrow> None | Some n \<Rightarrow> if n \<le> 0 then None else Some n) of
          None \<Rightarrow> refuse 400 codeBadRequest ''invalid lines''
        | Some lines \<Rightarrow>
            let lines = (if lines > MaxPaneReadLines cfg then MaxPaneReadLines cfg else lines)
            in (case read paneID source lines of
                  Inl err \<Rightarrow> \<lparr>hd_reply = ErrorReply 404 codeNotFound ''pane read failed'', hd_audit = [], hd_reads = [(paneID, source, lines)]\<rparr>
                | Inr content \<Rightarrow> \<lparr>hd_reply = OkReply \<lparr>pr_PaneID = paneID, pr_Source = source, pr_Lines = lines, pr_Content = content\<rparr>,
                    hd_audit = [], hd_reads = [(paneID, source, lines)]\<rparr>))"

section \<open>internal/herdr/reads.go and the read side of internal/integration/adapters.go\<close>

definition SourceVisible :: string where "SourceVisible = ''visible''"
definition SourceRecent :: string where "SourceRecent = ''recent''"
definition SourceRecentUnwrapped :: string where "SourceRecentUnwrapped = ''recent_unwrapped''"
definition SourceDetection :: string where "SourceDetection = ''detection''"

definition ParseReadSource :: "string \<Rightarrow> Error + string" where
  "ParseReadSource s =
     (if s \<in> {[], ''visible''} then Inr SourceVisible
      else if s = ''recent'' then Inr SourceRecent
      else if s \<in> {''recent_unwrapped'', ''recent-unwrapped''} then Inr SourceRecentUnwrapped
      else if s = ''detection'' then Inr SourceDetection
      else Inl (newError CodeInvalidParams (''unknown read source: '' @ s)))"

record PaneReadOptions =
  ro_Source :: string
  ro_Format :: string
  ro_Lines :: int
  ro_StripANSI :: bool

definition read_params :: "string \<Rightarrow> string \<Rightarrow> PaneReadOptions \<Rightarrow> (string \<times> json) list" where
  "read_params key target opts =
     (let source = (if ro_Source opts = [] then SourceVisible else ro_Source opts)
      in [(key, JStr target), (''source'', JStr source)] @ omit_text ''format'' (ro_Format opts) @ omit_int ''lines'' (ro_Lines opts) @
         (if ro_StripANSI opts then [(''strip_ansi'', JBool True)] else []))"

definition PaneRead :: "string \<Rightarrow> PaneReadOptions \<Rightarrow> client_call" where
  "PaneRead paneID opts = call ''pane.read'' (read_params ''pane_id'' paneID opts) ''pane_read''"

definition AgentRead :: "string \<Rightarrow> PaneReadOptions \<Rightarrow> client_call" where
  "AgentRead target opts = call ''agent.read'' (read_params ''target'' target opts) ''pane_read''"

definition AgentList :: client_call where "AgentList = call ''agent.list'' [] ''agent_list''"

definition AgentGet :: "string \<Rightarrow> client_call" where
  "AgentGet target = call ''agent.get'' [(''target'', JStr target)] ''agent_info''"

definition WorktreeList :: "string \<Rightarrow> client_call" where
  "WorktreeList workspaceID =
     (if workspaceID = [] then invalid ''worktree list requires a workspace id''
      else call ''worktree.list'' [(''workspace_id'', JStr workspaceID)] ''worktree_list'')"

text \<open>The request the adapter sends for a read; the text of the answer is returned as it is.\<close>

definition ReadPane :: "string \<Rightarrow> string \<Rightarrow> int \<Rightarrow> client_call" where
  "ReadPane paneID source lines =
     (case ParseReadSource source of
        Inl e \<Rightarrow> Inl e
      | Inr src \<Rightarrow> PaneRead paneID \<lparr>ro_Source = src, ro_Format = ''text'', ro_Lines = lines, ro_StripANSI = False\<rparr>)"

section \<open>The audit file\<close>

lemma audit_rune_clean: "line_clean r \<Longrightarrow> audit_rune r"
  by (auto simp: audit_rune_def clean_defs)

lemma SanitizeForLog_runes: "\<exists>rs. SanitizeForLog s = encode_runes rs \<and> valid_runes rs \<and> list_all line_clean rs"
  unfolding SanitizeForLog_def by (rule SanitizeLogLine_runes)

text \<open>The second filter of \<open>sanitizeField\<close> removes nothing: the field is the sanitized text cut to the bound.\<close>

lemma sanitizeField_eq: "sanitizeField s = (if s = [] then [] else take 512 (SanitizeForLog s))"
proof -
  obtain rs where rs: "SanitizeForLog s = encode_runes rs" "valid_runes rs" "list_all line_clean rs" using SanitizeForLog_runes by blast
  have "filter audit_rune rs = rs" using rs(3) audit_rune_clean by (simp add: filter_id_conv list_all_iff)
  then show ?thesis using rs by (simp add: sanitizeField_def runes_encode_runes maxAuditFieldLen_def Let_def)
qed

lemma encode_no_control:
  assumes "list_all line_clean rs" "c \<in> set (encode_runes rs)" shows "0x20 \<le> ord c \<and> ord c \<noteq> 0x7F"
proof -
  obtain r where r: "r \<in> set rs" "c \<in> set (encode_rune r)" using assms(2) by (auto simp: encode_runes_def)
  have "ord c < 0x80 \<Longrightarrow> ord c = r" using r(2) by (auto simp: encode_rune_def valid_rune_def split: if_splits)
  moreover have "0x20 \<le> r \<and> r \<noteq> 0x7F" using assms(1) r(1) by (auto simp: list_all_iff clean_defs)
  ultimately show ?thesis by (cases "ord c < 0x80") auto
qed

lemma sanitizeField_safe: "length (sanitizeField s) \<le> 512 \<and> (\<forall>c\<in>set (sanitizeField s). 0x20 \<le> ord c \<and> ord c \<noteq> 0x7F)"
proof -
  obtain rs where rs: "SanitizeForLog s = encode_runes rs" "list_all line_clean rs" using SanitizeForLog_runes by blast
  then show ?thesis using encode_no_control [OF rs(2)] by (auto simp: sanitizeField_eq dest: in_set_takeD)
qed

definition audit_texts :: "AuditEntry \<Rightarrow> string list" where
  "audit_texts e = [au_Event e, au_Subject e, au_SessionID e, au_Operation e, au_Resource e, au_RequestID e, au_Result e, au_Detail e]"

text \<open>
  Nothing written to the audit file can break its lines. Whatever the fields of the recorded entries, every text in the file
  has at most 512 bytes and no byte that is a control character, and every entry has the time it was recorded at unless it
  brought its own.
\<close>

theorem audit_file_clean:
  assumes "e \<in> set (foldl (\<lambda>file (now, ok, e). Record now ok e file) [] entries)"
  shows "(\<forall>t\<in>set (audit_texts e). length t \<le> 512 \<and> (\<forall>c\<in>set t. 0x20 \<le> ord c \<and> ord c \<noteq> 0x7F)) \<and>
    (\<exists>now e0. (now, True, e0) \<in> set entries \<and> au_Time e = (if au_Time e0 = 0 then now else au_Time e0) \<and> au_Bytes e = au_Bytes e0)"
proof -
  have "\<exists>now e0. (now, True, e0) \<in> set entries \<and> e = sanitizeEntry (stamp now e0)"
    using assms
  proof (induction entries rule: rev_induct)
    case (snoc x entries)
    obtain now ok e0 where "x = (now, ok, e0)" by (cases x) auto
    then show ?case using snoc by (auto simp: Record_def Let_def split: if_splits)
  qed simp
  then obtain now e0 where e0: "(now, True, e0) \<in> set entries" "e = sanitizeEntry (stamp now e0)" by blast
  have "\<forall>t\<in>set (audit_texts e). \<exists>s. t = sanitizeField s" by (auto simp: e0(2) audit_texts_def sanitizeEntry_def)
  moreover have "au_Time e = (if au_Time e0 = 0 then now else au_Time e0)" "au_Bytes e = au_Bytes e0"
    by (simp_all add: e0(2) sanitizeEntry_def stamp_def)
  ultimately show ?thesis using e0(1) sanitizeField_safe by metis
qed

section \<open>Listing directories\<close>

lemma clean_elements_snoc:
  "n \<noteq> [] \<Longrightarrow> n \<noteq> ''.'' \<Longrightarrow> n \<noteq> ''..'' \<Longrightarrow> clean_elements r acc (es @ [n]) = clean_elements r acc es @ [n]"
  by (induction r acc es rule: clean_elements.induct) (auto split: list.split)

lemma joined_snoc: "es \<noteq> [] \<Longrightarrow> joined (es @ [n]) = joined es @ CHR ''/'' # n"
  by (cases es) (simp_all add: joined_def)

definition base_name :: "string \<Rightarrow> bool" where
  "base_name n \<longleftrightarrow> n \<noteq> [] \<and> n \<noteq> ''.'' \<and> n \<noteq> ''..'' \<and> CHR ''/'' \<notin> set n"

lemma Join_child:
  assumes "IsAbs t" "Clean t = t" "t \<noteq> ''/''" "base_name n" shows "Join [t, n] = t @ CHR ''/'' # n"
proof -
  have t: "t \<noteq> []" using assms(1) by (auto simp: IsAbs_def HasPrefix_def)
  have abs: "IsAbs (t @ CHR ''/'' # n)" using assms(1) t by (cases t) (auto simp: IsAbs_def HasPrefix_def)
  let ?C = "clean_elements True [] (Split t CHR ''/'')"
  have c: "t = CHR ''/'' # joined ?C" using assms(1,2) t by (simp add: Clean_def Let_def)
  then have "?C \<noteq> []" using assms(3) by (auto simp: joined_def)
  moreover have "clean_elements True [] (Split (t @ CHR ''/'' # n) CHR ''/'') = ?C @ [n]"
    using assms(4) by (simp add: Split_prefix Split_whole clean_elements_snoc base_name_def)
  ultimately have "Clean (t @ CHR ''/'' # n) = (CHR ''/'' # joined ?C) @ CHR ''/'' # n"
    using abs by (simp add: Clean_def Let_def joined_snoc)
  then show ?thesis using t assms(4) c by (simp add: Join_def joined_def base_name_def)
qed


definition example_links :: "string \<Rightarrow> string option" where
  "example_links p = (if p = ''/w'' then Some p else None)"

definition example_dir :: "string \<Rightarrow> (string \<times> bool) list option" where
  "example_dir p = Some [(''b'', True), (''f'', False), (''a'', True)]"


section \<open>Conditional requests\<close>

definition plain_hash :: "string \<Rightarrow> bool" where
  "plain_hash h \<longleftrightarrow> (\<forall>c\<in>set h. 0x20 < ord c \<and> ord c < 0x80 \<and> c \<noteq> CHR '','' \<and> c \<noteq> CHR 0x22)"

definition etag_of :: "string \<Rightarrow> string" where
  "etag_of h = CHR 0x22 # h @ [CHR 0x22]"

lemma etagMatches_etag:
  assumes "plain_hash h" shows "etagMatches (etag_of h) (etag_of h') \<longleftrightarrow> h = h'"
proof -
  have t: "TrimSpace (etag_of h) = etag_of h" using assms by (intro TrimSpace_plain) (auto simp: etag_of_def plain_hash_def)
  have "CHR '','' \<notin> set (etag_of h)" using assms by (auto simp: etag_of_def plain_hash_def)
  then have "Split (etag_of h) CHR '','' = [etag_of h]" by (rule Split_whole)
  moreover have "TrimPrefix (etag_of h) ''W/'' = etag_of h" by (simp add: TrimPrefix_def HasPrefix_def etag_of_def)
  moreover have "etag_of h \<noteq> ''*''" by (simp add: etag_of_def)
  moreover have "etag_of h = etag_of h' \<longleftrightarrow> h = h'" by (simp add: etag_of_def)
  ultimately show ?thesis using t by (simp add: etagMatches_def)
qed

text \<open>
  Revalidation. A client that repeats the entity tag of a snapshot it has gets \<open>304\<close> exactly when the current snapshot has the same
  hash; otherwise it gets the current snapshot, compressed only if it accepts that, and what it decompresses is the encoding of
  the current snapshot.
\<close>

theorem handleSnapshot_revalidates:
  assumes "plain_hash h" "\<forall>b z. gzip b = Some z \<longrightarrow> gunzip z = b"
  shows "(h = ss_Hash snap \<longrightarrow> (\<exists>hs. handleSnapshot gzip enc snap (etag_of h) accept = OkReply \<lparr>ho_status = 304, ho_headers = hs, ho_body = []\<rparr>)) \<and>
    (h \<noteq> ss_Hash snap \<longrightarrow>
       (case enc snap of
          None \<Rightarrow> handleSnapshot gzip enc snap (etag_of h) accept = ErrorReply 500 codeInternal ''snapshot encode failed''
        | Some body \<Rightarrow>
            (\<exists>out. handleSnapshot gzip enc snap (etag_of h) accept = OkReply out \<and> ho_status out = 200 \<and> (''ETag'', etag_of (ss_Hash snap)) \<in> set (ho_headers out) \<and>
               (if (''Content-Encoding'', ''gzip'') \<in> set (ho_headers out) then acceptsGzip accept \<and> gunzip (ho_body out) = body else ho_body out = body))))"
proof -
  have m: "etagMatches (etag_of h) (CHR 0x22 # ss_Hash snap @ [CHR 0x22]) \<longleftrightarrow> h = ss_Hash snap"
    using etagMatches_etag [OF assms(1), of "ss_Hash snap"] by (simp add: etag_of_def)
  have ne: "etag_of h \<noteq> []" by (simp add: etag_of_def)
  show ?thesis
  proof (cases "h = ss_Hash snap")
    case True
    then show ?thesis using m ne by (simp add: handleSnapshot_def Let_def)
  next
    case False
    then have "handleSnapshot gzip enc snap (etag_of h) accept = (case enc snap of
           None \<Rightarrow> ErrorReply 500 codeInternal ''snapshot encode failed''
         | Some body \<Rightarrow> OkReply (writeMaybeGzip gzip accept [(''Cache-Control'', ''no-cache''), (''ETag'', etag_of (ss_Hash snap))] 200 json_type body))"
      using m ne by (simp add: handleSnapshot_def etag_of_def Let_def split: option.split)
    then show ?thesis using False assms(2)
      by (auto simp: writeMaybeGzip_def Let_def split: option.split)
  qed
qed

theorem handleSnapshot_revalidates_witness:
  "\<exists>hs. handleSnapshot (\<lambda>b. None) (\<lambda>s. Some ''{}'') \<lparr>ss_Version = 1, ss_Hash = ''ab'', ss_Data = ''null'', ss_UpdatedAt = 0\<rparr> (etag_of ''ab'') [] =
     OkReply \<lparr>ho_status = 304, ho_headers = hs, ho_body = []\<rparr>"
  using handleSnapshot_revalidates [of "''ab''" "\<lambda>b. None" id "\<lparr>ss_Version = 1, ss_Hash = ''ab'', ss_Data = ''null'', ss_UpdatedAt = 0\<rparr>"]
  by (simp add: plain_hash_def)

text \<open>
  A pane read reaches Herdr at most once, for a source of the allowlist, which the adapter always accepts, and for between one
  line and the configured maximum.
\<close>

lemma allowed_source_parses: "source \<in> paneReadSources \<Longrightarrow> \<exists>src. ParseReadSource source = Inr src"
  by (auto simp: paneReadSources_def ParseReadSource_def)

theorem handlePaneRead_bounded:
  assumes "(pane, source, lines) \<in> set (hd_reads (handlePaneRead cfg read paneID sourceParam linesParam))" "0 < MaxPaneReadLines cfg"
  shows "hd_reads (handlePaneRead cfg read paneID sourceParam linesParam) = [(pane, source, lines)] \<and> pane = paneID \<and> pane \<noteq> [] \<and>
    0 < lines \<and> lines \<le> MaxPaneReadLines cfg \<and> (\<exists>req. ReadPane pane source lines = Inr req)"
proof -
  have s: "hd_reads (handlePaneRead cfg read paneID sourceParam linesParam) = [(pane, source, lines)] \<and> pane = paneID \<and> pane \<noteq> [] \<and>
    0 < lines \<and> lines \<le> MaxPaneReadLines cfg \<and> source \<in> paneReadSources"
    using assms by (auto simp: handlePaneRead_def refuse_def Let_def split: if_splits option.splits sum.splits)
  then obtain src where "ParseReadSource source = Inr src" using allowed_source_parses by blast
  then have "\<exists>req. ReadPane pane source lines = Inr req" by (simp add: ReadPane_def PaneRead_def call_def)
  then show ?thesis using s by blast
qed

theorem handlePaneRead_bounded_witness:
  "\<exists>req. ReadPane ''p'' ''visible'' 10 = Inr req"
  using handlePaneRead_bounded [of "''p''" "''visible''" 10 "(no_server_config)\<lparr>MaxPaneReadLines := 10\<rparr>" "\<lambda>p s l. Inr []" "''p''" "[]" "[]"]
  by (simp add: handlePaneRead_def paneReadSources_def Let_def)

theorem audit_file_clean_witness:
  "\<exists>e. foldl (\<lambda>file (now, ok, e). Record now ok e file) [] [(7, True, run_audit example_request ''ok'' 3)] = [e] \<and> au_Time e = 7 \<and>
     (\<forall>t\<in>set (audit_texts e). length t \<le> 512)"
proof -
  let ?entries = "[(7, True, run_audit example_request ''ok'' 3)]"
  let ?e = "sanitizeEntry (stamp 7 (run_audit example_request ''ok'' 3))"
  have f: "foldl (\<lambda>file (now, ok, e). Record now ok e file) [] ?entries = [?e]" by (simp add: Record_def)
  then have "?e \<in> set (foldl (\<lambda>file (now, ok, e). Record now ok e file) [] ?entries)" by simp
  from audit_file_clean [OF this] show ?thesis unfolding f by (simp add: run_audit_def)
qed

end
