(* ===== verification/TunnelConfig.thy ===== *)
theory TunnelConfig
  imports Startup
begin

text \<open>
  The configuration of the managed tunnel (internal/tunnel/mode.go, args.go), the token it is started with (token.go and
  internal/config/secret.go), and its derivation from the configuration of the program (internal/integration/configmap.go).
\<close>

section \<open>internal/tunnel/mode.go\<close>

definition tunnel_ModeNamed :: string where "tunnel_ModeNamed = ''named''"
definition tunnel_ModeQuick :: string where "tunnel_ModeQuick = ''quick''"

definition StrategyConfig :: string where "StrategyConfig = ''config''"
definition StrategyCredentials :: string where "StrategyCredentials = ''credentials''"
definition StrategyTokenFile :: string where "StrategyTokenFile = ''token_file''"
definition StrategyTokenCommand :: string where "StrategyTokenCommand = ''token_command''"

lemmas strategy_defs = StrategyConfig_def StrategyCredentials_def StrategyTokenFile_def StrategyTokenCommand_def

definition defaultBinary :: string where "defaultBinary = ''cloudflared''"
definition defaultMetricsAddr :: string where "defaultMetricsAddr = ''127.0.0.1:0''"
definition defaultGracePeriod :: duration where "defaultGracePeriod = 15000000000"
definition defaultStabilityWindow :: duration where "defaultStabilityWindow = 45000000000"
definition loopbackHost :: string where "loopbackHost = ''127.0.0.1''"

record tunnel_Config =
  tc_Mode :: string
  tc_Binary :: string
  tc_LoopbackPort :: int
  tc_PublicURL :: string
  tc_Strategy :: string
  tc_ConfigFile :: string
  tc_CredentialsFile :: string
  tc_Tunnel :: string
  tc_TokenFile :: string
  tc_TokenCommand :: "string list"
  tc_QuickEnabled :: bool
  tc_GracePeriod :: duration
  tc_StabilityWindow :: duration
  tc_MetricsAddr :: string
  tc_TokenDir :: string
  tc_PidDir :: string

datatype tunnel_error = PortOutOfRange int | MetricsNotLoopback string | QuickNotEnabled | NoPublicURL | ModeRequired | UnknownMode string
  | NoStrategy | SeveralStrategies nat | UnknownStrategy string | StrategyIncomplete string | NoTokenPath

definition tunnel_applyDefaults :: "tunnel_Config \<Rightarrow> tunnel_Config" where
  "tunnel_applyDefaults c =
     c\<lparr>tc_Binary := (if tc_Binary c = [] then defaultBinary else tc_Binary c),
       tc_MetricsAddr := (if tc_MetricsAddr c = [] then defaultMetricsAddr else tc_MetricsAddr c),
       tc_GracePeriod := (if tc_GracePeriod c \<le> 0 then defaultGracePeriod else tc_GracePeriod c),
       tc_StabilityWindow := (if tc_StabilityWindow c \<le> 0 then defaultStabilityWindow else tc_StabilityWindow c)\<rparr>"

text \<open>\<open>net.SplitHostPort\<close>; every error of it is \<open>None\<close>.\<close>

definition last_colon :: "string \<Rightarrow> nat option" where
  "last_colon s = map_option (\<lambda>i. length s - 1 - i) (IndexByte (rev s) CHR '':'')"

definition SplitHostPort :: "string \<Rightarrow> (string \<times> string) option" where
  "SplitHostPort s =
     (case last_colon s of
        None \<Rightarrow> None
      | Some i \<Rightarrow>
          if hd s = CHR ''[''
          then case IndexByte s CHR '']'' of
              None \<Rightarrow> None
            | Some e \<Rightarrow>
                if e + 1 = i \<and> CHR ''['' \<notin> set (drop 1 s) \<and> CHR '']'' \<notin> set (drop (e + 1) s)
                then Some (drop 1 (take e s), drop (i + 1) s) else None
          else if CHR '':'' \<in> set (take i s) \<or> CHR ''['' \<in> set s \<or> CHR '']'' \<in> set s then None
          else Some (take i s, drop (i + 1) s))"

text \<open>\<open>parse_ip\<close> is \<open>net.ParseIP\<close>, whose result has sixteen bytes; an IPv4 address is mapped into the last four.\<close>

definition to4 :: "nat list \<Rightarrow> nat list option" where
  "to4 ip = (if length ip = 16 \<and> take 10 ip = replicate 10 0 \<and> ip ! 10 = 0xFF \<and> ip ! 11 = 0xFF then Some (drop 12 ip) else None)"

definition IsLoopback :: "nat list \<Rightarrow> bool" where
  "IsLoopback ip = (case to4 ip of Some ip4 \<Rightarrow> hd ip4 = 127 | None \<Rightarrow> ip = replicate 15 0 @ [1])"

definition metricsAddrIsLoopback :: "(string \<Rightarrow> nat list option) \<Rightarrow> string \<Rightarrow> bool" where
  "metricsAddrIsLoopback parse_ip addr =
     (case SplitHostPort addr of
        None \<Rightarrow> False
      | Some (host, port) \<Rightarrow>
          if host = ''localhost'' then True else (case parse_ip host of None \<Rightarrow> False | Some ip \<Rightarrow> IsLoopback ip))"

definition found_strategies :: "tunnel_Config \<Rightarrow> string list" where
  "found_strategies c =
     (if tc_ConfigFile c \<noteq> [] then [StrategyConfig] else []) @
     (if tc_CredentialsFile c \<noteq> [] \<or> tc_Tunnel c \<noteq> [] then [StrategyCredentials] else []) @
     (if tc_TokenFile c \<noteq> [] then [StrategyTokenFile] else []) @
     (if tc_TokenCommand c \<noteq> [] then [StrategyTokenCommand] else [])"

definition resolveStrategy :: "tunnel_Config \<Rightarrow> tunnel_error + string" where
  "resolveStrategy c =
     (if tc_Strategy c \<noteq> []
      then if tc_Strategy c \<in> {StrategyConfig, StrategyCredentials, StrategyTokenFile, StrategyTokenCommand}
        then Inr (tc_Strategy c) else Inl (UnknownStrategy (tc_Strategy c))
      else case found_strategies c of
          [] \<Rightarrow> Inl NoStrategy
        | [s] \<Rightarrow> Inr s
        | ss \<Rightarrow> Inl (SeveralStrategies (length ss)))"

definition validateStrategy :: "tunnel_Config \<Rightarrow> string \<Rightarrow> tunnel_error option" where
  "validateStrategy c s =
     (if s = StrategyConfig then (if tc_ConfigFile c = [] then Some (StrategyIncomplete s) else None)
      else if s = StrategyCredentials then (if tc_CredentialsFile c = [] \<or> tc_Tunnel c = [] then Some (StrategyIncomplete s) else None)
      else if s = StrategyTokenFile then (if tc_TokenFile c = [] then Some (StrategyIncomplete s) else None)
      else if s = StrategyTokenCommand then (if tc_TokenCommand c = [] then Some (StrategyIncomplete s) else None)
      else Some (UnknownStrategy s))"

definition tunnel_Validate :: "(string \<Rightarrow> nat list option) \<Rightarrow> tunnel_Config \<Rightarrow> tunnel_error + tunnel_Config" where
  "tunnel_Validate parse_ip c =
     (let c = tunnel_applyDefaults c in
      if tc_LoopbackPort c < 1 \<or> tc_LoopbackPort c > 65535 then Inl (PortOutOfRange (tc_LoopbackPort c))
      else if \<not> metricsAddrIsLoopback parse_ip (tc_MetricsAddr c) then Inl (MetricsNotLoopback (tc_MetricsAddr c))
      else if tc_Mode c = tunnel_ModeQuick then (if \<not> tc_QuickEnabled c then Inl QuickNotEnabled else Inr c)
      else if tc_Mode c = tunnel_ModeNamed then
        (case resolveStrategy c of
           Inl e \<Rightarrow> Inl e
         | Inr strategy \<Rightarrow>
             let c = c\<lparr>tc_Strategy := strategy\<rparr> in
             if tc_PublicURL c = [] then Inl NoPublicURL
             else case validateStrategy c strategy of Some e \<Rightarrow> Inl e | None \<Rightarrow> Inr c)
      else if tc_Mode c = [] then Inl ModeRequired
      else Inl (UnknownMode (tc_Mode c)))"

definition usesTokenCommand :: "tunnel_Config \<Rightarrow> bool" where
  "usesTokenCommand c \<longleftrightarrow> tc_Mode c = tunnel_ModeNamed \<and> tc_Strategy c = StrategyTokenCommand"

section \<open>internal/tunnel/args.go\<close>

definition loopbackOriginURL :: "int \<Rightarrow> string" where
  "loopbackOriginURL port = ''http://'' @ loopbackHost @ '':'' @ int_literal port"

definition buildArgs :: "tunnel_Config \<Rightarrow> string \<Rightarrow> tunnel_error + string list" where
  "buildArgs c tokenFilePath =
     (let args = [''tunnel'', ''--no-autoupdate'', ''--loglevel'', ''info'', ''--output'', ''json'', ''--metrics'', tc_MetricsAddr c] in
      if tc_Mode c = tunnel_ModeQuick then Inr (args @ [''--url'', loopbackOriginURL (tc_LoopbackPort c)])
      else if tc_Mode c = tunnel_ModeNamed then
        (if tc_Strategy c = StrategyConfig then Inr (args @ [''--config'', tc_ConfigFile c, ''run''])
         else if tc_Strategy c = StrategyCredentials then Inr (args @ [''run'', ''--credentials-file'', tc_CredentialsFile c, tc_Tunnel c])
         else if tc_Strategy c = StrategyTokenFile \<or> tc_Strategy c = StrategyTokenCommand then
           (if tokenFilePath = [] then Inl NoTokenPath else Inr (args @ [''run'', ''--token-file'', tokenFilePath]))
         else Inl (UnknownStrategy (tc_Strategy c)))
      else Inl (UnknownMode (tc_Mode c)))"

section \<open>internal/tunnel/process.go and supervisor.go: addresses and directories\<close>

definition namedURL :: "tunnel_Config \<Rightarrow> string" where
  "namedURL c = (if tc_Mode c = tunnel_ModeNamed then tc_PublicURL c else [])"

definition pidDirFor :: "string \<Rightarrow> tunnel_Config \<Rightarrow> string" where
  "pidDirFor temp c = (if tc_PidDir c \<noteq> [] then tc_PidDir c else if tc_TokenDir c \<noteq> [] then tc_TokenDir c else temp)"

section \<open>internal/integration/configmap.go: the tunnel's configuration\<close>

definition tunnelStabilityWindow :: duration where "tunnelStabilityWindow = 45000000000"

definition tunnelConfig :: "Config \<Rightarrow> string \<Rightarrow> int \<Rightarrow> string \<Rightarrow> tunnel_Config" where
  "tunnelConfig cfg mode port stateDir =
     (let c = c_Cloudflare cfg in
      \<lparr>tc_Mode = mode, tc_Binary = cc_Binary c, tc_LoopbackPort = port, tc_PublicURL = cc_PublicURL c, tc_Strategy = [],
       tc_ConfigFile = cc_ConfigFile c, tc_CredentialsFile = cc_CredentialsFile c, tc_Tunnel = cc_Tunnel c, tc_TokenFile = cc_TokenFile c,
       tc_TokenCommand = cc_TokenCommand c, tc_QuickEnabled = cc_QuickEnabled c, tc_GracePeriod = cc_GracePeriod c,
       tc_StabilityWindow = tunnelStabilityWindow, tc_MetricsAddr = [], tc_TokenDir = stateDir, tc_PidDir = stateDir\<rparr>)"

section \<open>internal/config/secret.go\<close>

definition maxSecretOutputBytes :: nat where "maxSecretOutputBytes = 65536"

text \<open>
  A command is run by the operating system: \<open>Ran out\<close> are the writes it made to its standard output before it exited successfully,
  \<open>Failed\<close> stands for every other end.
\<close>

datatype command_end = Ran "string list" | Failed

datatype secret_error = NoCommand | CommandFailed string | OutputTooLarge string | NoOutput string

record limitedBuffer =
  lb_buf :: string
  lb_max :: nat
  lb_overflow :: bool

definition lb_Write :: "string \<Rightarrow> limitedBuffer \<Rightarrow> limitedBuffer" where
  "lb_Write p b =
     (let remaining = int (lb_max b) - int (length (lb_buf b)) in
      if remaining \<ge> int (length p) then b\<lparr>lb_buf := lb_buf b @ p\<rparr>
      else b\<lparr>lb_buf := lb_buf b @ (if remaining > 0 then take (nat remaining) p else []), lb_overflow := True\<rparr>)"

definition runSecretArgv :: "command_end \<Rightarrow> string list \<Rightarrow> secret_error + string" where
  "runSecretArgv e argv =
     (case e of
        Failed \<Rightarrow> Inl (CommandFailed (hd argv))
      | Ran writes \<Rightarrow>
          let b = fold lb_Write writes \<lparr>lb_buf = [], lb_max = maxSecretOutputBytes, lb_overflow = False\<rparr>
          in if lb_overflow b then Inl (OutputTooLarge (hd argv)) else Inr (lb_buf b))"

definition trimOneTrailingNewline :: "string \<Rightarrow> string" where
  "trimOneTrailingNewline b =
     (if HasSuffix b [CHR 0x0D, CHR 0x0A] then take (length b - 2) b
      else if HasSuffix b [CHR 0x0A] \<or> HasSuffix b [CHR 0x0D] then take (length b - 1) b
      else b)"

definition ResolveSecretCommand :: "(string list \<Rightarrow> secret_error + string) \<Rightarrow> string list \<Rightarrow> secret_error + string" where
  "ResolveSecretCommand runner argv =
     (if argv = [] then Inl NoCommand
      else case runner argv of
          Inl e \<Rightarrow> Inl e
        | Inr out \<Rightarrow> let secret = trimOneTrailingNewline out in if secret = [] then Inl (NoOutput (hd argv)) else Inr secret)"

section \<open>internal/tunnel/token.go\<close>

definition maxTokenBytes :: nat where "maxTokenBytes = 8192"

record limitedWriter =
  lmw_w :: string
  lmw_limit :: nat
  lmw_n :: nat

definition lmw_Write :: "string \<Rightarrow> limitedWriter \<Rightarrow> limitedWriter" where
  "lmw_Write p l =
     (let remaining = int (lmw_limit l) - int (lmw_n l) in
      if remaining \<le> 0 then l
      else if int (length p) > remaining then l\<lparr>lmw_w := lmw_w l @ take (nat remaining) p, lmw_n := lmw_n l + nat remaining\<rparr>
      else l\<lparr>lmw_w := lmw_w l @ p, lmw_n := lmw_n l + length p\<rparr>)"

definition tunnelSecretRunner :: "command_end \<Rightarrow> string list \<Rightarrow> secret_error + string" where
  "tunnelSecretRunner e argv =
     (case e of
        Failed \<Rightarrow> Inl (CommandFailed (hd argv))
      | Ran writes \<Rightarrow>
          let stdout = lmw_w (fold lmw_Write writes \<lparr>lmw_w = [], lmw_limit = maxTokenBytes + 1, lmw_n = 0\<rparr>)
          in if length stdout > maxTokenBytes then Inl (OutputTooLarge (hd argv)) else Inr stdout)"

definition runTokenCommand :: "command_end \<Rightarrow> string list \<Rightarrow> secret_error + string" where
  "runTokenCommand e argv = ResolveSecretCommand (tunnelSecretRunner e) argv"

section \<open>Bounded output\<close>

lemma lmw_writes:
  "lmw_n l = length (lmw_w l) \<Longrightarrow> length (lmw_w l) \<le> lmw_limit l \<Longrightarrow>
   lmw_w (fold lmw_Write ps l) = take (lmw_limit l) (lmw_w l @ concat ps)"
proof (induction ps arbitrary: l)
  case (Cons p ps)
  have *: "lmw_n (lmw_Write p l) = length (lmw_w (lmw_Write p l))" "length (lmw_w (lmw_Write p l)) \<le> lmw_limit l"
    "lmw_limit (lmw_Write p l) = lmw_limit l" "lmw_w (lmw_Write p l) = take (lmw_limit l) (lmw_w l @ p)"
    using Cons(2,3) by (auto simp: lmw_Write_def Let_def nat_diff_distrib min_def)
  show ?case using Cons(1) [of "lmw_Write p l"] Cons(3) * by (simp add: min_def)
qed simp

lemma lb_writes:
  assumes "length (lb_buf b) \<le> lb_max b" "lb_overflow b \<longrightarrow> length (lb_buf b) = lb_max b"
  shows "lb_buf (fold lb_Write ps b) = take (lb_max b) (lb_buf b @ concat ps) \<and>
    (lb_overflow (fold lb_Write ps b) \<longleftrightarrow> lb_overflow b \<or> length (lb_buf b @ concat ps) > lb_max b)"
  using assms
proof (induction ps arbitrary: b)
  case (Cons p ps)
  have *: "length (lb_buf (lb_Write p b)) \<le> lb_max b" "lb_max (lb_Write p b) = lb_max b"
    "lb_buf (lb_Write p b) = take (lb_max b) (lb_buf b @ p)"
    "lb_overflow (lb_Write p b) \<longleftrightarrow> lb_overflow b \<or> length (lb_buf b @ p) > lb_max b"
    using Cons(2) by (auto simp: lb_Write_def Let_def nat_diff_distrib min_def)
  show ?case using Cons(1) [of "lb_Write p b"] Cons(2,3) * by (auto simp: min_def split: if_splits)
qed simp

lemma tunnelSecretRunner_eq:
  "tunnelSecretRunner (Ran ps) argv =
     (if length (concat ps) > maxTokenBytes then Inl (OutputTooLarge (hd argv)) else Inr (concat ps))"
  by (simp add: tunnelSecretRunner_def lmw_writes Let_def)

lemma runSecretArgv_eq:
  "runSecretArgv (Ran ps) argv =
     (if length (concat ps) > maxSecretOutputBytes then Inl (OutputTooLarge (hd argv)) else Inr (concat ps))"
  using lb_writes [of "\<lparr>lb_buf = [], lb_max = maxSecretOutputBytes, lb_overflow = False\<rparr>" ps]
  by (simp add: runSecretArgv_def Let_def)


text \<open>
  However its output arrives, a token command yields a token exactly when it succeeds with at most 8192 bytes that are not a
  single line end, and the token is that output less one trailing line end; no prefix of a longer output is ever taken for it.
\<close>

theorem runTokenCommand_exact:
  "runTokenCommand e argv = Inr t \<longleftrightarrow>
     argv \<noteq> [] \<and> (\<exists>ps. e = Ran ps \<and> length (concat ps) \<le> 8192 \<and> t = trimOneTrailingNewline (concat ps) \<and> t \<noteq> [])"
  by (cases e) (auto simp: runTokenCommand_def ResolveSecretCommand_def tunnelSecretRunner_eq maxTokenBytes_def Let_def,
      simp_all add: tunnelSecretRunner_def)

section \<open>From the loaded configuration to a supervisor\<close>

definition loopback_v4 :: "nat list" where
  "loopback_v4 = replicate 10 0 @ [0xFF, 0xFF, 127, 0, 0, 1]"

text \<open>What is asked of \<open>net.ParseIP\<close>: that it knows the address of the default.\<close>

definition knows_loopback :: "(string \<Rightarrow> nat list option) \<Rightarrow> bool" where
  "knows_loopback parse_ip \<longleftrightarrow> parse_ip ''127.0.0.1'' = Some loopback_v4"

lemma metrics_default:
  assumes "knows_loopback parse_ip" shows "metricsAddrIsLoopback parse_ip ''127.0.0.1:0''"
proof -
  have "SplitHostPort ''127.0.0.1:0'' = Some (''127.0.0.1'', ''0'')"
    by (simp add: SplitHostPort_def last_colon_def IndexByte_def)
  then show ?thesis using assms
    by (simp add: metricsAddrIsLoopback_def IsLoopback_def to4_def loopback_v4_def knows_loopback_def numeral_eq_Suc)
qed

text \<open>The fields of a locally managed tunnel are used one way or the other, and completely.\<close>

definition one_local_way :: "ConfigCloudflare \<Rightarrow> bool" where
  "one_local_way c \<longleftrightarrow>
     (cc_CredentialsFile c = [] \<longleftrightarrow> cc_Tunnel c = []) \<and> (cc_ConfigFile c = [] \<or> cc_CredentialsFile c = [])"

lemma tunnel_Validate_named:
  assumes "length (credentialStrategies (c_Cloudflare cfg)) = 1" "cc_PublicURL (c_Cloudflare cfg) \<noteq> []" "1 \<le> port" "port \<le> 65535"
    "knows_loopback parse_ip"
  shows "(\<exists>tc. tunnel_Validate parse_ip (tunnelConfig cfg tunnel_ModeNamed port dir) = Inr tc) \<longleftrightarrow> one_local_way (c_Cloudflare cfg)"
  using assms metrics_default [OF assms(5)]
  by (auto simp: tunnel_Validate_def tunnelConfig_def tunnel_applyDefaults_def Let_def tunnel_ModeNamed_def tunnel_ModeQuick_def
      resolveStrategy_def found_strategies_def validateStrategy_def strategy_defs credentialStrategies_def one_local_way_def
      defaultMetricsAddr_def split: if_splits)

lemma tunnel_Validate_quick:
  assumes "cc_QuickEnabled (c_Cloudflare cfg)" "1 \<le> port" "port \<le> 65535" "knows_loopback parse_ip"
  shows "\<exists>tc. tunnel_Validate parse_ip (tunnelConfig cfg tunnel_ModeQuick port dir) = Inr tc"
  using assms metrics_default [OF assms(4)]
  by (simp add: tunnel_Validate_def tunnelConfig_def tunnel_applyDefaults_def Let_def tunnel_ModeQuick_def defaultMetricsAddr_def)

lemma buildArgs_valid:
  assumes "tunnel_Validate parse_ip c = Inr tc"
  shows "isl (buildArgs tc path) \<longleftrightarrow> path = [] \<and> tc_Mode tc = tunnel_ModeNamed \<and> tc_Strategy tc \<in> {StrategyTokenFile, StrategyTokenCommand}"
  using assms
  by (auto simp: tunnel_Validate_def buildArgs_def Let_def validateStrategy_def strategy_defs tunnel_ModeNamed_def tunnel_ModeQuick_def
      split: if_splits sum.splits option.splits)

lemma Validate_named:
  assumes "Validate parse_url cfg = None" "cc_Mode (c_Cloudflare cfg) = ModeNamed"
  shows "length (credentialStrategies (c_Cloudflare cfg)) = 1 \<and> cc_PublicURL (c_Cloudflare cfg) \<noteq> []"
  using assms by (simp add: Validate_def validate_cloudflare_def validateNamed_def first_error_None)


text \<open>The locally managed tunnel of the manual names all three; it passes the checks and never starts.\<close>

definition example_named :: "string \<Rightarrow> string \<Rightarrow> Config" where
  "example_named credentials tunnel = example_loaded\<lparr>c_Cloudflare := (c_Cloudflare example_loaded)\<lparr>cc_Mode := ''named'',
     cc_ConfigFile := ''/home/a/config.yml'', cc_CredentialsFile := credentials, cc_Tunnel := tunnel\<rparr>\<rparr>"

lemma example_named_valid: "Validate example_url (example_named credentials tunnel) = None"
  by (simp add: Validate_def validate_server_def validate_cloudflare_def validate_herdr_def validate_experimental_def validate_ui_def
      validateNamed_def validate_access_def validateIdentityGate_def HasIdentityAllowlist_def validateHTTPSURL_def credentialStrategies_def
      first_error_None example_facts example_url_def example_loaded_def example_named_def Default_def defaultAgentOutputParsers_def ModeNamed_def
      ModeExternal_def LoopbackHost_def minPort_def maxPort_def maxDuration_def minPollHot_def maxPollInterval_def maxGracePeriod_def
      minTerminalFont_def maxTerminalFont_def maxInterpretedTurn_def maxIdentityRuneLen_def)


end
