(* ===== verification/TunnelLogs.thy ===== *)
theory TunnelLogs
  imports TunnelConfig Redact
begin

text \<open>
  What the program keeps of the output of cloudflared: the line writer, readiness and the address (internal/tunnel/process.go), the
  reading of a line (logparse.go), the ring buffer (logbuf.go) and the sink in front of it (supervisor.go).
\<close>

section \<open>internal/tunnel/logbuf.go\<close>

record ringBuffer =
  rb_lines :: "string list"
  rb_cap :: int

definition newRingBuffer :: "int \<Rightarrow> ringBuffer" where
  "newRingBuffer capacity = \<lparr>rb_lines = [], rb_cap = (if capacity \<le> 0 then 200 else capacity)\<rparr>"

definition rb_add :: "string \<Rightarrow> ringBuffer \<Rightarrow> ringBuffer" where
  "rb_add line r =
     (if line = [] then r
      else if int (length (rb_lines r)) \<ge> rb_cap r
      then r\<lparr>rb_lines := (tl (rb_lines r) @ [last (rb_lines r)])[length (rb_lines r) - 1 := line]\<rparr>
      else r\<lparr>rb_lines := rb_lines r @ [line]\<rparr>)"

definition rb_snapshot :: "ringBuffer \<Rightarrow> string list" where
  "rb_snapshot r = rb_lines r"

section \<open>internal/tunnel/logparse.go\<close>

text \<open>
  The match of \<open>quickURLRe\<close> at the beginning of a text. The class of the labels excludes the dot, so the greedy repetition needs no
  backtracking; the pattern is ASCII, so its matches in the bytes are those in the runes.
\<close>

definition label_char :: "char \<Rightarrow> bool" where
  "label_char c \<longleftrightarrow> 0x61 \<le> ord c \<and> ord c \<le> 0x7A \<or> 0x30 \<le> ord c \<and> ord c \<le> 0x39"

definition quick_at :: "string \<Rightarrow> string option" where
  "quick_at s =
     (let r = drop 8 s; label = takeWhile (\<lambda>c. label_char c \<or> c = CHR ''-'') r
      in if HasPrefix s ''https://'' \<and> label \<noteq> [] \<and> label_char (hd label) \<and> HasPrefix (drop (length label) r) ''.trycloudflare.com''
         then Some (''https://'' @ label @ ''.trycloudflare.com'') else None)"

fun quickURL :: "string \<Rightarrow> string" where
  "quickURL [] = []"
| "quickURL (c # s) = (case quick_at (c # s) of Some m \<Rightarrow> m | None \<Rightarrow> quickURL s)"

definition connRegisteredMarkers :: "string list" where
  "connRegisteredMarkers = [''registered tunnel connection'', ''connection registered'', ''registered connection'']"

record LogLine =
  lg_Level :: string
  lg_Message :: string
  lg_Time :: string
  lg_Raw :: string

datatype eventKind = evOther | evQuickURL | evConnRegistered | evError

record logEvent =
  le_kind :: eventKind
  le_url :: string
  le_line :: LogLine

text \<open>\<open>parse\<close> is the JSON parser; the fields are selected and stored as \<open>encoding/json\<close> does.\<close>

definition decode_log :: "json \<Rightarrow> (string \<times> string \<times> string) option" where
  "decode_log j = do {
     p \<leftarrow> select_known [''level'', ''message'', ''msg'', ''time''] j;
     level \<leftarrow> get_string p ''level''; message \<leftarrow> get_string p ''message''; msg \<leftarrow> get_string p ''msg''; time \<leftarrow> get_string p ''time'';
     Some (level, if message = [] then msg else message, time) }"

definition parseLogLine :: "(string \<Rightarrow> json option) \<Rightarrow> string \<Rightarrow> LogLine" where
  "parseLogLine parse b =
     (let line = \<lparr>lg_Level = [], lg_Message = [], lg_Time = [], lg_Raw = sanitizeLogText b\<rparr>; trimmed = TrimSpace b
      in if HasPrefix trimmed ''{'' \<and> HasSuffix trimmed ''}''
         then case Option.bind (parse trimmed) decode_log of
             None \<Rightarrow> line
           | Some (level, msg, time) \<Rightarrow>
               line\<lparr>lg_Level := sanitizeLogText level, lg_Message := sanitizeLogText msg, lg_Time := sanitizeLogText time\<rparr>
         else line)"

definition classify :: "LogLine \<Rightarrow> logEvent" where
  "classify line =
     (let haystacks = [lg_Message line, lg_Raw line] in
      case filter (\<lambda>m. m \<noteq> []) (map (\<lambda>h. quickURL (ToLower h)) haystacks) of
        m # _ \<Rightarrow> \<lparr>le_kind = evQuickURL, le_url = m, le_line = line\<rparr>
      | [] \<Rightarrow>
          if list_ex (\<lambda>h. list_ex (Contains (ToLower h)) connRegisteredMarkers) haystacks
          then \<lparr>le_kind = evConnRegistered, le_url = [], le_line = line\<rparr>
          else if EqualFold (lg_Level line) ''error'' \<or> EqualFold (lg_Level line) ''fatal''
          then \<lparr>le_kind = evError, le_url = [], le_line = line\<rparr>
          else \<lparr>le_kind = evOther, le_url = [], le_line = line\<rparr>)"

section \<open>internal/tunnel/process.go: the line writer\<close>

definition maxCapturedLineBytes :: int where "maxCapturedLineBytes = 65536"

text \<open>Each operation returns the lines it hands to \<open>onLine\<close>.\<close>

record lineWriter =
  lw_buf :: string
  lw_maxLine :: int
  lw_dropping :: bool

definition newLineWriter :: "int \<Rightarrow> lineWriter" where
  "newLineWriter maxLine = \<lparr>lw_buf = [], lw_maxLine = (if maxLine \<le> 0 then maxCapturedLineBytes else maxLine), lw_dropping = False\<rparr>"

definition emit :: "lineWriter \<Rightarrow> string list" where
  "emit w = (if lw_buf w = [] then [] else [lw_buf w])"

definition lw_byte :: "lineWriter \<Rightarrow> char \<Rightarrow> lineWriter \<times> string list" where
  "lw_byte w b =
     (if b = CHR 0x0A then (w\<lparr>lw_buf := [], lw_dropping := False\<rparr>, if lw_dropping w then [] else emit w)
      else if lw_dropping w then (w, [])
      else if int (length (lw_buf w)) \<ge> lw_maxLine w then (w\<lparr>lw_buf := [], lw_dropping := True\<rparr>, emit w)
      else (w\<lparr>lw_buf := lw_buf w @ [b]\<rparr>, []))"

fun lw_Write :: "lineWriter \<Rightarrow> string \<Rightarrow> lineWriter \<times> string list" where
  "lw_Write w [] = (w, [])"
| "lw_Write w (b # p) = (let (w', ls) = lw_byte w b; (w'', ls') = lw_Write w' p in (w'', ls @ ls'))"

definition lw_flush :: "lineWriter \<Rightarrow> lineWriter \<times> string list" where
  "lw_flush w = (w\<lparr>lw_buf := [], lw_dropping := False\<rparr>, if \<not> lw_dropping w \<and> lw_buf w \<noteq> [] then emit w else [])"

section \<open>internal/tunnel/supervisor.go: the log sink\<close>

definition sink :: "LogLine \<Rightarrow> ringBuffer \<Rightarrow> ringBuffer" where
  "sink line logs = (if lg_Raw line = [] then logs else rb_add (SanitizeForLog (lg_Raw line)) logs)"

section \<open>internal/tunnel/process.go: readiness and URL\<close>

record realProcess =
  rp_quick :: bool
  rp_ready :: bool
  rp_publicURL :: string

definition markReady :: "realProcess \<Rightarrow> realProcess" where
  "markReady p = p\<lparr>rp_ready := True\<rparr>"

definition handleLine :: "(string \<Rightarrow> json option) \<Rightarrow> string \<Rightarrow> realProcess \<times> ringBuffer \<Rightarrow> realProcess \<times> ringBuffer" where
  "handleLine parse b s =
     (let (p, logs) = s; line = parseLogLine parse b; logs = sink line logs; ev = classify line in
      case le_kind ev of
        evQuickURL \<Rightarrow>
          let p = (if rp_publicURL p = [] then p\<lparr>rp_publicURL := le_url ev\<rparr> else p)
          in (if rp_quick p then markReady p else p, logs)
      | evConnRegistered \<Rightarrow> (if \<not> rp_quick p then markReady p else p, logs)
      | _ \<Rightarrow> (p, logs))"

text \<open>
  The two streams of one run of cloudflared. What the copiers of \<open>os/exec\<close> write to the standard output and the standard error arrives
  in chunks of any size and interleaved; each stream has a writer of its own.
\<close>

datatype stream = Stdout | Stderr

record child_io =
  ci_out :: lineWriter
  ci_err :: lineWriter
  ci_process :: realProcess
  ci_logs :: ringBuffer

definition startProcess :: "tunnel_Config \<Rightarrow> ringBuffer \<Rightarrow> child_io" where
  "startProcess c logs =
     \<lparr>ci_out = newLineWriter maxCapturedLineBytes, ci_err = newLineWriter maxCapturedLineBytes,
      ci_process = \<lparr>rp_quick = (tc_Mode c = tunnel_ModeQuick), rp_ready = False, rp_publicURL = namedURL c\<rparr>, ci_logs = logs\<rparr>"

definition handle_lines :: "(string \<Rightarrow> json option) \<Rightarrow> string list \<Rightarrow> child_io \<Rightarrow> child_io" where
  "handle_lines parse ls c =
     (let (p, logs) = fold (handleLine parse) ls (ci_process c, ci_logs c) in c\<lparr>ci_process := p, ci_logs := logs\<rparr>)"

fun child_write :: "(string \<Rightarrow> json option) \<Rightarrow> stream \<times> string \<Rightarrow> child_io \<Rightarrow> child_io" where
  "child_write parse (Stdout, p) c = (let (w, ls) = lw_Write (ci_out c) p in handle_lines parse ls (c\<lparr>ci_out := w\<rparr>))"
| "child_write parse (Stderr, p) c = (let (w, ls) = lw_Write (ci_err c) p in handle_lines parse ls (c\<lparr>ci_err := w\<rparr>))"

definition child_flush :: "(string \<Rightarrow> json option) \<Rightarrow> child_io \<Rightarrow> child_io" where
  "child_flush parse c =
     (let (o', lo) = lw_flush (ci_out c); (e', le) = lw_flush (ci_err c)
      in handle_lines parse le (handle_lines parse lo (c\<lparr>ci_out := o', ci_err := e'\<rparr>)))"

section \<open>Lines\<close>

lemma Split_snoc: "Split (s @ [c]) sep = (if c = sep then Split s sep @ [[]] else butlast (Split s sep) @ [last (Split s sep) @ [c]])"
proof (induction s)
  case (Cons a s)
  show ?case by (cases "Split s sep") (use Cons Split_nonempty [of s sep] in \<open>auto simp del: Split_nonempty\<close>)
qed simp

text \<open>The lines of a text as the ring buffer is to see them: none empty, each cut at the bound.\<close>

definition text_lines :: "nat \<Rightarrow> string \<Rightarrow> string list" where
  "text_lines n s = map (take n) (filter (\<lambda>l. l \<noteq> []) (Split s CHR 0x0A))"

definition whole_lines :: "nat \<Rightarrow> string \<Rightarrow> string list" where
  "whole_lines n s = map (take n) (filter (\<lambda>l. l \<noteq> []) (butlast (Split s CHR 0x0A)))"

lemma text_lines_eq:
  "text_lines n s = whole_lines n s @ (let l = last (Split s CHR 0x0A) in if l = [] then [] else [take n l])"
  unfolding text_lines_def whole_lines_def
  by (subst append_butlast_last_id [OF Split_nonempty, symmetric]) (simp only: filter_append map_append Let_def, simp)

lemma lw_Write_append:
  "lw_Write w (p @ q) = (let (w', ls) = lw_Write w p; (w'', ls') = lw_Write w' q in (w'', ls @ ls'))"
  by (induction p arbitrary: w) (simp_all add: Let_def split: prod.splits)

text \<open>The writer holds the line that is being written, unless that line is already too long.\<close>

definition writes_to :: "int \<Rightarrow> string \<Rightarrow> lineWriter" where
  "writes_to n s =
     (let l = last (Split s CHR 0x0A) in \<lparr>lw_buf = (if int (length l) \<le> n then l else []), lw_maxLine = n, lw_dropping = int (length l) > n\<rparr>)"

definition lines_before :: "int \<Rightarrow> string \<Rightarrow> string list" where
  "lines_before n s =
     whole_lines (nat n) s @ (let l = last (Split s CHR 0x0A) in if int (length l) > n then [take (nat n) l] else [])"

lemma whole_lines_snoc:
  "whole_lines n (s @ [c]) = (if c = CHR 0x0A then text_lines n s else whole_lines n s)"
  by (simp add: whole_lines_def text_lines_def Split_snoc)

lemma lw_Write_new:
  assumes "0 < n" shows "lw_Write (newLineWriter n) s = (writes_to n s, lines_before n s)"
proof (induction s rule: rev_induct)
  case Nil
  then show ?case using assms by (simp add: newLineWriter_def writes_to_def lines_before_def whole_lines_def)
next
  case (snoc c s)
  define l where "l = last (Split s CHR 0x0A)"
  have "lw_byte (writes_to n s) c = (writes_to n (s @ [c]), drop (length (lines_before n s)) (lines_before n (s @ [c])))
    \<and> take (length (lines_before n s)) (lines_before n (s @ [c])) = lines_before n s"
    using assms
    by (cases "c = CHR 0x0A"; cases "int (length l) \<le> n"; cases "int (length l) = n"; cases "l = []")
      (auto simp: lw_byte_def emit_def writes_to_def lines_before_def whole_lines_snoc Split_snoc text_lines_eq Let_def simp flip: l_def)
  then show ?case using snoc by (simp add: lw_Write_append Let_def) (metis append_take_drop_id)
qed

lemma lw_flush_writes:
  assumes "0 < n" shows "lines_before n s @ snd (lw_flush (writes_to n s)) = text_lines (nat n) s"
  using assms by (auto simp: lw_flush_def emit_def writes_to_def lines_before_def text_lines_eq Let_def)

fun lw_run :: "lineWriter \<Rightarrow> string list \<Rightarrow> string list" where
  "lw_run w [] = snd (lw_flush w)"
| "lw_run w (p # ps) = (let (w', ls) = lw_Write w p in ls @ lw_run w' ps)"

lemma lw_run_concat: "lw_run w ps = (let (w', ls) = lw_Write w (concat ps) in ls @ snd (lw_flush w'))"
  by (induction ps arbitrary: w) (simp_all add: lw_Write_append Let_def split: prod.splits)

text \<open>
  However the output of cloudflared is cut into writes, the line writer hands on exactly its non-empty lines in order, each
  cut at the bound, the unterminated last one included.
\<close>

theorem lineWriter_lines:
  "lw_run (newLineWriter n) ps = text_lines (nat (if n \<le> 0 then maxCapturedLineBytes else n)) (concat ps)"
proof -
  let ?m = "if n \<le> 0 then maxCapturedLineBytes else n"
  have "newLineWriter n = newLineWriter ?m" "0 < ?m" by (simp_all add: newLineWriter_def maxCapturedLineBytes_def)
  then show ?thesis using lw_Write_new [of ?m "concat ps"] lw_flush_writes [of ?m "concat ps"] by (simp add: lw_run_concat)
qed

section \<open>The ring buffer\<close>

definition rb_ok :: "ringBuffer \<Rightarrow> bool" where
  "rb_ok r \<longleftrightarrow> 0 < rb_cap r \<and> int (length (rb_lines r)) \<le> rb_cap r"

lemma rb_ok_new [simp]: "rb_ok (newRingBuffer c)"
  by (simp add: rb_ok_def newRingBuffer_def)

lemma take_last_snoc: "0 < n \<Longrightarrow> take_last n (xs @ [x]) = take_last n (take_last n xs @ [x])"
  by (cases "length xs \<le> n") (auto simp: take_last_def Suc_diff_le)

lemma take_last_whole: "length xs \<le> n \<Longrightarrow> take_last n xs = xs"
  by (simp add: take_last_def)

lemma rb_add_lines:
  assumes "rb_ok r" "line \<noteq> []"
  shows "rb_lines (rb_add line r) = take_last (nat (rb_cap r)) (rb_lines r @ [line]) \<and> rb_cap (rb_add line r) = rb_cap r"
proof (cases "rb_lines r" rule: rev_cases)
  case Nil
  then show ?thesis using assms by (simp add: rb_add_def rb_ok_def take_last_whole Suc_le_eq)
next
  case (snoc ls l)
  have "int (length (rb_lines r)) < rb_cap r \<or> int (length (rb_lines r)) = rb_cap r" using assms by (auto simp: rb_ok_def)
  then show ?thesis
  proof
    assume full: "int (length (rb_lines r)) = rb_cap r"
    then have "nat (rb_cap r) = Suc (length ls)" using snoc by simp
    then show ?thesis using snoc assms(2) full by (cases ls) (simp_all add: rb_add_def take_last_def list_update_append)
  qed (use assms(2) in \<open>auto simp: rb_add_def take_last_whole\<close>)
qed

lemma rb_ok_add: "rb_ok r \<Longrightarrow> rb_ok (rb_add line r)"
  using rb_add_lines [of r line] by (cases "line = []") (auto simp: rb_ok_def rb_add_def)

lemma rb_adds:
  assumes "rb_ok r"
  shows "rb_lines (fold rb_add ls r) = take_last (nat (rb_cap r)) (rb_lines r @ filter (\<lambda>l. l \<noteq> []) ls) \<and> rb_cap (fold rb_add ls r) = rb_cap r"
  using assms
proof (induction ls rule: rev_induct)
  case Nil
  then have "length (rb_lines r) \<le> nat (rb_cap r)" by (simp add: rb_ok_def le_nat_iff)
  then show ?case by (simp add: take_last_whole)
next
  case (snoc l ls)
  have "rb_ok (fold rb_add ls r)" using snoc(2) by (induction ls arbitrary: r) (simp_all add: rb_ok_add)
  then show ?case
    using snoc rb_add_lines [of "fold rb_add ls r" l] take_last_snoc [of "nat (rb_cap r)" "rb_lines r @ filter (\<lambda>l. l \<noteq> []) ls" l]
    by (cases "l = []") (simp_all add: rb_ok_def, simp add: rb_add_def)
qed

section \<open>What is kept of a run of cloudflared\<close>

fun child_lines :: "(stream \<times> string) list \<Rightarrow> lineWriter \<Rightarrow> lineWriter \<Rightarrow> string list" where
  "child_lines [] o' e' = snd (lw_flush o') @ snd (lw_flush e')"
| "child_lines ((Stdout, p) # ws) o' e' = (let (w, ls) = lw_Write o' p in ls @ child_lines ws w e')"
| "child_lines ((Stderr, p) # ws) o' e' = (let (w, ls) = lw_Write e' p in ls @ child_lines ws o' w)"

definition stream_text :: "stream \<Rightarrow> (stream \<times> string) list \<Rightarrow> string list" where
  "stream_text k ws = map snd (filter (\<lambda>w. fst w = k) ws)"

lemma handle_lines_fold: "(ci_process (handle_lines parse ls c), ci_logs (handle_lines parse ls c)) = fold (handleLine parse) ls (ci_process c, ci_logs c)"
  by (simp add: handle_lines_def split: prod.split)

lemma handle_lines_writers [simp]: "ci_out (handle_lines parse ls c) = ci_out c" "ci_err (handle_lines parse ls c) = ci_err c"
  by (simp_all add: handle_lines_def split: prod.split)

lemma child_run_lines:
  "(let c' = child_flush parse (fold (child_write parse) ws c) in (ci_process c', ci_logs c'))
   = fold (handleLine parse) (child_lines ws (ci_out c) (ci_err c)) (ci_process c, ci_logs c)"
proof (induction ws arbitrary: c)
  case Nil
  show ?case by (simp add: child_flush_def Let_def handle_lines_fold split: prod.split)
next
  case (Cons w ws)
  obtain k p where w: "w = (k, p)" by fastforce
  show ?case
    by (cases k) (use Cons [of "child_write parse w c"] in \<open>auto simp: w Let_def handle_lines_fold split: prod.splits\<close>)
qed

lemma shuffles_append_left: "zs \<in> shuffles xs ys \<Longrightarrow> ls @ zs \<in> shuffles (ls @ xs) ys"
  by (induction ls) (simp_all add: Cons_in_shuffles_leftI)

lemma shuffles_append_right: "zs \<in> shuffles xs ys \<Longrightarrow> ls @ zs \<in> shuffles xs (ls @ ys)"
  by (induction ls) (simp_all add: Cons_in_shuffles_rightI)

lemma child_lines_shuffle: "child_lines ws o' e' \<in> shuffles (lw_run o' (stream_text Stdout ws)) (lw_run e' (stream_text Stderr ws))"
proof (induction ws o' e' rule: child_lines.induct)
  case (1 o' e')
  have "[] @ snd (lw_flush e') \<in> shuffles [] (snd (lw_flush e'))" by simp
  then show ?case using shuffles_append_left [of "snd (lw_flush e')" "[]" "snd (lw_flush e')" "snd (lw_flush o')"] by (simp add: stream_text_def)
qed (auto simp: stream_text_def Let_def shuffles_append_left shuffles_append_right split: prod.splits)

text \<open>What one line contributes to the log, and whether it is the sign of readiness the mode waits for.\<close>

definition logged :: "string \<Rightarrow> string" where
  "logged l = SanitizeForLog (sanitizeLogText l)"

definition signals :: "(string \<Rightarrow> json option) \<Rightarrow> bool \<Rightarrow> string \<Rightarrow> bool" where
  "signals parse quick l \<longleftrightarrow> le_kind (classify (parseLogLine parse l)) = (if quick then evQuickURL else evConnRegistered)"

definition urls :: "(string \<Rightarrow> json option) \<Rightarrow> string list \<Rightarrow> string list" where
  "urls parse ls = filter (\<lambda>u. u \<noteq> []) (map (\<lambda>l. le_url (classify (parseLogLine parse l))) ls)"

lemma parseLogLine_Raw [simp]: "lg_Raw (parseLogLine parse l) = sanitizeLogText l"
  by (simp add: parseLogLine_def Let_def split: option.split prod.split)

lemma quick_at_nonempty: "quick_at s \<noteq> Some []"
  by (simp add: quick_at_def Let_def)

lemma classify_url: "le_url (classify line) \<noteq> [] \<longleftrightarrow> le_kind (classify line) = evQuickURL"
  by (auto simp: classify_def Let_def split: list.split dest: filter_eq_ConsD)

lemma sink_logs: "sink line logs = rb_add (if lg_Raw line = [] then [] else SanitizeForLog (lg_Raw line)) logs"
  by (simp add: sink_def rb_add_def)

lemma SanitizeForLog_Nil [simp]: "SanitizeForLog [] = []"
  by (simp add: SanitizeForLog_def RedactSecrets_def ReplaceAll_def Let_def)

lemma handleLine_eq:
  "handleLine parse l (p, logs) =
     (p\<lparr>rp_ready := rp_ready p \<or> signals parse (rp_quick p) l,
        rp_publicURL := (if rp_publicURL p = [] then le_url (classify (parseLogLine parse l)) else rp_publicURL p)\<rparr>,
      rb_add (logged l) logs)"
proof -
  let ?ev = "classify (parseLogLine parse l)"
  have "sink (parseLogLine parse l) logs = rb_add (logged l) logs" by (simp add: sink_logs logged_def)
  then show ?thesis using classify_url [of "parseLogLine parse l"]
    by (cases "le_kind ?ev") (auto simp: handleLine_def Let_def signals_def markReady_def)
qed

lemma handleLines_eq:
  "fold (handleLine parse) ls (p, logs) =
     (p\<lparr>rp_ready := rp_ready p \<or> list_ex (signals parse (rp_quick p)) ls,
        rp_publicURL := (case rp_publicURL p of [] \<Rightarrow> (case urls parse ls of [] \<Rightarrow> [] | u # _ \<Rightarrow> u) | u \<Rightarrow> u)\<rparr>,
      fold rb_add (map logged ls) logs)"
proof (induction ls arbitrary: p logs)
  case (Cons l ls)
  then show ?case by (auto simp: handleLine_eq urls_def split: list.split)
qed (simp add: urls_def split: list.split)

definition child_run :: "(string \<Rightarrow> json option) \<Rightarrow> tunnel_Config \<Rightarrow> ringBuffer \<Rightarrow> (stream \<times> string) list \<Rightarrow> child_io" where
  "child_run parse c logs ws = child_flush parse (fold (child_write parse) ws (startProcess c logs))"

lemma child_run_eq:
  "\<exists>ls \<in> shuffles (text_lines 65536 (concat (stream_text Stdout ws))) (text_lines 65536 (concat (stream_text Stderr ws))).
     (ci_process (child_run parse c logs ws), ci_logs (child_run parse c logs ws)) = fold (handleLine parse) ls (ci_process (startProcess c logs), logs)"
proof -
  let ?w = "newLineWriter maxCapturedLineBytes"
  have t: "lw_run ?w ps = text_lines 65536 (concat ps)" for ps
    using lw_Write_new [of maxCapturedLineBytes "concat ps"] lw_flush_writes [of maxCapturedLineBytes "concat ps"]
    by (simp add: lw_run_concat maxCapturedLineBytes_def)
  show ?thesis
    using child_lines_shuffle [of ws ?w ?w] child_run_lines [of parse ws "startProcess c logs"]
    unfolding t child_run_def Let_def by (auto simp: startProcess_def)
qed

text \<open>
  C33: what the program keeps of one run of cloudflared. There is an order of the non-empty lines of the two streams, each cut at
  65536 bytes, such that the log has grown by exactly their sanitized forms, of which the newest are kept up to the capacity;
  readiness is set exactly when one of them is the sign the mode waits for; and the address is the configured one, or else
  the first one a line names.
\<close>

theorem child_capture:
  assumes "rb_ok logs"
  shows "\<exists>ls \<in> shuffles (text_lines 65536 (concat (stream_text Stdout ws))) (text_lines 65536 (concat (stream_text Stderr ws))).
    rb_snapshot (ci_logs (child_run parse c logs ws)) = take_last (nat (rb_cap logs)) (rb_snapshot logs @ filter (\<lambda>l. l \<noteq> []) (map logged ls)) \<and>
    (rp_ready (ci_process (child_run parse c logs ws)) \<longleftrightarrow> (\<exists>l \<in> set ls. signals parse (tc_Mode c = ''quick'') l)) \<and>
    rp_publicURL (ci_process (child_run parse c logs ws)) = (case namedURL c of [] \<Rightarrow> (case urls parse ls of [] \<Rightarrow> [] | u # _ \<Rightarrow> u) | u \<Rightarrow> u)"
proof -
  obtain ls where ls: "ls \<in> shuffles (text_lines 65536 (concat (stream_text Stdout ws))) (text_lines 65536 (concat (stream_text Stderr ws)))"
    "(ci_process (child_run parse c logs ws), ci_logs (child_run parse c logs ws)) = fold (handleLine parse) ls (ci_process (startProcess c logs), logs)"
    using child_run_eq by blast
  then have "ci_process (child_run parse c logs ws) = (ci_process (startProcess c logs))
      \<lparr>rp_ready := list_ex (signals parse (tc_Mode c = ''quick'')) ls,
       rp_publicURL := (case namedURL c of [] \<Rightarrow> (case urls parse ls of [] \<Rightarrow> [] | u # _ \<Rightarrow> u) | u \<Rightarrow> u)\<rparr>"
    "ci_logs (child_run parse c logs ws) = fold rb_add (map logged ls) logs"
    unfolding handleLines_eq by (simp_all add: startProcess_def tunnel_ModeQuick_def)
  then show ?thesis using ls(1) rb_adds [OF assms] by (intro bexI [of _ ls]) (simp_all add: rb_snapshot_def list_ex_iff)
qed

theorem child_capture_witness:
  "rb_snapshot (ci_logs (child_run (\<lambda>t. None) (tunnelConfig (example_named [] []) ''named'' 8787 ''/state'') (newRingBuffer 2) [(Stdout, ''a''), (Stdout, [CHR 0x0A, CHR ''b''])]))
   = take_last 2 (filter (\<lambda>l. l \<noteq> []) [logged ''a'', logged ''b''])"
proof -
  let ?ws = "[(Stdout, ''a''), (Stdout, [CHR 0x0A, CHR ''b''])]"
  have t: "text_lines 65536 (concat (stream_text Stdout ?ws)) = [''a'', ''b'']" "text_lines 65536 (concat (stream_text Stderr ?ws)) = []"
    by (simp_all add: stream_text_def text_lines_def)
  have c: "nat (rb_cap (newRingBuffer 2)) = 2" "rb_snapshot (newRingBuffer 2) = []" by (simp_all add: newRingBuffer_def rb_snapshot_def)
  from child_capture [OF rb_ok_new, of ?ws "\<lambda>t. None" "tunnelConfig (example_named [] []) ''named'' 8787 ''/state''" 2, unfolded t c]
  show ?thesis by auto
qed

text \<open>A quick tunnel that is ready has an address under the domain of the provider.\<close>

definition quick_address :: "string \<Rightarrow> bool" where
  "quick_address u \<longleftrightarrow>
     (\<exists>label. u = ''https://'' @ label @ ''.trycloudflare.com'' \<and> label \<noteq> [] \<and> label_char (hd label) \<and> list_all (\<lambda>c. label_char c \<or> c = CHR ''-'') label)"

lemma quick_at_address: "quick_at s = Some u \<Longrightarrow> quick_address u"
  unfolding quick_at_def quick_address_def Let_def
  by (split if_splits) (auto simp: list_all_iff dest: set_takeWhileD intro!: exI [of _ "takeWhile (\<lambda>c. label_char c \<or> c = CHR ''-'') (drop 8 s)"])

lemma quickURL_address: "quickURL s \<noteq> [] \<Longrightarrow> quick_address (quickURL s)"
  by (induction s rule: quickURL.induct) (auto split: option.splits dest: quick_at_address)

lemma classify_address: "le_url (classify line) \<noteq> [] \<Longrightarrow> quick_address (le_url (classify line))"
  by (auto simp: classify_def Let_def split: list.splits if_splits dest!: filter_eq_ConsD intro: quickURL_address)

lemma urls_address: "u \<in> set (urls parse ls) \<Longrightarrow> quick_address u"
  by (auto simp: urls_def classify_address)

lemma quick_ready_address:
  assumes "tc_Mode c = ''quick''" "rp_ready (ci_process (child_run parse c logs ws))"
  shows "quick_address (rp_publicURL (ci_process (child_run parse c logs ws)))"
proof -
  obtain ls where "(ci_process (child_run parse c logs ws), ci_logs (child_run parse c logs ws)) = fold (handleLine parse) ls (ci_process (startProcess c logs), logs)"
    using child_run_eq by blast
  then have p: "ci_process (child_run parse c logs ws) = (ci_process (startProcess c logs))
      \<lparr>rp_ready := list_ex (signals parse True) ls, rp_publicURL := (case urls parse ls of [] \<Rightarrow> [] | u # _ \<Rightarrow> u)\<rparr>"
    unfolding handleLines_eq using assms(1) by (simp add: startProcess_def namedURL_def tunnel_ModeQuick_def tunnel_ModeNamed_def)
  then obtain l where "l \<in> set ls" "signals parse True l" using assms(2) by (auto simp: list_ex_iff)
  then have "urls parse ls \<noteq> []" using classify_url [of "parseLogLine parse l"] by (auto simp: urls_def signals_def filter_empty_conv)
  then show ?thesis using p urls_address [of "hd (urls parse ls)" parse ls] by (cases "urls parse ls") simp_all
qed


lemma handleLine_address:
  assumes "rp_quick p \<and> rp_ready p \<longrightarrow> quick_address (rp_publicURL p)" "rp_quick p \<longrightarrow> rp_publicURL p = [] \<or> quick_address (rp_publicURL p)"
  shows "(rp_quick (fst (handleLine parse l (p, logs))) \<and> rp_ready (fst (handleLine parse l (p, logs))) \<longrightarrow> quick_address (rp_publicURL (fst (handleLine parse l (p, logs))))) \<and>
    (rp_quick (fst (handleLine parse l (p, logs))) \<longrightarrow> rp_publicURL (fst (handleLine parse l (p, logs))) = [] \<or> quick_address (rp_publicURL (fst (handleLine parse l (p, logs)))))"
  using assms classify_address [of "parseLogLine parse l"] classify_url [of "parseLogLine parse l"]
  by (auto simp: handleLine_eq signals_def quick_address_def)

section \<open>Secrets in the log\<close>

text \<open>Text without controls is decoded and encoded chunk by chunk, and redaction keeps it so.\<close>

definition proper :: "chunk \<Rightarrow> bool" where
  "proper c \<longleftrightarrow> valid_rune (fst c) \<and> line_clean (fst c) \<and> snd c = encode_rune (fst c)"

lemma proper_concat: "list_all proper cs \<Longrightarrow> concat (map snd cs) = encode_runes (map fst cs) \<and> valid_runes (map fst cs) \<and> list_all line_clean (map fst cs)"
  by (induction cs) (auto simp: proper_def)

lemma replace_all_proper:
  "(\<forall>t. list_all proper t \<longrightarrow> list_all proper (f t)) \<Longrightarrow> list_all proper cs \<Longrightarrow> list_all proper (replace_all m f p cs)"
proof (induction m f p cs rule: replace_all.induct)
  case (2 m f p c cs)
  have *: "list_all proper (c # take n cs)" "list_all proper (drop n cs)" for n
    using 2(5) by (auto simp: list_all_iff dest: in_set_takeD in_set_dropD)
  show ?case using 2 * by (auto split: option.split nat.split)
qed simp

definition clean_text :: "string \<Rightarrow> bool" where
  "clean_text s \<longleftrightarrow> valid_utf8 s \<and> list_all line_clean (runes s)"

lemma clean_text_iff: "clean_text s \<longleftrightarrow> (\<exists>rs. s = encode_runes rs \<and> valid_runes rs \<and> list_all line_clean rs)"
  unfolding clean_text_def by (metis runes_encode_runes valid_utf8_def valid_utf8_encode_runes valid_runes_runes)

lemma ReplaceAll_clean:
  assumes "\<And>t. list_all proper t \<Longrightarrow> list_all proper (f t)" "clean_text s" shows "clean_text (ReplaceAll m f s)"
proof -
  obtain rs where rs: "s = encode_runes rs" "valid_runes rs" "list_all line_clean rs" using assms(2) by (auto simp: clean_text_iff)
  then have "list_all proper (rune_chunks s)" by (auto simp: rune_chunks_encode_runes proper_def list_all_iff valid_runes_def)
  then have "list_all proper (replace_all m f None (rune_chunks s))" using assms(1) by (intro replace_all_proper) auto
  from proper_concat [OF this] show ?thesis unfolding clean_text_iff ReplaceAll_def by blast
qed

lemma proper_plain: "list_all (\<lambda>c. 0x20 \<le> ord c \<and> ord c < 0x7F) t \<Longrightarrow> list_all proper (plain t)"
  by (auto simp: plain_def proper_def list_all_iff valid_rune_def clean_defs RuneError_def encode_rune_ascii)

lemma RedactSecrets_clean:
  assumes "clean_text s" shows "clean_text (RedactSecrets s)"
proof -
  have p: "list_all proper (plain redacted)" "list_all proper (plain (''pair='' @ redacted))" "list_all proper (plain ('' '' @ redacted))"
    by (rule proper_plain, simp add: redacted_def)+
  have h: "list_all proper (header_repl t)" if "list_all proper t" for t
    using that p by (auto simp: header_repl_def Let_def list_all_iff dest: in_set_takeD)
  show ?thesis unfolding RedactSecrets_def Let_def by (intro ReplaceAll_clean assms h p)
qed


text \<open>
  The lines that \<open>RecentLogs\<close> returns are valid UTF-8 without control characters, and a line of cloudflared that is free of C1
  controls and ill-formed bytes leaves no token, tunnel credential or pairing value in the log.
\<close>

theorem logged_secret_free:
  "clean_text (logged l) \<and> (list_all line_clean (runes (sanitizeLogText l)) \<longrightarrow> secret_free (runes (logged l)))"
proof (intro conjI impI)
  show "clean_text (logged l)"
    using log_line.out_valid_utf8 log_line.out_clean by (simp add: clean_text_def logged_def SanitizeForLog_def SanitizeLogLine_def)
  assume "list_all line_clean (runes (sanitizeLogText l))"
  then have "clean_text (sanitizeLogText l)"
    using sanitizeLogText_runes [of l] valid_utf8_encode_runes by (auto simp: clean_text_def)
  then have "clean_text (RedactSecrets (sanitizeLogText l))" by (rule RedactSecrets_clean)
  then have "logged l = RedactSecrets (sanitizeLogText l)"
    by (simp add: logged_def SanitizeForLog_def SanitizeLogLine_def clean_text_def log_line.keeps_clean)
  then show "secret_free (runes (logged l))" by (simp add: RedactSecrets_secret_free)
qed


lemma sanitizeLogText_short:
  assumes "valid_runes rs" "list_all text_rune rs" "length (encode_runes rs) < maxLogLineBytes" "rs \<noteq> []" "last rs \<noteq> 0x20"
  shows "sanitizeLogText (encode_runes rs) = encode_runes rs"
proof -
  have loop: "list_all text_rune rs \<Longrightarrow> length (b @ encode_runes rs) < maxLogLineBytes \<Longrightarrow> sanitizeLogText_loop rs b = b @ encode_runes rs" for b
    by (induction rs arbitrary: b) (auto simp: text_rune_def Let_def)
  show ?thesis using assms loop [of "[]"]
    by (simp add: sanitizeLogText_def runes_encode_runes TrimRight_space_encode drop_end_id)
qed

lemma example_pair_line: "sanitizeLogText ''pair=abc'' = ''pair=abc'' \<and> list_all line_clean (runes ''pair=abc'')"
proof -
  have e: "encode_runes (ascii ''pair=abc'') = ''pair=abc''" by (rule encode_ascii) simp
  have r: "runes ''pair=abc'' = ascii ''pair=abc''" by (rule runes_of_ascii) simp
  have "sanitizeLogText (encode_runes (ascii ''pair=abc'')) = encode_runes (ascii ''pair=abc'')"
    by (rule sanitizeLogText_short) (simp_all add: e, simp_all add: ascii_def valid_runes_def valid_rune_def text_rune_def maxLogLineBytes_def)
  then show ?thesis by (simp add: e r) (simp add: ascii_def clean_defs RuneError_def)
qed

theorem logged_secret_free_witness: "sanitizeLogText ''pair=abc'' = ''pair=abc'' \<and> secret_free (runes (logged ''pair=abc''))"
  using logged_secret_free [of "''pair=abc''"] example_pair_line by simp

text \<open>
  C1 controls are not control characters for the log parser, and hide a token from the redaction, which drops them afterwards: a
  line with such a character inside a token puts the token into the log.
\<close>

theorem log_keeps_hidden_token:
  "logged (''eyJ'' @ encode_runes [0x85] @ ''hbGci.c3Vi.c2ln'') = ''eyJhbGci.c3Vi.c2ln'' \<and> \<not> secret_free (runes ''eyJhbGci.c3Vi.c2ln'')"
proof
  define rs :: "rune list" where "rs = [101, 121, 74, 0x85, 104, 98, 71, 99, 105, 46, 99, 51, 86, 105, 46, 99, 50, 108, 110]"
  have enc: "encode_runes rs = ''eyJ'' @ encode_runes [0x85] @ ''hbGci.c3Vi.c2ln''"
    using encode_ascii [of "''eyJ''"] encode_ascii [of "''hbGci.c3Vi.c2ln''"] encode_runes_append [of "[101, 121, 74]" "0x85 # ascii ''hbGci.c3Vi.c2ln''"]
    by (simp add: ascii_def rs_def)
  have v: "valid_runes rs" by (simp add: rs_def valid_rune_def)
  have "sanitizeLogText (encode_runes rs) = encode_runes rs"
    by (rule sanitizeLogText_short [OF v]) (simp_all add: rs_def text_rune_def maxLogLineBytes_def encode_rune_def)
  moreover have r: "runes (encode_runes rs) = rs" by (rule runes_encode_runes [OF v])
  have "RedactSecrets (encode_runes rs) = encode_runes rs"
    by (rule RedactSecrets_keeps) (simp_all add: r secret_free_def, simp_all add: rs_def jwtPattern_def tunnelTokenPattern_def pairPattern_def headerPattern_def
        headerNames_def header_with_def ascii_def fold_rune_def eyJ_def segment_def seg_rune_def token_rune_def)
  moreover have "concat (map log_emit rs) = ascii ''eyJhbGci.c3Vi.c2ln''" by (simp add: rs_def log_emit_def RuneError_def ascii_def)
  ultimately show "logged (''eyJ'' @ encode_runes [0x85] @ ''hbGci.c3Vi.c2ln'') = ''eyJhbGci.c3Vi.c2ln''"
    unfolding enc [symmetric] logged_def SanitizeForLog_def SanitizeLogLine_def sanitize_with_def by (simp add: r encode_ascii)
  have "runes ''eyJhbGci.c3Vi.c2ln'' = [101, 121, 74, 104, 98, 71, 99, 105, 46, 99, 51, 86, 105, 46, 99, 50, 108, 110]"
    by (subst runes_of_ascii) (simp_all add: ascii_def)
  then show "\<not> secret_free (runes ''eyJhbGci.c3Vi.c2ln'')"
    by (simp add: secret_free_def jwtPattern_def eyJ_def segment_def seg_rune_def dot_segment_def)
qed

end
