(* ===== verification/TunnelSupervisor.thy ===== *)
theory TunnelSupervisor
  imports TunnelLogs RateLimiter
begin

text \<open>
  The supervisor of cloudflared (internal/tunnel/supervisor.go): its loop as a transition system with the restart delays (backoff.go), the
  temporary token file (token.go), the reconciliation of a child that survived an earlier process (orphan.go) and the child itself.
\<close>

section \<open>internal/tunnel/backoff.go\<close>

text \<open>
  Floating-point values are rationals, rounded by \<open>fl\<close>; \<open>pow\<close> is \<open>math.Pow\<close>. A product beyond the range of \<open>float64\<close> is infinite and is cut at the
  maximum as any other large value is. The draw of \<open>rnd\<close> is an argument.
\<close>

record Backoff =
  bo_Base :: duration
  bo_Max :: duration
  bo_Factor :: rat
  bo_Jitter :: rat
  bo_attempt :: nat

definition bo_base :: "Backoff \<Rightarrow> duration" where "bo_base b = (if bo_Base b \<le> 0 then 1000000000 else bo_Base b)"
definition bo_factor :: "Backoff \<Rightarrow> rat" where "bo_factor b = (if bo_Factor b \<le> 1 then 2 else bo_Factor b)"
definition bo_max :: "Backoff \<Rightarrow> duration" where "bo_max b = (if bo_Max b \<le> 0 then 30000000000 else bo_Max b)"

text \<open>The conversion to an integer cuts the fraction off; outside of 64 bits it gives the least integer.\<close>

definition to_int64 :: "rat \<Rightarrow> int" where
  "to_int64 x = (let n = (if x < 0 then \<lceil>x\<rceil> else \<lfloor>x\<rfloor>) in if - (2 ^ 63) \<le> n \<and> n < 2 ^ 63 then n else - (2 ^ 63))"

definition Next :: "(rat \<Rightarrow> rat) \<Rightarrow> (rat \<Rightarrow> nat \<Rightarrow> rat) \<Rightarrow> rat \<Rightarrow> Backoff \<Rightarrow> Backoff \<times> duration" where
  "Next fl pow rnd b =
     (let exp = pow (bo_factor b) (bo_attempt b);
          delay = fl (fl (of_int (bo_base b)) * exp);
          maxNs = fl (of_int (bo_max b));
          delay = (if delay > maxNs then maxNs else delay);
          delay =
            (if bo_Jitter b > 0
             then let frac = (if bo_Jitter b > 1 then 1 else bo_Jitter b);
                      delta = fl (fl (fl (fl (rnd * 2) - 1) * frac) * delay);
                      delay = fl (delay + delta)
                  in (if delay < 0 then 0 else delay)
             else delay);
          d = to_int64 delay
      in (b\<lparr>bo_attempt := bo_attempt b + 1\<rparr>, if d > bo_max b then bo_max b else d))"

definition bo_Reset :: "Backoff \<Rightarrow> Backoff" where "bo_Reset b = b\<lparr>bo_attempt := 0\<rparr>"
definition bo_Attempt :: "Backoff \<Rightarrow> nat" where "bo_Attempt b = bo_attempt b"

section \<open>internal/tunnel/orphan.go\<close>

definition MacOSKillWindowNote :: string where
  "MacOSKillWindowNote = ''macOS has no parent-death signal: a cloudflared child can outlive a SIGKILLed daemon and keep the public tunnel up until the next start reconciles and terminates the verified orphan.''"

definition startTimeTolerance :: duration where "startTimeTolerance = 3000000000"

record pidRecord =
  pid_PID :: int
  pid_Binary :: string
  pid_CreatedUnixMs :: int

text \<open>
  The pidfile is the record it holds. \<open>writePidRecord\<close> replaces it at once or, when a step before the renaming fails, not at all; what is not a
  record with a positive number reads as an error.
\<close>

definition writePidRecord :: "bool \<Rightarrow> string \<Rightarrow> pidRecord \<Rightarrow> pidRecord option \<Rightarrow> pidRecord option" where
  "writePidRecord ok dir rec file = (if dir = [] \<or> \<not> ok then file else Some rec)"

definition readPidRecord :: "pidRecord option \<Rightarrow> pidRecord option" where
  "readPidRecord file = (case file of None \<Rightarrow> None | Some rec \<Rightarrow> if pid_PID rec \<le> 0 then None else Some rec)"

text \<open>\<open>filepath.Base\<close>.\<close>

definition Base :: "string \<Rightarrow> string" where
  "Base path =
     (if path = [] then ''.''
      else let p = drop_end (\<lambda>c. c = CHR ''/'') path in if p = [] then ''/'' else rev (takeWhile (\<lambda>c. c \<noteq> CHR ''/'') (rev p)))"

definition commandBase :: "string \<Rightarrow> string" where
  "commandBase s =
     (let s = TrimSpace s in
      if s = [] then []
      else Base (case IndexAny s {CHR '' '', CHR 0x09} of Some i \<Rightarrow> take i s | None \<Rightarrow> s))"

text \<open>What the operating system says about processes: whether one is alive, its command and its start time as \<open>ps\<close> prints them.\<close>

record processes =
  ps_alive :: "int \<Rightarrow> bool"
  ps_comm :: "int \<Rightarrow> string option"
  ps_start :: "int \<Rightarrow> gotime option"

definition verifyProcessIdentity :: "processes \<Rightarrow> pidRecord \<Rightarrow> bool" where
  "verifyProcessIdentity ps rec =
     (let expected = commandBase (pid_Binary rec) in
      if expected = [] then False
      else case ps_comm ps (pid_PID rec) of
          None \<Rightarrow> False
        | Some out \<Rightarrow>
            let comm = TrimSpace out in
            if comm = [] \<or> commandBase comm \<noteq> expected then False
            else if pid_CreatedUnixMs rec \<le> 0 then False
            else case ps_start ps (pid_PID rec) of
                None \<Rightarrow> False
              | Some start \<Rightarrow>
                  let diff = start - pid_CreatedUnixMs rec * 1000000
                  in \<not> (diff < - startTimeTolerance \<or> diff > startTimeTolerance))"

definition emit_note :: "string \<Rightarrow> ringBuffer \<Rightarrow> ringBuffer" where
  "emit_note msg logs = sink \<lparr>lg_Level = [], lg_Message = msg, lg_Time = [], lg_Raw = sanitizeLogText msg\<rparr> logs"

text \<open>The file and the log afterwards, and the process that was terminated.\<close>

definition reconcileOrphan :: "processes \<Rightarrow> pidRecord option \<Rightarrow> ringBuffer \<Rightarrow> pidRecord option \<times> ringBuffer \<times> int option" where
  "reconcileOrphan ps file logs =
     (case readPidRecord file of
        None \<Rightarrow> (file, logs, None)
      | Some rec \<Rightarrow>
          if \<not> (pid_PID rec > 0 \<and> ps_alive ps (pid_PID rec)) then (None, logs, None)
          else if \<not> verifyProcessIdentity ps rec
          then (file, emit_note (''tunnel: left possible orphan pid='' @ int_literal (pid_PID rec) @ '' unverified (not terminating); '' @ MacOSKillWindowNote) logs, None)
          else (None, emit_note (''tunnel: terminating verified orphaned cloudflared pid='' @ int_literal (pid_PID rec) @ '' from a prior daemon; '' @ MacOSKillWindowNote) logs,
            Some (pid_PID rec)))"

section \<open>internal/tunnel/token.go: the token file\<close>

text \<open>
  The files of the token directory by name. \<open>created\<close> is the name \<open>os.CreateTemp\<close> chose; the flags say whether changing the mode, writing and
  closing succeeded. Removing a file the program has just created is taken to succeed.
\<close>

type_synonym files = "string \<rightharpoonup> string"

definition writeTokenFile :: "string option \<Rightarrow> bool \<Rightarrow> bool \<Rightarrow> bool \<Rightarrow> string \<Rightarrow> files \<Rightarrow> files \<times> string option" where
  "writeTokenFile created chmod_ok write_ok close_ok token fs =
     (case created of
        None \<Rightarrow> (fs, None)
      | Some name \<Rightarrow>
          if chmod_ok \<and> write_ok \<and> close_ok then (fs(name \<mapsto> token), Some name)
          else ((fs(name \<mapsto> token))(name := None), None))"


section \<open>internal/tunnel/supervisor.go\<close>

definition StateIdle :: string where "StateIdle = ''idle''"
definition StateStarting :: string where "StateStarting = ''starting''"
definition StateReady :: string where "StateReady = ''ready''"
definition StateDegraded :: string where "StateDegraded = ''degraded''"
definition StateStopped :: string where "StateStopped = ''stopped''"

lemmas state_defs = StateIdle_def StateStarting_def StateReady_def StateDegraded_def StateStopped_def

text \<open>
  One run of cloudflared: what it wrote, its process number, and the error of \<open>cmd.Wait\<close> once it has exited. The places the loop of \<open>run\<close>
  can be at: before \<open>Start\<close>; at the head of the loop; with a token file, before the child is started; in the two selects of
  \<open>waitAttempt\<close>; in \<open>gracefulStop\<close>; before \<open>afterFailure\<close>; asleep; returned.
\<close>

record child_handle =
  cr_io :: child_io
  cr_pid :: int
  cr_exit :: "string option option"

datatype sup_pc = SupIdle | SupTop | SupStarting string | SupWaiting | SupServing gotime | SupStopping | SupFailed | SupSleeping | SupExited

record Supervisor =
  sv_cfg :: tunnel_Config
  sv_backoff :: Backoff
  sv_maxConsecutive :: int
  sv_stabilityWindow :: duration
  sv_pidDir :: string
  sv_logs :: ringBuffer
  sv_state :: string
  sv_url :: string
  sv_err :: "string option"
  sv_readyCh :: bool
  sv_stopCh :: bool
  sv_doneCh :: bool
  sv_pc :: sup_pc
  sv_consecutive :: int
  sv_ctx :: bool
  sv_child :: "child_handle option"
  sv_files :: files
  sv_cleanup :: "string option"
  sv_pidFile :: "pidRecord option"

definition tunnel_New :: "(string \<Rightarrow> nat list option) \<Rightarrow> string \<Rightarrow> tunnel_Config \<Rightarrow> files \<Rightarrow> pidRecord option \<Rightarrow> tunnel_error + Supervisor" where
  "tunnel_New parse_ip temp cfg fs pidfile =
     (case tunnel_Validate parse_ip cfg of
        Inl e \<Rightarrow> Inl e
      | Inr cfg \<Rightarrow> Inr
          \<lparr>sv_cfg = cfg, sv_backoff = \<lparr>bo_Base = 1000000000, bo_Max = 30000000000, bo_Factor = 2, bo_Jitter = 1 / 5, bo_attempt = 0\<rparr>,
           sv_maxConsecutive = 5, sv_stabilityWindow = tc_StabilityWindow cfg, sv_pidDir = pidDirFor temp cfg, sv_logs = newRingBuffer 200,
           sv_state = StateIdle, sv_url = [], sv_err = None, sv_readyCh = False, sv_stopCh = False, sv_doneCh = False, sv_pc = SupIdle,
           sv_consecutive = 0, sv_ctx = False, sv_child = None, sv_files = fs, sv_cleanup = None, sv_pidFile = pidfile\<rparr>)"

definition WithBackoff :: "Backoff \<Rightarrow> Supervisor \<Rightarrow> Supervisor" where "WithBackoff b s = s\<lparr>sv_backoff := b\<rparr>"
definition WithMaxConsecutiveFailures :: "int \<Rightarrow> Supervisor \<Rightarrow> Supervisor" where "WithMaxConsecutiveFailures n s = s\<lparr>sv_maxConsecutive := n\<rparr>"
definition WithLogCapacity :: "int \<Rightarrow> Supervisor \<Rightarrow> Supervisor" where "WithLogCapacity n s = s\<lparr>sv_logs := newRingBuffer n\<rparr>"
definition WithStabilityWindow :: "duration \<Rightarrow> Supervisor \<Rightarrow> Supervisor" where "WithStabilityWindow d s = s\<lparr>sv_stabilityWindow := d\<rparr>"

definition setState :: "string \<Rightarrow> Supervisor \<Rightarrow> Supervisor" where "setState st s = s\<lparr>sv_state := st\<rparr>"
definition setErr :: "string option \<Rightarrow> Supervisor \<Rightarrow> Supervisor" where "setErr e s = s\<lparr>sv_err := e\<rparr>"
definition signalReady :: "Supervisor \<Rightarrow> Supervisor" where "signalReady s = s\<lparr>sv_readyCh := True\<rparr>"
definition stopRequested :: "Supervisor \<Rightarrow> bool" where "stopRequested s = sv_stopCh s"

text \<open>The cleanup of the attempt: the removal of its temporary token file, once.\<close>

definition cleanup :: "Supervisor \<Rightarrow> Supervisor" where
  "cleanup s = (case sv_cleanup s of None \<Rightarrow> s | Some name \<Rightarrow> s\<lparr>sv_files := (sv_files s)(name := None), sv_cleanup := None\<rparr>)"

text \<open>
  The return of \<open>run\<close>: the last change of the state and the deferred calls, the removal of the pidfile and the closing of the channel, as
  one step.
\<close>

definition finish :: "string \<Rightarrow> Supervisor \<Rightarrow> Supervisor" where
  "finish st s = setState st s\<lparr>sv_pidFile := None, sv_doneCh := True, sv_pc := SupExited\<rparr>"

definition Start :: "processes \<Rightarrow> Supervisor \<Rightarrow> Supervisor" where
  "Start ps s =
     (let (file, logs, killed) = reconcileOrphan ps (sv_pidFile s) (sv_logs s)
      in setState StateStarting s\<lparr>sv_pidFile := file, sv_logs := logs, sv_pc := SupTop\<rparr>)"

text \<open>\<open>made\<close> is the outcome of \<open>writeTokenFile\<close>; the error is \<open>Inl\<close>.\<close>

definition prepareToken ::
  "command_end \<Rightarrow> (string \<Rightarrow> files \<Rightarrow> files \<times> string option) \<Rightarrow> Supervisor \<Rightarrow> Supervisor + (Supervisor \<times> string)" where
  "prepareToken e write s =
     (if \<not> usesTokenCommand (sv_cfg s) then Inr (s\<lparr>sv_cleanup := None\<rparr>, tc_TokenFile (sv_cfg s))
      else case runTokenCommand e (tc_TokenCommand (sv_cfg s)) of
          Inl err \<Rightarrow> Inl s
        | Inr token \<Rightarrow>
            (case write token (sv_files s) of
               (fs, None) \<Rightarrow> Inl (s\<lparr>sv_files := fs\<rparr>)
             | (fs, Some name) \<Rightarrow> Inr (s\<lparr>sv_files := fs, sv_cleanup := Some name\<rparr>, name)))"

definition recordPid :: "bool \<Rightarrow> gotime \<Rightarrow> int \<Rightarrow> Supervisor \<Rightarrow> Supervisor" where
  "recordPid ok now pid s =
     (if pid \<le> 0 then s
      else s\<lparr>sv_pidFile := writePidRecord ok (sv_pidDir s)
        \<lparr>pid_PID = pid, pid_Binary = tc_Binary (sv_cfg s), pid_CreatedUnixMs = now div 1000000\<rparr> (sv_pidFile s)\<rparr>)"

definition sup_ready :: "gotime \<Rightarrow> child_handle \<Rightarrow> Supervisor \<Rightarrow> Supervisor" where
  "sup_ready now h s =
     signalReady (cleanup s\<lparr>sv_url := rp_publicURL (ci_process (cr_io h)), sv_state := StateReady, sv_err := None\<rparr>)\<lparr>sv_pc := SupServing now\<rparr>"

definition after_serving :: "gotime \<Rightarrow> gotime \<Rightarrow> Supervisor \<Rightarrow> Supervisor" where
  "after_serving readyAt now s =
     (if now - readyAt \<ge> sv_stabilityWindow s then s\<lparr>sv_backoff := bo_Reset (sv_backoff s), sv_consecutive := 0\<rparr> else s)
       \<lparr>sv_child := None, sv_pc := SupFailed\<rparr>"

definition gracefulStop :: "Supervisor \<Rightarrow> Supervisor" where
  "gracefulStop s = finish StateStopped (cleanup s)"

definition afterFailure :: "(rat \<Rightarrow> rat) \<Rightarrow> (rat \<Rightarrow> nat \<Rightarrow> rat) \<Rightarrow> rat \<Rightarrow> Supervisor \<Rightarrow> Supervisor" where
  "afterFailure fl pow rnd s =
     (if stopRequested s \<or> sv_ctx s then finish StateStopped s
      else let s = s\<lparr>sv_consecutive := sv_consecutive s + 1\<rparr> in
        if sv_maxConsecutive s > 0 \<and> sv_consecutive s \<ge> sv_maxConsecutive s then finish StateDegraded s
        else setState StateStarting s\<lparr>sv_backoff := fst (Next fl pow rnd (sv_backoff s)), sv_pc := SupSleeping\<rparr>)"

text \<open>
  The steps of the loop. A select takes any case that is enabled. \<open>stop\<close> of a child returns when its exit is seen or, after the
  group was killed, when two more seconds have passed; the two rules of \<open>SupStopping\<close>.
\<close>

inductive supervise_step :: "Supervisor \<Rightarrow> Supervisor \<Rightarrow> bool" where
  top_stops: "sv_pc s = SupTop \<Longrightarrow> stopRequested s \<or> sv_ctx s \<Longrightarrow> supervise_step s (finish StateStopped s)"
| token_fails: "sv_pc s = SupTop \<Longrightarrow> \<not> (stopRequested s \<or> sv_ctx s) \<Longrightarrow> prepareToken e write s = Inl t \<Longrightarrow>
    write = writeTokenFile created chmod_ok write_ok close_ok \<Longrightarrow> \<forall>n. created = Some n \<longrightarrow> sv_files s n = None \<Longrightarrow>
    supervise_step s (setErr (Some err) t\<lparr>sv_pc := SupFailed\<rparr>)"
| token_ready: "sv_pc s = SupTop \<Longrightarrow> \<not> (stopRequested s \<or> sv_ctx s) \<Longrightarrow> prepareToken e write s = Inr (t, path) \<Longrightarrow>
    write = writeTokenFile created chmod_ok write_ok close_ok \<Longrightarrow> \<forall>n. created = Some n \<longrightarrow> sv_files s n = None \<Longrightarrow>
    supervise_step s (t\<lparr>sv_pc := SupStarting path\<rparr>)"
| start_fails: "sv_pc s = SupStarting path \<Longrightarrow> supervise_step s (setErr (Some err) (cleanup s)\<lparr>sv_pc := SupFailed\<rparr>)"
| started: "sv_pc s = SupStarting path \<Longrightarrow> buildArgs (sv_cfg s) path = Inr argv \<Longrightarrow> h = \<lparr>cr_io = startProcess (sv_cfg s) (sv_logs s), cr_pid = pid, cr_exit = None\<rparr> \<Longrightarrow>
    supervise_step s (recordPid ok now pid s\<lparr>sv_child := Some h, sv_pc := SupWaiting\<rparr>)"
| becomes_ready: "sv_pc s = SupWaiting \<Longrightarrow> sv_child s = Some h \<Longrightarrow> rp_ready (ci_process (cr_io h)) \<Longrightarrow> supervise_step s (sup_ready now h s)"
| exits_early: "sv_pc s = SupWaiting \<Longrightarrow> sv_child s = Some h \<Longrightarrow> cr_exit h = Some err \<Longrightarrow>
    supervise_step s (setErr err (cleanup s)\<lparr>sv_child := None, sv_pc := SupFailed\<rparr>)"
| waiting_stops: "sv_pc s = SupWaiting \<Longrightarrow> stopRequested s \<or> sv_ctx s \<Longrightarrow> supervise_step s (s\<lparr>sv_pc := SupStopping\<rparr>)"
| serving_ends: "sv_pc s = SupServing readyAt \<Longrightarrow> sv_child s = Some h \<Longrightarrow> cr_exit h = Some err \<Longrightarrow> supervise_step s (after_serving readyAt now s)"
| serving_stops: "sv_pc s = SupServing readyAt \<Longrightarrow> stopRequested s \<or> sv_ctx s \<Longrightarrow> supervise_step s (s\<lparr>sv_pc := SupStopping\<rparr>)"
| child_stopped: "sv_pc s = SupStopping \<Longrightarrow> sv_child s = Some h \<Longrightarrow> cr_exit h = Some err \<Longrightarrow> supervise_step s (gracefulStop s\<lparr>sv_child := None\<rparr>)"
| child_abandoned: "sv_pc s = SupStopping \<Longrightarrow> sv_child s = Some h \<Longrightarrow> cr_exit h = None \<Longrightarrow> supervise_step s (gracefulStop s)"
| counts: "sv_pc s = SupFailed \<Longrightarrow> supervise_step s (afterFailure fl pow rnd s)"
| slept: "sv_pc s = SupSleeping \<Longrightarrow> supervise_step s (s\<lparr>sv_pc := SupTop\<rparr>)"

text \<open>The steps of the others: the caller of \<open>Start\<close> and \<open>Stop\<close>, the context, and cloudflared.\<close>

inductive outer_step :: "(string \<Rightarrow> json option) \<Rightarrow> Supervisor \<Rightarrow> Supervisor \<Rightarrow> bool" for parse where
  starts: "sv_pc s = SupIdle \<Longrightarrow> outer_step parse s (Start ps s)"
| stop_asked: "outer_step parse s (s\<lparr>sv_stopCh := True\<rparr>)"
| ctx_cancelled: "outer_step parse s (s\<lparr>sv_ctx := True\<rparr>)"
| writes: "sv_child s = Some h \<Longrightarrow> cr_exit h = None \<Longrightarrow> io = child_write parse w (cr_io h\<lparr>ci_logs := sv_logs s\<rparr>) \<Longrightarrow>
    outer_step parse s (s\<lparr>sv_child := Some (h\<lparr>cr_io := io\<rparr>), sv_logs := ci_logs io\<rparr>)"
| exits: "sv_child s = Some h \<Longrightarrow> cr_exit h = None \<Longrightarrow> io = child_flush parse (cr_io h\<lparr>ci_logs := sv_logs s\<rparr>) \<Longrightarrow>
    outer_step parse s (s\<lparr>sv_child := Some (h\<lparr>cr_io := io, cr_exit := Some err\<rparr>), sv_logs := ci_logs io\<rparr>)"

inductive sup_run :: "(string \<Rightarrow> json option) \<Rightarrow> Supervisor \<Rightarrow> Supervisor \<Rightarrow> bool" for parse s where
  sup_here: "sup_run parse s s"
| sup_loop: "sup_run parse s t \<Longrightarrow> supervise_step t u \<Longrightarrow> sup_run parse s u"
| sup_outer: "sup_run parse s t \<Longrightarrow> outer_step parse t u \<Longrightarrow> sup_run parse s u"

inductive_cases supervise_stepE: "supervise_step s t"
inductive_cases outer_stepE: "outer_step parse s t"


section \<open>Progress of the loop\<close>

lemmas sup_defs = finish_def setState_def setErr_def signalReady_def stopRequested_def sup_ready_def after_serving_def gracefulStop_def
  afterFailure_def recordPid_def bo_Reset_def

lemma cleanup_simps [simp]:
  "sv_pc (cleanup s) = sv_pc s" "sv_consecutive (cleanup s) = sv_consecutive s" "sv_maxConsecutive (cleanup s) = sv_maxConsecutive s"
  "sv_stopCh (cleanup s) = sv_stopCh s" "sv_ctx (cleanup s) = sv_ctx s" "sv_cfg (cleanup s) = sv_cfg s" "sv_logs (cleanup s) = sv_logs s"
  "sv_child (cleanup s) = sv_child s" "sv_cleanup (cleanup s) = None" "sv_readyCh (cleanup s) = sv_readyCh s" "sv_url (cleanup s) = sv_url s"
  "sv_state (cleanup s) = sv_state s" "sv_doneCh (cleanup s) = sv_doneCh s" "sv_pidFile (cleanup s) = sv_pidFile s"
  "sv_files (cleanup s) = (case sv_cleanup s of None \<Rightarrow> sv_files s | Some n \<Rightarrow> (sv_files s)(n := None))"
  by (simp_all add: cleanup_def split: option.split)

definition token_frame :: "Supervisor \<Rightarrow> Supervisor \<Rightarrow> bool" where
  "token_frame s t \<longleftrightarrow> t = s\<lparr>sv_files := sv_files t, sv_cleanup := sv_cleanup t\<rparr>"

lemma prepareToken_frame:
  "prepareToken e w s = Inl t \<Longrightarrow> token_frame s t" "prepareToken e w s = Inr (t, p) \<Longrightarrow> token_frame s t"
  unfolding prepareToken_def token_frame_def by (auto split: if_splits sum.splits prod.splits option.splits)

lemma token_frame_simps:
  assumes "token_frame s t"
  shows "sv_pc t = sv_pc s" "sv_consecutive t = sv_consecutive s" "sv_maxConsecutive t = sv_maxConsecutive s" "sv_stopCh t = sv_stopCh s" "sv_ctx t = sv_ctx s"
    "sv_cfg t = sv_cfg s" "sv_logs t = sv_logs s" "sv_child t = sv_child s" "sv_readyCh t = sv_readyCh s" "sv_url t = sv_url s" "sv_state t = sv_state s"
    "sv_doneCh t = sv_doneCh s" "sv_pidFile t = sv_pidFile s"
  by (subst assms [unfolded token_frame_def], simp)+

lemmas prepared = token_frame_simps [OF prepareToken_frame(1)] token_frame_simps [OF prepareToken_frame(2)]

fun place :: "sup_pc \<Rightarrow> nat" where
  "place SupExited = 0"
| "place SupStopping = 1"
| "place SupFailed = 2"
| "place (SupServing t) = 3"
| "place SupWaiting = 4"
| "place (SupStarting p) = 5"
| "place SupTop = 6"
| "place SupSleeping = 7"
| "place SupIdle = 7"

lemma supervise_step_place:
  assumes "supervise_step s t"
  shows "place (sv_pc t) < place (sv_pc s) \<and> (sv_consecutive t \<noteq> sv_consecutive s \<longrightarrow> sv_pc s = SupFailed \<or> sv_consecutive t = 0) \<or>
    sv_pc s = SupFailed \<and> sv_pc t = SupSleeping \<and> sv_consecutive t = sv_consecutive s + 1 \<and> \<not> (sv_stopCh s \<or> sv_ctx s) \<and>
      (sv_maxConsecutive s > 0 \<longrightarrow> sv_consecutive t < sv_maxConsecutive s)"
  using assms
  by (cases rule: supervise_step.cases) (auto simp: sup_defs Let_def prepared)

lemma supervise_step_frame:
  assumes "supervise_step s t"
  shows "sv_maxConsecutive t = sv_maxConsecutive s" "sv_stopCh t = sv_stopCh s" "sv_ctx t = sv_ctx s" "sv_cfg t = sv_cfg s"
  using assms
  by (cases rule: supervise_step.cases; simp add: sup_defs Let_def prepared)+

end
