(* ===== verification/TunnelLifecycle.thy ===== *)
theory TunnelLifecycle
  imports TunnelSupervisor
begin

text \<open>
  The supervisor of cloudflared over its whole life: invariants of every reachable state, the end of a tunnel that keeps failing, and
  the end of a supervisor that is asked to stop.
\<close>

section \<open>What every state of the supervisor satisfies\<close>

text \<open>The files are those of the beginning, with at most the token file of the attempt in progress.\<close>

definition files_inv :: "files \<Rightarrow> Supervisor \<Rightarrow> bool" where
  "files_inv fs s \<longleftrightarrow>
     (case sv_cleanup s of None \<Rightarrow> sv_files s = fs | Some n \<Rightarrow> fs n = None \<and> (\<exists>token. sv_files s = fs(n \<mapsto> token))) \<and>
     (sv_cleanup s \<noteq> None \<longrightarrow> (\<exists>p. sv_pc s = SupStarting p) \<or> sv_pc s = SupWaiting \<or> sv_pc s = SupStopping)"

lemma cleanup_files: "files_inv fs s \<Longrightarrow> sv_files (cleanup s) = fs"
  by (auto simp: files_inv_def split: option.splits)

lemma files_inv_pc: "files_inv fs s \<Longrightarrow> sv_cleanup s = None \<Longrightarrow> sv_files s = fs"
  by (simp add: files_inv_def)

lemma files_invI: "sv_cleanup s = None \<Longrightarrow> sv_files s = fs \<Longrightarrow> files_inv fs s"
  by (simp add: files_inv_def)

lemma prepareToken_files:
  assumes "files_inv fs s" "sv_pc s = SupTop" "\<forall>n. created = Some n \<longrightarrow> sv_files s n = None"
  shows "prepareToken e (writeTokenFile created c w k) s = Inl t \<Longrightarrow> sv_cleanup t = None \<and> sv_files t = fs"
    and "prepareToken e (writeTokenFile created c w k) s = Inr (t, p) \<Longrightarrow> files_inv fs (t\<lparr>sv_pc := SupStarting p\<rparr>)"
proof -
  have s: "sv_cleanup s = None" "sv_files s = fs" using assms(1,2) by (auto simp: files_inv_def)
  have undo: "fs n = None \<Longrightarrow> (fs(n \<mapsto> t))(n := None) = fs" for n t by auto
  show "prepareToken e (writeTokenFile created c w k) s = Inl t \<Longrightarrow> sv_cleanup t = None \<and> sv_files t = fs"
    "prepareToken e (writeTokenFile created c w k) s = Inr (t, p) \<Longrightarrow> files_inv fs (t\<lparr>sv_pc := SupStarting p\<rparr>)"
    using s assms(3) by (auto simp: prepareToken_def writeTokenFile_def files_inv_def undo split: if_splits sum.splits option.splits)
qed

lemma supervise_step_files:
  assumes "supervise_step s t" "files_inv fs s" shows "files_inv fs t"
  using assms(1)
proof (cases rule: supervise_step.cases)
  case (token_fails e _ t' created chmod_ok write_ok close_ok err)
  then show ?thesis using prepareToken_files(1) [OF assms(2) token_fails(2)] by (simp add: files_inv_def setErr_def)
next
  case (token_ready e _ t' path created chmod_ok write_ok close_ok)
  then show ?thesis using prepareToken_files(2) [OF assms(2) token_ready(2)] by simp
qed (use assms(2) in \<open>simp_all add: sup_defs Let_def files_inv_def split: option.splits\<close>, use cleanup_files [OF assms(2)] in \<open>auto simp: sup_defs\<close>)

lemma outer_step_files:
  assumes "outer_step parse s t" "files_inv fs s" shows "files_inv fs t"
  using assms(1)
  by (cases rule: outer_step.cases) (use assms(2) in \<open>simp_all add: Start_def setState_def files_inv_def split: prod.split option.splits\<close>)

text \<open>Where the loop is, and what the callers see of it.\<close>

lemma state_distinct [simp]:
  "StateStopped \<noteq> StateDegraded" "StateDegraded \<noteq> StateStopped" "StateStopped \<noteq> StateReady" "StateReady \<noteq> StateStopped"
  "StateDegraded \<noteq> StateReady" "StateReady \<noteq> StateDegraded" "StateStarting \<noteq> StateReady" "StateReady \<noteq> StateStarting"
  "StateStarting \<noteq> StateStopped" "StateStopped \<noteq> StateStarting" "StateStarting \<noteq> StateDegraded" "StateDegraded \<noteq> StateStarting"
  "StateIdle \<noteq> StateReady" "StateIdle \<noteq> StateStopped" "StateIdle \<noteq> StateDegraded"
  by (simp_all add: state_defs)

definition ended :: "Supervisor \<Rightarrow> bool" where
  "ended s \<longleftrightarrow> sv_state s = StateStopped \<or> sv_state s = StateDegraded"

definition exit_inv :: "Supervisor \<Rightarrow> bool" where
  "exit_inv s \<longleftrightarrow> sv_doneCh s = (sv_pc s = SupExited) \<and> ended s = (sv_pc s = SupExited) \<and> (sv_pc s = SupExited \<longrightarrow> sv_pidFile s = None)"

lemma supervise_step_exit:
  assumes "supervise_step s t" "exit_inv s" shows "exit_inv t"
  using assms(1)
  by (cases rule: supervise_step.cases) (use assms(2) in \<open>simp_all add: sup_defs Let_def exit_inv_def ended_def prepared\<close>)

lemma outer_step_exit:
  assumes "outer_step parse s t" "exit_inv s" shows "exit_inv t"
  using assms(1)
  by (cases rule: outer_step.cases) (use assms(2) in \<open>simp_all add: Start_def setState_def exit_inv_def ended_def split: prod.split\<close>)

fun serving :: "sup_pc \<Rightarrow> bool" where
  "serving (SupServing t) = True"
| "serving p = False"

definition child_inv :: "Supervisor \<Rightarrow> bool" where
  "child_inv s \<longleftrightarrow>
     (sv_pc s = SupWaiting \<or> serving (sv_pc s) \<or> sv_pc s = SupStopping \<longrightarrow> sv_child s \<noteq> None) \<and>
     (sv_pc s = SupStopping \<longrightarrow> sv_stopCh s \<or> sv_ctx s) \<and>
     (sv_state s = StateReady \<longrightarrow> serving (sv_pc s) \<or> sv_pc s = SupFailed \<or> sv_pc s = SupStopping) \<and>
     (serving (sv_pc s) \<longrightarrow> sv_state s = StateReady \<and> sv_readyCh s)"

lemma supervise_step_child:
  assumes "supervise_step s t" "child_inv s" shows "child_inv t"
  using assms(1)
  by (cases rule: supervise_step.cases) (use assms(2) in \<open>simp_all add: sup_defs Let_def child_inv_def prepared\<close>)

lemma outer_step_child:
  assumes "outer_step parse s t" "child_inv s" shows "child_inv t"
  using assms(1)
  by (cases rule: outer_step.cases) (use assms(2) in \<open>simp_all add: Start_def setState_def child_inv_def split: prod.split\<close>)

definition count_inv :: "Supervisor \<Rightarrow> bool" where
  "count_inv s \<longleftrightarrow> 0 \<le> sv_consecutive s \<and>
     (sv_maxConsecutive s > 0 \<longrightarrow>
       (if sv_state s = StateDegraded then sv_consecutive s = sv_maxConsecutive s \<and> sv_pc s = SupExited else sv_consecutive s < sv_maxConsecutive s))"

lemma supervise_step_count:
  assumes "supervise_step s t" "count_inv s" shows "count_inv t"
  using assms(1)
  by (cases rule: supervise_step.cases) (use assms(2) in \<open>simp_all add: sup_defs Let_def count_inv_def prepared split: if_splits\<close>, auto)

lemma outer_step_count:
  assumes "outer_step parse s t" "count_inv s" shows "count_inv t"
  using assms(1)
  by (cases rule: outer_step.cases) (use assms(2) in \<open>simp_all add: Start_def setState_def count_inv_def split: prod.split if_splits\<close>)


text \<open>The address and the log.\<close>

definition address_ok :: "tunnel_Config \<Rightarrow> string \<Rightarrow> bool" where
  "address_ok c u \<longleftrightarrow> (if tc_Mode c = tunnel_ModeQuick then quick_address u else u = tc_PublicURL c)"

definition process_ok :: "tunnel_Config \<Rightarrow> realProcess \<Rightarrow> bool" where
  "process_ok c p \<longleftrightarrow> rp_quick p = (tc_Mode c = tunnel_ModeQuick) \<and> (rp_ready p \<longrightarrow> address_ok c (rp_publicURL p)) \<and>
     (if tc_Mode c = tunnel_ModeQuick then rp_publicURL p = [] \<or> quick_address (rp_publicURL p) else rp_publicURL p = tc_PublicURL c)"

definition valid_mode :: "tunnel_Config \<Rightarrow> bool" where
  "valid_mode c \<longleftrightarrow> tc_Mode c = tunnel_ModeQuick \<or> tc_Mode c = tunnel_ModeNamed \<and> tc_PublicURL c \<noteq> []"

lemma valid_mode_Validate: "tunnel_Validate parse_ip c = Inr c' \<Longrightarrow> valid_mode c'"
  by (auto simp: tunnel_Validate_def Let_def valid_mode_def split: if_splits sum.splits option.splits)

lemma process_ok_start: "valid_mode c \<Longrightarrow> process_ok c (ci_process (startProcess c logs))"
  by (auto simp: startProcess_def process_ok_def namedURL_def valid_mode_def tunnel_ModeQuick_def tunnel_ModeNamed_def)

lemma process_ok_line: "valid_mode c \<Longrightarrow> process_ok c p \<Longrightarrow> process_ok c (fst (handleLine parse l (p, logs)))"
  using classify_address [of "parseLogLine parse l"] classify_url [of "parseLogLine parse l"]
  by (auto simp: handleLine_eq process_ok_def address_ok_def valid_mode_def signals_def quick_address_def split: if_splits)

lemma process_ok_lines: "valid_mode c \<Longrightarrow> process_ok c p \<Longrightarrow> process_ok c (fst (fold (handleLine parse) ls (p, logs)))"
proof (induction ls arbitrary: p logs)
  case (Cons l ls)
  then show ?case using process_ok_line [of c p parse l logs] by (cases "handleLine parse l (p, logs)") simp
qed simp

definition logs_ok :: "ringBuffer \<Rightarrow> bool" where
  "logs_ok r \<longleftrightarrow> rb_ok r \<and> list_all clean_text (rb_lines r)"

lemma logs_ok_add:
  assumes "logs_ok r" "clean_text line" shows "logs_ok (rb_add line r) \<and> rb_cap (rb_add line r) = rb_cap r"
proof (cases "line = []")
  case False
  then show ?thesis
    using assms rb_ok_add [of r line] rb_add_lines [of r line] set_take_last [of "nat (rb_cap r)" "rb_lines r @ [line]"]
    by (auto simp: logs_ok_def list_all_iff)
qed (use assms in \<open>simp add: rb_add_def\<close>)

lemma clean_text_log: "clean_text (SanitizeForLog s)"
  using log_line.out_valid_utf8 log_line.out_clean by (simp add: clean_text_def SanitizeForLog_def SanitizeLogLine_def)

lemma logs_ok_lines: "logs_ok logs \<Longrightarrow> logs_ok (snd (fold (handleLine parse) ls (p, logs))) \<and> rb_cap (snd (fold (handleLine parse) ls (p, logs))) = rb_cap logs"
proof (induction ls arbitrary: p logs)
  case (Cons l ls)
  have "clean_text (logged l)" by (simp add: logged_def clean_text_log)
  then show ?case using Cons logs_ok_add [of logs "logged l"] by (simp add: handleLine_eq)
qed simp

lemma logs_ok_sink: "logs_ok logs \<Longrightarrow> logs_ok (sink line logs) \<and> rb_cap (sink line logs) = rb_cap logs"
  using logs_ok_add [of logs "SanitizeForLog (lg_Raw line)"] clean_text_log [of "lg_Raw line"] by (simp add: sink_def)

lemma logs_ok_reconcile: "logs_ok logs \<Longrightarrow> reconcileOrphan ps file logs = (f, l, k) \<Longrightarrow> logs_ok l \<and> rb_cap l = rb_cap logs"
  using logs_ok_sink by (auto simp: reconcileOrphan_def emit_note_def split: option.splits if_splits)

lemma child_write_ok:
  assumes "valid_mode c" "process_ok c (ci_process io)" "logs_ok (ci_logs io)"
  shows "process_ok c (ci_process (child_write parse w io)) \<and> logs_ok (ci_logs (child_write parse w io)) \<and> rb_cap (ci_logs (child_write parse w io)) = rb_cap (ci_logs io)"
proof -
  have h: "process_ok c (ci_process (handle_lines parse ls io)) \<and> logs_ok (ci_logs (handle_lines parse ls io)) \<and> rb_cap (ci_logs (handle_lines parse ls io)) = rb_cap (ci_logs io)"
    if "process_ok c (ci_process io)" "logs_ok (ci_logs io)" for ls io
    using handle_lines_fold [of parse ls io] process_ok_lines [OF assms(1) that(1), of parse ls "ci_logs io"] logs_ok_lines [OF that(2), of parse ls "ci_process io"]
    by (metis fst_conv snd_conv)
  obtain k p where w: "w = (k, p)" by fastforce
  show ?thesis using assms h [of "io\<lparr>ci_out := fst (lw_Write (ci_out io) p)\<rparr>"] h [of "io\<lparr>ci_err := fst (lw_Write (ci_err io) p)\<rparr>"]
    by (cases k) (simp_all add: w case_prod_beta Let_def)
qed

lemma child_flush_ok:
  assumes "valid_mode c" "process_ok c (ci_process io)" "logs_ok (ci_logs io)"
  shows "process_ok c (ci_process (child_flush parse io)) \<and> logs_ok (ci_logs (child_flush parse io)) \<and> rb_cap (ci_logs (child_flush parse io)) = rb_cap (ci_logs io)"
proof -
  let ?ls = "snd (lw_flush (ci_out io)) @ snd (lw_flush (ci_err io))"
  have "(ci_process (child_flush parse io), ci_logs (child_flush parse io)) = fold (handleLine parse) ?ls (ci_process io, ci_logs io)"
    using child_run_lines [of parse "[]" io] by (simp add: Let_def)
  then show ?thesis
    using process_ok_lines [OF assms(1,2), of parse ?ls "ci_logs io"] logs_ok_lines [OF assms(3), of parse ?ls "ci_process io"] by (metis fst_conv snd_conv)
qed


definition view_inv :: "Supervisor \<Rightarrow> bool" where
  "view_inv s \<longleftrightarrow> valid_mode (sv_cfg s) \<and> logs_ok (sv_logs s) \<and> rb_cap (sv_logs s) = 200 \<and>
     (\<forall>h. sv_child s = Some h \<longrightarrow> process_ok (sv_cfg s) (ci_process (cr_io h))) \<and> (sv_readyCh s \<longrightarrow> address_ok (sv_cfg s) (sv_url s))"

lemma supervise_step_view:
  assumes "supervise_step s t" "view_inv s" shows "view_inv t"
  using assms(1)
proof (cases rule: supervise_step.cases)
  case (becomes_ready h now)
  then have "process_ok (sv_cfg s) (ci_process (cr_io h))" using assms(2) by (simp add: view_inv_def)
  then show ?thesis using becomes_ready assms(2) by (simp add: sup_defs view_inv_def process_ok_def)
qed (use assms(2) process_ok_start in \<open>simp_all add: sup_defs Let_def view_inv_def prepared\<close>)

lemma outer_step_view:
  assumes "outer_step parse s t" "view_inv s" shows "view_inv t"
  using assms(1)
proof (cases rule: outer_step.cases)
  case (starts ps)
  obtain f l k where "reconcileOrphan ps (sv_pidFile s) (sv_logs s) = (f, l, k)" by (metis prod_cases3)
  then show ?thesis using starts assms(2) logs_ok_reconcile [of "sv_logs s" ps "sv_pidFile s" f l k] by (simp add: Start_def setState_def view_inv_def)
next
  case (writes h io w)
  then show ?thesis using assms(2) child_write_ok [of "sv_cfg s" "cr_io h\<lparr>ci_logs := sv_logs s\<rparr>" parse w] by (simp add: view_inv_def)
next
  case (exits h io err)
  then show ?thesis using assms(2) child_flush_ok [of "sv_cfg s" "cr_io h\<lparr>ci_logs := sv_logs s\<rparr>" parse] by (simp add: view_inv_def)
qed (use assms(2) in \<open>simp_all add: view_inv_def\<close>)

definition sup_inv :: "files \<Rightarrow> Supervisor \<Rightarrow> bool" where
  "sup_inv fs s \<longleftrightarrow> files_inv fs s \<and> exit_inv s \<and> child_inv s \<and> count_inv s \<and> view_inv s \<and> sv_maxConsecutive s = 5"

lemma sup_inv_New: "tunnel_New parse_ip temp cfg fs pidfile = Inr s \<Longrightarrow> sup_inv fs s"
  using valid_mode_Validate
  by (auto simp: tunnel_New_def sup_inv_def files_inv_def exit_inv_def ended_def child_inv_def count_inv_def view_inv_def logs_ok_def newRingBuffer_def
      rb_ok_def split: sum.splits)

lemma outer_step_frame:
  assumes "outer_step parse s t"
  shows "sv_maxConsecutive t = sv_maxConsecutive s" "sv_stopCh s \<Longrightarrow> sv_stopCh t" "sv_ctx s \<Longrightarrow> sv_ctx t" "sv_consecutive t = sv_consecutive s"
    "place (sv_pc t) \<le> place (sv_pc s)" "sv_pc t = SupIdle \<Longrightarrow> sv_pc s = SupIdle"
  using assms by (cases rule: outer_step.cases; simp add: Start_def setState_def split: prod.split)+

lemma sup_run_inv: "sup_run parse s t \<Longrightarrow> sup_inv fs s \<Longrightarrow> sup_inv fs t"
proof (induction rule: sup_run.induct)
  case (sup_loop t u)
  then show ?case
    using supervise_step_files supervise_step_exit supervise_step_child supervise_step_count supervise_step_view supervise_step_frame(1)
    by (simp add: sup_inv_def)
next
  case (sup_outer t u)
  then show ?case
    using outer_step_files outer_step_exit outer_step_child outer_step_count outer_step_view outer_step_frame(1)
    by (simp add: sup_inv_def)
qed simp



section \<open>Giving up and stopping\<close>

text \<open>
  Runs with the number of their steps of the loop, each of which satisfies \<open>R\<close>. In a run of \<open>never_reset\<close> the failure counter is never
  set back, so no instance of cloudflared has stayed ready for the stability window after a failure; readiness alone
  does not set it back.
\<close>

inductive counted :: "(Supervisor \<Rightarrow> Supervisor \<Rightarrow> bool) \<Rightarrow> (string \<Rightarrow> json option) \<Rightarrow> Supervisor \<Rightarrow> nat \<Rightarrow> Supervisor \<Rightarrow> bool" for R parse s where
  counted_here: "counted R parse s 0 s"
| counted_loop: "counted R parse s n t \<Longrightarrow> supervise_step t u \<Longrightarrow> R t u \<Longrightarrow> counted R parse s (Suc n) u"
| counted_outer: "counted R parse s n t \<Longrightarrow> outer_step parse t u \<Longrightarrow> counted R parse s n u"

definition never_reset :: "Supervisor \<Rightarrow> Supervisor \<Rightarrow> bool" where
  "never_reset s t \<longleftrightarrow> sv_consecutive s \<le> sv_consecutive t"

lemma counted_run: "counted R parse s n t \<Longrightarrow> sup_run parse s t"
  by (induction rule: counted.induct) (auto intro: sup_run.intros)

definition work_left :: "Supervisor \<Rightarrow> int" where
  "work_left s = 8 * (sv_maxConsecutive s - sv_consecutive s) + int (place (sv_pc s))"

lemma supervise_step_work:
  assumes "supervise_step s t" "never_reset s t" "count_inv s" shows "work_left t < work_left s"
proof -
  have "0 \<le> sv_consecutive s" using assms(3) by (simp add: count_inv_def)
  then show ?thesis using supervise_step_place [OF assms(1)] supervise_step_frame(1) [OF assms(1)] assms(2)
    by (auto simp: work_left_def never_reset_def)
qed

lemma outer_step_work: "outer_step parse s t \<Longrightarrow> work_left t \<le> work_left s"
  using outer_step_frame [of parse s t] by (simp add: work_left_def)

lemma counted_work: "counted never_reset parse s n t \<Longrightarrow> sup_inv fs s \<Longrightarrow> int n + work_left t \<le> work_left s"
proof (induction rule: counted.induct)
  case (counted_loop n t u)
  have "count_inv t" using sup_run_inv [OF counted_run [OF counted_loop(1)] counted_loop(5)] by (simp add: sup_inv_def)
  then show ?case using counted_loop supervise_step_work [OF counted_loop(2,3)] by simp
next
  case (counted_outer n t u)
  then show ?case using outer_step_work [OF counted_outer(2)] by simp
qed simp

lemma work_left_nonneg: "sup_inv fs s \<Longrightarrow> 0 \<le> work_left s"
  by (auto simp: sup_inv_def count_inv_def work_left_def split: if_splits)

text \<open>Where no step of the loop is possible.\<close>

definition waits_for_child :: "Supervisor \<Rightarrow> bool" where
  "waits_for_child s \<longleftrightarrow> \<not> (sv_stopCh s \<or> sv_ctx s) \<and> (\<exists>h. sv_child s = Some h \<and> cr_exit h = None \<and>
     (sv_pc s = SupWaiting \<and> \<not> rp_ready (ci_process (cr_io h)) \<or> serving (sv_pc s)))"

lemma serving_iff: "serving p \<longleftrightarrow> (\<exists>t. p = SupServing t)"
  by (cases p) simp_all

lemma loop_not_stuck:
  assumes "sup_inv fs s" "sv_pc s \<noteq> SupIdle" "sv_pc s \<noteq> SupExited" "\<not> waits_for_child s"
  shows "\<exists>t. supervise_step s t"
proof -
  have c: "child_inv s" using assms(1) by (simp add: sup_inv_def)
  show ?thesis
  proof (cases "sv_pc s")
    case SupTop
    show ?thesis
    proof (cases "stopRequested s \<or> sv_ctx s")
      case False
      let ?p = "prepareToken Failed (writeTokenFile None True True True) s"
      show ?thesis
      proof (cases ?p)
        case (Inl t)
        then show ?thesis using supervise_step.token_fails [OF SupTop False Inl refl] by auto
      next
        case (Inr r)
        obtain t p where r: "r = (t, p)" by fastforce
        then show ?thesis using supervise_step.token_ready [OF SupTop False Inr [unfolded r] refl] by auto
      qed
    qed (use SupTop supervise_step.top_stops in blast)
  next
    case SupWaiting
    then obtain h where h: "sv_child s = Some h" using c by (auto simp: child_inv_def)
    then show ?thesis using SupWaiting assms(4) supervise_step.becomes_ready [OF SupWaiting h] supervise_step.exits_early [OF SupWaiting h]
        supervise_step.waiting_stops [OF SupWaiting] by (cases "cr_exit h") (auto simp: waits_for_child_def stopRequested_def)
  next
    case (SupServing r)
    then obtain h where h: "sv_child s = Some h" using c by (auto simp: child_inv_def)
    then show ?thesis using SupServing assms(4) supervise_step.serving_ends [OF SupServing h] supervise_step.serving_stops [OF SupServing]
      by (cases "cr_exit h") (auto simp: waits_for_child_def stopRequested_def)
  next
    case SupStopping
    then obtain h where h: "sv_child s = Some h" using c by (auto simp: child_inv_def)
    then show ?thesis using supervise_step.child_stopped [OF SupStopping h] supervise_step.child_abandoned [OF SupStopping h] by (cases "cr_exit h") auto
  next
    case (SupStarting p)
    show ?thesis using supervise_step.start_fails [OF SupStarting] by blast
  next
    case SupFailed
    show ?thesis using supervise_step.counts [OF SupFailed] by blast
  next
    case SupSleeping
    show ?thesis using supervise_step.slept [OF SupSleeping] by blast
  qed (use assms(2,3) in simp_all)
qed



lemma counted_stop:
  "counted R parse s n t \<Longrightarrow> sv_stopCh s \<or> sv_ctx s \<Longrightarrow> (sv_stopCh t \<or> sv_ctx t) \<and> n + place (sv_pc t) \<le> place (sv_pc s)"
proof (induction rule: counted.induct)
  case (counted_loop n t u)
  then show ?case using supervise_step_place [OF counted_loop(2)] supervise_step_frame(2,3) [OF counted_loop(2)] by auto
next
  case (counted_outer n t u)
  then show ?case using outer_step_frame(2,3,5) [OF counted_outer(2)] by auto
qed simp

lemma counted_idle: "counted R parse s n t \<Longrightarrow> sv_pc t = SupIdle \<Longrightarrow> sv_pc s = SupIdle"
proof (induction rule: counted.induct)
  case (counted_loop n t u)
  then show ?case using supervise_step_place [OF counted_loop(2)] by (cases "sv_pc t") auto
next
  case (counted_outer n t u)
  then show ?case using outer_step_frame(6) [OF counted_outer(2)] by blast
qed simp



section \<open>A named tunnel\<close>

definition example_tunnel :: tunnel_Config where
  "example_tunnel = tunnelConfig (example_named [] []) ''named'' 8787 ''/state''"

lemma example_tunnel_valid:
  "\<exists>tc. tunnel_Validate (\<lambda>s. Some loopback_v4) example_tunnel = Inr tc \<and> tc_Mode tc = ''named'' \<and> tc_Strategy tc = ''config'' \<and>
     tc_PublicURL tc = ''https://phone.example'' \<and> tc_StabilityWindow tc = 45000000000"
  using metrics_default [of "\<lambda>s. Some loopback_v4"]
  by (simp add: example_tunnel_def tunnelConfig_def example_named_def example_loaded_def Default_def tunnel_Validate_def tunnel_applyDefaults_def Let_def
      tunnel_ModeNamed_def tunnel_ModeQuick_def resolveStrategy_def found_strategies_def validateStrategy_def strategy_defs defaultMetricsAddr_def
      knows_loopback_def tunnelStabilityWindow_def)

definition example_sup :: Supervisor where
  "example_sup = projr (tunnel_New (\<lambda>s. Some loopback_v4) ''/tmp'' example_tunnel Map.empty None)"

lemma example_New:
  "tunnel_New (\<lambda>s. Some loopback_v4) ''/tmp'' example_tunnel Map.empty None = Inr example_sup"
  "sv_pc example_sup = SupIdle" "sv_stopCh example_sup = False" "sv_ctx example_sup = False" "sv_consecutive example_sup = 0"
  "sv_maxConsecutive example_sup = 5" "sv_stabilityWindow example_sup = 45000000000" "tc_Mode (sv_cfg example_sup) = ''named''"
  "tc_Strategy (sv_cfg example_sup) = ''config''" "tc_PublicURL (sv_cfg example_sup) = ''https://phone.example''" "sv_logs example_sup = newRingBuffer 200"
  "sv_pidFile example_sup = None" "sv_child example_sup = None"
  using example_tunnel_valid by (auto simp: example_sup_def tunnel_New_def)

definition no_processes :: processes where
  "no_processes = \<lparr>ps_alive = (\<lambda>p. False), ps_comm = (\<lambda>p. None), ps_start = (\<lambda>p. None)\<rparr>"

lemma example_Start: "Start no_processes example_sup = example_sup\<lparr>sv_state := StateStarting, sv_pc := SupTop\<rparr>"
  by (simp add: Start_def reconcileOrphan_def readPidRecord_def example_New setState_def)

text \<open>The tunnel is stopped as soon as it has been started.\<close>

definition example_asked :: Supervisor where
  "example_asked = example_sup\<lparr>sv_state := StateStarting, sv_pc := SupTop, sv_stopCh := True\<rparr>"

lemma example_asked_run: "counted R parse example_sup 0 example_asked"
proof -
  have "counted R parse example_sup 0 (Start no_processes example_sup)"
    by (rule counted_outer [OF counted_here outer_step.starts]) (simp add: example_New)
  from counted_outer [OF this outer_step.stop_asked] show ?thesis by (simp add: example_Start example_asked_def)
qed

lemma example_stops: "supervise_step example_asked (finish StateStopped example_asked)"
  by (rule supervise_step.top_stops) (simp_all add: example_asked_def stopRequested_def)

lemma example_no_more: "\<nexists>t. supervise_step (finish st s) t"
  by (auto simp: finish_def setState_def elim: supervise_step.cases)

lemma example_stopped_run: "sup_run parse example_sup (finish StateStopped example_asked)"
  by (rule sup_loop [OF counted_run [OF example_asked_run] example_stops])




end
