(* ===== verification/TunnelStatus.thy ===== *)
theory TunnelStatus
  imports TunnelLifecycle ServerViews
begin

text \<open>
  The tunnel as the daemon and the settings page see it (internal/daemon/tunnelchild.go, internal/integration/adapters.go), and the
  wait for the address of a quick tunnel (internal/integration/stack.go).
\<close>

section \<open>internal/daemon/control.go: error texts\<close>

fun sanitizeErr_loop :: "rune list \<Rightarrow> rune list \<Rightarrow> rune list" where
  "sanitizeErr_loop [] out = out"
| "sanitizeErr_loop (r # rs) out =
     (if r < 0x20 \<or> r = 0x7F then sanitizeErr_loop rs out
      else let out = out @ [r] in if length out \<ge> 500 then out else sanitizeErr_loop rs out)"

definition sanitizeErr :: "string \<Rightarrow> string" where
  "sanitizeErr e = encode_runes (sanitizeErr_loop (runes e) [])"

section \<open>internal/daemon/tunnelchild.go\<close>

definition TunnelChild_Name :: string where "TunnelChild_Name = ''tunnel''"

text \<open>The supervisor seen through its channels, and whether it was started before.\<close>

record TunnelChild =
  tch_ctrl :: Supervisor
  tch_started :: bool

definition NewTunnelChild :: "Supervisor \<Rightarrow> TunnelChild" where
  "NewTunnelChild ctrl = \<lparr>tch_ctrl = ctrl, tch_started = False\<rparr>"

definition TunnelChild_Start :: "processes \<Rightarrow> TunnelChild \<Rightarrow> TunnelChild" where
  "TunnelChild_Start ps t = (if tch_started t then t else \<lparr>tch_ctrl = Start ps (tch_ctrl t), tch_started = True\<rparr>)"

text \<open>\<open>Wait\<close> blocks, which is \<open>None\<close>, until the loop has returned.\<close>

definition TunnelChild_Wait :: "TunnelChild \<Rightarrow> string option option" where
  "TunnelChild_Wait t = (if sv_doneCh (tch_ctrl t) then Some (sv_err (tch_ctrl t)) else None)"

definition TunnelChild_Stop :: "TunnelChild \<Rightarrow> TunnelChild" where
  "TunnelChild_Stop t = t\<lparr>tch_ctrl := (tch_ctrl t)\<lparr>sv_stopCh := True\<rparr>\<rparr>"

definition TunnelChild_Ready :: "TunnelChild \<Rightarrow> bool \<times> string" where
  "TunnelChild_Ready t =
     (let s = tch_ctrl t in
      if sv_readyCh s then (True, if sv_url s \<noteq> [] then ''connected: '' @ sv_url s else ''connected'')
      else if sv_doneCh s then (case sv_err s of Some e \<Rightarrow> (False, ''unavailable: '' @ sanitizeErr e) | None \<Rightarrow> (False, ''stopped''))
      else (False, ''starting''))"

section \<open>internal/integration/adapters.go and stack.go\<close>

definition tunnel_status :: "string \<Rightarrow> Supervisor option \<Rightarrow> TunnelInfo" where
  "tunnel_status mode child =
     (case child of
        None \<Rightarrow> \<lparr>ti_Mode = mode, ti_PublicURL = [], ti_Health = \<lparr>ch_Healthy = True, ch_Detail = ''external''\<rparr>\<rparr>
      | Some s \<Rightarrow> \<lparr>ti_Mode = mode, ti_PublicURL = sv_url s, ti_Health = \<lparr>ch_Healthy = (sv_state s = StateReady), ch_Detail = sv_state s\<rparr>\<rparr>)"

text \<open>The cases of the select of \<open>waitQuickTunnelURL\<close>: whichever is enabled, with the timer and the context as flags.\<close>

inductive waitQuickTunnelURL :: "bool \<Rightarrow> Supervisor \<Rightarrow> string option \<Rightarrow> bool" where
  quick_ready: "sv_readyCh s \<Longrightarrow> waitQuickTunnelURL late s (if sv_url s \<noteq> [] then Some (sv_url s) else None)"
| quick_done: "sv_doneCh s \<Longrightarrow> waitQuickTunnelURL late s None"
| quick_late: "late \<or> sv_ctx s \<Longrightarrow> waitQuickTunnelURL late s None"


section \<open>A tunnel that was ready once\<close>

lemma sup_run_trans: "sup_run parse t u \<Longrightarrow> sup_run parse s t \<Longrightarrow> sup_run parse s u"
  by (induction rule: sup_run.induct) (auto intro: sup_run.intros)

lemma sup_run_step: "supervise_step s t \<Longrightarrow> sup_run parse s t"
  by (rule sup_loop [OF sup_here])

text \<open>What an attempt that fails at the start leaves as it was.\<close>

definition tunnel_kept :: "Supervisor \<Rightarrow> Supervisor \<Rightarrow> bool" where
  "tunnel_kept s t \<longleftrightarrow> sv_cfg t = sv_cfg s \<and> sv_readyCh t = sv_readyCh s \<and> sv_url t = sv_url s \<and> sv_stopCh t = sv_stopCh s \<and> sv_ctx t = sv_ctx s \<and>
     sv_maxConsecutive t = sv_maxConsecutive s"

lemma failing_start:
  assumes "sv_pc s = SupTop" "\<not> (sv_stopCh s \<or> sv_ctx s)" "\<not> usesTokenCommand (sv_cfg s)" "sv_maxConsecutive s > 0"
  shows "\<exists>t. sup_run parse s t \<and> tunnel_kept s t \<and> sv_consecutive t = sv_consecutive s + 1 \<and>
    (if sv_consecutive s + 1 \<ge> sv_maxConsecutive s then sv_state t = StateDegraded \<and> sv_doneCh t else sv_pc t = SupTop)"
proof -
  define a where "a = s\<lparr>sv_cleanup := None, sv_pc := SupStarting (tc_TokenFile (sv_cfg s))\<rparr>"
  define b where "b = setErr (Some []) (cleanup a)\<lparr>sv_pc := SupFailed\<rparr>"
  define c where "c = afterFailure (\<lambda>x. x) (\<lambda>f n. 1) 0 b"
  have "prepareToken Failed (writeTokenFile None True True True) s = Inr (s\<lparr>sv_cleanup := None\<rparr>, tc_TokenFile (sv_cfg s))"
    using assms(3) by (simp add: prepareToken_def)
  then have 1: "supervise_step s a" using supervise_step.token_ready [OF assms(1), of Failed _ _ _ None True True True] assms(2) by (simp add: a_def stopRequested_def)
  have 2: "supervise_step a b" unfolding b_def by (rule supervise_step.start_fails) (simp add: a_def)
  have 3: "supervise_step b c" unfolding c_def by (rule supervise_step.counts) (simp add: b_def)
  have r: "sup_run parse s c" by (rule sup_run_trans [OF sup_run_step [OF 3]], rule sup_run_trans [OF sup_run_step [OF 2]], rule sup_run_step [OF 1])
  have b: "sv_stopCh b = sv_stopCh s" "sv_ctx b = sv_ctx s" "sv_consecutive b = sv_consecutive s" "sv_maxConsecutive b = sv_maxConsecutive s" "tunnel_kept s b"
    by (simp_all add: b_def a_def setErr_def tunnel_kept_def)
  show ?thesis
  proof (cases "sv_consecutive s + 1 \<ge> sv_maxConsecutive s")
    case True
    then have "c = finish StateDegraded (b\<lparr>sv_consecutive := sv_consecutive s + 1\<rparr>)"
      using b assms(2,4) by (simp add: c_def afterFailure_def stopRequested_def Let_def)
    then show ?thesis using True r b by (intro exI [of _ c]) (simp add: finish_def setState_def tunnel_kept_def)
  next
    case False
    then have p: "sv_pc c = SupSleeping" "sv_consecutive c = sv_consecutive s + 1" "tunnel_kept s c"
      using b assms(2,4) by (simp_all add: c_def afterFailure_def stopRequested_def Let_def setState_def tunnel_kept_def)
    have "sup_run parse s (c\<lparr>sv_pc := SupTop\<rparr>)" by (rule sup_run_trans [OF sup_run_step [OF supervise_step.slept [OF p(1)]] r])
    then show ?thesis using False p by (intro exI [of _ "c\<lparr>sv_pc := SupTop\<rparr>"]) (simp add: tunnel_kept_def)
  qed
qed

lemma failing_starts:
  assumes "sv_pc s = SupTop" "\<not> (sv_stopCh s \<or> sv_ctx s)" "\<not> usesTokenCommand (sv_cfg s)" "sv_consecutive s + int n = sv_maxConsecutive s" "sv_maxConsecutive s > 0" "0 < n"
  shows "\<exists>t. sup_run parse s t \<and> tunnel_kept s t \<and> sv_state t = StateDegraded \<and> sv_doneCh t"
  using assms
proof (induction n arbitrary: s)
  case (Suc n)
  obtain t where t: "sup_run parse s t" "tunnel_kept s t" "sv_consecutive t = sv_consecutive s + 1"
    "if sv_consecutive s + 1 \<ge> sv_maxConsecutive s then sv_state t = StateDegraded \<and> sv_doneCh t else sv_pc t = SupTop"
    using failing_start [OF Suc(2-4) Suc(6), of parse] by blast
  show ?case
  proof (cases "n = 0")
    case True
    then have "sv_consecutive s + 1 \<ge> sv_maxConsecutive s" using Suc(5) by simp
    then show ?thesis using t by auto
  next
    case False
    then have "sv_pc t = SupTop" using t(4) Suc(5) by (simp split: if_splits)
    moreover have "\<not> (sv_stopCh t \<or> sv_ctx t)" "\<not> usesTokenCommand (sv_cfg t)" "sv_consecutive t + int n = sv_maxConsecutive t" "sv_maxConsecutive t > 0"
      using Suc(3-6) t(2,3) by (simp_all add: tunnel_kept_def)
    ultimately obtain u where "sup_run parse t u" "tunnel_kept t u" "sv_state u = StateDegraded" "sv_doneCh u" using Suc(1) [of t] False by blast
    then show ?thesis using sup_run_trans [OF _ t(1)] t(2) by (auto simp: tunnel_kept_def)
  qed
qed simp


lemma ready_line: "signals (\<lambda>t. None) False ''registered connection''"
proof -
  let ?l = "''registered connection''"
  have e: "encode_runes (ascii ?l) = ?l" by (rule encode_ascii) simp
  have r: "runes ?l = ascii ?l" by (rule runes_of_ascii) simp
  have "sanitizeLogText (encode_runes (ascii ?l)) = encode_runes (ascii ?l)"
    by (rule sanitizeLogText_short) (simp_all add: e, simp_all add: ascii_def valid_rune_def text_rune_def maxLogLineBytes_def)
  then have raw: "sanitizeLogText ?l = ?l" by (simp add: e)
  have "map ToLower_rune (ascii ?l) = ascii ?l" by (simp add: ascii_def ToLower_rune_def)
  then have low: "ToLower ?l = ?l" by (simp add: ToLower_def r e)
  have "TrimSpace (encode_runes (ascii ?l)) = encode_runes (ascii ?l)"
    by (subst TrimSpace_encode_runes) (simp_all add: ascii_def valid_rune_def trim_runes_id IsSpace_def)
  then have "TrimSpace ?l = ?l" by (simp add: e)
  then have "parseLogLine (\<lambda>t. None) ?l = \<lparr>lg_Level = [], lg_Message = [], lg_Time = [], lg_Raw = ?l\<rparr>"
    by (simp add: parseLogLine_def raw HasPrefix_def)
  moreover have "quickURL ?l = []" by (simp add: quick_at_def HasPrefix_def)
  moreover have "list_ex (Contains ?l) connRegisteredMarkers" by (simp add: connRegisteredMarkers_def HasPrefix_def)
  moreover have "ToLower [] = []" by (simp add: ToLower_def)
  ultimately show ?thesis by (simp add: signals_def classify_def low Let_def del: quickURL.simps(2))
qed

text \<open>One line, and one line end, on the standard output.\<close>

lemma one_line:
  assumes "ci_out io = newLineWriter maxCapturedLineBytes" "CHR 0x0A \<notin> set l" "l \<noteq> []" "length l \<le> 65536"
  shows "child_write parse (Stdout, l @ [CHR 0x0A]) io = handle_lines parse [l] (io\<lparr>ci_out := writes_to maxCapturedLineBytes (l @ [CHR 0x0A])\<rparr>)"
proof -
  have "Split l CHR 0x0A = [l]" by (rule Split_whole [OF assms(2)])
  then have "lines_before maxCapturedLineBytes (l @ [CHR 0x0A]) = [l]"
    using assms(3,4) by (simp add: lines_before_def whole_lines_def maxCapturedLineBytes_def Let_def Split_snoc)
  then show ?thesis using lw_Write_new [of maxCapturedLineBytes "l @ [CHR 0x0A]"] assms(1) by (simp add: maxCapturedLineBytes_def)
qed

text \<open>The address of a run whose first line is \<open>l\<close>.\<close>

definition address_of :: "(string \<Rightarrow> json option) \<Rightarrow> tunnel_Config \<Rightarrow> string \<Rightarrow> string" where
  "address_of parse c l = (if namedURL c = [] then le_url (classify (parseLogLine parse l)) else namedURL c)"

lemma short_success:
  assumes s: "sv_pc s = SupTop" "\<not> (sv_stopCh s \<or> sv_ctx s)" "\<not> usesTokenCommand (sv_cfg s)" "buildArgs (sv_cfg s) (tc_TokenFile (sv_cfg s)) = Inr argv"
    and w: "sv_stabilityWindow s > 0" "sv_consecutive s + 1 < sv_maxConsecutive s"
    and l: "signals parse (tc_Mode (sv_cfg s) = ''quick'') l" "CHR 0x0A \<notin> set l" "l \<noteq> []" "length l \<le> 65536"
  shows "\<exists>t. sup_run parse s t \<and> sv_pc t = SupTop \<and> sv_readyCh t \<and> sv_url t = address_of parse (sv_cfg s) l \<and> sv_consecutive t = sv_consecutive s + 1 \<and>
    sv_cfg t = sv_cfg s \<and> sv_stopCh t = sv_stopCh s \<and> sv_ctx t = sv_ctx s \<and> sv_maxConsecutive t = sv_maxConsecutive s \<and> sv_stabilityWindow t = sv_stabilityWindow s"
proof -
  let ?path = "tc_TokenFile (sv_cfg s)"
  define a where "a = s\<lparr>sv_cleanup := None, sv_pc := SupStarting ?path\<rparr>"
  define h where "h = \<lparr>cr_io = startProcess (sv_cfg a) (sv_logs a), cr_pid = 0, cr_exit = None\<rparr>"
  define b where "b = recordPid True 0 0 a\<lparr>sv_child := Some h, sv_pc := SupWaiting\<rparr>"
  define io where "io = child_write parse (Stdout, l @ [CHR 0x0A]) (cr_io h\<lparr>ci_logs := sv_logs b\<rparr>)"
  define h1 where "h1 = h\<lparr>cr_io := io\<rparr>"
  define c where "c = b\<lparr>sv_child := Some h1, sv_logs := ci_logs io\<rparr>"
  define d where "d = sup_ready 0 h1 c"
  define io' where "io' = child_flush parse (cr_io h1\<lparr>ci_logs := sv_logs d\<rparr>)"
  define h2 where "h2 = h1\<lparr>cr_io := io', cr_exit := Some (None :: string option)\<rparr>"
  define e where "e = d\<lparr>sv_child := Some h2, sv_logs := ci_logs io'\<rparr>"
  define f where "f = after_serving 0 0 e"
  define g where "g = afterFailure (\<lambda>x. x) (\<lambda>f n. 1) 0 f"
  have "prepareToken Failed (writeTokenFile None True True True) s = Inr (s\<lparr>sv_cleanup := None\<rparr>, ?path)" using s(3) by (simp add: prepareToken_def)
  then have 1: "supervise_step s a" using supervise_step.token_ready [OF s(1), of Failed _ _ _ None True True True] s(2) by (simp add: a_def stopRequested_def)
  have argv: "buildArgs (sv_cfg a) ?path = Inr argv" using s(4) by (simp add: a_def)
  have 2: "supervise_step a b" unfolding b_def by (rule supervise_step.started [OF _ argv h_def]) (simp add: a_def)
  have 3: "outer_step parse b c" unfolding c_def h1_def by (rule outer_step.writes [OF _ _ io_def]) (simp_all add: b_def h_def)
  have ready: "rp_ready (ci_process io)" "rp_publicURL (ci_process io) = address_of parse (sv_cfg s) l"
    unfolding io_def using l(1) by (subst one_line; use l in \<open>simp add: h_def startProcess_def a_def tunnel_ModeQuick_def handle_lines_def handleLine_eq address_of_def\<close>)+
  have 4: "supervise_step c d" unfolding d_def by (rule supervise_step.becomes_ready) (simp_all add: c_def b_def h1_def ready)
  have child: "sv_child d = Some h1" "cr_exit h1 = None" by (simp_all add: d_def sup_ready_def signalReady_def c_def h1_def h_def)
  have 5: "outer_step parse d e" unfolding e_def h2_def by (rule outer_step.exits [OF child io'_def])
  have 6: "supervise_step e f" unfolding f_def by (rule supervise_step.serving_ends [of _ 0 h2 None]) (simp_all add: e_def h2_def d_def sup_ready_def)
  have 7: "supervise_step f g" unfolding g_def by (rule supervise_step.counts) (simp add: f_def after_serving_def)
  have keep: "sv_stopCh f = sv_stopCh s" "sv_ctx f = sv_ctx s" "sv_consecutive f = sv_consecutive s" "sv_maxConsecutive f = sv_maxConsecutive s"
    "sv_readyCh f" "sv_url f = address_of parse (sv_cfg s) l" "sv_cfg f = sv_cfg s" "sv_stabilityWindow f = sv_stabilityWindow s"
    using w(1) ready(2) by (simp_all add: f_def after_serving_def e_def d_def sup_ready_def signalReady_def c_def b_def recordPid_def a_def h1_def cleanup_def)
  have g: "sv_pc g = SupSleeping" "sv_consecutive g = sv_consecutive s + 1" "sv_readyCh g" "sv_url g = address_of parse (sv_cfg s) l" "sv_cfg g = sv_cfg s"
    "sv_stopCh g = sv_stopCh s" "sv_ctx g = sv_ctx s" "sv_maxConsecutive g = sv_maxConsecutive s" "sv_stabilityWindow g = sv_stabilityWindow s"
    using keep s(2) w(2) by (simp_all add: g_def afterFailure_def stopRequested_def Let_def setState_def)
  have "sup_run parse s (g\<lparr>sv_pc := SupTop\<rparr>)"
    by (rule sup_loop [OF sup_loop [OF sup_loop [OF sup_outer [OF sup_loop [OF sup_outer [OF sup_loop [OF sup_loop [OF sup_here 1] 2] 3] 4] 5] 6] 7] supervise_step.slept [OF g(1)]])
  then show ?thesis using g by (intro exI [of _ "g\<lparr>sv_pc := SupTop\<rparr>"]) simp
qed

lemma example_argv: "\<exists>argv. buildArgs (sv_cfg example_sup) path = Inr argv"
  by (simp add: buildArgs_def Let_def example_New tunnel_ModeQuick_def tunnel_ModeNamed_def strategy_defs)

lemma supervise_step_ready:
  assumes "supervise_step s t" "sv_readyCh s" shows "sv_readyCh t"
  using assms(1) by (cases rule: supervise_step.cases) (use assms(2) in \<open>simp_all add: sup_defs Let_def prepared\<close>)

lemma outer_step_ready:
  assumes "outer_step parse s t" "sv_readyCh s" shows "sv_readyCh t"
  using assms(1) by (cases rule: outer_step.cases) (use assms(2) in \<open>simp_all add: Start_def setState_def split: prod.split\<close>)

lemma sup_run_ready: "sup_run parse s t \<Longrightarrow> sv_readyCh s \<Longrightarrow> sv_readyCh t"
  by (induction rule: sup_run.induct) (auto intro: supervise_step_ready outer_step_ready)

text \<open>
  C28: a tunnel that was ready once is reported as ready for ever. From the moment at which the supervisor has signalled readiness the
  probe of the daemon answers that the tunnel is connected, whatever happens; and a supervisor is reached that has given the tunnel
  up, whose own state says degraded and whose loop has returned, while the probe still answers that it is connected.
\<close>

theorem ready_after_degraded:
  "(\<forall>parse s t. sup_run parse s t \<and> sv_readyCh s \<longrightarrow> fst (TunnelChild_Ready \<lparr>tch_ctrl = t, tch_started = True\<rparr>)) \<and>
   (\<exists>s. sup_run (\<lambda>t. None) example_sup s \<and> sv_doneCh s \<and> \<not> ch_Healthy (ti_Health (tunnel_status ''named'' (Some s))) \<and>
      TunnelChild_Ready \<lparr>tch_ctrl = s, tch_started = True\<rparr> = (True, ''connected: https://phone.example''))"
proof
  show "\<forall>parse s t. sup_run parse s t \<and> sv_readyCh s \<longrightarrow> fst (TunnelChild_Ready \<lparr>tch_ctrl = t, tch_started = True\<rparr>)"
    using sup_run_ready by (auto simp: TunnelChild_Ready_def Let_def)
  let ?s = "Start no_processes example_sup" and ?p = "\<lambda>t. None"
  have 0: "sup_run ?p example_sup ?s" by (rule sup_outer [OF sup_here outer_step.starts]) (simp add: example_New)
  obtain argv where argv: "buildArgs (sv_cfg example_sup) (tc_TokenFile (sv_cfg example_sup)) = Inr argv" using example_argv by blast
  have "\<exists>t. sup_run ?p ?s t \<and> sv_pc t = SupTop \<and> sv_readyCh t \<and> sv_url t = address_of ?p (sv_cfg ?s) ''registered connection'' \<and>
    sv_consecutive t = sv_consecutive ?s + 1 \<and> sv_cfg t = sv_cfg ?s \<and> sv_stopCh t = sv_stopCh ?s \<and> sv_ctx t = sv_ctx ?s \<and>
    sv_maxConsecutive t = sv_maxConsecutive ?s \<and> sv_stabilityWindow t = sv_stabilityWindow ?s"
    by (rule short_success [where argv = argv]) (use argv ready_line in \<open>simp_all add: example_Start example_New usesTokenCommand_def strategy_defs\<close>)
  then obtain t where t: "sup_run ?p ?s t" "sv_pc t = SupTop" "sv_readyCh t" "sv_url t = ''https://phone.example''" "sv_consecutive t = 1"
    "sv_cfg t = sv_cfg example_sup" "\<not> (sv_stopCh t \<or> sv_ctx t)" "sv_maxConsecutive t = 5"
    by (auto simp: example_Start example_New address_of_def namedURL_def tunnel_ModeNamed_def)
  obtain u where u: "sup_run ?p t u" "tunnel_kept t u" "sv_state u = StateDegraded" "sv_doneCh u"
    using failing_starts [of t 4 ?p] t by (auto simp: example_New usesTokenCommand_def strategy_defs)
  have "sup_run ?p example_sup u" by (rule sup_run_trans [OF sup_run_trans [OF u(1) t(1)] 0])
  moreover have "TunnelChild_Ready \<lparr>tch_ctrl = u, tch_started = True\<rparr> = (True, ''connected: https://phone.example'')"
    using t(3,4) u(2) by (simp add: TunnelChild_Ready_def tunnel_kept_def)
  moreover have "\<not> ch_Healthy (ti_Health (tunnel_status ''named'' (Some u)))" using u(3) by (simp add: tunnel_status_def)
  ultimately show "\<exists>s. sup_run ?p example_sup s \<and> sv_doneCh s \<and> \<not> ch_Healthy (ti_Health (tunnel_status ''named'' (Some s))) \<and>
      TunnelChild_Ready \<lparr>tch_ctrl = s, tch_started = True\<rparr> = (True, ''connected: https://phone.example'')" using u(4) by blast
qed

theorem ready_after_degraded_witness:
  "\<exists>s. sup_run (\<lambda>t. None) example_sup s \<and> sv_doneCh s \<and> fst (TunnelChild_Ready \<lparr>tch_ctrl = s, tch_started = True\<rparr>)"
  using ready_after_degraded by (metis fst_conv)

end
