(* ===== verification/TunnelQuick.thy ===== *)
theory TunnelQuick
  imports TunnelStatus
begin

text \<open>
  A quick tunnel whose cloudflared was restarted: what the server still accepts.
\<close>

section \<open>The host of a quick address\<close>

lemma quick_host:
  assumes "quick_address u"
  shows "\<exists>h. u = ''https://'' @ h \<and> hostOnly u = h \<and> h \<noteq> [] \<and> CHR '':'' \<notin> set h"
proof -
  obtain label where u: "u = ''https://'' @ label @ ''.trycloudflare.com''" "label \<noteq> []" "list_all (\<lambda>c. label_char c \<or> c = CHR ''-'') label"
    using assms by (auto simp: quick_address_def)
  let ?h = "label @ ''.trycloudflare.com''"
  have l: "0x20 < ord c \<and> ord c < 0x80 \<and> c \<noteq> CHR ''/'' \<and> c \<noteq> CHR '':''" if "c \<in> set label" for c
    using u(3) that by (auto simp: list_all_iff label_char_def)
  have "\<forall>c\<in>set u. 0x20 < ord c \<and> ord c < 0x80" using l u(1) by auto
  then have "TrimSpace u = u" by (rule TrimSpace_plain)
  moreover have "after_first ''://'' u = Some ?h" by (simp add: u(1) HasPrefix_def)
  moreover have "takeWhile (\<lambda>c. c \<noteq> CHR ''/'') ?h = ?h" using l by (auto simp: takeWhile_eq_all_conv)
  ultimately have "hostOnly u = ?h" by (simp add: hostOnly_def)
  then show ?thesis using u l by (intro exI [of _ ?h]) auto
qed

lemma quick_host_allowed:
  assumes "quick_address u" "quick_address v"
  shows "hostAllowed (serverConfig ''quick'' u port e) (hostOnly v) \<longleftrightarrow> v = u"
proof -
  obtain h k where h: "u = ''https://'' @ h" "hostOnly u = h" "h \<noteq> []" "v = ''https://'' @ k" "hostOnly v = k" "k \<noteq> []" "CHR '':'' \<notin> set k"
    using quick_host [OF assms(1)] quick_host [OF assms(2)] by blast
  have "k \<noteq> ''127.0.0.1:'' @ int_literal port" "k \<noteq> ''localhost:'' @ int_literal port" using h(7) by auto
  then show ?thesis using h by (auto simp: hostAllowed_def serverConfig_def no_server_config_def Let_def)
qed

section \<open>A quick tunnel that was restarted\<close>

lemma supervise_step_cfg:
  assumes "supervise_step s t" shows "sv_cfg t = sv_cfg s"
  using assms by (cases rule: supervise_step.cases) (simp_all add: sup_defs Let_def prepared)

lemma outer_step_cfg:
  assumes "outer_step parse s t" shows "sv_cfg t = sv_cfg s"
  using assms by (cases rule: outer_step.cases) (simp_all add: Start_def setState_def split: prod.split)

lemma sup_run_cfg: "sup_run parse s t \<Longrightarrow> sv_cfg t = sv_cfg s"
  by (induction rule: sup_run.induct) (simp_all add: supervise_step_cfg outer_step_cfg)

inductive_cases waitQuickTunnelURL_Some: "waitQuickTunnelURL late s (Some u)"

lemma address_of_ready:
  assumes "tunnel_New parse_ip temp cfg fs pidfile = Inr s0" "tc_Mode (sv_cfg s0) = ''quick''" "sup_run parse s0 s" "sv_readyCh s"
  shows "quick_address (sv_url s)"
proof -
  have "view_inv s" using sup_run_inv [OF assms(3) sup_inv_New [OF assms(1)]] by (simp add: sup_inv_def)
  then show ?thesis using assms(2,4) sup_run_cfg [OF assms(3)] by (simp add: view_inv_def address_ok_def tunnel_ModeQuick_def)
qed

text \<open>
  C27: a quick tunnel that is restarted is no longer reachable. The server of a quick tunnel is built with the address that cloudflared
  announced first. At every later moment of the supervisor the address it reports is an address below the domain of the provider, and
  the server accepts requests for its host exactly if it is the first one; cloudflared gets a new one at each restart, so from then on
  every request through the tunnel is refused while the status shows the new address and the tunnel as ready.
\<close>

theorem quick_restart_refused:
  assumes "tunnel_New parse_ip temp cfg fs pidfile = Inr s0" "tc_Mode (sv_cfg s0) = ''quick''" "sup_run parse s0 s1"
    "waitQuickTunnelURL late s1 (Some u)" "sup_run parse s1 s"
  shows "ti_PublicURL (tunnel_status ''quick'' (Some s)) = sv_url s \<and> quick_address (sv_url s) \<and>
    (hostAllowed (serverConfig ''quick'' u port e) (hostOnly (sv_url s)) \<longleftrightarrow> sv_url s = u)"
proof -
  have 1: "sv_readyCh s1" "sv_url s1 = u" using assms(4) by (auto elim!: waitQuickTunnelURL_Some split: if_splits)
  have u: "quick_address u" using address_of_ready [OF assms(1-3) 1(1)] 1(2) by simp
  have "quick_address (sv_url s)" using address_of_ready [OF assms(1,2) sup_run_trans [OF assms(5,3)] sup_run_ready [OF assms(5) 1(1)]] .
  then show ?thesis using quick_host_allowed [OF u] by (simp add: tunnel_status_def)
qed

text \<open>A quick tunnel on which cloudflared announces two addresses, one after the other.\<close>

definition example_quick :: tunnel_Config where
  "example_quick = tunnelConfig (example_loaded\<lparr>c_Cloudflare := (c_Cloudflare example_loaded)\<lparr>cc_QuickEnabled := True\<rparr>\<rparr>) ''quick'' 8787 ''/state''"

definition quick_sup :: Supervisor where
  "quick_sup = projr (tunnel_New (\<lambda>s. Some loopback_v4) ''/tmp'' example_quick Map.empty None)"

lemma quick_New:
  "tunnel_New (\<lambda>s. Some loopback_v4) ''/tmp'' example_quick Map.empty None = Inr quick_sup"
  "sv_pc quick_sup = SupIdle" "sv_stopCh quick_sup = False" "sv_ctx quick_sup = False" "sv_consecutive quick_sup = 0"
  "sv_maxConsecutive quick_sup = 5" "sv_stabilityWindow quick_sup = 45000000000" "tc_Mode (sv_cfg quick_sup) = ''quick''"
  "sv_pidFile quick_sup = None"
proof -
  have "\<exists>tc. tunnel_Validate (\<lambda>s. Some loopback_v4) example_quick = Inr tc \<and> tc_Mode tc = ''quick'' \<and> tc_StabilityWindow tc = 45000000000"
    using metrics_default [of "\<lambda>s. Some loopback_v4"]
    by (simp add: example_quick_def tunnelConfig_def example_loaded_def Default_def tunnel_Validate_def tunnel_applyDefaults_def Let_def
        tunnel_ModeQuick_def defaultMetricsAddr_def knows_loopback_def tunnelStabilityWindow_def)
  then show "tunnel_New (\<lambda>s. Some loopback_v4) ''/tmp'' example_quick Map.empty None = Inr quick_sup"
    "sv_pc quick_sup = SupIdle" "sv_stopCh quick_sup = False" "sv_ctx quick_sup = False" "sv_consecutive quick_sup = 0"
    "sv_maxConsecutive quick_sup = 5" "sv_stabilityWindow quick_sup = 45000000000" "tc_Mode (sv_cfg quick_sup) = ''quick''"
    "sv_pidFile quick_sup = None"
    by (auto simp: quick_sup_def tunnel_New_def)
qed

lemma quick_line:
  assumes "l = ''https://a.trycloudflare.com'' \<or> l = ''https://b.trycloudflare.com''"
  shows "classify (parseLogLine (\<lambda>t. None) l) = \<lparr>le_kind = evQuickURL, le_url = l, le_line = \<lparr>lg_Level = [], lg_Message = [], lg_Time = [], lg_Raw = l\<rparr>\<rparr>"
proof -
  have e: "encode_runes (ascii l) = l" by (rule encode_ascii) (use assms in auto)
  have r: "runes l = ascii l" by (rule runes_of_ascii) (use assms in auto)
  have "sanitizeLogText (encode_runes (ascii l)) = encode_runes (ascii l)"
    by (rule sanitizeLogText_short) (use assms in \<open>simp_all add: e\<close>, use assms in \<open>auto simp: ascii_def valid_rune_def text_rune_def maxLogLineBytes_def\<close>)
  then have raw: "sanitizeLogText l = l" by (simp add: e)
  have "map ToLower_rune (ascii l) = ascii l" using assms by (auto simp: ascii_def ToLower_rune_def)
  then have low: "ToLower l = l" by (simp add: ToLower_def r e)
  have "TrimSpace l = l" by (rule TrimSpace_plain) (use assms in auto)
  then have "parseLogLine (\<lambda>t. None) l = \<lparr>lg_Level = [], lg_Message = [], lg_Time = [], lg_Raw = l\<rparr>"
    using assms by (auto simp: parseLogLine_def raw HasPrefix_def)
  moreover have "quickURL l = l" using assms by (auto simp: quick_at_def HasPrefix_def label_char_def)
  moreover have "ToLower [] = []" by (simp add: ToLower_def)
  ultimately show ?thesis using assms by (auto simp: classify_def low Let_def simp del: quickURL.simps(2))
qed

definition announces :: "string \<Rightarrow> Supervisor \<Rightarrow> bool" where
  "announces l t \<longleftrightarrow> sv_pc t = SupTop \<and> sv_readyCh t \<and> sv_url t = l \<and> sv_cfg t = sv_cfg quick_sup \<and> \<not> (sv_stopCh t \<or> sv_ctx t) \<and>
     sv_maxConsecutive t = 5 \<and> sv_stabilityWindow t = 45000000000"

lemma quick_announces:
  assumes "sv_pc s = SupTop" "\<not> (sv_stopCh s \<or> sv_ctx s)" "sv_cfg s = sv_cfg quick_sup" "sv_stabilityWindow s = 45000000000"
    "sv_maxConsecutive s = 5" "sv_consecutive s + 1 < 5" "l = ''https://a.trycloudflare.com'' \<or> l = ''https://b.trycloudflare.com''"
  shows "\<exists>t. sup_run (\<lambda>t. None) s t \<and> announces l t \<and> sv_consecutive t = sv_consecutive s + 1"
proof -
  have m: "tc_Mode (sv_cfg s) = ''quick''" using assms(3) quick_New by simp
  obtain argv where argv: "buildArgs (sv_cfg s) (tc_TokenFile (sv_cfg s)) = Inr argv" using m by (auto simp: buildArgs_def Let_def tunnel_ModeQuick_def)
  have l: "signals (\<lambda>t. None) True l" "address_of (\<lambda>t. None) (sv_cfg s) l = l"
    using quick_line [OF assms(7)] m by (simp_all add: signals_def address_of_def namedURL_def tunnel_ModeNamed_def)
  have "\<exists>t. sup_run (\<lambda>t. None) s t \<and> sv_pc t = SupTop \<and> sv_readyCh t \<and> sv_url t = address_of (\<lambda>t. None) (sv_cfg s) l \<and>
    sv_consecutive t = sv_consecutive s + 1 \<and> sv_cfg t = sv_cfg s \<and> sv_stopCh t = sv_stopCh s \<and> sv_ctx t = sv_ctx s \<and>
    sv_maxConsecutive t = sv_maxConsecutive s \<and> sv_stabilityWindow t = sv_stabilityWindow s"
    by (rule short_success [OF assms(1,2) _ argv]) (use assms m l in \<open>auto simp: usesTokenCommand_def tunnel_ModeNamed_def\<close>)
  then show ?thesis using assms l by (auto simp: announces_def)
qed

lemma quick_first_run:
  "\<exists>s1 s. sup_run (\<lambda>t. None) quick_sup s1 \<and> announces ''https://a.trycloudflare.com'' s1 \<and> sup_run (\<lambda>t. None) s1 s \<and> announces ''https://b.trycloudflare.com'' s"
proof -
  let ?s = "Start no_processes quick_sup"
  have 0: "sup_run (\<lambda>t. None) quick_sup ?s" by (rule sup_outer [OF sup_here outer_step.starts]) (simp add: quick_New)
  have s: "?s = quick_sup\<lparr>sv_state := StateStarting, sv_pc := SupTop\<rparr>" by (simp add: Start_def reconcileOrphan_def readPidRecord_def quick_New setState_def)
  obtain s1 where s1: "sup_run (\<lambda>t. None) ?s s1" "announces ''https://a.trycloudflare.com'' s1" "sv_consecutive s1 = 1"
    using quick_announces [of ?s "''https://a.trycloudflare.com''"] by (auto simp: s quick_New)
  obtain s2 where s2: "sup_run (\<lambda>t. None) s1 s2" "announces ''https://b.trycloudflare.com'' s2"
    using quick_announces [of s1 "''https://b.trycloudflare.com''"] s1(2,3) by (auto simp: announces_def)
  show ?thesis using sup_run_trans [OF s1(1) 0] s1(2) s2 by blast
qed

theorem quick_restart_refused_witness:
  "\<exists>s. sup_run (\<lambda>t. None) quick_sup s \<and> ti_PublicURL (tunnel_status ''quick'' (Some s)) = ''https://b.trycloudflare.com'' \<and>
     \<not> hostAllowed (serverConfig ''quick'' ''https://a.trycloudflare.com'' 8787 (c_Experimental Default)) (hostOnly ''https://b.trycloudflare.com'')"
proof -
  let ?a = "''https://a.trycloudflare.com''" and ?b = "''https://b.trycloudflare.com''"
  obtain s1 s where s: "sup_run (\<lambda>t. None) quick_sup s1" "announces ?a s1" "sup_run (\<lambda>t. None) s1 s" "announces ?b s" using quick_first_run by blast
  have w: "waitQuickTunnelURL False s1 (Some ?a)" using quick_ready [of s1 False] s(2) by (simp add: announces_def)
  have "sv_url s = ?b" using s(4) by (simp add: announces_def)
  then show ?thesis using quick_restart_refused [OF quick_New(1,8) s(1) w s(3), of 8787 "c_Experimental Default"] sup_run_trans [OF s(3,1)] by auto
qed

end
