(* ===== verification/DaemonControl.thy ===== *)
theory DaemonControl
  imports TunnelStatus
begin

text \<open>
  The daemon seen from outside: its runtime file (internal/daemon/runtime.go), its control socket with server and client (control.go) and the
  decision whether one is running (reconcile.go).
\<close>

section \<open>internal/daemon/runtime.go\<close>

definition HealthStarting :: string where "HealthStarting = ''starting''"
definition HealthReady :: string where "HealthReady = ''ready''"
definition HealthDegraded :: string where "HealthDegraded = ''degraded''"
definition HealthStopping :: string where "HealthStopping = ''stopping''"

lemmas health_defs = HealthStarting_def HealthReady_def HealthDegraded_def HealthStopping_def

record daemon_Runtime =
  rt_PID :: int
  rt_InstanceID :: string
  rt_Mode :: string
  rt_LocalAddr :: string
  rt_PublicURL :: string
  rt_Version :: string
  rt_StartUnixMs :: int
  rt_Health :: string

text \<open>
  The runtime file is the value that the JSON decoder reads first in it; \<open>None\<close> stands for a text without one. A string is encoded with its
  ill-formed bytes replaced.
\<close>

datatype state_file = NoFile | Unreadable | Text "json option"

definition json_text :: "string \<Rightarrow> json" where
  "json_text s = JStr (encode_runes (runes s))"

definition runtime_json :: "daemon_Runtime \<Rightarrow> json" where
  "runtime_json r = JObj
     [(''pid'', JNum (int_literal (rt_PID r))), (''instance_id'', json_text (rt_InstanceID r)), (''mode'', json_text (rt_Mode r)),
      (''local_addr'', json_text (rt_LocalAddr r)), (''public_url'', json_text (rt_PublicURL r)), (''version'', json_text (rt_Version r)),
      (''start_unix_ms'', JNum (int_literal (rt_StartUnixMs r))), (''health'', json_text (rt_Health r))]"

definition runtime_fields :: "string list" where
  "runtime_fields = [''pid'', ''instance_id'', ''mode'', ''local_addr'', ''public_url'', ''version'', ''start_unix_ms'', ''health'']"

definition decode_runtime :: "json \<Rightarrow> daemon_Runtime option" where
  "decode_runtime j = do {
     p \<leftarrow> select_fields runtime_fields j;
     pid \<leftarrow> get_int Atoi p ''pid''; inst \<leftarrow> get_string p ''instance_id''; mode \<leftarrow> get_string p ''mode'';
     addr \<leftarrow> get_string p ''local_addr''; url \<leftarrow> get_string p ''public_url''; version \<leftarrow> get_string p ''version'';
     start \<leftarrow> get_int Atoi p ''start_unix_ms''; health \<leftarrow> get_string p ''health'';
     Some \<lparr>rt_PID = pid, rt_InstanceID = inst, rt_Mode = mode, rt_LocalAddr = addr, rt_PublicURL = url, rt_Version = version,
       rt_StartUnixMs = start, rt_Health = health\<rparr> }"

datatype runtime_error = RuntimeMissing | RuntimeUnreadable | RuntimeDecode | RuntimeIncomplete | RuntimeWrite write_failure
  and write_failure = MkdirFailed | CreateFailed | ChmodFailed | WriteFailed | SyncFailed | CloseFailed | RenameFailed

text \<open>The first step of the writing that fails, if one does; the temporary file is removed then and the file is as it was.\<close>

definition WriteRuntime :: "write_failure option \<Rightarrow> daemon_Runtime \<Rightarrow> state_file \<Rightarrow> state_file \<times> runtime_error option" where
  "WriteRuntime fails r file =
     (case fails of Some e \<Rightarrow> (file, Some (RuntimeWrite e)) | None \<Rightarrow> (Text (Some (runtime_json r)), None))"

definition LoadRuntime :: "state_file \<Rightarrow> runtime_error + daemon_Runtime" where
  "LoadRuntime file =
     (case file of
        NoFile \<Rightarrow> Inl RuntimeMissing
      | Unreadable \<Rightarrow> Inl RuntimeUnreadable
      | Text j \<Rightarrow>
          (case Option.bind j decode_runtime of
             None \<Rightarrow> Inl RuntimeDecode
           | Some r \<Rightarrow> if rt_PID r \<le> 0 \<or> rt_InstanceID r = [] then Inl RuntimeIncomplete else Inr r))"

definition UpdateRuntimeHealth :: "write_failure option \<Rightarrow> string \<Rightarrow> state_file \<Rightarrow> state_file \<times> runtime_error option" where
  "UpdateRuntimeHealth fails health file =
     (case LoadRuntime file of
        Inl e \<Rightarrow> (file, if e = RuntimeMissing then None else Some e)
      | Inr r \<Rightarrow> WriteRuntime fails (r\<lparr>rt_Health := health\<rparr>) file)"

section \<open>internal/daemon/control.go: the wire\<close>

definition controlReadLimit :: nat where "controlReadLimit = 65536"
definition controlDeadline :: duration where "controlDeadline = 10000000000"
definition CmdStatus :: string where "CmdStatus = ''status''"
definition CmdRotatePairing :: string where "CmdRotatePairing = ''rotate-pairing''"
definition CmdStop :: string where "CmdStop = ''stop''"

record controlRequest =
  cq_Command :: string
  cq_RequestID :: string

record ComponentStatus =
  cst_Name :: string
  cst_Ready :: bool
  cst_Detail :: string

record StatusResult =
  st_Health :: string
  st_Mode :: string
  st_PublicURL :: string
  st_LocalAddr :: string
  st_Version :: string
  st_InstanceID :: string
  st_PID :: int
  st_StartUnixMs :: int
  st_ClientCount :: int
  st_Components :: "ComponentStatus list"

record PairingResult =
  pres_URL :: string

record controlResponse =
  crs_RequestID :: string
  crs_OK :: bool
  crs_Error :: string
  crs_Status :: "StatusResult option"
  crs_Pairing :: "PairingResult option"

text \<open>The callbacks over the state of the daemon.\<close>

record 's Handlers =
  hd_Status :: "('s \<Rightarrow> 's \<times> (string + StatusResult)) option"
  hd_RotatePairing :: "('s \<Rightarrow> 's \<times> (string + PairingResult)) option"
  hd_Stop :: "('s \<Rightarrow> 's \<times> string option) option"

definition trimNewline :: "string \<Rightarrow> string" where
  "trimNewline b = drop_end (\<lambda>c. c = CHR 0x0A \<or> c = CHR 0x0D) b"

text \<open>\<open>ReadBytes\<close> on what the limit lets through: up to the first line end, or all of it.\<close>

definition read_line :: "nat \<Rightarrow> string \<Rightarrow> string" where
  "read_line limit bs = (let b = take limit bs in takeWhile (\<lambda>c. c \<noteq> CHR 0x0A) b @ take 1 (dropWhile (\<lambda>c. c \<noteq> CHR 0x0A) b))"

definition decode_request :: "json \<Rightarrow> controlRequest option" where
  "decode_request j = do {
     p \<leftarrow> select_known [''command'', ''request_id''] j; c \<leftarrow> get_string p ''command''; i \<leftarrow> get_string p ''request_id'';
     Some \<lparr>cq_Command = c, cq_RequestID = i\<rparr> }"

definition no_response :: controlResponse where
  "no_response = \<lparr>crs_RequestID = [], crs_OK = False, crs_Error = [], crs_Status = None, crs_Pairing = None\<rparr>"

text \<open>
  The switch over the commands. \<open>verb_q\<close> is the verb that quotes a string. The flag says that the connection was exempted from a forced
  close.
\<close>

definition control_switch :: "(string \<Rightarrow> string) \<Rightarrow> 's Handlers \<Rightarrow> controlRequest \<Rightarrow> 's \<Rightarrow> 's \<times> bool \<times> controlResponse" where
  "control_switch verb_q h req s =
     (let resp = no_response\<lparr>crs_RequestID := cq_RequestID req\<rparr>; fails = (\<lambda>e. resp\<lparr>crs_Error := e\<rparr>) in
      if cq_Command req = CmdStatus then
        (case hd_Status h of
           None \<Rightarrow> (s, False, fails ''status unsupported'')
         | Some f \<Rightarrow> (case f s of (s, Inl e) \<Rightarrow> (s, False, fails (sanitizeErr e)) | (s, Inr st) \<Rightarrow> (s, False, resp\<lparr>crs_OK := True, crs_Status := Some st\<rparr>)))
      else if cq_Command req = CmdRotatePairing then
        (case hd_RotatePairing h of
           None \<Rightarrow> (s, False, fails ''rotate-pairing unsupported'')
         | Some f \<Rightarrow> (case f s of (s, Inl e) \<Rightarrow> (s, False, fails (sanitizeErr e)) | (s, Inr pr) \<Rightarrow> (s, False, resp\<lparr>crs_OK := True, crs_Pairing := Some pr\<rparr>)))
      else if cq_Command req = CmdStop then
        (case hd_Stop h of
           None \<Rightarrow> (s, False, fails ''stop unsupported'')
         | Some f \<Rightarrow> (case f s of (s, Some e) \<Rightarrow> (s, True, fails (sanitizeErr e)) | (s, None) \<Rightarrow> (s, True, resp\<lparr>crs_OK := True\<rparr>)))
      else (s, False, fails (''unknown command '' @ verb_q (cq_Command req))))"

definition handleConn ::
  "(string \<Rightarrow> json option) \<Rightarrow> (string \<Rightarrow> string) \<Rightarrow> 's Handlers \<Rightarrow> string \<Rightarrow> 's \<Rightarrow> 's \<times> bool \<times> controlResponse option" where
  "handleConn parse verb_q h bs s =
     (let line = read_line controlReadLimit bs in
      if line = [] then (s, False, None)
      else case Option.bind (parse (trimNewline line)) decode_request of
          None \<Rightarrow> (s, False, Some (no_response\<lparr>crs_Error := ''invalid request''\<rparr>))
        | Some req \<Rightarrow> (case control_switch verb_q h req s of (s, exempt, resp) \<Rightarrow> (s, exempt, Some resp)))"

text \<open>The delay is a shift of a 64-bit integer.\<close>

definition acceptBackoff :: "nat \<Rightarrow> duration" where
  "acceptBackoff fail =
     (let d = sint (push_bit (fail - 1) (5000000 :: 64 word)) in if d > 1000000000 \<or> d \<le> 0 then 1000000000 else d)"

section \<open>internal/daemon/control.go: the server\<close>

text \<open>Connections are numbers; \<open>cs_open\<close> are those the server has not closed.\<close>

record ControlServer =
  cs_closed :: bool
  cs_listening :: bool
  cs_conns :: "nat set"
  cs_open :: "nat set"
  cs_exempt :: "nat option"

definition Listen :: ControlServer where
  "Listen = \<lparr>cs_closed = False, cs_listening = True, cs_conns = {}, cs_open = {}, cs_exempt = None\<rparr>"

definition trackConn :: "nat \<Rightarrow> bool \<Rightarrow> ControlServer \<Rightarrow> ControlServer" where
  "trackConn c add s = (if add then s\<lparr>cs_conns := insert c (cs_conns s)\<rparr> else s\<lparr>cs_conns := cs_conns s - {c}\<rparr>)"

definition setExempt :: "nat \<Rightarrow> ControlServer \<Rightarrow> ControlServer" where
  "setExempt c s = s\<lparr>cs_exempt := Some c\<rparr>"

definition isClosed :: "ControlServer \<Rightarrow> bool" where "isClosed s = cs_closed s"

definition control_Close :: "ControlServer \<Rightarrow> ControlServer" where
  "control_Close s =
     (if cs_closed s then s
      else s\<lparr>cs_closed := True, cs_listening := False, cs_open := cs_open s - (cs_conns s - set_option (cs_exempt s))\<rparr>)"

section \<open>internal/daemon/control.go: the client\<close>

text \<open>
  One exchange: no connection, or the response the line decodes to (if it does) and the time at which it was read.
\<close>

datatype exchange = NoConnection | Answered duration "controlResponse option"

datatype client_error = DialFailed | ReadFailed | DecodeFailed | CommandRefused string | MissingPayload

definition control_call :: "duration \<Rightarrow> exchange \<Rightarrow> client_error + controlResponse" where
  "control_call timeout ex =
     (case ex of
        NoConnection \<Rightarrow> Inl DialFailed
      | Answered d resp \<Rightarrow>
          if d > (if timeout > 0 then timeout else controlDeadline) then Inl ReadFailed
          else case resp of
              None \<Rightarrow> Inl DecodeFailed
            | Some r \<Rightarrow> if \<not> crs_OK r then Inl (CommandRefused (if crs_Error r = [] then ''control command failed'' else crs_Error r)) else Inr r)"

definition client_Status :: "duration \<Rightarrow> exchange \<Rightarrow> client_error + StatusResult" where
  "client_Status timeout ex =
     (case control_call timeout ex of
        Inl e \<Rightarrow> Inl e
      | Inr r \<Rightarrow> (case crs_Status r of None \<Rightarrow> Inl MissingPayload | Some st \<Rightarrow> Inr st))"

definition client_RotatePairing :: "duration \<Rightarrow> exchange \<Rightarrow> client_error + PairingResult" where
  "client_RotatePairing timeout ex =
     (case control_call timeout ex of
        Inl e \<Rightarrow> Inl e
      | Inr r \<Rightarrow> (case crs_Pairing r of None \<Rightarrow> Inl MissingPayload | Some pr \<Rightarrow> Inr pr))"

definition client_Stop :: "duration \<Rightarrow> exchange \<Rightarrow> client_error option" where
  "client_Stop timeout ex = (case control_call timeout ex of Inl e \<Rightarrow> Some e | Inr r \<Rightarrow> None)"

section \<open>internal/daemon/reconcile.go\<close>

definition LivenessAbsent :: string where "LivenessAbsent = ''absent''"
definition LivenessRunning :: string where "LivenessRunning = ''running''"
definition LivenessStale :: string where "LivenessStale = ''stale''"

record ReconcileResult =
  rec_Liveness :: string
  rec_Runtime :: "daemon_Runtime option"
  rec_Status :: "StatusResult option"
  rec_Reason :: string

definition reconciled :: "string \<Rightarrow> daemon_Runtime option \<Rightarrow> StatusResult option \<Rightarrow> string \<Rightarrow> ReconcileResult" where
  "reconciled l r st reason = \<lparr>rec_Liveness = l, rec_Runtime = r, rec_Status = st, rec_Reason = reason\<rparr>"

text \<open>\<open>exists\<close> says whether a process is there, also one of another user.\<close>

definition ProcessAlive :: "(int \<Rightarrow> bool) \<Rightarrow> int \<Rightarrow> bool" where
  "ProcessAlive exists pid \<longleftrightarrow> pid > 0 \<and> exists pid"

text \<open>\<open>socket\<close> says whether the path of the control socket could be resolved and whether it is there.\<close>

definition Reconcile :: "state_file \<Rightarrow> (int \<Rightarrow> bool) \<Rightarrow> bool option \<Rightarrow> exchange \<Rightarrow> duration \<Rightarrow> ReconcileResult" where
  "Reconcile file exists socket ex probeTimeout =
     (case LoadRuntime file of
        Inl e \<Rightarrow>
          if e = RuntimeMissing then reconciled LivenessAbsent None None ''no runtime state''
          else reconciled LivenessStale None None ''unreadable runtime state''
      | Inr rt \<Rightarrow>
          let stale = reconciled LivenessStale (Some rt) None in
          if \<not> ProcessAlive exists (rt_PID rt) then stale ''recorded pid is not running''
          else case socket of
              None \<Rightarrow> stale ''control socket path unresolved''
            | Some there \<Rightarrow>
                if \<not> there then stale ''control socket missing''
                else case client_Status probeTimeout ex of
                    Inl e \<Rightarrow> stale ''control socket unreachable''
                  | Inr st \<Rightarrow>
                      if st_InstanceID st \<noteq> rt_InstanceID rt then stale ''instance id mismatch''
                      else reconciled LivenessRunning (Some rt) (Some st) ''healthy daemon already running'')"


section \<open>The runtime file is read as it was written\<close>

lemma decimal_nonempty: "decimal n \<noteq> []"
  by (subst decimal.simps) simp

lemma decimal_digit_chars: "list_all digit_char (decimal n)"
  using decimal_digits [of _ n] by (force simp: list_all_iff digit_char_def)

lemma Atoi_int_literal:
  assumes "- (2 ^ 63) \<le> n" "n < 2 ^ 63" shows "Atoi (int_literal n) = Some n"
proof (cases "n < 0")
  case True
  then show ?thesis using assms decimal_nonempty decimal_digit_chars by (simp add: Atoi_def int_literal_def)
next
  case False
  obtain c cs where d: "decimal (nat n) = c # cs" using decimal_nonempty by (cases "decimal (nat n)") auto
  then have "c \<noteq> CHR ''-''" "c \<noteq> CHR ''+''" using decimal_digit_chars [of "nat n"] by (auto simp: digit_char_def)
  then have "Atoi (c # cs) = Some n"
    using assms False decimal_digit_chars [of "nat n"] from_decimal_decimal [of "nat n"] by (simp add: Atoi_def d)
  then show ?thesis using False by (simp add: int_literal_def d)
qed

definition int64_range :: "int \<Rightarrow> bool" where "int64_range n \<longleftrightarrow> - (2 ^ 63) \<le> n \<and> n < 2 ^ 63"

definition valid_runtime :: "daemon_Runtime \<Rightarrow> bool" where
  "valid_runtime r \<longleftrightarrow> int64_range (rt_PID r) \<and> int64_range (rt_StartUnixMs r) \<and>
     list_all valid_utf8 [rt_InstanceID r, rt_Mode r, rt_LocalAddr r, rt_PublicURL r, rt_Version r, rt_Health r]"

lemma decode_runtime_json: "valid_runtime r \<Longrightarrow> decode_runtime (runtime_json r) = Some r"
  by (simp add: decode_runtime_def runtime_json_def runtime_fields_def select_fields_def select_field_def get_int_def get_string_def field_values_def
      json_text_def valid_runtime_def int64_range_def valid_utf8_def Atoi_int_literal)

definition complete_runtime :: "daemon_Runtime \<Rightarrow> bool" where
  "complete_runtime r \<longleftrightarrow> valid_runtime r \<and> rt_PID r > 0 \<and> rt_InstanceID r \<noteq> []"

lemma LoadRuntime_json: "complete_runtime r \<Longrightarrow> LoadRuntime (Text (Some (runtime_json r))) = Inr r"
  by (simp add: LoadRuntime_def complete_runtime_def decode_runtime_json)


definition example_runtime :: daemon_Runtime where
  "example_runtime = \<lparr>rt_PID = 4242, rt_InstanceID = ''i1'', rt_Mode = ''named'', rt_LocalAddr = ''127.0.0.1:8787'',
     rt_PublicURL = ''https://phone.example'', rt_Version = ''1.0'', rt_StartUnixMs = 1700000000000, rt_Health = ''starting''\<rparr>"

lemma valid_utf8_ascii: "list_all (\<lambda>c. ord c < 0x80) s \<Longrightarrow> valid_utf8 s"
  using encode_ascii [of s] runes_of_ascii [of s] by (simp add: valid_utf8_def)

lemma example_runtime_complete: "complete_runtime example_runtime"
  by (simp add: complete_runtime_def valid_runtime_def int64_range_def example_runtime_def valid_utf8_ascii)


section \<open>The delay after a failed accept\<close>

lemma shifted_value:
  assumes "k \<le> 40" shows "sint (push_bit k (5000000 :: 64 word)) = 5000000 * 2 ^ k"
proof -
  have "(5000000 :: int) * 2 ^ k \<le> 5000000 * 2 ^ 40" using assms by (intro mult_left_mono power_increasing) auto
  then have "- (2 ^ 63) \<le> (5000000 :: int) * 2 ^ k" "(5000000 :: int) * 2 ^ k < 2 ^ 63" by (auto intro: order_trans [of _ 0])
  then have "sint (word_of_int (5000000 * 2 ^ k) :: 64 word) = 5000000 * 2 ^ k" by (subst sint_sbintrunc') (simp add: signed_take_bit_int_eq_self)
  moreover have "push_bit k (5000000 :: 64 word) = word_of_int (5000000 * 2 ^ k)" by (simp add: push_bit_eq_mult)
  ultimately show ?thesis by (simp only:)
qed

lemma shifted_large:
  assumes "24 \<le> k" shows "sint (push_bit k (5000000 :: 64 word)) \<le> 0 \<or> 1000000000 < sint (push_bit k (5000000 :: 64 word))"
proof -
  let ?w = "push_bit k (5000000 :: 64 word)"
  have "?w = push_bit (k + 6) 78125" by (simp add: push_bit_eq_mult power_add)
  then have "take_bit 30 ?w = 0"
    by (simp only:) (rule bit_word_eqI, use assms in \<open>auto simp: bit_take_bit_iff bit_push_bit_iff\<close>)
  then have "\<not> bit ?w n" if "n < 30" for n using that by (metis bit_0_eq bit_take_bit_iff bot_apply bot_bool_def)
  then have "take_bit 30 (sint ?w) = 0" by (intro bit_eqI) (auto simp: bit_take_bit_iff bit_sint_iff)
  then have "2 ^ 30 dvd sint ?w" by (simp add: take_bit_eq_0_iff)
  then obtain m where "sint ?w = 2 ^ 30 * m" by blast
  then show ?thesis by (cases "m \<le> 0") (auto simp: mult_le_0_iff)
qed

text \<open>
  The pause after failed accepts. It is five milliseconds, doubled with every further failure, up to the eighth, and one second
  from then on, however long the failures go on and although the shift overflows.
\<close>

theorem acceptBackoff_exact:
  assumes "0 < n" shows "acceptBackoff n = (if n \<le> 8 then 5000000 * 2 ^ (n - 1) else 1000000000)"
proof (cases "n - 1 \<le> 40")
  case True
  have "(5000000 :: int) * 2 ^ (n - 1) \<le> 5000000 * 2 ^ 7" if "n \<le> 8" using that by (intro mult_left_mono power_increasing) auto
  moreover have "(5000000 :: int) * 2 ^ 8 \<le> 5000000 * 2 ^ (n - 1)" if "\<not> n \<le> 8" using that by (intro mult_left_mono power_increasing) auto
  ultimately show ?thesis using shifted_value [OF True] by (auto simp: acceptBackoff_def Let_def)
next
  case False
  then show ?thesis using shifted_large [of "n - 1"] by (auto simp: acceptBackoff_def Let_def)
qed

theorem acceptBackoff_exact_witness: "acceptBackoff 3 = 20000000 \<and> acceptBackoff 100 = 1000000000"
  using acceptBackoff_exact [of 3] acceptBackoff_exact [of 100] by simp

end
