(* ===== verification/TunnelBackoff.thy ===== *)
theory TunnelBackoff
  imports TunnelSupervisor
begin

text \<open>
  The restart delays of the supervisor (internal/tunnel/backoff.go): bounds under any rounding, and their exact value without jitter.
\<close>

section \<open>Restart delays\<close>

lemma to_int64_bounds: "0 \<le> x \<Longrightarrow> x \<le> of_int n \<Longrightarrow> n < 2 ^ 63 \<Longrightarrow> 0 \<le> to_int64 x \<and> to_int64 x \<le> n"
  using floor_mono [of x "of_int n"] by (simp add: to_int64_def Let_def)

lemma to_int64_int: "0 \<le> n \<Longrightarrow> n < 2 ^ 63 \<Longrightarrow> to_int64 (of_int n) = n"
  by (simp add: to_int64_def Let_def)

lemma rounds_ge: "rounds fl \<Longrightarrow> of_int n \<le> x \<Longrightarrow> \<bar>n\<bar> \<le> 2 ^ 53 \<Longrightarrow> of_int n \<le> fl x"
  unfolding rounds_def by (metis monoD)

lemma rounds_unit: "rounds fl \<Longrightarrow> x \<le> 1 \<Longrightarrow> fl x \<le> 1"
  using rounds_le [of fl x 1] by simp

lemma rounds_nonneg: "rounds fl \<Longrightarrow> 0 \<le> x \<Longrightarrow> 0 \<le> fl x"
  using rounds_ge [of fl 0 x] by simp

lemma bo_max_pos: "0 < bo_max b" "0 < bo_base b"
  by (simp_all add: bo_max_def bo_base_def)

text \<open>The delay before jitter, and what jitter adds to it.\<close>

definition raw_delay :: "(rat \<Rightarrow> rat) \<Rightarrow> (rat \<Rightarrow> nat \<Rightarrow> rat) \<Rightarrow> Backoff \<Rightarrow> rat" where
  "raw_delay fl pow b = min (fl (fl (of_int (bo_base b)) * pow (bo_factor b) (bo_attempt b))) (fl (of_int (bo_max b)))"

lemma raw_delay_bounds:
  assumes "rounds fl" "0 \<le> pow (bo_factor b) (bo_attempt b)" "bo_max b \<le> 2 ^ 52"
  shows "0 \<le> raw_delay fl pow b" "raw_delay fl pow b \<le> of_int (bo_max b)"
proof -
  have "fl (of_int (bo_max b)) = of_int (bo_max b)" using assms(1,3) bo_max_pos(1) [of b] by (simp add: rounds_def)
  then show "0 \<le> raw_delay fl pow b" "raw_delay fl pow b \<le> of_int (bo_max b)"
    using assms(2) bo_max_pos [of b] rounds_nonneg [OF assms(1)] by (simp_all add: raw_delay_def)
qed

lemma jitter_bound:
  assumes "rounds fl" "rnd < 1" "0 \<le> q" "q \<le> 1" "0 \<le> d"
  shows "fl (fl (fl (rnd * 2) - 1) * q) * d \<le> d"
proof -
  have "fl (rnd * 2) \<le> 2" using rounds_le [OF assms(1), of "rnd * 2" 2] assms(2) by simp
  then have "fl (fl (rnd * 2) - 1) \<le> 1" by (intro rounds_unit [OF assms(1)]) simp
  then have "fl (fl (rnd * 2) - 1) * q \<le> 1" using assms(3,4) mult_right_mono [of "fl (fl (rnd * 2) - 1)" 1 q] by simp
  then have "fl (fl (fl (rnd * 2) - 1) * q) \<le> 1" by (rule rounds_unit [OF assms(1)])
  then show ?thesis using assms(5) mult_right_mono [of "fl (fl (fl (rnd * 2) - 1) * q)" 1 d] by simp
qed

lemma Next_eq:
  "snd (Next fl pow rnd b) =
     min (to_int64 (if bo_Jitter b > 0
       then max 0 (fl (raw_delay fl pow b + fl (fl (fl (fl (rnd * 2) - 1) * min (bo_Jitter b) 1) * raw_delay fl pow b)))
       else raw_delay fl pow b)) (bo_max b)"
  by (auto simp: Next_def raw_delay_def Let_def min_def max_def)

text \<open>
  The delay before a restart. It is never negative and never above the maximum, whatever the attempt, the jitter and the
  rounding. Without jitter it is the base doubled with every attempt, cut at the maximum, exactly.
\<close>

theorem restart_delay:
  assumes "rounds fl" "\<And>f n. 0 \<le> pow f n" "rnd < 1" "bo_max b \<le> 2 ^ 52"
  shows "0 \<le> snd (Next fl pow rnd b) \<and> snd (Next fl pow rnd b) \<le> bo_max b \<and>
    (bo_Jitter b \<le> 0 \<and> bo_base b \<le> 2 ^ 53 \<and> pow (bo_factor b) (bo_attempt b) = 2 ^ bo_attempt b \<longrightarrow>
      snd (Next fl pow rnd b) = min (bo_base b * 2 ^ bo_attempt b) (bo_max b))"
proof (intro conjI impI)
  let ?d = "raw_delay fl pow b"
  have d: "0 \<le> ?d" "?d \<le> of_int (bo_max b)" using raw_delay_bounds [OF assms(1) _ assms(4), of pow] assms(2) by blast+
  have "?d + fl (fl (fl (fl (rnd * 2) - 1) * min (bo_Jitter b) 1) * ?d) \<le> of_int (2 ^ 53)" if "bo_Jitter b > 0"
  proof -
    have "fl (fl (fl (rnd * 2) - 1) * min (bo_Jitter b) 1) * ?d \<le> of_int (bo_max b)"
      using jitter_bound [OF assms(1,3) _ _ d(1), of "min (bo_Jitter b) 1"] that d(2) by simp
    then have "fl (fl (fl (fl (rnd * 2) - 1) * min (bo_Jitter b) 1) * ?d) \<le> of_int (bo_max b)"
      by (rule rounds_le [OF assms(1)]) (use assms(4) bo_max_pos(1) [of b] in simp)
    then have "?d + fl (fl (fl (fl (rnd * 2) - 1) * min (bo_Jitter b) 1) * ?d) \<le> of_int (2 * bo_max b)" using d(2) by simp
    also have "of_int (2 * bo_max b) \<le> (of_int (2 ^ 53) :: rat)" using assms(4) by (subst of_int_le_iff) simp
    finally show ?thesis .
  qed
  then have "fl (?d + fl (fl (fl (fl (rnd * 2) - 1) * min (bo_Jitter b) 1) * ?d)) \<le> of_int (2 ^ 53)" if "bo_Jitter b > 0"
    using that by (intro rounds_le [OF assms(1)]) simp_all
  moreover have "?d \<le> of_int (2 ^ 53)"
    by (rule order_trans [OF d(2)]) (subst of_int_le_iff, use assms(4) in simp)
  ultimately show "0 \<le> snd (Next fl pow rnd b)" "snd (Next fl pow rnd b) \<le> bo_max b"
    using d(1) bo_max_pos(1) [of b] to_int64_bounds [of _ "2 ^ 53"] unfolding Next_eq by (auto simp: min_def)
  assume *: "bo_Jitter b \<le> 0 \<and> bo_base b \<le> 2 ^ 53 \<and> pow (bo_factor b) (bo_attempt b) = 2 ^ bo_attempt b"
  have m: "fl (of_int (bo_max b)) = of_int (bo_max b)" "fl (of_int (bo_base b)) = of_int (bo_base b)"
    using assms(1,4) bo_max_pos [of b] * by (simp_all add: rounds_def)
  have "?d = of_int (min (bo_base b * 2 ^ bo_attempt b) (bo_max b))"
  proof (cases "bo_base b * 2 ^ bo_attempt b \<le> 2 ^ 53")
    case True
    then have "fl (of_int (bo_base b * 2 ^ bo_attempt b)) = of_int (bo_base b * 2 ^ bo_attempt b)"
      using assms(1) bo_max_pos(2) [of b] unfolding rounds_def by (metis abs_of_nonneg less_imp_le zero_le_mult_iff zero_le_numeral zero_le_power)
    then show ?thesis using * m by (simp add: raw_delay_def of_int_min)
  next
    case False
    have "of_int (2 ^ 53) \<le> fl (of_int (bo_base b * 2 ^ bo_attempt b))"
      by (rule rounds_ge [OF assms(1)]) (subst of_int_le_iff, use False in simp, simp)
    moreover have "(of_int (bo_max b) :: rat) \<le> of_int (2 ^ 53)" by (subst of_int_le_iff) (use assms(4) in simp)
    ultimately show ?thesis using * m False assms(4) by (simp add: raw_delay_def of_int_min min_def)
  qed
  then show "snd (Next fl pow rnd b) = min (bo_base b * 2 ^ bo_attempt b) (bo_max b)"
    using * assms(4) bo_max_pos [of b] by (simp add: Next_eq) (subst to_int64_int, auto)
qed


definition example_backoff :: Backoff where
  "example_backoff = \<lparr>bo_Base = 1000000000, bo_Max = 30000000000, bo_Factor = 2, bo_Jitter = 0, bo_attempt = 3\<rparr>"

theorem restart_delay_witness: "snd (Next (\<lambda>x. x) (\<lambda>f n. 2 ^ n) (1 / 2) example_backoff) = 8000000000"
proof -
  have "rounds (\<lambda>x. x)" by (simp add: rounds_def mono_def)
  moreover have "bo_max example_backoff \<le> 2 ^ 52" by (simp add: example_backoff_def bo_max_def)
  ultimately show ?thesis using restart_delay [of "\<lambda>x. x" "\<lambda>f n. 2 ^ n" "1 / 2" example_backoff]
    by (simp add: example_backoff_def bo_max_def bo_base_def)
qed

end
