(* ===== verification/DaemonSupervise.thy ===== *)
theory DaemonSupervise
  imports DaemonControl TunnelBackoff
begin

text \<open>
  The supervision of a child of the daemon (internal/daemon/supervise.go): its loop as a transition system, and how often it starts its child.
\<close>

section \<open>internal/daemon/supervise.go\<close>

definition SupRunning :: string where "SupRunning = ''running''"
definition SupRestarting :: string where "SupRestarting = ''restarting''"
definition SupDegraded :: string where "SupDegraded = ''degraded''"
definition SupStopped :: string where "SupStopped = ''stopped''"

lemmas child_state_defs = SupRunning_def SupRestarting_def SupDegraded_def SupStopped_def

record RestartPolicy =
  rp_Base :: duration
  rp_Max :: duration
  rp_Factor :: rat
  rp_MaxConsecutive :: int

definition policy_delay :: "(rat \<Rightarrow> rat) \<Rightarrow> (rat \<Rightarrow> nat \<Rightarrow> rat) \<Rightarrow> RestartPolicy \<Rightarrow> nat \<Rightarrow> duration" where
  "policy_delay fl pow p attempt =
     (let base = (if rp_Base p \<le> 0 then 1000000000 else rp_Base p);
          factor = (if rp_Factor p \<le> 1 then 2 else rp_Factor p);
          top = (if rp_Max p \<le> 0 then 30000000000 else rp_Max p);
          d = fl (fl (of_int base) * pow factor attempt);
          d = (if d > fl (of_int top) then fl (of_int top) else d)
      in to_int64 d)"

text \<open>
  The places the loop of \<open>Run\<close> can be at: its head; the select of \<open>awaitExit\<close>; after \<open>stopChild\<close>, waiting for the child; before
  \<open>giveUpOrWait\<close>; asleep; returned. The calls it has made of the child are kept, oldest first.
\<close>

datatype child_pc = ChTop | ChRunning | ChStopping | ChFailed "string option" | ChSleeping | ChExited

datatype child_call = CallStart | CallStop

record ChildSupervisor =
  chs_policy :: RestartPolicy
  chs_state :: string
  chs_err :: "string option"
  chs_stopCh :: bool
  chs_doneCh :: bool
  chs_ctx :: bool
  chs_consecutive :: int
  chs_pc :: child_pc
  chs_calls :: "child_call list"

definition NewChildSupervisor :: "RestartPolicy \<Rightarrow> ChildSupervisor" where
  "NewChildSupervisor p = \<lparr>chs_policy = p, chs_state = SupStopped, chs_err = None, chs_stopCh = False, chs_doneCh = False, chs_ctx = False,
     chs_consecutive = 0, chs_pc = ChTop, chs_calls = []\<rparr>"

definition shouldStop :: "ChildSupervisor \<Rightarrow> bool" where
  "shouldStop s \<longleftrightarrow> chs_stopCh s \<or> chs_ctx s"

definition chs_set :: "string \<Rightarrow> string option \<Rightarrow> ChildSupervisor \<Rightarrow> ChildSupervisor" where
  "chs_set st err s = (case err of None \<Rightarrow> s\<lparr>chs_state := st\<rparr> | Some e \<Rightarrow> s\<lparr>chs_state := st, chs_err := Some e\<rparr>)"

definition chs_return :: "ChildSupervisor \<Rightarrow> ChildSupervisor" where
  "chs_return s = s\<lparr>chs_doneCh := True, chs_pc := ChExited\<rparr>"

definition giveUpOrWait :: "string option \<Rightarrow> ChildSupervisor \<Rightarrow> ChildSupervisor" where
  "giveUpOrWait err s =
     (if shouldStop s then chs_return (chs_set SupStopped None s)
      else let s = s\<lparr>chs_consecutive := chs_consecutive s + 1\<rparr> in
        if rp_MaxConsecutive (chs_policy s) > 0 \<and> chs_consecutive s \<ge> rp_MaxConsecutive (chs_policy s)
        then chs_return (chs_set SupDegraded err s)
        else s\<lparr>chs_pc := ChSleeping\<rparr>)"

text \<open>
  The child may fail to start, and its \<open>Wait\<close> may return at any time, with an error or without one; \<open>cancelled\<close> is the case that the error
  is \<open>context.Canceled\<close>, which the loop takes for a deliberate stop.
\<close>

inductive child_step :: "ChildSupervisor \<Rightarrow> ChildSupervisor \<Rightarrow> bool" where
  ch_stops: "chs_pc s = ChTop \<Longrightarrow> shouldStop s \<Longrightarrow> child_step s (chs_return (chs_set SupStopped None s))"
| ch_start_fails: "chs_pc s = ChTop \<Longrightarrow> \<not> shouldStop s \<Longrightarrow>
    child_step s (chs_set SupRestarting (Some e) s\<lparr>chs_calls := chs_calls s @ [CallStart], chs_pc := ChFailed (Some e)\<rparr>)"
| ch_starts: "chs_pc s = ChTop \<Longrightarrow> \<not> shouldStop s \<Longrightarrow>
    child_step s (chs_set SupRunning None s\<lparr>chs_calls := chs_calls s @ [CallStart], chs_pc := ChRunning\<rparr>)"
| ch_cancelled: "chs_pc s = ChRunning \<Longrightarrow> child_step s (chs_return (chs_set SupStopped None s))"
| ch_ends_stopping: "chs_pc s = ChRunning \<Longrightarrow> shouldStop s \<Longrightarrow> child_step s (chs_return (chs_set SupStopped None s))"
| ch_ends: "chs_pc s = ChRunning \<Longrightarrow> \<not> shouldStop s \<Longrightarrow> child_step s (chs_set SupRestarting err s\<lparr>chs_pc := ChFailed err\<rparr>)"
| ch_asked: "chs_pc s = ChRunning \<Longrightarrow> shouldStop s \<Longrightarrow> child_step s (s\<lparr>chs_calls := chs_calls s @ [CallStop], chs_pc := ChStopping\<rparr>)"
| ch_stopped: "chs_pc s = ChStopping \<Longrightarrow> child_step s (chs_return (chs_set SupStopped None s))"
| ch_counts: "chs_pc s = ChFailed err \<Longrightarrow> child_step s (giveUpOrWait err s)"
| ch_slept: "chs_pc s = ChSleeping \<Longrightarrow> child_step s (s\<lparr>chs_pc := ChTop\<rparr>)"

inductive child_run_steps :: "ChildSupervisor \<Rightarrow> nat \<Rightarrow> ChildSupervisor \<Rightarrow> bool" for s where
  chr_here: "child_run_steps s 0 s"
| chr_step: "child_run_steps s n t \<Longrightarrow> child_step t u \<Longrightarrow> child_run_steps s (Suc n) u"
| chr_stop: "child_run_steps s n t \<Longrightarrow> child_run_steps s n (t\<lparr>chs_stopCh := True\<rparr>)"
| chr_cancel: "child_run_steps s n t \<Longrightarrow> child_run_steps s n (t\<lparr>chs_ctx := True\<rparr>)"

section \<open>The delays agree with those of the tunnel\<close>

lemma policy_delay_eq:
  "policy_delay fl pow p attempt =
     to_int64 (raw_delay fl pow \<lparr>bo_Base = rp_Base p, bo_Max = rp_Max p, bo_Factor = rp_Factor p, bo_Jitter = 0, bo_attempt = attempt\<rparr>)"
  by (simp add: policy_delay_def raw_delay_def bo_base_def bo_factor_def bo_max_def Let_def min_def not_less)

lemma policy_delay_Next:
  assumes "rounds fl" "0 \<le> pow (if rp_Factor p \<le> 1 then 2 else rp_Factor p) attempt" "rp_Max p \<le> 2 ^ 52"
  shows "policy_delay fl pow p attempt =
    snd (Next fl pow rnd \<lparr>bo_Base = rp_Base p, bo_Max = rp_Max p, bo_Factor = rp_Factor p, bo_Jitter = 0, bo_attempt = attempt\<rparr>)"
proof -
  let ?b = "\<lparr>bo_Base = rp_Base p, bo_Max = rp_Max p, bo_Factor = rp_Factor p, bo_Jitter = 0, bo_attempt = attempt\<rparr>"
  have m: "bo_max ?b \<le> 2 ^ 52" using assms(3) by (simp add: bo_max_def)
  have "0 \<le> pow (bo_factor ?b) (bo_attempt ?b)" using assms(2) by (auto simp: bo_factor_def split: if_splits)
  from raw_delay_bounds [of fl pow ?b, OF assms(1) this m] have "to_int64 (raw_delay fl pow ?b) \<le> bo_max ?b" using m to_int64_bounds by force
  then show ?thesis by (simp add: Next_eq policy_delay_eq)
qed

section \<open>How often a child is started\<close>

fun child_place :: "child_pc \<Rightarrow> nat" where
  "child_place ChTop = 4"
| "child_place ChRunning = 3"
| "child_place ChStopping = 1"
| "child_place (ChFailed err) = 2"
| "child_place ChSleeping = 5"
| "child_place ChExited = 0"

lemmas chs_defs = chs_return_def giveUpOrWait_def shouldStop_def

lemma chs_set_simps [simp]:
  "chs_policy (chs_set st e s) = chs_policy s" "chs_stopCh (chs_set st e s) = chs_stopCh s" "chs_doneCh (chs_set st e s) = chs_doneCh s"
  "chs_ctx (chs_set st e s) = chs_ctx s" "chs_consecutive (chs_set st e s) = chs_consecutive s" "chs_pc (chs_set st e s) = chs_pc s"
  "chs_calls (chs_set st e s) = chs_calls s" "chs_state (chs_set st e s) = st"
  by (simp_all add: chs_set_def split: option.split)

definition start_count :: "ChildSupervisor \<Rightarrow> int" where
  "start_count s = int (length (filter (\<lambda>c. c = CallStart) (chs_calls s)))"

text \<open>Started once more than failures were counted while it is being started, runs or has failed, and never more often than the limit.\<close>

definition chs_inv :: "RestartPolicy \<Rightarrow> ChildSupervisor \<Rightarrow> bool" where
  "chs_inv p s \<longleftrightarrow> chs_policy s = p \<and> 0 \<le> chs_consecutive s \<and> chs_doneCh s = (chs_pc s = ChExited) \<and>
     (chs_pc s \<noteq> ChExited \<longrightarrow> start_count s = chs_consecutive s + (if chs_pc s = ChTop \<or> chs_pc s = ChSleeping then 0 else 1)) \<and>
     (rp_MaxConsecutive p > 0 \<longrightarrow> start_count s \<le> rp_MaxConsecutive p \<and> chs_consecutive s \<le> rp_MaxConsecutive p \<and> (chs_pc s \<noteq> ChExited \<longrightarrow> chs_consecutive s < rp_MaxConsecutive p))"

lemma child_step_inv:
  assumes "child_step s t" "chs_inv p s" shows "chs_inv p t"
  using assms(1)
  by (cases rule: child_step.cases) (use assms(2) in \<open>auto simp: chs_defs chs_inv_def start_count_def Let_def split: if_splits\<close>)

lemma child_step_place:
  assumes "child_step s t"
  shows "chs_consecutive t = chs_consecutive s \<and> child_place (chs_pc t) < child_place (chs_pc s) \<or> chs_consecutive t = chs_consecutive s + 1 \<and> child_place (chs_pc t) \<le> 5"
  using assms by (cases rule: child_step.cases) (simp_all add: chs_defs Let_def)

lemma child_step_policy:
  assumes "child_step s t" shows "chs_policy t = chs_policy s"
  using assms by (cases rule: child_step.cases) (simp_all add: chs_defs Let_def)

lemma child_step_stop:
  assumes "child_step s t" "shouldStop s" shows "shouldStop t \<and> child_place (chs_pc t) < child_place (chs_pc s)"
  using assms(1) by (cases rule: child_step.cases) (use assms(2) in \<open>simp_all add: chs_defs Let_def\<close>)

lemma child_run_inv: "child_run_steps s n t \<Longrightarrow> chs_inv p s \<Longrightarrow> chs_inv p t"
proof (induction rule: child_run_steps.induct)
  case (chr_step n t u)
  then show ?case using child_step_inv by blast
qed (auto simp: chs_inv_def start_count_def)

definition child_work :: "ChildSupervisor \<Rightarrow> int" where
  "child_work s = 6 * (rp_MaxConsecutive (chs_policy s) - chs_consecutive s) + int (child_place (chs_pc s))"

lemma child_run_work: "child_run_steps s n t \<Longrightarrow> int n + child_work t \<le> child_work s"
proof (induction rule: child_run_steps.induct)
  case (chr_step n t u)
  have "child_work u < child_work t" using child_step_place [OF chr_step(2)] child_step_policy [OF chr_step(2)] by (auto simp: child_work_def)
  then show ?case using chr_step by simp
qed (simp_all add: child_work_def)

lemma child_not_stuck: "chs_pc s \<noteq> ChExited \<Longrightarrow> \<exists>t. child_step s t"
proof (cases "chs_pc s")
  case ChTop
  then show ?thesis using child_step.ch_stops [OF ChTop] child_step.ch_starts [OF ChTop] by blast
qed (blast intro: child_step.intros)+

lemma NewChildSupervisor_inv: "chs_inv p (NewChildSupervisor p)"
  by (simp add: NewChildSupervisor_def chs_inv_def start_count_def)

text \<open>
  A supervised child is started a bounded number of times. With a positive limit the loop starts its child at most that often in
  its whole life and makes at most six steps per start and four more, so it ends, whatever the child does; the limit one of the tunnel means a single start. The
  loop is never stuck: it has returned, or a step is possible.
\<close>

theorem child_starts_bounded:
  assumes "child_run_steps (NewChildSupervisor p) n s" "0 < rp_MaxConsecutive p"
  shows "start_count s \<le> rp_MaxConsecutive p \<and> int n \<le> 6 * rp_MaxConsecutive p + 4 \<and> (chs_doneCh s \<or> (\<exists>t. child_step s t))"
proof -
  have i: "chs_inv p s" by (rule child_run_inv [OF assms(1) NewChildSupervisor_inv])
  have "child_work (NewChildSupervisor p) = 6 * rp_MaxConsecutive p + 4" by (simp add: child_work_def NewChildSupervisor_def)
  moreover have "0 \<le> child_work s" using i assms(2) by (simp add: chs_inv_def child_work_def)
  ultimately have n: "int n \<le> 6 * rp_MaxConsecutive p + 4" using child_run_work [OF assms(1)] by linarith
  have d: "chs_doneCh s \<or> (\<exists>t. child_step s t)" using i child_not_stuck [of s] by (auto simp: chs_inv_def)
  show ?thesis using i assms(2) n d by (simp add: chs_inv_def)
qed

text \<open>
  Stopping: from a request on every step brings the loop closer to its end, so at most five more are made; it may have to wait for the child
  in between.
\<close>

lemma child_run_stop:
  assumes "child_run_steps s n t" "shouldStop s"
  shows "shouldStop t \<and> n + child_place (chs_pc t) \<le> child_place (chs_pc s)"
  using assms(1)
proof (induction rule: child_run_steps.induct)
  case (chr_step n t u)
  then show ?case using child_step_stop [OF chr_step(2)] by auto
qed (use assms(2) in \<open>auto simp: shouldStop_def\<close>)

text \<open>The policy of the tunnel child.\<close>

definition tunnel_policy :: RestartPolicy where
  "tunnel_policy = \<lparr>rp_Base = 0, rp_Max = 0, rp_Factor = 0, rp_MaxConsecutive = 1\<rparr>"

theorem child_starts_bounded_witness:
  "\<exists>s. child_run_steps (NewChildSupervisor tunnel_policy) 3 s \<and> chs_state s = ''degraded'' \<and> start_count s \<le> 1"
proof -
  define a where "a = NewChildSupervisor tunnel_policy"
  define b where "b = chs_set SupRunning None a\<lparr>chs_calls := chs_calls a @ [CallStart], chs_pc := ChRunning\<rparr>"
  define c where "c = chs_set SupRestarting None b\<lparr>chs_pc := ChFailed None\<rparr>"
  define d where "d = giveUpOrWait None c"
  have 1: "child_step a b" unfolding b_def by (rule child_step.ch_starts) (simp_all add: a_def NewChildSupervisor_def shouldStop_def)
  have 2: "child_step b c" unfolding c_def by (rule child_step.ch_ends) (simp_all add: b_def a_def NewChildSupervisor_def shouldStop_def)
  have 3: "child_step c d" unfolding d_def by (rule child_step.ch_counts) (simp add: c_def)
  have r: "child_run_steps a (Suc (Suc (Suc 0))) d" by (rule chr_step [OF chr_step [OF chr_step [OF chr_here 1] 2] 3])
  have "chs_state d = ''degraded''"
    by (simp add: d_def c_def b_def a_def giveUpOrWait_def shouldStop_def NewChildSupervisor_def tunnel_policy_def chs_return_def Let_def SupDegraded_def)
  moreover have "start_count d \<le> rp_MaxConsecutive tunnel_policy"
    using child_starts_bounded [OF r [unfolded a_def]] by (simp add: tunnel_policy_def)
  ultimately show ?thesis using r by (intro exI [of _ d]) (simp add: a_def tunnel_policy_def numeral_3_eq_3)
qed

end
