(* ===== verification/DaemonCore.thy ===== *)
theory DaemonCore
  imports DaemonSupervise
begin

text \<open>
  The daemon (internal/daemon/daemon.go): its probes, its status and its health, with the probes the relay registers (internal/integration/stack.go),
  and when a client that looks for a running daemon finds it.
\<close>

section \<open>internal/daemon/daemon.go\<close>

text \<open>
  The probes are known by their names; what one answers, and how long it takes, is an argument of the operation that asks it. The
  handlers of the control socket, the pairing and the count of the clients are present or not.
\<close>

record Daemon =
  dm_StateDir :: string
  dm_Runtime :: daemon_Runtime
  dm_Probes :: "string list"
  dm_Pairing :: bool
  dm_health :: string
  dm_children :: "ChildSupervisor list"

definition daemon_New :: "string \<Rightarrow> daemon_Runtime \<Rightarrow> bool \<Rightarrow> Daemon" where
  "daemon_New stateDir rt pairing = \<lparr>dm_StateDir = stateDir, dm_Runtime = rt, dm_Probes = [], dm_Pairing = pairing,
     dm_health = (if rt_Health rt = [] then HealthStarting else rt_Health rt), dm_children = []\<rparr>"

definition AddChild :: "ChildSupervisor \<Rightarrow> Daemon \<Rightarrow> Daemon" where
  "AddChild cs d = d\<lparr>dm_children := dm_children d @ [cs]\<rparr>"

definition AddProbe :: "string \<Rightarrow> Daemon \<Rightarrow> Daemon" where
  "AddProbe name d = (if name \<in> set (dm_Probes d) then d else d\<lparr>dm_Probes := dm_Probes d @ [name]\<rparr>)"

definition AddTunnel :: "Daemon \<Rightarrow> Daemon" where
  "AddTunnel d = AddProbe TunnelChild_Name (AddChild (NewChildSupervisor tunnel_policy) d)"

type_synonym probe_answers = "string \<Rightarrow> duration \<times> bool \<times> string"

definition probeComponents :: "probe_answers \<Rightarrow> Daemon \<Rightarrow> ComponentStatus list" where
  "probeComponents ask d = map (\<lambda>n. case ask n of (t, ready, detail) \<Rightarrow> \<lparr>cst_Name = n, cst_Ready = ready, cst_Detail = detail\<rparr>) (sort (dm_Probes d))"

text \<open>The probes are asked one after the other.\<close>

definition probe_time :: "probe_answers \<Rightarrow> Daemon \<Rightarrow> duration" where
  "probe_time ask d = sum_list (map (\<lambda>n. fst (ask n)) (sort (dm_Probes d)))"

definition setHealth :: "string \<Rightarrow> Daemon \<Rightarrow> Daemon" where "setHealth h d = d\<lparr>dm_health := h\<rparr>"

definition reconcileHealth :: "bool \<Rightarrow> Daemon \<Rightarrow> Daemon" where
  "reconcileHealth allReady d =
     (if dm_health d = HealthStopping then d else setHealth (if allReady then HealthReady else HealthDegraded) d)"

definition handleStatus :: "probe_answers \<Rightarrow> int option \<Rightarrow> Daemon \<Rightarrow> Daemon \<times> StatusResult" where
  "handleStatus ask clients d =
     (let components = probeComponents ask d; allReady = (components \<noteq> [] \<and> list_all cst_Ready components);
          d = reconcileHealth allReady d; rt = dm_Runtime d
      in (d, \<lparr>st_Health = dm_health d, st_Mode = rt_Mode rt, st_PublicURL = rt_PublicURL rt, st_LocalAddr = rt_LocalAddr rt,
            st_Version = rt_Version rt, st_InstanceID = rt_InstanceID rt, st_PID = rt_PID rt, st_StartUnixMs = rt_StartUnixMs rt,
            st_ClientCount = (case clients of None \<Rightarrow> 0 | Some n \<Rightarrow> n), st_Components = components\<rparr>))"

definition handleRotatePairing :: "(string + PairingResult) \<Rightarrow> Daemon \<Rightarrow> string + PairingResult" where
  "handleRotatePairing rotated d = (if dm_Pairing d then rotated else Inl ''pairing rotation not configured'')"

text \<open>\<open>Shutdown\<close> marks the daemon as stopping before anything else; a stop request starts it and succeeds at once.\<close>

definition shutdown_begins :: "Daemon \<Rightarrow> Daemon" where
  "shutdown_begins d = setHealth HealthStopping d"

definition daemon_handlers :: "probe_answers \<Rightarrow> int option \<Rightarrow> (string + PairingResult) \<Rightarrow> Daemon Handlers" where
  "daemon_handlers ask clients rotated =
     \<lparr>hd_Status = Some (\<lambda>d. case handleStatus ask clients d of (d, st) \<Rightarrow> (d, Inr st)),
      hd_RotatePairing = Some (\<lambda>d. (d, handleRotatePairing rotated d)), hd_Stop = Some (\<lambda>d. (d, None))\<rparr>"

section \<open>internal/integration/stack.go: the probes\<close>

text \<open>A ping that takes longer than three seconds is given up.\<close>

definition herdrHealth :: "duration \<times> bool \<Rightarrow> duration \<times> ComponentHealth" where
  "herdrHealth ping =
     (case ping of (t, ok) \<Rightarrow>
        if t > 3000000000 then (3000000000, \<lparr>ch_Healthy = False, ch_Detail = ''unreachable''\<rparr>)
        else if \<not> ok then (t, \<lparr>ch_Healthy = False, ch_Detail = ''unreachable''\<rparr>)
        else (t, \<lparr>ch_Healthy = True, ch_Detail = ''connected''\<rparr>))"

definition stateHealth :: "Engine \<Rightarrow> ComponentHealth" where
  "stateHealth e =
     (if Current e = None then \<lparr>ch_Healthy = False, ch_Detail = ''no snapshot yet''\<rparr>
      else if lastPollErr e \<noteq> None then \<lparr>ch_Healthy = False, ch_Detail = ''poll error''\<rparr>
      else \<lparr>ch_Healthy = True, ch_Detail = ''ok''\<rparr>)"

definition stack_probes :: "string \<Rightarrow> duration \<times> bool \<Rightarrow> Engine \<Rightarrow> TunnelChild \<Rightarrow> probe_answers" where
  "stack_probes addr ping e tc name =
     (if name = ''http'' then (0, True, ''listening on '' @ addr)
      else if name = ''herdr'' then (case herdrHealth ping of (t, h) \<Rightarrow> (t, ch_Healthy h, ch_Detail h))
      else if name = ''state'' then (let h = stateHealth e in (0, ch_Healthy h, ch_Detail h))
      else (case TunnelChild_Ready tc of (ready, detail) \<Rightarrow> (0, ready, detail)))"

text \<open>The daemon as it is built: with the tunnel if the relay owns it.\<close>

definition stack_daemon :: "string \<Rightarrow> daemon_Runtime \<Rightarrow> bool \<Rightarrow> Daemon" where
  "stack_daemon stateDir rt tunnel =
     (let d = daemon_New stateDir rt True; d = (if tunnel then AddTunnel d else d)
      in AddProbe ''state'' (AddProbe ''herdr'' (AddProbe ''http'' d)))"

text \<open>What a client of the control socket gets for a status request, and when.\<close>

definition status_exchange :: "probe_answers \<Rightarrow> int option \<Rightarrow> Daemon \<Rightarrow> exchange" where
  "status_exchange ask clients d =
     Answered (probe_time ask d)
       (case control_switch (\<lambda>c. c) (daemon_handlers ask clients (Inl [])) \<lparr>cq_Command = CmdStatus, cq_RequestID = []\<rparr> d of (d, exempt, resp) \<Rightarrow> Some resp)"

section \<open>The health of the daemon\<close>

lemma stack_daemon_eq:
  "stack_daemon dir rt tunnel = \<lparr>dm_StateDir = dir, dm_Runtime = rt,
     dm_Probes = (if tunnel then [''tunnel'', ''http'', ''herdr'', ''state''] else [''http'', ''herdr'', ''state'']), dm_Pairing = True,
     dm_health = (if rt_Health rt = [] then HealthStarting else rt_Health rt), dm_children = (if tunnel then [NewChildSupervisor tunnel_policy] else [])\<rparr>"
  by (cases tunnel) (simp_all add: stack_daemon_def daemon_New_def AddTunnel_def AddProbe_def AddChild_def TunnelChild_Name_def)

lemma client_status_exchange:
  "client_Status timeout (status_exchange ask clients d) =
     (if probe_time ask d > (if timeout > 0 then timeout else controlDeadline) then Inl ReadFailed else Inr (snd (handleStatus ask clients d)))"
  by (cases "handleStatus ask clients d")
    (simp add: client_Status_def control_call_def status_exchange_def control_switch_def daemon_handlers_def CmdStatus_def no_response_def Let_def)

text \<open>Any number of requests for the status, with any answers of the probes, and the beginning of the shutdown.\<close>

datatype daemon_op = AskStatus probe_answers "int option" | BeginShutdown

fun daemon_op_step :: "daemon_op \<Rightarrow> Daemon \<Rightarrow> Daemon" where
  "daemon_op_step (AskStatus ask clients) d = fst (handleStatus ask clients d)"
| "daemon_op_step BeginShutdown d = shutdown_begins d"

lemma daemon_op_frame: "dm_Probes (daemon_op_step op d) = dm_Probes d" "dm_Runtime (daemon_op_step op d) = dm_Runtime d"
  "dm_health d = HealthStopping \<Longrightarrow> dm_health (daemon_op_step op d) = HealthStopping"
  by (cases op; simp add: handleStatus_def shutdown_begins_def reconcileHealth_def setHealth_def Let_def)+

lemma daemon_ops_frame:
  "dm_Probes (fold daemon_op_step ops d) = dm_Probes d \<and> dm_Runtime (fold daemon_op_step ops d) = dm_Runtime d \<and>
   (dm_health d = HealthStopping \<longrightarrow> dm_health (fold daemon_op_step ops d) = HealthStopping)"
  by (induction ops arbitrary: d) (auto simp: daemon_op_frame)

lemma stopping_shutdown: "BeginShutdown \<in> set ops \<Longrightarrow> dm_health (fold daemon_op_step ops d) = HealthStopping"
proof (induction ops arbitrary: d)
  case (Cons op ops)
  then show ?case using daemon_ops_frame [of ops "daemon_op_step op d"] by (auto simp: shutdown_begins_def setHealth_def)
qed simp

lemma not_stopping: "BeginShutdown \<notin> set ops \<Longrightarrow> dm_health d \<noteq> HealthStopping \<Longrightarrow> dm_health (fold daemon_op_step ops d) \<noteq> HealthStopping"
proof (induction ops arbitrary: d)
  case (Cons op ops)
  have "dm_health (daemon_op_step op d) \<noteq> HealthStopping"
    using Cons.prems by (cases op) (auto simp: handleStatus_def reconcileHealth_def setHealth_def Let_def health_defs)
  then show ?case using Cons by simp
qed simp

text \<open>
  The status of a daemon. After any requests for the status and any beginning of a shutdown the status lists every probe
  once, in the order of their names, each with its own answer; the health is stopping exactly if the shutdown has begun,
  however late the answers of the probes come, and otherwise ready exactly if every probe is ready; and the instance is the one of the runtime file.
\<close>

theorem daemon_status:
  assumes "rt_Health rt = ''starting''" "d = fold daemon_op_step ops (stack_daemon dir rt tunnel)" "handleStatus ask clients d = (d', st)"
  shows "map cst_Name (st_Components st) = (if tunnel then [''herdr'', ''http'', ''state'', ''tunnel''] else [''herdr'', ''http'', ''state'']) \<and>
    (\<forall>c \<in> set (st_Components st). (cst_Ready c, cst_Detail c) = snd (ask (cst_Name c))) \<and>
    st_Health st = (if BeginShutdown \<in> set ops then ''stopping'' else if list_all cst_Ready (st_Components st) then ''ready'' else ''degraded'') \<and>
    st_InstanceID st = rt_InstanceID rt"
proof -
  let ?d0 = "stack_daemon dir rt tunnel"
  have f: "dm_Probes d = dm_Probes ?d0" "dm_Runtime d = rt" using daemon_ops_frame [of ops ?d0] assms(2) by (simp_all add: stack_daemon_eq)
  have p: "sort (dm_Probes d) = (if tunnel then [''herdr'', ''http'', ''state'', ''tunnel''] else [''herdr'', ''http'', ''state''])"
    unfolding f(1) by (simp add: stack_daemon_eq)
  have st: "st_Components st = probeComponents ask d" "st_Health st = dm_health d'" "st_InstanceID st = rt_InstanceID rt"
    "d' = reconcileHealth (probeComponents ask d \<noteq> [] \<and> list_all cst_Ready (probeComponents ask d)) d"
    using assms(3) f(2) by (auto simp: handleStatus_def Let_def reconcileHealth_def setHealth_def)
  have c: "map cst_Name (probeComponents ask d) = sort (dm_Probes d)" by (simp add: probeComponents_def comp_def split_def)
  have "\<forall>c \<in> set (probeComponents ask d). (cst_Ready c, cst_Detail c) = snd (ask (cst_Name c))" by (auto simp: probeComponents_def split: prod.split)
  moreover have "dm_health ?d0 \<noteq> HealthStopping" using assms(1) by (simp add: stack_daemon_eq health_defs)
  then have "dm_health d = HealthStopping \<longleftrightarrow> BeginShutdown \<in> set ops" using stopping_shutdown [of ops ?d0] not_stopping [of ops ?d0] assms(2) by blast
  moreover have "probeComponents ask d \<noteq> []" using c p by (auto split: if_splits)
  ultimately show ?thesis using c p st by (auto simp: reconcileHealth_def setHealth_def health_defs)
qed


theorem daemon_status_witness:
  "st_Health (snd (handleStatus (\<lambda>n. (0, True, [])) None (fold daemon_op_step [AskStatus (\<lambda>n. (0, False, [])) None] (stack_daemon ''/s'' example_runtime True)))) = ''ready'' \<and>
   st_Health (snd (handleStatus (\<lambda>n. (0, True, [])) None (fold daemon_op_step [BeginShutdown] (stack_daemon ''/s'' example_runtime True)))) = ''stopping''"
proof -
  let ?a = "\<lambda>n :: string. (0 :: duration, True, [] :: string)"
  have r: "rt_Health example_runtime = ''starting''" by (simp add: example_runtime_def)
  have h: "st_Health (snd (handleStatus ?a None (fold daemon_op_step ops (stack_daemon ''/s'' example_runtime True)))) =
    (if BeginShutdown \<in> set ops then ''stopping'' else ''ready'')" for ops
  proof -
    obtain d st where e: "handleStatus ?a None (fold daemon_op_step ops (stack_daemon ''/s'' example_runtime True)) = (d, st)" by fastforce
    from daemon_status [OF r refl e] show ?thesis by (auto simp: e list_all_iff)
  qed
  show ?thesis using h [of "[AskStatus (\<lambda>n. (0, False, [])) None]"] h [of "[BeginShutdown]"] by simp
qed

section \<open>A daemon with a slow Herdr\<close>

lemma probe_time_stack:
  assumes "dm_Probes d = dm_Probes (stack_daemon dir rt tunnel)"
  shows "probe_time (stack_probes addr (t, ok) e tc) d = min t 3000000000"
  unfolding probe_time_def assms by (cases "TunnelChild_Ready tc") (simp add: stack_daemon_eq stack_probes_def herdrHealth_def Let_def)

text \<open>
  A live daemon is found exactly if Herdr answers fast enough. The probe of Herdr waits three seconds, the client that looks for a daemon
  two: when Herdr takes longer than two seconds to answer, a daemon that runs, holds its control socket and is named by its
  runtime file is classified as stale, which allows its files to be removed; otherwise it is found.
\<close>

theorem reconcile_timing:
  assumes "LoadRuntime file = Inr rt" "alive (rt_PID rt)" "d = fold daemon_op_step ops (stack_daemon dir rt tunnel)"
  shows "rec_Liveness (Reconcile file alive (Some True) (status_exchange (stack_probes addr (t, ok) e tc) clients d) 2000000000) =
    (if t \<le> 2000000000 then ''running'' else ''stale'')"
proof -
  have f: "dm_Probes d = dm_Probes (stack_daemon dir rt tunnel)" "dm_Runtime d = rt"
    using daemon_ops_frame [of ops "stack_daemon dir rt tunnel"] assms(3) by (simp_all add: stack_daemon_eq)
  have p: "rt_PID rt > 0" using assms(1) by (auto simp: LoadRuntime_def split: state_file.splits option.splits if_splits)
  have i: "st_InstanceID (snd (handleStatus ask clients d)) = rt_InstanceID rt" for ask
    using f(2) by (simp add: handleStatus_def Let_def reconcileHealth_def setHealth_def)
  show ?thesis using assms(1,2) p i
    by (simp add: Reconcile_def ProcessAlive_def client_status_exchange probe_time_stack [OF f(1)] reconciled_def LivenessStale_def LivenessRunning_def Let_def)
qed

theorem reconcile_timing_witness:
  "rec_Liveness (Reconcile (Text (Some (runtime_json example_runtime))) (\<lambda>p. True) (Some True)
     (status_exchange (stack_probes ''a'' (2500000000, True) example_engine (NewTunnelChild example_sup)) None (stack_daemon ''/s'' example_runtime True)) 2000000000) = ''stale''"
  using reconcile_timing [OF LoadRuntime_json [OF example_runtime_complete], of "\<lambda>p. True" "stack_daemon ''/s'' example_runtime True" "[]" "''/s''" True
      "''a''" 2500000000 True example_engine "NewTunnelChild example_sup" None] by simp

end
