(* ===== verification/DaemonHost.thy ===== *)
theory DaemonHost
  imports DaemonCore
begin

text \<open>
  Several processes and one state directory: the place of the control socket (internal/daemon/socket.go), the lock (statelock.go), the serving process and the
  clean-up (daemon.go, reconcile.go) as one transition system; what the lock protects and what it does not.
\<close>

section \<open>internal/daemon/socket.go\<close>

definition maxSocketPathLen :: nat where "maxSocketPathLen = 100"

definition ControlPath :: "string \<Rightarrow> string" where "ControlPath stateDir = Join [stateDir, ''control.sock'']"
definition RuntimePath :: "string \<Rightarrow> string" where "RuntimePath stateDir = Join [stateDir, ''runtime.json'']"

text \<open>What the operating system says about a path, and what happened to the directory in between.\<close>

record dir_info =
  di_symlink :: bool
  di_isdir :: bool
  di_uid :: int
  di_perm :: nat

datatype lstat_result = LstatFailed | LstatMissing | LstatFound dir_info
datatype mkdir_result = MkdirDone | MkdirThere | MkdirError

definition ensureSecureDir :: "int \<Rightarrow> lstat_result \<Rightarrow> mkdir_result \<Rightarrow> lstat_result \<Rightarrow> bool \<Rightarrow> lstat_result \<Rightarrow> bool" where
  "ensureSecureDir uid first mkdir created chmod_ok tightened =
     (let check = (\<lambda>fi.
            if di_symlink fi then False
            else if \<not> di_isdir fi then False
            else if di_uid fi \<noteq> uid then False
            else if di_perm fi mod 64 \<noteq> 0
            then (if \<not> chmod_ok then False else case tightened of LstatFound fi' \<Rightarrow> di_perm fi' mod 64 = 0 | _ \<Rightarrow> False)
            else True)
      in case first of
           LstatFailed \<Rightarrow> False
         | LstatMissing \<Rightarrow> (if mkdir = MkdirError then False else case created of LstatFound fi \<Rightarrow> check fi | _ \<Rightarrow> False)
         | LstatFound fi \<Rightarrow> check fi)"

text \<open>\<open>secure\<close> is the outcome of \<open>ensureSecureDir\<close> for a directory.\<close>

definition ensureUserRuntimeDir :: "string \<Rightarrow> int \<Rightarrow> (string \<Rightarrow> bool) \<Rightarrow> string option" where
  "ensureUserRuntimeDir xdg uid secure =
     (let candidates = (if xdg \<noteq> [] \<and> IsAbs xdg then [Join [xdg, ''herdr-phone'']] else []) @ [Join [''/tmp'', ''herdr-phone-'' @ int_literal uid]]
      in List.find (\<lambda>dir. secure dir \<and> length dir \<le> maxSocketPathLen - length ''/hp-000000000000.sock'') candidates)"

text \<open>\<open>digest\<close> is the hexadecimal form of the first six bytes of the SHA-256 sum, \<open>absolute\<close> the outcome of \<open>filepath.Abs\<close>.\<close>

definition SocketPath :: "(string \<Rightarrow> string) \<Rightarrow> (string \<Rightarrow> string option) \<Rightarrow> string option \<Rightarrow> string \<Rightarrow> string option" where
  "SocketPath digest absolute userDir stateDir =
     (let inState = ControlPath stateDir in
      if length inState \<le> maxSocketPathLen then Some inState
      else case userDir of
          None \<Rightarrow> None
        | Some base \<Rightarrow>
            let key = (case absolute stateDir of None \<Rightarrow> stateDir | Some a \<Rightarrow> Clean a);
                short = Join [base, ''hp-'' @ digest key @ ''.sock'']
            in if length short > maxSocketPathLen then None else Some short)"

lemma SocketPath_fits: "SocketPath digest absolute userDir stateDir = Some p \<Longrightarrow> length p \<le> 100"
  by (auto simp: SocketPath_def Let_def maxSocketPathLen_def split: if_splits option.splits)

section \<open>One state directory and the processes that use it\<close>

text \<open>
  The processes of one state directory by the instance identifier they have drawn, which no two share. A process that serves the relay starts,
  takes the lock (statelock.go), writes the runtime file and opens the control socket (\<open>Serve\<close> in daemon.go), and shuts down. The socket file is known by the
  instance that bound it. \<open>ho_cleaners\<close> counts the invocations of the command line that have found the daemon stale and have not
  cleaned up yet.
\<close>

datatype stage = PrNew | PrLocked | PrWritten | PrServing | PrStopping

record host =
  ho_file :: state_file
  ho_socket :: "string option"
  ho_lock :: "string option"
  ho_procs :: "string \<rightharpoonup> daemon_Runtime \<times> stage"
  ho_used :: "string set"
  ho_cleaners :: nat

definition empty_host :: host where
  "empty_host = \<lparr>ho_file = NoFile, ho_socket = None, ho_lock = None, ho_procs = Map.empty, ho_used = {}, ho_cleaners = 0\<rparr>"

text \<open>\<open>flock\<close> without blocking; \<open>None\<close> is \<open>ErrStateLocked\<close>.\<close>

definition AcquireStateLock :: "string \<Rightarrow> host \<Rightarrow> host option" where
  "AcquireStateLock i h = (if ho_lock h = None then Some (h\<lparr>ho_lock := Some i\<rparr>) else None)"

definition Release :: "string \<Rightarrow> host \<Rightarrow> host" where
  "Release i h = (if ho_lock h = Some i then h\<lparr>ho_lock := None\<rparr> else h)"

definition CleanupStale :: "host \<Rightarrow> host" where
  "CleanupStale h = h\<lparr>ho_file := NoFile, ho_socket := None\<rparr>"

definition to_stage :: "string \<Rightarrow> daemon_Runtime \<Rightarrow> stage \<Rightarrow> host \<Rightarrow> host" where
  "to_stage i rt st h = h\<lparr>ho_procs := (ho_procs h)(i \<mapsto> (rt, st))\<rparr>"

definition ends :: "string \<Rightarrow> host \<Rightarrow> host" where
  "ends i h = Release i (h\<lparr>ho_procs := (ho_procs h)(i := None)\<rparr>)"

definition alive_pids :: "host \<Rightarrow> int set" where
  "alive_pids h = {rt_PID rt |i rt st. ho_procs h i = Some (rt, st)}"

text \<open>Who answers on the control socket: the serving process that bound it, some time later, with its own status; otherwise nobody.\<close>

definition answers :: "host \<Rightarrow> exchange \<Rightarrow> bool" where
  "answers h ex \<longleftrightarrow>
     (case ho_socket h of
        None \<Rightarrow> ex = NoConnection
      | Some i \<Rightarrow>
          (case ho_procs h i of
             Some (rt, st) \<Rightarrow> (\<exists>ask clients d. dm_Runtime d = rt \<and> 0 \<le> probe_time ask d \<and> ex = status_exchange ask clients d)
           | None \<Rightarrow> ex = NoConnection))"

inductive host_step :: "host \<Rightarrow> host \<Rightarrow> bool" where
  spawned: "i \<notin> ho_used h \<Longrightarrow> complete_runtime rt \<Longrightarrow> rt_InstanceID rt = i \<Longrightarrow> rt_Health rt = HealthStarting \<Longrightarrow>
    host_step h (to_stage i rt PrNew (h\<lparr>ho_used := insert i (ho_used h)\<rparr>))"
| locks: "ho_procs h i = Some (rt, PrNew) \<Longrightarrow> AcquireStateLock i h = Some h' \<Longrightarrow> host_step h (to_stage i rt PrLocked h')"
| locked_out: "ho_procs h i = Some (rt, PrNew) \<Longrightarrow> AcquireStateLock i h = None \<Longrightarrow> host_step h (ends i h)"
| writes_runtime: "ho_procs h i = Some (rt, PrLocked) \<Longrightarrow>
    host_step h (to_stage i rt PrWritten (h\<lparr>ho_file := fst (WriteRuntime None rt (ho_file h))\<rparr>))"
| listens: "ho_procs h i = Some (rt, PrWritten) \<Longrightarrow> host_step h (to_stage i rt PrServing (h\<lparr>ho_socket := Some i\<rparr>))"
| marks_stopping: "ho_procs h i = Some (rt, PrServing) \<Longrightarrow>
    host_step h (to_stage i rt PrStopping (h\<lparr>ho_file := fst (UpdateRuntimeHealth fails HealthStopping (ho_file h))\<rparr>))"
| closes: "ho_procs h i = Some (rt, PrStopping) \<Longrightarrow> host_step h (ends i (h\<lparr>ho_socket := None\<rparr>))"
| dies: "ho_procs h i = Some (rt, st) \<Longrightarrow> host_step h (ends i h)"
| finds_stale: "answers h ex \<Longrightarrow> \<forall>p \<in> alive_pids h. alive p \<Longrightarrow>
    rec_Liveness (Reconcile (ho_file h) alive (Some (ho_socket h \<noteq> None)) ex 2000000000) = LivenessStale \<Longrightarrow>
    host_step h (h\<lparr>ho_cleaners := ho_cleaners h + 1\<rparr>)"
| cleans: "0 < ho_cleaners h \<Longrightarrow> host_step h (CleanupStale h\<lparr>ho_cleaners := ho_cleaners h - 1\<rparr>)"

inductive host_run :: "host \<Rightarrow> host \<Rightarrow> bool" for h where
  host_here: "host_run h h"
| host_next: "host_run h g \<Longrightarrow> host_step g g' \<Longrightarrow> host_run h g'"

section \<open>What the lock protects\<close>

definition own_file :: "daemon_Runtime \<Rightarrow> state_file \<Rightarrow> bool" where
  "own_file rt f \<longleftrightarrow> f = NoFile \<or> (\<exists>health. valid_utf8 health \<and> f = Text (Some (runtime_json (rt\<lparr>rt_Health := health\<rparr>))))"

definition proc_ok :: "host \<Rightarrow> string \<Rightarrow> daemon_Runtime \<times> stage \<Rightarrow> bool" where
  "proc_ok h i p \<longleftrightarrow> (case p of (rt, st) \<Rightarrow>
     i \<in> ho_used h \<and> complete_runtime rt \<and> rt_InstanceID rt = i \<and> (ho_lock h = Some i) = (st \<noteq> PrNew) \<and>
     (st \<in> {PrWritten, PrServing, PrStopping} \<longrightarrow> own_file rt (ho_file h)) \<and>
     (if st \<in> {PrServing, PrStopping} then ho_socket h = None \<or> ho_socket h = Some i else ho_socket h \<noteq> Some i))"

definition host_inv :: "host \<Rightarrow> bool" where
  "host_inv h \<longleftrightarrow> (\<forall>i p. ho_procs h i = Some p \<longrightarrow> proc_ok h i p) \<and> (\<forall>i. ho_lock h = Some i \<longrightarrow> ho_procs h i \<noteq> None) \<and>
     (\<forall>i. ho_socket h = Some i \<longrightarrow> i \<in> ho_used h)"

lemma host_inv_proc: "host_inv h \<Longrightarrow> ho_procs h i = Some p \<Longrightarrow> proc_ok h i p"
  unfolding host_inv_def by blast

lemma host_inv_socket: "host_inv h \<Longrightarrow> ho_socket h = Some i \<Longrightarrow> i \<in> ho_used h"
  unfolding host_inv_def by blast

lemma own_file_write: "complete_runtime rt \<Longrightarrow> own_file rt (fst (WriteRuntime None rt f))"
  by (auto simp: own_file_def WriteRuntime_def complete_runtime_def valid_runtime_def intro!: exI [of _ "rt_Health rt"])

lemma own_file_update:
  assumes "own_file rt f" "complete_runtime rt" shows "own_file rt (fst (UpdateRuntimeHealth fails HealthStopping f))"
proof (cases "f = NoFile")
  case False
  then obtain health where h: "valid_utf8 health" "f = Text (Some (runtime_json (rt\<lparr>rt_Health := health\<rparr>)))" using assms(1) by (auto simp: own_file_def)
  have "complete_runtime (rt\<lparr>rt_Health := health\<rparr>)" using assms(2) h(1) by (simp add: complete_runtime_def valid_runtime_def)
  then have "LoadRuntime f = Inr (rt\<lparr>rt_Health := health\<rparr>)" using LoadRuntime_json h(2) by simp
  moreover have "valid_utf8 HealthStopping" by (rule valid_utf8_ascii) (simp add: HealthStopping_def)
  ultimately show ?thesis using assms(1) by (auto simp: UpdateRuntimeHealth_def WriteRuntime_def own_file_def split: option.splits)
qed (simp add: UpdateRuntimeHealth_def LoadRuntime_def own_file_def)


lemmas host_defs = to_stage_def ends_def Release_def AcquireStateLock_def CleanupStale_def

lemma ends_simps [simp]:
  "ho_file (ends i h) = ho_file h" "ho_socket (ends i h) = ho_socket h" "ho_procs (ends i h) = (ho_procs h)(i := None)"
  "ho_used (ends i h) = ho_used h" "ho_cleaners (ends i h) = ho_cleaners h"
  "ho_lock (ends i h) = (if ho_lock h = Some i then None else ho_lock h)"
  by (simp_all add: ends_def Release_def)

text \<open>A step of one process on the host keeps what is required of the others if it leaves their files alone.\<close>

lemma host_invI:
  assumes "host_inv h" "ho_procs h' = (ho_procs h)(i := p)" "ho_used h \<subseteq> ho_used h'" "\<forall>j. j \<noteq> i \<longrightarrow> (ho_lock h' = Some j) = (ho_lock h = Some j)"
    "\<forall>j q. j \<noteq> i \<and> ho_procs h j = Some q \<longrightarrow> ho_file h' = ho_file h \<or> ho_file h' = NoFile \<or> snd q \<in> {PrNew, PrLocked}"
    "\<forall>j q. j \<noteq> i \<and> ho_procs h j = Some q \<longrightarrow> ho_socket h' = ho_socket h \<or> ho_socket h' = None \<or> snd q \<notin> {PrServing, PrStopping}"
    "ho_socket h' = ho_socket h \<or> ho_socket h' = None \<or> ho_socket h' = Some i"
    "\<forall>q. p = Some q \<longrightarrow> proc_ok h' i q" "ho_lock h' = Some i \<longrightarrow> p \<noteq> None" "ho_socket h' = Some i \<longrightarrow> i \<in> ho_used h'"
  shows "host_inv h'"
proof -
  have "proc_ok h' j q" if "ho_procs h' j = Some q" for j q
  proof (cases "j = i")
    case False
    then have q: "ho_procs h j = Some q" using that assms(2) by simp
    then have ok: "proc_ok h j q" by (rule host_inv_proc [OF assms(1)])
    obtain rt st where rs: "q = (rt, st)" by fastforce
    have f: "ho_file h' = ho_file h \<or> ho_file h' = NoFile \<or> st \<in> {PrNew, PrLocked}" using assms(5) [rule_format, of j q] False q by (simp add: rs)
    have k: "ho_socket h' = ho_socket h \<or> ho_socket h' = None \<or> st \<notin> {PrServing, PrStopping}" using assms(6) [rule_format, of j q] False q by (simp add: rs)
    have "own_file rt (ho_file h')" if "st \<in> {PrWritten, PrServing, PrStopping}"
    proof (cases "ho_file h' = NoFile")
      case False
      then have "ho_file h' = ho_file h" using f that by auto
      then show ?thesis using ok that by (auto simp: proc_ok_def rs)
    qed (simp add: own_file_def)
    moreover have "if st \<in> {PrServing, PrStopping} then ho_socket h' = None \<or> ho_socket h' = Some j else ho_socket h' \<noteq> Some j"
      using ok k assms(7) False by (cases "st \<in> {PrServing, PrStopping}") (auto simp: proc_ok_def rs)
    ultimately show ?thesis using ok assms(3,4) False by (simp add: proc_ok_def rs subset_iff)
  qed (use that assms(2,8) in simp)
  moreover have "ho_procs h' j \<noteq> None" if "ho_lock h' = Some j" for j
    using assms(1,2,4,9) that by (cases "j = i") (auto simp: host_inv_def)
  moreover have "j \<in> ho_used h'" if "ho_socket h' = Some j" for j
    using assms(1,3,7,10) that by (cases "j = i") (auto simp: host_inv_def)
  ultimately show ?thesis by (simp add: host_inv_def)
qed

lemma only_holder:
  assumes "host_inv h" "ho_procs h j = Some q" "snd q \<noteq> PrNew" "ho_procs h i = Some p" "snd p \<noteq> PrNew" shows "i = j"
  using host_inv_proc [OF assms(1,2)] host_inv_proc [OF assms(1,4)] assms(3,5) by (cases p; cases q) (simp add: proc_ok_def)

lemma holder_alone:
  assumes "host_inv h" "ho_procs h j = Some q" "ho_procs h i = Some p" "snd p \<noteq> PrNew" "j \<noteq> i" shows "snd q = PrNew"
  using only_holder [OF assms(1,2) _ assms(3,4)] assms(5) by blast

lemma host_step_inv:
  assumes "host_step h h'" "host_inv h" shows "host_inv h'"
  using assms(1)
proof (cases rule: host_step.cases)
  case (spawned i rt)
  have n: "ho_procs h i = None" "ho_socket h \<noteq> Some i" "ho_lock h \<noteq> Some i"
    using assms(2) spawned(2) host_inv_proc [OF assms(2), of i] host_inv_socket [OF assms(2), of i]
    by (cases "ho_procs h i"; auto simp: host_inv_def proc_ok_def)+
  show ?thesis by (rule host_invI [OF assms(2), of _ i "Some (rt, PrNew)"]) (use spawned n in \<open>auto simp: to_stage_def proc_ok_def\<close>)
next
  case (locks i rt g)
  then have g: "g = h\<lparr>ho_lock := Some i\<rparr>" "ho_lock h = None" by (auto simp: AcquireStateLock_def split: if_splits)
  have ok: "proc_ok h i (rt, PrNew)" by (rule host_inv_proc [OF assms(2) locks(2)])
  show ?thesis by (rule host_invI [OF assms(2), of _ i "Some (rt, PrLocked)"]) (use locks g ok in \<open>auto simp: to_stage_def proc_ok_def\<close>)
next
  case (locked_out i rt)
  show ?thesis by (rule host_invI [OF assms(2), of _ i None]) (use locked_out host_inv_socket [OF assms(2)] in \<open>auto\<close>)
next
  case (writes_runtime i rt)
  have ok: "proc_ok h i (rt, PrLocked)" by (rule host_inv_proc [OF assms(2) writes_runtime(2)])
  show ?thesis
    by (rule host_invI [OF assms(2), of _ i "Some (rt, PrWritten)"])
      (use writes_runtime ok own_file_write [of rt "ho_file h"] holder_alone [OF assms(2) _ writes_runtime(2)] in \<open>auto simp: to_stage_def proc_ok_def\<close>)
next
  case (listens i rt)
  have ok: "proc_ok h i (rt, PrWritten)" by (rule host_inv_proc [OF assms(2) listens(2)])
  show ?thesis
    by (rule host_invI [OF assms(2), of _ i "Some (rt, PrServing)"])
      (use listens ok holder_alone [OF assms(2) _ listens(2)] in \<open>auto simp: to_stage_def proc_ok_def dest!: holder_alone [OF assms(2) _ listens(2)]\<close>)
next
  case (marks_stopping i rt fails)
  have ok: "proc_ok h i (rt, PrServing)" by (rule host_inv_proc [OF assms(2) marks_stopping(2)])
  show ?thesis
    by (rule host_invI [OF assms(2), of _ i "Some (rt, PrStopping)"])
      (use marks_stopping ok own_file_update [of rt "ho_file h"] holder_alone [OF assms(2) _ marks_stopping(2)] in \<open>auto simp: to_stage_def proc_ok_def\<close>)
next
  case (closes i rt)
  show ?thesis by (rule host_invI [OF assms(2), of _ i None]) (use closes in \<open>auto\<close>)
next
  case (dies i rt st)
  show ?thesis by (rule host_invI [OF assms(2), of _ i None]) (use dies host_inv_socket [OF assms(2)] in \<open>auto\<close>)
next
  case (finds_stale ex alive)
  then show ?thesis using assms(2) by (auto simp: host_inv_def proc_ok_def)
next
  case cleans
  then show ?thesis using assms(2) by (auto simp: host_inv_def proc_ok_def CleanupStale_def own_file_def)
qed

lemma host_run_inv: "host_run h g \<Longrightarrow> host_inv h \<Longrightarrow> host_inv g"
  by (induction rule: host_run.induct) (auto intro: host_step_inv)

lemma empty_host_inv: "host_inv empty_host"
  by (simp add: empty_host_def host_inv_def)

text \<open>
  C11: one daemon per state directory. However processes that serve are started, fail, are killed and shut down, and however the command line
  looks for a daemon and cleans up in between, at most one process at a time is past the lock; while it serves, the control
  socket is its own or missing, and the runtime file is missing or is read back as its own record, whatever its health.
\<close>

theorem one_daemon:
  assumes "host_run empty_host h" "ho_procs h i = Some (rt, st)" "st \<noteq> PrNew"
  shows "ho_lock h = Some i \<and> (\<forall>j q. ho_procs h j = Some q \<and> j \<noteq> i \<longrightarrow> snd q = PrNew) \<and>
    (st = PrServing \<longrightarrow> (ho_socket h = None \<or> ho_socket h = Some i) \<and>
      (ho_file h = NoFile \<or> (\<exists>health. LoadRuntime (ho_file h) = Inr (rt\<lparr>rt_Health := health\<rparr>))))"
proof -
  have inv: "host_inv h" by (rule host_run_inv [OF assms(1) empty_host_inv])
  have ok: "proc_ok h i (rt, st)" by (rule host_inv_proc [OF inv assms(2)])
  have "snd q = PrNew" if "ho_procs h j = Some q" "j \<noteq> i" for j q using holder_alone [OF inv that(1) assms(2)] that(2) assms(3) by simp
  moreover have "ho_file h = NoFile \<or> (\<exists>health. LoadRuntime (ho_file h) = Inr (rt\<lparr>rt_Health := health\<rparr>))" if srv: "st = PrServing"
  proof (cases "ho_file h = NoFile")
    case False
    then obtain health where f: "valid_utf8 health" "ho_file h = Text (Some (runtime_json (rt\<lparr>rt_Health := health\<rparr>)))"
      using ok srv by (auto simp: proc_ok_def own_file_def)
    have "complete_runtime (rt\<lparr>rt_Health := health\<rparr>)" using ok f(1) by (auto simp: proc_ok_def complete_runtime_def valid_runtime_def)
    then show ?thesis using LoadRuntime_json f(2) by auto
  qed simp
  ultimately show ?thesis using ok assms(3) by (auto simp: proc_ok_def)
qed


section \<open>A daemon whose files were removed\<close>

definition orphan :: "string \<Rightarrow> host \<Rightarrow> bool" where
  "orphan i h \<longleftrightarrow> host_inv h \<and> i \<in> ho_used h \<and>
     (case ho_procs h i of None \<Rightarrow> True | Some (rt, st) \<Rightarrow> st = PrStopping \<or> st = PrServing \<and> ho_file h = NoFile \<and> ho_socket h = None)"

lemma orphan_step:
  assumes "host_step h h'" "orphan i h" shows "orphan i h'"
proof -
  have inv: "host_inv h" "host_inv h'" "i \<in> ho_used h" using assms host_step_inv by (auto simp: orphan_def)
  have o: "ho_procs h i = Some (rt, st) \<Longrightarrow> st = PrStopping \<or> st = PrServing \<and> ho_file h = NoFile \<and> ho_socket h = None" for rt st
    using assms(2) by (simp add: orphan_def)
  have new: "j = i \<or> snd q = PrNew" if "ho_procs h i = Some (rt, PrServing)" "ho_procs h j = Some q" for j q rt
    using holder_alone [OF inv(1) that(2,1)] by auto
  have lock: "ho_lock h = Some i" if "ho_procs h i = Some (rt, PrServing)" for rt using host_inv_proc [OF inv(1) that] by (simp add: proc_ok_def)
  show ?thesis using assms(1)
  proof (cases rule: host_step.cases)
    case (spawned j rt)
    then show ?thesis using inv o by (auto simp: orphan_def to_stage_def split: option.split)
  next
    case (locks j rt g)
    then show ?thesis using inv o lock by (auto simp: orphan_def to_stage_def AcquireStateLock_def split: option.split if_splits)
  next
    case (writes_runtime j rt)
    then show ?thesis using inv o new [OF _ writes_runtime(2)] by (auto simp: orphan_def to_stage_def split: option.split)
  next
    case (listens j rt)
    then show ?thesis using inv o new [OF _ listens(2)] by (auto simp: orphan_def to_stage_def split: option.split)
  next
    case (marks_stopping j rt fails)
    have "ho_procs h i \<noteq> Some (rt', PrServing)" if "j \<noteq> i" for rt' using holder_alone [OF inv(1) _ marks_stopping(2), of i] that by auto
    then show ?thesis using inv(2,3) o marks_stopping(1) by (cases "j = i") (auto simp: orphan_def to_stage_def split: option.split)
  next
    case (locked_out j rt)
    then show ?thesis using inv o by (cases "j = i") (auto simp: orphan_def split: option.split)
  next
    case (closes j rt)
    then show ?thesis using inv o by (cases "j = i") (auto simp: orphan_def split: option.split)
  next
    case (dies j rt st)
    then show ?thesis using inv o by (cases "j = i") (auto simp: orphan_def split: option.split)
  next
    case (finds_stale ex alive)
    then show ?thesis using inv o by (auto simp: orphan_def split: option.split)
  next
    case cleans
    then show ?thesis using inv o by (auto simp: orphan_def CleanupStale_def split: option.split)
  qed
qed

lemma orphan_run: "host_run h g \<Longrightarrow> orphan i h \<Longrightarrow> orphan i g"
proof (induction rule: host_run.induct)
  case (host_next g g')
  then show ?case using orphan_step by blast
qed

lemma host_run_trans: "host_run g k \<Longrightarrow> host_run h g \<Longrightarrow> host_run h k"
  by (induction rule: host_run.induct) (auto intro: host_run.intros)

text \<open>
  C25: a daemon whose files were removed is lost. Once the clean-up of another invocation has removed the runtime file and the control
  socket of a daemon that serves, then as long as that daemon lives, whatever else happens, the files stay away, every search for a
  daemon finds none, and no other process gets past the lock: it can neither be stopped nor replaced through the command line.
\<close>

theorem removed_daemon_lost:
  assumes "host_run empty_host h" "ho_procs h i = Some (rt, PrServing)" "ho_file h = NoFile" "ho_socket h = None"
    "host_run h g" "ho_procs g i = Some (rt', PrServing)"
  shows "ho_file g = NoFile \<and> ho_socket g = None \<and>
    (\<forall>alive ex timeout. rec_Liveness (Reconcile (ho_file g) alive (Some (ho_socket g \<noteq> None)) ex timeout) = ''absent'') \<and>
    (\<forall>j q. ho_procs g j = Some q \<and> j \<noteq> i \<longrightarrow> snd q = PrNew \<and> AcquireStateLock j g = None)"
proof -
  have "host_inv h" by (rule host_run_inv [OF assms(1) empty_host_inv])
  moreover have "i \<in> ho_used h" using host_inv_proc [OF calculation assms(2)] by (simp add: proc_ok_def)
  ultimately have "orphan i h" using assms(2-4) by (simp add: orphan_def)
  then have o: "orphan i g" by (rule orphan_run [OF assms(5)])
  then have f: "ho_file g = NoFile" "ho_socket g = None" "host_inv g" using assms(6) by (auto simp: orphan_def)
  have "ho_lock g = Some i" using host_inv_proc [OF f(3) assms(6)] by (simp add: proc_ok_def)
  then have "snd q = PrNew \<and> AcquireStateLock j g = None" if "ho_procs g j = Some q" "j \<noteq> i" for j q
    using holder_alone [OF f(3) that(1) assms(6)] that(2) by (simp add: AcquireStateLock_def)
  moreover have "rec_Liveness (Reconcile (ho_file g) alive socket ex timeout) = ''absent''" for alive socket ex timeout
    using f(1) by (simp add: Reconcile_def LoadRuntime_def reconciled_def LivenessAbsent_def)
  ultimately show ?thesis using f(1,2) by blast
qed

text \<open>Two ways to get there: Herdr answers slowly while the command line looks for the daemon, and a clean-up that comes too late.\<close>

lemma serving_run:
  assumes "i \<notin> ho_used h" "complete_runtime rt" "rt_InstanceID rt = i" "rt_Health rt = ''starting''" "ho_lock h = None"
  shows "\<exists>g. host_run h g \<and> ho_procs g = (ho_procs h)(i \<mapsto> (rt, PrServing)) \<and> ho_file g = Text (Some (runtime_json rt)) \<and> ho_socket g = Some i \<and>
    ho_cleaners g = ho_cleaners h \<and> ho_lock g = Some i \<and> ho_used g = insert i (ho_used h)"
proof -
  define a where "a = to_stage i rt PrNew (h\<lparr>ho_used := insert i (ho_used h)\<rparr>)"
  define b where "b = to_stage i rt PrLocked (a\<lparr>ho_lock := Some i\<rparr>)"
  define c where "c = to_stage i rt PrWritten (b\<lparr>ho_file := fst (WriteRuntime None rt (ho_file b))\<rparr>)"
  define d where "d = to_stage i rt PrServing (c\<lparr>ho_socket := Some i\<rparr>)"
  have 1: "host_step h a" unfolding a_def by (rule host_step.spawned) (use assms in \<open>simp_all add: HealthStarting_def\<close>)
  have 2: "host_step a b" unfolding b_def by (rule host_step.locks) (use assms(5) in \<open>simp_all add: a_def to_stage_def AcquireStateLock_def\<close>)
  have 3: "host_step b c" unfolding c_def by (rule host_step.writes_runtime) (simp add: b_def to_stage_def)
  have 4: "host_step c d" unfolding d_def by (rule host_step.listens) (simp add: c_def to_stage_def)
  have "host_run h d" by (rule host_next [OF host_next [OF host_next [OF host_next [OF host_here 1] 2] 3] 4])
  then show ?thesis by (intro exI [of _ d]) (simp add: d_def c_def b_def a_def to_stage_def WriteRuntime_def)
qed

lemma example_serving:
  "\<exists>g. host_run empty_host g \<and> ho_procs g = [''i1'' \<mapsto> (example_runtime, PrServing)] \<and> ho_file g = Text (Some (runtime_json example_runtime)) \<and>
     ho_socket g = Some ''i1'' \<and> ho_cleaners g = 0 \<and> ho_lock g = Some ''i1'' \<and> ho_used g = {''i1''}"
proof -
  have "rt_InstanceID example_runtime = ''i1''" "rt_Health example_runtime = ''starting''" by (simp_all add: example_runtime_def)
  then show ?thesis using serving_run [of "''i1''" empty_host example_runtime] example_runtime_complete by (simp add: empty_host_def)
qed

theorem slow_daemon_removed:
  "\<exists>h. host_run empty_host h \<and> ho_procs h ''i1'' = Some (example_runtime, PrServing) \<and> ho_file h = NoFile \<and> ho_socket h = None"
proof -
  obtain g where g: "host_run empty_host g" "ho_procs g = [''i1'' \<mapsto> (example_runtime, PrServing)]" "ho_file g = Text (Some (runtime_json example_runtime))"
    "ho_socket g = Some ''i1''" "ho_cleaners g = 0"
    using example_serving by blast
  let ?d = "stack_daemon ''/s'' example_runtime True" and ?p = "stack_probes ''a'' (2500000000, True) example_engine (NewTunnelChild example_sup)"
  have t: "probe_time ?p ?d = 2500000000" using probe_time_stack [OF refl, where t = 2500000000] by simp
  have "answers g (status_exchange ?p None ?d)" unfolding answers_def using g t by (auto simp: stack_daemon_eq intro!: exI [of _ ?p] exI [of _ ?d])
  moreover have "rec_Liveness (Reconcile (ho_file g) (\<lambda>p. True) (Some (ho_socket g \<noteq> None)) (status_exchange ?p None ?d) 2000000000) = LivenessStale"
    using LoadRuntime_json [OF example_runtime_complete] example_runtime_complete g t
    by (simp add: Reconcile_def ProcessAlive_def complete_runtime_def client_status_exchange reconciled_def Let_def)
  ultimately have 1: "host_step g (g\<lparr>ho_cleaners := 1\<rparr>)" using host_step.finds_stale [of g _ "\<lambda>p. True"] g(5) by auto
  have 2: "host_step (g\<lparr>ho_cleaners := 1\<rparr>) (CleanupStale g\<lparr>ho_cleaners := 0\<rparr>)"
    using host_step.cleans [of "g\<lparr>ho_cleaners := 1\<rparr>"] by (simp add: CleanupStale_def)
  show ?thesis using host_next [OF host_next [OF g(1) 1] 2] g(2) by (intro exI [of _ "CleanupStale g\<lparr>ho_cleaners := 0\<rparr>"]) (simp add: CleanupStale_def)
qed

theorem removed_daemon_lost_witness:
  "\<exists>h. host_run empty_host h \<and> ho_procs h ''i1'' = Some (example_runtime, PrServing) \<and>
     rec_Liveness (Reconcile (ho_file h) (\<lambda>p. True) (Some (ho_socket h \<noteq> None)) NoConnection 2000000000) = ''absent''"
proof -
  obtain h where h: "host_run empty_host h" "ho_procs h ''i1'' = Some (example_runtime, PrServing)" "ho_file h = NoFile" "ho_socket h = None"
    using slow_daemon_removed by blast
  then show ?thesis using removed_daemon_lost [OF h host_here h(2)] by blast
qed

text \<open>
  The state lock does not prevent it: the clean-up is not made under the lock. An invocation that has found a dead daemon's files removes
  those of its successor.
\<close>

theorem late_cleanup_removes:
  "\<exists>h. host_run empty_host h \<and> ho_lock h = Some ''i2'' \<and> (\<exists>rt. ho_procs h ''i2'' = Some (rt, PrServing)) \<and> ho_file h = NoFile \<and> ho_socket h = None"
proof -
  obtain g where g: "host_run empty_host g" "ho_procs g = [''i1'' \<mapsto> (example_runtime, PrServing)]" "ho_file g = Text (Some (runtime_json example_runtime))"
    "ho_socket g = Some ''i1''" "ho_cleaners g = 0" "ho_lock g = Some ''i1''" "ho_used g = {''i1''}"
    using example_serving by blast
  have gi: "host_inv g" by (rule host_run_inv [OF g(1) empty_host_inv])
  define a where "a = ends ''i1'' g"
  have 1: "host_step g a" unfolding a_def by (rule host_step.dies) (simp add: g)
  have "rec_Liveness (Reconcile (ho_file a) (\<lambda>p. False) (Some (ho_socket a \<noteq> None)) NoConnection 2000000000) = LivenessStale"
    using LoadRuntime_json [OF example_runtime_complete] by (simp add: a_def g Reconcile_def ProcessAlive_def reconciled_def)
  moreover have "answers a NoConnection" "\<forall>p\<in>alive_pids a. False" by (simp_all add: a_def g answers_def alive_pids_def)
  ultimately have 2: "host_step a (a\<lparr>ho_cleaners := 1\<rparr>)" using host_step.finds_stale [of a NoConnection "\<lambda>p. False"] g(5) by (simp add: a_def)
  have "host_inv a" by (rule host_step_inv [OF 1 gi])
  let ?rt = "example_runtime\<lparr>rt_InstanceID := ''i2''\<rparr>"
  have rt: "rt_Health ?rt = ''starting''" by (simp add: example_runtime_def)
  have c: "complete_runtime ?rt" using example_runtime_complete by (simp add: complete_runtime_def valid_runtime_def valid_utf8_ascii)
  have "''i2'' \<notin> ho_used (a\<lparr>ho_cleaners := 1\<rparr>)" "ho_lock (a\<lparr>ho_cleaners := 1\<rparr>) = None" by (simp_all add: a_def g)
  from serving_run [OF this(1) c _ rt this(2)] obtain b where b: "host_run (a\<lparr>ho_cleaners := 1\<rparr>) b" "ho_procs b ''i2'' = Some (?rt, PrServing)" "ho_cleaners b = 1" "ho_lock b = Some ''i2''"
    by fastforce
  have 3: "host_step b (CleanupStale b\<lparr>ho_cleaners := 0\<rparr>)" using host_step.cleans [of b] b(3) by simp
  have "host_run empty_host (CleanupStale b\<lparr>ho_cleaners := 0\<rparr>)"
    by (rule host_next [OF host_run_trans [OF b(1) host_next [OF host_next [OF g(1) 1] 2]] 3])
  then show ?thesis using b(2,4) by (intro exI [of _ "CleanupStale b\<lparr>ho_cleaners := 0\<rparr>"]) (simp add: CleanupStale_def)
qed

theorem one_daemon_witness:
  "\<exists>h. host_run empty_host h \<and> ho_lock h = Some ''i1'' \<and> LoadRuntime (ho_file h) = Inr example_runtime"
proof -
  obtain g where g: "host_run empty_host g" "ho_procs g = [''i1'' \<mapsto> (example_runtime, PrServing)]" "ho_file g = Text (Some (runtime_json example_runtime))"
    using example_serving by blast
  have p: "ho_procs g ''i1'' = Some (example_runtime, PrServing)" by (simp add: g(2))
  have "ho_lock g = Some ''i1''" using one_daemon [OF g(1) p] by simp
  then show ?thesis using g(1,3) LoadRuntime_json [OF example_runtime_complete] by auto
qed

end
