(* ===== verification/DaemonStart.thy ===== *)
theory DaemonStart
  imports DaemonHost
begin

text \<open>
  The commands of the operator on a running or a new daemon (internal/integration/runtime.go): start, stop, status and a new pairing link.
\<close>

section \<open>internal/app/runtime.go\<close>

record StartResult =
  sres_Mode :: string
  sres_PublicURL :: string
  sres_PairingURL :: string
  sres_AlreadyRunning :: bool

record app_Status =
  as_Running :: bool
  as_Mode :: string
  as_PublicURL :: string
  as_LocalAddress :: string
  as_Version :: string
  as_Protocol :: int
  as_PID :: int
  as_StartedAt :: "gotime option"
  as_Health :: string
  as_HerdrHealthy :: bool
  as_TunnelHealthy :: bool
  as_StateHealthy :: bool
  as_ConnectedClients :: int

section \<open>internal/integration/runtime.go\<close>

definition HerdrProtocol :: int where "HerdrProtocol = 19"

datatype start_error = BadMode | NoStateDir | StateDirFailed | NotServable | NoExecutable | NoToken | SpawnFailed | ServeExited | ReadyTimeout
  | NoPublicURL | PublicTimeout | TunnelTimeout | NoClient | NotRunning | ClientFailed client_error

definition componentReady :: "StatusResult \<Rightarrow> string \<Rightarrow> bool" where
  "componentReady st name = (case List.find (\<lambda>c. cst_Name c = name) (st_Components st) of None \<Rightarrow> False | Some c \<Rightarrow> cst_Ready c)"

text \<open>The answer to the public probe: none, or its status code and body.\<close>

definition quickPublicProbe :: "(int \<times> string) option \<Rightarrow> string \<Rightarrow> bool" where
  "quickPublicProbe resp instanceID =
     (case resp of
        None \<Rightarrow> False
      | Some (code, body) \<Rightarrow>
          if code \<noteq> 200 then False
          else let got = TrimSpace (take 4096 body) in \<not> (instanceID = [] \<or> \<not> ConstantTimeCompare got instanceID))"

text \<open>
  The three loops poll until they are done. An observation is what one turn sees; the result is \<open>None\<close> while the loop goes on. In
  \<open>waitReady\<close> a turn sees an answer, whether the process lives, a second answer and whether the time is up.
\<close>

fun waitReady :: "(exchange \<times> bool \<times> exchange \<times> bool) list \<Rightarrow> (start_error + StatusResult) option" where
  "waitReady [] = None"
| "waitReady ((ex, lives, ex', expired) # obs) =
     (case client_Status 2000000000 ex of
        Inr st \<Rightarrow> Some (Inr st)
      | Inl e \<Rightarrow>
          if \<not> lives then (case client_Status 2000000000 ex' of Inr st \<Rightarrow> Some (Inr st) | Inl e \<Rightarrow> Some (Inl ServeExited))
          else if expired then Some (Inl ReadyTimeout) else waitReady obs)"

fun public_loop :: "string \<Rightarrow> (bool \<times> (int \<times> string) option \<times> bool) list \<Rightarrow> (start_error + unit) option" where
  "public_loop instanceID [] = None"
| "public_loop instanceID ((lives, resp, expired) # obs) =
     (if \<not> lives then Some (Inl ServeExited)
      else if quickPublicProbe resp instanceID then Some (Inr ())
      else if expired then Some (Inl PublicTimeout) else public_loop instanceID obs)"

definition probeQuickPublicReady :: "StatusResult \<Rightarrow> (bool \<times> (int \<times> string) option \<times> bool) list \<Rightarrow> (start_error + unit) option" where
  "probeQuickPublicReady st obs = (if st_PublicURL st = [] then Some (Inl NoPublicURL) else public_loop (st_InstanceID st) obs)"

fun waitNamedTunnelReady :: "(bool \<times> exchange \<times> bool) list \<Rightarrow> (start_error + unit) option" where
  "waitNamedTunnelReady [] = None"
| "waitNamedTunnelReady ((lives, ex, expired) # obs) =
     (if \<not> lives then Some (Inl ServeExited)
      else if (case client_Status 2000000000 ex of Inr st \<Rightarrow> componentReady st ''tunnel'' | Inl e \<Rightarrow> False) then Some (Inr ())
      else if expired then Some (Inl TunnelTimeout) else waitNamedTunnelReady obs)"

text \<open>A client could be made, and then the exchange of the request.\<close>

definition finishStart :: "StatusResult \<Rightarrow> bool \<Rightarrow> exchange option \<Rightarrow> StartResult" where
  "finishStart st already rotated =
     \<lparr>sres_Mode = st_Mode st, sres_PublicURL = st_PublicURL st,
      sres_PairingURL = (case rotated of None \<Rightarrow> [] | Some ex \<Rightarrow> (case client_RotatePairing controlDeadline ex of Inl e \<Rightarrow> [] | Inr pr \<Rightarrow> pres_URL pr)),
      sres_AlreadyRunning = already\<rparr>"

text \<open>What a start meets, in the order in which it asks for it, and what it does to the host.\<close>

record start_world =
  sw_ensured :: bool
  sw_rec :: ReconcileResult
  sw_uid :: nat
  sw_lstat :: "string \<Rightarrow> file_info option"
  sw_exe :: "string option"
  sw_environ :: "string list"
  sw_token :: "string option"
  sw_pid :: "int option"
  sw_ready :: "(exchange \<times> bool \<times> exchange \<times> bool) list"
  sw_public :: "(bool \<times> (int \<times> string) option \<times> bool) list"
  sw_tunnel :: "(bool \<times> exchange \<times> bool) list"
  sw_rotated :: "exchange option"

datatype start_effect = Cleaned | Spawned string "string list" "string list"

definition serve_args :: "bool \<Rightarrow> string list" where
  "serve_args quick = (if quick then [''serve'', ''--quick''] else [''serve''])"

definition serve_environ :: "string \<Rightarrow> string \<Rightarrow> string list \<Rightarrow> string list" where
  "serve_environ m token environ = (if m = ModeQuick then environ @ [''HERDR_PHONE_QUICK_PROBE_TOKEN='' @ token] else environ)"

text \<open>The wait for the new process, and the confirmation that it is reachable.\<close>

definition confirmStart :: "string \<Rightarrow> start_world \<Rightarrow> (start_error + StartResult) option" where
  "confirmStart m w =
     (case waitReady (sw_ready w) of
        None \<Rightarrow> None
      | Some (Inl e) \<Rightarrow> Some (Inl e)
      | Some (Inr st) \<Rightarrow>
          (case (if m = ModeQuick then probeQuickPublicReady st (sw_public w)
                 else if m = ModeNamed then waitNamedTunnelReady (sw_tunnel w)
                 else Some (Inr ())) of
             None \<Rightarrow> None
           | Some (Inl e) \<Rightarrow> Some (Inl e)
           | Some (Inr u) \<Rightarrow> Some (Inr (finishStart st False (sw_rotated w)))))"

definition Runtime_Start :: "(string \<Rightarrow> string) \<Rightarrow> Config \<Rightarrow> bool \<Rightarrow> start_world \<Rightarrow> start_effect list \<times> (start_error + StartResult) option" where
  "Runtime_Start env cfg quick w =
     (case effectiveMode cfg quick of
        None \<Rightarrow> ([], Some (Inl BadMode))
      | Some m \<Rightarrow>
          if resolveStateDir env = None then ([], Some (Inl NoStateDir))
          else if \<not> sw_ensured w then ([], Some (Inl StateDirFailed))
          else if rec_Liveness (sw_rec w) = LivenessRunning
          then ([], Some (Inr (finishStart (the (rec_Status (sw_rec w))) True (sw_rotated w))))
          else
            let cleaned = (if rec_Liveness (sw_rec w) = LivenessStale then [Cleaned] else []) in
            if \<not> validateForServe (sw_uid w) (sw_lstat w) cfg m then (cleaned, Some (Inl NotServable))
            else (case sw_exe w of
                None \<Rightarrow> (cleaned, Some (Inl NoExecutable))
              | Some exe \<Rightarrow>
                  if m = ModeQuick \<and> sw_token w = None then (cleaned, Some (Inl NoToken))
                  else if sw_pid w = None then (cleaned, Some (Inl SpawnFailed))
                  else (cleaned @ [Spawned exe (serve_args quick) (serve_environ m (case sw_token w of None \<Rightarrow> [] | Some t \<Rightarrow> t) (sw_environ w))], confirmStart m w)))"

definition Runtime_Stop :: "(string \<Rightarrow> string) \<Rightarrow> ReconcileResult \<Rightarrow> exchange option \<Rightarrow> bool \<times> (start_error + bool)" where
  "Runtime_Stop env rec ex =
     (if resolveStateDir env = None then (False, Inl NoStateDir)
      else if rec_Liveness rec \<noteq> LivenessRunning then (rec_Liveness rec = LivenessStale, Inr False)
      else case ex of
          None \<Rightarrow> (False, Inl NoClient)
        | Some ex \<Rightarrow> (case client_Stop controlDeadline ex of Some e \<Rightarrow> (False, Inl (ClientFailed e)) | None \<Rightarrow> (False, Inr True)))"

definition no_status :: app_Status where
  "no_status = \<lparr>as_Running = False, as_Mode = [], as_PublicURL = [], as_LocalAddress = [], as_Version = [], as_Protocol = 0, as_PID = 0,
     as_StartedAt = None, as_Health = [], as_HerdrHealthy = False, as_TunnelHealthy = False, as_StateHealthy = False, as_ConnectedClients = 0\<rparr>"

fun component_flags :: "ComponentStatus list \<Rightarrow> app_Status \<Rightarrow> app_Status" where
  "component_flags [] out = out"
| "component_flags (c # cs) out = component_flags cs
     (if cst_Name c = ''herdr'' then out\<lparr>as_HerdrHealthy := cst_Ready c\<rparr>
      else if cst_Name c = ''tunnel'' then out\<lparr>as_TunnelHealthy := cst_Ready c\<rparr>
      else if cst_Name c = ''state'' then out\<lparr>as_StateHealthy := cst_Ready c\<rparr>
      else out)"

definition statusToApp :: "StatusResult \<Rightarrow> app_Status" where
  "statusToApp st = component_flags (st_Components st)
     (no_status\<lparr>as_Running := True, as_Mode := st_Mode st, as_PublicURL := st_PublicURL st, as_LocalAddress := st_LocalAddr st,
        as_Version := st_Version st, as_Protocol := HerdrProtocol, as_PID := st_PID st, as_Health := st_Health st,
        as_ConnectedClients := st_ClientCount st, as_StartedAt := (if st_StartUnixMs st > 0 then Some (st_StartUnixMs st * 1000000) else None)\<rparr>)"

definition Runtime_Status :: "(string \<Rightarrow> string) \<Rightarrow> ReconcileResult \<Rightarrow> start_error + app_Status" where
  "Runtime_Status env rec =
     (if resolveStateDir env = None then Inl NoStateDir
      else if rec_Liveness rec \<noteq> LivenessRunning then Inr no_status
      else case rec_Status rec of None \<Rightarrow> Inr no_status | Some st \<Rightarrow> Inr (statusToApp st))"

definition Runtime_RotatePairing :: "(string \<Rightarrow> string) \<Rightarrow> ReconcileResult \<Rightarrow> exchange option \<Rightarrow> start_error + string" where
  "Runtime_RotatePairing env rec ex =
     (if resolveStateDir env = None then Inl NoStateDir
      else if rec_Liveness rec \<noteq> LivenessRunning then Inl NotRunning
      else case ex of
          None \<Rightarrow> Inl NoClient
        | Some ex \<Rightarrow> (case client_RotatePairing controlDeadline ex of Inl e \<Rightarrow> Inl (ClientFailed e) | Inr pr \<Rightarrow> Inr (pres_URL pr)))"

section \<open>What a successful start has confirmed\<close>

lemma waitReady_Some: "waitReady obs = Some (Inr st) \<Longrightarrow> \<exists>(ex, lives, ex', expired) \<in> set obs. client_Status 2000000000 ex = Inr st \<or> client_Status 2000000000 ex' = Inr st"
  by (induction obs rule: waitReady.induct) (auto split: sum.splits if_splits)

lemma public_loop_Some: "public_loop i obs = Some (Inr ()) \<Longrightarrow> \<exists>(lives, resp, expired) \<in> set obs. lives \<and> quickPublicProbe resp i"
  by (induction i obs rule: public_loop.induct) (auto split: if_splits)

lemma waitNamedTunnelReady_Some:
  "waitNamedTunnelReady obs = Some (Inr ()) \<Longrightarrow> \<exists>(lives, ex, expired) \<in> set obs. lives \<and> (\<exists>st. client_Status 2000000000 ex = Inr st \<and> componentReady st ''tunnel'')"
  by (induction obs rule: waitNamedTunnelReady.induct) (auto split: if_splits sum.splits)


lemma quickPublicProbe_iff:
  "quickPublicProbe resp i \<longleftrightarrow> i \<noteq> [] \<and> (\<exists>body. resp = Some (200, body) \<and> TrimSpace (take 4096 body) = i)"
  by (auto simp: quickPublicProbe_def ConstantTimeCompare_def Let_def split: option.splits if_splits)

lemma Reconcile_running:
  assumes "rec_Liveness (Reconcile file alive socket ex timeout) = LivenessRunning"
  shows "\<exists>rt st. LoadRuntime file = Inr rt \<and> alive (rt_PID rt) \<and> socket = Some True \<and> client_Status timeout ex = Inr st \<and>
    st_InstanceID st = rt_InstanceID rt \<and> rec_Status (Reconcile file alive socket ex timeout) = Some st"
  using assms by (auto simp: Reconcile_def reconciled_def ProcessAlive_def LivenessRunning_def LivenessAbsent_def LivenessStale_def Let_def
      split: sum.splits if_splits option.splits)

definition public_confirmed :: "start_world \<Rightarrow> string \<Rightarrow> bool" where
  "public_confirmed w i \<longleftrightarrow> i \<noteq> [] \<and> (\<exists>lives body expired. (lives, Some (200, body), expired) \<in> set (sw_public w) \<and> TrimSpace (take 4096 body) = i)"

definition tunnel_confirmed :: "start_world \<Rightarrow> bool" where
  "tunnel_confirmed w \<longleftrightarrow> (\<exists>lives ex expired st. (lives, ex, expired) \<in> set (sw_tunnel w) \<and> client_Status 2000000000 ex = Inr st \<and> componentReady st ''tunnel'')"

lemma confirmStart_Some:
  assumes "confirmStart m w = Some (Inr res)"
  shows "\<exists>st ex lives ex' expired. (ex, lives, ex', expired) \<in> set (sw_ready w) \<and> (client_Status 2000000000 ex = Inr st \<or> client_Status 2000000000 ex' = Inr st) \<and>
    res = finishStart st False (sw_rotated w) \<and> (m = ModeQuick \<longrightarrow> public_confirmed w (st_InstanceID st)) \<and> (m = ModeNamed \<longrightarrow> tunnel_confirmed w)"
proof -
  obtain st where st: "waitReady (sw_ready w) = Some (Inr st)" using assms by (auto simp: confirmStart_def split: option.splits sum.splits)
  obtain ex lives ex' expired where o: "(ex, lives, ex', expired) \<in> set (sw_ready w)" "client_Status 2000000000 ex = Inr st \<or> client_Status 2000000000 ex' = Inr st"
    using waitReady_Some [OF st] by auto
  have r: "res = finishStart st False (sw_rotated w)"
    "m = ModeQuick \<Longrightarrow> probeQuickPublicReady st (sw_public w) = Some (Inr ())"
    "m = ModeNamed \<Longrightarrow> waitNamedTunnelReady (sw_tunnel w) = Some (Inr ())"
    using assms st by (auto simp: confirmStart_def ModeQuick_def ModeNamed_def split: option.splits sum.splits if_splits)
  have "public_confirmed w (st_InstanceID st)" if "m = ModeQuick"
    using r(2) [OF that] public_loop_Some [of "st_InstanceID st" "sw_public w"]
    by (auto simp: probeQuickPublicReady_def public_confirmed_def quickPublicProbe_iff split: if_splits)
  moreover have "tunnel_confirmed w" if "m = ModeNamed"
    using waitNamedTunnelReady_Some [OF r(3) [OF that]] by (auto simp: tunnel_confirmed_def)
  ultimately show ?thesis using o r(1) by blast
qed


definition example_world :: start_world where
  "example_world = \<lparr>sw_ensured = True, sw_rec = Reconcile (Text (Some (runtime_json example_runtime))) (\<lambda>p. True) (Some True)
       (status_exchange (\<lambda>n. (0, True, [])) None (stack_daemon ''/s'' example_runtime True)) 2000000000,
     sw_uid = 0, sw_lstat = Map.empty, sw_exe = None, sw_environ = [], sw_token = None, sw_pid = None, sw_ready = [], sw_public = [], sw_tunnel = [], sw_rotated = None\<rparr>"


end
