(* ===== verification/HerdrTransport.thy ===== *)
theory HerdrTransport
  imports HerdrCalls AuthJwks TunnelBackoff
begin

text \<open>
  The socket transport of the Herdr client: frames, envelopes and one call (herdr/client.go, wire.go, errors.go), and the event subscriber
  with its reconnection pauses (herdr/events.go).
\<close>

section \<open>internal/herdr/errors.go\<close>

definition CodeConnect :: string where "CodeConnect = ''connect''"
definition CodeTransport :: string where "CodeTransport = ''transport''"
definition CodeTimeout :: string where "CodeTimeout = ''timeout''"
definition CodeCanceled :: string where "CodeCanceled = ''canceled''"
definition CodeProtocol :: string where "CodeProtocol = ''protocol''"
definition CodeUnexpectedTyp :: string where "CodeUnexpectedTyp = ''unexpected_type''"
definition CodeFrameTooLarge :: string where "CodeFrameTooLarge = ''frame_too_large''"
definition CodeIncompatible :: string where "CodeIncompatible = ''incompatible''"

lemmas herdr_codes = CodeConnect_def CodeTransport_def CodeTimeout_def CodeCanceled_def CodeProtocol_def CodeUnexpectedTyp_def CodeFrameTooLarge_def
  CodeIncompatible_def

section \<open>internal/herdr/client.go: frames\<close>

text \<open>A connection delivers bytes and then ends, regularly or with an error.\<close>

datatype conn_end = EndEOF | EndError string

datatype frame_error = FrameEOF | FrameUnexpectedEOF | FrameTooLarge | FrameIO string

fun read_frame :: "nat \<Rightarrow> conn_end \<Rightarrow> string \<Rightarrow> string \<Rightarrow> (frame_error + string) \<times> string" where
  "read_frame maxB e buf [] =
     (Inl (case e of EndEOF \<Rightarrow> if buf \<noteq> [] then FrameUnexpectedEOF else FrameEOF | EndError m \<Rightarrow> FrameIO m), [])"
| "read_frame maxB e buf (b # bs) =
     (if b = CHR 0x0A then (Inr buf, bs)
      else if length buf \<ge> maxB then (Inl FrameTooLarge, bs)
      else read_frame maxB e (buf @ [b]) bs)"

definition readFrame :: "nat \<Rightarrow> conn_end \<Rightarrow> string \<Rightarrow> (frame_error + string) \<times> string" where
  "readFrame maxB e bs = read_frame maxB e [] bs"

definition classifyIOError :: "frame_error \<Rightarrow> Error" where
  "classifyIOError err =
     (case err of
        FrameTooLarge \<Rightarrow> newError CodeFrameTooLarge ''response frame exceeds byte bound''
      | FrameEOF \<Rightarrow> newError CodeTransport ''connection closed before a complete response''
      | FrameUnexpectedEOF \<Rightarrow> newError CodeTransport ''connection closed before a complete response''
      | FrameIO m \<Rightarrow> newError CodeTransport m)"

section \<open>internal/herdr/wire.go and client.go: responses\<close>

record wireError =
  we_Code :: string
  we_Message :: string

record envelope =
  env_ID :: string
  env_Result :: "json option"
  env_Error :: "wireError option"

text \<open>
  An \<open>error\<close> that appears twice is decoded into the same structure; \<open>null\<close> clears it. The raw \<open>result\<close> is the last one.
\<close>

definition store_wireError :: "wireError option \<Rightarrow> json \<Rightarrow> wireError option option" where
  "store_wireError x j =
     (if j = JNull then Some None
      else let z = (case x of None \<Rightarrow> \<lparr>we_Code = [], we_Message = []\<rparr> | Some w \<Rightarrow> w) in do {
        p \<leftarrow> select_known [''code'', ''message''] j;
        c \<leftarrow> store_all store_string (we_Code z) (field_values p ''code''); m \<leftarrow> store_all store_string (we_Message z) (field_values p ''message'');
        Some (Some \<lparr>we_Code = c, we_Message = m\<rparr>) })"

definition decode_envelope :: "json \<Rightarrow> envelope option" where
  "decode_envelope j = do {
     p \<leftarrow> select_known [''id'', ''result'', ''error''] j;
     i \<leftarrow> get_string p ''id''; err \<leftarrow> store_all store_wireError None (field_values p ''error'');
     Some \<lparr>env_ID = i, env_Result = (case field_values p ''result'' of [] \<Rightarrow> None | vs \<Rightarrow> Some (last vs)), env_Error = err\<rparr> }"

definition decode_type :: "json \<Rightarrow> string option" where
  "decode_type j = Option.bind (select_known [''type''] j) (\<lambda>p. get_string p ''type'')"

text \<open>
  \<open>parse\<close> is the JSON parser and \<open>dec\<close> the decoding into the result structure; each gives the message of its error. \<open>envelope_error\<close> is the
  message of a type error in the envelope.
\<close>

definition decodeResponse ::
  "(string \<Rightarrow> string + json) \<Rightarrow> string \<Rightarrow> (json \<Rightarrow> string + 'a) \<Rightarrow> string \<Rightarrow> string \<Rightarrow> string \<Rightarrow> Error + 'a" where
  "decodeResponse parse envelope_error dec frame wantID wantType =
     (case (case parse frame of Inl m \<Rightarrow> Inl m | Inr j \<Rightarrow> (case decode_envelope j of None \<Rightarrow> Inl envelope_error | Some env \<Rightarrow> Inr env)) of
        Inl m \<Rightarrow> Inl (newError CodeProtocol (''malformed response frame: '' @ m))
      | Inr env \<Rightarrow>
          (case env_Error env of
             Some we \<Rightarrow> Inl (newError (we_Code we) (we_Message we))
           | None \<Rightarrow>
               if env_ID env \<noteq> [] \<and> env_ID env \<noteq> wantID
               then Inl (newError CodeProtocol (''response id mismatch: got '' @ env_ID env @ '' want '' @ wantID))
               else case env_Result env of
                   None \<Rightarrow> Inl (newError CodeProtocol ''response has neither result nor error'')
                 | Some res \<Rightarrow>
                     (case (if wantType = [] then None
                            else case decode_type res of
                                None \<Rightarrow> Some (newError CodeProtocol ''result missing type discriminator'')
                              | Some t \<Rightarrow> if t \<noteq> wantType then Some (newError CodeUnexpectedTyp (''expected result type '' @ wantType @ '' got '' @ t)) else None) of
                        Some err \<Rightarrow> Inl err
                      | None \<Rightarrow>
                          (case dec res of
                             Inl m \<Rightarrow> Inl (newError CodeProtocol (''cannot decode result '' @ wantType @ '': '' @ m))
                           | Inr x \<Rightarrow> Inr x))))"

definition nextID :: "string \<Rightarrow> 64 word \<Rightarrow> 64 word \<times> string" where
  "nextID prefix n = (n + 1, prefix @ ''-'' @ decimal (unat (n + 1)))"

text \<open>How the select of \<open>call\<close> ended; the text of the timeout is \<open>limit\<close>.\<close>

datatype call_outcome = EncodeFailed string | DialError string | CtxDeadline | CtxCanceled | NoResponse string | WriteError string
  | Received "frame_error + string"

definition herdr_call ::
  "(string \<Rightarrow> string + json) \<Rightarrow> string \<Rightarrow> (json \<Rightarrow> string + 'a) \<Rightarrow> string \<Rightarrow> string \<Rightarrow> 64 word \<Rightarrow> call_outcome \<Rightarrow> 64 word \<times> (Error + 'a)" where
  "herdr_call parse envelope_error dec prefix wantType n out =
     (case nextID prefix n of (n, i) \<Rightarrow>
        (n, case out of
              EncodeFailed m \<Rightarrow> Inl (newError CodeProtocol (''cannot encode request: '' @ m))
            | DialError m \<Rightarrow> Inl (newError CodeConnect m)
            | CtxDeadline \<Rightarrow> Inl (newError CodeTimeout ''context deadline exceeded'')
            | CtxCanceled \<Rightarrow> Inl (newError CodeCanceled ''request canceled'')
            | NoResponse limit \<Rightarrow> Inl (newError CodeTimeout (''no response within '' @ limit))
            | WriteError m \<Rightarrow> Inl (newError CodeTransport m)
            | Received (Inl e) \<Rightarrow> Inl (classifyIOError e)
            | Received (Inr frame) \<Rightarrow> decodeResponse parse envelope_error dec frame i wantType))"

section \<open>Frames and responses\<close>

lemma read_frame_eq:
  assumes "length buf \<le> maxB"
  shows "read_frame maxB e buf bs =
    (let l = takeWhile (\<lambda>c. c \<noteq> CHR 0x0A) bs in
     if length buf + length l > maxB then (Inl FrameTooLarge, drop (Suc (maxB - length buf)) bs)
     else if CHR 0x0A \<in> set bs then (Inr (buf @ l), drop (Suc (length l)) bs)
     else (Inl (case e of EndEOF \<Rightarrow> if buf @ bs \<noteq> [] then FrameUnexpectedEOF else FrameEOF | EndError m \<Rightarrow> FrameIO m), []))"
  using assms
proof (induction bs arbitrary: buf)
  case (Cons b bs)
  show ?case
  proof (cases "b = CHR 0x0A")
    case False
    show ?thesis
    proof (cases "length buf < maxB")
      case True
      then show ?thesis using Cons.IH [of "buf @ [b]"] False by (auto simp: Let_def Suc_diff_Suc split: conn_end.splits)
    next
      case f: False
      then have "maxB = length buf" using Cons.prems by simp
      then show ?thesis using False by (simp add: Let_def)
    qed
  qed (use Cons.prems in \<open>simp add: Let_def\<close>)
qed (auto simp: Let_def split: conn_end.splits)

text \<open>
  Reading one frame. However the bytes arrive, a frame is the first line, if it is complete and within the bound; a longer one is
  refused as soon as it exceeds the bound, and a connection that ends before the line end gives the error that tells whether anything was
  read. What follows the line stays for the next frame.
\<close>

theorem readFrame_exact:
  "readFrame maxB e bs =
    (let l = takeWhile (\<lambda>c. c \<noteq> CHR 0x0A) bs in
     if length l > maxB then (Inl FrameTooLarge, drop (Suc maxB) bs)
     else if CHR 0x0A \<in> set bs then (Inr l, drop (Suc (length l)) bs)
     else (Inl (case e of EndEOF \<Rightarrow> if bs \<noteq> [] then FrameUnexpectedEOF else FrameEOF | EndError m \<Rightarrow> FrameIO m), []))"
  using read_frame_eq [of "[]" maxB e bs] by (simp add: readFrame_def Let_def)

text \<open>
  Which responses are accepted: a call succeeds exactly if a whole frame arrived in time that parses to an envelope without an error, under
  the identifier of this request or none, with a result of the expected type that decodes; the answer is that result.
\<close>

theorem herdr_call_accepts:
  "snd (herdr_call parse envelope_error dec prefix wantType n out) = Inr x \<longleftrightarrow>
    (\<exists>frame j env res. out = Received (Inr frame) \<and> parse frame = Inr j \<and> decode_envelope j = Some env \<and> env_Error env = None \<and>
      env_ID env \<in> {[], prefix @ ''-'' @ decimal (unat (n + 1))} \<and> env_Result env = Some res \<and>
      (wantType = [] \<or> decode_type res = Some wantType) \<and> dec res = Inr x)"
proof -
  have d: "decodeResponse parse envelope_error dec frame i wantType = Inr x \<longleftrightarrow>
    (\<exists>j env res. parse frame = Inr j \<and> decode_envelope j = Some env \<and> env_Error env = None \<and> env_ID env \<in> {[], i} \<and> env_Result env = Some res \<and>
      (wantType = [] \<or> decode_type res = Some wantType) \<and> dec res = Inr x)" for frame i
    unfolding decodeResponse_def by (auto split: sum.splits option.splits if_splits)
  show ?thesis
  proof (cases "\<exists>frame. out = Received (Inr frame)")
    case True
    then show ?thesis using d by (auto simp: herdr_call_def nextID_def)
  qed (auto simp: herdr_call_def nextID_def split: call_outcome.splits sum.splits)
qed

section \<open>internal/herdr/events.go\<close>

record herdr_Backoff =
  hb_Initial :: duration
  hb_Max :: duration
  hb_Factor :: rat

definition DefaultBackoff :: herdr_Backoff where
  "DefaultBackoff = \<lparr>hb_Initial = 500000000, hb_Max = 15000000000, hb_Factor = 2\<rparr>"

definition DefaultStableSubscription :: duration where "DefaultStableSubscription = 5000000000"

definition normalized :: "herdr_Backoff \<Rightarrow> herdr_Backoff" where
  "normalized b =
     (let b = (if hb_Initial b \<le> 0 then b\<lparr>hb_Initial := hb_Initial DefaultBackoff\<rparr> else b);
          b = (if hb_Max b < hb_Initial b then b\<lparr>hb_Max := hb_Initial b\<rparr> else b)
      in if hb_Factor b < 1 then b\<lparr>hb_Factor := hb_Factor DefaultBackoff\<rparr> else b)"

definition hb_next :: "(rat \<Rightarrow> rat) \<Rightarrow> herdr_Backoff \<Rightarrow> duration \<Rightarrow> duration" where
  "hb_next fl b d = max (min (to_int64 (fl (fl (of_int d) * hb_Factor b))) (hb_Max b)) (hb_Initial b)"

definition frameIsSubscriptionStarted :: "(string \<Rightarrow> string + json) \<Rightarrow> string \<Rightarrow> bool" where
  "frameIsSubscriptionStarted parse frame =
     (case parse frame of
        Inl m \<Rightarrow> False
      | Inr j \<Rightarrow>
          (case decode_envelope j of
             None \<Rightarrow> False
           | Some env \<Rightarrow> if env_Error env \<noteq> None then False
               else (case env_Result env of None \<Rightarrow> False | Some res \<Rightarrow> decode_type res = Some ''subscription_started'')))"

text \<open>
  One connection: whether it was opened and the request written, the bytes it delivers, and how long it stayed up after the start. The
  frames are counted until one cannot be read.
\<close>

record sub_conn =
  sc_opened :: bool
  sc_bytes :: string
  sc_end :: conn_end
  sc_lasted :: duration

lemma read_frame_shorter:
  assumes "(Inr frame, rest) = readFrame maxB e bs" shows "length rest < length bs"
proof -
  have "CHR 0x0A \<in> set bs \<and> rest = drop (Suc (length (takeWhile (\<lambda>c. c \<noteq> CHR 0x0A) bs))) bs"
    using assms read_frame_eq [of "[]" maxB e bs] by (auto simp: readFrame_def Let_def split: if_splits)
  then show ?thesis by (cases bs) auto
qed

function later_frames :: "nat \<Rightarrow> conn_end \<Rightarrow> string \<Rightarrow> nat" where
  "later_frames maxB e bs = (case readFrame maxB e bs of (Inl err, rest) \<Rightarrow> 0 | (Inr frame, rest) \<Rightarrow> Suc (later_frames maxB e rest))"
  by pat_completeness auto
termination by (relation "measure (\<lambda>(maxB, e, bs). length bs)") (auto intro: read_frame_shorter)

declare later_frames.simps [simp del]

text \<open>The result of \<open>session\<close> and the number of wake-ups it signals.\<close>

definition sub_session :: "(string \<Rightarrow> string + json) \<Rightarrow> nat \<Rightarrow> sub_conn \<Rightarrow> bool \<times> nat" where
  "sub_session parse maxB c =
     (if \<not> sc_opened c then (False, 0)
      else case readFrame maxB (sc_end c) (sc_bytes c) of
          (Inl err, rest) \<Rightarrow> (False, 0)
        | (Inr first, rest) \<Rightarrow>
            if \<not> frameIsSubscriptionStarted parse first then (False, 0)
            else let n = later_frames maxB (sc_end c) rest in (n > 0 \<or> sc_lasted c \<ge> DefaultStableSubscription, Suc n))"

text \<open>The delays that \<open>Run\<close> waits after each session, until it is cancelled.\<close>

fun sub_delays :: "(rat \<Rightarrow> rat) \<Rightarrow> herdr_Backoff \<Rightarrow> duration \<Rightarrow> bool list \<Rightarrow> duration list" where
  "sub_delays fl b delay [] = []"
| "sub_delays fl b delay (ok # ss) =
     (let delay = (if ok then hb_Initial b else delay) in delay # sub_delays fl b (if ok then delay else hb_next fl b delay) ss)"

section \<open>The pauses between two connections\<close>

lemma normalized_ok: "0 < hb_Initial (normalized b)" "hb_Initial (normalized b) \<le> hb_Max (normalized b)" "1 \<le> hb_Factor (normalized b)"
  by (simp_all add: normalized_def DefaultBackoff_def Let_def)

lemma hb_next_double:
  assumes "rounds fl" "hb_Factor b = 2" "0 \<le> d" "d \<le> 2 ^ 52" "hb_Initial b \<le> d" "hb_Initial b \<le> hb_Max b"
  shows "hb_next fl b d = min (2 * d) (hb_Max b)"
proof -
  have f: "fl (of_int n) = of_int n" if "\<bar>n\<bar> \<le> 2 ^ 53" for n using assms(1) that by (simp add: rounds_def)
  have "fl (of_int d) = of_int d" using assms(3,4) by (intro f) simp
  moreover have "fl (of_int (d * 2)) = of_int (d * 2)" using assms(3,4) by (intro f) simp
  ultimately have "fl (fl (of_int d) * 2) = of_int (d * 2)" by simp
  moreover have "to_int64 (of_int (d * 2)) = d * 2" using assms(3,4) by (intro to_int64_int) auto
  ultimately show ?thesis using assms(2,3,5,6) by (simp add: hb_next_def)
qed

text \<open>How many sessions in a row, up to the one before, were not stable.\<close>

fun unstable_before :: "nat \<Rightarrow> bool list \<Rightarrow> nat list" where
  "unstable_before k [] = []"
| "unstable_before k (ok # ss) = (if ok then 0 else k) # unstable_before (if ok then 0 else Suc k) ss"

definition doubled :: "herdr_Backoff \<Rightarrow> nat \<Rightarrow> duration" where
  "doubled b k = min (hb_Initial b * 2 ^ k) (hb_Max b)"

lemma doubled_next:
  assumes "rounds fl" "hb_Factor b = 2" "0 < hb_Initial b" "hb_Initial b \<le> hb_Max b" "hb_Max b \<le> 2 ^ 52"
  shows "hb_next fl b (doubled b k) = doubled b (Suc k)"
proof -
  have "hb_Initial b \<le> hb_Initial b * 2 ^ k" using assms(3) by simp
  then have "hb_next fl b (doubled b k) = min (2 * doubled b k) (hb_Max b)"
    using assms by (intro hb_next_double) (auto simp: doubled_def)
  then show ?thesis using assms(3,4) by (auto simp: doubled_def min_def)
qed

lemma sub_delays_doubled:
  assumes "rounds fl" "hb_Factor b = 2" "0 < hb_Initial b" "hb_Initial b \<le> hb_Max b" "hb_Max b \<le> 2 ^ 52"
  shows "sub_delays fl b (doubled b k) ss = map (doubled b) (unstable_before k ss)"
proof (induction ss arbitrary: k)
  case (Cons ok ss)
  have "hb_Initial b = doubled b 0" using assms(4) by (simp add: doubled_def)
  then show ?case using Cons [of 0] Cons [of "Suc k"] doubled_next [OF assms] by (cases ok) (simp_all add: Let_def)
qed simp

text \<open>
  The pauses of the event subscriber. With the standard policy the pause after a connection is half a second, doubled for every connection
  in a row before it that was not stable, and at most fifteen seconds; a connection that was accepted and dropped at once does
  not set it back.
\<close>

theorem subscriber_pauses:
  assumes "rounds fl"
  shows "sub_delays fl (normalized DefaultBackoff) (hb_Initial (normalized DefaultBackoff)) ss =
    map (\<lambda>k. min (500000000 * 2 ^ k) 15000000000) (unstable_before 0 ss)"
proof -
  have n: "normalized DefaultBackoff = DefaultBackoff" by (simp add: normalized_def DefaultBackoff_def)
  have d: "doubled DefaultBackoff = (\<lambda>k. min (500000000 * 2 ^ k) 15000000000)" by (auto simp: doubled_def DefaultBackoff_def)
  have "hb_Initial DefaultBackoff = doubled DefaultBackoff 0" by (simp add: doubled_def DefaultBackoff_def)
  then show ?thesis using sub_delays_doubled [OF assms, of DefaultBackoff 0 ss] unfolding n d [symmetric] by (simp add: DefaultBackoff_def)
qed

theorem subscriber_pauses_witness:
  "sub_delays (\<lambda>x. x) (normalized DefaultBackoff) (hb_Initial (normalized DefaultBackoff)) [False, False, True, False] = [500000000, 1000000000, 500000000, 500000000]"
proof -
  have "rounds (\<lambda>x. x)" by (simp add: rounds_def mono_def)
  from subscriber_pauses [OF this, of "[False, False, True, False]"] show ?thesis by (simp del: sub_delays.simps)
qed

end
