(* ===== verification/HerdrClient.thy ===== *)
theory HerdrClient
  imports HerdrTransport AuthPairing GoPaths
begin

text \<open>
  The discovery of agent kinds (herdr/discover.go), the resolution of paths (herdr/resolve.go), the list requests (herdr/lists.go, snapshot.go,
  events.go) and the handshake (herdr/ping.go).
\<close>

section \<open>internal/herdr/discover.go\<close>

definition DefaultMaxCommandBytes :: int where "DefaultMaxCommandBytes = 65536"
definition maxAgentKindLen :: nat where "maxAgentKindLen = 64"
definition CodeDiscovery :: string where "CodeDiscovery = ''agent_kinds_unavailable''"

record boundedBuffer =
  bb_max :: int
  bb_buf :: string

definition bb_Write :: "boundedBuffer \<Rightarrow> string \<Rightarrow> boundedBuffer" where
  "bb_Write b p =
     (let room = bb_max b - int (length (bb_buf b)) in
      if room > 0 then b\<lparr>bb_buf := bb_buf b @ take (nat (min room (int (length p)))) p\<rparr> else b)"

definition captured :: "int \<Rightarrow> string list \<Rightarrow> string" where
  "captured limitB ws = bb_buf (foldl bb_Write \<lparr>bb_max = (if limitB \<le> 0 then DefaultMaxCommandBytes else limitB), bb_buf = []\<rparr> ws)"

definition kind_char :: "char \<Rightarrow> bool" where
  "kind_char c \<longleftrightarrow> 0x61 \<le> ord c \<and> ord c \<le> 0x7A \<or> 0x30 \<le> ord c \<and> ord c \<le> 0x39 \<or> c = CHR ''-'' \<or> c = CHR ''_''"

definition validKindIdent :: "string \<Rightarrow> bool" where
  "validKindIdent s =
     (case s of
        [] \<Rightarrow> False
      | c # cs \<Rightarrow> length s \<le> maxAgentKindLen \<and> 0x61 \<le> ord c \<and> ord c \<le> 0x7A \<and> list_all kind_char cs)"

fun collect_kinds :: "string list \<Rightarrow> string list \<Rightarrow> string list" where
  "collect_kinds [] kinds = kinds"
| "collect_kinds (field # fs) kinds =
     (let kind = TrimSpace field in
      if kind = [] \<or> \<not> validKindIdent kind then collect_kinds fs kinds
      else if kind \<in> set kinds then collect_kinds fs kinds
      else collect_kinds fs (kinds @ [kind]))"

fun kinds_line :: "string list \<Rightarrow> string list option" where
  "kinds_line [] = None"
| "kinds_line (raw # ls) =
     (let line = TrimSpace raw in
      if \<not> HasPrefix line ''kinds:'' then kinds_line ls
      else let kinds = collect_kinds (Split (drop 6 line) CHR ''|'') [] in if kinds = [] then None else Some kinds)"

definition parseAgentKinds :: "string \<Rightarrow> string list option" where
  "parseAgentKinds data = kinds_line (Split data CHR 0x0A)"

text \<open>How the command ended: regularly or with an exit status, or not at all, with the message of the error; and what the context says.\<close>

datatype run_end = RunExited | RunFailed string
datatype ctx_state = CtxLive | CtxTooLate | CtxStopped

definition StartableAgentKinds :: "string list \<Rightarrow> string list \<Rightarrow> run_end \<Rightarrow> ctx_state \<Rightarrow> Error + string list" where
  "StartableAgentKinds out errs e ctx =
     (let stdout = captured DefaultMaxCommandBytes out; stderr = captured DefaultMaxCommandBytes errs in
      case ctx of
        CtxTooLate \<Rightarrow> Inl (newError CodeTimeout ''agent-kind discovery timed out'')
      | CtxStopped \<Rightarrow> Inl (newError CodeCanceled ''agent-kind discovery canceled'')
      | CtxLive \<Rightarrow>
          (case parseAgentKinds stdout of
             Some kinds \<Rightarrow> Inr kinds
           | None \<Rightarrow>
               (case parseAgentKinds stderr of
                  Some kinds \<Rightarrow> Inr kinds
                | None \<Rightarrow> Inl (newError CodeDiscovery
                    (case e of RunExited \<Rightarrow> ''herdr agent output contained no parseable kinds: line''
                     | RunFailed m \<Rightarrow> ''could not run herdr for agent-kind discovery: '' @ m)))))"

section \<open>internal/herdr/resolve.go\<close>

text \<open>\<open>home\<close> is the outcome of \<open>os.UserHomeDir\<close>.\<close>

definition expandHome :: "string option \<Rightarrow> string \<Rightarrow> string option" where
  "expandHome home p =
     (if p = ''~'' \<or> HasPrefix p ''~/'' then (case home of None \<Rightarrow> None | Some h \<Rightarrow> if p = ''~'' then Some h else Some (Join [h, drop 2 p]))
      else Some p)"

definition ResolveSocketPath :: "(string \<Rightarrow> string) \<Rightarrow> string option \<Rightarrow> string \<Rightarrow> string option" where
  "ResolveSocketPath env home configured =
     (let p = TrimSpace configured; q = TrimSpace (env ''HERDR_SOCKET_PATH'') in
      if p \<noteq> [] then expandHome home p
      else if q \<noteq> [] then expandHome home q
      else map_option (\<lambda>h. Join [h, ''.config'', ''herdr'', ''herdr.sock'']) home)"

definition ResolveBinaryPath :: "(string \<Rightarrow> string) \<Rightarrow> string option \<Rightarrow> string \<Rightarrow> string" where
  "ResolveBinaryPath env home configured =
     (let p = TrimSpace configured; q = TrimSpace (env ''HERDR_BIN_PATH'') in
      if p \<noteq> [] then (case expandHome home p of Some x \<Rightarrow> x | None \<Rightarrow> p)
      else if q \<noteq> [] then q
      else ''herdr'')"

section \<open>internal/herdr/lists.go, snapshot.go and events.go: requests\<close>

definition WorkspaceList :: client_call where "WorkspaceList = call ''workspace.list'' [] ''workspace_list''"

definition TabList :: "string \<Rightarrow> client_call" where
  "TabList workspaceID = call ''tab.list'' (omit_string ''workspace_id'' (optStr workspaceID)) ''tab_list''"

definition PaneList :: "string \<Rightarrow> client_call" where
  "PaneList workspaceID = call ''pane.list'' (omit_string ''workspace_id'' (optStr workspaceID)) ''pane_list''"

definition session_snapshot :: client_call where "session_snapshot = call ''session.snapshot'' [] ''session_snapshot''"

record herdr_Subscription =
  sn_Type :: string
  sn_WorkspaceID :: string
  sn_TabID :: string
  sn_PaneID :: string

definition LifecycleSubscriptions :: "herdr_Subscription list" where
  "LifecycleSubscriptions =
     map (\<lambda>t. \<lparr>sn_Type = t, sn_WorkspaceID = [], sn_TabID = [], sn_PaneID = []\<rparr>)
       [''workspace.created'', ''workspace.closed'', ''workspace.renamed'', ''workspace.moved'', ''workspace.focused'',
        ''worktree.created'', ''worktree.opened'', ''worktree.removed'',
        ''tab.created'', ''tab.closed'', ''tab.renamed'', ''tab.moved'', ''tab.focused'',
        ''pane.created'', ''pane.closed'', ''pane.updated'', ''pane.focused'', ''pane.moved'', ''pane.exited'', ''pane.agent_detected'',
        ''layout.updated'']"

definition subscription_json :: "herdr_Subscription \<Rightarrow> json" where
  "subscription_json s =
     JObj ((''type'', JStr (sn_Type s)) # omit_string ''workspace_id'' (optStr (sn_WorkspaceID s)) @ omit_string ''tab_id'' (optStr (sn_TabID s)) @
       omit_string ''pane_id'' (optStr (sn_PaneID s)))"

text \<open>The frame of a request, and the one that subscribes.\<close>

definition request_frame :: "string \<Rightarrow> string \<Rightarrow> json \<Rightarrow> string" where
  "request_frame i meth params = encode_json (JObj [(''id'', JStr i), (''method'', JStr meth), (''params'', params)]) @ [CHR 0x0A]"

definition subscribe_frame :: "string \<Rightarrow> herdr_Subscription list \<Rightarrow> string" where
  "subscribe_frame i ss = request_frame i ''events.subscribe'' (JObj [(''subscriptions'', JArr (map subscription_json ss))])"

section \<open>internal/herdr/ping.go\<close>

definition Protocol :: int where "Protocol = 19"
definition MinHerdrVersion :: string where "MinHerdrVersion = ''0.8.0''"

record Capabilities =
  cap_LiveHandoff :: bool
  cap_DetachedServerDaemon :: bool

record Pong =
  pg_Version :: string
  pg_Protocol :: int
  pg_Capabilities :: Capabilities

definition store_capabilities :: "Capabilities \<Rightarrow> json \<Rightarrow> Capabilities option" where
  "store_capabilities c j = do {
     p \<leftarrow> select_known [''live_handoff'', ''detached_server_daemon''] j;
     l \<leftarrow> store_all store_bool (cap_LiveHandoff c) (field_values p ''live_handoff'');
     d \<leftarrow> store_all store_bool (cap_DetachedServerDaemon c) (field_values p ''detached_server_daemon'');
     Some \<lparr>cap_LiveHandoff = l, cap_DetachedServerDaemon = d\<rparr> }"

text \<open>The discriminator of the answer is not kept.\<close>

definition decode_pong :: "json \<Rightarrow> Pong option" where
  "decode_pong j = do {
     p \<leftarrow> select_known [''type'', ''version'', ''protocol'', ''capabilities''] j;
     t \<leftarrow> get_string p ''type''; v \<leftarrow> get_string p ''version''; n \<leftarrow> get_int Atoi p ''protocol'';
     c \<leftarrow> store_all store_capabilities \<lparr>cap_LiveHandoff = False, cap_DetachedServerDaemon = False\<rparr> (field_values p ''capabilities'');
     Some \<lparr>pg_Version = v, pg_Protocol = n, pg_Capabilities = c\<rparr> }"

definition ping_request :: client_call where "ping_request = call ''ping'' [] ''pong''"

definition Ping :: "(string \<Rightarrow> string + json) \<Rightarrow> string \<Rightarrow> string \<Rightarrow> string \<Rightarrow> 64 word \<Rightarrow> call_outcome \<Rightarrow> 64 word \<times> (Error + Pong)" where
  "Ping parse envelope_error pong_error prefix n out =
     herdr_call parse envelope_error (\<lambda>j. case decode_pong j of None \<Rightarrow> Inl pong_error | Some p \<Rightarrow> Inr p) prefix ''pong'' n out"

text \<open>The digits of one component, in 64 bits.\<close>

fun version_number :: "int \<Rightarrow> rune list \<Rightarrow> int option" where
  "version_number n [] = Some n"
| "version_number n (r # rs) = (if r < 0x30 \<or> r > 0x39 then None else version_number (int64 (int64 (n * 10) + int (r - 0x30))) rs)"

definition parseVersion :: "string \<Rightarrow> (int \<times> int \<times> int) option" where
  "parseVersion s =
     (let s = TrimPrefix (TrimSpace s) ''v'' in
      if s = [] then None
      else let s = (case IndexAny s {CHR ''-'', CHR ''+''} of Some i \<Rightarrow> take i s | None \<Rightarrow> s); parts = Split s CHR ''.'' in
        if length parts > 3 then None
        else case those (map (\<lambda>part. if part = [] then None else version_number 0 (runes part)) parts) of
            None \<Rightarrow> None
          | Some ns \<Rightarrow> let ns = ns @ replicate (3 - length ns) 0 in Some (ns ! 0, ns ! 1, ns ! 2))"

definition versionOlderThan :: "string \<Rightarrow> string \<Rightarrow> bool \<times> bool" where
  "versionOlderThan v lowest =
     (case (parseVersion v, parseVersion lowest) of
        (Some (a, b, c), Some (x, y, z)) \<Rightarrow>
          if a \<noteq> x then (a < x, True) else if b \<noteq> y then (b < y, True) else if c \<noteq> z then (c < z, True) else (False, True)
      | _ \<Rightarrow> (False, False))"

text \<open>The digits of a positive number from the end; the negation of the least 64-bit integer is itself.\<close>

function itoa_loop :: "int \<Rightarrow> string \<Rightarrow> string" where
  "itoa_loop n b = (if n > 0 then itoa_loop (n div 10) (char_of (48 + nat (n mod 10)) # b) else b)"
  by pat_completeness auto
termination by (relation "measure (\<lambda>(n, b). nat n)") auto

declare itoa_loop.simps [simp del]

definition itoa :: "int \<Rightarrow> string" where
  "itoa n =
     (if n = 0 then ''0''
      else let neg = n < 0; n = (if neg then int64 (- n) else n); b = itoa_loop n [] in if neg then CHR ''-'' # b else b)"

definition Handshake :: "Error + Pong \<Rightarrow> Error + Pong" where
  "Handshake pong =
     (case pong of
        Inl e \<Rightarrow> Inl e
      | Inr p \<Rightarrow>
          if pg_Protocol p \<noteq> Protocol
          then Inl (newError CodeIncompatible (''herdr protocol '' @ itoa (pg_Protocol p) @ '' is not supported; require '' @ itoa Protocol))
          else if versionOlderThan (pg_Version p) MinHerdrVersion = (True, True)
          then Inl (newError CodeIncompatible (''herdr version '' @ sanitizeMessage (pg_Version p) @ '' is older than the required '' @ MinHerdrVersion))
          else Inr p)"

section \<open>Accepted servers\<close>

lemma parse_MinHerdrVersion: "parseVersion MinHerdrVersion = Some (0, 8, 0)"
proof -
  have "TrimSpace MinHerdrVersion = MinHerdrVersion" by (rule TrimSpace_plain) (simp add: MinHerdrVersion_def)
  then show ?thesis unfolding parseVersion_def by (simp add: MinHerdrVersion_def) code_simp
qed


section \<open>Discovered kinds\<close>

lemma bb_Write_take:
  assumes "int (length (bb_buf b)) \<le> bb_max b"
  shows "bb_Write b w = b\<lparr>bb_buf := take (nat (bb_max b)) (bb_buf b @ w)\<rparr>"
proof (cases "int (length (bb_buf b)) = bb_max b")
  case True
  then show ?thesis by (simp add: bb_Write_def Let_def)
next
  case False
  then have "nat (min (bb_max b - int (length (bb_buf b))) (int (length w))) = min (nat (bb_max b) - length (bb_buf b)) (length w)" using assms by auto
  moreover have "length (bb_buf b) \<le> nat (bb_max b)" using assms by simp
  ultimately show ?thesis using False assms by (simp add: bb_Write_def Let_def min_def)
qed

lemma bb_Writes_take:
  "int (length (bb_buf b)) \<le> bb_max b \<Longrightarrow> bb_buf (foldl bb_Write b ws) = take (nat (bb_max b)) (bb_buf b @ concat ws)"
proof (induction ws arbitrary: b)
  case (Cons w ws)
  let ?b = "bb_Write b w"
  have b: "bb_max ?b = bb_max b" "bb_buf ?b = take (nat (bb_max b)) (bb_buf b @ w)" by (simp_all add: bb_Write_take [OF Cons.prems])
  have "length (bb_buf ?b) \<le> nat (bb_max b)" unfolding b(2) by simp
  then have "int (length (bb_buf ?b)) \<le> bb_max ?b" using Cons.prems b(1) by linarith
  from Cons.IH [OF this] have "bb_buf (foldl bb_Write ?b ws) = take (nat (bb_max b)) (take (nat (bb_max b)) (bb_buf b @ w) @ concat ws)"
    unfolding b .
  also have "\<dots> = take (nat (bb_max b)) ((bb_buf b @ w) @ concat ws)" by (simp only: take_append take_take length_take) (auto simp: min_def)
  finally show ?case by simp
qed simp

text \<open>What is kept of a stream is its first bytes, up to the bound, however they arrive.\<close>

lemma captured_take: "0 < m \<Longrightarrow> captured m ws = take (nat m) (concat ws)"
  using bb_Writes_take [of "\<lparr>bb_max = m, bb_buf = []\<rparr>" ws] by (simp add: captured_def)

lemma collect_kinds_eq:
  "distinct kinds \<Longrightarrow> distinct (collect_kinds fs kinds) \<and> set (collect_kinds fs kinds) = set kinds \<union> {k \<in> TrimSpace ` set fs. validKindIdent k} \<and>
     (\<exists>ks. collect_kinds fs kinds = kinds @ ks)"
proof (induction fs arbitrary: kinds)
  case (Cons f fs)
  have v: "validKindIdent [] = False" by (simp add: validKindIdent_def)
  show ?case using Cons.IH [of kinds] Cons.IH [of "kinds @ [TrimSpace f]"] Cons.prems v by (auto simp: Let_def)
qed simp

text \<open>
  The agent kinds that are offered. When discovery succeeds, the kinds are those named on the first line that lists kinds, of the standard
  output or else of the standard error as far as they are captured: each well-formed one, none twice, and at least one. A text
  without such a line never yields a kind.
\<close>

theorem discovered_kinds:
  assumes "StartableAgentKinds out errs e ctx = Inr kinds"
  shows "ctx = CtxLive \<and> kinds \<noteq> [] \<and> distinct kinds \<and>
    (\<exists>stream \<in> {out, errs}. \<exists>line \<in> set (Split (captured DefaultMaxCommandBytes stream) CHR 0x0A). HasPrefix (TrimSpace line) ''kinds:'' \<and>
      set kinds = {k \<in> TrimSpace ` set (Split (drop 6 (TrimSpace line)) CHR ''|''). validKindIdent k})"
proof -
  have l: "kinds \<noteq> [] \<and> distinct kinds \<and> (\<exists>line \<in> set ls. HasPrefix (TrimSpace line) ''kinds:'' \<and>
      set kinds = {k \<in> TrimSpace ` set (Split (drop 6 (TrimSpace line)) CHR ''|''). validKindIdent k})" if "kinds_line ls = Some kinds" for ls
    using that
  proof (induction ls)
    case (Cons raw ls)
    then show ?case using collect_kinds_eq [of "[]" "Split (drop 6 (TrimSpace raw)) CHR ''|''"] by (auto simp: Let_def split: if_splits)
  qed simp
  have c: "ctx = CtxLive" using assms by (auto simp: StartableAgentKinds_def Let_def split: ctx_state.splits)
  obtain stream where "stream \<in> {out, errs}" "parseAgentKinds (captured DefaultMaxCommandBytes stream) = Some kinds"
    using assms by (auto simp: StartableAgentKinds_def Let_def split: ctx_state.splits option.splits)
  then show ?thesis using l [of "Split (captured DefaultMaxCommandBytes stream) CHR 0x0A"] c by (auto simp: parseAgentKinds_def)
qed

theorem discovered_kinds_witness:
  "StartableAgentKinds [] [''kinds:claude|codex'', ''|claude''] RunExited CtxLive = Inr [''claude'', ''codex''] \<and> distinct [''claude'', ''codex'']"
proof -
  have c: "captured DefaultMaxCommandBytes [''kinds:claude|codex'', ''|claude''] = ''kinds:claude|codex|claude''" "captured DefaultMaxCommandBytes [] = []"
    by (simp_all add: captured_take DefaultMaxCommandBytes_def)
  have "StartableAgentKinds [] [''kinds:claude|codex'', ''|claude''] RunExited CtxLive = Inr [''claude'', ''codex'']"
    by (simp add: StartableAgentKinds_def c parseAgentKinds_def TrimSpace_plain HasPrefix_def validKindIdent_def kind_char_def maxAgentKindLen_def)
  from this discovered_kinds [OF this] show ?thesis by blast
qed

section \<open>The decimal form of the protocol\<close>

lemma itoa_loop_decimal: "0 \<le> n \<Longrightarrow> itoa_loop n b = (if n = 0 then [] else decimal (nat n)) @ b"
proof (induction n b rule: itoa_loop.induct)
  case (1 n b)
  show ?case
  proof (cases "n = 0")
    case False
    then have p: "0 < n" using "1.prems" by simp
    have d: "decimal (nat n) = (if nat n < 10 then [char_of (48 + nat n)] else decimal (nat n div 10) @ [char_of (48 + nat n mod 10)])" by (subst decimal.simps) simp
    have "nat (n div 10) = nat n div 10" "nat (n mod 10) = nat n mod 10" using p by (simp_all add: nat_div_distrib nat_mod_distrib)
    moreover have "n div 10 = 0 \<longleftrightarrow> nat n < 10" using p by auto
    ultimately show ?thesis using "1.IH" p d by (subst itoa_loop.simps) auto
  qed (simp add: itoa_loop.simps)
qed

text \<open>The decimal form is right for every 64-bit integer but the least one, of which only the sign is left.\<close>

lemma itoa_int_literal: "- (2 ^ 63) < n \<Longrightarrow> n < 2 ^ 63 \<Longrightarrow> itoa n = int_literal n"
proof (cases "n < 0")
  case True
  assume "- (2 ^ 63) < n" "n < 2 ^ 63"
  then have "int64 (- n) = - n" using True by (simp add: int64_def)
  then show ?thesis using True by (simp add: itoa_def itoa_loop_decimal int_literal_def Let_def)
next
  case False
  have "char_of (48 :: nat) = CHR ''0''" by code_simp
  then show ?thesis using False by (cases "n = 0") (simp_all add: itoa_def itoa_loop_decimal int_literal_def Let_def decimal.simps)
qed

lemma itoa_least: "itoa (- (2 ^ 63)) = ''-''"
  by (simp add: itoa_def int64_def itoa_loop.simps Let_def)

end
