(* ===== verification/Spec2Isabelle.thy ===== *)
theory Spec2Isabelle
  imports AnsiFilter StateLoop InterpretKeys AuthPairing AuthSession ServerStores ServerRuns MutationTargets MutationSystem
    ServerSystem ServerPairing TerminalSession EventDelivery TerminalRoute ServerViews TunnelQuick DaemonStart HerdrClient
begin

text \<open>
  Verification of herdr-phone, a relay that lets a phone watch and steer the terminal agents of a Herdr
  workspace manager.

  \<^bold>\<open>The program.\<close> A daemon (\<open>internal/integration\<close>) loads a configuration (\<open>internal/config\<close>), polls Herdr over a socket
  (\<open>internal/herdr\<close>) and keeps the topology in an engine (\<open>internal/state\<close>) that gives every pane a generation and broadcasts
  snapshots to bounded client queues. An HTTP server on the loopback (\<open>internal/server\<close>) sits behind a tunnel. Each request
  passes a middleware (host, Access token, session, origin, CSRF, content type, rate limit) over an authenticator
  (\<open>internal/auth\<close>: Access tokens and their key cache, sessions, single-use pairing). A mutation is dispatched to Herdr under an
  allowlist, a generation guard, an idempotency reservation and a confirmation; a run view reads a pane, sanitizes what it
  shows (\<open>internal/security\<close>) and may interpret it as an agent's dialogue (\<open>internal/interpret\<close>); an event stream pushes snapshots, and a
  terminal session bridges a websocket to a controller process (\<open>internal/terminal\<close>). A supervisor keeps cloudflared running
  (\<open>internal/tunnel\<close>), and the operator starts, finds and stops the daemon through a runtime file, a lock and a control socket
  (\<open>internal/daemon\<close>).

  \<^bold>\<open>Theories and sources.\<close>
  \<^item> \<open>Prelude\<close>, \<open>GoStrings\<close>, \<open>Strconv\<close>, \<open>Base64\<close>, \<open>Json\<close>, \<open>GoPaths\<close>: what the code uses of Go. Strings are byte strings, their runes are
    decoded as \<open>range\<close> does it; durations and times are integers in nanoseconds; \<open>encoding/json\<close> is modelled from a parsed value on
    (field matching that ignores case, duplicate keys, strictness, integer ranges), \<open>os.Expand\<close> and \<open>filepath.Clean\<close> in full.
  \<^item> \<open>Sanitize\<close> (security/redact.go, herdr/errors.go, tunnel/logparse.go): the sanitizers. \<open>AnsiFilter\<close> (security/ansi.go): the
    streaming terminal filter, byte by byte.
  \<^item> \<open>HerdrModel\<close> (herdr/models.go, keys.go): topology and key allowlist. \<open>HerdrCalls\<close> (herdr/mutations.go, agents.go): what each typed
    call refuses and the request it sends. \<open>HerdrTransport\<close>, \<open>HerdrClient\<close> (herdr/client.go, wire.go, events.go, ping.go, discover.go, resolve.go, lists.go,
    snapshot.go): frames and responses, the event subscriber, the handshake, the discovery of agent kinds.
  \<^item> \<open>StateSnapshot\<close>, \<open>StateSubscriber\<close>, \<open>StateEngine\<close>, \<open>StateInvariant\<close>, \<open>StateLoop\<close>, \<open>StateRuns\<close> (state/*.go): the hashed projection, the client
    queue, the engine and its reachable states, the poll loop as a transition system, the run list.
  \<^item> \<open>InterpretLines\<close>, \<open>InterpretGrammars\<close>, \<open>Interpret\<close>, \<open>InterpretKeys\<close> (interpret/*.go): line cleaning, the two grammars, the bounds, the
    keys that answer a prompt.
  \<^item> \<open>SingleUse\<close>: the contract of single-use secrets, a locale that pairing and confirmations interpret. \<open>AuthPairing\<close> (auth/pairing.go),
    \<open>AuthSession\<close> (auth/session.go, csrf.go), \<open>AuthJwt\<close> (auth/jwt.go), \<open>AuthJwks\<close> (auth/jwks.go), \<open>AuthAdapter\<close> (integration/auth.go),
    \<open>AuthSystem\<close>: the authenticator under any sequence of requests. The locales \<open>key_source\<close> and \<open>token_verifier\<close> are what the
    verifier asks of the key cache and the adapter of the verifier.
  \<^item> \<open>ServerStores\<close>, \<open>RateLimiter\<close> (server/stores.go), \<open>ServerRuns\<close> (server/runs.go, server.go), \<open>ServerMutations\<close>, \<open>MutationGuards\<close>,
    \<open>MutationTargets\<close>, \<open>MutationSystem\<close> (server/mutations.go, upstream.go), \<open>MutationDispatch\<close> (integration/mutate.go, agentkinds.go),
    \<open>ServerRoutes\<close> (server/routes.go), \<open>ServerPairing\<close> (server/pairing.go), \<open>ServerSystem\<close>: the whole path of a mutation. The locale
    \<open>authenticator\<close> is what the middleware asks of the adapter.
  \<^item> \<open>Config\<close> (config/config.go, paths.go), \<open>Startup\<close> (config/verify.go, integration/configmap.go, paths.go, directories.go, stack.go).
  \<^item> \<open>TerminalProtocol\<close>, \<open>TerminalBridge\<close>, \<open>TerminalStreams\<close>, \<open>TerminalSession\<close> (terminal/protocol.go, bridge.go): the frames and commands, every handler, and the
    goroutines of a session as a transition system over its channels. \<open>TerminalRoute\<close> (server/terminalroute.go, terminal/controller.go): the
    attach handler.
  \<^item> \<open>EventStream\<close>, \<open>EventDelivery\<close> (server/events.go, integration/adapters.go): the hub, its clients and the forwarding goroutine as one transition
    system with the engine. \<open>Redact\<close> (security/redact.go): the secret patterns and their replacement. \<open>ServerViews\<close> (server/snapshot.go,
    directories.go, audit.go, herdr/reads.go): the read routes and the audit file.
  \<^item> \<open>TunnelConfig\<close> (tunnel/mode.go, args.go, token.go, config/secret.go), \<open>TunnelLogs\<close> (tunnel/logparse.go, logbuf.go, process.go), \<open>TunnelSupervisor\<close>,
    \<open>TunnelBackoff\<close>, \<open>TunnelLifecycle\<close> (tunnel/supervisor.go, backoff.go, orphan.go, token.go): the supervisor's loop as a transition system with cloudflared, the
    context and the callers as its environment. \<open>TunnelStatus\<close>, \<open>TunnelQuick\<close> (daemon/tunnelchild.go, integration/adapters.go, stack.go): how the tunnel is
    reported, and a quick tunnel after a restart.
  \<^item> \<open>DaemonControl\<close> (daemon/runtime.go, control.go, reconcile.go), \<open>DaemonSupervise\<close> (daemon/supervise.go), \<open>DaemonCore\<close> (daemon/daemon.go), \<open>DaemonHost\<close> (daemon/socket.go,
    statelock.go): the daemon, and several processes on one state directory as a transition system. \<open>DaemonStart\<close> (integration/runtime.go): the
    commands of the operator.

  Each stateful component is a record and each method a function that returns the updated record; a method that takes a lock
  is one step, and goroutines that share state are the steps of an inductive relation, run in any order. Errors are values: sums with an error datatype where the code distinguishes them, options where it does not.
  A clock reading, a draw of entropy and an answer of an endpoint are arguments of the operation that makes it.

  \<^bold>\<open>What is shown.\<close> The engine's snapshot, guard table and queues agree in every reachable state, and an accepted generation means
  the same occupant all along. A mutation reaches Herdr exactly under the conditions of the handler, once, on the resource that
  was guarded, however concurrent requests interleave; with the middleware and the authenticator composed, only for a
  genuine credential. Tokens, keys, sessions, pairing secrets and confirmations are characterised exactly or bounded over any
  history. The configuration that loads is inside its bounds and decides which identities get in. The terminal filter is
  independent of chunking, idempotent and never emits what it must drop. Everything the interpreter publishes is sanitized and
  bounded, and its keys answer the option shown. A terminal session forwards exactly the filtered frames and the browser's inputs, in order,
  and ends once cancelled; the event stream delivers the engine's snapshots in order. The supervisor of the tunnel keeps its
  invariants in every reachable state, gives up a tunnel that keeps failing and always stops; its log is the bounded log of the
  sanitized lines. Of the processes on a state directory at most one is past the lock, and a start that succeeds has confirmed what
  it reports. The Herdr client accepts exactly the responses of its own request and the supported servers. The findings (a second capitalisation of a key that escapes the guard, a recycled pane that keeps generation 1, a late
  release of a foreign reservation, a filesystem root that admits nothing, an event stream that stops silently, a tunnel that is reported as connected
  for ever, a quick tunnel that is refused after a restart, a documented tunnel setup that is never accepted, a running daemon whose files are removed) are
  theorems about the same definitions.

  \<^bold>\<open>Parameters.\<close> Code outside the repository is an argument: the JSON and TOML parsers, SHA-256 and the RSA check, \<open>url.Parse\<close> and
  \<open>time.ParseDuration\<close>, the rounding of floating-point token counts (\<open>rounds\<close>: monotone and exact on integers up to 2^53), the file
  system (\<open>filepath.EvalSymlinks\<close>, \<open>os.Stat\<close>), \<open>net.ParseIP\<close>, \<open>math.Pow\<close>, gzip, the process table as \<open>ps\<close> prints it, the output of commands, the Herdr endpoint and
  the certificates endpoint.

  \<^bold>\<open>Bounds.\<close> No definition needs fuel: every loop is structural or has a termination proof. Token times are wrapped to 64 bits where
  the code adds them; durations and the counters of stores are mathematical integers, since the configuration keeps
  durations below 30 days.

  \<^bold>\<open>Not modelled.\<close> Sockets, websockets and processes themselves: the dialling of Herdr and the decoding of its typed results, the accept loops, the start
  and the signals of child processes, which are steps of the environment; the coalescing of concurrent key refreshes; the wiring of
  goroutines in \<open>buildStack\<close>; diagnostics, the command line and the embedded assets, which parse flags and print.
\<close>

end
